(* ===== verification/Prelude.thy ===== *)
theory Prelude
  imports Complex_Main "HOL-Library.AList"
begin

text \<open>
  Shared vocabulary of the development: the machine integers and time values of Go as
  the code uses them, the collections of facts the component proofs share, and generic
  lemmas on association lists and on folds that can stop.

  \<^item> \<open>int64\<close> and \<open>int\<close> are mathematical integers; an operation of the source that is
    not guarded against overflow is written with \<open>wrap64\<close>, the two's complement
    wrap-around. \<open>uint64\<close> is \<open>nat\<close>, with \<open>wrapu64\<close> for the wrap-around.
  \<^item> \<open>time.Time\<close> is an integer number of nanoseconds since the Unix epoch (the wall and
    the monotonic reading are one time line); the zero \<open>Time\<close> is 1 January of year 1.
    \<open>time.Duration\<close> is an integer number of nanoseconds.
  \<^item> a Go map is an association list with distinct keys; the order of the list is one
    possible iteration order.
\<close>

named_theorems zero_simps \<open>definitions of the zero values of the model's records\<close>
named_theorems step_defs \<open>definitions of the operations of the admission controller\<close>
named_theorems valid_defs \<open>definitions of the validity predicates of the code\<close>

subsection \<open>Machine integers\<close>

abbreviation MaxInt64 :: int where "MaxInt64 \<equiv> 9223372036854775807"
abbreviation MinInt64 :: int where "MinInt64 \<equiv> - 9223372036854775808"
abbreviation MaxUint64 :: nat where "MaxUint64 \<equiv> 18446744073709551615"

definition wrap64 :: "int \<Rightarrow> int" where
  "wrap64 x = (x + 9223372036854775808) mod 18446744073709551616 - 9223372036854775808"

definition wrapu64 :: "nat \<Rightarrow> nat" where
  "wrapu64 x = x mod 18446744073709551616"

text \<open>\<open>uint64\<close> subtraction \<open>a - b\<close> of the source.\<close>

definition subu64 :: "nat \<Rightarrow> nat \<Rightarrow> nat" where
  "subu64 a b = nat ((int a - int b) mod 18446744073709551616)"

definition in_int64 :: "int \<Rightarrow> bool" where
  "in_int64 x \<longleftrightarrow> MinInt64 \<le> x \<and> x \<le> MaxInt64"

definition in_uint64 :: "nat \<Rightarrow> bool" where
  "in_uint64 x \<longleftrightarrow> x \<le> MaxUint64"

lemma wrap64_id [simp]: "MinInt64 \<le> x \<Longrightarrow> x \<le> MaxInt64 \<Longrightarrow> wrap64 x = x"
  by (simp add: wrap64_def)

lemma wrap64_in_range: "MinInt64 \<le> wrap64 x \<and> wrap64 x \<le> MaxInt64"
proof -
  have "0 \<le> (x + 9223372036854775808) mod 18446744073709551616"
    and "(x + 9223372036854775808) mod 18446744073709551616 < 18446744073709551616"
    by simp_all
  then show ?thesis by (simp add: wrap64_def)
qed

lemma wrapu64_id [simp]: "x \<le> MaxUint64 \<Longrightarrow> wrapu64 x = x"
  by (simp add: wrapu64_def)

lemma wrapu64_le: "wrapu64 x \<le> MaxUint64"
proof -
  have "x mod 18446744073709551616 < 18446744073709551616" by simp
  then show ?thesis unfolding wrapu64_def by linarith
qed

lemma subu64_exact [simp]:
  assumes "b \<le> a" and "a \<le> MaxUint64"
  shows "subu64 a b = a - b"
proof -
  have "(int a - int b) mod 18446744073709551616 = int a - int b"
    using assms by (intro mod_pos_pos_trivial) linarith+
  moreover have "nat (int a - int b) = a - b" by linarith
  ultimately show ?thesis unfolding subu64_def by argo
qed

subsection \<open>Time\<close>

type_synonym gotime = int
type_synonym duration = int

abbreviation Millisecond :: duration where "Millisecond \<equiv> 1000000"
abbreviation Second :: duration where "Second \<equiv> 1000000000"

definition zeroTime :: gotime where
  "zeroTime = - 62135596800000000000"

definition IsZero :: "gotime \<Rightarrow> bool" where
  "IsZero t \<longleftrightarrow> t = zeroTime"

text \<open>\<open>t.Sub(u)\<close> saturates at the bounds of \<open>Duration\<close>.\<close>

definition Sub :: "gotime \<Rightarrow> gotime \<Rightarrow> duration" where
  "Sub t u = max MinInt64 (min MaxInt64 (t - u))"

definition Unix :: "gotime \<Rightarrow> int" where
  "Unix t = t div Second"

definition time_Unix :: "int \<Rightarrow> gotime" where
  "time_Unix sec = sec * Second"

lemma Sub_mono: "t \<le> t' \<Longrightarrow> Sub t u \<le> Sub t' u"
  by (auto simp: Sub_def)

lemma Sub_nonneg_iff [simp]: "0 \<le> Sub t u \<longleftrightarrow> u \<le> t"
  by (auto simp: Sub_def)

lemma Sub_pos_iff [simp]: "0 < Sub t u \<longleftrightarrow> u < t"
  by (auto simp: Sub_def)

lemma Sub_neg_iff [simp]: "Sub t u < 0 \<longleftrightarrow> t < u"
  by (auto simp: Sub_def)

lemma Sub_exact: "MinInt64 \<le> t - u \<Longrightarrow> t - u \<le> MaxInt64 \<Longrightarrow> Sub t u = t - u"
  by (simp add: Sub_def)

lemma Sub_self [simp]: "Sub t t = 0"
  by (simp add: Sub_def)

lemma Sub_le_max: "Sub t u \<le> MaxInt64"
  by (simp add: Sub_def)

lemma Sub_of_nonneg: "u \<le> t \<Longrightarrow> Sub t u = min MaxInt64 (t - u)"
  by (simp add: Sub_def)

lemma Unix_floor: "Unix t * Second \<le> t" "t < Unix t * Second + Second"
proof -
  have "t = Second * (t div Second) + t mod Second" by simp
  moreover have "0 \<le> t mod Second" "t mod Second < Second" by simp_all
  ultimately show "Unix t * Second \<le> t" "t < Unix t * Second + Second"
    unfolding Unix_def by linarith+
qed

subsection \<open>Association lists as Go maps\<close>

abbreviation keys :: "('k \<times> 'v) list \<Rightarrow> 'k list" where
  "keys xs \<equiv> map fst xs"

lemma map_of_Some_in: "map_of xs k = Some v \<Longrightarrow> (k, v) \<in> set xs"
  by (rule map_of_SomeD)

lemma map_of_eq_Some_iff_distinct:
  "distinct (keys xs) \<Longrightarrow> map_of xs k = Some v \<longleftrightarrow> (k, v) \<in> set xs"
  by (rule map_of_eq_Some_iff)

lemma split_at_key:
  assumes "map_of xs k = Some v" and "distinct (keys xs)"
  shows "\<exists>ys zs. xs = ys @ (k, v) # zs \<and> k \<notin> set (keys ys) \<and> k \<notin> set (keys zs)"
proof -
  from assms(1) have "(k, v) \<in> set xs" by (rule map_of_SomeD)
  then obtain ys zs where xs: "xs = ys @ (k, v) # zs" by (auto dest: split_list)
  with assms(2) have "k \<notin> set (keys ys) \<and> k \<notin> set (keys zs)" by auto
  with xs show ?thesis by blast
qed

lemma update_absent: "k \<notin> set (keys xs) \<Longrightarrow> AList.update k v xs = xs @ [(k, v)]"
  by (induction xs) auto

lemma update_at_key:
  "k \<notin> set (keys ys) \<Longrightarrow> AList.update k v (ys @ (k, u) # zs) = ys @ (k, v) # zs"
  by (induction ys) auto

lemma delete_absent: "k \<notin> set (keys xs) \<Longrightarrow> AList.delete k xs = xs"
  by (induction xs) (auto simp: AList.delete_eq)

lemma delete_at_key:
  assumes "k \<notin> set (keys ys)" and "k \<notin> set (keys zs)"
  shows "AList.delete k (ys @ (k, u) # zs) = ys @ zs"
proof -
  have "AList.delete k (ys @ (k, u) # zs) = AList.delete k ys @ AList.delete k zs"
    by (simp add: AList.delete_eq)
  with assms show ?thesis by (simp add: delete_absent)
qed

subsection \<open>Folds that can stop\<close>

text \<open>A loop that returns early with a failure: \<open>None\<close> from the first failing step.\<close>

fun foldo :: "('s \<Rightarrow> 'a \<Rightarrow> 's option) \<Rightarrow> 's \<Rightarrow> 'a list \<Rightarrow> 's option" where
  "foldo f s [] = Some s"
| "foldo f s (x # xs) = (case f s x of None \<Rightarrow> None | Some s' \<Rightarrow> foldo f s' xs)"

lemma foldo_append:
  "foldo f s (xs @ ys) = (case foldo f s xs of None \<Rightarrow> None | Some s' \<Rightarrow> foldo f s' ys)"
  by (induction xs arbitrary: s) (auto split: option.splits)

lemma foldo_cong:
  "(\<And>s x. x \<in> set xs \<Longrightarrow> f s x = g s x) \<Longrightarrow> foldo f s xs = foldo g s xs"
  by (induction xs arbitrary: s) (auto split: option.splits)

subsection \<open>Guarded results\<close>

text \<open>Reading off the branch that produced a result without rewriting the state in it.\<close>

lemma if_eqE:
  assumes "(if b then x else y) = z"
  obtains "b" "x = z" | "\<not> b" "y = z"
  using assms by (cases b) simp_all

end
