(* ===== verification/Float64.thy ===== *)
theory Float64
  imports Prelude "HOL-Library.Log_Nat"
begin

text \<open>
  Go's \<open>float64\<close>: IEEE 754 binary64 with round to nearest, ties to even. A finite value
  is the exact rational it denotes, so an operation is the exact operation on rationals
  followed by one rounding \<open>rnd\<close>. Both zeros are \<open>Fin 0\<close>: the program never divides by
  a value that it has not first compared with zero and never looks at a sign bit.
  Everything here computes, so that witnesses run the code's arithmetic.
\<close>

datatype f64 = Fin rat | PInf | NInf | NaN

definition elog2 :: "rat \<Rightarrow> int" where
  "elog2 q =
     (let (n, d) = quotient_of q;
          k = bitlen n - bitlen d
      in if 2 powi k \<le> q then k else k - 1)"

definition rne :: "rat \<Rightarrow> int" where
  "rne x =
     (let f = \<lfloor>x\<rfloor>;
          r = x - of_int f
      in if r < 1 / 2 then f else if 1 / 2 < r then f + 1
         else if even f then f else f + 1)"

definition fexp :: "rat \<Rightarrow> int" where
  "fexp q = max (elog2 q - 52) (- 1074)"

definition rndabs :: "rat \<Rightarrow> rat" where
  "rndabs q = of_int (rne (q / 2 powi fexp q)) * 2 powi fexp q"

definition rnd :: "rat \<Rightarrow> f64" where
  "rnd q =
     (if q = 0 then Fin 0
      else let v = rndabs \<bar>q\<bar>
           in if 2 ^ 1024 \<le> v then (if q < 0 then NInf else PInf)
              else Fin (if q < 0 then - v else v))"

subsection \<open>Operations\<close>

fun fneg :: "f64 \<Rightarrow> f64" where
  "fneg (Fin a) = Fin (- a)"
| "fneg PInf = NInf"
| "fneg NInf = PInf"
| "fneg NaN = NaN"

fun fadd :: "f64 \<Rightarrow> f64 \<Rightarrow> f64" where
  "fadd (Fin a) (Fin b) = rnd (a + b)"
| "fadd NaN _ = NaN"
| "fadd _ NaN = NaN"
| "fadd PInf NInf = NaN"
| "fadd NInf PInf = NaN"
| "fadd PInf _ = PInf"
| "fadd _ PInf = PInf"
| "fadd NInf _ = NInf"
| "fadd _ NInf = NInf"

definition fsub :: "f64 \<Rightarrow> f64 \<Rightarrow> f64" where
  "fsub a b = fadd a (fneg b)"

definition finf :: "bool \<Rightarrow> f64" where
  "finf negative = (if negative then NInf else PInf)"

fun fneg_sign :: "f64 \<Rightarrow> bool" where
  "fneg_sign (Fin a) = (a < 0)"
| "fneg_sign NInf = True"
| "fneg_sign _ = False"

fun fmul :: "f64 \<Rightarrow> f64 \<Rightarrow> f64" where
  "fmul (Fin a) (Fin b) = rnd (a * b)"
| "fmul NaN _ = NaN"
| "fmul _ NaN = NaN"
| "fmul x y =
     (if x = Fin 0 \<or> y = Fin 0 then NaN else finf (fneg_sign x \<noteq> fneg_sign y))"

fun fdiv :: "f64 \<Rightarrow> f64 \<Rightarrow> f64" where
  "fdiv NaN _ = NaN"
| "fdiv _ NaN = NaN"
| "fdiv (Fin a) (Fin b) =
     (if b = 0 then (if a = 0 then NaN else finf (a < 0)) else rnd (a / b))"
| "fdiv (Fin a) _ = Fin 0"
| "fdiv x (Fin b) = finf (fneg_sign x \<noteq> (b < 0))"
| "fdiv _ _ = NaN"

text \<open>Comparisons: every comparison with a NaN is false.\<close>

fun fle :: "f64 \<Rightarrow> f64 \<Rightarrow> bool" where
  "fle (Fin a) (Fin b) = (a \<le> b)"
| "fle NaN _ = False"
| "fle _ NaN = False"
| "fle NInf _ = True"
| "fle _ PInf = True"
| "fle _ _ = False"

fun flt :: "f64 \<Rightarrow> f64 \<Rightarrow> bool" where
  "flt (Fin a) (Fin b) = (a < b)"
| "flt NaN _ = False"
| "flt _ NaN = False"
| "flt NInf y = (y \<noteq> NInf)"
| "flt x PInf = (x \<noteq> PInf)"
| "flt _ _ = False"

definition feq :: "f64 \<Rightarrow> f64 \<Rightarrow> bool" where
  "feq a b \<longleftrightarrow> a \<noteq> NaN \<and> a = b"

definition IsNaN :: "f64 \<Rightarrow> bool" where
  "IsNaN x \<longleftrightarrow> x = NaN"

definition IsInf :: "f64 \<Rightarrow> bool" where
  "IsInf x \<longleftrightarrow> x = PInf \<or> x = NInf"

text \<open>\<open>float64(n)\<close> of an integer, \<open>math.MaxFloat64\<close> and \<open>Duration.Seconds\<close>.\<close>

definition f64_of_int :: "int \<Rightarrow> f64" where
  "f64_of_int n = rnd (of_int n)"

definition f64_of_nat :: "nat \<Rightarrow> f64" where
  "f64_of_nat n = rnd (of_nat n)"

definition MaxFloat64 :: f64 where
  "MaxFloat64 = Fin ((2 ^ 53 - 1) * 2 ^ 971)"

text \<open>Go truncates: \<open>/\<close> and \<open>%\<close> on integers round towards zero.\<close>

definition go_div :: "int \<Rightarrow> int \<Rightarrow> int" where
  "go_div a b = sgn a * sgn b * (\<bar>a\<bar> div \<bar>b\<bar>)"

definition go_mod :: "int \<Rightarrow> int \<Rightarrow> int" where
  "go_mod a b = a - b * go_div a b"

definition Seconds :: "duration \<Rightarrow> f64" where
  "Seconds d =
     fadd (f64_of_int (go_div d Second)) (fdiv (f64_of_int (go_mod d Second)) (Fin 1000000000))"

subsection \<open>Rounding: bounds, exactness, monotonicity\<close>

lemma powi2_pos [simp]: "(0::rat) < 2 powi k"
  by (simp add: zero_less_power_int)

lemma powi2_nz [simp]: "(2::rat) powi k \<noteq> 0"
  using powi2_pos [of k] by linarith

lemma powi2_mono: "j \<le> k \<Longrightarrow> (2::rat) powi j \<le> 2 powi k"
  by (rule power_int_increasing) auto

lemma powi2_add: "(2::rat) powi (j + k) = 2 powi j * 2 powi k"
  by (simp add: power_int_add)

lemma powi2_diff: "(2::rat) powi (j - k) = 2 powi j / 2 powi k"
  by (simp add: power_int_diff)

lemma bitlen_powi:
  assumes "0 < (n::int)"
  shows "2 powi (bitlen n - 1) \<le> (of_int n :: rat)" and "(of_int n :: rat) < 2 powi bitlen n"
proof -
  have b: "2 ^ nat (bitlen n - 1) \<le> n \<and> n < 2 ^ nat (bitlen n)"
    using bitlen_bounds [OF assms] .
  have p: "0 < bitlen n"
  proof (rule ccontr)
    assume "\<not> 0 < bitlen n"
    with b have "n < 1" by simp
    with assms show False by simp
  qed
  have "(of_int (2 ^ nat (bitlen n - 1)) :: rat) \<le> of_int n"
    using b by (simp only: of_int_le_iff)
  with p show "2 powi (bitlen n - 1) \<le> (of_int n :: rat)"
    by (simp add: power_int_def)
  have "(of_int n :: rat) < of_int (2 ^ nat (bitlen n))"
    using b by (simp only: of_int_less_iff)
  with p show "(of_int n :: rat) < 2 powi bitlen n"
    by (simp add: power_int_def)
qed

lemma elog2_bounds:
  assumes "0 < q"
  shows "2 powi elog2 q \<le> q" and "q < 2 powi (elog2 q + 1)"
proof -
  obtain n d where nd: "quotient_of q = (n, d)" by fastforce
  have d: "0 < d" using quotient_of_denom_pos [OF nd] .
  have q: "q = of_int n / of_int d" using quotient_of_div [OF nd] .
  have n: "0 < n"
    using assms d by (simp add: q zero_less_divide_iff)
  let ?k = "bitlen n - bitlen d"
  have "2 powi (bitlen n - 1) / 2 powi bitlen d < q"
    unfolding q using bitlen_powi [OF n] bitlen_powi [OF d] d
    by (intro frac_less2) auto
  then have lo: "2 powi (?k - 1) < q"
    by (simp add: powi2_diff)
  have "q < 2 powi bitlen n / 2 powi (bitlen d - 1)"
    unfolding q using bitlen_powi [OF n] bitlen_powi [OF d] n
    by (intro frac_less) auto
  then have hi: "q < 2 powi (?k + 1)"
    by (simp add: powi2_diff powi2_add)
  show "2 powi elog2 q \<le> q" and "q < 2 powi (elog2 q + 1)"
    using lo hi by (auto simp: elog2_def nd Let_def)
qed

lemma powi2_less_imp: "(2::rat) powi j < 2 powi k \<Longrightarrow> j < k"
  using powi2_mono [of k j] by (meson not_le)

lemma elog2_less_iff: "0 < q \<Longrightarrow> q < 2 powi k \<Longrightarrow> elog2 q < k"
  using elog2_bounds(1) [of q] powi2_less_imp [of "elog2 q" k] by linarith

lemma elog2_ge_iff: "0 < q \<Longrightarrow> 2 powi k \<le> q \<Longrightarrow> k \<le> elog2 q"
  using elog2_bounds(2) [of q] powi2_less_imp [of k "elog2 q + 1"] by linarith

lemma elog2_mono:
  assumes "0 < p" and "p \<le> q"
  shows "elog2 p \<le> elog2 q"
proof -
  have "2 powi elog2 p \<le> q" using elog2_bounds(1) [OF assms(1)] assms(2) by linarith
  with assms show ?thesis by (intro elog2_ge_iff) auto
qed

lemma rne_cases: "rne x = \<lfloor>x\<rfloor> \<and> x - of_int \<lfloor>x\<rfloor> \<le> 1/2 \<or> rne x = \<lfloor>x\<rfloor> + 1 \<and> 1/2 \<le> x - of_int \<lfloor>x\<rfloor>"
  by (auto simp: rne_def Let_def)

lemma rne_of_int [simp]: "rne (of_int n) = n"
  by (simp add: rne_def)

lemma rne_mono:
  assumes "x \<le> y"
  shows "rne x \<le> rne y"
proof (cases "\<lfloor>x\<rfloor> = \<lfloor>y\<rfloor>")
  case True
  with assms show ?thesis by (auto simp: rne_def Let_def)
next
  case False
  with floor_mono [OF assms] have "\<lfloor>x\<rfloor> + 1 \<le> \<lfloor>y\<rfloor>" by linarith
  with rne_cases [of x] rne_cases [of y] show ?thesis by linarith
qed

lemma rne_nonneg: "0 \<le> x \<Longrightarrow> 0 \<le> rne x"
  using rne_mono [of 0 x] rne_of_int [of 0] by simp

lemma rndabs_nonneg: "0 \<le> q \<Longrightarrow> 0 \<le> rndabs q"
  by (simp add: rndabs_def rne_nonneg less_imp_le)

lemma rndabs_exact_at:
  assumes "q / 2 powi fexp q = of_int n"
  shows "rndabs q = q"
proof -
  have "rndabs q = of_int n * 2 powi fexp q" by (simp add: rndabs_def assms)
  also have "\<dots> = q" using assms by (simp add: divide_eq_eq)
  finally show ?thesis .
qed

lemma rndabs_exact:
  assumes "0 < m" "m < 2 ^ 53" "- 1074 \<le> e"
  shows "rndabs (of_int m * 2 powi e) = of_int m * 2 powi e"
proof -
  let ?q = "of_int m * 2 powi e :: rat"
  have pos: "0 < ?q" using assms(1) by simp
  have "(of_int m :: rat) < of_int (2 ^ 53)" using assms(2) by (simp only: of_int_less_iff)
  then have "?q < 2 powi 53 * 2 powi e" by (intro mult_strict_right_mono) simp_all
  then have "elog2 ?q < 53 + e"
    using pos by (intro elog2_less_iff) (simp_all add: powi2_add)
  then have le: "fexp ?q \<le> e" using assms(3) by (simp add: fexp_def)
  have "?q / 2 powi fexp ?q = of_int m * 2 powi (e - fexp ?q)"
    by (simp add: powi2_diff)
  also have "\<dots> = of_int (m * 2 ^ nat (e - fexp ?q))"
    using le by (simp add: power_int_def)
  finally show ?thesis by (rule rndabs_exact_at)
qed

lemma rndabs_powi: "- 1074 \<le> k \<Longrightarrow> rndabs (2 powi k) = 2 powi k"
  using rndabs_exact [of 1 k] by simp

lemma rndabs_mono_same: "p \<le> q \<Longrightarrow> fexp p = fexp q \<Longrightarrow> rndabs p \<le> rndabs q"
  by (simp add: rndabs_def rne_mono divide_right_mono less_imp_le)

lemma rndabs_le_top:
  assumes "0 < p"
  shows "rndabs p \<le> 2 powi (fexp p + 53)"
proof -
  have "p < 2 powi (elog2 p + 1)" using elog2_bounds [OF assms] by simp
  also have "\<dots> \<le> 2 powi (fexp p + 53)" by (intro powi2_mono) (simp add: fexp_def)
  finally have "p / 2 powi fexp p \<le> of_int (2 ^ 53)"
    by (simp add: powi2_add field_simps)
  then have "rne (p / 2 powi fexp p) \<le> 2 ^ 53"
    using rne_mono rne_of_int by metis
  then have "(of_int (rne (p / 2 powi fexp p)) :: rat) \<le> of_int (2 ^ 53)"
    by (simp only: of_int_le_iff)
  then show ?thesis
    by (simp add: rndabs_def powi2_add mult_right_mono less_imp_le)
qed

lemma rndabs_ge_bottom:
  assumes "0 < q" "fexp q = elog2 q - 52"
  shows "2 powi elog2 q \<le> rndabs q"
proof -
  have "of_int (2 ^ 52) * 2 powi fexp q = (2 powi elog2 q :: rat)"
    by (simp add: assms(2) powi2_diff)
  then have "of_int (2 ^ 52) \<le> q / 2 powi fexp q"
    using elog2_bounds(1) [OF assms(1)] by (simp add: field_simps)
  then have "2 ^ 52 \<le> rne (q / 2 powi fexp q)"
    using rne_mono rne_of_int by metis
  then have "(of_int (2 ^ 52) :: rat) \<le> of_int (rne (q / 2 powi fexp q))"
    by (simp only: of_int_le_iff)
  then have "of_int (2 ^ 52) * 2 powi fexp q \<le> rndabs q"
    unfolding rndabs_def by (intro mult_right_mono) (simp_all add: less_imp_le)
  then show ?thesis by (simp add: assms(2) powi2_diff)
qed

lemma rndabs_mono:
  assumes "0 < p" "p \<le> q"
  shows "rndabs p \<le> rndabs q"
proof (cases "fexp p = fexp q")
  case True
  with assms(2) show ?thesis by (rule rndabs_mono_same)
next
  case False
  have q: "0 < q" using assms by simp
  have "elog2 p \<le> elog2 q" using assms by (rule elog2_mono)
  with False have gt: "fexp p < fexp q" and eq: "fexp q = elog2 q - 52"
    by (auto simp: fexp_def max_def split: if_splits)
  have "rndabs p \<le> 2 powi (fexp p + 53)" using assms(1) by (rule rndabs_le_top)
  also have "\<dots> \<le> 2 powi elog2 q" using gt eq by (intro powi2_mono) simp
  also have "\<dots> \<le> rndabs q" using q eq by (rule rndabs_ge_bottom)
  finally show ?thesis .
qed

text \<open>The rounding function itself: on nonnegative values, monotone, exact on small integers.\<close>

lemma rnd_0 [simp]: "rnd 0 = Fin 0"
  by (simp add: rnd_def)

lemma rnd_pos:
  "0 < q \<Longrightarrow> rnd q = (if 2 ^ 1024 \<le> rndabs q then PInf else Fin (rndabs q))"
  by (simp add: rnd_def Let_def)

lemma rnd_neg:
  "q < 0 \<Longrightarrow> rnd q = (if 2 ^ 1024 \<le> rndabs (- q) then NInf else Fin (- rndabs (- q)))"
  by (simp add: rnd_def Let_def)

lemma rnd_nonneg_cases:
  assumes "0 \<le> q"
  obtains v where "rnd q = Fin v" "0 \<le> v" | "rnd q = PInf"
proof (cases "q = 0")
  case True
  then show ?thesis using that by simp
next
  case False
  with assms have "0 < q" by simp
  then show ?thesis using that rndabs_nonneg [of q]
    by (cases "2 ^ 1024 \<le> rndabs q") (simp_all add: rnd_pos)
qed

lemma rnd_mono:
  assumes "p \<le> q"
  shows "fle (rnd p) (rnd q)"
proof -
  consider "0 < p" | "p \<le> 0" "0 \<le> q" | "q < 0" by linarith
  then show ?thesis
  proof cases
    case 1
    with assms have "rndabs p \<le> rndabs q" by (intro rndabs_mono)
    with 1 assms show ?thesis by (simp add: rnd_pos)
  next
    case 2
    then show ?thesis
      using rndabs_nonneg [of "- p"] rndabs_nonneg [of q]
      by (cases "p = 0"; cases "q = 0") (simp_all add: rnd_pos rnd_neg)
  next
    case 3
    with assms have "rndabs (- q) \<le> rndabs (- p)" by (intro rndabs_mono) auto
    with 3 assms show ?thesis by (simp add: rnd_neg)
  qed
qed

lemma rnd_bounded:
  assumes "0 \<le> q" "q \<le> 2 powi k" "- 1074 \<le> k" "k < 1024"
  obtains v where "rnd q = Fin v" "0 \<le> v" "v \<le> 2 powi k"
proof (cases "q = 0")
  case True
  then show ?thesis using that [of 0] by (simp add: less_imp_le)
next
  case False
  with assms(1) have pos: "0 < q" by simp
  have le: "rndabs q \<le> 2 powi k"
    using rndabs_mono [OF pos assms(2)] rndabs_powi [OF assms(3)] by simp
  also have "(2::rat) powi k < 2 powi 1024"
    using assms(4) by (intro power_int_strict_increasing) auto
  finally have "rnd q = Fin (rndabs q)" using pos by (simp add: rnd_pos)
  then show ?thesis using that le rndabs_nonneg [OF assms(1)] by blast
qed

lemma rnd_ge_powi:
  assumes "2 powi k \<le> q" "- 1074 \<le> k" "rnd q = Fin v"
  shows "2 powi k \<le> v"
proof -
  have pos: "0 < q" using assms(1) powi2_pos [of k] by linarith
  have "rndabs (2 powi k) \<le> rndabs q" using assms(1) by (intro rndabs_mono) simp
  with assms pos rndabs_powi [OF assms(2)] show ?thesis
    by (auto simp: rnd_pos split: if_splits)
qed

lemma rnd_of_small_int:
  assumes "0 \<le> n" "n \<le> 2 ^ 53"
  shows "rnd (of_int n) = Fin (of_int n)"
proof -
  have fin: "rnd (of_int n) = Fin (of_int n)" if "0 < n" "rndabs (of_int n) = of_int n"
  proof -
    have "(of_int n :: rat) \<le> of_int (2 ^ 53)" using assms(2) by (simp only: of_int_le_iff)
    also have "\<dots> < 2 ^ 1024" by simp
    finally show ?thesis using that by (simp add: rnd_pos)
  qed
  consider "n = 0" | "0 < n" "n < 2 ^ 53" | "n = 2 ^ 53" using assms by linarith
  then show ?thesis
  proof cases
    case 1
    then show ?thesis by simp
  next
    case 2
    then show ?thesis using fin rndabs_exact [of n 0] by simp
  next
    case 3
    have "rndabs (of_int n) = of_int n" using rndabs_powi [of 53] 3 by simp
    with 3 show ?thesis using fin by simp
  qed
qed

lemma f64_of_small_int: "0 \<le> n \<Longrightarrow> n \<le> 2 ^ 53 \<Longrightarrow> f64_of_int n = Fin (of_int n)"
  by (simp add: f64_of_int_def rnd_of_small_int)

lemma f64_of_small_nat: "n \<le> 2 ^ 53 \<Longrightarrow> f64_of_nat n = Fin (of_nat n)"
  using rnd_of_small_int [of "int n"] by (simp add: f64_of_nat_def)

subsection \<open>Finite nonnegative values\<close>

text \<open>\<open>finiteNonnegative\<close> of \<open>tps_window.go\<close>, the check the admission code applies to every float.\<close>

definition finiteNonnegative :: "f64 \<Rightarrow> bool" where
  "finiteNonnegative value \<longleftrightarrow> fle (Fin 0) value \<and> \<not> IsNaN value \<and> \<not> IsInf value"

lemma finiteNonnegative_Fin [simp]: "finiteNonnegative (Fin q) \<longleftrightarrow> 0 \<le> q"
  by (simp add: finiteNonnegative_def IsNaN_def IsInf_def)

lemma finiteNonnegative_iff: "finiteNonnegative x \<longleftrightarrow> (\<exists>q. x = Fin q \<and> 0 \<le> q)"
  by (cases x) (auto simp: finiteNonnegative_def IsNaN_def IsInf_def)

lemma finiteNonnegativeE:
  assumes "finiteNonnegative x"
  obtains q where "x = Fin q" "0 \<le> q"
  using assms by (auto simp: finiteNonnegative_iff)

lemma finiteNonnegative_not_inf [simp]:
  "\<not> finiteNonnegative PInf" "\<not> finiteNonnegative NInf" "\<not> finiteNonnegative NaN"
  by (simp_all add: finiteNonnegative_def IsNaN_def IsInf_def)

lemma rnd_finiteNonnegative: "0 \<le> q \<Longrightarrow> rnd q = PInf \<or> finiteNonnegative (rnd q)"
  by (metis finiteNonnegative_Fin rnd_nonneg_cases)

lemma fle_trans: "fle a b \<Longrightarrow> fle b c \<Longrightarrow> fle a c"
  by (cases a; cases b; cases c) auto

lemma flt_imp_not_fle: "flt a b \<Longrightarrow> \<not> fle b a"
  by (cases a; cases b) auto

lemma not_fle_iff_flt: "a \<noteq> NaN \<Longrightarrow> b \<noteq> NaN \<Longrightarrow> \<not> fle b a \<longleftrightarrow> flt a b"
  by (cases a; cases b) auto

subsection \<open>Durations in seconds\<close>

lemma go_div_nonneg: "0 \<le> a \<Longrightarrow> 0 < b \<Longrightarrow> go_div a b = a div b"
  by (cases "a = 0") (simp_all add: go_div_def)

lemma go_mod_nonneg: "0 \<le> a \<Longrightarrow> 0 < b \<Longrightarrow> go_mod a b = a mod b"
  by (simp add: go_mod_def go_div_nonneg minus_mult_div_eq_mod)

definition secs_rat :: "duration \<Rightarrow> rat" where
  "secs_rat d = of_int (d div Second) + (case rnd (of_int (d mod Second) / 1000000000) of Fin r \<Rightarrow> r | _ \<Rightarrow> 0)"

lemma subsecond_rnd:
  assumes "0 \<le> r" "r < (Second :: int)"
  obtains v where "rnd (of_int r / 1000000000) = Fin v" "0 \<le> v" "v \<le> 1"
proof -
  have "(of_int r :: rat) \<le> of_int Second" using assms(2) by (simp only: of_int_le_iff less_imp_le)
  then have "(of_int r / 1000000000 :: rat) \<le> 2 powi 0" by simp
  then show ?thesis
    using rnd_bounded [of "of_int r / 1000000000" 0] assms(1) that by auto
qed

lemma Seconds_eq:
  assumes "0 \<le> d" "d \<le> MaxInt64"
  shows "Seconds d = rnd (secs_rat d)" and "0 \<le> secs_rat d" and "secs_rat d \<le> 2 ^ 34"
proof -
  let ?q = "d div Second" and ?r = "d mod Second"
  have "?q \<le> MaxInt64 div Second" using assms(2) by (rule zdiv_mono1) simp
  then have q: "0 \<le> ?q" "?q \<le> 9223372036" using assms by (simp_all add: pos_imp_zdiv_nonneg_iff)
  have r: "0 \<le> ?r" "?r < Second" by simp_all
  obtain v where v: "rnd (of_int ?r / 1000000000) = Fin v" "0 \<le> v" "v \<le> 1"
    using subsecond_rnd [OF r] .
  have fq: "f64_of_int ?q = Fin (of_int ?q)" using q by (intro f64_of_small_int) simp_all
  have fr: "f64_of_int ?r = Fin (of_int ?r)" using r by (intro f64_of_small_int) simp_all
  show "Seconds d = rnd (secs_rat d)"
    using assms(1) fq fr v by (simp add: Seconds_def go_div_nonneg go_mod_nonneg secs_rat_def)
  have "(of_int ?q :: rat) \<le> of_int 9223372036" using q by (simp only: of_int_le_iff)
  then show "secs_rat d \<le> 2 ^ 34" using v by (simp add: secs_rat_def)
  have "(0 :: rat) \<le> of_int ?q" using q by (simp only: of_int_0_le_iff)
  then show "0 \<le> secs_rat d" using v by (simp add: secs_rat_def)
qed

lemma secs_rat_mono:
  assumes "d \<le> d'" "0 \<le> d" "d' \<le> MaxInt64"
  shows "secs_rat d \<le> secs_rat d'"
proof -
  obtain v where v: "rnd (of_int (d mod Second) / 1000000000) = Fin v" "0 \<le> v" "v \<le> 1"
    using subsecond_rnd [of "d mod Second"] by auto
  obtain v' where v': "rnd (of_int (d' mod Second) / 1000000000) = Fin v'" "0 \<le> v'" "v' \<le> 1"
    using subsecond_rnd [of "d' mod Second"] by auto
  have le: "d div Second \<le> d' div Second" using assms(1) by (rule zdiv_mono1) simp
  show ?thesis
  proof (cases "d div Second = d' div Second")
    case True
    have "d = Second * (d div Second) + d mod Second" "d' = Second * (d' div Second) + d' mod Second"
      by simp_all
    then have "d mod Second \<le> d' mod Second" using True assms(1) by linarith
    then have "(of_int (d mod Second) :: rat) \<le> of_int (d' mod Second)" by (simp only: of_int_le_iff)
    then have "fle (rnd (of_int (d mod Second) / 1000000000)) (rnd (of_int (d' mod Second) / 1000000000))"
      by (intro rnd_mono divide_right_mono) simp_all
    with v v' True show ?thesis by (simp add: secs_rat_def)
  next
    case False
    with le have "d div Second + 1 \<le> d' div Second" by simp
    then have "(of_int (d div Second + 1) :: rat) \<le> of_int (d' div Second)" by (simp only: of_int_le_iff)
    with v v' show ?thesis by (simp add: secs_rat_def)
  qed
qed

lemma secs_rat_pos:
  assumes "0 < d"
  shows "2 powi - 30 \<le> secs_rat d"
proof (cases "d div Second = 0")
  case True
  then have "d < Second" using assms by (simp add: div_eq_0_iff)
  then have dm: "d mod Second = d" using assms by simp
  have "(1 :: rat) \<le> of_int d" using assms by simp
  then have lo: "2 powi - 30 \<le> (of_int d / 1000000000 :: rat)"
    by (simp add: power_int_def field_simps)
  obtain v where v: "rnd (of_int d / 1000000000) = Fin v" "0 \<le> v" "v \<le> 1"
    using subsecond_rnd [of d] assms \<open>d < Second\<close> by auto
  have "2 powi - 30 \<le> v" using rnd_ge_powi [OF lo _ v(1)] by simp
  then show ?thesis using v by (simp add: secs_rat_def dm True)
next
  case False
  obtain v where v: "rnd (of_int (d mod Second) / 1000000000) = Fin v" "0 \<le> v" "v \<le> 1"
    using subsecond_rnd [of "d mod Second"] by auto
  have "0 \<le> d div Second" using assms by (simp add: pos_imp_zdiv_nonneg_iff)
  with False have "1 \<le> d div Second" by simp
  then have "(of_int 1 :: rat) \<le> of_int (d div Second)" by (simp only: of_int_le_iff)
  moreover have "(2::rat) powi - 30 \<le> 2 powi 0" by (rule powi2_mono) simp
  ultimately show ?thesis using v by (simp add: secs_rat_def)
qed

lemma Seconds_pos:
  assumes "0 < d" "d \<le> MaxInt64"
  obtains v where "Seconds d = Fin v" "2 powi - 30 \<le> v" "v \<le> 2 powi 34"
proof -
  have s: "Seconds d = rnd (secs_rat d)" "0 \<le> secs_rat d" "secs_rat d \<le> 2 powi 34"
    using Seconds_eq [of d] assms by simp_all
  obtain v where v: "rnd (secs_rat d) = Fin v" "0 \<le> v" "v \<le> 2 powi 34"
    using rnd_bounded [OF s(2,3)] by auto
  have "2 powi - 30 \<le> v" using rnd_ge_powi [OF secs_rat_pos [OF assms(1)] _ v(1)] by simp
  with v s that show ?thesis by simp
qed

lemma Seconds_mono:
  "0 \<le> d \<Longrightarrow> d \<le> d' \<Longrightarrow> d' \<le> MaxInt64 \<Longrightarrow> fle (Seconds d) (Seconds d')"
  using secs_rat_mono [of d d'] by (simp add: Seconds_eq rnd_mono)

subsection \<open>Values between zero and a power of two\<close>

definition upto2 :: "int \<Rightarrow> f64 \<Rightarrow> bool" where
  "upto2 k x \<longleftrightarrow> fle (Fin 0) x \<and> fle x (Fin (2 powi k))"

lemma upto2_Fin [simp]: "upto2 k (Fin q) \<longleftrightarrow> 0 \<le> q \<and> q \<le> 2 powi k"
  by (simp add: upto2_def)

lemma upto2E:
  assumes "upto2 k x"
  obtains q where "x = Fin q" "0 \<le> q" "q \<le> 2 powi k"
  using assms by (cases x) (auto simp: upto2_def)

lemma upto2_finiteNonnegative: "upto2 k x \<Longrightarrow> finiteNonnegative x"
  by (erule upto2E) simp

lemma upto2_mono: "upto2 j x \<Longrightarrow> j \<le> k \<Longrightarrow> upto2 k x"
  by (erule upto2E) (use powi2_mono [of j k] in auto)

lemma upto2_rnd:
  assumes "0 \<le> q" "q \<le> 2 powi k" "- 1074 \<le> k" "k < 1024"
  shows "upto2 k (rnd q)"
  using rnd_bounded [OF assms] by (metis upto2_Fin)

lemma upto2_fadd:
  assumes "upto2 k x" "upto2 k y" "- 1074 \<le> k" "k < 1023"
  shows "upto2 (k + 1) (fadd x y)"
proof -
  obtain p q where "x = Fin p" "0 \<le> p" "p \<le> 2 powi k" "y = Fin q" "0 \<le> q" "q \<le> 2 powi k"
    using assms(1,2) by (metis upto2E)
  then show ?thesis
    using upto2_rnd [of "p + q" "k + 1"] assms(3,4) by (simp add: powi2_add)
qed

lemma upto2_fmul:
  assumes "upto2 j x" "upto2 k y" "- 1074 \<le> j + k" "j + k < 1024"
  shows "upto2 (j + k) (fmul x y)"
proof -
  obtain p q where "x = Fin p" "0 \<le> p" "p \<le> 2 powi j" "y = Fin q" "0 \<le> q" "q \<le> 2 powi k"
    using assms(1,2) by (metis upto2E)
  moreover from this have "p * q \<le> 2 powi (j + k)"
    unfolding powi2_add by (intro mult_mono) simp_all
  ultimately show ?thesis
    using upto2_rnd [of "p * q" "j + k"] assms(3,4) by simp
qed

lemma upto2_fdiv:
  assumes "upto2 j x" "2 powi k \<le> q" "- 1074 \<le> j - k" "j - k < 1024"
  shows "upto2 (j - k) (fdiv x (Fin q))"
proof -
  obtain p where p: "x = Fin p" "0 \<le> p" "p \<le> 2 powi j" using assms(1) by (rule upto2E)
  have q: "0 < q" using assms(2) powi2_pos [of k] by linarith
  have "p / q \<le> 2 powi (j - k)"
    unfolding powi2_diff using p q assms(2) by (intro frac_le) simp_all
  then show ?thesis
    using upto2_rnd [of "p / q" "j - k"] p q assms(3,4) by simp
qed

lemma upto2_of_nat: "n \<le> 2 ^ k \<Longrightarrow> k < 1024 \<Longrightarrow> upto2 (int k) (f64_of_nat n)"
proof -
  assume "n \<le> 2 ^ k" "k < 1024"
  have "(of_nat n :: rat) \<le> of_nat (2 ^ k)" using \<open>n \<le> 2 ^ k\<close> by (simp only: of_nat_le_iff)
  then have "(of_nat n :: rat) \<le> 2 powi int k" by simp
  with \<open>k < 1024\<close> show ?thesis unfolding f64_of_nat_def by (intro upto2_rnd) simp_all
qed

lemma upto2_of_int: "0 \<le> n \<Longrightarrow> n \<le> 2 ^ k \<Longrightarrow> k < 1024 \<Longrightarrow> upto2 (int k) (f64_of_int n)"
  using upto2_of_nat [of "nat n" k] by (simp add: f64_of_int_def f64_of_nat_def nat_le_iff)

lemma fdiv_le_one:
  assumes "fle x y" "flt (Fin 0) y" "finiteNonnegative x" "finiteNonnegative y"
  shows "upto2 0 (fdiv x y)"
proof -
  obtain p q where "x = Fin p" "0 \<le> p" "y = Fin q" "0 \<le> q"
    using assms(3,4) by (meson finiteNonnegativeE)
  with assms(1,2) show ?thesis using upto2_rnd [of "p / q" 0] by simp
qed

end
