(* ===== verification/Demand.thy ===== *)
theory Demand
  imports Float64
begin

text \<open>
  The vocabulary of the admission package: \<open>internal/admission/types.go\<close> (actions, reasons,
  protection scopes, the state a decision is made on) and \<open>tps_demand.go\<close> (request tiers
  and demands). Go's string enumerations keep a constructor for the empty string, their
  zero value; a numeric enumeration whose unknown values the code distinguishes keeps a
  constructor for them.
\<close>

subsection \<open>Enumerations\<close>

datatype Action = ActionEmpty | ActionAdmit | ActionProtect

datatype Reason = ReasonEmpty | ReasonOpen | ReasonControllerUnavailable
  | ReasonObservationMissing | ReasonObservationInvalid | ReasonObservationStale
  | ReasonInvalidRequest | ReasonTPSReference | ReasonRunningLimit | ReasonWindowConcurrency
  | ReasonRuntimeIdentityDrift | ReasonResourceExhausted | ReasonPriorityQueueFull
  | ReasonPriorityQueueTimeout | ReasonPriorityQueueCanceled | ReasonCounterOverflow
  | ReasonClosed

datatype ProtectionScope = ProtectionNone | ProtectionRequest | ProtectionLoad
  | ProtectionAvailability

datatype TPSDecisionResult = TPSDecisionResultUnknown | TPSDecisionResultDisabled
  | TPSDecisionResultAdmit | TPSDecisionResultProtect | TPSDecisionResultInvalid

fun TPSDecisionResult_String :: "TPSDecisionResult \<Rightarrow> string" where
  "TPSDecisionResult_String TPSDecisionResultDisabled = ''disabled''"
| "TPSDecisionResult_String TPSDecisionResultAdmit = ''admit''"
| "TPSDecisionResult_String TPSDecisionResultProtect = ''protect''"
| "TPSDecisionResult_String TPSDecisionResultInvalid = ''invalid''"
| "TPSDecisionResult_String TPSDecisionResultUnknown = ''unknown''"

datatype TPSDecisionSubreason = TPSDecisionSubreasonUnknown | TPSDecisionSubreasonDisabled
  | TPSDecisionSubreasonInvalidState | TPSDecisionSubreasonWaiting
  | TPSDecisionSubreasonPreemption | TPSDecisionSubreasonWarming
  | TPSDecisionSubreasonNoCurrentEvidence | TPSDecisionSubreasonHealthyWindow
  | TPSDecisionSubreasonRecoveredCurrent | TPSDecisionSubreasonBelowReference
  | TPSDecisionSubreasonBackendScheduled | TPSDecisionSubreasonWarmPrompt
  | TPSDecisionSubreasonColdPrompt | TPSDecisionSubreasonColdPromptPending

fun TPSDecisionSubreason_String :: "TPSDecisionSubreason \<Rightarrow> string" where
  "TPSDecisionSubreason_String TPSDecisionSubreasonDisabled = ''disabled''"
| "TPSDecisionSubreason_String TPSDecisionSubreasonInvalidState = ''invalid_state''"
| "TPSDecisionSubreason_String TPSDecisionSubreasonWaiting = ''waiting''"
| "TPSDecisionSubreason_String TPSDecisionSubreasonPreemption = ''preemption''"
| "TPSDecisionSubreason_String TPSDecisionSubreasonWarming = ''warming''"
| "TPSDecisionSubreason_String TPSDecisionSubreasonNoCurrentEvidence = ''no_current_evidence''"
| "TPSDecisionSubreason_String TPSDecisionSubreasonHealthyWindow = ''healthy_window''"
| "TPSDecisionSubreason_String TPSDecisionSubreasonRecoveredCurrent = ''recovered_current''"
| "TPSDecisionSubreason_String TPSDecisionSubreasonBelowReference = ''below_reference''"
| "TPSDecisionSubreason_String TPSDecisionSubreasonBackendScheduled = ''backend_scheduled''"
| "TPSDecisionSubreason_String TPSDecisionSubreasonWarmPrompt = ''warm_prompt''"
| "TPSDecisionSubreason_String TPSDecisionSubreasonColdPrompt = ''cold_prompt''"
| "TPSDecisionSubreason_String TPSDecisionSubreasonColdPromptPending = ''cold_prompt_pending''"
| "TPSDecisionSubreason_String TPSDecisionSubreasonUnknown = ''unknown''"

datatype RunningLimitSource = RunningLimitSourceEmpty | RunningLimitSourceUnknown
  | RunningLimitSourceEnvironment | RunningLimitSourceSGLangServerInfo
  | RunningLimitSourceAdmin | RunningLimitSourceOther string

fun RunningLimitSource_valid :: "RunningLimitSource \<Rightarrow> bool" where
  "RunningLimitSource_valid RunningLimitSourceUnknown = True"
| "RunningLimitSource_valid RunningLimitSourceEnvironment = True"
| "RunningLimitSource_valid RunningLimitSourceSGLangServerInfo = True"
| "RunningLimitSource_valid RunningLimitSourceAdmin = True"
| "RunningLimitSource_valid _ = False"

datatype TerminalCause = TerminalSuccess | TerminalError | TerminalCancel
  | TerminalDisconnect | TerminalTimeout | TerminalShutdown | TerminalOther string

fun TerminalCause_valid :: "TerminalCause \<Rightarrow> bool" where
  "TerminalCause_valid (TerminalOther _) = False"
| "TerminalCause_valid _ = True"

abbreviation DefaultWindowConcurrency :: int where "DefaultWindowConcurrency \<equiv> 32"
abbreviation DefaultWaitingAllowance :: int where "DefaultWaitingAllowance \<equiv> 3"

subsection \<open>Request tiers and demands (\<open>tps_demand.go\<close>)\<close>

datatype TPSDemandSource = TPSDemandSourceEmpty | TPSDemandSourceRequest
  | TPSDemandSourceFallback

datatype RequestTier = TierDefault | TierFlex | TierPriority | TierOther nat

text \<open>\<open>strings.TrimSpace\<close> and \<open>strings.ToLower\<close> on ASCII, which is what the tier header is.\<close>

definition isSpace :: "char \<Rightarrow> bool" where
  "isSpace c \<longleftrightarrow> c \<in> {CHR '' '', CHR 0x09, CHR 0x0A, CHR 0x0B, CHR 0x0C, CHR 0x0D}"

definition TrimSpace :: "string \<Rightarrow> string" where
  "TrimSpace s = rev (dropWhile isSpace (rev (dropWhile isSpace s)))"

definition lowerChar :: "char \<Rightarrow> char" where
  "lowerChar c =
     (let n = of_char c :: nat in if 65 \<le> n \<and> n \<le> 90 then char_of (n + 32) else c)"

definition ToLower :: "string \<Rightarrow> string" where
  "ToLower s = map lowerChar s"

definition ParseRequestTier :: "string \<Rightarrow> RequestTier" where
  "ParseRequestTier value =
     (let v = ToLower (TrimSpace value)
      in if v = ''priority'' then TierPriority
         else if v = ''flex'' then TierFlex
         else TierDefault)"

fun RequestTier_String :: "RequestTier \<Rightarrow> string" where
  "RequestTier_String TierPriority = ''priority''"
| "RequestTier_String TierFlex = ''flex''"
| "RequestTier_String _ = ''default''"

fun Rank :: "RequestTier \<Rightarrow> int" where
  "Rank TierPriority = 2"
| "Rank TierDefault = 1"
| "Rank _ = 0"

fun Sheddable :: "RequestTier \<Rightarrow> bool" where
  "Sheddable TierDefault = True"
| "Sheddable TierFlex = True"
| "Sheddable _ = False"

fun RequestTier_valid :: "RequestTier \<Rightarrow> bool" where
  "RequestTier_valid (TierOther _) = False"
| "RequestTier_valid _ = True"

definition RequestTiers :: "RequestTier list" where
  "RequestTiers = [TierPriority, TierDefault, TierFlex]"

record TPSRequestDemand =
  dm_DecodeSequences :: int
  dm_Source :: TPSDemandSource
  dm_Tier :: RequestTier
  dm_PrefillTokens :: int
  dm_PrefillKnown :: bool

definition zeroDemand :: TPSRequestDemand where
  "zeroDemand = \<lparr>dm_DecodeSequences = 0, dm_Source = TPSDemandSourceEmpty,
     dm_Tier = TierDefault, dm_PrefillTokens = 0, dm_PrefillKnown = False\<rparr>"

definition NewTPSRequestDemand :: "int \<Rightarrow> TPSRequestDemand" where
  "NewTPSRequestDemand decodeSequences =
     zeroDemand\<lparr>dm_DecodeSequences := decodeSequences, dm_Source := TPSDemandSourceRequest\<rparr>"

definition NewFallbackTPSRequestDemand :: TPSRequestDemand where
  "NewFallbackTPSRequestDemand =
     zeroDemand\<lparr>dm_DecodeSequences := 1, dm_Source := TPSDemandSourceFallback\<rparr>"

definition WithTier :: "TPSRequestDemand \<Rightarrow> RequestTier \<Rightarrow> TPSRequestDemand" where
  "WithTier d tier = d\<lparr>dm_Tier := (if \<not> RequestTier_valid tier then TierDefault else tier)\<rparr>"

definition WithPrefillTokens :: "TPSRequestDemand \<Rightarrow> int \<Rightarrow> TPSRequestDemand" where
  "WithPrefillTokens d tokens =
     d\<lparr>dm_PrefillTokens := (if tokens < 0 then 0 else tokens), dm_PrefillKnown := True\<rparr>"

definition demand_valid :: "TPSRequestDemand \<Rightarrow> bool" where
  "demand_valid d \<longleftrightarrow>
     0 < dm_DecodeSequences d \<and>
     (dm_Source d = TPSDemandSourceRequest \<or> dm_Source d = TPSDemandSourceFallback) \<and>
     RequestTier_valid (dm_Tier d)"

subsection \<open>The state a decision is made on\<close>

record TPSIntervalSnapshot =
  iv_Qualified :: bool
  iv_Tokens :: nat
  iv_DurationSeconds :: f64
  iv_SequenceSeconds :: f64
  iv_AggregateTPS :: f64
  iv_MeanActiveTPS :: f64

definition zeroInterval :: TPSIntervalSnapshot where
  [zero_simps]: "zeroInterval = \<lparr>iv_Qualified = False, iv_Tokens = 0,
     iv_DurationSeconds = Fin 0, iv_SequenceSeconds = Fin 0,
     iv_AggregateTPS = Fin 0, iv_MeanActiveTPS = Fin 0\<rparr>"

record TPSDenominatorEvidence =
  de_EndpointSelections :: nat
  de_LocalForwardedSelections :: nat
  de_LocalResponseSelections :: nat
  de_FallbackLiabilitySelections :: nat
  de_TieSelections :: nat
  de_NoneSelections :: nat
  de_EndpointSequenceSeconds :: f64
  de_LocalForwardedSeconds :: f64
  de_LocalResponseSeconds :: f64
  de_FallbackLiabilitySeconds :: f64
  de_SelectedSequenceSeconds :: f64

definition zeroDenominator :: TPSDenominatorEvidence where
  [zero_simps]: "zeroDenominator = \<lparr>de_EndpointSelections = 0, de_LocalForwardedSelections = 0,
     de_LocalResponseSelections = 0, de_FallbackLiabilitySelections = 0, de_TieSelections = 0,
     de_NoneSelections = 0, de_EndpointSequenceSeconds = Fin 0, de_LocalForwardedSeconds = Fin 0,
     de_LocalResponseSeconds = Fin 0, de_FallbackLiabilitySeconds = Fin 0,
     de_SelectedSequenceSeconds = Fin 0\<rparr>"

record TPSSnapshot =
  ts_Enabled :: bool
  ts_Ready :: bool
  ts_Reference :: f64
  ts_QualifiedSamples :: nat
  ts_QualifiedTokens :: f64
  ts_QualifiedActiveSeconds :: f64
  ts_QualifiedSequenceSamples :: nat
  ts_QualifiedSequenceTokens :: f64
  ts_QualifiedSequenceSeconds :: f64
  ts_AggregateTPS :: f64
  ts_MeanActiveTPS :: f64
  ts_Latest :: TPSIntervalSnapshot
  ts_Denominator :: TPSDenominatorEvidence

definition zeroTPSSnapshot :: TPSSnapshot where
  [zero_simps]: "zeroTPSSnapshot = \<lparr>ts_Enabled = False, ts_Ready = False, ts_Reference = Fin 0,
     ts_QualifiedSamples = 0, ts_QualifiedTokens = Fin 0, ts_QualifiedActiveSeconds = Fin 0,
     ts_QualifiedSequenceSamples = 0, ts_QualifiedSequenceTokens = Fin 0,
     ts_QualifiedSequenceSeconds = Fin 0, ts_AggregateTPS = Fin 0, ts_MeanActiveTPS = Fin 0,
     ts_Latest = zeroInterval, ts_Denominator = zeroDenominator\<rparr>"

record ProjectedState =
  ps_UnobservedSequences :: int
  ps_ColdSheddablePending :: int
  ps_SequenceLiabilities :: int
  ps_LiveReservations :: int
  ps_ResidualDebts :: int
  ps_RawRunning :: int
  ps_RawWaiting :: int
  ps_PreviousRawRunning :: int
  ps_PreviousRawWaiting :: int
  ps_GenerationDelta :: nat
  ps_PreemptionDelta :: nat
  ps_ObservationInterval :: duration
  ps_ObservationIntervalValid :: bool
  ps_TPS :: TPSSnapshot

definition zeroProjectedState :: ProjectedState where
  [zero_simps]: "zeroProjectedState = \<lparr>ps_UnobservedSequences = 0, ps_ColdSheddablePending = 0,
     ps_SequenceLiabilities = 0, ps_LiveReservations = 0, ps_ResidualDebts = 0,
     ps_RawRunning = 0, ps_RawWaiting = 0, ps_PreviousRawRunning = 0, ps_PreviousRawWaiting = 0,
     ps_GenerationDelta = 0, ps_PreemptionDelta = 0, ps_ObservationInterval = 0,
     ps_ObservationIntervalValid = False, ps_TPS = zeroTPSSnapshot\<rparr>"

record DecisionRecord =
  dr_Action :: Action
  dr_Reason :: Reason
  dr_Scope :: ProtectionScope
  dr_Demand :: TPSRequestDemand
  dr_State :: ProjectedState
  dr_ProjectedRunning :: int
  dr_ProjectedWindowSequences :: int
  dr_RunningLimit :: int
  dr_RunningLimitSource :: RunningLimitSource
  dr_WindowConcurrency :: int
  dr_TPSDecisionResult :: TPSDecisionResult
  dr_TPSDecisionSubreason :: TPSDecisionSubreason
  dr_ObservationSequence :: nat
  dr_ControllerSequence :: nat
  dr_RuntimeEpoch :: nat
  dr_PolicyRevision :: nat
  dr_ReservationID :: nat

definition zeroDecisionRecord :: DecisionRecord where
  [zero_simps]: "zeroDecisionRecord = \<lparr>dr_Action = ActionEmpty, dr_Reason = ReasonEmpty,
     dr_Scope = ProtectionNone, dr_Demand = zeroDemand, dr_State = zeroProjectedState,
     dr_ProjectedRunning = 0, dr_ProjectedWindowSequences = 0, dr_RunningLimit = 0,
     dr_RunningLimitSource = RunningLimitSourceEmpty, dr_WindowConcurrency = 0,
     dr_TPSDecisionResult = TPSDecisionResultUnknown,
     dr_TPSDecisionSubreason = TPSDecisionSubreasonUnknown, dr_ObservationSequence = 0,
     dr_ControllerSequence = 0, dr_RuntimeEpoch = 0, dr_PolicyRevision = 0,
     dr_ReservationID = 0\<rparr>"

definition Admitted :: "DecisionRecord \<Rightarrow> bool" where
  "Admitted d \<longleftrightarrow> dr_Action d = ActionAdmit"

record BackendObservation =
  bo_RuntimeIdentity :: string
  bo_ObservedAt :: gotime
  bo_MaximumAge :: duration
  bo_Running :: int
  bo_Waiting :: int
  bo_GenerationTokensTotal :: nat
  bo_PreemptionsTotal :: nat
  bo_RuntimeStartTime :: f64
  bo_PrefillTokensTotal :: nat
  bo_PrefillTokensValid :: bool

definition zeroObservation :: BackendObservation where
  [zero_simps]: "zeroObservation = \<lparr>bo_RuntimeIdentity = '''', bo_ObservedAt = zeroTime,
     bo_MaximumAge = 0, bo_Running = 0, bo_Waiting = 0, bo_GenerationTokensTotal = 0,
     bo_PreemptionsTotal = 0, bo_RuntimeStartTime = Fin 0, bo_PrefillTokensTotal = 0,
     bo_PrefillTokensValid = False\<rparr>"

record PublicationResult =
  pr_Accepted :: bool
  pr_RuntimeReset :: bool
  pr_RuntimeIdentityDrift :: bool
  pr_Reason :: Reason
  pr_ObservationSequence :: nat
  pr_RuntimeEpoch :: nat

definition rejectedPublication :: "Reason \<Rightarrow> nat \<Rightarrow> PublicationResult" where
  [zero_simps]: "rejectedPublication reason epoch = \<lparr>pr_Accepted = False, pr_RuntimeReset = False,
     pr_RuntimeIdentityDrift = False, pr_Reason = reason, pr_ObservationSequence = 0,
     pr_RuntimeEpoch = epoch\<rparr>"

subsection \<open>Facts on tiers and demands\<close>

lemma Sheddable_cases: "Sheddable t \<longleftrightarrow> t = TierDefault \<or> t = TierFlex"
  by (cases t) auto

lemma Sheddable_valid: "Sheddable t \<Longrightarrow> RequestTier_valid t"
  by (cases t) auto

lemma demand_valid_seqs: "demand_valid d \<Longrightarrow> 1 \<le> dm_DecodeSequences d"
  by (simp add: demand_valid_def)

lemma zeroDemand_invalid [simp]: "\<not> demand_valid zeroDemand"
  by (simp add: demand_valid_def zeroDemand_def)

lemma WithTier_tier_valid: "RequestTier_valid (dm_Tier (WithTier d t))"
  by (simp add: WithTier_def)

lemma NewFallback_WithTier_valid: "demand_valid (WithTier NewFallbackTPSRequestDemand t)"
  by (simp add: demand_valid_def WithTier_def NewFallbackTPSRequestDemand_def zeroDemand_def)

lemma WithPrefillTokens_nonneg: "0 \<le> dm_PrefillTokens (WithPrefillTokens d n)"
  by (simp add: WithPrefillTokens_def)

lemma demand_valid_WithPrefill [simp]: "demand_valid (WithPrefillTokens d n) = demand_valid d"
  by (simp add: demand_valid_def WithPrefillTokens_def)

end
