(* ===== verification/Exposure.thy ===== *)
theory Exposure
  imports Demand "HOL-Library.Word"
begin

text \<open>
  \<open>internal/admission/sequence_exposure.go\<close>: 128-bit sequence-nanosecond counters built
  from pairs of \<open>uint64\<close> with \<open>math/bits\<close>, and the ledger that integrates the numbers of
  forwarded and of responding sequences over time. Words are HOL-Library words, so every
  carry of the source is visible; \<open>snval\<close> reads a pair as a natural number and the lemmas
  say that the pair operations are exact 128-bit arithmetic.

  An operation of the ledger returns the new ledger and Go's boolean: it may fail after
  \<open>advance\<close> has already moved the clock, as in the source.
\<close>

subsection \<open>\<open>math/bits\<close>\<close>

definition bits_Mul64 :: "64 word \<Rightarrow> 64 word \<Rightarrow> 64 word \<times> 64 word" where
  "bits_Mul64 x y = (of_nat ((unat x * unat y) div 2 ^ 64), x * y)"

definition bits_Add64 :: "64 word \<Rightarrow> 64 word \<Rightarrow> 64 word \<Rightarrow> 64 word \<times> 64 word" where
  "bits_Add64 x y carry =
     (x + y + carry, of_nat ((unat x + unat y + unat carry) div 2 ^ 64))"

definition bits_Sub64 :: "64 word \<Rightarrow> 64 word \<Rightarrow> 64 word \<Rightarrow> 64 word \<times> 64 word" where
  "bits_Sub64 x y borrow =
     (x - y - borrow, if unat x < unat y + unat borrow then 1 else 0)"

subsection \<open>Sequence nanoseconds\<close>

record sequenceNanoseconds =
  sn_high :: "64 word"
  sn_low :: "64 word"

definition zeroNanoseconds :: sequenceNanoseconds where
  "zeroNanoseconds = \<lparr>sn_high = 0, sn_low = 0\<rparr>"

definition addDuration ::
  "sequenceNanoseconds \<Rightarrow> duration \<Rightarrow> int \<Rightarrow> sequenceNanoseconds option" where
  "addDuration n duration sequences =
     (if duration < 0 \<or> sequences < 0 then None
      else let (high0, low0) = bits_Mul64 (of_int duration) (of_int sequences);
               (low, carry) = bits_Add64 (sn_low n) low0 0;
               (high, overflow) = bits_Add64 (sn_high n) high0 carry
           in if overflow \<noteq> 0 then None else Some \<lparr>sn_high = high, sn_low = low\<rparr>)"

definition subtract ::
  "sequenceNanoseconds \<Rightarrow> sequenceNanoseconds \<Rightarrow> sequenceNanoseconds option" where
  "subtract n previous =
     (let (low, borrow) = bits_Sub64 (sn_low n) (sn_low previous) 0;
          (high, underflow) = bits_Sub64 (sn_high n) (sn_high previous) borrow
      in if underflow \<noteq> 0 then None else Some \<lparr>sn_high = high, sn_low = low\<rparr>)"

definition compare_ns :: "sequenceNanoseconds \<Rightarrow> sequenceNanoseconds \<Rightarrow> int" where
  "compare_ns n other =
     (if sn_high n < sn_high other \<or> (sn_high n = sn_high other \<and> sn_low n < sn_low other)
      then - 1 else if n = other then 0 else 1)"

text \<open>\<open>math.Ldexp(float64(high), 64)\<close> multiplies by a power of two.\<close>

definition ns_seconds :: "sequenceNanoseconds \<Rightarrow> f64" where
  "ns_seconds n =
     (let nanoseconds = fadd (fmul (f64_of_nat (unat (sn_high n))) (Fin (2 ^ 64)))
                             (f64_of_nat (unat (sn_low n)))
      in fdiv nanoseconds (f64_of_int Second))"

definition snval :: "sequenceNanoseconds \<Rightarrow> nat" where
  "snval n = unat (sn_high n) * 2 ^ 64 + unat (sn_low n)"

lemma unat64_less: "unat (x :: 64 word) < 18446744073709551616"
  using unsigned_less [of x] by simp

lemma unat64_le: "unat (x :: 64 word) \<le> 18446744073709551615"
  using unat64_less [of x] by linarith

lemma unat64_of_nat: "unat (of_nat n :: 64 word) = n mod 2 ^ 64"
  by (simp add: unat_of_nat)

lemma unat64_of_nat_small: "n < 2 ^ 64 \<Longrightarrow> unat (of_nat n :: 64 word) = n"
  by (simp add: unat_of_nat)

lemma snval_less: "snval n < 2 ^ 128"
proof -
  have "unat (sn_high n) \<le> 2 ^ 64 - 1" and "unat (sn_low n) < 2 ^ 64"
    using unat64_le [of "sn_high n"] unat64_less [of "sn_low n"] by simp_all
  then show ?thesis unfolding snval_def by simp
qed

lemma snval_inj: "snval m = snval n \<Longrightarrow> m = n"
proof -
  assume eq: "snval m = snval n"
  have d: "snval k div 2 ^ 64 = unat (sn_high k) \<and> snval k mod 2 ^ 64 = unat (sn_low k)" for k
    unfolding snval_def using unat64_less [of "sn_low k"] by simp
  from eq d [of m] d [of n] have "unat (sn_high m) = unat (sn_high n)"
    and "unat (sn_low m) = unat (sn_low n)" by simp_all
  then show "m = n" by (simp add: word_unat_eq_iff)
qed

lemma snval_zero [simp]: "snval zeroNanoseconds = 0"
  by (simp add: snval_def zeroNanoseconds_def)

lemma snval_0_iff: "snval n = 0 \<longleftrightarrow> n = zeroNanoseconds"
  using snval_inj [of n zeroNanoseconds] by auto

text \<open>The two-word operations are exact.\<close>

lemma add128:
  fixes h l h' l' :: "64 word"
  assumes "bits_Add64 l l' 0 = (low, carry)" and "bits_Add64 h h' carry = (high, overflow)"
  shows "(unat h * 2 ^ 64 + unat l) + (unat h' * 2 ^ 64 + unat l') =
     unat overflow * 2 ^ 128 + (unat high * 2 ^ 64 + unat low)"
proof -
  have step: "unat x + unat y + unat c = unat (of_nat ((unat x + unat y + unat c) div 2 ^ 64) :: 64 word) * 2 ^ 64
      + unat (x + y + c)" if "unat c \<le> 1" for x y c :: "64 word"
  proof -
    let ?s = "unat x + unat y + unat c"
    have "unat (x + y + c) = ?s mod 2 ^ 64"
      by (simp add: unat_word_ariths mod_simps)
    moreover have "?s div 2 ^ 64 < 2 ^ 64"
      using unat64_less [of x] unat64_less [of y] that by (intro less_mult_imp_div_less) simp
    ultimately show ?thesis
      using unat64_of_nat_small [of "?s div 2 ^ 64"] by (simp add: div_mult_mod_eq)
  qed
  have lc: "unat l + unat l' = unat carry * 2 ^ 64 + unat low"
    using assms(1) step [of 0 l l'] by (simp add: bits_Add64_def) 
  have "unat carry \<le> 1"
    using lc unat64_less [of l] unat64_less [of l'] by simp
  from step [OF this, of h h'] assms(2) have "unat h + unat h' + unat carry = unat overflow * 2 ^ 64 + unat high"
    by (simp add: bits_Add64_def)
  with lc show ?thesis by simp
qed

lemma sub128:
  fixes h l h' l' :: "64 word"
  assumes "bits_Sub64 l l' 0 = (low, borrow)" and "bits_Sub64 h h' borrow = (high, underflow)"
  shows "underflow = 0 \<and> (unat high * 2 ^ 64 + unat low) + (unat h' * 2 ^ 64 + unat l') = unat h * 2 ^ 64 + unat l
     \<or> underflow = 1 \<and> unat h * 2 ^ 64 + unat l < unat h' * 2 ^ 64 + unat l'"
proof -
  have step: "int (unat (x - y - c)) = int (unat x) - int (unat y) - int (unat c) +
      (if unat x < unat y + unat c then 18446744073709551616 else 0)"
    if "unat c \<le> 1" for x y c :: "64 word"
  proof -
    let ?d = "int (unat x) - int (unat y) - int (unat c)"
    have "uint (x - y - c) = (uint x - uint y - uint c) mod 18446744073709551616"
      by (simp add: uint_word_ariths mod_simps)
    then have eq: "int (unat (x - y - c)) = ?d mod 18446744073709551616" by simp
    show ?thesis
    proof (cases "unat x < unat y + unat c")
      case True
      have "0 \<le> ?d + 18446744073709551616" "?d + 18446744073709551616 < 18446744073709551616"
        using True unat64_le [of y] that by linarith+
      then have "(?d + 18446744073709551616) mod 18446744073709551616 = ?d + 18446744073709551616" by (rule mod_pos_pos_trivial)
      with eq True show ?thesis by simp
    next
      case False
      then have "0 \<le> ?d" "?d < 18446744073709551616" using unat64_less [of x] by linarith+
      then have "?d mod 18446744073709551616 = ?d" by (rule mod_pos_pos_trivial)
      with eq False show ?thesis by simp
    qed
  qed
  have b: "unat borrow = (if unat l < unat l' then 1 else 0)"
    and lo: "int (unat low) = int (unat l) - int (unat l') + (if unat l < unat l' then 2 ^ 64 else 0)"
    using assms(1) step [of 0 l l'] by (auto simp: bits_Sub64_def)
  have hi: "int (unat high) = int (unat h) - int (unat h') - int (unat borrow) +
      (if unat h < unat h' + unat borrow then 2 ^ 64 else 0)"
    and u: "underflow = (if unat h < unat h' + unat borrow then 1 else 0)"
    using assms(2) step [of borrow h h'] b by (auto simp: bits_Sub64_def)
  show ?thesis
  proof (cases "unat h < unat h' + unat borrow")
    case True
    then have "unat h * 2 ^ 64 + 2 ^ 64 \<le> (unat h' + unat borrow) * 2 ^ 64" by simp
    then have "unat h * 2 ^ 64 + unat l < unat h' * 2 ^ 64 + unat l'"
      using b unat64_less [of l] by (auto split: if_splits)
    with True u show ?thesis by simp
  next
    case False
    with hi lo b have "int (unat high) * 2 ^ 64 + int (unat low) + (int (unat h') * 2 ^ 64 + int (unat l')) =
        int (unat h) * 2 ^ 64 + int (unat l)"
      by (auto split: if_splits)
    then have "int (unat high * 2 ^ 64 + unat low + (unat h' * 2 ^ 64 + unat l')) = int (unat h * 2 ^ 64 + unat l)"
      by simp
    then have "unat high * 2 ^ 64 + unat low + (unat h' * 2 ^ 64 + unat l') = unat h * 2 ^ 64 + unat l"
      by (simp only: of_nat_eq_iff)
    with False u show ?thesis by simp
  qed
qed

lemma mul128:
  fixes x y :: "64 word"
  assumes "bits_Mul64 x y = (hi, lo)"
  shows "unat hi * 2 ^ 64 + unat lo = unat x * unat y"
proof -
  have "unat x * unat y \<le> 18446744073709551615 * 18446744073709551615"
    by (intro mult_le_mono unat64_le)
  then have "unat x * unat y div 2 ^ 64 < 2 ^ 64"
    by (intro less_mult_imp_div_less) simp
  then have "unat hi = unat x * unat y div 2 ^ 64"
    using assms unat64_of_nat_small by (auto simp: bits_Mul64_def)
  moreover have "unat lo = unat x * unat y mod 2 ^ 64"
    using assms by (auto simp: bits_Mul64_def unat_word_ariths)
  ultimately show ?thesis by (simp add: div_mult_mod_eq)
qed

lemma unat_of_int64: "0 \<le> d \<Longrightarrow> d \<le> MaxInt64 \<Longrightarrow> unat (of_int d :: 64 word) = nat d"
  by (simp add: unsigned_of_int take_bit_int_eq_self)

lemma subtract_Some_iff: "subtract m n = Some r \<longleftrightarrow> snval r + snval n = snval m"
  and subtract_None_iff: "subtract m n = None \<longleftrightarrow> snval m < snval n"
proof -
  obtain low borrow where lo: "bits_Sub64 (sn_low m) (sn_low n) 0 = (low, borrow)" by fastforce
  obtain high u where hi: "bits_Sub64 (sn_high m) (sn_high n) borrow = (high, u)" by fastforce
  let ?s = "\<lparr>sn_high = high, sn_low = low\<rparr>"
  have eq: "subtract m n = (if u \<noteq> 0 then None else Some ?s)"
    by (simp add: subtract_def lo hi)
  from sub128 [OF lo hi]
  have cases: "u = 0 \<and> snval ?s + snval n = snval m \<or> u = 1 \<and> snval m < snval n"
    by (simp add: snval_def)
  show "subtract m n = Some r \<longleftrightarrow> snval r + snval n = snval m"
    using cases eq snval_inj [of r ?s] by auto
  show "subtract m n = None \<longleftrightarrow> snval m < snval n"
    using cases eq by auto
qed

lemma subtract_zero [simp]: "subtract n zeroNanoseconds = Some n"
  by (simp add: subtract_Some_iff)

lemma addDuration_Some_iff:
  assumes "d \<le> MaxInt64" "q \<le> MaxInt64"
  shows "addDuration n d q = Some r \<longleftrightarrow> 0 \<le> d \<and> 0 \<le> q \<and> snval r = snval n + nat d * nat q"
proof (cases "d < 0 \<or> q < 0")
  case True
  then show ?thesis by (auto simp: addDuration_def)
next
  case False
  obtain h0 l0 where mul: "bits_Mul64 (of_int d) (of_int q) = (h0, l0)" by fastforce
  obtain low carry where lo: "bits_Add64 (sn_low n) l0 0 = (low, carry)" by fastforce
  obtain high u where hi: "bits_Add64 (sn_high n) h0 carry = (high, u)" by fastforce
  let ?s = "\<lparr>sn_high = high, sn_low = low\<rparr>"
  have eq: "addDuration n d q = (if u \<noteq> 0 then None else Some ?s)"
    using False by (simp add: addDuration_def mul lo hi)
  have prod: "unat h0 * 2 ^ 64 + unat l0 = nat d * nat q"
    using mul128 [OF mul] False assms by (simp add: unat_of_int64)
  have sum: "snval n + nat d * nat q = unat u * 2 ^ 128 + snval ?s"
    using add128 [OF lo hi] prod by (simp add: snval_def)
  show ?thesis
  proof (cases "u = 0")
    case True
    with sum eq False show ?thesis using snval_inj [of r ?s] by auto
  next
    case nz: False
    then have "1 \<le> unat u" by (simp add: unat_gt_0 Suc_le_eq)
    then have "2 ^ 128 \<le> snval n + nat d * nat q" using sum by simp
    with nz eq show ?thesis using snval_less [of r] by auto
  qed
qed

lemma compare_ns_le_iff: "compare_ns m n \<le> 0 \<longleftrightarrow> snval m \<le> snval n"
proof -
  have "snval m < snval n \<longleftrightarrow> sn_high m < sn_high n \<or> (sn_high m = sn_high n \<and> sn_low m < sn_low n)"
  proof -
    have l: "unat (sn_low m) < 2 ^ 64" "unat (sn_low n) < 2 ^ 64"
      using unat64_less by simp_all
    consider "unat (sn_high m) < unat (sn_high n)" | "unat (sn_high m) = unat (sn_high n)"
      | "unat (sn_high n) < unat (sn_high m)" by linarith
    then show ?thesis
    proof cases
      case 1
      then have "unat (sn_high m) * 2 ^ 64 + 2 ^ 64 \<le> unat (sn_high n) * 2 ^ 64" by simp
      with 1 l show ?thesis by (simp add: snval_def word_less_nat_alt)
    next
      case 2
      then have "sn_high m = sn_high n" by (simp add: word_unat_eq_iff)
      then show ?thesis by (simp add: snval_def word_less_nat_alt)
    next
      case 3
      then have "unat (sn_high n) * 2 ^ 64 + 2 ^ 64 \<le> unat (sn_high m) * 2 ^ 64" by simp
      with 3 l show ?thesis by (auto simp: snval_def word_less_nat_alt)
    qed
  qed
  then show ?thesis using snval_inj [of m n] by (auto simp: compare_ns_def)
qed

subsection \<open>Exposure snapshots\<close>

record sequenceExposureSnapshot =
  sx_forwarded :: sequenceNanoseconds
  sx_response :: sequenceNanoseconds

definition zeroExposure :: sequenceExposureSnapshot where
  [zero_simps]: "zeroExposure = \<lparr>sx_forwarded = zeroNanoseconds, sx_response = zeroNanoseconds\<rparr>"

definition snapshot_valid :: "sequenceExposureSnapshot \<Rightarrow> bool" where
  "snapshot_valid s \<longleftrightarrow> compare_ns (sx_response s) (sx_forwarded s) \<le> 0"

definition snapshot_subtract ::
  "sequenceExposureSnapshot \<Rightarrow> sequenceExposureSnapshot \<Rightarrow> sequenceExposureSnapshot option" where
  "snapshot_subtract s previous =
     (if \<not> snapshot_valid s \<or> \<not> snapshot_valid previous then None
      else case (subtract (sx_forwarded s) (sx_forwarded previous),
                 subtract (sx_response s) (sx_response previous)) of
          (Some forwarded, Some response) \<Rightarrow>
            (let result = \<lparr>sx_forwarded = forwarded, sx_response = response\<rparr>
             in if snapshot_valid result then Some result else None)
        | _ \<Rightarrow> None)"

definition snapshot_seconds :: "sequenceExposureSnapshot \<Rightarrow> (f64 \<times> f64) option" where
  "snapshot_seconds s =
     (if \<not> snapshot_valid s then None
      else let forwarded = ns_seconds (sx_forwarded s);
               response = ns_seconds (sx_response s)
           in if finiteNonnegative forwarded \<and> finiteNonnegative response \<and> fle response forwarded
              then Some (forwarded, response) else None)"

lemma snapshot_valid_iff: "snapshot_valid s \<longleftrightarrow> snval (sx_response s) \<le> snval (sx_forwarded s)"
  by (simp add: snapshot_valid_def compare_ns_le_iff)

subsection \<open>The exposure ledger\<close>

record sequenceExposureLedger =
  el_initialized :: bool
  el_lastEventAt :: gotime
  el_activeForwarded :: int
  el_activeResponse :: int
  el_forwardedTime :: sequenceNanoseconds
  el_responseTime :: sequenceNanoseconds

definition zeroLedger :: sequenceExposureLedger where
  [zero_simps]: "zeroLedger = \<lparr>el_initialized = False, el_lastEventAt = zeroTime,
     el_activeForwarded = 0, el_activeResponse = 0,
     el_forwardedTime = zeroNanoseconds, el_responseTime = zeroNanoseconds\<rparr>"

definition ledger_valid :: "sequenceExposureLedger \<Rightarrow> bool" where
  "ledger_valid l \<longleftrightarrow>
     \<not> (el_activeForwarded l < 0 \<or> el_activeResponse l < 0 \<or>
        el_activeForwarded l < el_activeResponse l \<or>
        0 < compare_ns (el_responseTime l) (el_forwardedTime l)) \<and>
     (if \<not> el_initialized l
      then IsZero (el_lastEventAt l) \<and> el_activeForwarded l = 0 \<and> el_activeResponse l = 0 \<and>
           el_forwardedTime l = zeroNanoseconds \<and> el_responseTime l = zeroNanoseconds
      else \<not> IsZero (el_lastEventAt l))"

definition advance :: "sequenceExposureLedger \<Rightarrow> gotime \<Rightarrow> sequenceExposureLedger \<times> bool" where
  "advance l now =
     (if IsZero now then (l, False)
      else if \<not> el_initialized l then
        (let l' = l\<lparr>el_initialized := True, el_lastEventAt := now\<rparr> in (l', ledger_valid l'))
      else if now < el_lastEventAt l then (l, False)
      else let elapsed = Sub now (el_lastEventAt l)
           in if elapsed < 0 then (l, False)
              else case (addDuration (el_forwardedTime l) elapsed (el_activeForwarded l),
                         addDuration (el_responseTime l) elapsed (el_activeResponse l)) of
                  (Some forwarded, Some response) \<Rightarrow>
                    if 0 < compare_ns response forwarded then (l, False)
                    else (let l' = l\<lparr>el_forwardedTime := forwarded, el_responseTime := response,
                                      el_lastEventAt := now\<rparr>
                          in (l', ledger_valid l'))
                | _ \<Rightarrow> (l, False))"

definition addForwarded ::
  "sequenceExposureLedger \<Rightarrow> gotime \<Rightarrow> int \<Rightarrow> sequenceExposureLedger \<times> bool" where
  "addForwarded l now sequences =
     (if sequences \<le> 0 then (l, False)
      else let (l1, ok) = advance l now
           in if \<not> ok \<or> el_activeForwarded l1 > MaxInt64 - sequences then (l1, False)
              else let l2 = l1\<lparr>el_activeForwarded := wrap64 (el_activeForwarded l1 + sequences)\<rparr>
                   in (l2, ledger_valid l2))"

definition addResponse ::
  "sequenceExposureLedger \<Rightarrow> gotime \<Rightarrow> int \<Rightarrow> sequenceExposureLedger \<times> bool" where
  "addResponse l now sequences =
     (if sequences \<le> 0 then (l, False)
      else let (l1, ok) = advance l now
           in if \<not> ok \<or> el_activeResponse l1 > MaxInt64 - sequences \<or>
                 wrap64 (el_activeResponse l1 + sequences) > el_activeForwarded l1 then (l1, False)
              else let l2 = l1\<lparr>el_activeResponse := wrap64 (el_activeResponse l1 + sequences)\<rparr>
                   in (l2, ledger_valid l2))"

definition remove_exposure ::
  "sequenceExposureLedger \<Rightarrow> gotime \<Rightarrow> int \<Rightarrow> int \<Rightarrow> sequenceExposureLedger \<times> bool" where
  "remove_exposure l now forwarded response =
     (if forwarded \<le> 0 \<or> response < 0 \<or> response > forwarded then (l, False)
      else let (l1, ok) = advance l now
           in if \<not> ok \<or> el_activeForwarded l1 < forwarded \<or> el_activeResponse l1 < response
              then (l1, False)
              else let l2 = l1\<lparr>el_activeForwarded := wrap64 (el_activeForwarded l1 - forwarded),
                               el_activeResponse := wrap64 (el_activeResponse l1 - response)\<rparr>
                   in (l2, ledger_valid l2))"

definition ledger_snapshot ::
  "sequenceExposureLedger \<Rightarrow> gotime \<Rightarrow>
   sequenceExposureLedger \<times> sequenceExposureSnapshot option" where
  "ledger_snapshot l now =
     (let (l1, ok) = advance l now
      in if \<not> ok then (l1, None)
         else let s = \<lparr>sx_forwarded = el_forwardedTime l1, sx_response = el_responseTime l1\<rparr>
              in (l1, if snapshot_valid s then Some s else None))"

definition ledger_reset :: "sequenceExposureLedger \<Rightarrow> sequenceExposureLedger" where
  "ledger_reset l = zeroLedger"

subsection \<open>Exact effect of the ledger operations\<close>

text \<open>
  Time the ledger charges to each active sequence when it advances to \<open>now\<close>.
\<close>

definition elapsed_ns :: "sequenceExposureLedger \<Rightarrow> gotime \<Rightarrow> nat" where
  "elapsed_ns l now = (if el_initialized l then nat (Sub now (el_lastEventAt l)) else 0)"

definition ledger_bounded :: "sequenceExposureLedger \<Rightarrow> bool" where
  "ledger_bounded l \<longleftrightarrow> el_activeForwarded l \<le> MaxInt64"

lemma ledger_valid_iff:
  "ledger_valid l \<longleftrightarrow>
     0 \<le> el_activeResponse l \<and> el_activeResponse l \<le> el_activeForwarded l \<and>
     snval (el_responseTime l) \<le> snval (el_forwardedTime l) \<and>
     (if el_initialized l then \<not> IsZero (el_lastEventAt l)
      else IsZero (el_lastEventAt l) \<and> el_activeForwarded l = 0 \<and> el_activeResponse l = 0 \<and>
           snval (el_forwardedTime l) = 0 \<and> snval (el_responseTime l) = 0)"
  by (auto simp: ledger_valid_def snval_0_iff not_less compare_ns_le_iff)

lemma zeroLedger_valid [simp]: "ledger_valid zeroLedger" "ledger_bounded zeroLedger"
  by (simp_all add: ledger_valid_iff zeroLedger_def IsZero_def ledger_bounded_def)

lemma advance_spec:
  assumes "ledger_valid l" "ledger_bounded l" "advance l now = (l', True)"
  shows "ledger_valid l' \<and> ledger_bounded l' \<and> el_initialized l' \<and> el_lastEventAt l' = now \<and>
     \<not> IsZero now \<and> (el_initialized l \<longrightarrow> el_lastEventAt l \<le> now) \<and>
     el_activeForwarded l' = el_activeForwarded l \<and> el_activeResponse l' = el_activeResponse l \<and>
     snval (el_forwardedTime l') = snval (el_forwardedTime l) + elapsed_ns l now * nat (el_activeForwarded l) \<and>
     snval (el_responseTime l') = snval (el_responseTime l) + elapsed_ns l now * nat (el_activeResponse l)"
proof -
  have b: "el_activeForwarded l \<le> MaxInt64" "el_activeResponse l \<le> MaxInt64"
    using assms(1,2) by (simp_all add: ledger_valid_iff ledger_bounded_def)
  have d: "Sub now (el_lastEventAt l) \<le> MaxInt64" by (rule Sub_le_max)
  show ?thesis
  proof (cases "el_initialized l")
    case False
    with assms show ?thesis
      by (auto simp: advance_def Let_def elapsed_ns_def ledger_bounded_def split: if_splits)
  next
    case True
    with assms(3) obtain f r where
      fr: "addDuration (el_forwardedTime l) (Sub now (el_lastEventAt l)) (el_activeForwarded l) = Some f"
          "addDuration (el_responseTime l) (Sub now (el_lastEventAt l)) (el_activeResponse l) = Some r"
      and l': "l' = l\<lparr>el_forwardedTime := f, el_responseTime := r, el_lastEventAt := now\<rparr>"
      and v: "ledger_valid l'" and ge: "el_lastEventAt l \<le> now" and nz: "\<not> IsZero now"
      by (auto simp: advance_def Let_def split: if_splits option.splits)
    from fr have "snval f = snval (el_forwardedTime l) + elapsed_ns l now * nat (el_activeForwarded l)"
      and "snval r = snval (el_responseTime l) + elapsed_ns l now * nat (el_activeResponse l)"
      using addDuration_Some_iff [OF d b(1)] addDuration_Some_iff [OF d b(2)] True
      by (simp_all add: elapsed_ns_def)
    with l' v ge nz True assms(2) show ?thesis by (simp add: ledger_bounded_def)
  qed
qed

text \<open>The ledger advances whenever time does not run backwards and 128 bits suffice.\<close>

definition ledger_room :: "sequenceExposureLedger \<Rightarrow> gotime \<Rightarrow> bool" where
  "ledger_room l now \<longleftrightarrow> \<not> IsZero now \<and> (el_initialized l \<longrightarrow> el_lastEventAt l \<le> now) \<and>
     snval (el_forwardedTime l) + elapsed_ns l now * nat (el_activeForwarded l) < 2 ^ 128"

lemma snval_surj: "n < 2 ^ 128 \<Longrightarrow> \<exists>r. snval r = n"
proof -
  assume n: "n < 2 ^ 128"
  let ?r = "\<lparr>sn_high = of_nat (n div 2 ^ 64), sn_low = of_nat (n mod 2 ^ 64)\<rparr>"
  have "n div 2 ^ 64 < 2 ^ 64" using n by (intro less_mult_imp_div_less) simp
  then have "snval ?r = n"
    by (simp add: snval_def unat64_of_nat div_mult_mod_eq)
  then show ?thesis by blast
qed

lemma advance_total:
  assumes "ledger_valid l" "ledger_bounded l" "ledger_room l now"
  shows "snd (advance l now)"
proof (cases "el_initialized l")
  case False
  with assms show ?thesis
    by (auto simp: advance_def Let_def ledger_room_def ledger_valid_iff)
next
  case True
  let ?e = "Sub now (el_lastEventAt l)"
  have b: "el_activeForwarded l \<le> MaxInt64" "el_activeResponse l \<le> MaxInt64"
    and nn: "0 \<le> el_activeForwarded l" "0 \<le> el_activeResponse l"
    and le: "el_activeResponse l \<le> el_activeForwarded l"
    and rf: "snval (el_responseTime l) \<le> snval (el_forwardedTime l)"
    using assms(1,2) by (simp_all add: ledger_valid_iff ledger_bounded_def)
  have e: "0 \<le> ?e" and el: "elapsed_ns l now = nat ?e"
    using assms(3) True by (simp_all add: ledger_room_def elapsed_ns_def)
  have d: "?e \<le> MaxInt64" by (rule Sub_le_max)
  let ?F = "snval (el_forwardedTime l) + nat ?e * nat (el_activeForwarded l)"
  let ?R = "snval (el_responseTime l) + nat ?e * nat (el_activeResponse l)"
  have "nat ?e * nat (el_activeResponse l) \<le> nat ?e * nat (el_activeForwarded l)"
    using le by (intro mult_le_mono) simp_all
  with rf have RF: "?R \<le> ?F" by (rule add_le_mono)
  have F: "?F < 2 ^ 128" using assms(3) el by (simp add: ledger_room_def)
  obtain f where f: "snval f = ?F" using snval_surj [OF F] by blast
  obtain r where r: "snval r = ?R" using snval_surj [of ?R] RF F by (meson le_less_trans)
  have "addDuration (el_forwardedTime l) ?e (el_activeForwarded l) = Some f"
    and "addDuration (el_responseTime l) ?e (el_activeResponse l) = Some r"
    using addDuration_Some_iff [OF d b(1)] addDuration_Some_iff [OF d b(2)] e nn f r by auto
  moreover have "compare_ns r f \<le> 0" using RF f r by (simp add: compare_ns_le_iff)
  ultimately show ?thesis
    using True assms(1,3) e f r RF
    by (simp add: advance_def Let_def ledger_room_def ledger_valid_iff)
qed

text \<open>Every operation is a guard around a pair; the guard of a success is false.\<close>

lemma if_pair_TrueE:
  assumes "(if b then (x, False) else e) = (y, True)"
  obtains "\<not> b" "e = (y, True)"
  using assms by (cases b) simp_all

lemma addForwarded_spec:
  assumes "ledger_valid l" "ledger_bounded l" "addForwarded l now n = (l', True)"
  shows "ledger_valid l' \<and> ledger_bounded l' \<and> el_initialized l' \<and> el_lastEventAt l' = now \<and>
     0 < n \<and> (el_initialized l \<longrightarrow> el_lastEventAt l \<le> now) \<and>
     el_activeForwarded l' = el_activeForwarded l + n \<and> el_activeResponse l' = el_activeResponse l \<and>
     snval (el_forwardedTime l') = snval (el_forwardedTime l) + elapsed_ns l now * nat (el_activeForwarded l) \<and>
     snval (el_responseTime l') = snval (el_responseTime l) + elapsed_ns l now * nat (el_activeResponse l)"
proof -
  from assms(3) obtain l1 where a: "advance l now = (l1, True)"
    and n: "0 < n" "el_activeForwarded l1 \<le> MaxInt64 - n" "ledger_valid l'"
    and l': "l' = l1\<lparr>el_activeForwarded := wrap64 (el_activeForwarded l1 + n)\<rparr>"
  proof -
    obtain l1 ok where a: "advance l now = (l1, ok)" by fastforce
    show ?thesis using assms(3) unfolding addForwarded_def a Let_def prod.case
      by (elim if_pair_TrueE) (rule that [of l1], (metis a prod.inject not_le not_less)+)
  qed
  note s = advance_spec [OF assms(1,2) a]
  then have "0 \<le> el_activeForwarded l1" by (auto simp: ledger_valid_iff)
  with n have "wrap64 (el_activeForwarded l1 + n) = el_activeForwarded l1 + n" by simp
  with s n l' show ?thesis by (simp add: ledger_bounded_def)
qed

lemma addResponse_spec:
  assumes "ledger_valid l" "ledger_bounded l" "addResponse l now n = (l', True)"
  shows "ledger_valid l' \<and> ledger_bounded l' \<and> el_initialized l' \<and> el_lastEventAt l' = now \<and>
     0 < n \<and> (el_initialized l \<longrightarrow> el_lastEventAt l \<le> now) \<and>
     el_activeForwarded l' = el_activeForwarded l \<and> el_activeResponse l' = el_activeResponse l + n \<and>
     snval (el_forwardedTime l') = snval (el_forwardedTime l) + elapsed_ns l now * nat (el_activeForwarded l) \<and>
     snval (el_responseTime l') = snval (el_responseTime l) + elapsed_ns l now * nat (el_activeResponse l)"
proof -
  from assms(3) obtain l1 where a: "advance l now = (l1, True)"
    and n: "0 < n" "el_activeResponse l1 \<le> MaxInt64 - n" "ledger_valid l'"
    and l': "l' = l1\<lparr>el_activeResponse := wrap64 (el_activeResponse l1 + n)\<rparr>"
  proof -
    obtain l1 ok where a: "advance l now = (l1, ok)" by fastforce
    show ?thesis using assms(3) unfolding addResponse_def a Let_def prod.case
      by (elim if_pair_TrueE) (rule that [of l1], (metis a prod.inject not_le not_less)+)
  qed
  note s = advance_spec [OF assms(1,2) a]
  then have "0 \<le> el_activeResponse l1" by (auto simp: ledger_valid_iff)
  with n have "wrap64 (el_activeResponse l1 + n) = el_activeResponse l1 + n" by simp
  with s n l' show ?thesis by (simp add: ledger_bounded_def)
qed

lemma remove_exposure_spec:
  assumes "ledger_valid l" "ledger_bounded l" "remove_exposure l now f r = (l', True)"
  shows "ledger_valid l' \<and> ledger_bounded l' \<and> el_initialized l' \<and> el_lastEventAt l' = now \<and>
     0 < f \<and> 0 \<le> r \<and> r \<le> f \<and> (el_initialized l \<longrightarrow> el_lastEventAt l \<le> now) \<and>
     el_activeForwarded l' = el_activeForwarded l - f \<and> el_activeResponse l' = el_activeResponse l - r \<and>
     snval (el_forwardedTime l') = snval (el_forwardedTime l) + elapsed_ns l now * nat (el_activeForwarded l) \<and>
     snval (el_responseTime l') = snval (el_responseTime l) + elapsed_ns l now * nat (el_activeResponse l)"
proof -
  from assms(3) obtain l1 where a: "advance l now = (l1, True)"
    and n: "0 < f" "0 \<le> r" "r \<le> f" "f \<le> el_activeForwarded l1" "r \<le> el_activeResponse l1" "ledger_valid l'"
    and l': "l' = l1\<lparr>el_activeForwarded := wrap64 (el_activeForwarded l1 - f),
                     el_activeResponse := wrap64 (el_activeResponse l1 - r)\<rparr>"
  proof -
    obtain l1 ok where a: "advance l now = (l1, ok)" by fastforce
    show ?thesis using assms(3) unfolding remove_exposure_def a Let_def prod.case
      by (elim if_pair_TrueE) (rule that [of l1], (metis a prod.inject not_le not_less)+)
  qed
  note s = advance_spec [OF assms(1,2) a]
  then have "el_activeForwarded l1 \<le> MaxInt64" "el_activeResponse l1 \<le> MaxInt64"
    by (auto simp: ledger_valid_iff ledger_bounded_def)
  with n have "wrap64 (el_activeForwarded l1 - f) = el_activeForwarded l1 - f"
    "wrap64 (el_activeResponse l1 - r) = el_activeResponse l1 - r" by simp_all
  with s n l' show ?thesis by (simp add: ledger_bounded_def)
qed

lemma ledger_snapshot_spec:
  assumes "ledger_valid l" "ledger_bounded l" "ledger_snapshot l now = (l', Some s)"
  shows "ledger_valid l' \<and> ledger_bounded l' \<and> el_initialized l' \<and> el_lastEventAt l' = now \<and>
     (el_initialized l \<longrightarrow> el_lastEventAt l \<le> now) \<and> snapshot_valid s \<and>
     s = \<lparr>sx_forwarded = el_forwardedTime l', sx_response = el_responseTime l'\<rparr> \<and>
     el_activeForwarded l' = el_activeForwarded l \<and> el_activeResponse l' = el_activeResponse l \<and>
     snval (el_forwardedTime l') = snval (el_forwardedTime l) + elapsed_ns l now * nat (el_activeForwarded l) \<and>
     snval (el_responseTime l') = snval (el_responseTime l) + elapsed_ns l now * nat (el_activeResponse l)"
proof -
  from assms(3) have a: "advance l now = (l', True)"
    and s: "snapshot_valid s" "s = \<lparr>sx_forwarded = el_forwardedTime l', sx_response = el_responseTime l'\<rparr>"
    by (auto simp: ledger_snapshot_def Let_def split: prod.splits if_splits)
  from advance_spec [OF assms(1,2) a] s show ?thesis by simp
qed

text \<open>With room, no operation fails on arguments the controller passes.\<close>

lemma addForwarded_total:
  assumes "ledger_valid l" "ledger_bounded l" "ledger_room l now"
    "0 < n" "el_activeForwarded l + n \<le> MaxInt64"
  shows "snd (addForwarded l now n)"
proof -
  obtain l1 where a: "advance l now = (l1, True)"
    using advance_total [OF assms(1-3)] by (metis prod.collapse)
  note s = advance_spec [OF assms(1,2) a]
  with assms(4,5) show ?thesis
    by (auto simp: addForwarded_def a Let_def ledger_valid_iff)
qed

lemma addResponse_total:
  assumes "ledger_valid l" "ledger_bounded l" "ledger_room l now"
    "0 < n" "el_activeResponse l + n \<le> el_activeForwarded l"
  shows "snd (addResponse l now n)"
proof -
  obtain l1 where a: "advance l now = (l1, True)"
    using advance_total [OF assms(1-3)] by (metis prod.collapse)
  note s = advance_spec [OF assms(1,2) a]
  with assms(2,4,5) show ?thesis
    by (auto simp: addResponse_def a Let_def ledger_valid_iff ledger_bounded_def)
qed

lemma remove_exposure_total:
  assumes "ledger_valid l" "ledger_bounded l" "ledger_room l now"
    "0 < f" "0 \<le> r" "r \<le> f" "f \<le> el_activeForwarded l" "r \<le> el_activeResponse l"
    "el_activeResponse l - r \<le> el_activeForwarded l - f"
  shows "snd (remove_exposure l now f r)"
proof -
  obtain l1 where a: "advance l now = (l1, True)"
    using advance_total [OF assms(1-3)] by (metis prod.collapse)
  note s = advance_spec [OF assms(1,2) a]
  with assms(2,4-9) show ?thesis
    by (auto simp: remove_exposure_def a Let_def ledger_valid_iff ledger_bounded_def)
qed

lemma ledger_snapshot_total:
  assumes "ledger_valid l" "ledger_bounded l" "ledger_room l now"
  shows "\<exists>l' s. ledger_snapshot l now = (l', Some s)"
proof -
  obtain l1 where a: "advance l now = (l1, True)"
    using advance_total [OF assms] by (metis prod.collapse)
  note s = advance_spec [OF assms(1,2) a]
  then have "snapshot_valid \<lparr>sx_forwarded = el_forwardedTime l1, sx_response = el_responseTime l1\<rparr>"
    by (auto simp: snapshot_valid_iff ledger_valid_iff)
  then show ?thesis by (simp add: ledger_snapshot_def a Let_def)
qed

subsection \<open>The ledger integrates sequence time\<close>

datatype ledgerEvent = LForward int | LResponse int | LRemove int int

fun ledger_step :: "sequenceExposureLedger \<Rightarrow> gotime \<times> ledgerEvent \<Rightarrow> sequenceExposureLedger option" where
  "ledger_step l (t, LForward n) = (case addForwarded l t n of (l', ok) \<Rightarrow> if ok then Some l' else None)"
| "ledger_step l (t, LResponse n) = (case addResponse l t n of (l', ok) \<Rightarrow> if ok then Some l' else None)"
| "ledger_step l (t, LRemove f r) = (case remove_exposure l t f r of (l', ok) \<Rightarrow> if ok then Some l' else None)"

fun forwardedDelta :: "ledgerEvent \<Rightarrow> int" where
  "forwardedDelta (LForward n) = n"
| "forwardedDelta (LResponse n) = 0"
| "forwardedDelta (LRemove f r) = - f"

fun responseDelta :: "ledgerEvent \<Rightarrow> int" where
  "responseDelta (LForward n) = 0"
| "responseDelta (LResponse n) = n"
| "responseDelta (LRemove f r) = - r"

definition ledger_run :: "(gotime \<times> ledgerEvent) list \<Rightarrow> sequenceExposureLedger option" where
  "ledger_run evs = foldo ledger_step zeroLedger evs"

definition count_at :: "(ledgerEvent \<Rightarrow> int) \<Rightarrow> (gotime \<times> ledgerEvent) list \<Rightarrow> int" where
  "count_at delta evs = sum_list (map (\<lambda>(t, e). delta e) evs)"

text \<open>Each event contributes its change in the count for the time since it happened.\<close>

definition integral_at :: "(ledgerEvent \<Rightarrow> int) \<Rightarrow> (gotime \<times> ledgerEvent) list \<Rightarrow> gotime \<Rightarrow> int" where
  "integral_at delta evs now = sum_list (map (\<lambda>(t, e). delta e * (now - t)) evs)"

lemma integral_at_shift:
  "integral_at d evs now = integral_at d evs t + count_at d evs * (now - t)"
  by (induction evs) (auto simp: integral_at_def count_at_def algebra_simps)

lemma integral_at_snoc: "integral_at d (evs @ [(t, e)]) t = integral_at d evs t"
  by (simp add: integral_at_def)

lemma count_at_snoc: "count_at d (evs @ [(t, e)]) = count_at d evs + d e"
  by (simp add: count_at_def)

lemma ledger_step_spec:
  assumes "ledger_valid l" "ledger_bounded l" "ledger_step l (t, e) = Some l'"
  shows "ledger_valid l' \<and> ledger_bounded l' \<and> el_initialized l' \<and> el_lastEventAt l' = t \<and>
     (el_initialized l \<longrightarrow> el_lastEventAt l \<le> t) \<and>
     el_activeForwarded l' = el_activeForwarded l + forwardedDelta e \<and>
     el_activeResponse l' = el_activeResponse l + responseDelta e \<and>
     snval (el_forwardedTime l') = snval (el_forwardedTime l) + elapsed_ns l t * nat (el_activeForwarded l) \<and>
     snval (el_responseTime l') = snval (el_responseTime l) + elapsed_ns l t * nat (el_activeResponse l)"
  using assms(3) addForwarded_spec [OF assms(1,2)] addResponse_spec [OF assms(1,2)]
    remove_exposure_spec [OF assms(1,2)]
  by (cases e) (auto split: prod.splits if_splits)

lemma ledger_run_snoc:
  "ledger_run (evs @ [(t, e)]) =
     (case ledger_run evs of None \<Rightarrow> None | Some l \<Rightarrow> ledger_step l (t, e))"
  by (auto simp: ledger_run_def foldo_append split: option.splits)

lemma ledger_run_inv:
  assumes "ledger_run evs = Some l"
  shows "ledger_valid l \<and> ledger_bounded l \<and> el_activeForwarded l = count_at forwardedDelta evs \<and>
     el_activeResponse l = count_at responseDelta evs \<and>
     (if evs = [] then l = zeroLedger
      else el_initialized l \<and> el_lastEventAt l = fst (last evs) \<and> fst (hd evs) \<le> fst (last evs))"
  using assms
proof (induction evs arbitrary: l rule: rev_induct)
  case Nil
  then have "l = zeroLedger" by (simp add: ledger_run_def)
  then show ?case using zeroLedger_valid by (simp add: count_at_def) (simp add: zeroLedger_def)
next
  case (snoc x evs)
  obtain t e where x: "x = (t, e)" by fastforce
  from snoc.prems obtain l0 where run: "ledger_run evs = Some l0" and step: "ledger_step l0 (t, e) = Some l"
    by (auto simp: x ledger_run_snoc split: option.splits)
  note IH = snoc.IH [OF run]
  have "ledger_valid l0" "ledger_bounded l0" using IH by blast+
  note s = ledger_step_spec [OF this step]
  have order: "fst (hd evs) \<le> t" if "evs \<noteq> []" using IH s that by (auto intro: order_trans)
  show ?case using IH s order by (simp add: x count_at_snoc hd_append)
qed

text \<open>
  Over a run whose length fits a Go duration nothing saturates: the two counters are the
  exact integrals of the two counts over time.
\<close>

lemma ledger_run_integral:
  assumes "ledger_run evs = Some l" "evs \<noteq> []" "fst (last evs) - fst (hd evs) \<le> MaxInt64"
  shows "int (snval (el_forwardedTime l)) = integral_at forwardedDelta evs (fst (last evs)) \<and>
     int (snval (el_responseTime l)) = integral_at responseDelta evs (fst (last evs))"
  using assms
proof (induction evs arbitrary: l rule: rev_induct)
  case Nil
  then show ?case by simp
next
  case (snoc x evs)
  obtain t e where x: "x = (t, e)" by fastforce
  from snoc.prems obtain l0 where run: "ledger_run evs = Some l0" and step: "ledger_step l0 (t, e) = Some l"
    by (auto simp: x ledger_run_snoc split: option.splits)
  note inv = ledger_run_inv [OF run]
  have v0: "ledger_valid l0" "ledger_bounded l0" using inv by blast+
  note s = ledger_step_spec [OF v0 step]
  show ?case
  proof (cases "evs = []")
    case True
    then have "l0 = zeroLedger" using inv by simp
    with s True show ?thesis
      by (simp add: x integral_at_def elapsed_ns_def zeroLedger_def)
  next
    case False
    have le: "fst (last evs) \<le> t" "fst (hd evs) \<le> fst (last evs)" using inv s False by simp_all
    have len: "t - fst (hd evs) \<le> MaxInt64" using snoc.prems(3) False by (simp add: x hd_append)
    with le have IH: "int (snval (el_forwardedTime l0)) = integral_at forwardedDelta evs (fst (last evs)) \<and>
       int (snval (el_responseTime l0)) = integral_at responseDelta evs (fst (last evs))"
      using snoc.IH [OF run False] by simp
    have el: "int (elapsed_ns l0 t) = t - fst (last evs)"
      using le len inv False by (simp add: elapsed_ns_def Sub_exact)
    have nn: "0 \<le> el_activeForwarded l0" "0 \<le> el_activeResponse l0"
      using v0 by (simp_all add: ledger_valid_iff)
    have "int (snval (el_forwardedTime l)) = integral_at forwardedDelta evs t"
      unfolding integral_at_shift [of _ evs t "fst (last evs)"] el [symmetric]
      using s IH inv nn by simp
    moreover have "int (snval (el_responseTime l)) = integral_at responseDelta evs t"
      unfolding integral_at_shift [of _ evs t "fst (last evs)"] el [symmetric]
      using s IH inv nn by simp
    ultimately show ?thesis by (simp add: x integral_at_snoc)
  qed
qed

end
