(* ===== verification/TpsWindow.thy ===== *)
theory TpsWindow
  imports Demand
begin

text \<open>
  \<open>internal/admission/tps_window.go\<close>: the sixty second window of throughput evidence, kept in
  61 one-second buckets, and the cumulative evidence about which denominator was used.

  The operation \<open>observe\<close> returns the new window and Go's boolean, as it may fail after it has
  changed buckets. Its loop over the seconds of an interval is a function with a
  termination proof. The lemmas show that two seconds never meet in one bucket, that every
  accumulator stays finite and nonnegative, and that within generous numeric bounds
  \<open>observe\<close> never fails.
\<close>

subsection \<open>Samples, buckets, helpers\<close>

abbreviation tpsWindowDuration :: duration where "tpsWindowDuration \<equiv> 60 * Second"
abbreviation tpsWindowBucketCount :: nat where "tpsWindowBucketCount \<equiv> 61"
abbreviation tpsWindowMinimumQualifiedSamples :: nat where "tpsWindowMinimumQualifiedSamples \<equiv> 4"
abbreviation tpsWindowMinimumQualifiedSeqSeconds :: f64 where
  "tpsWindowMinimumQualifiedSeqSeconds \<equiv> Fin 8"

record tpsSample =
  sm_start :: gotime
  sm_end :: gotime
  sm_maximumInterval :: duration
  sm_generatedTokens :: nat
  sm_previousRunning :: int
  sm_running :: int
  sm_forwardedSequenceLiabilities :: int
  sm_localExposureMeasured :: bool
  sm_localForwardedSequenceSeconds :: f64
  sm_localResponseSequenceSeconds :: f64

record tpsBucket =
  bk_second :: int
  bk_valid :: bool
  bk_tokens :: f64
  bk_activeSeconds :: f64
  bk_samples :: nat
  bk_sequenceTokens :: f64
  bk_sequenceSeconds :: f64
  bk_sequenceSamples :: nat

definition zeroBucket :: tpsBucket where
  "zeroBucket = \<lparr>bk_second = 0, bk_valid = False, bk_tokens = Fin 0, bk_activeSeconds = Fin 0,
     bk_samples = 0, bk_sequenceTokens = Fin 0, bk_sequenceSeconds = Fin 0,
     bk_sequenceSamples = 0\<rparr>"

definition maximumInt64 :: "int list \<Rightarrow> int" where
  "maximumInt64 values = foldl (\<lambda>m v. if v > m then v else m) 0 values"

definition maximumFloat64 :: "f64 list \<Rightarrow> f64" where
  "maximumFloat64 values = foldl (\<lambda>m v. if flt m v then v else m) (Fin 0) values"

definition validTPSIntervalSnapshot :: "TPSIntervalSnapshot \<Rightarrow> bool" where
  "validTPSIntervalSnapshot s =
     (if \<not> iv_Qualified s
      then iv_Tokens s = 0 \<and> feq (iv_DurationSeconds s) (Fin 0) \<and> feq (iv_SequenceSeconds s) (Fin 0) \<and>
           feq (iv_AggregateTPS s) (Fin 0) \<and> feq (iv_MeanActiveTPS s) (Fin 0)
      else flt (Fin 0) (iv_DurationSeconds s) \<and> flt (Fin 0) (iv_SequenceSeconds s) \<and>
           finiteNonnegative (iv_DurationSeconds s) \<and> finiteNonnegative (iv_SequenceSeconds s) \<and>
           finiteNonnegative (iv_AggregateTPS s) \<and> finiteNonnegative (iv_MeanActiveTPS s))"

definition validTPSSnapshot :: "TPSSnapshot \<Rightarrow> bool" where
  "validTPSSnapshot s \<longleftrightarrow>
     finiteNonnegative (ts_Reference s) \<and> finiteNonnegative (ts_QualifiedTokens s) \<and>
     finiteNonnegative (ts_QualifiedActiveSeconds s) \<and>
     finiteNonnegative (ts_QualifiedSequenceTokens s) \<and>
     finiteNonnegative (ts_QualifiedSequenceSeconds s) \<and>
     finiteNonnegative (ts_AggregateTPS s) \<and> finiteNonnegative (ts_MeanActiveTPS s) \<and>
     validTPSIntervalSnapshot (ts_Latest s)"

subsection \<open>Evidence on the denominator\<close>

datatype tpsDenominatorSource = tpsDenominatorEndpoint | tpsDenominatorLocalForwarded
  | tpsDenominatorLocalResponse | tpsDenominatorFallbackLiability | tpsDenominatorTie
  | tpsDenominatorNone

definition addTPSDenominatorSeconds :: "f64 \<Rightarrow> f64 \<Rightarrow> f64" where
  "addTPSDenominatorSeconds current increment =
     (if \<not> finiteNonnegative current \<or> \<not> finiteNonnegative increment \<or>
         flt (fsub MaxFloat64 current) increment
      then current else fadd current increment)"

definition incrementTPSDenominatorSelection :: "nat \<Rightarrow> nat" where
  "incrementTPSDenominatorSelection value = (if value < MaxUint64 then value + 1 else value)"

definition tpsDenominatorSourceFor ::
  "f64 \<Rightarrow> f64 \<Rightarrow> f64 \<Rightarrow> f64 \<Rightarrow> f64 \<Rightarrow> tpsDenominatorSource" where
  "tpsDenominatorSourceFor endpoint localForwarded localResponse fallbackLiability selected =
     (if fle selected (Fin 0) \<or> \<not> finiteNonnegative selected then tpsDenominatorNone
      else let values = [(tpsDenominatorEndpoint, endpoint),
                         (tpsDenominatorLocalForwarded, localForwarded),
                         (tpsDenominatorLocalResponse, localResponse),
                         (tpsDenominatorFallbackLiability, fallbackLiability)];
               (matched, matches) =
                 foldl (\<lambda>(matched, matches) (source, value).
                          if flt (Fin 0) value \<and> feq value selected
                          then (source, matches + 1) else (matched, matches))
                   (tpsDenominatorNone, 0 :: int) values
           in if matches = 1 then matched else tpsDenominatorTie)"

definition denominator_observe ::
  "TPSDenominatorEvidence \<Rightarrow> f64 \<Rightarrow> f64 \<Rightarrow> f64 \<Rightarrow> f64 \<Rightarrow> f64 \<Rightarrow> TPSDenominatorEvidence" where
  "denominator_observe e endpoint localForwarded localResponse fallbackLiability selected =
     (let e1 = e\<lparr>
        de_EndpointSequenceSeconds := addTPSDenominatorSeconds (de_EndpointSequenceSeconds e) endpoint,
        de_LocalForwardedSeconds := addTPSDenominatorSeconds (de_LocalForwardedSeconds e) localForwarded,
        de_LocalResponseSeconds := addTPSDenominatorSeconds (de_LocalResponseSeconds e) localResponse,
        de_FallbackLiabilitySeconds :=
          addTPSDenominatorSeconds (de_FallbackLiabilitySeconds e) fallbackLiability,
        de_SelectedSequenceSeconds := addTPSDenominatorSeconds (de_SelectedSequenceSeconds e) selected\<rparr>
      in case tpsDenominatorSourceFor endpoint localForwarded localResponse fallbackLiability selected of
           tpsDenominatorEndpoint \<Rightarrow>
             e1\<lparr>de_EndpointSelections := incrementTPSDenominatorSelection (de_EndpointSelections e1)\<rparr>
         | tpsDenominatorLocalForwarded \<Rightarrow>
             e1\<lparr>de_LocalForwardedSelections := incrementTPSDenominatorSelection (de_LocalForwardedSelections e1)\<rparr>
         | tpsDenominatorLocalResponse \<Rightarrow>
             e1\<lparr>de_LocalResponseSelections := incrementTPSDenominatorSelection (de_LocalResponseSelections e1)\<rparr>
         | tpsDenominatorFallbackLiability \<Rightarrow>
             e1\<lparr>de_FallbackLiabilitySelections :=
                  incrementTPSDenominatorSelection (de_FallbackLiabilitySelections e1)\<rparr>
         | tpsDenominatorTie \<Rightarrow>
             e1\<lparr>de_TieSelections := incrementTPSDenominatorSelection (de_TieSelections e1)\<rparr>
         | tpsDenominatorNone \<Rightarrow>
             e1\<lparr>de_NoneSelections := incrementTPSDenominatorSelection (de_NoneSelections e1)\<rparr>)"

subsection \<open>The window\<close>

record tpsWindow =
  tw_reference :: f64
  tw_buckets :: "tpsBucket list"
  tw_latest :: TPSIntervalSnapshot
  tw_denominator :: TPSDenominatorEvidence

definition newTPSWindow :: "f64 \<Rightarrow> tpsWindow" where
  "newTPSWindow reference =
     \<lparr>tw_reference = reference, tw_buckets = replicate tpsWindowBucketCount zeroBucket,
      tw_latest = zeroInterval, tw_denominator = zeroDenominator\<rparr>"

definition window_enabled :: "tpsWindow \<Rightarrow> bool" where
  "window_enabled w \<longleftrightarrow> flt (Fin 0) (tw_reference w)"

definition window_reset :: "tpsWindow \<Rightarrow> tpsWindow" where
  "window_reset w =
     w\<lparr>tw_buckets := map (\<lambda>_. zeroBucket) (tw_buckets w), tw_latest := zeroInterval\<rparr>"

definition tpsBucketActiveAt :: "tpsBucket \<Rightarrow> gotime \<Rightarrow> bool" where
  "tpsBucketActiveAt bucket now =
     (if \<not> bk_valid bucket \<or> IsZero now then bk_valid bucket
      else bk_second bucket * Second + Second > now - tpsWindowDuration)"

definition window_expire :: "tpsWindow \<Rightarrow> gotime \<Rightarrow> tpsWindow" where
  "window_expire w now =
     (if IsZero now then w
      else w\<lparr>tw_buckets := map (\<lambda>bucket.
               if bk_valid bucket \<and>
                  \<not> bk_second bucket * Second + Second > now - tpsWindowDuration
               then zeroBucket else bucket) (tw_buckets w)\<rparr>)"

text \<open>The bucket of a second: Go's truncating \<open>%\<close>, made nonnegative.\<close>

definition bucketIndex :: "int \<Rightarrow> nat" where
  "bucketIndex second =
     (let index = go_mod second 61 in nat (if index < 0 then index + 61 else index))"

text \<open>The bucket as \<open>add\<close> finds or opens it, and the bucket it leaves.\<close>

definition bucket_open :: "tpsBucket \<Rightarrow> int \<Rightarrow> tpsBucket" where
  "bucket_open old second =
     (if \<not> bk_valid old then zeroBucket\<lparr>bk_second := second, bk_valid := True\<rparr> else old)"

definition bucket_next ::
  "tpsBucket \<Rightarrow> f64 \<Rightarrow> f64 \<Rightarrow> nat \<Rightarrow> f64 \<Rightarrow> f64 \<Rightarrow> nat \<Rightarrow> tpsBucket" where
  "bucket_next bucket tokens activeSeconds samples sequenceTokens sequenceSeconds sequenceSamples =
     bucket\<lparr>bk_tokens := fadd (bk_tokens bucket) tokens,
            bk_activeSeconds := fadd (bk_activeSeconds bucket) activeSeconds,
            bk_samples := wrapu64 (bk_samples bucket + samples),
            bk_sequenceTokens := fadd (bk_sequenceTokens bucket) sequenceTokens,
            bk_sequenceSeconds := fadd (bk_sequenceSeconds bucket) sequenceSeconds,
            bk_sequenceSamples := wrapu64 (bk_sequenceSamples bucket + sequenceSamples)\<rparr>"

definition bucket_finite :: "tpsBucket \<Rightarrow> bool" where
  "bucket_finite b \<longleftrightarrow> finiteNonnegative (bk_tokens b) \<and> finiteNonnegative (bk_activeSeconds b) \<and>
     finiteNonnegative (bk_sequenceTokens b) \<and> finiteNonnegative (bk_sequenceSeconds b)"

definition window_add ::
  "tpsWindow \<Rightarrow> int \<Rightarrow> f64 \<Rightarrow> f64 \<Rightarrow> nat \<Rightarrow> f64 \<Rightarrow> f64 \<Rightarrow> nat \<Rightarrow> tpsWindow \<times> bool" where
  "window_add w second tokens activeSeconds samples sequenceTokens sequenceSeconds sequenceSamples =
     (if \<not> finiteNonnegative tokens \<or> \<not> finiteNonnegative activeSeconds \<or>
         \<not> finiteNonnegative sequenceTokens \<or> \<not> finiteNonnegative sequenceSeconds
      then (w, False)
      else let index = bucketIndex second;
               old = tw_buckets w ! index
           in if bk_valid old \<and> bk_second old \<noteq> second then (w, False)
              else let bucket = bucket_open old second;
                       w1 = w\<lparr>tw_buckets := (tw_buckets w)[index := bucket]\<rparr>
                   in if subu64 MaxUint64 (bk_samples bucket) < samples \<or>
                         subu64 MaxUint64 (bk_sequenceSamples bucket) < sequenceSamples then (w1, False)
                      else let next = bucket_next bucket tokens activeSeconds samples
                                        sequenceTokens sequenceSeconds sequenceSamples
                           in if \<not> bucket_finite next then (w1, False)
                              else (w1\<lparr>tw_buckets := (tw_buckets w1)[index := next]\<rparr>, True))"

subsection \<open>Observing an interval\<close>

text \<open>The end of the segment that begins at \<open>cursor\<close>, and the body of the loop.\<close>

definition segment_end :: "tpsSample \<Rightarrow> gotime \<Rightarrow> gotime" where
  "segment_end sample cursor =
     (let segmentEnd = Unix cursor * Second + Second
      in if segmentEnd > sm_end sample then sm_end sample else segmentEnd)"

definition observe_segment ::
  "tpsWindow \<Rightarrow> tpsSample \<Rightarrow> f64 \<Rightarrow> f64 \<Rightarrow> bool \<Rightarrow> gotime \<Rightarrow> tpsWindow \<times> bool" where
  "observe_segment w sample intervalSeconds sequenceSecondsTotal sequenceCountReliable cursor =
     (let segmentEnd = segment_end sample cursor;
          segmentSeconds = Seconds (Sub segmentEnd cursor);
          fraction = fdiv segmentSeconds intervalSeconds;
          tokens = fmul (f64_of_nat (sm_generatedTokens sample)) fraction;
          isLast = (segmentEnd = sm_end sample);
          samples = (if isLast then 1 else 0);
          sequenceTokens = (if sequenceCountReliable then tokens else Fin 0);
          sequenceSeconds =
            (if sequenceCountReliable then fmul sequenceSecondsTotal fraction else Fin 0);
          sequenceSamples = (if sequenceCountReliable then samples else 0)
      in window_add w (Unix cursor) tokens segmentSeconds samples
           sequenceTokens sequenceSeconds sequenceSamples)"

text \<open>
  The loop of \<open>observe\<close>: from \<open>cursor\<close> to the end of the sample, one second boundary at a
  time. It stops because every segment ends strictly after it begins.
\<close>

function observe_loop ::
  "tpsWindow \<Rightarrow> tpsSample \<Rightarrow> f64 \<Rightarrow> f64 \<Rightarrow> bool \<Rightarrow> gotime \<Rightarrow> tpsWindow \<times> bool" where
  "observe_loop w sample intervalSeconds sequenceSecondsTotal sequenceCountReliable cursor =
     (if \<not> cursor < sm_end sample then (w, True)
      else if \<not> Unix cursor * Second + Second > cursor then (w, False)
      else let (w1, ok) = observe_segment w sample intervalSeconds sequenceSecondsTotal
                            sequenceCountReliable cursor
           in if \<not> ok then (w1, False)
              else observe_loop w1 sample intervalSeconds sequenceSecondsTotal
                     sequenceCountReliable (segment_end sample cursor))"
  by pat_completeness auto

termination observe_loop
  by (relation "measure (\<lambda>(w, sample, i, q, r, cursor). nat (sm_end sample - cursor))")
     (auto simp: segment_end_def Let_def split: if_splits)

declare observe_loop.simps [simp del]

text \<open>The seconds a sample may be divided by, and the part of \<open>observe\<close> after its guards.\<close>

definition endpointSequenceSecondsOf :: "tpsSample \<Rightarrow> f64 \<Rightarrow> f64" where
  "endpointSequenceSecondsOf sample intervalSeconds =
     fmul intervalSeconds (f64_of_int (maximumInt64 [sm_previousRunning sample, sm_running sample]))"

definition useFallback :: "tpsSample \<Rightarrow> bool" where
  "useFallback sample \<longleftrightarrow> \<not> sm_localExposureMeasured sample \<and>
     feq (sm_localForwardedSequenceSeconds sample) (Fin 0) \<and>
     feq (sm_localResponseSequenceSeconds sample) (Fin 0)"

definition fallbackSequenceSecondsOf :: "tpsSample \<Rightarrow> f64 \<Rightarrow> f64" where
  "fallbackSequenceSecondsOf sample intervalSeconds =
     (if useFallback sample
      then fmul intervalSeconds (f64_of_int (sm_forwardedSequenceLiabilities sample)) else Fin 0)"

definition sequenceSecondsTotalOf :: "tpsSample \<Rightarrow> f64 \<Rightarrow> f64" where
  "sequenceSecondsTotalOf sample intervalSeconds =
     (let total = maximumFloat64 [endpointSequenceSecondsOf sample intervalSeconds,
            sm_localForwardedSequenceSeconds sample, sm_localResponseSequenceSeconds sample]
      in if useFallback sample
         then maximumFloat64 [total, fallbackSequenceSecondsOf sample intervalSeconds] else total)"

definition latestOf :: "tpsSample \<Rightarrow> f64 \<Rightarrow> TPSIntervalSnapshot" where
  "latestOf sample intervalSeconds =
     (let total = sequenceSecondsTotalOf sample intervalSeconds
      in \<lparr>iv_Qualified = True, iv_Tokens = sm_generatedTokens sample,
          iv_DurationSeconds = intervalSeconds, iv_SequenceSeconds = total,
          iv_AggregateTPS = fdiv (f64_of_nat (sm_generatedTokens sample)) intervalSeconds,
          iv_MeanActiveTPS = fdiv (f64_of_nat (sm_generatedTokens sample)) total\<rparr>)"

definition observe_qualified :: "tpsWindow \<Rightarrow> tpsSample \<Rightarrow> f64 \<Rightarrow> tpsWindow \<times> bool" where
  "observe_qualified w sample intervalSeconds =
     (let endpointSequenceSeconds = endpointSequenceSecondsOf sample intervalSeconds;
          fallbackSequenceSeconds = fallbackSequenceSecondsOf sample intervalSeconds;
          sequenceSecondsTotal = sequenceSecondsTotalOf sample intervalSeconds;
          sequenceCountReliable = flt (Fin 0) sequenceSecondsTotal;
          latest = latestOf sample intervalSeconds
      in if \<not> finiteNonnegative intervalSeconds \<or> feq intervalSeconds (Fin 0) then (w, False)
         else if \<not> finiteNonnegative endpointSequenceSeconds then (w, False)
         else if useFallback sample \<and> \<not> finiteNonnegative fallbackSequenceSeconds then (w, False)
         else if sequenceCountReliable \<and> \<not> validTPSIntervalSnapshot latest then (w, False)
         else let w1 = (if sequenceCountReliable then w\<lparr>tw_latest := latest\<rparr> else w);
                  cutoff = sm_end sample - tpsWindowDuration;
                  cursor = (if sm_start sample < cutoff then cutoff else sm_start sample);
                  (w2, ok) = observe_loop w1 sample intervalSeconds sequenceSecondsTotal
                               sequenceCountReliable cursor
              in if \<not> ok then (w2, False)
                 else (w2\<lparr>tw_denominator := denominator_observe (tw_denominator w2)
                         endpointSequenceSeconds (sm_localForwardedSequenceSeconds sample)
                         (sm_localResponseSequenceSeconds sample) fallbackSequenceSeconds
                         sequenceSecondsTotal\<rparr>, True))"

text \<open>The samples \<open>observe\<close> uses; every other one only expires old buckets.\<close>

definition sample_qualifies :: "tpsSample \<Rightarrow> bool" where
  "sample_qualifies sample \<longleftrightarrow>
     \<not> (IsZero (sm_start sample) \<or> IsZero (sm_end sample) \<or> sm_maximumInterval sample \<le> 0 \<or>
        sm_previousRunning sample < 0 \<or> sm_running sample < 0 \<or>
        sm_forwardedSequenceLiabilities sample < 0 \<or>
        \<not> finiteNonnegative (sm_localForwardedSequenceSeconds sample) \<or>
        \<not> finiteNonnegative (sm_localResponseSequenceSeconds sample)) \<and>
     (let interval = Sub (sm_end sample) (sm_start sample)
      in \<not> (interval \<le> 0 \<or> interval > sm_maximumInterval sample)) \<and>
     \<not> (sm_generatedTokens sample = 0 \<and> \<not> flt (Fin 0) (sm_localResponseSequenceSeconds sample))"

definition window_observe :: "tpsWindow \<Rightarrow> tpsSample \<Rightarrow> tpsWindow \<times> bool" where
  "window_observe w sample =
     (if \<not> window_enabled w then (w, True)
      else let w1 = window_expire (w\<lparr>tw_latest := zeroInterval\<rparr>) (sm_end sample)
           in if \<not> sample_qualifies sample then (w1, True)
              else observe_qualified w1 sample (Seconds (Sub (sm_end sample) (sm_start sample))))"

subsection \<open>Reading the window\<close>

text \<open>One bucket of the summation; \<open>None\<close> is the early return on a full counter.\<close>

definition sum_bucket :: "gotime \<Rightarrow> TPSSnapshot \<Rightarrow> tpsBucket \<Rightarrow> TPSSnapshot option" where
  "sum_bucket now s bucket =
     (if \<not> bk_valid bucket \<or> \<not> tpsBucketActiveAt bucket now then Some s
      else if subu64 MaxUint64 (ts_QualifiedSamples s) < bk_samples bucket then None
      else if subu64 MaxUint64 (ts_QualifiedSequenceSamples s) < bk_sequenceSamples bucket then None
      else Some (s\<lparr>
        ts_QualifiedSamples := wrapu64 (ts_QualifiedSamples s + bk_samples bucket),
        ts_QualifiedTokens := fadd (ts_QualifiedTokens s) (bk_tokens bucket),
        ts_QualifiedActiveSeconds := fadd (ts_QualifiedActiveSeconds s) (bk_activeSeconds bucket),
        ts_QualifiedSequenceSamples :=
          wrapu64 (ts_QualifiedSequenceSamples s + bk_sequenceSamples bucket),
        ts_QualifiedSequenceTokens := fadd (ts_QualifiedSequenceTokens s) (bk_sequenceTokens bucket),
        ts_QualifiedSequenceSeconds :=
          fadd (ts_QualifiedSequenceSeconds s) (bk_sequenceSeconds bucket)\<rparr>))"

definition with_rates :: "TPSSnapshot \<Rightarrow> TPSSnapshot" where
  "with_rates s =
     (let s1 = (if flt (Fin 0) (ts_QualifiedActiveSeconds s)
                then s\<lparr>ts_AggregateTPS := fdiv (ts_QualifiedTokens s) (ts_QualifiedActiveSeconds s)\<rparr>
                else s)
      in if flt (Fin 0) (ts_QualifiedSequenceSeconds s1)
         then s1\<lparr>ts_MeanActiveTPS :=
                   fdiv (ts_QualifiedSequenceTokens s1) (ts_QualifiedSequenceSeconds s1)\<rparr>
         else s1)"

definition window_snapshot :: "tpsWindow \<Rightarrow> gotime \<Rightarrow> TPSSnapshot" where
  "window_snapshot w now =
     (let base = zeroTPSSnapshot\<lparr>ts_Reference := tw_reference w, ts_Enabled := window_enabled w,
                   ts_Latest := tw_latest w, ts_Denominator := tw_denominator w\<rparr>;
          unavailable = zeroTPSSnapshot\<lparr>ts_Reference := tw_reference w, ts_Enabled := True,
                          ts_Denominator := tw_denominator w\<rparr>
      in if \<not> ts_Enabled base then base
         else case foldo (sum_bucket now) base (tw_buckets w) of
           None \<Rightarrow> unavailable
         | Some s \<Rightarrow>
             if \<not> validTPSSnapshot s then unavailable
             else let s2 = with_rates s
                  in if \<not> finiteNonnegative (ts_AggregateTPS s2) \<or> \<not> finiteNonnegative (ts_MeanActiveTPS s2)
                     then unavailable
                     else s2\<lparr>ts_Ready :=
                       (tpsWindowMinimumQualifiedSamples \<le> ts_QualifiedSequenceSamples s2 \<and>
                        fle tpsWindowMinimumQualifiedSeqSeconds (ts_QualifiedSequenceSeconds s2))\<rparr>)"

subsection \<open>The buckets of sixty-one consecutive seconds are distinct\<close>

lemma bucketIndex_mod: "bucketIndex s = nat (s mod 61)"
proof (cases "0 \<le> s")
  case True
  then have "go_mod s 61 = s mod 61" by (rule go_mod_nonneg) simp
  then show ?thesis by (simp add: bucketIndex_def Let_def)
next
  case False
  have g: "go_mod s 61 = - ((- s) mod 61)"
    using False by (simp add: go_mod_def go_div_def minus_mult_div_eq_mod [symmetric])
  have m: "s mod 61 = (if (- s) mod 61 = 0 then 0 else 61 - (- s) mod 61)"
    using zmod_zminus1_eq_if [of "- s" 61] by simp
  have "0 \<le> (- s) mod 61" by simp
  with g m show ?thesis by (auto simp: bucketIndex_def Let_def)
qed

lemma bucketIndex_less [simp]: "bucketIndex s < 61"
  by (simp add: bucketIndex_mod nat_less_iff)

lemma bucketIndex_inj:
  assumes "bucketIndex s = bucketIndex s'" "\<bar>s - s'\<bar> < 61"
  shows "s = s'"
proof -
  have "s mod 61 = s' mod 61"
    using assms(1) by (simp add: bucketIndex_mod nat_eq_iff2)
  then have dvd: "61 dvd s - s'" by (simp add: mod_eq_dvd_iff)
  show ?thesis
  proof (rule ccontr)
    assume "s \<noteq> s'"
    then have "\<bar>61\<bar> \<le> \<bar>s - s'\<bar>" using dvd by (intro dvd_imp_le_int) simp_all
    with assms(2) show False by simp
  qed
qed

subsection \<open>The invariant of the window\<close>

definition bucket_ok :: "gotime \<Rightarrow> nat \<Rightarrow> tpsBucket \<Rightarrow> bool" where
  "bucket_ok e i b \<longleftrightarrow> bucket_finite b \<and>
     bk_samples b \<le> MaxUint64 \<and> bk_sequenceSamples b \<le> bk_samples b \<and>
     (bk_valid b \<longrightarrow> bucketIndex (bk_second b) = i \<and> bk_second b * Second \<le> e)"

definition window_ok :: "gotime \<Rightarrow> tpsWindow \<Rightarrow> bool" where
  "window_ok e w \<longleftrightarrow> length (tw_buckets w) = 61 \<and>
     (\<forall>i<61. bucket_ok e i (tw_buckets w ! i)) \<and>
     validTPSIntervalSnapshot (tw_latest w) \<and> finiteNonnegative (tw_reference w)"

text \<open>After \<open>expire\<close> every bucket left is less than a minute old.\<close>

definition window_fresh :: "gotime \<Rightarrow> tpsWindow \<Rightarrow> bool" where
  "window_fresh e w \<longleftrightarrow>
     (\<forall>i<61. bk_valid (tw_buckets w ! i) \<longrightarrow>
        e - tpsWindowDuration < bk_second (tw_buckets w ! i) * Second + Second)"

lemma window_okD:
  assumes "window_ok e w" "i < 61"
  shows "bucket_ok e i (tw_buckets w ! i)"
  using assms by (simp add: window_ok_def)

lemma zeroBucket_ok [simp]: "bucket_ok e i zeroBucket"
  by (simp add: bucket_ok_def zeroBucket_def bucket_finite_def)

lemma zeroInterval_valid [simp]: "validTPSIntervalSnapshot zeroInterval"
  by (simp add: validTPSIntervalSnapshot_def zeroInterval_def feq_def)

lemma bucket_ok_mono: "bucket_ok e i b \<Longrightarrow> e \<le> e' \<Longrightarrow> bucket_ok e' i b"
  by (auto simp: bucket_ok_def)

lemma window_ok_mono: "window_ok e w \<Longrightarrow> e \<le> e' \<Longrightarrow> window_ok e' w"
  unfolding window_ok_def using bucket_ok_mono by blast

lemma newTPSWindow_ok: "finiteNonnegative r \<Longrightarrow> window_ok e (newTPSWindow r)"
  unfolding window_ok_def newTPSWindow_def by (simp add: nth_replicate)

lemma window_reset_ok: "window_ok e w \<Longrightarrow> window_ok e' (window_reset w)"
  by (auto simp: window_ok_def window_reset_def)

lemma window_expire_ok:
  assumes "window_ok e w" "e \<le> e'"
  shows "window_ok e' (window_expire w e')"
proof -
  have "window_ok e' w" using assms by (rule window_ok_mono)
  then show ?thesis by (auto simp: window_ok_def window_expire_def)
qed

lemma window_expire_fresh:
  "length (tw_buckets w) = 61 \<Longrightarrow> \<not> IsZero e \<Longrightarrow> window_fresh e (window_expire w e)"
  by (auto simp: window_fresh_def window_expire_def zeroBucket_def)

lemma window_expire_reference [simp]: "tw_reference (window_expire w e) = tw_reference w"
  and window_expire_latest [simp]: "tw_latest (window_expire w e) = tw_latest w"
  and window_expire_denominator [simp]: "tw_denominator (window_expire w e) = tw_denominator w"
  by (simp_all add: window_expire_def)

text \<open>The second of a segment within the minute before \<open>e\<close>.\<close>

definition second_in :: "gotime \<Rightarrow> int \<Rightarrow> bool" where
  "second_in e s \<longleftrightarrow> e - tpsWindowDuration < s * Second + Second \<and> s * Second \<le> e"

lemma second_in_collision:
  assumes "second_in e s" "second_in e s'" "bucketIndex s = bucketIndex s'"
  shows "s = s'"
proof -
  have "s - s' < 61" and "s' - s < 61"
    using assms(1,2) unfolding second_in_def by linarith+
  then have "\<bar>s - s'\<bar> < 61" by simp
  with assms(3) show ?thesis by (rule bucketIndex_inj)
qed

lemma second_in_Unix:
  assumes "e - tpsWindowDuration \<le> c" "c \<le> e"
  shows "second_in e (Unix c)"
  using Unix_floor [of c] assms by (simp add: second_in_def)

subsection \<open>One addition\<close>

text \<open>An addition changes nothing, or one bucket, which is then the bucket of its second.\<close>

lemma window_add_cases:
  assumes "window_ok e w" "second * Second \<le> e" "seqSamples \<le> samples"
    and "window_add w second t a samples st ss seqSamples = (w', ok)"
  obtains (same) "w' = w" "\<not> ok"
  | (new) b where "w' = w\<lparr>tw_buckets := (tw_buckets w)[bucketIndex second := b]\<rparr>"
      "bucket_ok e (bucketIndex second) b" "bk_valid b" "bk_second b = second"
proof -
  let ?i = "bucketIndex second"
  let ?bucket = "bucket_open (tw_buckets w ! ?i) second"
  let ?next = "bucket_next ?bucket t a samples st ss seqSamples"
  have old: "bucket_ok e ?i (tw_buckets w ! ?i)" using assms(1) by (rule window_okD) simp
  let ?fin = "finiteNonnegative t \<and> finiteNonnegative a \<and> finiteNonnegative st \<and> finiteNonnegative ss"
  let ?hit = "bk_valid (tw_buckets w ! ?i) \<and> bk_second (tw_buckets w ! ?i) \<noteq> second"
  let ?full = "subu64 MaxUint64 (bk_samples ?bucket) < samples \<or>
     subu64 MaxUint64 (bk_sequenceSamples ?bucket) < seqSamples"
  have b: "bucket_ok e ?i ?bucket" "bk_valid ?bucket" "bk_second ?bucket = second" if "\<not> ?hit"
    using that old assms(2) by (auto simp: bucket_ok_def zeroBucket_def bucket_open_def bucket_finite_def)
  consider (none) "\<not> ?fin \<or> ?hit" | (opened) "?fin" "\<not> ?hit" "?full \<or> \<not> bucket_finite ?next"
    | (added) "?fin" "\<not> ?hit" "\<not> ?full" "bucket_finite ?next" by blast
  then show ?thesis
  proof cases
    case none
    then have "window_add w second t a samples st ss seqSamples = (w, False)"
      by (auto simp: window_add_def Let_def)
    with assms(4) have "w' = w" "\<not> ok" by simp_all
    then show ?thesis by (rule same)
  next
    case opened
    then have "window_add w second t a samples st ss seqSamples =
        (w\<lparr>tw_buckets := (tw_buckets w)[?i := ?bucket]\<rparr>, False)"
      unfolding window_add_def Let_def by auto
    with assms(4) have "w' = w\<lparr>tw_buckets := (tw_buckets w)[?i := ?bucket]\<rparr>" by simp
    then show ?thesis using new b opened by blast
  next
    case added
    then have m: "bk_samples ?bucket \<le> MaxUint64" "bk_sequenceSamples ?bucket \<le> bk_samples ?bucket"
      using b by (simp_all add: bucket_ok_def)
    then have sum: "bk_samples ?bucket + samples \<le> MaxUint64"
      using added(3) by (simp only: not_less subu64_exact de_Morgan_disj) linarith
    have ok: "bucket_ok e ?i ?next" "bk_valid ?next" "bk_second ?next = second"
      using added sum m b assms(3) by (simp_all add: bucket_ok_def bucket_next_def)
    have "window_add w second t a samples st ss seqSamples =
        (w\<lparr>tw_buckets := (tw_buckets w)[?i := ?next]\<rparr>, True)"
      using added unfolding window_add_def Let_def by simp
    with assms(4) have "w' = w\<lparr>tw_buckets := (tw_buckets w)[?i := ?next]\<rparr>" by simp
    then show ?thesis using new ok by blast
  qed
qed

lemma window_add_frame:
  assumes "window_ok e w" "second * Second \<le> e" "seqSamples \<le> samples"
    and "window_add w second t a samples st ss seqSamples = (w', ok)"
  shows "window_ok e w'" and "tw_reference w' = tw_reference w" and "tw_latest w' = tw_latest w"
    and "tw_denominator w' = tw_denominator w"
    and "i < 61 \<Longrightarrow> i \<noteq> bucketIndex second \<Longrightarrow> tw_buckets w' ! i = tw_buckets w ! i"
    and "window_fresh e' w \<Longrightarrow> second_in e' second \<Longrightarrow> window_fresh e' w'"
proof -
  have len: "length (tw_buckets w) = 61" using assms(1) by (simp add: window_ok_def)
  show "window_ok e w'" and "tw_reference w' = tw_reference w" and "tw_latest w' = tw_latest w"
    and "tw_denominator w' = tw_denominator w"
    and "i < 61 \<Longrightarrow> i \<noteq> bucketIndex second \<Longrightarrow> tw_buckets w' ! i = tw_buckets w ! i"
    and "window_fresh e' w \<Longrightarrow> second_in e' second \<Longrightarrow> window_fresh e' w'"
    using assms(1) len
    by (cases rule: window_add_cases [OF assms];
        auto simp: window_ok_def window_fresh_def second_in_def nth_list_update)+
qed

subsection \<open>The loop\<close>

text \<open>
  The rule for the loop: what every segment preserves holds when it ends, and the loop
  always ends.
\<close>

lemma observe_loop_step:
  assumes "c < sm_end s"
  shows "observe_loop w s i q r c =
     (case observe_segment w s i q r c of
        (w1, ok) \<Rightarrow> if \<not> ok then (w1, False) else observe_loop w1 s i q r (segment_end s c))"
  using assms Unix_floor(2) [of c] by (simp add: observe_loop.simps [of w s i q r c])

lemma segment_end_bounds:
  assumes "c < sm_end s"
  shows "c < segment_end s c" and "segment_end s c \<le> sm_end s"
    and "segment_end s c < sm_end s \<Longrightarrow> Unix (segment_end s c) = Unix c + 1"
  using assms Unix_floor(2) [of c]
  by (auto simp: segment_end_def Let_def) (simp add: Unix_def)

lemma observe_loop_rule:
  assumes "P w c"
    and "\<And>w c w1 ok. P w c \<Longrightarrow> c < sm_end s \<Longrightarrow> observe_segment w s i q r c = (w1, ok) \<Longrightarrow>
           if ok then P w1 (segment_end s c) else Q w1 False"
    and "\<And>w c. P w c \<Longrightarrow> \<not> c < sm_end s \<Longrightarrow> Q w True"
    and "observe_loop w s i q r c = (w', ok)"
  shows "Q w' ok"
  using assms(1,4)
proof (induction "nat (sm_end s - c)" arbitrary: w c rule: less_induct)
  case less
  show ?case
  proof (cases "c < sm_end s")
    case False
    with less.prems show ?thesis
      using assms(3) by (simp add: observe_loop.simps [of w s i q r c])
  next
    case True
    obtain w1 ok1 where seg: "observe_segment w s i q r c = (w1, ok1)" by fastforce
    note inv = assms(2) [OF less.prems(1) True seg]
    show ?thesis
    proof (cases ok1)
      case True
      with inv less.hyps [of "segment_end s c" w1] less.prems(2) seg segment_end_bounds [OF \<open>c < sm_end s\<close>]
      show ?thesis by (simp add: observe_loop_step [OF \<open>c < sm_end s\<close>])
    next
      case False
      with inv less.prems(2) seg show ?thesis by (simp add: observe_loop_step [OF True])
    qed
  qed
qed

text \<open>Inside the loop a second is at most the end of the sample.\<close>

lemma observe_segment_frame:
  assumes "window_ok (sm_end s) w" "c < sm_end s" "observe_segment w s i q r c = (w', ok)"
  shows "window_ok (sm_end s) w'" and "tw_reference w' = tw_reference w" and "tw_latest w' = tw_latest w"
    and "tw_denominator w' = tw_denominator w"
    and "j < 61 \<Longrightarrow> j \<noteq> bucketIndex (Unix c) \<Longrightarrow> tw_buckets w' ! j = tw_buckets w ! j"
    and "window_fresh e' w \<Longrightarrow> second_in e' (Unix c) \<Longrightarrow> window_fresh e' w'"
proof -
  have le: "Unix c * Second \<le> sm_end s" using Unix_floor(1) [of c] assms(2) by linarith
  note f = window_add_frame [OF assms(1) le _ assms(3) [unfolded observe_segment_def Let_def]]
  show "window_ok (sm_end s) w'" and "tw_reference w' = tw_reference w" and "tw_latest w' = tw_latest w"
    and "tw_denominator w' = tw_denominator w"
    and "j < 61 \<Longrightarrow> j \<noteq> bucketIndex (Unix c) \<Longrightarrow> tw_buckets w' ! j = tw_buckets w ! j"
    and "window_fresh e' w \<Longrightarrow> second_in e' (Unix c) \<Longrightarrow> window_fresh e' w'"
    by (rule f; simp)+
qed

lemma observe_loop_frame:
  assumes "window_ok (sm_end s) w" "observe_loop w s i q r c = (w', ok)"
  shows "window_ok (sm_end s) w' \<and> tw_reference w' = tw_reference w \<and> tw_latest w' = tw_latest w \<and>
     tw_denominator w' = tw_denominator w"
proof -
  let ?I = "\<lambda>v. window_ok (sm_end s) v \<and> tw_reference v = tw_reference w \<and>
     tw_latest v = tw_latest w \<and> tw_denominator v = tw_denominator w"
  show ?thesis
    by (rule observe_loop_rule [where P = "\<lambda>v c. ?I v" and Q = "\<lambda>v ok. ?I v", OF _ _ _ assms(2)])
       (use assms(1) observe_segment_frame in \<open>auto split: if_split\<close>)
qed

subsection \<open>The whole observation keeps the invariant\<close>

lemma latest_update_ok:
  "window_ok e w \<Longrightarrow> validTPSIntervalSnapshot l \<Longrightarrow> window_ok e (w\<lparr>tw_latest := l\<rparr>)"
  by (simp add: window_ok_def)

lemma denominator_update_ok: "window_ok e w \<Longrightarrow> window_ok e (w\<lparr>tw_denominator := d\<rparr>)"
  by (simp add: window_ok_def)

lemma observe_qualified_ok:
  assumes "window_ok (sm_end s) w" "observe_qualified w s i = (w', ok)"
  shows "window_ok (sm_end s) w' \<and> tw_reference w' = tw_reference w"
proof -
  let ?r = "flt (Fin 0) (sequenceSecondsTotalOf s i)"
  let ?w1 = "if ?r then w\<lparr>tw_latest := latestOf s i\<rparr> else w"
  let ?c = "if sm_start s < sm_end s - tpsWindowDuration then sm_end s - tpsWindowDuration else sm_start s"
  obtain w2 ok2 where loop: "observe_loop ?w1 s i (sequenceSecondsTotalOf s i) ?r ?c = (w2, ok2)"
    by fastforce
  show ?thesis
  proof (cases "?r \<and> \<not> validTPSIntervalSnapshot (latestOf s i)")
    case True
    with assms show ?thesis unfolding observe_qualified_def Let_def by (elim if_eqE) auto
  next
    case False
    with assms(1) have "window_ok (sm_end s) ?w1" by (auto intro: latest_update_ok)
    from observe_loop_frame [OF this loop] have "window_ok (sm_end s) w2" "tw_reference w2 = tw_reference w"
      by (auto split: if_splits)
    with assms loop show ?thesis
      unfolding observe_qualified_def Let_def
      by (elim if_eqE) (auto intro: denominator_update_ok split: if_split_asm)
  qed
qed

lemma window_observe_ok:
  assumes "window_ok e w" "e \<le> sm_end s" "window_observe w s = (w', ok)"
  shows "window_ok (sm_end s) w' \<and> tw_reference w' = tw_reference w"
proof -
  let ?w1 = "window_expire (w\<lparr>tw_latest := zeroInterval\<rparr>) (sm_end s)"
  have w1: "window_ok (sm_end s) ?w1"
    using assms(1,2) by (intro window_expire_ok [of e] latest_update_ok) simp_all
  show ?thesis
  proof (cases "window_enabled w \<and> sample_qualifies s")
    case True
    with assms(3) have "observe_qualified ?w1 s (Seconds (Sub (sm_end s) (sm_start s))) = (w', ok)"
      by (simp add: window_observe_def)
    from observe_qualified_ok [OF w1 this] show ?thesis by simp
  next
    case False
    with assms w1 window_ok_mono [OF assms(1,2)] show ?thesis
      by (auto simp: window_observe_def split: if_splits)
  qed
qed

subsection \<open>Within numeric bounds an observation never fails\<close>

text \<open>
  Room in a bucket: far more than any run can accumulate. A value a sample may be divided
  by is zero or not tiny (the exposure ledger counts whole nanoseconds).
\<close>

definition bucket_room :: "tpsBucket \<Rightarrow> bool" where
  "bucket_room b \<longleftrightarrow> upto2 1000 (bk_tokens b) \<and> upto2 1000 (bk_activeSeconds b) \<and>
     upto2 1000 (bk_sequenceTokens b) \<and> upto2 1000 (bk_sequenceSeconds b) \<and>
     bk_samples b < MaxUint64 \<and> bk_sequenceSamples b < MaxUint64"

definition window_room :: "tpsWindow \<Rightarrow> bool" where
  "window_room w \<longleftrightarrow> (\<forall>b\<in>set (tw_buckets w). bucket_room b)"

definition granular :: "f64 \<Rightarrow> bool" where
  "granular x \<longleftrightarrow> x = Fin 0 \<or> fle (Fin (2 powi - 40)) x \<and> upto2 900 x"

definition sample_bounded :: "tpsSample \<Rightarrow> bool" where
  "sample_bounded s \<longleftrightarrow> sm_generatedTokens s \<le> MaxUint64 \<and> sm_previousRunning s \<le> MaxInt64 \<and>
     sm_running s \<le> MaxInt64 \<and> sm_forwardedSequenceLiabilities s \<le> MaxInt64 \<and>
     granular (sm_localForwardedSequenceSeconds s) \<and> granular (sm_localResponseSequenceSeconds s)"

lemma zeroBucket_room [simp]: "bucket_room zeroBucket"
  by (simp add: bucket_room_def zeroBucket_def)

lemma granular_0 [simp]: "granular (Fin 0)"
  by (simp add: granular_def)

lemma granular_upto2: "granular x \<Longrightarrow> upto2 900 x"
  by (auto simp: granular_def)

lemma granular_pos:
  assumes "granular x" "flt (Fin 0) x"
  obtains q where "x = Fin q" "2 powi - 40 \<le> q" "q \<le> 2 powi 900"
  using assms by (auto simp: granular_def elim!: upto2E)

lemma granular_maximum: "\<forall>x\<in>set xs. granular x \<Longrightarrow> granular (maximumFloat64 xs)"
proof -
  have "\<forall>x\<in>set xs. granular x \<Longrightarrow> granular m \<Longrightarrow>
      granular (foldl (\<lambda>m v. if flt m v then v else m) m xs)" for m
    by (induction xs arbitrary: m) auto
  then show "\<forall>x\<in>set xs. granular x \<Longrightarrow> granular (maximumFloat64 xs)"
    by (simp add: maximumFloat64_def)
qed

lemma granular_product:
  assumes "2 powi - 30 \<le> v" "v \<le> 2 powi 34" "0 \<le> n" "n \<le> MaxInt64"
  shows "granular (fmul (Fin v) (f64_of_int n))"
proof (cases "n = 0")
  case True
  then show ?thesis by (simp add: f64_of_int_def)
next
  case False
  have v: "0 \<le> v" using assms(1) powi2_pos [of "- 30"] by linarith
  have u: "upto2 63 (f64_of_int n)" using upto2_of_int [of n 63] assms by simp
  then obtain q where q: "f64_of_int n = Fin q" "0 \<le> q" by (rule upto2E)
  have "2 powi 0 \<le> (of_int n :: rat)" using False assms(3) by simp
  then have q1: "2 powi 0 \<le> q" using rnd_ge_powi [of 0 "of_int n" q] q(1) by (simp add: f64_of_int_def)
  have "upto2 97 (fmul (Fin v) (f64_of_int n))"
    using upto2_fmul [of 34 "Fin v" 63 "f64_of_int n"] u v assms(2) by simp
  then obtain r where r: "rnd (v * q) = Fin r" "0 \<le> r" "r \<le> 2 powi 97" using q by (auto elim: upto2E)
  have "2 powi - 30 * 2 powi 0 \<le> v * q" using assms(1) q1 v by (intro mult_mono) simp_all
  then have "2 powi - 30 \<le> v * q" by simp
  then have "2 powi - 30 \<le> r" using rnd_ge_powi [of "- 30" "v * q" r] r by simp
  moreover have "(2::rat) powi - 40 \<le> 2 powi - 30" "(2::rat) powi 97 \<le> 2 powi 900"
    by (rule powi2_mono; simp)+
  ultimately show ?thesis using r q by (simp add: granular_def del: power_int_numeral)
qed

lemma window_add_total:
  assumes "window_ok e w" "window_fresh e w" "second_in e second" "samples \<le> 1" "seqSamples \<le> samples"
    and "upto2 1000 t" "upto2 1000 a" "upto2 1000 st" "upto2 1000 ss"
    and "bk_valid (tw_buckets w ! bucketIndex second) \<longrightarrow>
           bk_second (tw_buckets w ! bucketIndex second) = second \<longrightarrow>
           bucket_room (tw_buckets w ! bucketIndex second)"
  shows "\<exists>w'. window_add w second t a samples st ss seqSamples = (w', True) \<and>
     bk_valid (tw_buckets w' ! bucketIndex second) \<and> bk_second (tw_buckets w' ! bucketIndex second) = second"
proof -
  let ?i = "bucketIndex second"
  let ?old = "tw_buckets w ! ?i"
  let ?b = "bucket_open ?old second"
  let ?n = "bucket_next ?b t a samples st ss seqSamples"
  have old: "bucket_ok e ?i ?old" using assms(1) by (rule window_okD) simp
  have same: "bk_second ?old = second" if "bk_valid ?old"
    using that old assms(2,3)
    by (intro second_in_collision [of e]) (simp_all add: bucket_ok_def window_fresh_def second_in_def)
  then have room: "bucket_room ?b" and sec: "bk_valid ?b" "bk_second ?b = second"
    using assms(10) by (auto simp: bucket_open_def bucket_room_def zeroBucket_def)
  have fin: "finiteNonnegative (fadd x y)" if "upto2 1000 x" "upto2 1000 y" for x y
    using upto2_fadd [OF that] by (simp add: upto2_finiteNonnegative)
  have next_ok: "bucket_finite ?n"
    using room assms(6-9) by (simp add: bucket_finite_def bucket_next_def bucket_room_def fin)
  have count: "\<not> (subu64 MaxUint64 (bk_samples ?b) < samples \<or> subu64 MaxUint64 (bk_sequenceSamples ?b) < seqSamples)"
    using room assms(4,5) by (auto simp: bucket_room_def)
  have "window_add w second t a samples st ss seqSamples =
      (w\<lparr>tw_buckets := (tw_buckets w)[?i := ?n]\<rparr>, True)"
    unfolding window_add_def Let_def
    using assms(6-9) same count next_ok by (auto simp: upto2_finiteNonnegative)
  moreover have "length (tw_buckets w) = 61" using assms(1) by (simp add: window_ok_def)
  ultimately show ?thesis using sec by (simp add: bucket_next_def)
qed

text \<open>The amounts of one segment.\<close>

lemma Seconds_upto2:
  assumes "0 < d" "d \<le> MaxInt64"
  shows "upto2 34 (Seconds d)" and "flt (Fin 0) (Seconds d)"
proof -
  obtain v where v: "Seconds d = Fin v" "2 powi - 30 \<le> v" "v \<le> 2 powi 34"
    using assms by (rule Seconds_pos)
  have "0 < v" using v(2) powi2_pos [of "- 30"] by linarith
  with v show "upto2 34 (Seconds d)" and "flt (Fin 0) (Seconds d)" by simp_all
qed

definition loop_ready :: "tpsSample \<Rightarrow> tpsWindow \<Rightarrow> gotime \<Rightarrow> bool" where
  "loop_ready s w c \<longleftrightarrow> window_ok (sm_end s) w \<and> window_fresh (sm_end s) w \<and>
     sm_end s - tpsWindowDuration \<le> c \<and> sm_start s \<le> c \<and>
     (c < sm_end s \<longrightarrow> (\<forall>j<61. bk_valid (tw_buckets w ! j) \<and> bk_second (tw_buckets w ! j) < Unix c \<or>
                          bucket_room (tw_buckets w ! j)))"

lemma observe_segment_total:
  assumes "loop_ready s w c" "c < sm_end s" "sm_generatedTokens s \<le> MaxUint64" "upto2 900 q"
    and "i = Seconds (Sub (sm_end s) (sm_start s))"
  shows "\<exists>w'. observe_segment w s i q r c = (w', True) \<and> loop_ready s w' (segment_end s c)"
proof -
  note e = segment_end_bounds [OF assms(2)]
  have w: "window_ok (sm_end s) w" "window_fresh (sm_end s) w" "sm_start s \<le> c"
    and lo: "sm_end s - tpsWindowDuration \<le> c"
    and j: "\<forall>j<61. bk_valid (tw_buckets w ! j) \<and> bk_second (tw_buckets w ! j) < Unix c \<or>
       bucket_room (tw_buckets w ! j)"
    using assms(1,2) by (simp_all add: loop_ready_def)
  have sec: "second_in (sm_end s) (Unix c)" using lo assms(2) by (intro second_in_Unix) simp_all
  let ?d = "Sub (segment_end s c) c" and ?D = "Sub (sm_end s) (sm_start s)"
  have d: "0 < ?d" "?d \<le> MaxInt64" and D: "0 < ?D" "?D \<le> MaxInt64" and dD: "?d \<le> ?D"
    using e(1,2) w(3) assms(2) by (simp_all add: Sub_le_max) (simp add: Sub_def)
  let ?f = "fdiv (Seconds ?d) i"
  have f: "upto2 0 ?f"
    unfolding assms(5) using Seconds_mono [of ?d ?D] d D dD Seconds_upto2(2)
      Seconds_upto2(1) [OF d] Seconds_upto2(1) [OF D]
    by (intro fdiv_le_one) (simp_all add: upto2_finiteNonnegative [of 34])
  have tok: "upto2 64 (f64_of_nat (sm_generatedTokens s))"
    using upto2_of_nat [of "sm_generatedTokens s" 64] assms(3) by simp
  have t: "upto2 1000 (fmul (f64_of_nat (sm_generatedTokens s)) ?f)"
    using upto2_fmul [OF tok f] by (auto intro: upto2_mono)
  have ss: "upto2 1000 (fmul q ?f)"
    using upto2_fmul [OF assms(4) f] by (auto intro: upto2_mono)
  have a: "upto2 1000 (Seconds ?d)" using Seconds_upto2(1) [OF d] by (rule upto2_mono) simp
  have z: "upto2 1000 (Fin 0)" by (simp add: less_imp_le)
  let ?i = "bucketIndex (Unix c)"
  have "bk_valid (tw_buckets w ! ?i) \<longrightarrow> bk_second (tw_buckets w ! ?i) = Unix c \<longrightarrow> bucket_room (tw_buckets w ! ?i)"
    using j by (metis bucketIndex_less less_irrefl)
  note total = window_add_total [OF w(1,2) sec _ _ t a _ _ this]
  have "\<exists>w'. observe_segment w s i q r c = (w', True) \<and>
      bk_valid (tw_buckets w' ! ?i) \<and> bk_second (tw_buckets w' ! ?i) = Unix c"
    unfolding observe_segment_def Let_def by (rule total) (simp_all add: t ss z del: upto2_Fin)
  then obtain w' where seg: "observe_segment w s i q r c = (w', True)"
    and new: "bk_valid (tw_buckets w' ! ?i)" "bk_second (tw_buckets w' ! ?i) = Unix c" by blast
  note frame = observe_segment_frame [OF w(1) assms(2) seg]
  have "bk_valid (tw_buckets w' ! k) \<and> bk_second (tw_buckets w' ! k) < Unix (segment_end s c) \<or>
      bucket_room (tw_buckets w' ! k)" if "segment_end s c < sm_end s" "k < 61" for k
    using that e(3) new j frame(5) [of k] by (cases "k = ?i") auto
  then have "loop_ready s w' (segment_end s c)"
    unfolding loop_ready_def using frame(1,6) w sec lo e(1) by simp
  with seg show ?thesis by blast
qed

lemma observe_loop_total:
  assumes "loop_ready s w c" "sm_generatedTokens s \<le> MaxUint64" "upto2 900 q"
    and "i = Seconds (Sub (sm_end s) (sm_start s))"
  shows "snd (observe_loop w s i q r c)"
proof -
  obtain w' ok where l: "observe_loop w s i q r c = (w', ok)" by fastforce
  have ok
  proof (rule observe_loop_rule [where P = "loop_ready s" and Q = "\<lambda>_ ok. ok", OF assms(1) _ _ l])
    fix v d v1 b
    assume "loop_ready s v d" "d < sm_end s" "observe_segment v s i q r d = (v1, b)"
    then show "if b then loop_ready s v1 (segment_end s d) else False"
      using observe_segment_total [OF _ _ assms(2-4), of v d r] by auto
  qed simp
  with l show ?thesis by simp
qed

lemma observe_qualified_total:
  assumes "window_ok (sm_end s) w" "window_fresh (sm_end s) w" "window_room w"
    and "sample_bounded s" "sample_qualifies s"
  shows "snd (observe_qualified w s (Seconds (Sub (sm_end s) (sm_start s))))"
proof -
  let ?D = "Sub (sm_end s) (sm_start s)"
  let ?i = "Seconds ?D"
  let ?q = "sequenceSecondsTotalOf s ?i"
  have D: "0 < ?D" "?D \<le> MaxInt64"
    using assms(5) by (auto simp: sample_qualifies_def Let_def Sub_le_max not_le)
  obtain v where v: "?i = Fin v" "2 powi - 30 \<le> v" "v \<le> 2 powi 34" using D by (rule Seconds_pos)
  have v0: "0 < v" using v(2) powi2_pos [of "- 30"] by linarith
  have n: "0 \<le> maximumInt64 [sm_previousRunning s, sm_running s]"
    "maximumInt64 [sm_previousRunning s, sm_running s] \<le> MaxInt64"
    "0 \<le> sm_forwardedSequenceLiabilities s"
    using assms(4,5) by (auto simp: maximumInt64_def sample_bounded_def sample_qualifies_def)
  have ge: "granular (endpointSequenceSecondsOf s ?i)"
    unfolding endpointSequenceSecondsOf_def v(1) using v n by (intro granular_product) simp_all
  have gf: "granular (fallbackSequenceSecondsOf s ?i)"
    unfolding fallbackSequenceSecondsOf_def v(1) using v n assms(4)
    by (auto intro: granular_product simp: sample_bounded_def)
  have gq: "granular ?q"
    using ge gf assms(4) unfolding sequenceSecondsTotalOf_def Let_def sample_bounded_def
    by (auto intro!: granular_maximum)
  have tok: "upto2 64 (f64_of_nat (sm_generatedTokens s))"
    using upto2_of_nat [of "sm_generatedTokens s" 64] assms(4) by (simp add: sample_bounded_def)
  have lat: "validTPSIntervalSnapshot (latestOf s ?i)" if pos: "flt (Fin 0) ?q"
  proof -
    obtain u where u: "?q = Fin u" "2 powi - 40 \<le> u" using gq pos by (rule granular_pos)
    have "upto2 94 (fdiv (f64_of_nat (sm_generatedTokens s)) ?i)"
      "upto2 104 (fdiv (f64_of_nat (sm_generatedTokens s)) ?q)"
      using upto2_fdiv [OF tok v(2)] upto2_fdiv [OF tok u(2)] v(1) u(1) by simp_all
    then show ?thesis
      using pos v v0 u powi2_pos [of "- 40"]
      by (simp add: validTPSIntervalSnapshot_def latestOf_def Let_def upto2_finiteNonnegative)
  qed
  let ?w1 = "if flt (Fin 0) ?q then w\<lparr>tw_latest := latestOf s ?i\<rparr> else w"
  let ?c = "if sm_start s < sm_end s - tpsWindowDuration then sm_end s - tpsWindowDuration else sm_start s"
  have "\<forall>j<61. bucket_room (tw_buckets w ! j)"
    using assms(1,3) by (simp add: window_room_def window_ok_def all_set_conv_all_nth)
  then have "loop_ready s ?w1 ?c"
    using assms(1,2) lat latest_update_ok [OF assms(1)]
    by (auto simp: loop_ready_def window_fresh_def)
  from observe_loop_total [OF this _ granular_upto2 [OF gq] refl, of "flt (Fin 0) ?q"]
  have loop: "snd (observe_loop ?w1 s ?i ?q (flt (Fin 0) ?q) ?c)"
    using assms(4) by (simp add: sample_bounded_def)
  have "\<not> (\<not> finiteNonnegative ?i \<or> feq ?i (Fin 0))" using v v0 by (simp add: feq_def)
  moreover have "finiteNonnegative (endpointSequenceSecondsOf s ?i)" "finiteNonnegative (fallbackSequenceSecondsOf s ?i)"
    using ge gf by (simp_all add: granular_upto2 upto2_finiteNonnegative [of 900])
  ultimately show ?thesis
    using lat loop unfolding observe_qualified_def Let_def by (simp add: case_prod_beta)
qed

text \<open>\<open>observe\<close> reports an internal failure only when one of these bounds is left.\<close>

lemma window_observe_total:
  assumes "window_ok e w" "e \<le> sm_end s" "window_room w" "sample_bounded s"
  shows "snd (window_observe w s)"
proof (cases "window_enabled w \<and> sample_qualifies s")
  case True
  let ?w1 = "window_expire (w\<lparr>tw_latest := zeroInterval\<rparr>) (sm_end s)"
  have "window_ok (sm_end s) ?w1"
    using assms(1,2) by (intro window_expire_ok [of e] latest_update_ok) simp_all
  moreover have "window_fresh (sm_end s) ?w1"
    using True assms(1) by (intro window_expire_fresh) (simp_all add: sample_qualifies_def window_ok_def)
  moreover have "window_room ?w1" using assms(3) by (auto simp: window_room_def window_expire_def)
  ultimately show ?thesis
    using observe_qualified_total [of s ?w1] True assms(4) by (simp add: window_observe_def)
next
  case False
  then show ?thesis by (simp add: window_observe_def)
qed

subsection \<open>The summary the gate reads\<close>

lemma sum_bucket_frame:
  "sum_bucket now s b = Some s' \<Longrightarrow>
     ts_Latest s' = ts_Latest s \<and> ts_Reference s' = ts_Reference s \<and> ts_Enabled s' = ts_Enabled s \<and>
     ts_Ready s' = ts_Ready s \<and> ts_AggregateTPS s' = ts_AggregateTPS s \<and>
     ts_MeanActiveTPS s' = ts_MeanActiveTPS s \<and> ts_Denominator s' = ts_Denominator s"
  by (auto simp: sum_bucket_def split: if_splits)

lemma sum_buckets_frame:
  "foldo (sum_bucket now) s bs = Some s' \<Longrightarrow>
     ts_Latest s' = ts_Latest s \<and> ts_Reference s' = ts_Reference s \<and> ts_Enabled s' = ts_Enabled s \<and>
     ts_Ready s' = ts_Ready s \<and> ts_AggregateTPS s' = ts_AggregateTPS s \<and>
     ts_MeanActiveTPS s' = ts_MeanActiveTPS s \<and> ts_Denominator s' = ts_Denominator s"
proof (induction bs arbitrary: s)
  case Nil
  then show ?case by simp
next
  case (Cons b bs)
  then obtain s1 where "sum_bucket now s b = Some s1" "foldo (sum_bucket now) s1 bs = Some s'"
    by (auto split: option.splits)
  with sum_bucket_frame Cons.IH show ?case by metis
qed

text \<open>
  Whatever the buckets hold, the snapshot of a well-formed window is one the gate accepts,
  and \<open>Ready\<close> means what it says.
\<close>

definition tps_snapshot_ok :: "tpsWindow \<Rightarrow> TPSSnapshot \<Rightarrow> bool" where
  "tps_snapshot_ok w s \<longleftrightarrow> validTPSSnapshot s \<and> ts_Reference s = tw_reference w \<and>
     ts_Enabled s = window_enabled w \<and> ts_Denominator s = tw_denominator w \<and>
     (ts_Ready s \<longrightarrow> window_enabled w \<and>
        tpsWindowMinimumQualifiedSamples \<le> ts_QualifiedSequenceSamples s \<and>
        fle tpsWindowMinimumQualifiedSeqSeconds (ts_QualifiedSequenceSeconds s))"

lemma window_snapshot_spec:
  assumes "finiteNonnegative (tw_reference w)" "validTPSIntervalSnapshot (tw_latest w)"
  shows "tps_snapshot_ok w (window_snapshot w now)"
proof -
  let ?base = "zeroTPSSnapshot\<lparr>ts_Reference := tw_reference w, ts_Enabled := window_enabled w,
                 ts_Latest := tw_latest w, ts_Denominator := tw_denominator w\<rparr>"
  let ?un = "zeroTPSSnapshot\<lparr>ts_Reference := tw_reference w, ts_Enabled := True,
               ts_Denominator := tw_denominator w\<rparr>"
  have base: "tps_snapshot_ok w ?base"
    using assms by (simp add: tps_snapshot_ok_def validTPSSnapshot_def zeroTPSSnapshot_def)
  have un: "window_enabled w \<Longrightarrow> tps_snapshot_ok w ?un"
    using assms by (simp add: tps_snapshot_ok_def validTPSSnapshot_def zeroTPSSnapshot_def)
  show ?thesis
  proof (cases "window_enabled w")
    case False
    with base show ?thesis by (simp add: window_snapshot_def Let_def)
  next
    case en: True
    show ?thesis
    proof (cases "foldo (sum_bucket now) ?base (tw_buckets w)")
      case None
      with en un show ?thesis by (simp add: window_snapshot_def Let_def)
    next
      case (Some s)
      note frame = sum_buckets_frame [OF Some]
      let ?s2 = "with_rates s"
      have rates: "ts_Latest ?s2 = ts_Latest s" "ts_Reference ?s2 = ts_Reference s" "ts_Enabled ?s2 = ts_Enabled s"
        "ts_Denominator ?s2 = ts_Denominator s" "ts_QualifiedTokens ?s2 = ts_QualifiedTokens s"
        "ts_QualifiedActiveSeconds ?s2 = ts_QualifiedActiveSeconds s"
        "ts_QualifiedSequenceTokens ?s2 = ts_QualifiedSequenceTokens s"
        "ts_QualifiedSequenceSeconds ?s2 = ts_QualifiedSequenceSeconds s"
        by (simp_all add: with_rates_def Let_def)
      let ?s3 = "?s2\<lparr>ts_Ready := (tpsWindowMinimumQualifiedSamples \<le> ts_QualifiedSequenceSamples ?s2 \<and>
         fle tpsWindowMinimumQualifiedSeqSeconds (ts_QualifiedSequenceSeconds ?s2))\<rparr>"
      let ?good = "validTPSSnapshot s \<and> finiteNonnegative (ts_AggregateTPS ?s2) \<and> finiteNonnegative (ts_MeanActiveTPS ?s2)"
      have val: "window_snapshot w now = (if ?good then ?s3 else ?un)"
        using en Some unfolding window_snapshot_def Let_def by simp
      show ?thesis
      proof (cases ?good)
        case True
        have "tps_snapshot_ok w ?s3"
          using True frame en rates by (simp add: tps_snapshot_ok_def validTPSSnapshot_def)
        moreover have "window_snapshot w now = ?s3" unfolding val using True by (rule if_P)
        ultimately show ?thesis by simp
      next
        case False
        then have "window_snapshot w now = ?un" unfolding val by (rule if_not_P)
        with un en show ?thesis by simp
      qed
    qed
  qed
qed

subsection \<open>Denominator evidence\<close>

definition denominator_ok :: "TPSDenominatorEvidence \<Rightarrow> bool" where
  "denominator_ok d \<longleftrightarrow> finiteNonnegative (de_EndpointSequenceSeconds d) \<and>
     finiteNonnegative (de_LocalForwardedSeconds d) \<and> finiteNonnegative (de_LocalResponseSeconds d) \<and>
     finiteNonnegative (de_FallbackLiabilitySeconds d) \<and> finiteNonnegative (de_SelectedSequenceSeconds d)"

definition totalSelections :: "TPSDenominatorEvidence \<Rightarrow> nat" where
  "totalSelections d = de_EndpointSelections d + de_LocalForwardedSelections d +
     de_LocalResponseSelections d + de_FallbackLiabilitySelections d + de_TieSelections d +
     de_NoneSelections d"

text \<open>Below the very top of the range the guarded sum stays in range.\<close>

lemma addTPSDenominatorSeconds_bound:
  assumes "upto2 k c" "upto2 k x" "0 \<le> k" "k < 1023"
  shows "upto2 (k + 1) (addTPSDenominatorSeconds c x)"
  using upto2_fadd [OF assms(1,2)] assms upto2_mono [of k c "k + 1"]
  by (simp add: addTPSDenominatorSeconds_def)

lemma totalSelections_observe:
  assumes "totalSelections d < MaxUint64"
  shows "totalSelections (denominator_observe d a b c e f) = totalSelections d + 1"
proof -
  have inc: "incrementTPSDenominatorSelection n = n + 1" if "n \<le> totalSelections d" for n
    using that assms by (simp add: incrementTPSDenominatorSelection_def)
  have "incrementTPSDenominatorSelection (de_EndpointSelections d) = de_EndpointSelections d + 1"
    "incrementTPSDenominatorSelection (de_LocalForwardedSelections d) = de_LocalForwardedSelections d + 1"
    "incrementTPSDenominatorSelection (de_LocalResponseSelections d) = de_LocalResponseSelections d + 1"
    "incrementTPSDenominatorSelection (de_FallbackLiabilitySelections d) = de_FallbackLiabilitySelections d + 1"
    "incrementTPSDenominatorSelection (de_TieSelections d) = de_TieSelections d + 1"
    "incrementTPSDenominatorSelection (de_NoneSelections d) = de_NoneSelections d + 1"
    by (rule inc; simp add: totalSelections_def)+
  then show ?thesis
    by (cases "tpsDenominatorSourceFor a b c e f")
       (simp_all add: denominator_observe_def Let_def totalSelections_def)
qed

text \<open>The source is the one candidate that equals a positive selected value.\<close>

lemma tpsDenominatorSourceFor_spec:
  assumes "finiteNonnegative v" "flt (Fin 0) v"
  shows "tpsDenominatorSourceFor a b c d v =
     (let hits = filter (\<lambda>(s, x). feq x v)
        [(tpsDenominatorEndpoint, a), (tpsDenominatorLocalForwarded, b),
         (tpsDenominatorLocalResponse, c), (tpsDenominatorFallbackLiability, d)]
      in if length hits = 1 then fst (hd hits) else tpsDenominatorTie)"
proof -
  obtain q where q: "v = Fin q" "0 < q" using assms by (auto elim: finiteNonnegativeE)
  have "feq x v \<Longrightarrow> flt (Fin 0) x" for x using q by (auto simp: feq_def)
  then show ?thesis
    using q by (simp add: tpsDenominatorSourceFor_def Let_def)
qed

lemma observe_qualified_denominator:
  assumes "observe_qualified w s i = (w', True)" "window_ok (sm_end s) w"
  shows "tw_denominator w' = denominator_observe (tw_denominator w) (endpointSequenceSecondsOf s i)
     (sm_localForwardedSequenceSeconds s) (sm_localResponseSequenceSeconds s)
     (fallbackSequenceSecondsOf s i) (sequenceSecondsTotalOf s i)"
proof -
  let ?r = "flt (Fin 0) (sequenceSecondsTotalOf s i)"
  let ?w1 = "if ?r then w\<lparr>tw_latest := latestOf s i\<rparr> else w"
  let ?c = "if sm_start s < sm_end s - tpsWindowDuration then sm_end s - tpsWindowDuration else sm_start s"
  obtain w2 ok2 where loop: "observe_loop ?w1 s i (sequenceSecondsTotalOf s i) ?r ?c = (w2, ok2)"
    by fastforce
  have ok2: "ok2" "\<not> (?r \<and> \<not> validTPSIntervalSnapshot (latestOf s i))"
    and w': "w' = w2\<lparr>tw_denominator := denominator_observe (tw_denominator w2) (endpointSequenceSecondsOf s i)
     (sm_localForwardedSequenceSeconds s) (sm_localResponseSequenceSeconds s)
     (fallbackSequenceSecondsOf s i) (sequenceSecondsTotalOf s i)\<rparr>"
    using assms(1) loop unfolding observe_qualified_def Let_def
    by (auto split: if_split_asm)
  have "window_ok (sm_end s) ?w1" using assms(2) ok2 by (auto intro: latest_update_ok)
  from observe_loop_frame [OF this loop] have "tw_denominator w2 = tw_denominator w"
    by (auto split: if_splits)
  with w' show ?thesis by simp
qed

end
