(* ===== verification/Overlay.thy ===== *)
theory Overlay
  imports Demand "HOL-Library.Multiset"
begin

text \<open>
  \<open>internal/admission/numeric.go\<close> and \<open>reservation.go\<close>: a reservation, what it contributes to
  the overlay of its phase, and the checked arithmetic on overlays. The controller keeps the
  overlay up to date by adding, subtracting and replacing contributions instead of summing
  the reservations again; the locale \<open>accounting\<close> states the contract of such arithmetic and
  proves once that the running total is the sum of the contributions, in any order.
\<close>

subsection \<open>Checked arithmetic and overlays\<close>

definition addNonnegativeInt64 :: "int \<Rightarrow> int \<Rightarrow> int option" where
  "addNonnegativeInt64 left right =
     (if left < 0 \<or> right < 0 \<or> left > MaxInt64 - right then None else Some (left + right))"

record reservationOverlay =
  ov_unobservedSequences :: int
  ov_sequenceLiabilities :: int
  ov_liveReservations :: int
  ov_residualDebts :: int
  ov_coldSheddablePending :: int

definition zeroOverlay :: reservationOverlay where
  [zero_simps]: "zeroOverlay = \<lparr>ov_unobservedSequences = 0, ov_sequenceLiabilities = 0,
     ov_liveReservations = 0, ov_residualDebts = 0, ov_coldSheddablePending = 0\<rparr>"

definition overlay_valid :: "reservationOverlay \<Rightarrow> bool" where
  [valid_defs]: "overlay_valid o1 \<longleftrightarrow>
     0 \<le> ov_unobservedSequences o1 \<and> 0 \<le> ov_sequenceLiabilities o1 \<and>
     ov_unobservedSequences o1 \<le> ov_sequenceLiabilities o1 \<and>
     0 \<le> ov_liveReservations o1 \<and> 0 \<le> ov_residualDebts o1 \<and>
     0 \<le> ov_coldSheddablePending o1 \<and> ov_coldSheddablePending o1 \<le> ov_liveReservations o1"

definition addOverlay :: "reservationOverlay \<Rightarrow> reservationOverlay \<Rightarrow> reservationOverlay option" where
  "addOverlay left right =
     (case addNonnegativeInt64 (ov_unobservedSequences left) (ov_unobservedSequences right) of
        None \<Rightarrow> None | Some unobserved \<Rightarrow>
      case addNonnegativeInt64 (ov_sequenceLiabilities left) (ov_sequenceLiabilities right) of
        None \<Rightarrow> None | Some liabilities \<Rightarrow>
      case addNonnegativeInt64 (ov_liveReservations left) (ov_liveReservations right) of
        None \<Rightarrow> None | Some live \<Rightarrow>
      case addNonnegativeInt64 (ov_residualDebts left) (ov_residualDebts right) of
        None \<Rightarrow> None | Some debts \<Rightarrow>
      case addNonnegativeInt64 (ov_coldSheddablePending left) (ov_coldSheddablePending right) of
        None \<Rightarrow> None | Some cold \<Rightarrow>
      let result = \<lparr>ov_unobservedSequences = unobserved, ov_sequenceLiabilities = liabilities,
            ov_liveReservations = live, ov_residualDebts = debts, ov_coldSheddablePending = cold\<rparr>
      in if overlay_valid result then Some result else None)"

definition subtractOverlay :: "reservationOverlay \<Rightarrow> reservationOverlay \<Rightarrow> reservationOverlay option" where
  "subtractOverlay left right =
     (if \<not> overlay_valid left \<or> \<not> overlay_valid right \<or>
         ov_unobservedSequences left < ov_unobservedSequences right \<or>
         ov_sequenceLiabilities left < ov_sequenceLiabilities right \<or>
         ov_liveReservations left < ov_liveReservations right \<or>
         ov_residualDebts left < ov_residualDebts right \<or>
         ov_coldSheddablePending left < ov_coldSheddablePending right
      then None
      else let result = \<lparr>
            ov_unobservedSequences = ov_unobservedSequences left - ov_unobservedSequences right,
            ov_sequenceLiabilities = ov_sequenceLiabilities left - ov_sequenceLiabilities right,
            ov_liveReservations = ov_liveReservations left - ov_liveReservations right,
            ov_residualDebts = ov_residualDebts left - ov_residualDebts right,
            ov_coldSheddablePending = ov_coldSheddablePending left - ov_coldSheddablePending right\<rparr>
           in if overlay_valid result then Some result else None)"

definition replaceOverlay ::
  "reservationOverlay \<Rightarrow> reservationOverlay \<Rightarrow> reservationOverlay \<Rightarrow> reservationOverlay option" where
  "replaceOverlay current oldContribution newContribution =
     (case subtractOverlay current oldContribution of
        None \<Rightarrow> None | Some withoutOld \<Rightarrow> addOverlay withoutOld newContribution)"

subsection \<open>Reservations\<close>

datatype reservationPhase = reservationReserved | reservationForwarded
  | reservationActiveDecode | reservationResidualDebt | reservationPhaseOther nat

record reservation =
  rv_id :: nat
  rv_runtimeEpoch :: nat
  rv_demand :: TPSRequestDemand
  rv_coldSheddable :: bool
  rv_phase :: reservationPhase
  rv_pendingFirstByteReleased :: bool
  rv_forwardedAt :: gotime
  rv_admittedSequence :: nat
  rv_forwardedSequence :: nat
  rv_terminalSequence :: nat

definition contribution :: "reservation \<Rightarrow> reservationOverlay option" where
  "contribution r =
     (if rv_id r = 0 \<or> rv_runtimeEpoch r = 0 \<or> \<not> demand_valid (rv_demand r) then None
      else let base = zeroOverlay\<lparr>ov_sequenceLiabilities := dm_DecodeSequences (rv_demand r)\<rparr>;
               pending = base\<lparr>
                 ov_unobservedSequences :=
                   (if \<not> rv_pendingFirstByteReleased r then dm_DecodeSequences (rv_demand r) else 0),
                 ov_coldSheddablePending := (if rv_coldSheddable r then 1 else 0),
                 ov_liveReservations := 1\<rparr>;
               checked = (\<lambda>c. if overlay_valid c then Some c else None)
           in case rv_phase r of
                reservationReserved \<Rightarrow> checked pending
              | reservationForwarded \<Rightarrow> checked pending
              | reservationActiveDecode \<Rightarrow>
                  if \<not> rv_pendingFirstByteReleased r then None
                  else checked (base\<lparr>ov_liveReservations := 1\<rparr>)
              | reservationResidualDebt \<Rightarrow> checked (base\<lparr>ov_residualDebts := 1\<rparr>)
              | reservationPhaseOther _ \<Rightarrow> None)"

definition effectiveDemand :: "reservation \<Rightarrow> TPSRequestDemand option" where
  "effectiveDemand r = (if demand_valid (rv_demand r) then Some (rv_demand r) else None)"

subsection \<open>The contract of the accounting\<close>

text \<open>
  What the controller relies on: addition of valid overlays is commutative and associative
  as a partial operation, and subtraction undoes it.
\<close>

locale accounting =
  fixes zero :: 'o
    and add :: "'o \<Rightarrow> 'o \<Rightarrow> 'o option"
    and sub :: "'o \<Rightarrow> 'o \<Rightarrow> 'o option"
    and valid :: "'o \<Rightarrow> bool"
    and contrib :: "'r \<Rightarrow> 'o option"
  assumes zero_valid: "valid zero"
    and add_comm: "add a b = add b a"
    and add_valid: "add a b = Some c \<Longrightarrow> valid c"
    and add_assoc: "valid a \<Longrightarrow> valid b \<Longrightarrow> valid c \<Longrightarrow>
          Option.bind (add a b) (\<lambda>x. add x c) = Option.bind (add b c) (add a)"
    and sub_add: "valid a \<Longrightarrow> valid b \<Longrightarrow> add a b = Some c \<Longrightarrow> sub c b = Some a"
    and contrib_valid: "contrib r = Some c \<Longrightarrow> valid c"
begin

definition addContrib :: "'o \<Rightarrow> 'r \<Rightarrow> 'o option" where
  "addContrib t r = Option.bind (contrib r) (add t)"

text \<open>The total, summed one reservation at a time as the slow path does.\<close>

definition total :: "'r list \<Rightarrow> 'o option" where
  "total rs = foldo addContrib zero rs"

lemma addContrib_valid: "addContrib t r = Some u \<Longrightarrow> valid u"
  by (auto simp: addContrib_def bind_eq_Some_conv dest: add_valid)

lemma foldo_valid: "foldo addContrib t rs = Some u \<Longrightarrow> valid t \<Longrightarrow> valid u"
  by (induction rs arbitrary: t) (auto split: option.splits dest: addContrib_valid)

lemma total_valid: "total rs = Some t \<Longrightarrow> valid t"
  using foldo_valid zero_valid by (auto simp: total_def)

lemma addContrib_swap:
  assumes "valid t"
  shows "Option.bind (addContrib t r) (\<lambda>x. addContrib x s) = Option.bind (addContrib t s) (\<lambda>x. addContrib x r)"
proof (cases "contrib r")
  case None
  then show ?thesis by (cases "contrib s"; cases "addContrib t s") (simp_all add: addContrib_def)
next
  case r: (Some a)
  show ?thesis
  proof (cases "contrib s")
    case None
    then show ?thesis by (cases "addContrib t r") (simp_all add: addContrib_def)
  next
    case (Some b)
    have v: "valid a" "valid b" using r Some contrib_valid by auto
    have "Option.bind (add t a) (\<lambda>x. add x b) = Option.bind (add a b) (add t)"
      using add_assoc [OF assms v] .
    also have "\<dots> = Option.bind (add t b) (\<lambda>x. add x a)"
      using add_assoc [OF assms v(2,1)] by (simp add: add_comm [of a b])
    finally show ?thesis using r Some by (simp add: addContrib_def)
  qed
qed

lemma foldo_move:
  "valid t \<Longrightarrow> foldo addContrib t (ys @ r # zs) = foldo addContrib t (r # ys @ zs)"
proof (induction ys arbitrary: t)
  case Nil
  then show ?case by simp
next
  case (Cons y ys)
  have "foldo addContrib t ((y # ys) @ r # zs) =
      Option.bind (addContrib t y) (\<lambda>x. foldo addContrib x (r # ys @ zs))"
    using Cons addContrib_valid by (auto split: option.splits)
  also have "\<dots> = Option.bind (Option.bind (addContrib t y) (\<lambda>x. addContrib x r)) (\<lambda>x. foldo addContrib x (ys @ zs))"
    by (auto split: option.splits Option.bind_split)
  also have "\<dots> = Option.bind (Option.bind (addContrib t r) (\<lambda>x. addContrib x y)) (\<lambda>x. foldo addContrib x (ys @ zs))"
    using addContrib_swap [OF Cons.prems] by simp
  also have "\<dots> = foldo addContrib t (r # (y # ys) @ zs)"
    by (auto split: option.splits Option.bind_split)
  finally show ?case .
qed

lemma foldo_perm: "mset xs = mset ys \<Longrightarrow> valid t \<Longrightarrow> foldo addContrib t xs = foldo addContrib t ys"
proof (induction xs arbitrary: ys t)
  case Nil
  then show ?case by simp
next
  case (Cons x xs)
  then have "x \<in> set ys" by (metis list.set_intros(1) set_mset_mset)
  then obtain us vs where ys: "ys = us @ x # vs" by (auto dest: split_list)
  with Cons.prems have m: "mset xs = mset (us @ vs)" by simp
  have "foldo addContrib t (x # xs) = foldo addContrib t (x # us @ vs)"
    using Cons.IH [OF m] addContrib_valid by (auto split: option.splits)
  then show ?case using foldo_move [OF Cons.prems(2)] ys by simp
qed

text \<open>The order of iteration does not matter.\<close>

lemma total_perm: "mset xs = mset ys \<Longrightarrow> total xs = total ys"
  unfolding total_def by (erule foldo_perm) (rule zero_valid)

lemma total_Cons: "total (r # rs) = Option.bind (total rs) (\<lambda>t. addContrib t r)"
proof -
  have "total (r # rs) = total (rs @ [r])" by (rule total_perm) simp
  then show ?thesis by (auto simp: total_def foldo_append split: option.splits)
qed

lemma total_at: "total (ys @ r # zs) = Option.bind (total (ys @ zs)) (\<lambda>t. addContrib t r)"
  using total_perm [of "ys @ r # zs" "r # ys @ zs"] by (simp add: total_Cons)

text \<open>Inserting, removing and replacing one contribution keeps the total.\<close>

lemma total_insert:
  assumes "total rs = Some t" "contrib r = Some c"
  shows "total (rs @ [r]) = add t c"
  using assms total_at [of rs r "[]"] by (simp add: addContrib_def)

lemma total_contrib: "total (ys @ r # zs) = Some t \<Longrightarrow> \<exists>c. contrib r = Some c"
  by (auto simp: total_at addContrib_def bind_eq_Some_conv)

lemma total_remove:
  assumes "total (ys @ r # zs) = Some t" "contrib r = Some c"
  shows "\<exists>u. sub t c = Some u \<and> total (ys @ zs) = Some u"
proof -
  from assms obtain u where u: "total (ys @ zs) = Some u" "add u c = Some t"
    by (auto simp: total_at addContrib_def bind_eq_Some_conv)
  from sub_add [OF total_valid [OF u(1)] contrib_valid [OF assms(2)] u(2)] u(1)
  show ?thesis by blast
qed

lemma total_replace:
  assumes "total (ys @ r # zs) = Some t" "contrib r = Some c" "contrib r' = Some c'"
  shows "Option.bind (sub t c) (\<lambda>u. add u c') = total (ys @ r' # zs)"
  using total_remove [OF assms(1,2)] assms(3) by (auto simp: total_at addContrib_def)

end

subsection \<open>The overlays of the admission controller satisfy it\<close>

lemma addNonnegativeInt64_Some_iff:
  "addNonnegativeInt64 a b = Some c \<longleftrightarrow> 0 \<le> a \<and> 0 \<le> b \<and> a + b \<le> MaxInt64 \<and> c = a + b"
  by (auto simp: addNonnegativeInt64_def)

lemma addNonnegativeInt64_None_iff:
  "addNonnegativeInt64 a b = None \<longleftrightarrow> a < 0 \<or> b < 0 \<or> MaxInt64 < a + b"
  by (auto simp: addNonnegativeInt64_def)

text \<open>Componentwise sum, and when the checked addition gives it.\<close>

definition overlay_plus :: "reservationOverlay \<Rightarrow> reservationOverlay \<Rightarrow> reservationOverlay" where
  "overlay_plus a b = \<lparr>ov_unobservedSequences = ov_unobservedSequences a + ov_unobservedSequences b,
     ov_sequenceLiabilities = ov_sequenceLiabilities a + ov_sequenceLiabilities b,
     ov_liveReservations = ov_liveReservations a + ov_liveReservations b,
     ov_residualDebts = ov_residualDebts a + ov_residualDebts b,
     ov_coldSheddablePending = ov_coldSheddablePending a + ov_coldSheddablePending b\<rparr>"

definition overlay_fits :: "reservationOverlay \<Rightarrow> bool" where
  "overlay_fits o1 \<longleftrightarrow> ov_sequenceLiabilities o1 \<le> MaxInt64 \<and> ov_liveReservations o1 \<le> MaxInt64 \<and>
     ov_residualDebts o1 \<le> MaxInt64"

definition overlay_nonneg :: "reservationOverlay \<Rightarrow> bool" where
  "overlay_nonneg o1 \<longleftrightarrow> 0 \<le> ov_unobservedSequences o1 \<and> 0 \<le> ov_sequenceLiabilities o1 \<and>
     0 \<le> ov_liveReservations o1 \<and> 0 \<le> ov_residualDebts o1 \<and> 0 \<le> ov_coldSheddablePending o1"

lemma overlay_valid_nonneg: "overlay_valid a \<Longrightarrow> overlay_nonneg a"
  by (simp add: overlay_valid_def overlay_nonneg_def)

lemma overlay_plus_valid: "overlay_valid a \<Longrightarrow> overlay_valid b \<Longrightarrow> overlay_valid (overlay_plus a b)"
  by (simp add: overlay_valid_def overlay_plus_def)

lemma overlay_plus_comm: "overlay_plus a b = overlay_plus b a"
  by (simp add: overlay_plus_def add.commute)

lemma overlay_plus_assoc: "overlay_plus (overlay_plus a b) c = overlay_plus a (overlay_plus b c)"
  by (simp add: overlay_plus_def add.assoc)

lemma addOverlay_eq:
  "addOverlay a b = (if overlay_nonneg a \<and> overlay_nonneg b \<and> overlay_valid (overlay_plus a b) \<and>
      overlay_fits (overlay_plus a b) then Some (overlay_plus a b) else None)"
  unfolding addOverlay_def
  by (auto simp: addNonnegativeInt64_def overlay_nonneg_def overlay_fits_def overlay_plus_def
      overlay_valid_def Let_def)

lemma addOverlay_valid_eq:
  "overlay_valid a \<Longrightarrow> overlay_valid b \<Longrightarrow>
     addOverlay a b = (if overlay_fits (overlay_plus a b) then Some (overlay_plus a b) else None)"
  by (simp add: addOverlay_eq overlay_plus_valid overlay_valid_nonneg)

lemma overlay_fits_plusD:
  "overlay_valid a \<Longrightarrow> overlay_valid b \<Longrightarrow> overlay_fits (overlay_plus a b) \<Longrightarrow> overlay_fits a \<and> overlay_fits b"
  by (auto simp: overlay_valid_def overlay_fits_def overlay_plus_def)

lemma subtractOverlay_plus:
  "overlay_valid a \<Longrightarrow> overlay_valid b \<Longrightarrow> subtractOverlay (overlay_plus a b) b = Some a"
  using overlay_plus_valid [of a b]
  by (simp add: subtractOverlay_def Let_def) (simp add: overlay_plus_def overlay_valid_def)

lemma contribution_Some:
  "contribution r = Some c \<Longrightarrow> overlay_valid c \<and> rv_id r \<noteq> 0 \<and> rv_runtimeEpoch r \<noteq> 0 \<and>
     demand_valid (rv_demand r) \<and> ov_sequenceLiabilities c = dm_DecodeSequences (rv_demand r) \<and>
     ov_liveReservations c + ov_residualDebts c = 1"
  by (auto simp: contribution_def Let_def zeroOverlay_def split: if_splits reservationPhase.splits)

lemma zeroOverlay_valid [simp]: "overlay_valid zeroOverlay"
  by (simp add: overlay_valid_def zeroOverlay_def)

lemma overlay_plus_zero [simp]: "overlay_plus zeroOverlay a = a"
  by (simp add: overlay_plus_def zeroOverlay_def)

text \<open>Associativity: either grouping succeeds exactly when the whole sum fits.\<close>

lemma addOverlay_assoc:
  assumes "overlay_valid a" "overlay_valid b" "overlay_valid c"
  shows "Option.bind (addOverlay a b) (\<lambda>x. addOverlay x c) = Option.bind (addOverlay b c) (addOverlay a)"
proof -
  let ?s = "overlay_plus a (overlay_plus b c)"
  have v: "overlay_valid (overlay_plus a b)" "overlay_valid (overlay_plus b c)"
    using assms by (simp_all add: overlay_plus_valid)
  have "Option.bind (addOverlay a b) (\<lambda>x. addOverlay x c) = (if overlay_fits ?s then Some ?s else None)"
    using overlay_fits_plusD [OF v(1) assms(3)]
    by (auto simp: addOverlay_valid_eq assms v overlay_plus_assoc)
  moreover have "Option.bind (addOverlay b c) (addOverlay a) = (if overlay_fits ?s then Some ?s else None)"
    using overlay_fits_plusD [OF assms(1) v(2)] by (auto simp: addOverlay_valid_eq assms v)
  ultimately show ?thesis by simp
qed

interpretation acct: accounting zeroOverlay addOverlay subtractOverlay overlay_valid contribution
proof unfold_locales
  show "overlay_valid zeroOverlay" by simp
  show "overlay_valid c" if "contribution r = Some c" for r c
    using that by (simp add: contribution_Some)
  show "overlay_valid c" if "addOverlay a b = Some c" for a b c
    using that by (auto simp: addOverlay_eq split: if_splits)
  show "addOverlay a b = addOverlay b a" for a b
    by (simp add: addOverlay_eq overlay_plus_comm [of a b] conj_ac)
  show "Option.bind (addOverlay a b) (\<lambda>x. addOverlay x c) = Option.bind (addOverlay b c) (addOverlay a)"
    if "overlay_valid a" "overlay_valid b" "overlay_valid c" for a b c
    using that by (rule addOverlay_assoc)
  show "subtractOverlay c b = Some a" if "overlay_valid a" "overlay_valid b" "addOverlay a b = Some c" for a b c
    using that subtractOverlay_plus [of a b] by (simp add: addOverlay_valid_eq split: if_splits)
qed

subsection \<open>When the total exists\<close>

text \<open>
  Every contribution is well formed, so the only way the total can fail is an overflow of
  the sum of sequence liabilities, and at most \<open>MaxInt64\<close> sequences are ever reserved.
\<close>

lemma contribution_total:
  assumes "rv_id r \<noteq> 0" "rv_runtimeEpoch r \<noteq> 0" "demand_valid (rv_demand r)"
    and "rv_phase r \<in> {reservationReserved, reservationForwarded, reservationActiveDecode, reservationResidualDebt}"
    and "rv_phase r = reservationActiveDecode \<longrightarrow> rv_pendingFirstByteReleased r"
  shows "\<exists>c. contribution r = Some c"
  using assms demand_valid_seqs [OF assms(3)]
  by (auto simp: contribution_def Let_def zeroOverlay_def overlay_valid_def split: reservationPhase.splits)

definition decodeSum :: "reservation list \<Rightarrow> int" where
  "decodeSum rs = sum_list (map (\<lambda>r. dm_DecodeSequences (rv_demand r)) rs)"

lemma overlay_add_facts:
  assumes "addOverlay t c = Some u" "overlay_valid t" "overlay_valid c"
  shows "u = overlay_plus t c \<and> overlay_fits u"
  using assms by (auto simp: addOverlay_valid_eq split: if_splits)

lemma total_facts:
  "acct.total rs = Some t \<Longrightarrow> ov_sequenceLiabilities t = decodeSum rs \<and>
     ov_liveReservations t + ov_residualDebts t = int (length rs) \<and>
     (\<forall>r\<in>set rs. \<exists>c. contribution r = Some c)"
proof (induction rs arbitrary: t)
  case Nil
  then have "t = zeroOverlay" by (simp add: acct.total_def)
  then show ?case by (simp add: decodeSum_def) (simp add: zeroOverlay_def)
next
  case (Cons r rs)
  from Cons.prems obtain u c where u: "acct.total rs = Some u" "contribution r = Some c" "addOverlay u c = Some t"
    by (auto simp: acct.total_Cons acct.addContrib_def bind_eq_Some_conv)
  have "t = overlay_plus u c"
    using overlay_add_facts [OF u(3)] acct.total_valid [OF u(1)] contribution_Some [OF u(2)] by blast
  then show ?case
    using Cons.IH [OF u(1)] contribution_Some [OF u(2)] u(2) by (auto simp: overlay_plus_def decodeSum_def)
qed

lemma total_exists:
  assumes "\<forall>r\<in>set rs. \<exists>c. contribution r = Some c" "decodeSum rs \<le> MaxInt64"
  shows "\<exists>t. acct.total rs = Some t"
  using assms
proof (induction rs)
  case Nil
  then show ?case by (simp add: acct.total_def)
next
  case (Cons r rs)
  obtain c where c: "contribution r = Some c" using Cons.prems by auto
  have pos: "1 \<le> dm_DecodeSequences (rv_demand r)"
    using contribution_Some [OF c] demand_valid_seqs by blast
  have nn: "int (length rs) \<le> decodeSum rs"
    using Cons.prems(1)
  proof (induction rs)
    case (Cons s ss)
    then obtain d where "contribution s = Some d" by auto
    then have "1 \<le> dm_DecodeSequences (rv_demand s)" using contribution_Some demand_valid_seqs by blast
    with Cons show ?case by (simp add: decodeSum_def)
  qed (simp add: decodeSum_def)
  from Cons pos obtain t where t: "acct.total rs = Some t" by (auto simp: decodeSum_def)
  have v: "overlay_valid t" "overlay_valid c"
    using acct.total_valid [OF t] contribution_Some [OF c] by blast+
  have sum: "decodeSum (r # rs) = dm_DecodeSequences (rv_demand r) + decodeSum rs" by (simp add: decodeSum_def)
  have "overlay_fits (overlay_plus t c)"
    using total_facts [OF t] contribution_Some [OF c] v Cons.prems(2) sum nn pos
    by (simp add: overlay_fits_def overlay_plus_def overlay_valid_def)
  then show ?case
    using t c v by (simp add: acct.total_Cons acct.addContrib_def addOverlay_valid_eq)
qed

end
