(* ===== verification/Gate.thy ===== *)
theory Gate
  imports TpsWindow Overlay
begin

text \<open>
  The stateless part of a decision: \<open>projector.go\<close> projects an observation and the overlay to
  the state of the decision, \<open>tps_gate.go\<close> protects the throughput reference,
  \<open>admission_bounds.go\<close> the running limit and the window concurrency, and \<open>policy.go\<close>
  combines the two. The lemmas characterise every branch: what an admission implies, which
  reason and scope a protection carries, and how the tiers compare.
\<close>

subsection \<open>Projection (\<open>projector.go\<close>)\<close>

record observedState =
  ob_observation :: BackendObservation
  ob_sequence :: nat
  ob_generationDelta :: nat
  ob_preemptionDelta :: nat
  ob_interval :: duration
  ob_previousRunning :: int
  ob_previousWaiting :: int

definition zeroObserved :: observedState where
  [zero_simps]: "zeroObserved = \<lparr>ob_observation = zeroObservation, ob_sequence = 0,
     ob_generationDelta = 0, ob_preemptionDelta = 0, ob_interval = 0, ob_previousRunning = 0,
     ob_previousWaiting = 0\<rparr>"

definition validProjectedState :: "ProjectedState \<Rightarrow> bool" where
  [valid_defs]: "validProjectedState s \<longleftrightarrow>
     0 \<le> ps_UnobservedSequences s \<and>
     0 \<le> ps_ColdSheddablePending s \<and> ps_ColdSheddablePending s \<le> ps_LiveReservations s \<and>
     0 \<le> ps_SequenceLiabilities s \<and> ps_UnobservedSequences s \<le> ps_SequenceLiabilities s \<and>
     0 \<le> ps_LiveReservations s \<and> 0 \<le> ps_ResidualDebts s \<and>
     0 \<le> ps_RawRunning s \<and> 0 \<le> ps_RawWaiting s \<and> 0 \<le> ps_PreviousRawRunning s \<and>
     0 \<le> ps_PreviousRawWaiting s \<and> 0 \<le> ps_ObservationInterval s \<and>
     (\<not> ps_ObservationIntervalValid s \<or> 0 < ps_ObservationInterval s) \<and>
     validTPSSnapshot (ps_TPS s)"

definition project :: "observedState \<Rightarrow> reservationOverlay \<Rightarrow> ProjectedState option" where
  "project observed overlay =
     (let state = zeroProjectedState\<lparr>
            ps_UnobservedSequences := ov_unobservedSequences overlay,
            ps_ColdSheddablePending := ov_coldSheddablePending overlay,
            ps_SequenceLiabilities := ov_sequenceLiabilities overlay,
            ps_LiveReservations := ov_liveReservations overlay,
            ps_ResidualDebts := ov_residualDebts overlay,
            ps_RawRunning := bo_Running (ob_observation observed),
            ps_RawWaiting := bo_Waiting (ob_observation observed),
            ps_PreviousRawRunning := ob_previousRunning observed,
            ps_PreviousRawWaiting := ob_previousWaiting observed,
            ps_GenerationDelta := ob_generationDelta observed,
            ps_PreemptionDelta := ob_preemptionDelta observed,
            ps_ObservationInterval := ob_interval observed,
            ps_ObservationIntervalValid :=
              (0 < ob_interval observed \<and> ob_interval observed \<le> bo_MaximumAge (ob_observation observed))\<rparr>
      in if \<not> validProjectedState state then None else Some state)"

subsection \<open>The throughput gate (\<open>tps_gate.go\<close>)\<close>

record gateDecision =
  gd_fits :: bool
  gd_reason :: Reason

record tpsGateDecision = gateDecision +
  gd_result :: TPSDecisionResult
  gd_subreason :: TPSDecisionSubreason

record tpsGate =
  tg_backendTierScheduling :: bool
  tg_warmPromptTokens :: int

definition promptAware :: "tpsGate \<Rightarrow> bool" where
  "promptAware g \<longleftrightarrow> 0 < tg_warmPromptTokens g"

definition warm :: "tpsGate \<Rightarrow> TPSRequestDemand \<Rightarrow> bool" where
  "warm g demand \<longleftrightarrow> promptAware g \<and> dm_PrefillKnown demand \<and>
     dm_PrefillTokens demand \<le> tg_warmPromptTokens g"

definition coldSheddable :: "tpsGate \<Rightarrow> TPSRequestDemand \<Rightarrow> bool" where
  "coldSheddable g demand \<longleftrightarrow> promptAware g \<and> Sheddable (dm_Tier demand) \<and> \<not> warm g demand"

definition tpsProtect :: "Reason \<Rightarrow> TPSDecisionResult \<Rightarrow> TPSDecisionSubreason \<Rightarrow> tpsGateDecision" where
  "tpsProtect reason result subreason =
     \<lparr>gd_fits = False, gd_reason = reason, gd_result = result, gd_subreason = subreason\<rparr>"

definition tpsAdmit :: "TPSDecisionResult \<Rightarrow> TPSDecisionSubreason \<Rightarrow> tpsGateDecision" where
  "tpsAdmit result subreason =
     \<lparr>gd_fits = True, gd_reason = ReasonOpen, gd_result = result, gd_subreason = subreason\<rparr>"

definition tpsGate_evaluateDemand ::
  "tpsGate \<Rightarrow> ProjectedState \<Rightarrow> int \<Rightarrow> TPSRequestDemand \<Rightarrow> tpsGateDecision" where
  "tpsGate_evaluateDemand g state waitingAllowance demand =
     (let tier = dm_Tier demand; snapshot = ps_TPS state in
      if Sheddable tier \<and> ps_RawWaiting state > waitingAllowance then
        tpsProtect ReasonTPSReference TPSDecisionResultProtect TPSDecisionSubreasonWaiting
      else if \<not> ts_Enabled snapshot then
        tpsAdmit TPSDecisionResultDisabled TPSDecisionSubreasonDisabled
      else if \<not> validTPSSnapshot snapshot \<or> fle (ts_Reference snapshot) (Fin 0) then
        tpsProtect ReasonResourceExhausted TPSDecisionResultInvalid TPSDecisionSubreasonInvalidState
      else if Sheddable tier \<and> ps_PreemptionDelta state > 0 then
        tpsProtect ReasonTPSReference TPSDecisionResultProtect TPSDecisionSubreasonPreemption
      else if \<not> ts_Ready snapshot then
        tpsAdmit TPSDecisionResultAdmit TPSDecisionSubreasonWarming
      else if \<not> iv_Qualified (ts_Latest snapshot) then
        tpsAdmit TPSDecisionResultAdmit TPSDecisionSubreasonNoCurrentEvidence
      else if coldSheddable g demand \<and> ps_ColdSheddablePending state > 0 then
        tpsProtect ReasonTPSReference TPSDecisionResultProtect TPSDecisionSubreasonColdPromptPending
      else if fle (ts_Reference snapshot) (ts_MeanActiveTPS snapshot) then
        tpsAdmit TPSDecisionResultAdmit TPSDecisionSubreasonHealthyWindow
      else if fle (ts_Reference snapshot) (iv_MeanActiveTPS (ts_Latest snapshot)) then
        (if coldSheddable g demand then
           tpsProtect ReasonTPSReference TPSDecisionResultProtect TPSDecisionSubreasonColdPrompt
         else if Sheddable tier \<and> warm g demand then
           tpsAdmit TPSDecisionResultAdmit TPSDecisionSubreasonWarmPrompt
         else tpsAdmit TPSDecisionResultAdmit TPSDecisionSubreasonRecoveredCurrent)
      else if \<not> Sheddable tier \<and> tg_backendTierScheduling g then
        tpsAdmit TPSDecisionResultAdmit TPSDecisionSubreasonBackendScheduled
      else tpsProtect ReasonTPSReference TPSDecisionResultProtect TPSDecisionSubreasonBelowReference)"

definition tpsGate_evaluate ::
  "tpsGate \<Rightarrow> ProjectedState \<Rightarrow> int \<Rightarrow> RequestTier \<Rightarrow> tpsGateDecision" where
  "tpsGate_evaluate g state waitingAllowance tier =
     tpsGate_evaluateDemand g state waitingAllowance (zeroDemand\<lparr>dm_Tier := tier\<rparr>)"

subsection \<open>The bounds (\<open>admission_bounds.go\<close>)\<close>

record admissionBoundsDecision = gateDecision +
  bd_projectedRunning :: int
  bd_projectedWindowSequences :: int

record admissionBounds =
  ab_windowConcurrency :: int
  ab_runningLimit :: int
  ab_waitingAllowance :: int

definition the0 :: "int option \<Rightarrow> int" where
  "the0 r = (case r of None \<Rightarrow> 0 | Some v \<Rightarrow> v)"

definition bounds_evaluate ::
  "admissionBounds \<Rightarrow> ProjectedState \<Rightarrow> TPSRequestDemand \<Rightarrow> admissionBoundsDecision" where
  "bounds_evaluate b state demand =
     (let decision = (\<lambda>fits reason running windowSequences.
            \<lparr>gd_fits = fits, gd_reason = reason, bd_projectedRunning = running,
             bd_projectedWindowSequences = windowSequences\<rparr>) in
      if \<not> demand_valid demand \<or> ab_windowConcurrency b \<le> 0 \<or> ab_runningLimit b < 0 then
        decision False ReasonResourceExhausted 0 0
      else case Option.bind (addNonnegativeInt64 (ps_RawRunning state) (ps_RawWaiting state)) (\<lambda>raw.
             Option.bind (addNonnegativeInt64 raw (ps_UnobservedSequences state)) (\<lambda>raw.
               addNonnegativeInt64 raw (dm_DecodeSequences demand))) of
        None \<Rightarrow> decision False ReasonResourceExhausted 0 0
      | Some running \<Rightarrow>
         (case addNonnegativeInt64 (ps_UnobservedSequences state) (dm_DecodeSequences demand) of
            None \<Rightarrow> decision False ReasonResourceExhausted running 0
          | Some windowSequences \<Rightarrow>
              if ab_runningLimit b > 0 \<and> running > ab_runningLimit b then
                decision False ReasonRunningLimit running windowSequences
              else if windowSequences > ab_windowConcurrency b then
                decision False ReasonWindowConcurrency running windowSequences
              else decision True ReasonOpen running windowSequences))"

subsection \<open>The policy (\<open>policy.go\<close>)\<close>

record admissionPolicy =
  ap_tpsGate :: tpsGate

record policyDecision =
  pd_action :: Action
  pd_reason :: Reason
  pd_scope :: ProtectionScope
  pd_projectedRunning :: int
  pd_projectedWindowSequences :: int
  pd_tpsDecisionResult :: TPSDecisionResult
  pd_tpsDecisionSubreason :: TPSDecisionSubreason

definition newAdmissionPolicy :: "bool \<Rightarrow> int \<Rightarrow> admissionPolicy" where
  "newAdmissionPolicy backendTierScheduling warmPromptTokens =
     \<lparr>ap_tpsGate = \<lparr>tg_backendTierScheduling = backendTierScheduling,
                     tg_warmPromptTokens = warmPromptTokens\<rparr>\<rparr>"

definition policy_evaluateDemand ::
  "admissionPolicy \<Rightarrow> ProjectedState \<Rightarrow> TPSRequestDemand \<Rightarrow> admissionBounds \<Rightarrow> policyDecision" where
  "policy_evaluateDemand p state demand bounds =
     (let tps = tpsGate_evaluateDemand (ap_tpsGate p) state (ab_waitingAllowance bounds) demand;
          decision = \<lparr>pd_action = ActionAdmit, pd_reason = ReasonOpen, pd_scope = ProtectionNone,
            pd_projectedRunning = 0, pd_projectedWindowSequences = 0,
            pd_tpsDecisionResult = gd_result tps, pd_tpsDecisionSubreason = gd_subreason tps\<rparr>
      in if \<not> gd_fits tps then
           decision\<lparr>pd_action := ActionProtect, pd_reason := gd_reason tps,
             pd_scope := (if gd_reason tps = ReasonTPSReference then ProtectionLoad
                          else ProtectionAvailability)\<rparr>
         else if \<not> Sheddable (dm_Tier demand) then
           (let running = addNonnegativeInt64 (ps_RawRunning state) (dm_DecodeSequences demand);
                windowSequences =
                  addNonnegativeInt64 (ps_UnobservedSequences state) (dm_DecodeSequences demand);
                projected = decision\<lparr>pd_projectedRunning := the0 running,
                  pd_projectedWindowSequences := the0 windowSequences\<rparr>
            in if running = None \<or> windowSequences = None then
                 projected\<lparr>pd_action := ActionProtect, pd_reason := ReasonResourceExhausted,
                   pd_scope := ProtectionAvailability\<rparr>
               else projected)
         else
           (let bound = bounds_evaluate bounds state demand;
                projected = decision\<lparr>pd_projectedRunning := bd_projectedRunning bound,
                  pd_projectedWindowSequences := bd_projectedWindowSequences bound\<rparr>
            in if \<not> gd_fits bound then
                 projected\<lparr>pd_action := ActionProtect, pd_reason := gd_reason bound,
                   pd_scope := (if gd_reason bound = ReasonRunningLimit \<or>
                                   gd_reason bound = ReasonWindowConcurrency
                                then ProtectionLoad else ProtectionAvailability)\<rparr>
               else projected))"

subsection \<open>What the projection promises\<close>

lemma zeroTPSSnapshot_valid [simp]: "validTPSSnapshot zeroTPSSnapshot"
  by (simp add: validTPSSnapshot_def zeroTPSSnapshot_def)

lemma project_Some_iff:
  "(\<exists>s. project ob ov = Some s) \<longleftrightarrow> overlay_valid ov \<and>
     0 \<le> bo_Running (ob_observation ob) \<and> 0 \<le> bo_Waiting (ob_observation ob) \<and>
     0 \<le> ob_previousRunning ob \<and> 0 \<le> ob_previousWaiting ob \<and> 0 \<le> ob_interval ob"
  by (auto simp: project_def Let_def validProjectedState_def overlay_valid_def zeroProjectedState_def
      validTPSSnapshot_def zeroTPSSnapshot_def)

lemma project_Some:
  assumes "project ob ov = Some s"
  shows "validProjectedState s" "ps_TPS s = zeroTPSSnapshot" "overlay_valid ov"
    and "ps_UnobservedSequences s = ov_unobservedSequences ov"
    and "ps_ColdSheddablePending s = ov_coldSheddablePending ov"
    and "ps_SequenceLiabilities s = ov_sequenceLiabilities ov"
    and "ps_LiveReservations s = ov_liveReservations ov"
    and "ps_ResidualDebts s = ov_residualDebts ov"
    and "ps_RawRunning s = bo_Running (ob_observation ob)"
    and "ps_RawWaiting s = bo_Waiting (ob_observation ob)"
    and "ps_PreemptionDelta s = ob_preemptionDelta ob"
    and "ps_GenerationDelta s = ob_generationDelta ob"
  using assms project_Some_iff [of ob ov]
  by (auto simp: project_def Let_def zeroProjectedState_def split: if_splits)

lemma validProjectedState_TPS:
  "validProjectedState s \<Longrightarrow> validTPSSnapshot t \<Longrightarrow> validProjectedState (s\<lparr>ps_TPS := t\<rparr>)"
  by (simp add: validProjectedState_def)

subsection \<open>What the gate decides\<close>

text \<open>
  The whole gate as one predicate: a sheddable request passes the waiting and preemption
  checks; evidence, when it is ready and current, must not be below the reference, and a
  cold sheddable prompt needs the window itself at the reference and no other cold prompt.
\<close>

definition tps_gate_open :: "tpsGate \<Rightarrow> ProjectedState \<Rightarrow> int \<Rightarrow> TPSRequestDemand \<Rightarrow> bool" where
  "tps_gate_open g s allowance d \<longleftrightarrow>
     (Sheddable (dm_Tier d) \<longrightarrow> ps_RawWaiting s \<le> allowance) \<and>
     (ts_Enabled (ps_TPS s) \<longrightarrow>
        validTPSSnapshot (ps_TPS s) \<and> flt (Fin 0) (ts_Reference (ps_TPS s)) \<and>
        (Sheddable (dm_Tier d) \<longrightarrow> ps_PreemptionDelta s = 0) \<and>
        (ts_Ready (ps_TPS s) \<and> iv_Qualified (ts_Latest (ps_TPS s)) \<longrightarrow>
           (coldSheddable g d \<longrightarrow> ps_ColdSheddablePending s \<le> 0) \<and>
           (fle (ts_Reference (ps_TPS s)) (ts_MeanActiveTPS (ps_TPS s)) \<or>
            fle (ts_Reference (ps_TPS s)) (iv_MeanActiveTPS (ts_Latest (ps_TPS s))) \<and>
              \<not> coldSheddable g d \<or>
            \<not> fle (ts_Reference (ps_TPS s)) (iv_MeanActiveTPS (ts_Latest (ps_TPS s))) \<and>
              \<not> Sheddable (dm_Tier d) \<and> tg_backendTierScheduling g)))"

lemma coldSheddable_Sheddable: "coldSheddable g d \<Longrightarrow> Sheddable (dm_Tier d)"
  by (simp add: coldSheddable_def)

lemma validTPSSnapshot_positive:
  "validTPSSnapshot s \<Longrightarrow> \<not> fle (ts_Reference s) (Fin 0) \<longleftrightarrow> flt (Fin 0) (ts_Reference s)"
  by (auto simp: validTPSSnapshot_def elim: finiteNonnegativeE)

lemma tpsGate_fits_iff:
  "gd_fits (tpsGate_evaluateDemand g s a d) \<longleftrightarrow> tps_gate_open g s a d"
  using validTPSSnapshot_positive [of "ps_TPS s"] coldSheddable_Sheddable [of g d]
  unfolding tpsGate_evaluateDemand_def tps_gate_open_def Let_def tpsProtect_def tpsAdmit_def
  by (auto simp: not_less not_le)

lemma tpsGate_reason:
  "gd_reason (tpsGate_evaluateDemand g s a d) =
     (if tps_gate_open g s a d then ReasonOpen
      else if gd_result (tpsGate_evaluateDemand g s a d) = TPSDecisionResultInvalid
      then ReasonResourceExhausted else ReasonTPSReference)"
  unfolding tpsGate_fits_iff [symmetric]
  by (auto simp: tpsGate_evaluateDemand_def Let_def tpsProtect_def tpsAdmit_def)

lemma tpsGate_result:
  "gd_result (tpsGate_evaluateDemand g s a d) =
     (if tps_gate_open g s a d
      then (if ts_Enabled (ps_TPS s) then TPSDecisionResultAdmit else TPSDecisionResultDisabled)
      else if ts_Enabled (ps_TPS s) \<and> \<not> (validTPSSnapshot (ps_TPS s) \<and> flt (Fin 0) (ts_Reference (ps_TPS s))) \<and>
         (Sheddable (dm_Tier d) \<longrightarrow> ps_RawWaiting s \<le> a)
      then TPSDecisionResultInvalid else TPSDecisionResultProtect)"
  unfolding tpsGate_fits_iff [symmetric]
  using validTPSSnapshot_positive [of "ps_TPS s"]
  by (auto simp: tpsGate_evaluateDemand_def Let_def tpsProtect_def tpsAdmit_def not_less)

text \<open>A tier enters the gate only through being sheddable.\<close>

lemma warm_tier [simp]: "warm g (d\<lparr>dm_Tier := t\<rparr>) = warm g d"
  by (simp add: warm_def)

lemma tpsGate_tier_cong:
  assumes "Sheddable t = Sheddable u"
  shows "tpsGate_evaluateDemand g s a (d\<lparr>dm_Tier := t\<rparr>) = tpsGate_evaluateDemand g s a (d\<lparr>dm_Tier := u\<rparr>)"
  using assms by (simp add: tpsGate_evaluateDemand_def coldSheddable_def Let_def)

text \<open>The gate is never stricter on a request that cannot be shed.\<close>

lemma tpsGate_priority_weaker:
  assumes "tps_gate_open g s a (d\<lparr>dm_Tier := t\<rparr>)" "\<not> Sheddable u"
  shows "tps_gate_open g s a (d\<lparr>dm_Tier := u\<rparr>)"
  using assms by (auto simp: tps_gate_open_def coldSheddable_def)

subsection \<open>What the bounds decide\<close>

lemma bounds_fits_iff:
  "gd_fits (bounds_evaluate b s d) \<longleftrightarrow>
     demand_valid d \<and> 0 < ab_windowConcurrency b \<and> 0 \<le> ab_runningLimit b \<and>
     0 \<le> ps_RawRunning s \<and> 0 \<le> ps_RawWaiting s \<and> 0 \<le> ps_UnobservedSequences s \<and>
     ps_RawRunning s + ps_RawWaiting s + ps_UnobservedSequences s + dm_DecodeSequences d \<le> MaxInt64 \<and>
     (0 < ab_runningLimit b \<longrightarrow>
        ps_RawRunning s + ps_RawWaiting s + ps_UnobservedSequences s + dm_DecodeSequences d \<le> ab_runningLimit b) \<and>
     ps_UnobservedSequences s + dm_DecodeSequences d \<le> ab_windowConcurrency b"
  by (auto simp: bounds_evaluate_def Let_def addNonnegativeInt64_def demand_valid_def split: if_splits)

lemma bounds_fits_values:
  assumes "gd_fits (bounds_evaluate b s d)"
  shows "bd_projectedRunning (bounds_evaluate b s d) =
       ps_RawRunning s + ps_RawWaiting s + ps_UnobservedSequences s + dm_DecodeSequences d \<and>
     bd_projectedWindowSequences (bounds_evaluate b s d) = ps_UnobservedSequences s + dm_DecodeSequences d \<and>
     gd_reason (bounds_evaluate b s d) = ReasonOpen"
  using assms [unfolded bounds_fits_iff]
  by (auto simp: bounds_evaluate_def Let_def addNonnegativeInt64_def demand_valid_def)

lemma bounds_reason:
  "gd_reason (bounds_evaluate b s d) \<in>
     {ReasonOpen, ReasonResourceExhausted, ReasonRunningLimit, ReasonWindowConcurrency} \<and>
   (gd_reason (bounds_evaluate b s d) = ReasonOpen \<longleftrightarrow> gd_fits (bounds_evaluate b s d))"
  by (auto simp: bounds_evaluate_def Let_def split: option.splits)

lemma bounds_tier:
  "RequestTier_valid t \<Longrightarrow> RequestTier_valid u \<Longrightarrow>
     bounds_evaluate b s (d\<lparr>dm_Tier := t\<rparr>) = bounds_evaluate b s (d\<lparr>dm_Tier := u\<rparr>)"
  by (simp add: bounds_evaluate_def demand_valid_def Let_def cong: option.case_cong)

subsection \<open>What the policy decides\<close>

definition protection_scope_of :: "Reason \<Rightarrow> ProtectionScope" where
  "protection_scope_of r =
     (if r = ReasonOpen then ProtectionNone
      else if r \<in> {ReasonTPSReference, ReasonRunningLimit, ReasonWindowConcurrency} then ProtectionLoad
      else ProtectionAvailability)"

lemma the0_Some [simp]: "the0 (Some v) = v" and the0_None [simp]: "the0 None = 0"
  by (simp_all add: the0_def)

text \<open>Every decision is one of two actions, with the reason and the scope that belong together.\<close>

lemma policy_shape:
  "pd_action (policy_evaluateDemand p s d b) =
     (if pd_reason (policy_evaluateDemand p s d b) = ReasonOpen then ActionAdmit else ActionProtect) \<and>
   pd_reason (policy_evaluateDemand p s d b) \<in>
     {ReasonOpen, ReasonTPSReference, ReasonResourceExhausted, ReasonRunningLimit, ReasonWindowConcurrency} \<and>
   pd_scope (policy_evaluateDemand p s d b) = protection_scope_of (pd_reason (policy_evaluateDemand p s d b))"
proof -
  have g: "gd_reason (tpsGate_evaluateDemand (ap_tpsGate p) s (ab_waitingAllowance b) d) \<in>
      {ReasonOpen, ReasonResourceExhausted, ReasonTPSReference}"
    "gd_reason (tpsGate_evaluateDemand (ap_tpsGate p) s (ab_waitingAllowance b) d) = ReasonOpen \<longleftrightarrow>
      gd_fits (tpsGate_evaluateDemand (ap_tpsGate p) s (ab_waitingAllowance b) d)"
    unfolding tpsGate_fits_iff tpsGate_reason by auto
  show ?thesis
    using g bounds_reason [of b s d]
    by (auto simp: policy_evaluateDemand_def Let_def protection_scope_of_def)
qed

lemma policy_admits_iff:
  "pd_action (policy_evaluateDemand p s d b) = ActionAdmit \<longleftrightarrow>
     tps_gate_open (ap_tpsGate p) s (ab_waitingAllowance b) d \<and>
     (if Sheddable (dm_Tier d) then gd_fits (bounds_evaluate b s d)
      else 0 \<le> ps_RawRunning s \<and> 0 \<le> ps_UnobservedSequences s \<and> 0 \<le> dm_DecodeSequences d \<and>
           ps_RawRunning s + dm_DecodeSequences d \<le> MaxInt64 \<and>
           ps_UnobservedSequences s + dm_DecodeSequences d \<le> MaxInt64)"
  by (auto simp: policy_evaluateDemand_def Let_def tpsGate_fits_iff [symmetric] addNonnegativeInt64_def)

text \<open>Default and flex are decided alike.\<close>

lemma policy_tier_cong:
  assumes "Sheddable t" "Sheddable u"
  shows "policy_evaluateDemand p s (d\<lparr>dm_Tier := t\<rparr>) b = policy_evaluateDemand p s (d\<lparr>dm_Tier := u\<rparr>) b"
  using assms bounds_tier [OF Sheddable_valid Sheddable_valid, OF assms, of b s d]
    tpsGate_tier_cong [of t u "ap_tpsGate p" s "ab_waitingAllowance b" d]
  by (simp add: policy_evaluateDemand_def Let_def)

text \<open>A state that admits a sheddable request admits it with priority.\<close>

lemma policy_priority_weaker:
  assumes "pd_action (policy_evaluateDemand p s (d\<lparr>dm_Tier := t\<rparr>) b) = ActionAdmit"
    and "0 \<le> ps_RawWaiting s"
  shows "pd_action (policy_evaluateDemand p s (d\<lparr>dm_Tier := TierPriority\<rparr>) b) = ActionAdmit"
  using assms tpsGate_priority_weaker [where d = d and t = t and u = TierPriority]
  by (auto simp: policy_admits_iff bounds_fits_iff demand_valid_def split: if_splits)

text \<open>With tier scheduling in the backend, load never protects against a priority request.\<close>

lemma policy_priority_backend:
  assumes "tg_backendTierScheduling (ap_tpsGate p)" "\<not> Sheddable (dm_Tier d)"
  shows "pd_reason (policy_evaluateDemand p s d b) \<in> {ReasonOpen, ReasonResourceExhausted}"
proof -
  have "gd_reason (tpsGate_evaluateDemand (ap_tpsGate p) s (ab_waitingAllowance b) d) \<in>
      {ReasonOpen, ReasonResourceExhausted}"
    using assms by (auto simp: tpsGate_evaluateDemand_def Let_def tpsProtect_def tpsAdmit_def coldSheddable_def)
  with assms(2) show ?thesis by (auto simp: policy_evaluateDemand_def Let_def)
qed

end
