(* ===== verification/Histogram.thy ===== *)
theory Histogram
  imports Prelude
begin

text \<open>
  \<open>internal/admission/window_concurrency_histogram.go\<close>: the cumulative histogram of the number
  of unobserved sequences. The lemmas show that, below the saturation of its counters, it
  counts exactly the observed values at or under each bound.
\<close>

definition windowConcurrencyHistogramBounds :: "int list" where
  "windowConcurrencyHistogramBounds =
     [0, 1, 2, 3, 4, 5, 6, 7, 8, 9, 10, 11, 12, 13, 14, 15, 16,
      20, 24, 28, 32, 36, 40, 44, 48, 52, 56, 60, 63]"

record WindowConcurrencyHistogramBucket =
  hb_UpperBound :: int
  hb_CumulativeCount :: nat

record WindowConcurrencyHistogramSnapshot =
  hs_Count :: nat
  hs_Sum :: nat
  hs_Buckets :: "WindowConcurrencyHistogramBucket list"

record windowConcurrencyHistogram =
  wh_count :: nat
  wh_sum :: nat
  wh_buckets :: "nat list"

definition zeroHistogram :: windowConcurrencyHistogram where
  [zero_simps]: "zeroHistogram = \<lparr>wh_count = 0, wh_sum = 0,
     wh_buckets = replicate (length windowConcurrencyHistogramBounds) 0\<rparr>"

definition histogram_observe ::
  "windowConcurrencyHistogram \<Rightarrow> int \<Rightarrow> windowConcurrencyHistogram" where
  "histogram_observe h value =
     (if value < 0 then h
      else let increment = nat value
           in \<lparr>wh_count = (if wh_count h < MaxUint64 then wh_count h + 1 else wh_count h),
               wh_sum = (if MaxUint64 - wh_sum h \<ge> increment then wh_sum h + increment else MaxUint64),
               wh_buckets = map2 (\<lambda>upperBound n. if value \<le> upperBound \<and> n < MaxUint64 then n + 1 else n)
                              windowConcurrencyHistogramBounds (wh_buckets h)\<rparr>)"

definition histogram_snapshot ::
  "windowConcurrencyHistogram \<Rightarrow> WindowConcurrencyHistogramSnapshot" where
  "histogram_snapshot h =
     \<lparr>hs_Count = wh_count h, hs_Sum = wh_sum h,
      hs_Buckets = map2 (\<lambda>upperBound n. \<lparr>hb_UpperBound = upperBound, hb_CumulativeCount = n\<rparr>)
                     windowConcurrencyHistogramBounds (wh_buckets h)\<rparr>"

subsection \<open>The counters are exact below saturation\<close>

lemma map2_map_same: "map2 f xs (map g xs) = map (\<lambda>x. f x (g x)) xs"
  by (induction xs) auto

lemma bounds_zero: "replicate (length windowConcurrencyHistogramBounds) 0 =
    map (\<lambda>b. 0) windowConcurrencyHistogramBounds"
  by (simp add: map_replicate_const)

definition histogram_of :: "int list \<Rightarrow> windowConcurrencyHistogram" where
  "histogram_of vals = foldl histogram_observe zeroHistogram vals"

lemma histogram_of_exact:
  assumes "\<forall>v\<in>set vals. 0 \<le> v" "length vals < MaxUint64" "sum_list vals \<le> int MaxUint64"
  shows "histogram_of vals =
     \<lparr>wh_count = length vals, wh_sum = nat (sum_list vals),
      wh_buckets = map (\<lambda>b. length (filter (\<lambda>v. v \<le> b) vals)) windowConcurrencyHistogramBounds\<rparr>"
  using assms
proof (induction vals rule: rev_induct)
  case Nil
  then show ?case by (simp add: histogram_of_def zeroHistogram_def bounds_zero)
next
  case (snoc v vs)
  have nn: "0 \<le> sum_list vs" using snoc.prems(1) by (intro sum_list_nonneg) auto
  with snoc have IH: "histogram_of vs = \<lparr>wh_count = length vs, wh_sum = nat (sum_list vs),
      wh_buckets = map (\<lambda>b. length (filter (\<lambda>v. v \<le> b) vs)) windowConcurrencyHistogramBounds\<rparr>"
    by simp
  have lt: "length (filter P vs) < MaxUint64" for P
    by (rule le_less_trans [OF length_filter_le]) (use snoc.prems(2) in simp)
  have "histogram_of (vs @ [v]) = histogram_observe (histogram_of vs) v" by (simp add: histogram_of_def)
  moreover have "nat v \<le> MaxUint64 - nat (sum_list vs)" using snoc.prems nn by simp
  moreover have "\<not> v < 0" "length vs < MaxUint64" using snoc.prems by simp_all
  ultimately show ?case
    using snoc.prems(1) nn lt
    by (auto simp: IH histogram_observe_def Let_def map2_map_same nat_add_distrib)
qed

text \<open>Hence the buckets are cumulative.\<close>

lemma histogram_cumulative:
  assumes "\<forall>v\<in>set vals. 0 \<le> v" "length vals < MaxUint64" "sum_list vals \<le> int MaxUint64"
  shows "sorted (wh_buckets (histogram_of vals)) \<and>
     (\<forall>n\<in>set (wh_buckets (histogram_of vals)). n \<le> wh_count (histogram_of vals))"
proof -
  have mono: "length (filter (\<lambda>v. v \<le> a) vals) \<le> length (filter (\<lambda>v. v \<le> b) vals)" if "a \<le> b" for a b :: int
    using that by (induction vals) auto
  have "sorted windowConcurrencyHistogramBounds" by (simp add: windowConcurrencyHistogramBounds_def)
  then have "sorted (map (\<lambda>b. length (filter (\<lambda>v. v \<le> b) vals)) windowConcurrencyHistogramBounds)"
    by (auto simp: sorted_iff_nth_mono intro!: mono)
  then show ?thesis
    by (auto simp: histogram_of_exact [OF assms])
qed

end
