(* ===== verification/Controller.thy ===== *)
theory Controller
  imports Exposure Gate Histogram
begin

text \<open>
  \<open>internal/admission/controller.go\<close> and \<open>policy_update.go\<close>: the admission controller. Every
  public method holds the mutex from its first to its last statement, so an operation is one
  function from state to state. Each reads the clock at most once; the reading \<open>clk\<close> is an
  argument. An operation that can fail after it has changed the state returns the new state
  with its result. A controller carries the address \<open>ac_self\<close> that its sample windows and
  handles point to; a nil pointer is \<open>None\<close>. The map of reservations is an association list,
  one of the orders in which Go may iterate over it.
\<close>

abbreviation maximumTPSReservations :: int where "maximumTPSReservations \<equiv> 1048576"
abbreviation defaultPendingFirstByteLeaseDuration :: duration where
  "defaultPendingFirstByteLeaseDuration \<equiv> 1500 * Millisecond"

subsection \<open>State\<close>

record SampleWindow =
  sw_controller :: "nat option"
  sw_runtimeEpoch :: nat
  sw_tpsPolicyEpoch :: nat
  sw_id :: nat
  sw_eventSequence :: nat
  sw_exposure :: sequenceExposureSnapshot

record ReservationHandle =
  rh_controller :: "nat option"
  rh_runtimeEpoch :: nat
  rh_id :: nat

definition zeroHandle :: ReservationHandle where
  [zero_simps]: "zeroHandle = \<lparr>rh_controller = None, rh_runtimeEpoch = 0, rh_id = 0\<rparr>"

record AdmissionController =
  ac_self :: nat
  ac_runtimeIdentity :: string
  ac_policy :: admissionPolicy
  ac_tpsWindow :: tpsWindow
  ac_windowConcurrency :: int
  ac_runningLimit :: int
  ac_waitingAllowance :: int
  ac_runningLimitSource :: RunningLimitSource
  ac_pendingFirstByteLeaseDuration :: duration
  ac_exposure :: sequenceExposureLedger
  ac_runtimeEpoch :: nat
  ac_eventSequence :: nat
  ac_sampleSequence :: nat
  ac_observationSequence :: nat
  ac_lastPublishedSample :: nat
  ac_lastExposure :: sequenceExposureSnapshot
  ac_policyRevision :: nat
  ac_policyUpdatedAt :: gotime
  ac_tpsPolicyEpoch :: nat
  ac_observation :: observedState
  ac_hasObservation :: bool
  ac_closedReason :: Reason
  ac_reservations :: "(nat \<times> reservation) list"
  ac_overlay :: reservationOverlay
  ac_nextReservationID :: nat
  ac_maximumReservations :: int
  ac_windowHistogram :: windowConcurrencyHistogram

record ControllerConfig =
  cf_RuntimeIdentity :: string
  cf_TPSReference :: f64
  cf_WindowConcurrency :: int
  cf_RunningLimit :: int
  cf_RunningLimitSource :: RunningLimitSource
  cf_PendingFirstByteLeaseDuration :: duration
  cf_BackendTierScheduling :: bool
  cf_WarmPromptTokens :: int

datatype ConfigError = ConfigIdentityInvalid | ConfigReferenceInvalid | ConfigBoundsInvalid

definition NewAdmissionController ::
  "nat \<Rightarrow> ControllerConfig \<Rightarrow> ConfigError + AdmissionController" where
  "NewAdmissionController address config0 =
     (if cf_RuntimeIdentity config0 = '''' then Inl ConfigIdentityInvalid
      else if \<not> finiteNonnegative (cf_TPSReference config0) \<or>
              flt (Fin 1000000) (cf_TPSReference config0) then Inl ConfigReferenceInvalid
      else let config = config0\<lparr>
             cf_WindowConcurrency :=
               (if cf_WindowConcurrency config0 = 0 then DefaultWindowConcurrency
                else cf_WindowConcurrency config0),
             cf_RunningLimitSource :=
               (if cf_RunningLimitSource config0 = RunningLimitSourceEmpty then RunningLimitSourceUnknown
                else cf_RunningLimitSource config0),
             cf_PendingFirstByteLeaseDuration :=
               (if cf_PendingFirstByteLeaseDuration config0 = 0 then defaultPendingFirstByteLeaseDuration
                else cf_PendingFirstByteLeaseDuration config0)\<rparr>
      in if cf_WindowConcurrency config \<le> 0 \<or> cf_WindowConcurrency config > maximumTPSReservations \<or>
            cf_RunningLimit config < 0 \<or> cf_RunningLimit config > maximumTPSReservations \<or>
            cf_PendingFirstByteLeaseDuration config < 0 \<or>
            \<not> RunningLimitSource_valid (cf_RunningLimitSource config) \<or>
            (cf_RunningLimit config > 0 \<and> cf_RunningLimitSource config = RunningLimitSourceUnknown)
         then Inl ConfigBoundsInvalid
         else Inr \<lparr>ac_self = address, ac_runtimeIdentity = cf_RuntimeIdentity config,
           ac_policy = newAdmissionPolicy (cf_BackendTierScheduling config) (cf_WarmPromptTokens config),
           ac_tpsWindow = newTPSWindow (cf_TPSReference config),
           ac_windowConcurrency = cf_WindowConcurrency config,
           ac_runningLimit = cf_RunningLimit config,
           ac_waitingAllowance = DefaultWaitingAllowance,
           ac_runningLimitSource = cf_RunningLimitSource config,
           ac_pendingFirstByteLeaseDuration = cf_PendingFirstByteLeaseDuration config,
           ac_exposure = zeroLedger, ac_runtimeEpoch = 1, ac_eventSequence = 0, ac_sampleSequence = 0,
           ac_observationSequence = 0, ac_lastPublishedSample = 0, ac_lastExposure = zeroExposure,
           ac_policyRevision = 1, ac_policyUpdatedAt = zeroTime, ac_tpsPolicyEpoch = 1,
           ac_observation = zeroObserved, ac_hasObservation = False, ac_closedReason = ReasonEmpty,
           ac_reservations = [], ac_overlay = zeroOverlay, ac_nextReservationID = 0,
           ac_maximumReservations = maximumTPSReservations, ac_windowHistogram = zeroHistogram\<rparr>)"

subsection \<open>Helpers under the lock\<close>

definition failClosed :: "AdmissionController \<Rightarrow> Reason \<Rightarrow> AdmissionController" where
  "failClosed c reason =
     (if ac_closedReason c \<noteq> ReasonEmpty then c
      else c\<lparr>ac_closedReason := reason,
             ac_runtimeEpoch := (if ac_runtimeEpoch c < MaxUint64 then ac_runtimeEpoch c + 1
                                 else ac_runtimeEpoch c),
             ac_reservations := [], ac_overlay := zeroOverlay,
             ac_exposure := ledger_reset (ac_exposure c), ac_lastExposure := zeroExposure,
             ac_tpsWindow := window_reset (ac_tpsWindow c)\<rparr>)"

definition nextEventSequence :: "AdmissionController \<Rightarrow> AdmissionController \<times> nat option" where
  "nextEventSequence c =
     (if ac_eventSequence c = MaxUint64 then (failClosed c ReasonCounterOverflow, None)
      else (c\<lparr>ac_eventSequence := ac_eventSequence c + 1\<rparr>, Some (ac_eventSequence c + 1)))"

definition stateLocked :: "AdmissionController \<Rightarrow> gotime \<Rightarrow> ProjectedState \<times> Reason \<times> bool" where
  "stateLocked c now =
     (if ac_closedReason c \<noteq> ReasonEmpty then (zeroProjectedState, ac_closedReason c, False)
      else if \<not> ac_hasObservation c then (zeroProjectedState, ReasonObservationMissing, False)
      else let observation = ob_observation (ac_observation c)
           in case project (ac_observation c) (ac_overlay c) of
                None \<Rightarrow> (zeroProjectedState, ReasonControllerUnavailable, False)
              | Some state0 \<Rightarrow>
                  let state = (if \<not> IsZero now \<and> \<not> now < bo_ObservedAt observation
                               then state0\<lparr>ps_TPS := window_snapshot (ac_tpsWindow c) now\<rparr> else state0)
                  in if IsZero now \<or> now < bo_ObservedAt observation \<or>
                        Sub now (bo_ObservedAt observation) > bo_MaximumAge observation
                     then (state, ReasonObservationStale, False)
                     else (state, ReasonOpen, True))"

definition unavailableDecision ::
  "AdmissionController \<Rightarrow> Reason \<Rightarrow> TPSRequestDemand \<Rightarrow> ProjectedState \<Rightarrow> DecisionRecord" where
  "unavailableDecision c reason demand state =
     zeroDecisionRecord\<lparr>dr_Action := ActionProtect, dr_Reason := reason,
       dr_Scope := ProtectionAvailability, dr_Demand := demand, dr_State := state,
       dr_ObservationSequence := ac_observationSequence c,
       dr_ControllerSequence := ac_eventSequence c, dr_RuntimeEpoch := ac_runtimeEpoch c,
       dr_PolicyRevision := ac_policyRevision c\<rparr>"

definition decisionLocked ::
  "AdmissionController \<Rightarrow> policyDecision \<Rightarrow> TPSRequestDemand \<Rightarrow> ProjectedState \<Rightarrow> DecisionRecord" where
  "decisionLocked c policy demand state =
     \<lparr>dr_Action = pd_action policy, dr_Reason = pd_reason policy, dr_Scope = pd_scope policy,
      dr_Demand = demand, dr_State = state,
      dr_ProjectedRunning = pd_projectedRunning policy,
      dr_ProjectedWindowSequences = pd_projectedWindowSequences policy,
      dr_RunningLimit = ac_runningLimit c, dr_RunningLimitSource = ac_runningLimitSource c,
      dr_WindowConcurrency = ac_windowConcurrency c,
      dr_TPSDecisionResult = pd_tpsDecisionResult policy,
      dr_TPSDecisionSubreason = pd_tpsDecisionSubreason policy,
      dr_ObservationSequence = ac_observationSequence c,
      dr_ControllerSequence = ac_eventSequence c, dr_RuntimeEpoch = ac_runtimeEpoch c,
      dr_PolicyRevision = ac_policyRevision c, dr_ReservationID = 0\<rparr>"

definition controllerBounds :: "AdmissionController \<Rightarrow> admissionBounds" where
  "controllerBounds c = \<lparr>ab_windowConcurrency = ac_windowConcurrency c,
     ab_runningLimit = ac_runningLimit c, ab_waitingAllowance = ac_waitingAllowance c\<rparr>"

definition slowOverlay :: "AdmissionController \<Rightarrow> reservationOverlay option" where
  "slowOverlay c =
     foldo (\<lambda>total (_, item).
              case contribution item of None \<Rightarrow> None | Some share \<Rightarrow> addOverlay total share)
       zeroOverlay (ac_reservations c)"

definition reservationExposureCounts :: "reservation \<Rightarrow> (int \<times> int) option" where
  "reservationExposureCounts item =
     (case effectiveDemand item of
        None \<Rightarrow> None
      | Some demand \<Rightarrow>
          (case rv_phase item of
             reservationReserved \<Rightarrow> Some (0, 0)
           | reservationForwarded \<Rightarrow> Some (dm_DecodeSequences demand, 0)
           | reservationActiveDecode \<Rightarrow> Some (dm_DecodeSequences demand, 1)
           | _ \<Rightarrow> None))"

definition validBackendObservation :: "BackendObservation \<Rightarrow> bool" where
  "validBackendObservation ob \<longleftrightarrow>
     \<not> (bo_RuntimeIdentity ob = '''' \<or> IsZero (bo_ObservedAt ob) \<or> bo_MaximumAge ob \<le> 0 \<or>
        bo_Running ob < 0 \<or> bo_Waiting ob < 0) \<and>
     \<not> (flt (bo_RuntimeStartTime ob) (Fin 0) \<or> IsNaN (bo_RuntimeStartTime ob) \<or>
        IsInf (bo_RuntimeStartTime ob)) \<and>
     addNonnegativeInt64 (bo_Running ob) (bo_Waiting ob) \<noteq> None"

subsection \<open>Reconciliation with an observation\<close>

definition zeroReservation :: reservation where
  [zero_simps]: "zeroReservation = \<lparr>rv_id = 0, rv_runtimeEpoch = 0, rv_demand = zeroDemand,
     rv_coldSheddable = False, rv_phase = reservationPhaseOther 0,
     rv_pendingFirstByteReleased = False, rv_forwardedAt = zeroTime, rv_admittedSequence = 0,
     rv_forwardedSequence = 0, rv_terminalSequence = 0\<rparr>"

definition pendingFirstByteLeaseExpired ::
  "reservation \<Rightarrow> BackendObservation \<Rightarrow> gotime \<Rightarrow> duration \<Rightarrow> bool" where
  "pendingFirstByteLeaseExpired item observation reconciliationAt duration \<longleftrightarrow>
     0 < duration \<and> bo_Waiting observation = 0 \<and> \<not> IsZero (rv_forwardedAt item) \<and>
     \<not> IsZero reconciliationAt \<and> \<not> reconciliationAt < bo_ObservedAt observation \<and>
     Sub reconciliationAt (bo_ObservedAt observation) \<le> bo_MaximumAge observation \<and>
     \<not> bo_ObservedAt observation < rv_forwardedAt item \<and>
     Sub (bo_ObservedAt observation) (rv_forwardedAt item) \<ge> duration"

text \<open>The reservation after reconciliation, whether it is removed, whether it changed.\<close>

definition reconcileReservation ::
  "reservation \<Rightarrow> nat \<Rightarrow> BackendObservation \<Rightarrow> gotime \<Rightarrow> duration \<Rightarrow> reservation \<times> bool \<times> bool" where
  "reconcileReservation item watermark observation reconciliationAt lease =
     (if rv_phase item = reservationResidualDebt \<and> rv_terminalSequence item > 0 \<and>
         rv_terminalSequence item \<le> watermark
      then (zeroReservation, True, True)
      else let next = (if rv_phase item = reservationForwarded \<and> \<not> rv_pendingFirstByteReleased item \<and>
                          rv_forwardedSequence item > 0 \<and> rv_forwardedSequence item \<le> watermark \<and>
                          pendingFirstByteLeaseExpired item observation reconciliationAt lease
                       then item\<lparr>rv_pendingFirstByteReleased := True\<rparr> else item)
           in (next, False, next \<noteq> item))"

text \<open>One step of the loop of \<open>reconciledOverlayLocked\<close>.\<close>

definition reconcile_step ::
  "nat \<Rightarrow> BackendObservation \<Rightarrow> gotime \<Rightarrow> duration \<Rightarrow>
   reservationOverlay \<times> int \<Rightarrow> nat \<times> reservation \<Rightarrow> (reservationOverlay \<times> int) option" where
  "reconcile_step watermark observation reconciliationAt lease = (\<lambda>(nextOverlay, liabilities) (_, item).
     (case (if rv_forwardedSequence item > 0 \<and> rv_forwardedSequence item \<le> watermark
            then (case effectiveDemand item of
                    None \<Rightarrow> None
                  | Some demand \<Rightarrow> addNonnegativeInt64 liabilities (dm_DecodeSequences demand))
            else Some liabilities) of
        None \<Rightarrow> None
      | Some liabilities' \<Rightarrow>
         (case contribution item of
            None \<Rightarrow> None
          | Some oldContribution \<Rightarrow>
             (case reconcileReservation item watermark observation reconciliationAt lease of
                (next, remove, changed) \<Rightarrow>
                  if remove then
                    (case subtractOverlay nextOverlay oldContribution of
                       None \<Rightarrow> None | Some overlay \<Rightarrow> Some (overlay, liabilities'))
                  else if changed then
                    (case contribution next of
                       None \<Rightarrow> None
                     | Some newContribution \<Rightarrow>
                        (case replaceOverlay nextOverlay oldContribution newContribution of
                           None \<Rightarrow> None | Some overlay \<Rightarrow> Some (overlay, liabilities')))
                  else Some (nextOverlay, liabilities')))))"

definition reconciledOverlay ::
  "AdmissionController \<Rightarrow> nat \<Rightarrow> BackendObservation \<Rightarrow> gotime \<Rightarrow> (reservationOverlay \<times> int) option" where
  "reconciledOverlay c watermark observation reconciliationAt =
     foldo (reconcile_step watermark observation reconciliationAt (ac_pendingFirstByteLeaseDuration c))
       (ac_overlay c, 0) (ac_reservations c)"

text \<open>The loop of \<open>applyReconciliationLocked\<close> changes the map it iterates over.\<close>

definition apply_step ::
  "nat \<Rightarrow> BackendObservation \<Rightarrow> gotime \<Rightarrow> duration \<Rightarrow>
   (nat \<times> reservation) list \<Rightarrow> nat \<times> reservation \<Rightarrow> (nat \<times> reservation) list" where
  "apply_step watermark observation reconciliationAt lease = (\<lambda>reservations (rid, item).
     (case reconcileReservation item watermark observation reconciliationAt lease of
        (next, remove, changed) \<Rightarrow>
          if remove then AList.delete rid reservations
          else if changed then AList.update rid next reservations
          else reservations))"

definition applyReconciliation ::
  "AdmissionController \<Rightarrow> nat \<Rightarrow> BackendObservation \<Rightarrow> gotime \<Rightarrow> AdmissionController" where
  "applyReconciliation c watermark observation reconciliationAt =
     c\<lparr>ac_reservations :=
        foldl (apply_step watermark observation reconciliationAt (ac_pendingFirstByteLeaseDuration c))
          (ac_reservations c) (ac_reservations c)\<rparr>"

subsection \<open>Samples of the backend\<close>

definition StartSampleWindow ::
  "AdmissionController \<Rightarrow> gotime \<Rightarrow> AdmissionController \<times> SampleWindow option" where
  "StartSampleWindow c clk =
     (if ac_closedReason c \<noteq> ReasonEmpty then (c, None)
      else if ac_sampleSequence c = MaxUint64 then (failClosed c ReasonCounterOverflow, None)
      else case ledger_snapshot (ac_exposure c) clk of
        (ledger, None) \<Rightarrow> (failClosed (c\<lparr>ac_exposure := ledger\<rparr>) ReasonControllerUnavailable, None)
      | (ledger, Some exposure) \<Rightarrow>
          (let c1 = c\<lparr>ac_exposure := ledger, ac_sampleSequence := ac_sampleSequence c + 1\<rparr>
           in (c1, Some \<lparr>sw_controller = Some (ac_self c1), sw_runtimeEpoch = ac_runtimeEpoch c1,
                         sw_tpsPolicyEpoch = ac_tpsPolicyEpoch c1, sw_id = ac_sampleSequence c1,
                         sw_eventSequence = ac_eventSequence c1, sw_exposure = exposure\<rparr>)))"

text \<open>The interval between two observations, as a sample of the throughput window.\<close>

definition sampleOf ::
  "AdmissionController \<Rightarrow> BackendObservation \<Rightarrow> nat \<Rightarrow> int \<Rightarrow> f64 \<Rightarrow> f64 \<Rightarrow> tpsSample" where
  "sampleOf c observation generationDelta liabilities forwardedSeconds responseSeconds =
     (let previous = ob_observation (ac_observation c)
      in \<lparr>sm_start = bo_ObservedAt previous, sm_end = bo_ObservedAt observation,
          sm_maximumInterval = bo_MaximumAge observation, sm_generatedTokens = generationDelta,
          sm_previousRunning = bo_Running previous, sm_running = bo_Running observation,
          sm_forwardedSequenceLiabilities = liabilities, sm_localExposureMeasured = True,
          sm_localForwardedSequenceSeconds = forwardedSeconds,
          sm_localResponseSequenceSeconds = responseSeconds\<rparr>)"

definition publishTPS ::
  "AdmissionController \<Rightarrow> SampleWindow \<Rightarrow> tpsSample \<Rightarrow> AdmissionController \<times> Reason option" where
  "publishTPS c window sample =
     (if ac_hasObservation c \<and> sw_tpsPolicyEpoch window = ac_tpsPolicyEpoch c \<and>
         window_enabled (ac_tpsWindow c)
      then (let (tps, ok) = window_observe (ac_tpsWindow c) sample;
                c1 = c\<lparr>ac_tpsWindow := tps\<rparr>
            in if \<not> ok then (failClosed c1 ReasonCounterOverflow, Some ReasonCounterOverflow)
               else (c1, None))
      else (c, None))"

text \<open>The part of \<open>PublishObservation\<close> that reconciles with the same runtime.\<close>

definition publishSample ::
  "AdmissionController \<Rightarrow> SampleWindow \<Rightarrow> BackendObservation \<Rightarrow> nat \<Rightarrow> gotime \<Rightarrow>
   AdmissionController \<times> Reason option" where
  "publishSample c window observation generationDelta clk =
     (case snapshot_subtract (sw_exposure window) (ac_lastExposure c) of
        None \<Rightarrow> (failClosed c ReasonControllerUnavailable, Some ReasonControllerUnavailable)
      | Some exposure \<Rightarrow>
     (case snapshot_seconds exposure of
        None \<Rightarrow> (failClosed c ReasonControllerUnavailable, Some ReasonControllerUnavailable)
      | Some (forwardedSequenceSeconds, responseSequenceSeconds) \<Rightarrow>
     (case reconciledOverlay c (sw_eventSequence window) observation clk of
        None \<Rightarrow> (failClosed c ReasonControllerUnavailable, Some ReasonControllerUnavailable)
      | Some (nextOverlay, forwardedSequenceLiabilities) \<Rightarrow>
         publishTPS
           ((applyReconciliation c (sw_eventSequence window) observation clk)
              \<lparr>ac_overlay := nextOverlay, ac_lastPublishedSample := sw_id window,
               ac_lastExposure := sw_exposure window\<rparr>)
           window
           (sampleOf c observation generationDelta forwardedSequenceLiabilities
              forwardedSequenceSeconds responseSequenceSeconds))))"

text \<open>The part that follows a restart of the runtime.\<close>

definition publishReset :: "AdmissionController \<Rightarrow> AdmissionController \<times> Reason option" where
  "publishReset c =
     (if ac_runtimeEpoch c = MaxUint64 then
        (failClosed c ReasonCounterOverflow, Some ReasonCounterOverflow)
      else (c\<lparr>ac_runtimeEpoch := ac_runtimeEpoch c + 1, ac_reservations := [],
              ac_overlay := zeroOverlay, ac_sampleSequence := 0, ac_lastPublishedSample := 0,
              ac_lastExposure := zeroExposure, ac_exposure := ledger_reset (ac_exposure c),
              ac_tpsWindow := window_reset (ac_tpsWindow c)\<rparr>, None))"

definition runtimeIdentityChanged :: "AdmissionController \<Rightarrow> BackendObservation \<Rightarrow> bool" where
  "runtimeIdentityChanged c observation \<longleftrightarrow>
     ac_hasObservation c \<and> flt (Fin 0) (bo_RuntimeStartTime observation) \<and>
     flt (Fin 0) (bo_RuntimeStartTime (ob_observation (ac_observation c))) \<and>
     \<not> feq (bo_RuntimeStartTime observation) (bo_RuntimeStartTime (ob_observation (ac_observation c)))"

definition runtimeReset :: "AdmissionController \<Rightarrow> BackendObservation \<Rightarrow> bool" where
  "runtimeReset c observation \<longleftrightarrow>
     ac_hasObservation c \<and>
     (runtimeIdentityChanged c observation \<or>
      bo_GenerationTokensTotal observation < bo_GenerationTokensTotal (ob_observation (ac_observation c)) \<or>
      bo_PreemptionsTotal observation < bo_PreemptionsTotal (ob_observation (ac_observation c)))"

definition publishCommit ::
  "AdmissionController \<Rightarrow> BackendObservation \<Rightarrow> bool \<Rightarrow> nat \<Rightarrow> nat \<Rightarrow> duration \<Rightarrow> int \<Rightarrow> int \<Rightarrow>
   AdmissionController \<times> PublicationResult" where
  "publishCommit c observation reset generationDelta preemptionDelta interval
       previousRunning previousWaiting =
     (let sequence = ac_observationSequence c + 1;
          c1 = c\<lparr>ac_observationSequence := sequence,
                 ac_observation := \<lparr>ob_observation = observation, ob_sequence = sequence,
                   ob_generationDelta = generationDelta, ob_preemptionDelta = preemptionDelta,
                   ob_interval = interval, ob_previousRunning = previousRunning,
                   ob_previousWaiting = previousWaiting\<rparr>,
                 ac_hasObservation := True\<rparr>
      in (c1, \<lparr>pr_Accepted = True, pr_RuntimeReset = reset, pr_RuntimeIdentityDrift = False,
               pr_Reason = ReasonOpen, pr_ObservationSequence = sequence,
               pr_RuntimeEpoch = ac_runtimeEpoch c1\<rparr>))"

text \<open>
  The window was taken by this controller in this runtime epoch and has not been published.
\<close>

definition window_acceptable :: "AdmissionController \<Rightarrow> SampleWindow \<Rightarrow> bool" where
  "window_acceptable c window \<longleftrightarrow>
     \<not> (sw_controller window \<noteq> Some (ac_self c) \<or> sw_runtimeEpoch window \<noteq> ac_runtimeEpoch c \<or>
        sw_id window = 0 \<or> sw_id window > ac_sampleSequence c \<or>
        sw_id window \<le> ac_lastPublishedSample c)"

definition PublishObservation ::
  "AdmissionController \<Rightarrow> SampleWindow \<Rightarrow> BackendObservation \<Rightarrow> gotime \<Rightarrow>
   AdmissionController \<times> PublicationResult" where
  "PublishObservation c window observation clk =
     (let reject = (\<lambda>c reason. (c, rejectedPublication reason (ac_runtimeEpoch c)));
          previous = ob_observation (ac_observation c) in
      if ac_closedReason c \<noteq> ReasonEmpty then reject c (ac_closedReason c)
      else if \<not> window_acceptable c window \<or> \<not> validBackendObservation observation then
        reject c ReasonObservationInvalid
      else if bo_RuntimeIdentity observation \<noteq> ac_runtimeIdentity c then
        (let c1 = failClosed c ReasonRuntimeIdentityDrift
         in (c1, (rejectedPublication ReasonRuntimeIdentityDrift (ac_runtimeEpoch c1))
                   \<lparr>pr_RuntimeIdentityDrift := True\<rparr>))
      else if ac_hasObservation c \<and> bo_ObservedAt observation < bo_ObservedAt previous then
        reject c ReasonObservationInvalid
      else if ac_hasObservation c \<and> flt (Fin 0) (bo_RuntimeStartTime previous) \<and>
              feq (bo_RuntimeStartTime observation) (Fin 0) then
        reject c ReasonObservationInvalid
      else if ac_observationSequence c = MaxUint64 then
        reject (failClosed c ReasonCounterOverflow) ReasonCounterOverflow
      else
        let reset = runtimeReset c observation;
            c0 = (if ac_hasObservation c \<and> \<not> reset
                  then c\<lparr>ac_windowHistogram :=
                           histogram_observe (ac_windowHistogram c) (ov_unobservedSequences (ac_overlay c))\<rparr>
                  else c);
            known = (ac_hasObservation c \<and> \<not> reset);
            generationDelta = (if known then subu64 (bo_GenerationTokensTotal observation)
                                                    (bo_GenerationTokensTotal previous) else 0);
            preemptionDelta = (if known then subu64 (bo_PreemptionsTotal observation)
                                                    (bo_PreemptionsTotal previous) else 0);
            interval = (if known then Sub (bo_ObservedAt observation) (bo_ObservedAt previous) else 0);
            previousRunning = (if known then bo_Running previous else 0);
            previousWaiting = (if known then bo_Waiting previous else 0)
        in case (if reset then publishReset c0 else publishSample c0 window observation generationDelta clk) of
             (c1, Some reason) \<Rightarrow> reject c1 reason
           | (c1, None) \<Rightarrow> publishCommit c1 observation reset generationDelta preemptionDelta interval
                            previousRunning previousWaiting)"

text \<open>A nil controller.\<close>

definition PublishObservation_nil :: PublicationResult where
  "PublishObservation_nil = rejectedPublication ReasonControllerUnavailable 0"

subsection \<open>Admission\<close>

record AdmissionResult =
  ar_Decision :: DecisionRecord
  ar_Handle :: ReservationHandle

definition refused :: "DecisionRecord \<Rightarrow> AdmissionResult" where
  "refused decision = \<lparr>ar_Decision = decision, ar_Handle = zeroHandle\<rparr>"

definition Admit_nil :: "TPSRequestDemand \<Rightarrow> AdmissionResult" where
  "Admit_nil demand = refused (zeroDecisionRecord\<lparr>dr_Action := ActionProtect,
     dr_Reason := ReasonControllerUnavailable, dr_Scope := ProtectionAvailability, dr_Demand := demand\<rparr>)"

definition Admit ::
  "AdmissionController \<Rightarrow> gotime \<Rightarrow> TPSRequestDemand \<Rightarrow> AdmissionController \<times> AdmissionResult" where
  "Admit c now demand =
     (if \<not> demand_valid demand then
        (c, refused (zeroDecisionRecord\<lparr>dr_Action := ActionProtect, dr_Reason := ReasonInvalidRequest,
              dr_Scope := ProtectionRequest, dr_Demand := demand,
              dr_ObservationSequence := ac_observationSequence c,
              dr_ControllerSequence := ac_eventSequence c, dr_RuntimeEpoch := ac_runtimeEpoch c,
              dr_PolicyRevision := ac_policyRevision c\<rparr>))
      else case stateLocked c now of (state, reason, ok) \<Rightarrow>
      if \<not> ok then (c, refused (unavailableDecision c reason demand state))
      else
        let policy = policy_evaluateDemand (ac_policy c) state demand (controllerBounds c);
            decision = decisionLocked c policy demand state;
            unavailable = (\<lambda>c1 reason. (c1, refused (unavailableDecision c1 reason demand state)))
        in if pd_action policy \<noteq> ActionAdmit then (c, refused decision)
           else if int (length (ac_reservations c)) \<ge> ac_maximumReservations c then
             unavailable (failClosed c ReasonResourceExhausted) ReasonResourceExhausted
           else if ac_nextReservationID c = MaxUint64 then
             unavailable (failClosed c ReasonCounterOverflow) ReasonCounterOverflow
           else
             let reservationID = ac_nextReservationID c + 1;
                 item = zeroReservation\<lparr>rv_id := reservationID, rv_runtimeEpoch := ac_runtimeEpoch c,
                   rv_demand := demand, rv_coldSheddable := coldSheddable (ap_tpsGate (ac_policy c)) demand,
                   rv_phase := reservationReserved\<rparr>
             in case contribution item of
                  None \<Rightarrow> unavailable (failClosed c ReasonControllerUnavailable) ReasonControllerUnavailable
                | Some share \<Rightarrow>
                    (case addOverlay (ac_overlay c) share of
                       None \<Rightarrow> unavailable (failClosed c ReasonResourceExhausted) ReasonResourceExhausted
                     | Some nextOverlay \<Rightarrow>
                         (case nextEventSequence c of
                            (c1, None) \<Rightarrow> unavailable c1 ReasonCounterOverflow
                          | (c1, Some sequence) \<Rightarrow>
                              (c1\<lparr>ac_nextReservationID := reservationID, ac_overlay := nextOverlay,
                                  ac_reservations := AList.update reservationID
                                    (item\<lparr>rv_admittedSequence := sequence\<rparr>) (ac_reservations c1)\<rparr>,
                               \<lparr>ar_Decision = decision\<lparr>dr_ControllerSequence := sequence,
                                   dr_ReservationID := reservationID,
                                   dr_RuntimeEpoch := ac_runtimeEpoch c1\<rparr>,
                                ar_Handle = \<lparr>rh_controller = Some (ac_self c1),
                                   rh_runtimeEpoch = ac_runtimeEpoch c1, rh_id = reservationID\<rparr>\<rparr>))))"

subsection \<open>The life of a reservation\<close>

definition markForwarded ::
  "AdmissionController \<Rightarrow> nat \<Rightarrow> nat \<Rightarrow> gotime \<Rightarrow> AdmissionController \<times> bool" where
  "markForwarded c epoch rid clk =
     (if ac_closedReason c \<noteq> ReasonEmpty \<or> epoch \<noteq> ac_runtimeEpoch c then (c, False)
      else case map_of (ac_reservations c) rid of
        None \<Rightarrow> (c, False)
      | Some item \<Rightarrow>
         if rv_runtimeEpoch item \<noteq> epoch \<or> rv_phase item \<noteq> reservationReserved then (c, False)
         else case nextEventSequence c of
           (c1, None) \<Rightarrow> (c1, False)
         | (c1, Some sequence) \<Rightarrow>
            (if IsZero clk then (failClosed c1 ReasonControllerUnavailable, False)
             else case effectiveDemand item of
               None \<Rightarrow> (failClosed c1 ReasonControllerUnavailable, False)
             | Some demand \<Rightarrow>
                (case addForwarded (ac_exposure c1) clk (dm_DecodeSequences demand) of
                   (ledger, added) \<Rightarrow>
                     let c2 = c1\<lparr>ac_exposure := ledger\<rparr>
                     in if \<not> added then (failClosed c2 ReasonControllerUnavailable, False)
                        else (c2\<lparr>ac_reservations := AList.update rid
                               (item\<lparr>rv_phase := reservationForwarded, rv_forwardedAt := clk,
                                     rv_forwardedSequence := sequence\<rparr>) (ac_reservations c2)\<rparr>, True))))"

definition markFirstByte ::
  "AdmissionController \<Rightarrow> nat \<Rightarrow> nat \<Rightarrow> gotime \<Rightarrow> AdmissionController \<times> bool" where
  "markFirstByte c epoch rid clk =
     (if ac_closedReason c \<noteq> ReasonEmpty \<or> epoch \<noteq> ac_runtimeEpoch c then (c, False)
      else case map_of (ac_reservations c) rid of
        None \<Rightarrow> (c, False)
      | Some item \<Rightarrow>
         if rv_runtimeEpoch item \<noteq> epoch \<or> rv_phase item \<noteq> reservationForwarded then (c, False)
         else
           let next = item\<lparr>rv_phase := reservationActiveDecode, rv_pendingFirstByteReleased := True\<rparr>
           in case (contribution item, contribution next) of
                (Some oldContribution, Some newContribution) \<Rightarrow>
                  (case replaceOverlay (ac_overlay c) oldContribution newContribution of
                     None \<Rightarrow> (failClosed c ReasonControllerUnavailable, False)
                   | Some nextOverlay \<Rightarrow>
                      (case nextEventSequence c of
                         (c1, None) \<Rightarrow> (c1, False)
                       | (c1, Some sequence) \<Rightarrow>
                          (case addResponse (ac_exposure c1) clk 1 of
                             (ledger, added) \<Rightarrow>
                               let c2 = c1\<lparr>ac_exposure := ledger\<rparr>
                               in if \<not> added then (failClosed c2 ReasonControllerUnavailable, False)
                                  else (c2\<lparr>ac_overlay := nextOverlay,
                                          ac_reservations := AList.update rid next (ac_reservations c2)\<rparr>,
                                        True))))
              | _ \<Rightarrow> (failClosed c ReasonControllerUnavailable, False))"

definition terminate ::
  "AdmissionController \<Rightarrow> nat \<Rightarrow> nat \<Rightarrow> TerminalCause \<Rightarrow> gotime \<Rightarrow> AdmissionController \<times> bool" where
  "terminate c epoch rid cause clk =
     (if ac_closedReason c \<noteq> ReasonEmpty \<or> epoch \<noteq> ac_runtimeEpoch c \<or> \<not> TerminalCause_valid cause
      then (c, False)
      else case map_of (ac_reservations c) rid of
        None \<Rightarrow> (c, False)
      | Some item \<Rightarrow>
         if rv_runtimeEpoch item \<noteq> epoch \<or> rv_phase item = reservationResidualDebt then (c, False)
         else case contribution item of
           None \<Rightarrow> (failClosed c ReasonControllerUnavailable, False)
         | Some oldContribution \<Rightarrow>
            let remove = (rv_phase item = reservationReserved \<or>
                          (rv_phase item = reservationActiveDecode \<and> cause = TerminalSuccess));
                next = item\<lparr>rv_phase := reservationResidualDebt\<rparr>
            in case (if remove then Some zeroOverlay else contribution next) of
                 None \<Rightarrow> (failClosed c ReasonControllerUnavailable, False)
               | Some newContribution \<Rightarrow>
                 (case replaceOverlay (ac_overlay c) oldContribution newContribution of
                    None \<Rightarrow> (failClosed c ReasonControllerUnavailable, False)
                  | Some nextOverlay \<Rightarrow>
                    (case nextEventSequence c of
                       (c1, None) \<Rightarrow> (c1, False)
                     | (c1, Some sequence) \<Rightarrow>
                       (case reservationExposureCounts item of
                          None \<Rightarrow> (failClosed c1 ReasonControllerUnavailable, False)
                        | Some (forwardedExposure, responseExposure) \<Rightarrow>
                          (case (if forwardedExposure > 0
                                 then remove_exposure (ac_exposure c1) clk forwardedExposure responseExposure
                                 else (ac_exposure c1, True)) of
                             (ledger, removed) \<Rightarrow>
                               let c2 = c1\<lparr>ac_exposure := ledger\<rparr>
                               in if \<not> removed then (failClosed c2 ReasonControllerUnavailable, False)
                                  else (c2\<lparr>ac_overlay := nextOverlay,
                                          ac_reservations :=
                                            (if remove then AList.delete rid (ac_reservations c2)
                                             else AList.update rid (next\<lparr>rv_terminalSequence := sequence\<rparr>)
                                                    (ac_reservations c2))\<rparr>, True))))))"

definition handle_usable :: "ReservationHandle \<Rightarrow> bool" where
  "handle_usable h \<longleftrightarrow> rh_controller h \<noteq> None \<and> rh_runtimeEpoch h \<noteq> 0 \<and> rh_id h \<noteq> 0"

text \<open>The methods of a handle act on the controller it points to.\<close>

definition MarkForwarded :: "AdmissionController \<Rightarrow> ReservationHandle \<Rightarrow> gotime \<Rightarrow> AdmissionController \<times> bool" where
  "MarkForwarded c h clk =
     (if handle_usable h \<and> rh_controller h = Some (ac_self c)
      then markForwarded c (rh_runtimeEpoch h) (rh_id h) clk else (c, False))"

definition MarkFirstByte :: "AdmissionController \<Rightarrow> ReservationHandle \<Rightarrow> gotime \<Rightarrow> AdmissionController \<times> bool" where
  "MarkFirstByte c h clk =
     (if handle_usable h \<and> rh_controller h = Some (ac_self c)
      then markFirstByte c (rh_runtimeEpoch h) (rh_id h) clk else (c, False))"

definition Terminate ::
  "AdmissionController \<Rightarrow> ReservationHandle \<Rightarrow> TerminalCause \<Rightarrow> gotime \<Rightarrow> AdmissionController \<times> bool" where
  "Terminate c h cause clk =
     (if handle_usable h \<and> rh_controller h = Some (ac_self c) \<and> TerminalCause_valid cause
      then terminate c (rh_runtimeEpoch h) (rh_id h) cause clk else (c, False))"

definition Close :: "AdmissionController \<Rightarrow> AdmissionController" where
  "Close c = failClosed c ReasonClosed"

subsection \<open>Policy updates and snapshots\<close>

record PolicySnapshot =
  po_Revision :: nat
  po_TPSReference :: f64
  po_WindowConcurrency :: int
  po_RunningLimit :: int
  po_WaitingAllowance :: int
  po_RunningLimitSource :: RunningLimitSource
  po_UpdatedAt :: gotime

record PolicyUpdate =
  up_ExpectedRevision :: nat
  up_TPSReference :: "f64 option"
  up_WindowConcurrency :: "int option"
  up_RunningLimit :: "int option"
  up_WaitingAllowance :: "int option"
  up_UpdatedAt :: gotime

record PolicyUpdateResult =
  ur_Policy :: PolicySnapshot
  ur_PreviousPolicy :: PolicySnapshot
  ur_TPSWindowReset :: bool

datatype PolicyError = ErrPolicyInvalid | ErrPolicyRevisionConflict | ErrPolicyUnavailable

definition policySnapshot :: "AdmissionController \<Rightarrow> PolicySnapshot" where
  "policySnapshot c = \<lparr>po_Revision = ac_policyRevision c,
     po_TPSReference = tw_reference (ac_tpsWindow c),
     po_WindowConcurrency = ac_windowConcurrency c, po_RunningLimit = ac_runningLimit c,
     po_WaitingAllowance = ac_waitingAllowance c, po_RunningLimitSource = ac_runningLimitSource c,
     po_UpdatedAt = ac_policyUpdatedAt c\<rparr>"

definition validPolicyUpdate :: "PolicyUpdate \<Rightarrow> bool" where
  "validPolicyUpdate u \<longleftrightarrow>
     \<not> (up_ExpectedRevision u = 0 \<or> IsZero (up_UpdatedAt u) \<or>
        (up_TPSReference u = None \<and> up_WindowConcurrency u = None \<and> up_RunningLimit u = None \<and>
         up_WaitingAllowance u = None)) \<and>
     (case up_TPSReference u of None \<Rightarrow> True
      | Some r \<Rightarrow> finiteNonnegative r \<and> \<not> flt (Fin 1000000) r) \<and>
     (case up_WindowConcurrency u of None \<Rightarrow> True
      | Some n \<Rightarrow> \<not> n \<le> 0 \<and> \<not> n > maximumTPSReservations) \<and>
     (case up_RunningLimit u of None \<Rightarrow> True
      | Some n \<Rightarrow> \<not> (n < 0 \<or> n > maximumTPSReservations)) \<and>
     (case up_WaitingAllowance u of None \<Rightarrow> True
      | Some n \<Rightarrow> 0 \<le> n \<and> n \<le> maximumTPSReservations)"

definition override :: "'a \<Rightarrow> 'a option \<Rightarrow> 'a" where
  "override current update = (case update of None \<Rightarrow> current | Some v \<Rightarrow> v)"

definition UpdatePolicy ::
  "AdmissionController \<Rightarrow> PolicyUpdate \<Rightarrow> AdmissionController \<times> PolicyUpdateResult \<times> PolicyError option" where
  "UpdatePolicy c update =
     (let current = policySnapshot c;
          result = \<lparr>ur_Policy = current, ur_PreviousPolicy = current, ur_TPSWindowReset = False\<rparr>
      in if \<not> validPolicyUpdate update then (c, result, Some ErrPolicyInvalid)
         else if ac_closedReason c \<noteq> ReasonEmpty \<or> ac_policyRevision c = MaxUint64 then
           (c, result, Some ErrPolicyUnavailable)
         else if up_ExpectedRevision update \<noteq> ac_policyRevision c then
           (c, result, Some ErrPolicyRevisionConflict)
         else
           let next = current\<lparr>
                 po_TPSReference := override (po_TPSReference current) (up_TPSReference update),
                 po_WindowConcurrency := override (po_WindowConcurrency current) (up_WindowConcurrency update),
                 po_RunningLimit := override (po_RunningLimit current) (up_RunningLimit update),
                 po_RunningLimitSource := (if up_RunningLimit update \<noteq> None then RunningLimitSourceAdmin
                                           else po_RunningLimitSource current),
                 po_WaitingAllowance := override (po_WaitingAllowance current) (up_WaitingAllowance update)\<rparr>;
               reset = (\<not> feq (po_TPSReference next) (po_TPSReference current));
               c1 = c\<lparr>ac_policyRevision := ac_policyRevision c + 1,
                      ac_policyUpdatedAt := up_UpdatedAt update,
                      ac_windowConcurrency := po_WindowConcurrency next,
                      ac_runningLimit := po_RunningLimit next,
                      ac_waitingAllowance := po_WaitingAllowance next,
                      ac_runningLimitSource := po_RunningLimitSource next\<rparr>;
               c2 = (if reset
                     then c1\<lparr>ac_tpsPolicyEpoch := wrapu64 (ac_tpsPolicyEpoch c1 + 1),
                             ac_tpsWindow := (newTPSWindow (po_TPSReference next))
                               \<lparr>tw_denominator := tw_denominator (ac_tpsWindow c1)\<rparr>\<rparr>
                     else c1)
           in (c2, \<lparr>ur_Policy = policySnapshot c2, ur_PreviousPolicy = current,
                    ur_TPSWindowReset = reset\<rparr>, None))"

record CapacitySnapshot =
  cs_IntakeOpen :: bool
  cs_HasObservation :: bool
  cs_Available :: bool
  cs_MinimumDecision :: DecisionRecord
  cs_State :: ProjectedState
  cs_Observation :: BackendObservation
  cs_ObservationSequence :: nat
  cs_ControllerSequence :: nat
  cs_RuntimeEpoch :: nat
  cs_Policy :: PolicySnapshot
  cs_WindowConcurrencyHistogram :: WindowConcurrencyHistogramSnapshot

definition minimumDemand :: TPSRequestDemand where
  "minimumDemand = zeroDemand\<lparr>dm_DecodeSequences := 1, dm_Source := TPSDemandSourceFallback,
     dm_Tier := TierFlex\<rparr>"

definition Snapshot :: "AdmissionController \<Rightarrow> gotime \<Rightarrow> CapacitySnapshot" where
  "Snapshot c now =
     (case stateLocked c now of (state, reason, ok) \<Rightarrow>
        let decision = (if \<not> ok then unavailableDecision c reason zeroDemand state
                        else decisionLocked c
                               (policy_evaluateDemand (ac_policy c) state minimumDemand (controllerBounds c))
                               minimumDemand state)
        in \<lparr>cs_IntakeOpen = (ok \<or> ac_closedReason c = ReasonEmpty),
            cs_HasObservation = (ok \<or> ac_hasObservation c),
            cs_Available = (ok \<and> Admitted decision), cs_MinimumDecision = decision,
            cs_State = state, cs_Observation = ob_observation (ac_observation c),
            cs_ObservationSequence = ac_observationSequence c,
            cs_ControllerSequence = ac_eventSequence c, cs_RuntimeEpoch = ac_runtimeEpoch c,
            cs_Policy = policySnapshot c,
            cs_WindowConcurrencyHistogram = histogram_snapshot (ac_windowHistogram c)\<rparr>)"

end
