(* ===== verification/Controller_Inv.thy ===== *)
theory Controller_Inv
  imports Controller
begin

text \<open>
  The invariant of the admission controller and its preservation by every operation. The
  invariant has a part that survives \<open>failClosed\<close> (counters, policy, window, observation) and
  a part about the reservations: the overlay is the total of their contributions, and the
  ledger counts exactly the sequences that are forwarded and that respond.
\<close>

subsection \<open>Exposure of a reservation\<close>

definition forwardedOf :: "reservation \<Rightarrow> int" where
  "forwardedOf r =
     (if rv_phase r \<in> {reservationForwarded, reservationActiveDecode}
      then dm_DecodeSequences (rv_demand r) else 0)"

definition responseOf :: "reservation \<Rightarrow> int" where
  "responseOf r = (if rv_phase r = reservationActiveDecode then 1 else 0)"

definition sumOf :: "(reservation \<Rightarrow> int) \<Rightarrow> (nat \<times> reservation) list \<Rightarrow> int" where
  "sumOf f rs = sum_list (map (\<lambda>(_, r). f r) rs)"

lemma sumOf_simps [simp]:
  "sumOf f [] = 0" "sumOf f ((k, r) # rs) = f r + sumOf f rs"
  "sumOf f (rs @ ss) = sumOf f rs + sumOf f ss"
  by (simp_all add: sumOf_def)

lemma sumOf_mono: "\<forall>(k, r)\<in>set rs. f r \<le> g r \<Longrightarrow> sumOf f rs \<le> sumOf g rs"
  by (induction rs) (auto simp: sumOf_def)

lemma sumOf_nonneg: "\<forall>(k, r)\<in>set rs. 0 \<le> f r \<Longrightarrow> 0 \<le> sumOf f rs"
  by (induction rs) (auto simp: sumOf_def)

lemma sumOf_decode: "sumOf (\<lambda>r. dm_DecodeSequences (rv_demand r)) rs = decodeSum (map snd rs)"
  by (induction rs) (auto simp: decodeSum_def)

subsection \<open>The invariant\<close>

text \<open>A reservation in the map: its key, epoch and demand, and the sequence numbers of its phase.\<close>

definition res_ok :: "nat \<Rightarrow> nat \<Rightarrow> nat \<Rightarrow> nat \<Rightarrow> reservation \<Rightarrow> bool" where
  "res_ok epoch events lastID k r \<longleftrightarrow>
     rv_id r = k \<and> 1 \<le> k \<and> k \<le> lastID \<and> rv_runtimeEpoch r = epoch \<and> demand_valid (rv_demand r) \<and>
     rv_admittedSequence r \<le> events \<and> rv_forwardedSequence r \<le> events \<and> rv_terminalSequence r \<le> events \<and>
     (case rv_phase r of
        reservationReserved \<Rightarrow> \<not> rv_pendingFirstByteReleased r \<and> rv_forwardedSequence r = 0 \<and>
          rv_terminalSequence r = 0
      | reservationForwarded \<Rightarrow> 0 < rv_forwardedSequence r \<and> rv_terminalSequence r = 0 \<and>
          \<not> IsZero (rv_forwardedAt r)
      | reservationActiveDecode \<Rightarrow> rv_pendingFirstByteReleased r \<and> 0 < rv_forwardedSequence r \<and>
          rv_terminalSequence r = 0
      | reservationResidualDebt \<Rightarrow> 0 < rv_terminalSequence r
      | reservationPhaseOther _ \<Rightarrow> False)"

definition observed_ok :: "observedState \<Rightarrow> bool" where
  "observed_ok ob \<longleftrightarrow> validBackendObservation (ob_observation ob) \<and> 0 \<le> ob_interval ob \<and>
     0 \<le> ob_previousRunning ob \<and> 0 \<le> ob_previousWaiting ob"

definition inv_core :: "AdmissionController \<Rightarrow> bool" where
  "inv_core c \<longleftrightarrow>
     1 \<le> ac_runtimeEpoch c \<and> ac_runtimeEpoch c \<le> MaxUint64 \<and> ac_eventSequence c \<le> MaxUint64 \<and>
     ac_sampleSequence c \<le> MaxUint64 \<and> ac_lastPublishedSample c \<le> ac_sampleSequence c \<and>
     ac_observationSequence c \<le> MaxUint64 \<and> ac_nextReservationID c \<le> MaxUint64 \<and>
     1 \<le> ac_policyRevision c \<and> ac_policyRevision c \<le> MaxUint64 \<and>
     0 < ac_windowConcurrency c \<and> ac_windowConcurrency c \<le> maximumTPSReservations \<and>
     0 \<le> ac_runningLimit c \<and> ac_runningLimit c \<le> maximumTPSReservations \<and>
     0 \<le> ac_waitingAllowance c \<and> ac_maximumReservations c = maximumTPSReservations \<and>
     (if ac_hasObservation c
      then observed_ok (ac_observation c) \<and>
           window_ok (bo_ObservedAt (ob_observation (ac_observation c))) (ac_tpsWindow c)
      else \<forall>e. window_ok e (ac_tpsWindow c))"

definition inv_res :: "AdmissionController \<Rightarrow> bool" where
  "inv_res c \<longleftrightarrow>
     distinct (keys (ac_reservations c)) \<and>
     (\<forall>(k, r)\<in>set (ac_reservations c).
        res_ok (ac_runtimeEpoch c) (ac_eventSequence c) (ac_nextReservationID c) k r) \<and>
     acct.total (map snd (ac_reservations c)) = Some (ac_overlay c) \<and>
     ledger_valid (ac_exposure c) \<and>
     el_activeForwarded (ac_exposure c) = sumOf forwardedOf (ac_reservations c) \<and>
     el_activeResponse (ac_exposure c) = sumOf responseOf (ac_reservations c) \<and>
     snapshot_valid (ac_lastExposure c) \<and>
     int (length (ac_reservations c)) \<le> maximumTPSReservations \<and>
     (ac_closedReason c \<noteq> ReasonEmpty \<longrightarrow> ac_reservations c = [])"

definition controller_inv :: "AdmissionController \<Rightarrow> bool" where
  "controller_inv c \<longleftrightarrow> inv_core c \<and> inv_res c"

lemma inv_resD:
  assumes "inv_res c"
  shows "distinct (keys (ac_reservations c))"
    and "\<forall>(k, r)\<in>set (ac_reservations c).
        res_ok (ac_runtimeEpoch c) (ac_eventSequence c) (ac_nextReservationID c) k r"
    and "acct.total (map snd (ac_reservations c)) = Some (ac_overlay c)"
    and "ledger_valid (ac_exposure c)"
    and "el_activeForwarded (ac_exposure c) = sumOf forwardedOf (ac_reservations c)"
    and "el_activeResponse (ac_exposure c) = sumOf responseOf (ac_reservations c)"
    and "snapshot_valid (ac_lastExposure c)"
    and "int (length (ac_reservations c)) \<le> maximumTPSReservations"
    and "ac_closedReason c \<noteq> ReasonEmpty \<Longrightarrow> ac_reservations c = []"
  using assms unfolding inv_res_def by blast+

lemma inv_resI:
  assumes "distinct (keys (ac_reservations c))"
    and "\<forall>(k, r)\<in>set (ac_reservations c).
        res_ok (ac_runtimeEpoch c) (ac_eventSequence c) (ac_nextReservationID c) k r"
    and "acct.total (map snd (ac_reservations c)) = Some (ac_overlay c)"
    and "ledger_valid (ac_exposure c)"
    and "el_activeForwarded (ac_exposure c) = sumOf forwardedOf (ac_reservations c)"
    and "el_activeResponse (ac_exposure c) = sumOf responseOf (ac_reservations c)"
    and "snapshot_valid (ac_lastExposure c)"
    and "int (length (ac_reservations c)) \<le> maximumTPSReservations"
    and "ac_closedReason c = ReasonEmpty"
  shows "inv_res c"
  using assms unfolding inv_res_def by blast

lemma controller_invI: "inv_core c \<Longrightarrow> inv_res c \<Longrightarrow> controller_inv c"
  by (simp add: controller_inv_def)

lemma total_overlay_zero [simp]: "acct.total [] = Some zeroOverlay"
  by (simp add: acct.total_def)

lemma zeroExposure_valid [simp]: "snapshot_valid zeroExposure"
  by (simp add: snapshot_valid_iff zeroExposure_def)

lemma zeroLedger_active [simp]: "el_activeForwarded zeroLedger = 0" "el_activeResponse zeroLedger = 0"
  by (simp_all add: zeroLedger_def)

text \<open>Failing closed empties the second part and keeps the first.\<close>

lemma failClosed_inv_res:
  assumes "inv_core c" "ac_closedReason c = ReasonEmpty"
  shows "inv_res (failClosed c r)"
  using assms by (simp add: failClosed_def inv_res_def ledger_reset_def)

lemma failClosed_inv_core: "inv_core c \<Longrightarrow> inv_core (failClosed c r)"
  by (auto simp: failClosed_def inv_core_def window_reset_ok)

lemma failClosed_inv:
  "inv_core c \<Longrightarrow> ac_closedReason c = ReasonEmpty \<Longrightarrow> controller_inv (failClosed c r)"
  by (simp add: controller_inv_def failClosed_inv_res failClosed_inv_core)

lemma failClosed_again: "ac_closedReason c \<noteq> ReasonEmpty \<Longrightarrow> failClosed c r = c"
  by (simp add: failClosed_def)

lemma Close_inv: "controller_inv c \<Longrightarrow> controller_inv (Close c)"
  using failClosed_inv failClosed_again by (metis Close_def controller_inv_def)

lemma failClosed_closed: "r \<noteq> ReasonEmpty \<Longrightarrow> ac_closedReason (failClosed c r) \<noteq> ReasonEmpty"
  by (simp add: failClosed_def)

subsection \<open>Consequences of the invariant\<close>

lemma slowOverlay_total: "slowOverlay c = acct.total (map snd (ac_reservations c))"
proof -
  have "foldo (\<lambda>t (_, item). case contribution item of None \<Rightarrow> None | Some s \<Rightarrow> addOverlay t s) t rs =
      foldo acct.addContrib t (map snd rs)" for t and rs :: "(nat \<times> reservation) list"
    by (induction rs arbitrary: t) (auto simp: acct.addContrib_def split: option.splits)
  then show ?thesis by (simp add: slowOverlay_def acct.total_def)
qed

lemma overlay_fits_total:
  assumes "acct.total rs = Some t"
  shows "overlay_valid t \<and> overlay_fits t"
proof (cases rs)
  case Nil
  with assms have "t = zeroOverlay" by simp
  then show ?thesis by (simp add: overlay_fits_def) (simp add: zeroOverlay_def)
next
  case (Cons r rs')
  with assms obtain u c where "acct.total rs' = Some u" "contribution r = Some c" "addOverlay u c = Some t"
    by (auto simp: acct.total_Cons acct.addContrib_def bind_eq_Some_conv)
  then show ?thesis
    using overlay_add_facts acct.total_valid acct.contrib_valid assms by blast
qed

lemma res_ok_contribution:
  assumes "res_ok e s n k r" "1 \<le> e"
  shows "\<exists>c. contribution r = Some c"
  using assms by (intro contribution_total) (auto simp: res_ok_def split: reservationPhase.splits)

lemma res_ok_bounds:
  "res_ok e s n k r \<Longrightarrow> 0 \<le> responseOf r \<and> responseOf r \<le> forwardedOf r \<and>
     forwardedOf r \<le> dm_DecodeSequences (rv_demand r) \<and> 1 \<le> dm_DecodeSequences (rv_demand r)"
  by (auto simp: res_ok_def responseOf_def forwardedOf_def dest: demand_valid_seqs)

lemma inv_forwarded_bound:
  assumes "inv_res c"
  shows "el_activeForwarded (ac_exposure c) \<le> ov_sequenceLiabilities (ac_overlay c)"
    and "ov_sequenceLiabilities (ac_overlay c) = sumOf (\<lambda>r. dm_DecodeSequences (rv_demand r)) (ac_reservations c)"
    and "ov_sequenceLiabilities (ac_overlay c) \<le> MaxInt64"
    and "ledger_bounded (ac_exposure c)"
proof -
  have t: "acct.total (map snd (ac_reservations c)) = Some (ac_overlay c)"
    using assms by (simp add: inv_res_def)
  show eq: "ov_sequenceLiabilities (ac_overlay c) = sumOf (\<lambda>r. dm_DecodeSequences (rv_demand r)) (ac_reservations c)"
    using total_facts [OF t] by (simp add: sumOf_decode)
  show fits: "ov_sequenceLiabilities (ac_overlay c) \<le> MaxInt64"
    using overlay_fits_total [OF t] by (simp add: overlay_fits_def)
  have "sumOf forwardedOf (ac_reservations c) \<le> sumOf (\<lambda>r. dm_DecodeSequences (rv_demand r)) (ac_reservations c)"
    using assms by (intro sumOf_mono) (auto simp: inv_res_def dest!: bspec res_ok_bounds)
  then show le: "el_activeForwarded (ac_exposure c) \<le> ov_sequenceLiabilities (ac_overlay c)"
    using assms eq by (simp add: inv_res_def)
  show "ledger_bounded (ac_exposure c)" using le fits by (simp add: ledger_bounded_def)
qed

subsection \<open>Construction, admission and the life of a reservation\<close>

lemma finite_reference_window: "finiteNonnegative r \<Longrightarrow> window_ok e ((newTPSWindow r)\<lparr>tw_denominator := d\<rparr>)"
  by (rule denominator_update_ok) (rule newTPSWindow_ok)

lemma New_inv:
  assumes "NewAdmissionController a cfg = Inr c"
  shows "controller_inv c"
proof -
  have "inv_core c"
    using assms by (auto simp: NewAdmissionController_def Let_def inv_core_def newTPSWindow_ok split: if_splits)
  moreover have "inv_res c"
    using assms by (auto simp: NewAdmissionController_def Let_def inv_res_def split: if_splits)
  ultimately show ?thesis by (rule controller_invI)
qed

lemma nextEventSequence_cases:
  obtains "ac_eventSequence c = MaxUint64" "nextEventSequence c = (failClosed c ReasonCounterOverflow, None)"
  | "ac_eventSequence c \<noteq> MaxUint64"
    "nextEventSequence c = (c\<lparr>ac_eventSequence := ac_eventSequence c + 1\<rparr>, Some (ac_eventSequence c + 1))"
  by (cases "ac_eventSequence c = MaxUint64") (simp_all add: nextEventSequence_def)

lemma res_ok_mono:
  "res_ok e s n k r \<Longrightarrow> s \<le> s' \<Longrightarrow> n \<le> n' \<Longrightarrow> res_ok e s' n' k r"
  by (auto simp: res_ok_def)

lemma inv_core_event:
  "inv_core c \<Longrightarrow> ac_eventSequence c \<noteq> MaxUint64 \<Longrightarrow> inv_core (c\<lparr>ac_eventSequence := ac_eventSequence c + 1\<rparr>)"
  by (simp add: inv_core_def)

text \<open>
  The parts of a controller the core invariant reads; a step that keeps them keeps it.
\<close>

lemma inv_core_frame:
  assumes "inv_core c" "ac_runtimeEpoch c' = ac_runtimeEpoch c" "ac_eventSequence c' \<le> MaxUint64"
    "ac_sampleSequence c' \<le> MaxUint64" "ac_lastPublishedSample c' \<le> ac_sampleSequence c'"
    "ac_observationSequence c' = ac_observationSequence c" "ac_nextReservationID c' \<le> MaxUint64"
    "ac_policyRevision c' = ac_policyRevision c" "ac_windowConcurrency c' = ac_windowConcurrency c"
    "ac_runningLimit c' = ac_runningLimit c" "ac_waitingAllowance c' = ac_waitingAllowance c"
    "ac_maximumReservations c' = ac_maximumReservations c" "ac_hasObservation c' = ac_hasObservation c"
    "ac_observation c' = ac_observation c" "ac_tpsWindow c' = ac_tpsWindow c"
  shows "inv_core c'"
  using assms by (simp add: inv_core_def)

lemma stateLocked_closed: "snd (snd (stateLocked c now)) \<Longrightarrow> ac_closedReason c = ReasonEmpty \<and> ac_hasObservation c"
  by (auto simp: stateLocked_def split: if_splits)

lemma res_ok_all_mono:
  assumes "\<forall>(k, r)\<in>set rs. res_ok e s n k r" "s \<le> s'" "n \<le> n'"
  shows "\<forall>(k, r)\<in>set rs. res_ok e s' n' k r"
  using assms res_ok_mono by fastforce

text \<open>The three changes of the map: a new key, a new value, a key less.\<close>

lemma inv_res_insert:
  assumes "inv_res c" "ac_closedReason c' = ReasonEmpty" "i \<notin> set (keys (ac_reservations c))"
    and "ac_reservations c' = ac_reservations c @ [(i, r)]"
    and "res_ok (ac_runtimeEpoch c) (ac_eventSequence c') (ac_nextReservationID c') i r"
    and "contribution r = Some a" "addOverlay (ac_overlay c) a = Some (ac_overlay c')"
    and "forwardedOf r = 0" "responseOf r = 0"
    and "ac_runtimeEpoch c' = ac_runtimeEpoch c" "ac_eventSequence c \<le> ac_eventSequence c'"
    and "ac_nextReservationID c \<le> ac_nextReservationID c'" "ac_exposure c' = ac_exposure c"
    and "ac_lastExposure c' = ac_lastExposure c"
    and "int (length (ac_reservations c)) < maximumTPSReservations"
  shows "inv_res c'"
proof -
  have "acct.total (map snd (ac_reservations c) @ [r]) = Some (ac_overlay c')"
    using acct.total_insert [OF inv_resD(3) [OF assms(1)] assms(6)] assms(7) by simp
  moreover have "\<forall>(k, r)\<in>set (ac_reservations c).
      res_ok (ac_runtimeEpoch c) (ac_eventSequence c') (ac_nextReservationID c') k r"
    by (rule res_ok_all_mono [OF inv_resD(2) [OF assms(1)] assms(11,12)])
  ultimately show ?thesis
    using inv_resD(1,4-7) [OF assms(1)] assms(3,5,8,9,15)
    by (intro inv_resI) (simp_all add: assms(2,4,10,13,14))
qed

lemma inv_res_replace:
  assumes "inv_res c" "ac_closedReason c' = ReasonEmpty" "map_of (ac_reservations c) i = Some r"
    and "ac_reservations c' = AList.update i r' (ac_reservations c)"
    and "res_ok (ac_runtimeEpoch c) (ac_eventSequence c') (ac_nextReservationID c') i r'"
    and "contribution r = Some a" "contribution r' = Some b"
    and "a = b \<and> ac_overlay c' = ac_overlay c \<or> replaceOverlay (ac_overlay c) a b = Some (ac_overlay c')"
    and "ledger_valid (ac_exposure c')"
    and "el_activeForwarded (ac_exposure c') = el_activeForwarded (ac_exposure c) + forwardedOf r' - forwardedOf r"
    and "el_activeResponse (ac_exposure c') = el_activeResponse (ac_exposure c) + responseOf r' - responseOf r"
    and "ac_runtimeEpoch c' = ac_runtimeEpoch c" "ac_eventSequence c \<le> ac_eventSequence c'"
    and "ac_nextReservationID c \<le> ac_nextReservationID c'" "snapshot_valid (ac_lastExposure c')"
  shows "inv_res c'"
proof -
  note d = inv_resD [OF assms(1)]
  from d(1) obtain ys zs where rs: "ac_reservations c = ys @ (i, r) # zs"
    "i \<notin> set (keys ys)" "i \<notin> set (keys zs)" using split_at_key [OF assms(3)] by blast
  then have rs': "ac_reservations c' = ys @ (i, r') # zs" by (simp add: assms(4) update_at_key)
  have t: "acct.total (map snd ys @ r # map snd zs) = Some (ac_overlay c)"
    using d(3) rs(1) by simp
  have "acct.total (map snd ys @ r' # map snd zs) = Some (ac_overlay c')"
    using assms(8)
  proof
    assume "a = b \<and> ac_overlay c' = ac_overlay c"
    then show ?thesis using t assms(6,7) by (simp add: acct.total_at acct.addContrib_def)
  next
    assume "replaceOverlay (ac_overlay c) a b = Some (ac_overlay c')"
    then show ?thesis
      using acct.total_replace [OF t assms(6,7)]
      by (auto simp: replaceOverlay_def split: option.splits)
  qed
  moreover have "\<forall>(k, r)\<in>set (ac_reservations c).
      res_ok (ac_runtimeEpoch c) (ac_eventSequence c') (ac_nextReservationID c') k r"
    by (rule res_ok_all_mono [OF d(2) assms(13,14)])
  ultimately show ?thesis
    using d(1,4-8) assms(2,5,9,15)
    by (intro inv_resI) (simp_all add: rs rs' assms(10-12))
qed

lemma inv_res_remove:
  assumes "inv_res c" "ac_closedReason c' = ReasonEmpty" "map_of (ac_reservations c) i = Some r"
    and "ac_reservations c' = AList.delete i (ac_reservations c)"
    and "contribution r = Some a" "subtractOverlay (ac_overlay c) a = Some (ac_overlay c')"
    and "ledger_valid (ac_exposure c')"
    and "el_activeForwarded (ac_exposure c') = el_activeForwarded (ac_exposure c) - forwardedOf r"
    and "el_activeResponse (ac_exposure c') = el_activeResponse (ac_exposure c) - responseOf r"
    and "ac_runtimeEpoch c' = ac_runtimeEpoch c" "ac_eventSequence c \<le> ac_eventSequence c'"
    and "ac_nextReservationID c \<le> ac_nextReservationID c'" "snapshot_valid (ac_lastExposure c')"
  shows "inv_res c'"
proof -
  note d = inv_resD [OF assms(1)]
  from d(1) obtain ys zs where rs: "ac_reservations c = ys @ (i, r) # zs"
    "i \<notin> set (keys ys)" "i \<notin> set (keys zs)" using split_at_key [OF assms(3)] by blast
  then have rs': "ac_reservations c' = ys @ zs" by (simp add: assms(4) delete_at_key)
  have t: "acct.total (map snd ys @ r # map snd zs) = Some (ac_overlay c)"
    using d(3) rs(1) by simp
  have "acct.total (map snd ys @ map snd zs) = Some (ac_overlay c')"
    using acct.total_remove [OF t assms(5)] assms(6) by auto
  moreover have "\<forall>(k, r)\<in>set (ac_reservations c).
      res_ok (ac_runtimeEpoch c) (ac_eventSequence c') (ac_nextReservationID c') k r"
    by (rule res_ok_all_mono [OF d(2) assms(11,12)])
  ultimately show ?thesis
    using d(1,4-8) assms(2,7,13)
    by (intro inv_resI) (simp_all add: rs rs' assms(8-10))
qed

text \<open>A contribution does not depend on the sequence numbers.\<close>

lemma contribution_cong:
  assumes "rv_id r = rv_id s" "rv_runtimeEpoch r = rv_runtimeEpoch s" "rv_demand r = rv_demand s"
    "rv_coldSheddable r = rv_coldSheddable s" "rv_phase r = rv_phase s"
    "rv_pendingFirstByteReleased r = rv_pendingFirstByteReleased s"
  shows "contribution r = contribution s"
  unfolding contribution_def by (simp only: assms)

text \<open>A new key is larger than every key in the map.\<close>

lemma inv_fresh_id:
  assumes "inv_res c" "ac_nextReservationID c < i"
  shows "i \<notin> set (keys (ac_reservations c))"
  using assms by (force simp: inv_res_def res_ok_def)

lemma Admit_inv:
  assumes "controller_inv c"
  shows "controller_inv (fst (Admit c now d))"
proof (cases "demand_valid d \<and> snd (snd (stateLocked c now))")
  case False
  then show ?thesis using assms by (auto simp: Admit_def split: prod.splits)
next
  case True
  obtain state reason where st: "stateLocked c now = (state, reason, True)"
    using True by (metis prod.collapse)
  have open_: "ac_closedReason c = ReasonEmpty" using stateLocked_closed True by blast
  have core: "inv_core c" and res: "inv_res c" using assms by (simp_all add: controller_inv_def)
  have fc: "controller_inv (failClosed c r)" for r using failClosed_inv [OF core open_] .
  let ?i = "ac_nextReservationID c + 1"
  let ?item = "zeroReservation\<lparr>rv_id := ?i, rv_runtimeEpoch := ac_runtimeEpoch c, rv_demand := d,
     rv_coldSheddable := coldSheddable (ap_tpsGate (ac_policy c)) d, rv_phase := reservationReserved\<rparr>"
  let ?p = "policy_evaluateDemand (ac_policy c) state d (controllerBounds c)"
  let ?go = "pd_action ?p = ActionAdmit \<and> int (length (ac_reservations c)) < ac_maximumReservations c \<and>
     ac_nextReservationID c \<noteq> MaxUint64"
  show ?thesis
  proof (cases ?go)
    case False
    then show ?thesis using True st fc assms by (auto simp: Admit_def Let_def)
  next
    case go: True
    show ?thesis
    proof (cases "contribution ?item")
      case None
      then show ?thesis using True st fc go by (simp add: Admit_def Let_def)
    next
      case share: (Some share)
      show ?thesis
      proof (cases "addOverlay (ac_overlay c) share")
        case None
        then show ?thesis using True st fc go share by (simp add: Admit_def Let_def)
      next
        case ov: (Some nextOverlay)
        show ?thesis
        proof (cases rule: nextEventSequence_cases [of c])
          case 1
          then show ?thesis using True st fc go share ov by (simp add: Admit_def Let_def)
        next
          case 2
          let ?seq = "ac_eventSequence c + 1"
          let ?c' = "c\<lparr>ac_eventSequence := ?seq, ac_nextReservationID := ?i, ac_overlay := nextOverlay,
             ac_reservations := AList.update ?i (?item\<lparr>rv_admittedSequence := ?seq\<rparr>) (ac_reservations c)\<rparr>"
          have eq: "fst (Admit c now d) = ?c'"
            using True st go share ov 2 by (simp add: Admit_def Let_def)
          have new: "?i \<notin> set (keys (ac_reservations c))" using inv_fresh_id [OF res] by simp
          then have upd: "AList.update (Suc (ac_nextReservationID c)) v (ac_reservations c) =
              ac_reservations c @ [(Suc (ac_nextReservationID c), v)]" for v
            by (simp add: update_absent)
          have core': "inv_core ?c'" using core go 2 by (simp add: inv_core_def)
          have cs: "contribution (?item\<lparr>rv_admittedSequence := ?seq\<rparr>) = Some share"
            unfolding share [symmetric] by (rule contribution_cong) simp_all
          have ok: "res_ok (ac_runtimeEpoch c) ?seq ?i ?i (?item\<lparr>rv_admittedSequence := ?seq\<rparr>)"
            using True by (simp add: res_ok_def zeroReservation_def)
          have "inv_res ?c'"
            by (rule inv_res_insert [OF res _ new _ _ cs])
               (use ok ov open_ go core in \<open>simp_all add: upd forwardedOf_def responseOf_def inv_core_def\<close>)
          with core' eq show ?thesis by (simp add: controller_inv_def)
        qed
      qed
    qed
  qed
qed

end
