(* ===== verification/Controller_Life.thy ===== *)
theory Controller_Life
  imports Controller_Inv
begin

text \<open>
  The life of a reservation: \<open>markForwarded\<close>, \<open>markFirstByte\<close> and \<open>terminate\<close>. Each has an
  elimination rule that lists its outcomes (nothing, failed closed, one step) and keeps the
  invariant of the controller.
\<close>

lemma inv_item:
  assumes "inv_res c" "map_of (ac_reservations c) i = Some r"
  shows "res_ok (ac_runtimeEpoch c) (ac_eventSequence c) (ac_nextReservationID c) i r"
  using inv_resD(2) [OF assms(1)] map_of_SomeD [OF assms(2)] by blast

text \<open>The contribution of a well-formed reservation, phase by phase.\<close>

definition phaseShare :: "reservation \<Rightarrow> reservationOverlay" where
  "phaseShare r =
     \<lparr>ov_unobservedSequences =
        (if rv_phase r \<in> {reservationReserved, reservationForwarded} \<and> \<not> rv_pendingFirstByteReleased r
         then dm_DecodeSequences (rv_demand r) else 0),
      ov_sequenceLiabilities = dm_DecodeSequences (rv_demand r),
      ov_liveReservations = (if rv_phase r = reservationResidualDebt then 0 else 1),
      ov_residualDebts = (if rv_phase r = reservationResidualDebt then 1 else 0),
      ov_coldSheddablePending =
        (if rv_phase r \<in> {reservationReserved, reservationForwarded} \<and> rv_coldSheddable r then 1 else 0)\<rparr>"

lemma contribution_eq:
  assumes "rv_id r \<noteq> 0" "rv_runtimeEpoch r \<noteq> 0" "demand_valid (rv_demand r)"
  shows "contribution r =
     (case rv_phase r of
        reservationActiveDecode \<Rightarrow> if rv_pendingFirstByteReleased r then Some (phaseShare r) else None
      | reservationPhaseOther _ \<Rightarrow> None
      | _ \<Rightarrow> Some (phaseShare r))"
  using assms demand_valid_seqs [OF assms(3)]
  by (cases "rv_phase r") (simp_all add: contribution_def Let_def phaseShare_def zeroOverlay_def overlay_valid_def)

lemma res_ok_share:
  assumes "res_ok e s n k r" "1 \<le> e"
  shows "contribution r = Some (phaseShare r)"
proof -
  have "rv_id r \<noteq> 0" "rv_runtimeEpoch r \<noteq> 0" "demand_valid (rv_demand r)"
    using assms by (auto simp: res_ok_def)
  from contribution_eq [OF this] assms show ?thesis
    by (auto simp: res_ok_def split: reservationPhase.splits)
qed

text \<open>Failing closed from a state that differs in the event sequence and the ledger only.\<close>

lemma failClosed_from:
  assumes "controller_inv c" "ac_closedReason c = ReasonEmpty" "ac_eventSequence c \<noteq> MaxUint64"
  shows "controller_inv (failClosed (c\<lparr>ac_eventSequence := ac_eventSequence c + 1\<rparr>) r)"
    and "controller_inv (failClosed (c\<lparr>ac_eventSequence := ac_eventSequence c + 1, ac_exposure := l\<rparr>) r)"
    and "controller_inv (failClosed c r)"
proof -
  have core: "inv_core c" using assms(1) by (simp add: controller_inv_def)
  show "controller_inv (failClosed (c\<lparr>ac_eventSequence := ac_eventSequence c + 1\<rparr>) r)"
    using core assms by (intro failClosed_inv) (simp_all add: inv_core_def)
  show "controller_inv (failClosed (c\<lparr>ac_eventSequence := ac_eventSequence c + 1, ac_exposure := l\<rparr>) r)"
    using core assms by (intro failClosed_inv) (simp_all add: inv_core_def)
  show "controller_inv (failClosed c r)" using core assms(2) by (rule failClosed_inv)
qed

text \<open>How a step can fail: nothing changes, or the controller fails closed.\<close>

definition life_failed :: "AdmissionController \<Rightarrow> AdmissionController \<times> bool \<Rightarrow> bool" where
  "life_failed c res \<longleftrightarrow> res = (c, False) \<or>
     ac_closedReason c = ReasonEmpty \<and>
     ((\<exists>r. r \<noteq> ReasonEmpty \<and> res = (failClosed c r, False)) \<or>
      ac_eventSequence c \<noteq> MaxUint64 \<and>
      ((\<exists>r. r \<noteq> ReasonEmpty \<and> res = (failClosed (c\<lparr>ac_eventSequence := ac_eventSequence c + 1\<rparr>) r, False)) \<or>
       (\<exists>r l. r \<noteq> ReasonEmpty \<and>
          res = (failClosed (c\<lparr>ac_eventSequence := ac_eventSequence c + 1, ac_exposure := l\<rparr>) r, False))))"

lemma life_failed_inv:
  assumes "controller_inv c" "life_failed c res"
  shows "controller_inv (fst res) \<and> \<not> snd res"
proof -
  have "inv_core c" using assms(1) by (simp add: controller_inv_def)
  then have "controller_inv (failClosed c r)" if "ac_closedReason c = ReasonEmpty" for r
    using that by (rule failClosed_inv)
  with assms failClosed_from(1,2) [OF assms(1)] show ?thesis
    unfolding life_failed_def by auto
qed

lemma life_failed_closed:
  "life_failed c res \<Longrightarrow> fst res = c \<or> ac_closedReason (fst res) \<noteq> ReasonEmpty"
  by (auto simp: life_failed_def failClosed_def)

subsection \<open>Forwarding\<close>

definition forwarded_item :: "reservation \<Rightarrow> gotime \<Rightarrow> nat \<Rightarrow> reservation" where
  "forwarded_item item clk sequence = item\<lparr>rv_phase := reservationForwarded, rv_forwardedAt := clk,
     rv_forwardedSequence := sequence\<rparr>"

text \<open>The only way to succeed, and the state after it.\<close>

definition forwards :: "AdmissionController \<Rightarrow> nat \<Rightarrow> gotime \<Rightarrow> reservation \<Rightarrow> sequenceExposureLedger \<Rightarrow> bool" where
  "forwards c i clk item l \<longleftrightarrow> ac_closedReason c = ReasonEmpty \<and>
     map_of (ac_reservations c) i = Some item \<and> rv_runtimeEpoch item = ac_runtimeEpoch c \<and>
     rv_phase item = reservationReserved \<and> ac_eventSequence c \<noteq> MaxUint64 \<and> \<not> IsZero clk \<and>
     demand_valid (rv_demand item) \<and>
     addForwarded (ac_exposure c) clk (dm_DecodeSequences (rv_demand item)) = (l, True)"

definition forwarded_state ::
  "AdmissionController \<Rightarrow> nat \<Rightarrow> gotime \<Rightarrow> reservation \<Rightarrow> sequenceExposureLedger \<Rightarrow> AdmissionController" where
  "forwarded_state c i clk item l =
     c\<lparr>ac_eventSequence := ac_eventSequence c + 1, ac_exposure := l,
       ac_reservations := AList.update i (forwarded_item item clk (ac_eventSequence c + 1)) (ac_reservations c)\<rparr>"

lemma markForwarded_success:
  "forwards c i clk item l \<Longrightarrow> markForwarded c (ac_runtimeEpoch c) i clk = (forwarded_state c i clk item l, True)"
  by (simp add: markForwarded_def forwards_def forwarded_state_def forwarded_item_def
      nextEventSequence_def effectiveDemand_def)

lemma markForwarded_outcome:
  "life_failed c (markForwarded c e i clk) \<or> e = ac_runtimeEpoch c \<and> (\<exists>item l. forwards c i clk item l)"
proof (cases "map_of (ac_reservations c) i")
  case None
  then show ?thesis by (simp add: markForwarded_def life_failed_def)
next
  case (Some item)
  obtain l ok where add: "addForwarded (ac_exposure c) clk (dm_DecodeSequences (rv_demand item)) = (l, ok)"
    by fastforce
  then show ?thesis
    using Some by (cases ok)
      (auto simp: markForwarded_def forwards_def nextEventSequence_def effectiveDemand_def life_failed_def)
qed

lemma markForwarded_inv:
  assumes "controller_inv c"
  shows "controller_inv (fst (markForwarded c e i clk))"
proof (cases "life_failed c (markForwarded c e i clk)")
  case True
  then show ?thesis using life_failed_inv [OF assms] by blast
next
  case False
  then obtain item l where e: "e = ac_runtimeEpoch c" and f: "forwards c i clk item l"
    using markForwarded_outcome [of c e i clk] by blast
  have core: "inv_core c" and res: "inv_res c" using assms by (simp_all add: controller_inv_def)
  note g = f [unfolded forwards_def]
  let ?r = "forwarded_item item clk (ac_eventSequence c + 1)"
  let ?c = "forwarded_state c i clk item l"
  have m: "map_of (ac_reservations c) i = Some item" using g by blast
  have ok: "res_ok (ac_runtimeEpoch c) (ac_eventSequence c) (ac_nextReservationID c) i item"
    using inv_item [OF res m] .
  have l: "ledger_valid l" "el_activeForwarded l = el_activeForwarded (ac_exposure c) + dm_DecodeSequences (rv_demand item)"
    "el_activeResponse l = el_activeResponse (ac_exposure c)"
    using addForwarded_spec [OF inv_resD(4) [OF res] inv_forwarded_bound(4) [OF res]] g by blast+
  have rok: "res_ok (ac_runtimeEpoch c) (ac_eventSequence c + 1) (ac_nextReservationID c) i ?r"
    using ok g by (simp add: res_ok_def forwarded_item_def)
  have epoch: "1 \<le> ac_runtimeEpoch c" using core by (simp add: inv_core_def)
  have "phaseShare ?r = phaseShare item" using g by (simp add: phaseShare_def forwarded_item_def)
  then have a: "contribution item = Some (phaseShare item)" and b: "contribution ?r = Some (phaseShare item)"
    using res_ok_share [OF ok epoch] res_ok_share [OF rok epoch] by simp_all
  have "inv_core ?c" using core g by (simp add: inv_core_def forwarded_state_def)
  moreover have "inv_res ?c"
    by (rule inv_res_replace [OF res _ m _ _ a b])
       (use g rok l inv_resD(7) [OF res] in
         \<open>simp_all add: forwarded_state_def forwarded_item_def forwardedOf_def responseOf_def\<close>)
  ultimately show ?thesis by (simp add: markForwarded_success [OF f] e controller_invI)
qed

subsection \<open>The first byte\<close>

definition decoding_item :: "reservation \<Rightarrow> reservation" where
  "decoding_item item = item\<lparr>rv_phase := reservationActiveDecode, rv_pendingFirstByteReleased := True\<rparr>"

definition responds ::
  "AdmissionController \<Rightarrow> nat \<Rightarrow> gotime \<Rightarrow> reservation \<Rightarrow> reservationOverlay \<Rightarrow> sequenceExposureLedger \<Rightarrow> bool" where
  "responds c i clk item ov l \<longleftrightarrow> ac_closedReason c = ReasonEmpty \<and>
     map_of (ac_reservations c) i = Some item \<and> rv_runtimeEpoch item = ac_runtimeEpoch c \<and>
     rv_phase item = reservationForwarded \<and> ac_eventSequence c \<noteq> MaxUint64 \<and>
     (\<exists>a b. contribution item = Some a \<and> contribution (decoding_item item) = Some b \<and>
        replaceOverlay (ac_overlay c) a b = Some ov) \<and>
     addResponse (ac_exposure c) clk 1 = (l, True)"

definition responded_state ::
  "AdmissionController \<Rightarrow> nat \<Rightarrow> reservation \<Rightarrow> reservationOverlay \<Rightarrow> sequenceExposureLedger \<Rightarrow> AdmissionController" where
  "responded_state c i item ov l =
     c\<lparr>ac_eventSequence := ac_eventSequence c + 1, ac_exposure := l, ac_overlay := ov,
       ac_reservations := AList.update i (decoding_item item) (ac_reservations c)\<rparr>"

lemma markFirstByte_success:
  "responds c i clk item ov l \<Longrightarrow>
     markFirstByte c (ac_runtimeEpoch c) i clk = (responded_state c i item ov l, True)"
  by (auto simp: markFirstByte_def responds_def responded_state_def decoding_item_def
      nextEventSequence_def Let_def)

lemma markFirstByte_outcome:
  "life_failed c (markFirstByte c e i clk) \<or> e = ac_runtimeEpoch c \<and> (\<exists>item ov l. responds c i clk item ov l)"
proof (cases "map_of (ac_reservations c) i")
  case None
  then show ?thesis by (simp add: markFirstByte_def life_failed_def)
next
  case (Some item)
  obtain l ok where add: "addResponse (ac_exposure c) clk 1 = (l, ok)" by fastforce
  show ?thesis
  proof (cases "contribution item = None \<or> contribution (decoding_item item) = None")
    case True
    then show ?thesis
      using Some by (auto simp: markFirstByte_def Let_def decoding_item_def life_failed_def split: option.splits)
  next
    case False
    then obtain a b where ab: "contribution item = Some a" "contribution (decoding_item item) = Some b" by auto
    then show ?thesis
      using Some add by (cases "replaceOverlay (ac_overlay c) a b"; cases ok)
        (auto simp: markFirstByte_def responds_def nextEventSequence_def decoding_item_def Let_def life_failed_def)
  qed
qed

lemma markFirstByte_inv:
  assumes "controller_inv c"
  shows "controller_inv (fst (markFirstByte c e i clk))"
proof (cases "life_failed c (markFirstByte c e i clk)")
  case True
  then show ?thesis using life_failed_inv [OF assms] by blast
next
  case False
  then obtain item ov l where e: "e = ac_runtimeEpoch c" and f: "responds c i clk item ov l"
    using markFirstByte_outcome [of c e i clk] by blast
  have core: "inv_core c" and res: "inv_res c" using assms by (simp_all add: controller_inv_def)
  note g = f [unfolded responds_def]
  let ?r = "decoding_item item"
  let ?c = "responded_state c i item ov l"
  have m: "map_of (ac_reservations c) i = Some item" using g by blast
  have ok: "res_ok (ac_runtimeEpoch c) (ac_eventSequence c) (ac_nextReservationID c) i item"
    using inv_item [OF res m] .
  obtain a b where ab: "contribution item = Some a" "contribution ?r = Some b"
    "replaceOverlay (ac_overlay c) a b = Some ov" using g by blast
  have l: "ledger_valid l" "el_activeForwarded l = el_activeForwarded (ac_exposure c)"
    "el_activeResponse l = el_activeResponse (ac_exposure c) + 1"
    using addResponse_spec [OF inv_resD(4) [OF res] inv_forwarded_bound(4) [OF res]] g by blast+
  have rok: "res_ok (ac_runtimeEpoch c) (ac_eventSequence c + 1) (ac_nextReservationID c) i ?r"
    using ok g by (simp add: res_ok_def decoding_item_def)
  have "inv_core ?c" using core g by (simp add: inv_core_def responded_state_def)
  moreover have "inv_res ?c"
    by (rule inv_res_replace [OF res _ m _ _ ab(1,2)])
       (use g rok l inv_resD(7) [OF res] ab(3) in
         \<open>simp_all add: responded_state_def decoding_item_def forwardedOf_def responseOf_def\<close>)
  ultimately show ?thesis by (simp add: markFirstByte_success [OF f] e controller_invI)
qed

subsection \<open>Termination\<close>

definition removes :: "reservation \<Rightarrow> TerminalCause \<Rightarrow> bool" where
  "removes item cause \<longleftrightarrow> rv_phase item = reservationReserved \<or>
     (rv_phase item = reservationActiveDecode \<and> cause = TerminalSuccess)"

definition debt_item :: "reservation \<Rightarrow> nat \<Rightarrow> reservation" where
  "debt_item item sequence = item\<lparr>rv_phase := reservationResidualDebt, rv_terminalSequence := sequence\<rparr>"

definition terminates ::
  "AdmissionController \<Rightarrow> nat \<Rightarrow> TerminalCause \<Rightarrow> gotime \<Rightarrow> reservation \<Rightarrow> reservationOverlay \<Rightarrow>
   sequenceExposureLedger \<Rightarrow> bool" where
  "terminates c i cause clk item ov l \<longleftrightarrow> ac_closedReason c = ReasonEmpty \<and> TerminalCause_valid cause \<and>
     map_of (ac_reservations c) i = Some item \<and> rv_runtimeEpoch item = ac_runtimeEpoch c \<and>
     rv_phase item \<noteq> reservationResidualDebt \<and> ac_eventSequence c \<noteq> MaxUint64 \<and>
     (\<exists>a b. contribution item = Some a \<and>
        (if removes item cause then Some zeroOverlay
         else contribution (item\<lparr>rv_phase := reservationResidualDebt\<rparr>)) = Some b \<and>
        replaceOverlay (ac_overlay c) a b = Some ov) \<and>
     (\<exists>f r. reservationExposureCounts item = Some (f, r) \<and>
        (if f > 0 then remove_exposure (ac_exposure c) clk f r = (l, True) else l = ac_exposure c))"

definition terminated_state ::
  "AdmissionController \<Rightarrow> nat \<Rightarrow> TerminalCause \<Rightarrow> reservation \<Rightarrow> reservationOverlay \<Rightarrow>
   sequenceExposureLedger \<Rightarrow> AdmissionController" where
  "terminated_state c i cause item ov l =
     c\<lparr>ac_eventSequence := ac_eventSequence c + 1, ac_exposure := l, ac_overlay := ov,
       ac_reservations :=
         (if removes item cause then AList.delete i (ac_reservations c)
          else AList.update i (debt_item item (ac_eventSequence c + 1)) (ac_reservations c))\<rparr>"

lemma terminate_success:
  assumes "terminates c i cause clk item ov l"
  shows "terminate c (ac_runtimeEpoch c) i cause clk = (terminated_state c i cause item ov l, True)"
proof -
  note g = assms [unfolded terminates_def]
  obtain a b where ab: "contribution item = Some a" "replaceOverlay (ac_overlay c) a b = Some ov"
    "(if removes item cause then Some zeroOverlay
      else contribution (item\<lparr>rv_phase := reservationResidualDebt\<rparr>)) = Some b" using g by blast
  obtain f r where fr: "reservationExposureCounts item = Some (f, r)"
    "if f > 0 then remove_exposure (ac_exposure c) clk f r = (l, True) else l = ac_exposure c" using g by blast
  have led: "(if f > 0 then remove_exposure (ac_exposure c) clk f r else (ac_exposure c, True)) = (l, True)"
    using fr(2) by (cases "f > 0") simp_all
  show ?thesis
    unfolding terminate_def Let_def removes_def [symmetric]
    using g ab fr(1) led
    by (simp add: nextEventSequence_def terminated_state_def debt_item_def)
qed

text \<open>Terminating a reservation that is neither stale nor a debt succeeds or fails closed.\<close>

lemma terminate_live:
  assumes "ac_closedReason c = ReasonEmpty" "e = ac_runtimeEpoch c" "TerminalCause_valid cause"
    "map_of (ac_reservations c) i = Some item" "rv_runtimeEpoch item = e" "rv_phase item \<noteq> reservationResidualDebt"
  shows "(\<exists>ov l. terminates c i cause clk item ov l) \<or>
     life_failed c (terminate c e i cause clk) \<and> ac_closedReason (fst (terminate c e i cause clk)) \<noteq> ReasonEmpty"
proof -
  note g = assms
  let ?b = "if removes item cause then Some zeroOverlay
     else contribution (item\<lparr>rv_phase := reservationResidualDebt\<rparr>)"
  show ?thesis
  proof (cases "\<exists>a b ov. contribution item = Some a \<and> ?b = Some b \<and> replaceOverlay (ac_overlay c) a b = Some ov")
    case False
    then have "terminate c e i cause clk = (failClosed c ReasonControllerUnavailable, False)"
      unfolding terminate_def Let_def removes_def [symmetric] using g by (simp split: option.split)
    then show ?thesis using g by (auto simp: life_failed_def failClosed_closed)
  next
    case ok: True
    then obtain a b ov where ab: "contribution item = Some a" "?b = Some b"
      "replaceOverlay (ac_overlay c) a b = Some ov" by blast
    show ?thesis
    proof (cases "ac_eventSequence c = MaxUint64")
      case True
      then have "terminate c e i cause clk = (failClosed c ReasonCounterOverflow, False)"
        unfolding terminate_def Let_def removes_def [symmetric] using g ab by (simp add: nextEventSequence_def)
      then show ?thesis using g by (auto simp: life_failed_def failClosed_closed)
    next
      case ev: False
      show ?thesis
      proof (cases "reservationExposureCounts item")
        case None
        then have "terminate c e i cause clk =
            (failClosed (c\<lparr>ac_eventSequence := ac_eventSequence c + 1\<rparr>) ReasonControllerUnavailable, False)"
          unfolding terminate_def Let_def removes_def [symmetric] using g ab ev by (simp add: nextEventSequence_def)
        then show ?thesis using g ev by (auto simp: life_failed_def failClosed_closed)
      next
        case (Some fr)
        obtain f r where fr: "fr = (f, r)" by fastforce
        obtain l ok1 where led: "(if f > 0 then remove_exposure (ac_exposure c) clk f r
            else (ac_exposure c, True)) = (l, ok1)" by fastforce
        show ?thesis
        proof (cases ok1)
          case True
          have "if f > 0 then remove_exposure (ac_exposure c) clk f r = (l, True) else l = ac_exposure c"
            using led True by (auto split: if_splits)
          then have "terminates c i cause clk item ov l"
            unfolding terminates_def using g ev ab Some fr by blast
          then show ?thesis by blast
        next
          case False
          with led have "0 < f" "remove_exposure (ac_exposure c) clk f r = (l, False)"
            by (auto split: if_split_asm)
          then have "terminate c e i cause clk =
              (failClosed (c\<lparr>ac_eventSequence := ac_eventSequence c + 1, ac_exposure := l\<rparr>)
                 ReasonControllerUnavailable, False)"
            unfolding terminate_def Let_def removes_def [symmetric]
            using g ab ev Some fr by (simp add: nextEventSequence_def)
          then show ?thesis using g ev by (auto simp: life_failed_def failClosed_closed)
        qed
      qed
    qed
  qed
qed


lemma terminate_outcome:
  "life_failed c (terminate c e i cause clk) \<or>
   e = ac_runtimeEpoch c \<and> (\<exists>item ov l. terminates c i cause clk item ov l)"
proof (cases "ac_closedReason c = ReasonEmpty \<and> e = ac_runtimeEpoch c \<and> TerminalCause_valid cause \<and>
    (\<exists>item. map_of (ac_reservations c) i = Some item \<and> rv_runtimeEpoch item = e \<and>
       rv_phase item \<noteq> reservationResidualDebt)")
  case False
  then have "terminate c e i cause clk = (c, False)" by (auto simp: terminate_def split: option.split)
  then show ?thesis by (simp add: life_failed_def)
next
  case True
  then show ?thesis using terminate_live [of c e cause i _ clk] by blast
qed
lemma addOverlay_zero:
  "overlay_valid a \<Longrightarrow> overlay_fits a \<Longrightarrow> addOverlay a zeroOverlay = Some a"
  using overlay_plus_comm [of a zeroOverlay] by (simp add: addOverlay_valid_eq)

lemma terminates_ledger:
  assumes "inv_res c" "terminates c i cause clk item ov l"
  shows "ledger_valid l \<and> el_activeForwarded l = el_activeForwarded (ac_exposure c) - forwardedOf item \<and>
     el_activeResponse l = el_activeResponse (ac_exposure c) - responseOf item"
proof -
  note g = assms(2) [unfolded terminates_def]
  obtain f r where fr: "reservationExposureCounts item = Some (f, r)"
    "if f > 0 then remove_exposure (ac_exposure c) clk f r = (l, True) else l = ac_exposure c" using g by blast
  have eq: "f = forwardedOf item" "r = responseOf item" "f = 0 \<longrightarrow> r = 0" "0 \<le> f"
    using fr(1) demand_valid_seqs [of "rv_demand item"]
    by (auto simp: reservationExposureCounts_def effectiveDemand_def forwardedOf_def responseOf_def
        split: if_splits reservationPhase.splits option.splits)
  show ?thesis
  proof (cases "f > 0")
    case True
    then have "remove_exposure (ac_exposure c) clk f r = (l, True)" using fr(2) by simp
    from remove_exposure_spec [OF inv_resD(4) [OF assms(1)] inv_forwarded_bound(4) [OF assms(1)] this] eq
    show ?thesis by simp
  next
    case False
    with fr(2) eq inv_resD(4) [OF assms(1)] show ?thesis by auto
  qed
qed

lemma terminate_inv:
  assumes "controller_inv c"
  shows "controller_inv (fst (terminate c e i cause clk))"
proof (cases "life_failed c (terminate c e i cause clk)")
  case True
  then show ?thesis using life_failed_inv [OF assms] by blast
next
  case False
  then obtain item ov l where e: "e = ac_runtimeEpoch c" and f: "terminates c i cause clk item ov l"
    using terminate_outcome [of c e i cause clk] by blast
  have core: "inv_core c" and res: "inv_res c" using assms by (simp_all add: controller_inv_def)
  note g = f [unfolded terminates_def]
  let ?c = "terminated_state c i cause item ov l"
  have m: "map_of (ac_reservations c) i = Some item" using g by blast
  have ok: "res_ok (ac_runtimeEpoch c) (ac_eventSequence c) (ac_nextReservationID c) i item"
    using inv_item [OF res m] .
  have epoch: "1 \<le> ac_runtimeEpoch c" using core by (simp add: inv_core_def)
  note l = terminates_ledger [OF res f]
  have core': "inv_core ?c" using core g by (simp add: inv_core_def terminated_state_def)
  have a: "contribution item = Some (phaseShare item)" using res_ok_share [OF ok epoch] .
  obtain b where b: "(if removes item cause then Some zeroOverlay
      else contribution (item\<lparr>rv_phase := reservationResidualDebt\<rparr>)) = Some b"
    "replaceOverlay (ac_overlay c) (phaseShare item) b = Some ov" using g a by auto
  have "inv_res ?c"
  proof (cases "removes item cause")
    case True
    then have "replaceOverlay (ac_overlay c) (phaseShare item) zeroOverlay = Some ov" using b by simp
    then obtain u where u: "subtractOverlay (ac_overlay c) (phaseShare item) = Some u" "addOverlay u zeroOverlay = Some ov"
      by (auto simp: replaceOverlay_def split: option.splits)
    have "ov = u"
      using u overlay_plus_comm [of u zeroOverlay] by (auto simp: addOverlay_eq split: if_splits)
    with u(1) True show ?thesis
      using l g inv_resD(7) [OF res]
      by (intro inv_res_remove [OF res _ m _ a]) (simp_all add: terminated_state_def)
  next
    case False
    let ?r = "debt_item item (ac_eventSequence c + 1)"
    have rok: "res_ok (ac_runtimeEpoch c) (ac_eventSequence c + 1) (ac_nextReservationID c) i ?r"
      using ok by (simp add: res_ok_def debt_item_def)
    have b': "contribution ?r = Some b"
      using b(1) False contribution_cong [of ?r "item\<lparr>rv_phase := reservationResidualDebt\<rparr>"]
      by (simp add: debt_item_def)
    show ?thesis
      by (rule inv_res_replace [OF res _ m _ _ a b'])
         (use g rok l inv_resD(7) [OF res] b(2) False in
           \<open>simp_all add: terminated_state_def debt_item_def forwardedOf_def responseOf_def\<close>)
  qed
  with core' show ?thesis by (simp add: terminate_success [OF f] e controller_invI)
qed

end
