(* ===== verification/Controller_Publish.thy ===== *)
theory Controller_Publish
  imports Controller_Life
begin

text \<open>
  Publishing an observation: reconciliation of the reservations with a sample, its
  independence of the iteration order of the map, and the invariant.
\<close>

subsection \<open>Reconciliation of one reservation\<close>

lemma reconcile_ok:
  assumes "res_ok e s n k r" "1 \<le> e" "reconcileReservation r w ob t d = (next, remove, changed)"
  shows "if remove then rv_phase r = reservationResidualDebt \<and> forwardedOf r = 0 \<and> responseOf r = 0
         else res_ok e s n k next \<and> rv_demand next = rv_demand r \<and> forwardedOf next = forwardedOf r \<and>
              responseOf next = responseOf r \<and> (\<not> changed \<longrightarrow> next = r)"
  using assms
  by (auto simp: reconcileReservation_def Let_def res_ok_def forwardedOf_def responseOf_def split: if_splits)

definition survivor ::
  "nat \<Rightarrow> BackendObservation \<Rightarrow> gotime \<Rightarrow> duration \<Rightarrow> nat \<times> reservation \<Rightarrow> (nat \<times> reservation) list" where
  "survivor w ob t d = (\<lambda>(k, r). case reconcileReservation r w ob t d of
     (next, remove, changed) \<Rightarrow> if remove then [] else [(k, next)])"

text \<open>The map after reconciliation, as a function of the map before.\<close>

definition reconciled ::
  "nat \<Rightarrow> BackendObservation \<Rightarrow> gotime \<Rightarrow> duration \<Rightarrow> (nat \<times> reservation) list \<Rightarrow> (nat \<times> reservation) list" where
  "reconciled w ob t d rs = concat (map (survivor w ob t d) rs)"

lemma reconciled_simps [simp]:
  "reconciled w ob t d [] = []"
  "reconciled w ob t d (x # rs) = survivor w ob t d x @ reconciled w ob t d rs"
  by (simp_all add: reconciled_def)

lemma reconciled_append: "reconciled w ob t d (xs @ ys) = reconciled w ob t d xs @ reconciled w ob t d ys"
  by (simp add: reconciled_def)

lemma survivor_keys: "set (keys (survivor w ob t d x)) \<subseteq> {fst x}"
proof -
  obtain k r where x: "x = (k, r)" by fastforce
  obtain nxt rem ch where "reconcileReservation r w ob t d = (nxt, rem, ch)" by (metis prod.exhaust)
  then show ?thesis by (simp add: x survivor_def)
qed

lemma reconciled_keys: "set (keys (reconciled w ob t d rs)) \<subseteq> set (keys rs)"
proof (induction rs)
  case (Cons x rs)
  with survivor_keys [of w ob t d x] show ?case by auto
qed simp

lemma reconciled_distinct: "distinct (keys rs) \<Longrightarrow> distinct (keys (reconciled w ob t d rs))"
proof (induction rs)
  case Nil
  then show ?case by simp
next
  case (Cons x rs)
  have d: "distinct (keys (survivor w ob t d x))"
    by (auto simp: survivor_def split: prod.splits)
  have "fst x \<notin> set (keys (reconciled w ob t d rs))"
    using reconciled_keys [of w ob t d rs] Cons.prems by auto
  then have "set (keys (survivor w ob t d x)) \<inter> set (keys (reconciled w ob t d rs)) = {}"
    using survivor_keys [of w ob t d x] by blast
  with Cons d show ?case by simp
qed

lemma reconciled_length: "length (reconciled w ob t d rs) \<le> length rs"
proof (induction rs)
  case (Cons x rs)
  have "length (survivor w ob t d x) \<le> 1" by (auto simp: survivor_def split: prod.splits)
  with Cons show ?case by simp
qed simp

text \<open>The loop that applies it, which changes the map it iterates over, computes it.\<close>

lemma apply_fold:
  assumes "distinct (keys (ds @ todo))"
  shows "foldl (apply_step w ob t d) (reconciled w ob t d ds @ todo) todo =
     reconciled w ob t d (ds @ todo)"
  using assms
proof (induction todo arbitrary: ds)
  case Nil
  then show ?case by simp
next
  case (Cons x todo)
  obtain k r where x: "x = (k, r)" by fastforce
  obtain nxt rem ch where rec: "reconcileReservation r w ob t d = (nxt, rem, ch)" by (metis prod.exhaust)
  have k: "k \<notin> set (keys (reconciled w ob t d ds))" "k \<notin> set (keys todo)"
    using Cons.prems reconciled_keys [of w ob t d ds] by (auto simp: x)
  have same: "nxt = r" if "\<not> rem" "\<not> ch"
    using rec that by (auto simp: reconcileReservation_def Let_def split: if_splits)
  have "apply_step w ob t d (reconciled w ob t d ds @ x # todo) x =
      reconciled w ob t d ds @ survivor w ob t d x @ todo"
    using k same rec
    by (auto simp: apply_step_def x survivor_def update_at_key delete_at_key)
  also have "\<dots> = reconciled w ob t d (ds @ [x]) @ todo" by (simp add: reconciled_append)
  finally show ?case using Cons.IH [of "ds @ [x]"] Cons.prems by simp
qed

lemma applyReconciliation_eq:
  assumes "distinct (keys (ac_reservations c))"
  shows "applyReconciliation c w ob t = c\<lparr>ac_reservations :=
     reconciled w ob t (ac_pendingFirstByteLeaseDuration c) (ac_reservations c)\<rparr>"
  using apply_fold [of "[]" "ac_reservations c"] assms by (simp add: applyReconciliation_def)

subsection \<open>The overlay of the reconciled map\<close>

text \<open>Sequences forwarded before the sample was taken.\<close>

definition forwardedBefore :: "nat \<Rightarrow> reservation \<Rightarrow> int" where
  "forwardedBefore w r = (if rv_forwardedSequence r > 0 \<and> rv_forwardedSequence r \<le> w
     then dm_DecodeSequences (rv_demand r) else 0)"

lemma decodeSum_Cons [simp]: "decodeSum (r # rs) = dm_DecodeSequences (rv_demand r) + decodeSum rs"
  and decodeSum_Nil [simp]: "decodeSum [] = 0"
  and decodeSum_append [simp]: "decodeSum (rs @ ss) = decodeSum rs + decodeSum ss"
  by (simp_all add: decodeSum_def)

lemma reconcile_step_total:
  assumes ok: "res_ok e s n k r" "1 \<le> e"
    and t: "acct.total (ys @ r # zs) = Some ov" and others: "\<forall>x\<in>set (ys @ zs). \<exists>c. contribution x = Some c"
    and fits: "decodeSum (ys @ r # zs) \<le> MaxInt64"
    and L: "0 \<le> L" "L + dm_DecodeSequences (rv_demand r) \<le> MaxInt64"
  shows "\<exists>ov'. reconcile_step w ob now d (ov, L) (k, r) = Some (ov', L + forwardedBefore w r) \<and>
     acct.total (ys @ map snd (survivor w ob now d (k, r)) @ zs) = Some ov'"
proof -
  obtain nxt rem ch where rec: "reconcileReservation r w ob now d = (nxt, rem, ch)" by (metis prod.exhaust)
  note R = reconcile_ok [OF ok rec]
  have a: "contribution r = Some (phaseShare r)" using res_ok_share [OF ok] .
  have pos: "1 \<le> dm_DecodeSequences (rv_demand r)" using res_ok_bounds [OF ok(1)] by blast
  have dv: "demand_valid (rv_demand r)" using ok by (simp add: res_ok_def)
  have liab: "(if rv_forwardedSequence r > 0 \<and> rv_forwardedSequence r \<le> w
       then (case effectiveDemand r of None \<Rightarrow> None
             | Some demand \<Rightarrow> addNonnegativeInt64 L (dm_DecodeSequences demand))
       else Some L) = Some (L + forwardedBefore w r)"
    using L pos dv by (simp add: effectiveDemand_def forwardedBefore_def addNonnegativeInt64_def)
  show ?thesis
  proof (cases rem)
    case True
    obtain u where "subtractOverlay ov (phaseShare r) = Some u" "acct.total (ys @ zs) = Some u"
      using acct.total_remove [OF t a] by blast
    with True rec a show ?thesis
      unfolding reconcile_step_def prod.case liab by (simp add: survivor_def)
  next
    case False
    have nok: "res_ok e s n k nxt" "rv_demand nxt = rv_demand r" using R False by simp_all
    have b: "contribution nxt = Some (phaseShare nxt)" using res_ok_share [OF nok(1) ok(2)] .
    have "\<exists>ov'. acct.total (ys @ nxt # zs) = Some ov'"
      using others fits b nok(2) by (intro total_exists) auto
    then obtain ov' where ov': "acct.total (ys @ nxt # zs) = Some ov'" by blast
    show ?thesis
    proof (cases ch)
      case True
      have "replaceOverlay ov (phaseShare r) (phaseShare nxt) = Some ov'"
        using acct.total_replace [OF t a b] ov' by (auto simp: replaceOverlay_def bind_eq_Some_conv)
      with True False rec a b ov' show ?thesis
        unfolding reconcile_step_def prod.case liab by (simp add: survivor_def)
    next
      case ch: False
      with R False have "nxt = r" by simp
      with ch False rec a t show ?thesis
        unfolding reconcile_step_def prod.case liab by (simp add: survivor_def)
    qed
  qed
qed

lemma reconcile_fold:
  assumes "\<forall>(k, r)\<in>set todo. res_ok e s n k r" "1 \<le> e"
    and "acct.total (ys @ map snd todo) = Some ov" "decodeSum (ys @ map snd todo) \<le> MaxInt64"
    and "0 \<le> L" "L + decodeSum (map snd todo) \<le> MaxInt64"
  shows "\<exists>ov'. foldo (reconcile_step w ob now d) (ov, L) todo = Some (ov', L + sumOf (forwardedBefore w) todo) \<and>
     acct.total (ys @ map snd (reconciled w ob now d todo)) = Some ov'"
  using assms
proof (induction todo arbitrary: ys ov L)
  case Nil
  then show ?case by simp
next
  case (Cons x todo)
  obtain k r where x: "x = (k, r)" by fastforce
  have ok: "res_ok e s n k r" using Cons.prems(1) by (simp add: x)
  have t: "acct.total (ys @ r # map snd todo) = Some ov" using Cons.prems(3) by (simp add: x)
  have others: "\<forall>y\<in>set (ys @ map snd todo). \<exists>c. contribution y = Some c"
    using total_facts [OF t] by auto
  have pos: "1 \<le> dm_DecodeSequences (rv_demand r)" using res_ok_bounds [OF ok] by blast
  have nn: "0 \<le> decodeSum (map snd todo)"
    using Cons.prems(1) res_ok_bounds by (fastforce simp: decodeSum_def intro!: sum_list_nonneg)
  have L: "L + dm_DecodeSequences (rv_demand r) \<le> MaxInt64" using Cons.prems(6) nn by (simp add: x)
  obtain ov1 where step: "reconcile_step w ob now d (ov, L) (k, r) = Some (ov1, L + forwardedBefore w r)"
    and t1: "acct.total (ys @ map snd (survivor w ob now d (k, r)) @ map snd todo) = Some ov1"
    using reconcile_step_total [OF ok Cons.prems(2) t others _ Cons.prems(5) L, of w ob now d] Cons.prems(4) by (auto simp: x)
  have sv: "decodeSum (map snd (survivor w ob now d (k, r))) \<le> dm_DecodeSequences (rv_demand r)"
    using reconcile_ok [OF ok Cons.prems(2), of w ob now d] pos
    by (auto simp: survivor_def split: prod.splits if_splits)
  have fb: "0 \<le> forwardedBefore w r" "forwardedBefore w r \<le> dm_DecodeSequences (rv_demand r)"
    using pos by (simp_all add: forwardedBefore_def)
  have "\<exists>ov'. foldo (reconcile_step w ob now d) (ov1, L + forwardedBefore w r) todo =
        Some (ov', (L + forwardedBefore w r) + sumOf (forwardedBefore w) todo) \<and>
      acct.total ((ys @ map snd (survivor w ob now d (k, r))) @ map snd (reconciled w ob now d todo)) = Some ov'"
    by (rule Cons.IH) (use Cons.prems t1 sv fb in \<open>auto simp: x\<close>)
  then show ?case using step by (auto simp: x add.assoc)
qed

text \<open>
  Reconciliation of the whole map never fails, and what it computes does not depend on the
  order in which Go happens to iterate.
\<close>

lemma reconciledOverlay_total:
  assumes "controller_inv c"
  shows "\<exists>ov. reconciledOverlay c w ob now = Some (ov, sumOf (forwardedBefore w) (ac_reservations c)) \<and>
     acct.total (map snd (reconciled w ob now (ac_pendingFirstByteLeaseDuration c) (ac_reservations c))) = Some ov"
proof -
  have core: "inv_core c" and res: "inv_res c" using assms by (simp_all add: controller_inv_def)
  have "decodeSum (map snd (ac_reservations c)) \<le> MaxInt64"
    using inv_forwarded_bound(2,3) [OF res] by (simp add: sumOf_decode)
  then show ?thesis
    using reconcile_fold [OF inv_resD(2) [OF res], of "[]" "ac_overlay c" 0 w ob now
        "ac_pendingFirstByteLeaseDuration c"] inv_resD(3) [OF res] core
    by (simp add: reconciledOverlay_def inv_core_def)
qed

lemma sumOf_perm: "mset rs = mset rs' \<Longrightarrow> sumOf f rs = sumOf f rs'"
proof -
  assume "mset rs = mset rs'"
  then have "mset (map (\<lambda>(k, r). f r) rs) = mset (map (\<lambda>(k, r). f r) rs')" by simp
  then show ?thesis unfolding sumOf_def by (metis sum_mset_sum_list)
qed

lemma reconciled_perm: "mset rs = mset rs' \<Longrightarrow> mset (reconciled w ob t d rs) = mset (reconciled w ob t d rs')"
  unfolding reconciled_def by (metis image_mset_union mset_concat mset_map sum_mset_sum_list)

lemma keys_perm: "mset rs = mset rs' \<Longrightarrow> distinct (keys rs) = distinct (keys rs')"
  by (metis mset_eq_imp_distinct_iff mset_map)

lemma reconciliation_order:
  assumes "controller_inv c" "mset rs = mset (ac_reservations c)"
  shows "reconciledOverlay (c\<lparr>ac_reservations := rs\<rparr>) w ob now = reconciledOverlay c w ob now"
    and "mset (ac_reservations (applyReconciliation (c\<lparr>ac_reservations := rs\<rparr>) w ob now)) =
         mset (ac_reservations (applyReconciliation c w ob now))"
proof -
  let ?c = "c\<lparr>ac_reservations := rs\<rparr>"
  have core: "inv_core c" and res: "inv_res c" using assms by (simp_all add: controller_inv_def)
  have "inv_core ?c" using core by (simp add: inv_core_def)
  moreover have "inv_res ?c"
  proof -
    have "set rs = set (ac_reservations c)" "length rs = length (ac_reservations c)"
      using assms(2) by (metis set_mset_mset) (metis assms(2) size_mset)
    moreover have "acct.total (map snd rs) = acct.total (map snd (ac_reservations c))"
      using assms(2) by (intro acct.total_perm) simp
    ultimately show ?thesis
      using res keys_perm [OF assms(2)] sumOf_perm [OF assms(2)] unfolding inv_res_def by auto
  qed
  ultimately have inv: "controller_inv ?c" by (rule controller_invI)
  let ?d = "ac_pendingFirstByteLeaseDuration c"
  have "acct.total (map snd (reconciled w ob now ?d rs)) = acct.total (map snd (reconciled w ob now ?d (ac_reservations c)))"
    using reconciled_perm [OF assms(2), of w ob now ?d] by (intro acct.total_perm) simp
  then show "reconciledOverlay ?c w ob now = reconciledOverlay c w ob now"
    using reconciledOverlay_total [OF inv, of w ob now] reconciledOverlay_total [OF assms(1), of w ob now]
      sumOf_perm [OF assms(2)] by auto
  show "mset (ac_reservations (applyReconciliation ?c w ob now)) =
      mset (ac_reservations (applyReconciliation c w ob now))"
    using reconciled_perm [OF assms(2)] inv_resD(1) [OF res] keys_perm [OF assms(2)]
    by (simp add: applyReconciliation_eq)
qed

subsection \<open>Publishing keeps the invariant\<close>

lemma sumOf_reconciled:
  assumes "\<forall>(k, r)\<in>set rs. res_ok e s n k r" "1 \<le> e" "f = forwardedOf \<or> f = responseOf"
  shows "sumOf f (reconciled w ob t d rs) = sumOf f rs"
  using assms(1)
proof (induction rs)
  case (Cons x rs)
  obtain k r where x: "x = (k, r)" by fastforce
  have ok: "res_ok e s n k r" using Cons.prems by (simp add: x)
  obtain nxt rem ch where rec: "reconcileReservation r w ob t d = (nxt, rem, ch)" by (metis prod.exhaust)
  have "sumOf f (survivor w ob t d x) = f r"
    using reconcile_ok [OF ok assms(2) rec] assms(3) rec by (auto simp: survivor_def x split: if_splits)
  with Cons show ?case by (simp add: x)
qed simp

lemma res_ok_reconciled:
  assumes "\<forall>(k, r)\<in>set rs. res_ok e s n k r" "1 \<le> e"
  shows "\<forall>(k, r)\<in>set (reconciled w ob t d rs). res_ok e s n k r"
  using assms(1)
proof (induction rs)
  case (Cons x rs)
  obtain k r where x: "x = (k, r)" by fastforce
  have ok: "res_ok e s n k r" using Cons.prems by (simp add: x)
  obtain nxt rem ch where rec: "reconcileReservation r w ob t d = (nxt, rem, ch)" by (metis prod.exhaust)
  have "\<forall>(k, r)\<in>set (survivor w ob t d x). res_ok e s n k r"
    using reconcile_ok [OF ok assms(2) rec] rec by (simp add: survivor_def x)
  with Cons show ?case by auto
qed simp

text \<open>The state after reconciliation with a sample.\<close>

definition reconciled_state ::
  "AdmissionController \<Rightarrow> SampleWindow \<Rightarrow> BackendObservation \<Rightarrow> gotime \<Rightarrow> reservationOverlay \<Rightarrow>
   AdmissionController" where
  "reconciled_state c window ob clk ov =
     c\<lparr>ac_reservations := reconciled (sw_eventSequence window) ob clk
          (ac_pendingFirstByteLeaseDuration c) (ac_reservations c),
       ac_overlay := ov, ac_lastPublishedSample := sw_id window,
       ac_lastExposure := sw_exposure window\<rparr>"

lemma snapshot_subtract_valid:
  "snapshot_subtract a b = Some d \<Longrightarrow> snapshot_valid a \<and> snapshot_valid b"
  by (auto simp: snapshot_subtract_def split: if_splits)

lemma reconciled_state_inv:
  assumes "controller_inv c" "ac_closedReason c = ReasonEmpty" "sw_id window \<le> ac_sampleSequence c"
    and "snapshot_valid (sw_exposure window)"
    and "reconciledOverlay c (sw_eventSequence window) ob clk = Some (ov, n)"
  shows "controller_inv (reconciled_state c window ob clk ov)"
proof -
  have core: "inv_core c" and res: "inv_res c" using assms(1) by (simp_all add: controller_inv_def)
  have epoch: "1 \<le> ac_runtimeEpoch c" using core by (simp add: inv_core_def)
  note r = inv_resD [OF res]
  let ?rs = "reconciled (sw_eventSequence window) ob clk (ac_pendingFirstByteLeaseDuration c) (ac_reservations c)"
  have total: "acct.total (map snd ?rs) = Some ov"
    using reconciledOverlay_total [OF assms(1), of "sw_eventSequence window" ob clk] assms(5) by auto
  have len: "length ?rs \<le> length (ac_reservations c)" by (rule reconciled_length)
  have "inv_core (reconciled_state c window ob clk ov)"
    using core assms(3) by (simp add: inv_core_def reconciled_state_def)
  moreover have "inv_res (reconciled_state c window ob clk ov)"
    by (rule inv_resI)
       (use reconciled_distinct [OF r(1)] res_ok_reconciled [OF r(2) epoch] total r(4-8) len assms(2,4)
          sumOf_reconciled [OF r(2) epoch] in \<open>simp_all add: reconciled_state_def\<close>)
  ultimately show ?thesis by (rule controller_invI)
qed

lemma publishSample_outcome:
  assumes "controller_inv c"
  shows "publishSample c window ob g clk =
           (failClosed c ReasonControllerUnavailable, Some ReasonControllerUnavailable) \<or>
     (\<exists>ov n d fwd rsp. reconciledOverlay c (sw_eventSequence window) ob clk = Some (ov, n) \<and>
        snapshot_subtract (sw_exposure window) (ac_lastExposure c) = Some d \<and>
        snapshot_seconds d = Some (fwd, rsp) \<and>
        publishSample c window ob g clk =
          publishTPS (reconciled_state c window ob clk ov) window (sampleOf c ob g n fwd rsp))"
proof (cases "snapshot_subtract (sw_exposure window) (ac_lastExposure c)")
  case None
  then show ?thesis by (simp add: publishSample_def)
next
  case d: (Some d)
  show ?thesis
  proof (cases "snapshot_seconds d")
    case None
    with d show ?thesis by (simp add: publishSample_def)
  next
    case (Some fr)
    obtain fwd rsp where fr: "fr = (fwd, rsp)" by fastforce
    have res: "inv_res c" using assms by (simp add: controller_inv_def)
    obtain ov n where ov: "reconciledOverlay c (sw_eventSequence window) ob clk = Some (ov, n)"
      using reconciledOverlay_total [OF assms] by blast
    have "publishSample c window ob g clk =
        publishTPS (reconciled_state c window ob clk ov) window (sampleOf c ob g n fwd rsp)"
      using d Some fr ov
      by (simp add: publishSample_def applyReconciliation_eq [OF inv_resD(1) [OF res]] reconciled_state_def)
    with d Some fr ov show ?thesis by blast
  qed
qed

text \<open>The observation of the window keeps the rest of the state.\<close>

definition tps_updated :: "AdmissionController \<Rightarrow> gotime \<Rightarrow> AdmissionController \<Rightarrow> bool" where
  "tps_updated c e c' \<longleftrightarrow> (\<exists>tps. c' = c\<lparr>ac_tpsWindow := tps\<rparr> \<and> window_ok e tps)"

lemma inv_window:
  assumes "inv_core c" "ac_hasObservation c \<longrightarrow> bo_ObservedAt (ob_observation (ac_observation c)) \<le> e"
  shows "window_ok e (ac_tpsWindow c)"
  using assms window_ok_mono by (auto simp: inv_core_def split: if_splits)

lemma publishTPS_outcome:
  assumes "inv_core c" "ac_hasObservation c \<longrightarrow> bo_ObservedAt (ob_observation (ac_observation c)) \<le> sm_end s"
  shows "(\<exists>c'. publishTPS c window s = (c', None) \<and> tps_updated c (sm_end s) c') \<or>
     (\<exists>tps. publishTPS c window s =
        (failClosed (c\<lparr>ac_tpsWindow := tps\<rparr>) ReasonCounterOverflow, Some ReasonCounterOverflow) \<and>
        (\<forall>e. window_ok e (window_reset tps)))"
proof (cases "ac_hasObservation c \<and> sw_tpsPolicyEpoch window = ac_tpsPolicyEpoch c \<and> window_enabled (ac_tpsWindow c)")
  case False
  then have "publishTPS c window s = (c, None)" by (auto simp: publishTPS_def)
  moreover have "tps_updated c (sm_end s) c"
    unfolding tps_updated_def using inv_window [OF assms] by (intro exI [of _ "ac_tpsWindow c"]) simp
  ultimately show ?thesis by blast
next
  case True
  obtain tps ok where obs: "window_observe (ac_tpsWindow c) s = (tps, ok)" by fastforce
  have "window_ok (bo_ObservedAt (ob_observation (ac_observation c))) (ac_tpsWindow c)"
    using True assms(1) by (simp add: inv_core_def)
  with assms(2) True have "window_ok (sm_end s) tps" using window_observe_ok [OF _ _ obs] by blast
  then have "tps_updated c (sm_end s) (c\<lparr>ac_tpsWindow := tps\<rparr>)" "\<forall>e. window_ok e (window_reset tps)"
    by (auto simp: tps_updated_def window_reset_ok)
  with True obs show ?thesis by (cases ok) (auto simp: publishTPS_def)
qed

lemma window_reset_ok_all: "window_ok e w \<Longrightarrow> \<forall>e'. window_ok e' (window_reset w)"
  by (simp add: window_reset_ok)

lemma failClosed_tps_inv:
  assumes "controller_inv c" "ac_closedReason c = ReasonEmpty" "\<forall>e. window_ok e (window_reset tps)"
  shows "controller_inv (failClosed (c\<lparr>ac_tpsWindow := tps\<rparr>) r)"
  using assms by (simp add: controller_inv_def inv_core_def inv_res_def failClosed_def ledger_reset_def)

text \<open>A state that only awaits its new observation.\<close>

definition awaiting :: "AdmissionController \<Rightarrow> gotime \<Rightarrow> AdmissionController \<Rightarrow> bool" where
  "awaiting c e c' \<longleftrightarrow> ac_observationSequence c' = ac_observationSequence c \<and>
     (\<exists>c1 tps. c' = c1\<lparr>ac_tpsWindow := tps\<rparr> \<and> controller_inv c1 \<and> ac_closedReason c1 = ReasonEmpty \<and>
        window_ok e tps)"

lemma publishSample_inv:
  assumes "controller_inv c" "ac_closedReason c = ReasonEmpty" "sw_id window \<le> ac_sampleSequence c"
    and "ac_hasObservation c \<longrightarrow> bo_ObservedAt (ob_observation (ac_observation c)) \<le> bo_ObservedAt ob"
    and "publishSample c window ob g clk = (c', res)"
  shows "if res = None then awaiting c (bo_ObservedAt ob) c' else controller_inv c'"
proof (cases "(c', res) = (failClosed c ReasonControllerUnavailable, Some ReasonControllerUnavailable)")
  case True
  have "inv_core c" using assms(1) by (simp add: controller_inv_def)
  with True assms(2) show ?thesis by (simp add: failClosed_inv)
next
  case False
  then obtain ov n d fwd rsp where ov: "reconciledOverlay c (sw_eventSequence window) ob clk = Some (ov, n)"
    and d: "snapshot_subtract (sw_exposure window) (ac_lastExposure c) = Some d"
    and eq: "(c', res) = publishTPS (reconciled_state c window ob clk ov) window (sampleOf c ob g n fwd rsp)"
    using publishSample_outcome [OF assms(1), of window ob g clk] assms(5) by auto
  let ?c1 = "reconciled_state c window ob clk ov"
  have inv1: "controller_inv ?c1"
    using reconciled_state_inv [OF assms(1-3) _ ov] snapshot_subtract_valid [OF d] by blast
  have open1: "ac_closedReason ?c1 = ReasonEmpty" using assms(2) by (simp add: reconciled_state_def)
  have seq1: "ac_observationSequence ?c1 = ac_observationSequence c" by (simp add: reconciled_state_def)
  have s: "sm_end (sampleOf c ob g n fwd rsp) = bo_ObservedAt ob" by (simp add: sampleOf_def Let_def)
  have core1: "inv_core ?c1" using inv1 by (simp add: controller_inv_def)
  have le: "ac_hasObservation ?c1 \<longrightarrow>
      bo_ObservedAt (ob_observation (ac_observation ?c1)) \<le> sm_end (sampleOf c ob g n fwd rsp)"
    using assms(4) s by (simp add: reconciled_state_def)
  from publishTPS_outcome [OF core1 le, of window] show ?thesis
  proof (elim disjE exE conjE)
    fix c2 assume p: "publishTPS ?c1 window (sampleOf c ob g n fwd rsp) = (c2, None)"
      and u: "tps_updated ?c1 (sm_end (sampleOf c ob g n fwd rsp)) c2"
    then obtain tps where tps: "c2 = ?c1\<lparr>ac_tpsWindow := tps\<rparr>" "window_ok (bo_ObservedAt ob) tps"
      using s by (auto simp: tps_updated_def)
    have "c' = c2" "res = None" using p eq by simp_all
    moreover have "awaiting c (bo_ObservedAt ob) c2"
      unfolding awaiting_def using tps inv1 open1 seq1 by auto
    ultimately show ?thesis by simp
  next
    fix tps assume p: "publishTPS ?c1 window (sampleOf c ob g n fwd rsp) =
        (failClosed (?c1\<lparr>ac_tpsWindow := tps\<rparr>) ReasonCounterOverflow, Some ReasonCounterOverflow)"
      and w: "\<forall>e. window_ok e (window_reset tps)"
    with eq failClosed_tps_inv [OF inv1 open1 w] show ?thesis by simp
  qed
qed

lemma publishReset_inv:
  assumes "controller_inv c" "ac_closedReason c = ReasonEmpty" "publishReset c = (c', res)"
  shows "if res = None then awaiting c e c' else controller_inv c'"
proof (cases "ac_runtimeEpoch c = MaxUint64")
  case True
  have "inv_core c" using assms(1) by (simp add: controller_inv_def)
  with True assms show ?thesis by (auto simp: publishReset_def failClosed_inv)
next
  case False
  let ?c1 = "c\<lparr>ac_runtimeEpoch := ac_runtimeEpoch c + 1, ac_reservations := [],
     ac_overlay := zeroOverlay, ac_sampleSequence := 0, ac_lastPublishedSample := 0,
     ac_lastExposure := zeroExposure, ac_exposure := ledger_reset (ac_exposure c)\<rparr>"
  have core: "inv_core c" using assms(1) by (simp add: controller_inv_def)
  have "inv_core ?c1" using core False by (simp add: inv_core_def)
  moreover have "inv_res ?c1" using assms(2) by (simp add: inv_res_def ledger_reset_def)
  ultimately have inv1: "controller_inv ?c1" by (rule controller_invI)
  have "window_ok e (window_reset (ac_tpsWindow c))"
    using core window_reset_ok by (auto simp: inv_core_def split: if_splits)
  moreover have "c' = ?c1\<lparr>ac_tpsWindow := window_reset (ac_tpsWindow c)\<rparr>" "res = None"
    using False assms(3) by (auto simp: publishReset_def)
  ultimately show ?thesis
    using inv1 assms(2) unfolding awaiting_def by (auto intro!: exI [of _ ?c1])
qed

lemma publishCommit_inv:
  assumes "awaiting c (bo_ObservedAt ob) c'" "validBackendObservation ob"
    and "ac_observationSequence c < MaxUint64" "0 \<le> interval" "0 \<le> running" "0 \<le> waiting"
  shows "controller_inv (fst (publishCommit c' ob reset g p interval running waiting))"
proof -
  obtain c1 tps where c1: "c' = c1\<lparr>ac_tpsWindow := tps\<rparr>" "controller_inv c1" "window_ok (bo_ObservedAt ob) tps"
    and seq: "ac_observationSequence c1 < MaxUint64"
    using assms(1,3) by (auto simp: awaiting_def)
  let ?c2 = "fst (publishCommit c' ob reset g p interval running waiting)"
  have "inv_core c1" "inv_res c1" using c1(2) by (simp_all add: controller_inv_def)
  then have "inv_core ?c2" "inv_res ?c2"
    using seq assms(2,4-6) c1(3)
    by (simp_all add: publishCommit_def Let_def c1(1) inv_core_def inv_res_def observed_ok_def)
  then show ?thesis by (rule controller_invI)
qed

lemma histogram_inv: "controller_inv c \<Longrightarrow> controller_inv (c\<lparr>ac_windowHistogram := h\<rparr>)"
  by (simp add: controller_inv_def inv_core_def inv_res_def)

text \<open>
  The guards of \<open>PublishObservation\<close>, and the observation it commits when they pass.
\<close>

definition publishable :: "AdmissionController \<Rightarrow> SampleWindow \<Rightarrow> BackendObservation \<Rightarrow> bool" where
  "publishable c window ob \<longleftrightarrow> ac_closedReason c = ReasonEmpty \<and> window_acceptable c window \<and>
     validBackendObservation ob \<and> bo_RuntimeIdentity ob = ac_runtimeIdentity c \<and>
     (ac_hasObservation c \<longrightarrow>
        \<not> bo_ObservedAt ob < bo_ObservedAt (ob_observation (ac_observation c)) \<and>
        \<not> (flt (Fin 0) (bo_RuntimeStartTime (ob_observation (ac_observation c))) \<and>
           feq (bo_RuntimeStartTime ob) (Fin 0)))"

definition publish_base :: "AdmissionController \<Rightarrow> BackendObservation \<Rightarrow> AdmissionController" where
  "publish_base c ob =
     (if ac_hasObservation c \<and> \<not> runtimeReset c ob
      then c\<lparr>ac_windowHistogram := histogram_observe (ac_windowHistogram c) (ov_unobservedSequences (ac_overlay c))\<rparr>
      else c)"

lemma PublishObservation_refused:
  assumes "\<not> (publishable c window ob \<and> ac_observationSequence c \<noteq> MaxUint64)"
  shows "fst (PublishObservation c window ob clk) = c \<or>
     ac_closedReason c = ReasonEmpty \<and>
     (\<exists>r. r \<noteq> ReasonEmpty \<and> fst (PublishObservation c window ob clk) = failClosed c r)"
    and "\<not> pr_Accepted (snd (PublishObservation c window ob clk))"
  using assms unfolding publishable_def PublishObservation_def Let_def
  by (auto simp: rejectedPublication_def)

lemma PublishObservation_accepted:
  assumes "publishable c window ob" "ac_observationSequence c \<noteq> MaxUint64"
  shows "\<exists>g p interval running waiting. 0 \<le> interval \<and>
     (running = 0 \<or> ac_hasObservation c \<and> running = bo_Running (ob_observation (ac_observation c))) \<and>
     (waiting = 0 \<or> ac_hasObservation c \<and> waiting = bo_Waiting (ob_observation (ac_observation c))) \<and>
     PublishObservation c window ob clk =
       (case (if runtimeReset c ob then publishReset (publish_base c ob)
              else publishSample (publish_base c ob) window ob g clk) of
          (c1, Some reason) \<Rightarrow> (c1, rejectedPublication reason (ac_runtimeEpoch c1))
        | (c1, None) \<Rightarrow> publishCommit c1 ob (runtimeReset c ob) g p interval running waiting)"
proof -
  let ?known = "ac_hasObservation c \<and> \<not> runtimeReset c ob"
  let ?prev = "ob_observation (ac_observation c)"
  have iv: "0 \<le> (if ?known then Sub (bo_ObservedAt ob) (bo_ObservedAt ?prev) else 0)"
    using assms(1) by (auto simp: publishable_def)
  show ?thesis
    by (rule exI [of _ "if ?known then subu64 (bo_GenerationTokensTotal ob) (bo_GenerationTokensTotal ?prev) else 0"],
        rule exI [of _ "if ?known then subu64 (bo_PreemptionsTotal ob) (bo_PreemptionsTotal ?prev) else 0"],
        rule exI [of _ "if ?known then Sub (bo_ObservedAt ob) (bo_ObservedAt ?prev) else 0"],
        rule exI [of _ "if ?known then bo_Running ?prev else 0"],
        rule exI [of _ "if ?known then bo_Waiting ?prev else 0"])
       (use assms iv in \<open>auto simp: publishable_def PublishObservation_def publish_base_def Let_def\<close>)
qed

lemma PublishObservation_inv:
  assumes "controller_inv c"
  shows "controller_inv (fst (PublishObservation c window ob clk))"
proof (cases "publishable c window ob \<and> ac_observationSequence c \<noteq> MaxUint64")
  case False
  have "inv_core c" using assms by (simp add: controller_inv_def)
  with PublishObservation_refused(1) [OF False, of clk] assms failClosed_inv show ?thesis by metis
next
  case True
  from PublishObservation_accepted [OF conjunct1 [OF True] conjunct2 [OF True], of clk]
  obtain g p interval running waiting where
    n: "0 \<le> interval"
      "running = 0 \<or> ac_hasObservation c \<and> running = bo_Running (ob_observation (ac_observation c))"
      "waiting = 0 \<or> ac_hasObservation c \<and> waiting = bo_Waiting (ob_observation (ac_observation c))"
    and eq: "PublishObservation c window ob clk =
       (case (if runtimeReset c ob then publishReset (publish_base c ob)
              else publishSample (publish_base c ob) window ob g clk) of
          (c1, Some reason) \<Rightarrow> (c1, rejectedPublication reason (ac_runtimeEpoch c1))
        | (c1, None) \<Rightarrow> publishCommit c1 ob (runtimeReset c ob) g p interval running waiting)"
    by (elim exE conjE) (rule that)
  have core: "inv_core c" using assms by (simp add: controller_inv_def)
  have nn: "0 \<le> running" "0 \<le> waiting"
    using n(2,3) core by (auto simp: inv_core_def observed_ok_def validBackendObservation_def)
  let ?b = "publish_base c ob"
  have b: "controller_inv ?b" "ac_closedReason ?b = ReasonEmpty" "ac_sampleSequence ?b = ac_sampleSequence c"
    "ac_hasObservation ?b = ac_hasObservation c" "ac_observation ?b = ac_observation c"
    "ac_observationSequence ?b = ac_observationSequence c"
    using assms True histogram_inv by (simp_all add: publish_base_def publishable_def)
  obtain c1 res where step: "(if runtimeReset c ob then publishReset ?b else publishSample ?b window ob g clk) = (c1, res)"
    by fastforce
  have "if res = None then awaiting ?b (bo_ObservedAt ob) c1 else controller_inv c1"
  proof (cases "runtimeReset c ob")
    case True
    with step publishReset_inv [OF b(1,2)] show ?thesis by simp
  next
    case False
    have "sw_id window \<le> ac_sampleSequence ?b" using True b(3) by (simp add: publishable_def window_acceptable_def)
    moreover have "ac_hasObservation ?b \<longrightarrow> bo_ObservedAt (ob_observation (ac_observation ?b)) \<le> bo_ObservedAt ob"
      using True b by (auto simp: publishable_def)
    ultimately show ?thesis using False step publishSample_inv [OF b(1,2)] by simp
  qed
  note result = this
  note eq' = eq [unfolded step]
  show ?thesis
  proof (cases res)
    case (Some r)
    then have "fst (PublishObservation c window ob clk) = c1" using eq' by simp
    with result Some show ?thesis by simp
  next
    case None
    have lt: "ac_observationSequence ?b < MaxUint64"
      using True core b(6) by (simp add: inv_core_def)
    have v: "validBackendObservation ob" using True by (simp add: publishable_def)
    have "awaiting ?b (bo_ObservedAt ob) c1" using result None by simp
    from publishCommit_inv [OF this v lt n(1) nn] None eq' show ?thesis by simp
  qed
qed

lemma StartSampleWindow_inv:
  assumes "controller_inv c"
  shows "controller_inv (fst (StartSampleWindow c clk))"
proof (cases "ac_closedReason c = ReasonEmpty \<and> ac_sampleSequence c \<noteq> MaxUint64")
  case False
  have "inv_core c" using assms by (simp add: controller_inv_def)
  with False assms failClosed_inv show ?thesis by (auto simp: StartSampleWindow_def)
next
  case True
  have core: "inv_core c" and res: "inv_res c" using assms by (simp_all add: controller_inv_def)
  obtain l s where snap: "ledger_snapshot (ac_exposure c) clk = (l, s)" by fastforce
  show ?thesis
  proof (cases s)
    case None
    have "inv_core (c\<lparr>ac_exposure := l\<rparr>)" using core by (simp add: inv_core_def)
    then have "controller_inv (failClosed (c\<lparr>ac_exposure := l\<rparr>) ReasonControllerUnavailable)"
      using True by (intro failClosed_inv) simp_all
    with True None snap show ?thesis by (simp add: StartSampleWindow_def)
  next
    case (Some e)
    let ?c = "c\<lparr>ac_exposure := l, ac_sampleSequence := ac_sampleSequence c + 1\<rparr>"
    have l: "ledger_valid l" "el_activeForwarded l = el_activeForwarded (ac_exposure c)"
      "el_activeResponse l = el_activeResponse (ac_exposure c)"
      using ledger_snapshot_spec [OF inv_resD(4) [OF res] inv_forwarded_bound(4) [OF res]] snap Some by blast+
    have "inv_core ?c" using core True by (simp add: inv_core_def)
    moreover have "inv_res ?c" using res l by (simp add: inv_res_def)
    ultimately have "controller_inv ?c" by (rule controller_invI)
    with True Some snap show ?thesis by (simp add: StartSampleWindow_def Let_def)
  qed
qed

lemma UpdatePolicy_inv:
  assumes "controller_inv c"
  shows "controller_inv (fst (UpdatePolicy c u))"
proof (cases "validPolicyUpdate u \<and> ac_closedReason c = ReasonEmpty \<and> ac_policyRevision c \<noteq> MaxUint64 \<and>
    up_ExpectedRevision u = ac_policyRevision c")
  case False
  then show ?thesis using assms by (auto simp: UpdatePolicy_def Let_def)
next
  case True
  have core: "inv_core c" and res: "inv_res c" using assms by (simp_all add: controller_inv_def)
  let ?c = "fst (UpdatePolicy c u)"
  have "inv_res ?c" using res True by (simp add: UpdatePolicy_def Let_def inv_res_def)
  moreover have "inv_core ?c"
  proof -
    have ref: "finiteNonnegative (override (tw_reference (ac_tpsWindow c)) (up_TPSReference u))"
      using True core by (auto simp: validPolicyUpdate_def override_def inv_core_def window_ok_def
          split: option.splits if_splits)
    have lim: "0 < override (ac_windowConcurrency c) (up_WindowConcurrency u)"
      "override (ac_windowConcurrency c) (up_WindowConcurrency u) \<le> maximumTPSReservations"
      "0 \<le> override (ac_runningLimit c) (up_RunningLimit u)"
      "override (ac_runningLimit c) (up_RunningLimit u) \<le> maximumTPSReservations"
      "0 \<le> override (ac_waitingAllowance c) (up_WaitingAllowance u)"
      using True core by (auto simp: validPolicyUpdate_def override_def inv_core_def split: option.splits)
    show ?thesis
      using core True lim finite_reference_window [OF ref]
      by (simp add: UpdatePolicy_def Let_def inv_core_def policySnapshot_def)
  qed
  ultimately show ?thesis by (intro controller_invI)
qed

end
