(* ===== verification/Controller_Reach.thy ===== *)
theory Controller_Reach
  imports Controller_Publish
begin

text \<open>
  The controller as a transition system: any client may call any operation with any
  arguments and any reading of the clock. Every reachable state satisfies the invariant, by
  rule induction; what the operations promise their clients is derived from it.
\<close>

subsection \<open>Steps\<close>

datatype controllerOp =
    OpStartSampleWindow gotime
  | OpPublish SampleWindow BackendObservation gotime
  | OpAdmit gotime TPSRequestDemand
  | OpMarkForwarded ReservationHandle gotime
  | OpMarkFirstByte ReservationHandle gotime
  | OpTerminate ReservationHandle TerminalCause gotime
  | OpUpdatePolicy PolicyUpdate
  | OpClose

fun perform :: "AdmissionController \<Rightarrow> controllerOp \<Rightarrow> AdmissionController" where
  "perform c (OpStartSampleWindow clk) = fst (StartSampleWindow c clk)"
| "perform c (OpPublish window ob clk) = fst (PublishObservation c window ob clk)"
| "perform c (OpAdmit now d) = fst (Admit c now d)"
| "perform c (OpMarkForwarded h clk) = fst (MarkForwarded c h clk)"
| "perform c (OpMarkFirstByte h clk) = fst (MarkFirstByte c h clk)"
| "perform c (OpTerminate h cause clk) = fst (Terminate c h cause clk)"
| "perform c (OpUpdatePolicy u) = fst (UpdatePolicy c u)"
| "perform c OpClose = Close c"

inductive controller_step :: "AdmissionController \<Rightarrow> AdmissionController \<Rightarrow> bool" where
  step: "perform c op = c' \<Longrightarrow> controller_step c c'"

inductive_cases controller_stepE: "controller_step c c'"
inductive_simps controller_step_iff: "controller_step c c'"

inductive reachable :: "AdmissionController \<Rightarrow> bool" where
  new: "NewAdmissionController address config = Inr c \<Longrightarrow> reachable c"
| more: "reachable c \<Longrightarrow> controller_step c c' \<Longrightarrow> reachable c'"

lemma perform_inv: "controller_inv c \<Longrightarrow> controller_inv (perform c op)"
  by (cases op)
     (simp_all add: StartSampleWindow_inv PublishObservation_inv Admit_inv UpdatePolicy_inv Close_inv
        MarkForwarded_def markForwarded_inv MarkFirstByte_def markFirstByte_inv Terminate_def terminate_inv)

lemma reachable_inv: "reachable c \<Longrightarrow> controller_inv c"
  by (induction rule: reachable.induct) (auto simp: controller_step_iff intro: New_inv perform_inv)

lemma reachable_perform: "reachable c \<Longrightarrow> reachable (perform c op)"
  by (rule reachable.more) (auto intro: controller_step.step)

lemma perform_run: "reachable c \<Longrightarrow> reachable (foldl perform c ops)"
  by (induction ops arbitrary: c) (simp_all add: reachable_perform)

subsection \<open>The results of the life cycle operations\<close>

lemma markForwarded_result:
  obtains (failed) "life_failed c (markForwarded c e i clk)"
  | (success) item l where "e = ac_runtimeEpoch c" "forwards c i clk item l"
      "markForwarded c e i clk = (forwarded_state c i clk item l, True)"
  using markForwarded_outcome [of c e i clk] markForwarded_success by blast

lemma markFirstByte_result:
  obtains (failed) "life_failed c (markFirstByte c e i clk)"
  | (success) item ov l where "e = ac_runtimeEpoch c" "responds c i clk item ov l"
      "markFirstByte c e i clk = (responded_state c i item ov l, True)"
  using markFirstByte_outcome [of c e i clk] markFirstByte_success by blast

lemma terminate_result:
  obtains (failed) "life_failed c (terminate c e i cause clk)"
  | (success) item ov l where "e = ac_runtimeEpoch c" "terminates c i cause clk item ov l"
      "terminate c e i cause clk = (terminated_state c i cause item ov l, True)"
  using terminate_outcome [of c e i cause clk] terminate_success by blast

definition new_item :: "AdmissionController \<Rightarrow> TPSRequestDemand \<Rightarrow> reservation" where
  "new_item c d = zeroReservation\<lparr>rv_id := ac_nextReservationID c + 1,
     rv_runtimeEpoch := ac_runtimeEpoch c, rv_demand := d,
     rv_coldSheddable := coldSheddable (ap_tpsGate (ac_policy c)) d, rv_phase := reservationReserved\<rparr>"

definition admits ::
  "AdmissionController \<Rightarrow> gotime \<Rightarrow> TPSRequestDemand \<Rightarrow> ProjectedState \<Rightarrow> reservationOverlay \<Rightarrow>
   reservationOverlay \<Rightarrow> bool" where
  "admits c now d state share ov \<longleftrightarrow> demand_valid d \<and> stateLocked c now = (state, ReasonOpen, True) \<and>
     pd_action (policy_evaluateDemand (ac_policy c) state d (controllerBounds c)) = ActionAdmit \<and>
     int (length (ac_reservations c)) < ac_maximumReservations c \<and> ac_nextReservationID c \<noteq> MaxUint64 \<and>
     contribution (new_item c d) = Some share \<and> addOverlay (ac_overlay c) share = Some ov \<and>
     ac_eventSequence c \<noteq> MaxUint64"

definition admitted_state :: "AdmissionController \<Rightarrow> TPSRequestDemand \<Rightarrow> reservationOverlay \<Rightarrow> AdmissionController" where
  "admitted_state c d ov =
     c\<lparr>ac_eventSequence := ac_eventSequence c + 1, ac_nextReservationID := ac_nextReservationID c + 1,
       ac_overlay := ov, ac_reservations := AList.update (ac_nextReservationID c + 1)
         ((new_item c d)\<lparr>rv_admittedSequence := ac_eventSequence c + 1\<rparr>) (ac_reservations c)\<rparr>"

definition admitted_result :: "AdmissionController \<Rightarrow> TPSRequestDemand \<Rightarrow> ProjectedState \<Rightarrow> AdmissionResult" where
  "admitted_result c d state =
     \<lparr>ar_Decision = (decisionLocked c (policy_evaluateDemand (ac_policy c) state d (controllerBounds c)) d state)
        \<lparr>dr_ControllerSequence := ac_eventSequence c + 1,
         dr_ReservationID := ac_nextReservationID c + 1, dr_RuntimeEpoch := ac_runtimeEpoch c\<rparr>,
      ar_Handle = \<lparr>rh_controller = Some (ac_self c), rh_runtimeEpoch = ac_runtimeEpoch c,
        rh_id = ac_nextReservationID c + 1\<rparr>\<rparr>"

lemma stateLocked_reason: "stateLocked c now = (s, r, True) \<Longrightarrow> r = ReasonOpen"
  by (auto simp: stateLocked_def Let_def split: if_splits option.splits)

lemma Admit_success:
  "admits c now d state share ov \<Longrightarrow> Admit c now d = (admitted_state c d ov, admitted_result c d state)"
  by (simp add: Admit_def admits_def admitted_state_def admitted_result_def Let_def new_item_def
      nextEventSequence_def)

lemma Admit_refused:
  assumes "\<not> (\<exists>state share ov. admits c now d state share ov)"
  shows "\<not> Admitted (ar_Decision (snd (Admit c now d))) \<and> ar_Handle (snd (Admit c now d)) = zeroHandle \<and>
     (fst (Admit c now d) = c \<or>
      ac_closedReason c = ReasonEmpty \<and> (\<exists>r. r \<noteq> ReasonEmpty \<and> fst (Admit c now d) = failClosed c r))"
proof (cases "demand_valid d \<and> snd (snd (stateLocked c now))")
  case False
  then show ?thesis
    by (auto simp: Admit_def refused_def Admitted_def unavailableDecision_def split: prod.split)
next
  case True
  then obtain state where st: "stateLocked c now = (state, ReasonOpen, True)"
    using stateLocked_reason by (metis prod.collapse)
  have op: "ac_closedReason c = ReasonEmpty" using stateLocked_closed True by blast
  have d: "demand_valid d" using True by blast
  let ?p = "policy_evaluateDemand (ac_policy c) state d (controllerBounds c)"
  have dec: "pd_action ?p \<noteq> ActionAdmit \<Longrightarrow> \<not> Admitted (decisionLocked c ?p d state)"
    by (simp add: Admitted_def decisionLocked_def)
  consider "pd_action ?p \<noteq> ActionAdmit" | "pd_action ?p = ActionAdmit" "int (length (ac_reservations c)) \<ge> ac_maximumReservations c"
    | "pd_action ?p = ActionAdmit" "int (length (ac_reservations c)) < ac_maximumReservations c" "ac_nextReservationID c = MaxUint64"
    | "pd_action ?p = ActionAdmit" "int (length (ac_reservations c)) < ac_maximumReservations c" "ac_nextReservationID c \<noteq> MaxUint64"
      "contribution (new_item c d) = None"
    | share where "pd_action ?p = ActionAdmit" "int (length (ac_reservations c)) < ac_maximumReservations c" "ac_nextReservationID c \<noteq> MaxUint64"
      "contribution (new_item c d) = Some share" "addOverlay (ac_overlay c) share = None"
    | share ov where "pd_action ?p = ActionAdmit" "int (length (ac_reservations c)) < ac_maximumReservations c" "ac_nextReservationID c \<noteq> MaxUint64"
      "contribution (new_item c d) = Some share" "addOverlay (ac_overlay c) share = Some ov" "ac_eventSequence c = MaxUint64"
    using assms st d unfolding admits_def by (metis not_le option.exhaust)
  then show ?thesis
    using op d st dec
    by cases (auto simp: Admit_def Let_def new_item_def nextEventSequence_def refused_def Admitted_def unavailableDecision_def)
qed

lemma Admit_result:
  obtains (refused) "\<not> Admitted (ar_Decision (snd (Admit c now d)))" "ar_Handle (snd (Admit c now d)) = zeroHandle"
      "fst (Admit c now d) = c \<or>
       ac_closedReason c = ReasonEmpty \<and> (\<exists>r. r \<noteq> ReasonEmpty \<and> fst (Admit c now d) = failClosed c r)"
  | (success) state share ov where "admits c now d state share ov"
      "Admit c now d = (admitted_state c d ov, admitted_result c d state)"
  using Admit_refused [of c now d] Admit_success by blast

subsection \<open>Closing is permanent, epochs only grow\<close>

lemma failClosed_epoch: "ac_runtimeEpoch c \<le> ac_runtimeEpoch (failClosed c r)"
  by (simp add: failClosed_def)

lemma life_failed_epoch: "life_failed c res \<Longrightarrow> ac_runtimeEpoch c \<le> ac_runtimeEpoch (fst res)"
  by (auto simp: life_failed_def failClosed_def)

lemma publishTPS_epoch: "ac_runtimeEpoch c \<le> ac_runtimeEpoch (fst (publishTPS c w s))"
  by (auto simp: publishTPS_def Let_def failClosed_def split: prod.split)

lemma publishSample_epoch: "ac_runtimeEpoch c \<le> ac_runtimeEpoch (fst (publishSample c w ob g clk))"
  using publishTPS_epoch [of "(applyReconciliation c (sw_eventSequence w) ob clk)
      \<lparr>ac_overlay := ov, ac_lastPublishedSample := sw_id w, ac_lastExposure := sw_exposure w\<rparr>" w s for ov s]
  by (auto simp: publishSample_def applyReconciliation_def failClosed_def split: option.split prod.split)

lemma PublishObservation_epoch:
  "ac_runtimeEpoch c \<le> ac_runtimeEpoch (fst (PublishObservation c window ob clk))"
proof (cases "publishable c window ob \<and> ac_observationSequence c \<noteq> MaxUint64")
  case False
  from PublishObservation_refused(1) [OF this, of clk] show ?thesis
    using failClosed_epoch [of c] by (elim disjE exE conjE) simp_all
next
  case True
  obtain g p interval running waiting where
    eq: "PublishObservation c window ob clk =
       (case (if runtimeReset c ob then publishReset (publish_base c ob)
              else publishSample (publish_base c ob) window ob g clk) of
          (c1, Some reason) \<Rightarrow> (c1, rejectedPublication reason (ac_runtimeEpoch c1))
        | (c1, None) \<Rightarrow> publishCommit c1 ob (runtimeReset c ob) g p interval running waiting)"
    using PublishObservation_accepted [OF conjunct1 [OF True] conjunct2 [OF True], of clk]
    by (elim exE conjE) (rule that)
  obtain c1 res where step: "(if runtimeReset c ob then publishReset (publish_base c ob)
      else publishSample (publish_base c ob) window ob g clk) = (c1, res)" by fastforce
  have "ac_runtimeEpoch (publish_base c ob) = ac_runtimeEpoch c" by (simp add: publish_base_def)
  moreover have "ac_runtimeEpoch b \<le> ac_runtimeEpoch (fst (publishReset b))" for b
    by (simp add: publishReset_def failClosed_def)
  ultimately have "ac_runtimeEpoch c \<le> ac_runtimeEpoch c1"
    using step publishSample_epoch [of "publish_base c ob" window ob g clk]
    by (cases "runtimeReset c ob") (metis fst_conv)+
  then show ?thesis
    unfolding eq step by (cases res) (simp_all add: publishCommit_def Let_def)
qed

lemma nextEventSequence_epoch: "ac_runtimeEpoch c \<le> ac_runtimeEpoch (fst (nextEventSequence c))"
  by (simp add: nextEventSequence_def failClosed_def)

lemma Admit_epoch: "ac_runtimeEpoch c \<le> ac_runtimeEpoch (fst (Admit c now d))"
  by (auto simp: Admit_def Let_def nextEventSequence_def failClosed_def split: prod.split option.split)

lemma handle_epoch:
  "ac_runtimeEpoch c \<le> ac_runtimeEpoch (fst (markForwarded c e i clk))"
  "ac_runtimeEpoch c \<le> ac_runtimeEpoch (fst (markFirstByte c e i clk))"
  "ac_runtimeEpoch c \<le> ac_runtimeEpoch (fst (terminate c e i cause clk))"
proof -
  show "ac_runtimeEpoch c \<le> ac_runtimeEpoch (fst (markForwarded c e i clk))"
    by (cases rule: markForwarded_result [of c e i clk]) (simp_all add: life_failed_epoch forwarded_state_def)
  show "ac_runtimeEpoch c \<le> ac_runtimeEpoch (fst (markFirstByte c e i clk))"
    by (cases rule: markFirstByte_result [of c e i clk]) (simp_all add: life_failed_epoch responded_state_def)
  show "ac_runtimeEpoch c \<le> ac_runtimeEpoch (fst (terminate c e i cause clk))"
    by (cases rule: terminate_result [of c e i cause clk]) (simp_all add: life_failed_epoch terminated_state_def)
qed

lemma perform_epoch: "ac_runtimeEpoch c \<le> ac_runtimeEpoch (perform c op)"
proof (cases op)
  case (OpStartSampleWindow clk)
  then show ?thesis
    by (auto simp: StartSampleWindow_def failClosed_def Let_def split: prod.split option.split)
next
  case (OpUpdatePolicy u)
  then show ?thesis by (auto simp: UpdatePolicy_def Let_def)
qed (simp_all add: PublishObservation_epoch Admit_epoch MarkForwarded_def MarkFirstByte_def Terminate_def
    handle_epoch Close_def failClosed_epoch)

lemma run_epoch: "ac_runtimeEpoch c \<le> ac_runtimeEpoch (foldl perform c ops)"
proof (induction ops arbitrary: c)
  case (Cons op ops)
  then show ?case using perform_epoch [of c op] by (simp add: order_trans)
qed simp

text \<open>A closed controller does not change any more.\<close>

lemma perform_closed:
  assumes "ac_closedReason c \<noteq> ReasonEmpty"
  shows "perform c op = c"
proof (cases op)
  case (OpAdmit now d)
  then show ?thesis using assms by (simp add: Admit_def stateLocked_def)
next
  case (OpUpdatePolicy u)
  then show ?thesis using assms by (simp add: UpdatePolicy_def Let_def)
qed (use assms in \<open>simp_all add: StartSampleWindow_def PublishObservation_def Let_def MarkForwarded_def
      markForwarded_def MarkFirstByte_def markFirstByte_def Terminate_def terminate_def Close_def failClosed_def\<close>)

lemma run_closed: "ac_closedReason c \<noteq> ReasonEmpty \<Longrightarrow> foldl perform c ops = c"
  by (induction ops) (simp_all add: perform_closed)

subsection \<open>A finished reservation stays finished\<close>

text \<open>
  The id was given out in this epoch and the map holds at most its residual debt. Ids are
  never given out twice, so nothing brings the reservation back.
\<close>

definition finished :: "nat \<Rightarrow> AdmissionController \<Rightarrow> bool" where
  "finished i c \<longleftrightarrow> i \<le> ac_nextReservationID c \<and>
     (\<forall>r. map_of (ac_reservations c) i = Some r \<longrightarrow> rv_phase r = reservationResidualDebt)"

lemma finished_failClosed: "finished i c \<Longrightarrow> finished i (failClosed c r)"
  by (simp add: finished_def failClosed_def)

lemma finished_cong:
  "ac_nextReservationID c' = ac_nextReservationID c \<Longrightarrow> ac_reservations c' = ac_reservations c \<Longrightarrow>
     finished i c' = finished i c"
  by (simp add: finished_def)

lemma finished_life_failed:
  assumes "finished i c" "life_failed c res"
  shows "finished i (fst res)"
proof -
  have "finished i (c\<lparr>ac_eventSequence := n\<rparr>)" "finished i (c\<lparr>ac_eventSequence := n, ac_exposure := l\<rparr>)" for n l
    using assms(1) by (simp_all add: finished_def)
  then show ?thesis using assms finished_failClosed by (auto simp: life_failed_def)
qed

lemma finished_update:
  assumes "finished i c" "map_of (ac_reservations c) j = Some r" "rv_phase r \<noteq> reservationResidualDebt"
    and "ac_nextReservationID c' = ac_nextReservationID c"
    and "ac_reservations c' = AList.update j r' (ac_reservations c) \<or>
         ac_reservations c' = AList.delete j (ac_reservations c)"
  shows "finished i c'"
proof -
  have "i \<noteq> j" using assms(1-3) by (auto simp: finished_def)
  with assms show ?thesis by (auto simp: finished_def update_conv' delete_conv')
qed

lemma finished_markForwarded: "finished i c \<Longrightarrow> finished i (fst (markForwarded c e j clk))"
proof (cases rule: markForwarded_result [of c e j clk])
  case failed
  then show "finished i c \<Longrightarrow> ?thesis" by (rule finished_life_failed [rotated])
next
  case (success item l)
  assume "finished i c"
  then show ?thesis
    using success finished_update [of i c j item "forwarded_state c j clk item l" "forwarded_item item clk (ac_eventSequence c + 1)"]
    by (simp add: forwards_def forwarded_state_def)
qed

lemma finished_markFirstByte: "finished i c \<Longrightarrow> finished i (fst (markFirstByte c e j clk))"
proof (cases rule: markFirstByte_result [of c e j clk])
  case failed
  then show "finished i c \<Longrightarrow> ?thesis" by (rule finished_life_failed [rotated])
next
  case (success item ov l)
  assume "finished i c"
  then show ?thesis
    using success finished_update [of i c j item "responded_state c j item ov l" "decoding_item item"]
    by (simp add: responds_def responded_state_def)
qed

lemma finished_terminate: "finished i c \<Longrightarrow> finished i (fst (terminate c e j cause clk))"
proof (cases rule: terminate_result [of c e j cause clk])
  case failed
  then show "finished i c \<Longrightarrow> ?thesis" by (rule finished_life_failed [rotated])
next
  case (success item ov l)
  assume "finished i c"
  then show ?thesis
    using success finished_update [of i c j item "terminated_state c j cause item ov l" "debt_item item (ac_eventSequence c + 1)"]
    by (simp add: terminates_def terminated_state_def)
qed

lemma finished_Admit:
  assumes "finished i c"
  shows "finished i (fst (Admit c now d))"
proof (cases rule: Admit_result [of c now d])
  case refused
  then show ?thesis using assms finished_failClosed by auto
next
  case (success state share ov)
  then show ?thesis using assms by (auto simp: admitted_state_def finished_def update_conv')
qed

lemma reconciled_phase:
  assumes "distinct (keys rs)" "map_of (reconciled w ob t d rs) i = Some r"
  shows "\<exists>r0. map_of rs i = Some r0 \<and> rv_phase r = rv_phase r0"
  using assms
proof (induction rs)
  case (Cons x rs)
  obtain k r0 where x: "x = (k, r0)" by fastforce
  obtain nxt rem ch where rec: "reconcileReservation r0 w ob t d = (nxt, rem, ch)" by (metis prod.exhaust)
  have ph: "rv_phase nxt = rv_phase r0" if "\<not> rem"
    using rec that by (auto simp: reconcileReservation_def Let_def split: if_splits)
  have "i \<notin> set (keys (reconciled w ob t d rs))" if "i = k"
    using that Cons.prems(1) reconciled_keys [of w ob t d rs] by (auto simp: x)
  then have none: "map_of (reconciled w ob t d rs) k = None" if "i = k"
    using that by (simp add: map_of_eq_None_iff)
  show ?case
  proof (cases "i = k")
    case True
    with Cons.prems(2) none rec ph show ?thesis by (cases rem) (auto simp: x survivor_def)
  next
    case False
    then have "map_of (reconciled w ob t d rs) i = Some r"
      using Cons.prems(2) rec by (cases rem) (auto simp: x survivor_def)
    with Cons False show ?thesis by (simp add: x)
  qed
qed simp

lemma finished_reconciled:
  assumes "controller_inv c" "finished i c" "ac_nextReservationID c' = ac_nextReservationID c"
    "ac_reservations c' = reconciled w ob t d (ac_reservations c)"
  shows "finished i c'"
proof -
  have "distinct (keys (ac_reservations c))" using assms(1) by (simp add: controller_inv_def inv_res_def)
  from reconciled_phase [OF this] assms show ?thesis by (fastforce simp: finished_def)
qed

lemma finished_nil: "finished i c \<Longrightarrow> ac_nextReservationID c' = ac_nextReservationID c \<Longrightarrow>
     ac_reservations c' = [] \<Longrightarrow> finished i c'"
  by (simp add: finished_def)

lemma finished_publishTPS: "finished i c \<Longrightarrow> finished i (fst (publishTPS c w s))"
  by (auto simp: publishTPS_def Let_def finished_def failClosed_def split: prod.split)

lemma finished_publishSample:
  assumes "controller_inv c" "finished i c"
  shows "finished i (fst (publishSample c window ob g clk))"
  using publishSample_outcome [OF assms(1), of window ob g clk]
proof (elim disjE exE conjE)
  assume "publishSample c window ob g clk = (failClosed c ReasonControllerUnavailable, Some ReasonControllerUnavailable)"
  then show ?thesis using finished_failClosed [OF assms(2)] by simp
next
  fix ov n d fwd rsp
  assume eq: "publishSample c window ob g clk =
     publishTPS (reconciled_state c window ob clk ov) window (sampleOf c ob g n fwd rsp)"
  have "finished i (reconciled_state c window ob clk ov)"
    using assms by (rule finished_reconciled) (simp_all add: reconciled_state_def)
  then show ?thesis using eq finished_publishTPS by simp
qed

lemma finished_Publish:
  assumes "controller_inv c" "finished i c"
  shows "finished i (fst (PublishObservation c window ob clk))"
proof (cases "publishable c window ob \<and> ac_observationSequence c \<noteq> MaxUint64")
  case False
  from PublishObservation_refused(1) [OF this, of clk] show ?thesis
    using assms(2) finished_failClosed [OF assms(2)] by (elim disjE exE conjE) simp_all
next
  case True
  obtain g p interval running waiting where
    eq: "PublishObservation c window ob clk =
       (case (if runtimeReset c ob then publishReset (publish_base c ob)
              else publishSample (publish_base c ob) window ob g clk) of
          (c1, Some reason) \<Rightarrow> (c1, rejectedPublication reason (ac_runtimeEpoch c1))
        | (c1, None) \<Rightarrow> publishCommit c1 ob (runtimeReset c ob) g p interval running waiting)"
    using PublishObservation_accepted [OF conjunct1 [OF True] conjunct2 [OF True], of clk]
    by (elim exE conjE) (rule that)
  obtain c1 res where step: "(if runtimeReset c ob then publishReset (publish_base c ob)
      else publishSample (publish_base c ob) window ob g clk) = (c1, res)" by fastforce
  have b: "controller_inv (publish_base c ob)" "finished i (publish_base c ob)"
    using assms histogram_inv by (simp_all add: publish_base_def finished_def)
  have "finished i (fst (publishReset (publish_base c ob)))"
    using b(2) by (simp add: publishReset_def finished_def failClosed_def)
  with finished_publishSample [OF b, of window ob g clk] step have "finished i c1"
    by (cases "runtimeReset c ob") (metis fst_conv)+
  then show ?thesis
    unfolding eq step by (cases res) (simp_all add: publishCommit_def Let_def finished_def)
qed

lemma finished_perform:
  assumes "controller_inv c" "finished i c"
  shows "finished i (perform c op)"
proof (cases op)
  case (OpStartSampleWindow clk)
  have "finished i (failClosed (c\<lparr>ac_exposure := l\<rparr>) r)" for l r
    using assms(2) by (intro finished_failClosed) (simp add: finished_def)
  then show ?thesis
    using OpStartSampleWindow assms(2) finished_failClosed [OF assms(2)]
    by (auto simp: StartSampleWindow_def Let_def finished_def split: prod.split option.split)
next
  case (OpUpdatePolicy u)
  then show ?thesis using assms(2) by (auto simp: UpdatePolicy_def Let_def finished_def)
qed (use assms in \<open>simp_all add: finished_Publish finished_Admit MarkForwarded_def finished_markForwarded
      MarkFirstByte_def finished_markFirstByte Terminate_def finished_terminate Close_def finished_failClosed\<close>)

lemma finished_run: "controller_inv c \<Longrightarrow> finished i c \<Longrightarrow> finished i (foldl perform c ops)"
  by (induction ops arbitrary: c) (simp_all add: perform_inv finished_perform)

text \<open>What a client of a finished reservation sees: its handle does nothing any more.\<close>

lemma finished_handle:
  assumes "finished (rh_id h) c"
  shows "MarkForwarded c h clk = (c, False)" "MarkFirstByte c h clk = (c, False)"
    "Terminate c h cause clk = (c, False)"
  using assms
  by (auto simp: finished_def MarkForwarded_def markForwarded_def MarkFirstByte_def markFirstByte_def
      Terminate_def terminate_def split: option.split)

lemma stale_handle:
  assumes "rh_runtimeEpoch h \<noteq> ac_runtimeEpoch c"
  shows "MarkForwarded c h clk = (c, False)" "MarkFirstByte c h clk = (c, False)"
    "Terminate c h cause clk = (c, False)"
  using assms
  by (simp_all add: MarkForwarded_def markForwarded_def MarkFirstByte_def markFirstByte_def
      Terminate_def terminate_def)

end
