(* ===== verification/Controller_Total.thy ===== *)
theory Controller_Total
  imports Controller_Reach
begin

text \<open>
  The life cycle never fails closed on its own: in a state that satisfies the invariant a
  step on a reservation in the right phase succeeds, as long as the event counter is not
  exhausted and the ledger has room for the time that has passed.
\<close>

definition life_ready :: "AdmissionController \<Rightarrow> ReservationHandle \<Rightarrow> reservation \<Rightarrow> gotime \<Rightarrow> bool" where
  "life_ready c h item clk \<longleftrightarrow> ac_closedReason c = ReasonEmpty \<and> rh_controller h = Some (ac_self c) \<and>
     rh_runtimeEpoch h = ac_runtimeEpoch c \<and> map_of (ac_reservations c) (rh_id h) = Some item \<and>
     ac_eventSequence c < MaxUint64 \<and> ledger_room (ac_exposure c) clk"

lemma sumOf_split:
  assumes "distinct (keys rs)" "map_of rs i = Some r"
  shows "sumOf f rs = f r + sumOf f (AList.delete i rs)"
proof -
  obtain ys zs where "rs = ys @ (i, r) # zs" "i \<notin> set (keys ys)" "i \<notin> set (keys zs)"
    using split_at_key [OF assms(2,1)] by blast
  then show ?thesis by (simp add: delete_at_key)
qed

lemma sumOf_delete_mono:
  assumes "\<forall>(k, r)\<in>set rs. f r \<le> g r"
  shows "sumOf f (AList.delete i rs) \<le> sumOf g (AList.delete i rs)"
  using assms by (intro sumOf_mono) (auto simp: AList.delete_eq)

lemma life_ready_facts:
  assumes "controller_inv c" "life_ready c h item clk"
  shows "handle_usable h" "rv_runtimeEpoch item = ac_runtimeEpoch c" "demand_valid (rv_demand item)"
    and "contribution item = Some (phaseShare item)"
    and "res_ok (ac_runtimeEpoch c) (ac_eventSequence c) (ac_nextReservationID c) (rh_id h) item"
proof -
  have res: "inv_res c" and epoch: "1 \<le> ac_runtimeEpoch c"
    using assms(1) by (simp_all add: controller_inv_def inv_core_def)
  show ok: "res_ok (ac_runtimeEpoch c) (ac_eventSequence c) (ac_nextReservationID c) (rh_id h) item"
    using inv_item [OF res] assms(2) by (simp add: life_ready_def)
  then show "rv_runtimeEpoch item = ac_runtimeEpoch c" "demand_valid (rv_demand item)" by (simp_all add: res_ok_def)
  show "handle_usable h" using ok epoch assms(2) by (auto simp: handle_usable_def life_ready_def res_ok_def)
  show "contribution item = Some (phaseShare item)" using res_ok_share [OF ok epoch] .
qed

text \<open>The sums the ledger keeps, with one reservation taken out.\<close>

lemma life_sums:
  assumes "inv_res c" "map_of (ac_reservations c) i = Some item"
  shows "el_activeForwarded (ac_exposure c) = forwardedOf item + sumOf forwardedOf (AList.delete i (ac_reservations c))"
    and "el_activeResponse (ac_exposure c) = responseOf item + sumOf responseOf (AList.delete i (ac_reservations c))"
    and "0 \<le> sumOf responseOf (AList.delete i (ac_reservations c))"
    and "sumOf responseOf (AList.delete i (ac_reservations c)) \<le> sumOf forwardedOf (AList.delete i (ac_reservations c))"
    and "dm_DecodeSequences (rv_demand item) + sumOf forwardedOf (AList.delete i (ac_reservations c)) \<le> MaxInt64"
proof -
  note r = inv_resD [OF assms(1)]
  show "el_activeForwarded (ac_exposure c) = forwardedOf item + sumOf forwardedOf (AList.delete i (ac_reservations c))"
    using r(5) sumOf_split [OF r(1) assms(2)] by simp
  show "el_activeResponse (ac_exposure c) = responseOf item + sumOf responseOf (AList.delete i (ac_reservations c))"
    using r(6) sumOf_split [OF r(1) assms(2)] by simp
  have all: "\<forall>(k, r)\<in>set (ac_reservations c). 0 \<le> responseOf r \<and> responseOf r \<le> forwardedOf r \<and>
      forwardedOf r \<le> dm_DecodeSequences (rv_demand r)"
    using r(2) res_ok_bounds by fastforce
  then show "0 \<le> sumOf responseOf (AList.delete i (ac_reservations c))"
    by (intro sumOf_nonneg) (auto simp: AList.delete_eq)
  show "sumOf responseOf (AList.delete i (ac_reservations c)) \<le> sumOf forwardedOf (AList.delete i (ac_reservations c))"
    using all by (intro sumOf_delete_mono) auto
  have "sumOf forwardedOf (AList.delete i (ac_reservations c)) \<le>
      sumOf (\<lambda>r. dm_DecodeSequences (rv_demand r)) (AList.delete i (ac_reservations c))"
    using all by (intro sumOf_delete_mono) auto
  then show "dm_DecodeSequences (rv_demand item) + sumOf forwardedOf (AList.delete i (ac_reservations c)) \<le> MaxInt64"
    using inv_forwarded_bound(2,3) [OF assms(1)]
      sumOf_split [OF r(1) assms(2), of "\<lambda>r. dm_DecodeSequences (rv_demand r)"] by simp
qed

text \<open>Replacing one contribution by one of the same demand always fits.\<close>

lemma life_replace:
  assumes "inv_res c" "map_of (ac_reservations c) i = Some item" "contribution item = Some a"
    and "contribution item' = Some b" "rv_demand item' = rv_demand item"
  shows "\<exists>ov. replaceOverlay (ac_overlay c) a b = Some ov"
proof -
  note r = inv_resD [OF assms(1)]
  obtain ys zs where rs: "ac_reservations c = ys @ (i, item) # zs"
    using split_at_key [OF assms(2) r(1)] by blast
  have t: "acct.total (map snd ys @ item # map snd zs) = Some (ac_overlay c)" using r(3) rs by simp
  have "decodeSum (map snd ys @ item' # map snd zs) \<le> MaxInt64"
    using inv_forwarded_bound(2,3) [OF assms(1)] assms(5) rs by (simp add: sumOf_decode)
  moreover have "\<forall>x\<in>set (map snd ys @ item' # map snd zs). \<exists>c. contribution x = Some c"
    using total_facts [OF t] assms(4) by auto
  ultimately obtain ov where "acct.total (map snd ys @ item' # map snd zs) = Some ov"
    using total_exists by blast
  then show ?thesis
    using acct.total_replace [OF t assms(3,4)] by (auto simp: replaceOverlay_def bind_eq_Some_conv)
qed

lemma MarkForwarded_total:
  assumes "controller_inv c" "life_ready c h item clk" "rv_phase item = reservationReserved"
  shows "\<exists>l. MarkForwarded c h clk = (forwarded_state c (rh_id h) clk item l, True)"
proof -
  have res: "inv_res c" using assms(1) by (simp add: controller_inv_def)
  note f = life_ready_facts [OF assms(1,2)]
  note g = assms(2) [unfolded life_ready_def]
  have m: "map_of (ac_reservations c) (rh_id h) = Some item" using g by blast
  note s = life_sums [OF res m]
  have "snd (addForwarded (ac_exposure c) clk (dm_DecodeSequences (rv_demand item)))"
    using s(1,5) assms(3) g demand_valid_seqs [OF f(3)]
    by (intro addForwarded_total inv_resD(4) [OF res] inv_forwarded_bound(4) [OF res])
      (simp_all add: forwardedOf_def)
  then obtain l where "addForwarded (ac_exposure c) clk (dm_DecodeSequences (rv_demand item)) = (l, True)"
    by (metis prod.collapse)
  then have "forwards c (rh_id h) clk item l"
    using g f assms(3) by (simp add: forwards_def ledger_room_def)
  from markForwarded_success [OF this] show ?thesis using g f(1) by (auto simp: MarkForwarded_def)
qed

lemma MarkFirstByte_total:
  assumes "controller_inv c" "life_ready c h item clk" "rv_phase item = reservationForwarded"
  shows "\<exists>ov l. MarkFirstByte c h clk = (responded_state c (rh_id h) item ov l, True)"
proof -
  have res: "inv_res c" using assms(1) by (simp add: controller_inv_def)
  note f = life_ready_facts [OF assms(1,2)]
  note g = assms(2) [unfolded life_ready_def]
  have m: "map_of (ac_reservations c) (rh_id h) = Some item" using g by blast
  note s = life_sums [OF res m]
  have "contribution (decoding_item item) = Some (phaseShare (decoding_item item))"
  proof (rule res_ok_share)
    show "res_ok (ac_runtimeEpoch c) (ac_eventSequence c) (ac_nextReservationID c) (rh_id h) (decoding_item item)"
      using f(5) assms(3) by (simp add: res_ok_def decoding_item_def)
    show "1 \<le> ac_runtimeEpoch c" using assms(1) by (simp add: controller_inv_def inv_core_def)
  qed
  moreover have dec: "rv_demand (decoding_item item) = rv_demand item" by (simp add: decoding_item_def)
  ultimately obtain ov where "replaceOverlay (ac_overlay c) (phaseShare item) (phaseShare (decoding_item item)) = Some ov"
    and b: "contribution (decoding_item item) = Some (phaseShare (decoding_item item))"
    using life_replace [OF res m f(4) _ dec] by blast
  moreover have "snd (addResponse (ac_exposure c) clk 1)"
    using s(1-4) assms(3) g demand_valid_seqs [OF f(3)]
    by (intro addResponse_total inv_resD(4) [OF res] inv_forwarded_bound(4) [OF res])
      (simp_all add: forwardedOf_def responseOf_def)
  then obtain l where "addResponse (ac_exposure c) clk 1 = (l, True)" by (metis prod.collapse)
  ultimately have "responds c (rh_id h) clk item ov l"
    using g f assms(3) by (auto simp: responds_def)
  from markFirstByte_success [OF this] show ?thesis using g f(1) by (auto simp: MarkFirstByte_def)
qed

lemma Terminate_total:
  assumes "controller_inv c" "life_ready c h item clk" "rv_phase item \<noteq> reservationResidualDebt"
    and "TerminalCause_valid cause"
  shows "\<exists>ov l. Terminate c h cause clk = (terminated_state c (rh_id h) cause item ov l, True)"
proof -
  have res: "inv_res c" using assms(1) by (simp add: controller_inv_def)
  note f = life_ready_facts [OF assms(1,2)]
  note g = assms(2) [unfolded life_ready_def]
  have m: "map_of (ac_reservations c) (rh_id h) = Some item" using g by blast
  note s = life_sums [OF res m]
  have pos: "1 \<le> dm_DecodeSequences (rv_demand item)" using demand_valid_seqs [OF f(3)] .
  obtain b ov where b: "(if removes item cause then Some zeroOverlay
      else contribution (item\<lparr>rv_phase := reservationResidualDebt\<rparr>)) = Some b"
    "replaceOverlay (ac_overlay c) (phaseShare item) b = Some ov"
  proof (cases "removes item cause")
    case True
    note r = inv_resD [OF res]
    obtain ys zs where rs: "ac_reservations c = ys @ (rh_id h, item) # zs"
      using split_at_key [OF m r(1)] by blast
    have t: "acct.total (map snd ys @ item # map snd zs) = Some (ac_overlay c)" using r(3) rs by simp
    obtain u where u: "subtractOverlay (ac_overlay c) (phaseShare item) = Some u"
      "acct.total (map snd ys @ map snd zs) = Some u" using acct.total_remove [OF t f(4)] by blast
    have "addOverlay u zeroOverlay = Some u"
      using overlay_fits_total [OF u(2)] by (simp add: addOverlay_zero)
    with True u(1) that show ?thesis by (simp add: replaceOverlay_def)
  next
    case False
    let ?d = "item\<lparr>rv_phase := reservationResidualDebt\<rparr>"
    have c: "contribution ?d = Some (phaseShare ?d)"
      using contribution_eq [of ?d] f(2,3,5) assms(1)
      by (simp add: res_ok_def controller_inv_def inv_core_def)
    from life_replace [OF res m f(4) c] False that c show ?thesis by auto
  qed
  have cnt: "reservationExposureCounts item = Some (forwardedOf item, responseOf item)"
    using f(3,5) assms(3)
    by (cases "rv_phase item")
       (simp_all add: reservationExposureCounts_def effectiveDemand_def forwardedOf_def responseOf_def res_ok_def)
  obtain l where l: "if forwardedOf item > 0
      then remove_exposure (ac_exposure c) clk (forwardedOf item) (responseOf item) = (l, True)
      else l = ac_exposure c"
  proof (cases "forwardedOf item > 0")
    case True
    have "snd (remove_exposure (ac_exposure c) clk (forwardedOf item) (responseOf item))"
      using s(1-4) True g res_ok_bounds [OF f(5)]
      by (intro remove_exposure_total inv_resD(4) [OF res] inv_forwarded_bound(4) [OF res]) simp_all
    with True that show ?thesis by (metis prod.collapse)
  next
    case False
    with that show ?thesis by simp
  qed
  have "terminates c (rh_id h) cause clk item ov l"
    unfolding terminates_def using g f assms(3,4) b cnt l
    by (intro conjI exI [of _ "phaseShare item"] exI [of _ b] exI [of _ "forwardedOf item"]
          exI [of _ "responseOf item"]) simp_all
  from terminate_success [OF this] show ?thesis using g f(1) assms(4) by (auto simp: Terminate_def)
qed

end
