(* ===== verification/Controller_Contract.thy ===== *)
theory Controller_Contract
  imports Controller_Total
begin

text \<open>
  What a client of the controller relies on, derived from the transition system: the effect
  of a termination, what an admission implies about the bounds, that a sample window is
  published once, that a runtime reset ends every reservation, and how a policy update
  compares and sets.
\<close>

subsection \<open>Termination\<close>

lemma Terminate_finished:
  assumes "controller_inv c" "terminate c e i cause clk = (c', True)"
  shows "finished i c'"
proof (cases rule: terminate_result [of c e i cause clk])
  case failed
  then show ?thesis using life_failed_inv [OF assms(1)] assms(2) by fastforce
next
  case (success item ov l)
  have "res_ok (ac_runtimeEpoch c) (ac_eventSequence c) (ac_nextReservationID c) i item"
    using inv_item success(2) assms(1) by (auto simp: controller_inv_def terminates_def)
  moreover have "distinct (keys (ac_reservations c))" using assms(1) by (simp add: controller_inv_def inv_res_def)
  ultimately show ?thesis
    using success(3) assms(2)
    by (auto simp: finished_def terminated_state_def debt_item_def res_ok_def update_conv' delete_conv')
qed

subsection \<open>Admission and the bounds\<close>

lemma admits_state:
  assumes "admits c now d state share ov"
  shows "ac_hasObservation c \<and> ac_closedReason c = ReasonEmpty \<and>
     ps_UnobservedSequences state = ov_unobservedSequences (ac_overlay c) \<and>
     ps_ColdSheddablePending state = ov_coldSheddablePending (ac_overlay c) \<and>
     ps_RawRunning state = bo_Running (ob_observation (ac_observation c)) \<and>
     ps_RawWaiting state = bo_Waiting (ob_observation (ac_observation c)) \<and>
     ps_TPS state = window_snapshot (ac_tpsWindow c) now \<and>
     0 \<le> ps_RawWaiting state"
proof -
  have st: "stateLocked c now = (state, ReasonOpen, True)" using assms by (simp add: admits_def)
  then obtain s0 where p: "project (ac_observation c) (ac_overlay c) = Some s0"
    and eq: "state = s0\<lparr>ps_TPS := window_snapshot (ac_tpsWindow c) now\<rparr>"
    and op: "ac_hasObservation c" "ac_closedReason c = ReasonEmpty"
    by (auto simp: stateLocked_def Let_def split: if_splits option.splits)
  show ?thesis using project_Some [OF p] op by (simp add: eq validProjectedState_def)
qed

lemma admits_overlay:
  assumes "controller_inv c" "admits c now d state share ov"
  shows "share = phaseShare (new_item c d) \<and> ov = overlay_plus (ac_overlay c) share \<and>
     ov_unobservedSequences ov = ov_unobservedSequences (ac_overlay c) + dm_DecodeSequences d"
proof -
  have "1 \<le> ac_runtimeEpoch c" and t: "acct.total (map snd (ac_reservations c)) = Some (ac_overlay c)"
    using assms(1) by (simp_all add: controller_inv_def inv_core_def inv_res_def)
  with assms(2) have share: "share = phaseShare (new_item c d)"
    using contribution_eq [of "new_item c d"] by (simp add: admits_def new_item_def zeroReservation_def)
  have "overlay_valid share" using assms(2) acct.contrib_valid by (auto simp: admits_def)
  then have "ov = overlay_plus (ac_overlay c) share"
    using assms(2) overlay_add_facts overlay_fits_total [OF t] by (auto simp: admits_def)
  with share show ?thesis by (simp add: overlay_plus_def phaseShare_def new_item_def zeroReservation_def)
qed

subsection \<open>A sample window is published once\<close>

definition progress :: "AdmissionController \<Rightarrow> AdmissionController \<Rightarrow> bool" where
  "progress c c' \<longleftrightarrow> ac_runtimeEpoch c < ac_runtimeEpoch c' \<or>
     ac_runtimeEpoch c = ac_runtimeEpoch c' \<and> ac_lastPublishedSample c \<le> ac_lastPublishedSample c'"

definition spent :: "SampleWindow \<Rightarrow> AdmissionController \<Rightarrow> bool" where
  "spent w c \<longleftrightarrow> sw_runtimeEpoch w < ac_runtimeEpoch c \<or>
     sw_runtimeEpoch w = ac_runtimeEpoch c \<and> sw_id w \<le> ac_lastPublishedSample c"

lemma progress_refl [simp]: "progress c c"
  by (simp add: progress_def)

lemma progress_same:
  "ac_runtimeEpoch c' = ac_runtimeEpoch c \<Longrightarrow> ac_lastPublishedSample c' = ac_lastPublishedSample c \<Longrightarrow> progress c c'"
  by (simp add: progress_def)

lemma progress_trans: "progress a b \<Longrightarrow> progress b c \<Longrightarrow> progress a c"
  by (auto simp: progress_def)

lemma progress_failClosed: "progress c (failClosed c r)"
  by (simp add: progress_def failClosed_def)

lemma progress_failClosed_from:
  "ac_runtimeEpoch b = ac_runtimeEpoch c \<Longrightarrow> ac_lastPublishedSample b = ac_lastPublishedSample c \<Longrightarrow>
     progress c (failClosed b r)"
  using progress_same progress_failClosed progress_trans by blast

lemma spent_progress: "spent w c \<Longrightarrow> progress c c' \<Longrightarrow> spent w c'"
  by (auto simp: spent_def progress_def)

lemma spent_rejected:
  "spent w c \<Longrightarrow> PublishObservation c w ob clk =
     (c, rejectedPublication (if ac_closedReason c = ReasonEmpty then ReasonObservationInvalid
                              else ac_closedReason c) (ac_runtimeEpoch c))"
  by (auto simp: spent_def PublishObservation_def window_acceptable_def Let_def)

lemma life_failed_progress: "life_failed c res \<Longrightarrow> progress c (fst res)"
  by (auto simp: life_failed_def intro!: progress_failClosed_from)

lemma publishTPS_progress: "progress c (fst (publishTPS c w s))"
  by (auto simp: publishTPS_def Let_def intro: progress_same progress_failClosed_from split: prod.split)

lemma publishSample_progress:
  assumes "controller_inv c" "ac_lastPublishedSample c < sw_id w" "publishSample c w ob g clk = (c', res)"
  shows "progress c c' \<and> (res = None \<longrightarrow> ac_runtimeEpoch c' = ac_runtimeEpoch c \<and> ac_lastPublishedSample c' = sw_id w)"
  using publishSample_outcome [OF assms(1), of w ob g clk]
proof (elim disjE exE conjE)
  assume "publishSample c w ob g clk = (failClosed c ReasonControllerUnavailable, Some ReasonControllerUnavailable)"
  then show ?thesis using assms(3) progress_failClosed by simp
next
  fix ov n d fwd rsp
  let ?b = "reconciled_state c w ob clk ov"
  assume eq: "publishSample c w ob g clk = publishTPS ?b w (sampleOf c ob g n fwd rsp)"
  have "progress c ?b" using assms(2) by (simp add: progress_def reconciled_state_def)
  moreover have "progress ?b c'" using publishTPS_progress [of ?b w] eq assms(3) by (metis fst_conv)
  moreover have "res = None \<longrightarrow> ac_runtimeEpoch c' = ac_runtimeEpoch ?b \<and> ac_lastPublishedSample c' = ac_lastPublishedSample ?b"
    using eq assms(3) by (auto simp: publishTPS_def Let_def split: if_splits prod.splits)
  ultimately show ?thesis using progress_trans by (auto simp: reconciled_state_def)
qed

lemma PublishObservation_progress:
  assumes "controller_inv c"
  shows "progress c (fst (PublishObservation c w ob clk)) \<and>
     (pr_Accepted (snd (PublishObservation c w ob clk)) \<longrightarrow> spent w (fst (PublishObservation c w ob clk)))"
proof (cases "publishable c w ob \<and> ac_observationSequence c \<noteq> MaxUint64")
  case False
  from PublishObservation_refused [OF this, of clk] show ?thesis
    using progress_failClosed [of c] by (elim disjE exE conjE) simp_all
next
  case True
  obtain g p interval running waiting where
    eq: "PublishObservation c w ob clk =
       (case (if runtimeReset c ob then publishReset (publish_base c ob)
              else publishSample (publish_base c ob) w ob g clk) of
          (c1, Some reason) \<Rightarrow> (c1, rejectedPublication reason (ac_runtimeEpoch c1))
        | (c1, None) \<Rightarrow> publishCommit c1 ob (runtimeReset c ob) g p interval running waiting)"
    using PublishObservation_accepted [OF conjunct1 [OF True] conjunct2 [OF True], of clk]
    by (elim exE conjE) (rule that)
  obtain c1 res where step: "(if runtimeReset c ob then publishReset (publish_base c ob)
      else publishSample (publish_base c ob) w ob g clk) = (c1, res)" by fastforce
  let ?b = "publish_base c ob"
  have w: "ac_lastPublishedSample ?b < sw_id w" "sw_runtimeEpoch w = ac_runtimeEpoch ?b"
    using True by (simp_all add: publishable_def window_acceptable_def publish_base_def)
  have b: "progress c ?b" "controller_inv ?b"
    using assms histogram_inv by (simp_all add: publish_base_def progress_def)
  have reset: "progress ?b c1 \<and> (res = None \<longrightarrow> ac_runtimeEpoch ?b < ac_runtimeEpoch c1)" if "runtimeReset c ob"
    using step that progress_failClosed [of ?b] by (auto simp: publishReset_def progress_def split: if_splits)
  have "progress c c1 \<and> (res = None \<longrightarrow> spent w c1)"
    using reset w b publishSample_progress [OF b(2) w(1), of ob g clk c1 res] step progress_trans [OF b(1)]
    by (cases "runtimeReset c ob") (auto simp: spent_def)
  then show ?thesis
    unfolding eq step
    by (cases res) (simp_all add: publishCommit_def Let_def progress_def spent_def rejectedPublication_def)
qed

lemma handle_progress:
  "progress c (fst (markForwarded c e i clk))" "progress c (fst (markFirstByte c e i clk))"
  "progress c (fst (terminate c e i cause clk))"
proof -
  show "progress c (fst (markForwarded c e i clk))"
    by (cases rule: markForwarded_result [of c e i clk])
       (auto intro: life_failed_progress progress_same simp: forwarded_state_def)
  show "progress c (fst (markFirstByte c e i clk))"
    by (cases rule: markFirstByte_result [of c e i clk])
       (auto intro: life_failed_progress progress_same simp: responded_state_def)
  show "progress c (fst (terminate c e i cause clk))"
    by (cases rule: terminate_result [of c e i cause clk])
       (auto intro: life_failed_progress progress_same simp: terminated_state_def)
qed

lemma Admit_progress: "progress c (fst (Admit c now d))"
  by (cases rule: Admit_result [of c now d])
     (auto intro: progress_failClosed progress_same simp: admitted_state_def)

lemma perform_progress:
  assumes "controller_inv c"
  shows "progress c (perform c op)"
proof (cases op)
  case (OpStartSampleWindow clk)
  then show ?thesis
    by (auto simp: StartSampleWindow_def Let_def split: prod.split option.split
        intro: progress_same progress_failClosed progress_failClosed_from)
next
  case (OpUpdatePolicy u)
  then show ?thesis by (auto simp: UpdatePolicy_def Let_def intro: progress_same)
qed (use assms in \<open>simp_all add: PublishObservation_progress Admit_progress MarkForwarded_def MarkFirstByte_def
    Terminate_def handle_progress Close_def progress_failClosed\<close>)

lemma run_progress: "controller_inv c \<Longrightarrow> progress c (foldl perform c ops)"
  by (induction ops arbitrary: c) (auto intro: progress_trans perform_progress perform_inv)

subsection \<open>What a publication leaves\<close>

lemma map_of_reconciled:
  assumes "distinct (keys rs)"
  shows "map_of (reconciled w ob t d rs) k =
     (case map_of rs k of None \<Rightarrow> None
      | Some r \<Rightarrow> (case reconcileReservation r w ob t d of
          (nxt, remove, changed) \<Rightarrow> if remove then None else Some nxt))"
  using assms
proof (induction rs)
  case (Cons x rs)
  obtain j r where x: "x = (j, r)" by fastforce
  obtain nxt rem ch where rec: "reconcileReservation r w ob t d = (nxt, rem, ch)" by (metis prod.exhaust)
  have none: "map_of (reconciled w ob t d rs) j = None" "map_of rs j = None"
    using Cons.prems reconciled_keys [of w ob t d rs] by (auto simp: x map_of_eq_None_iff)
  have IH: "map_of (reconciled w ob t d rs) k =
     (case map_of rs k of None \<Rightarrow> None
      | Some r \<Rightarrow> (case reconcileReservation r w ob t d of
          (nxt, remove, changed) \<Rightarrow> if remove then None else Some nxt))"
    using Cons by simp
  show ?case
    by (cases "k = j"; cases rem) (simp_all add: x survivor_def rec none IH)
qed simp

lemma PublishObservation_sample:
  assumes "controller_inv c" "PublishObservation c w ob clk = (c', res)" "pr_Accepted res" "\<not> pr_RuntimeReset res"
  shows "ac_reservations c' = reconciled (sw_eventSequence w) ob clk
           (ac_pendingFirstByteLeaseDuration c) (ac_reservations c) \<and>
     ac_runtimeEpoch c' = ac_runtimeEpoch c \<and> ac_observationSequence c' = ac_observationSequence c + 1 \<and>
     ob_observation (ac_observation c') = ob"
proof -
  have acc: "publishable c w ob \<and> ac_observationSequence c \<noteq> MaxUint64"
    using PublishObservation_refused(2) [of c w ob clk] assms(2,3) by fastforce
  obtain g p interval running waiting where
    eq: "PublishObservation c w ob clk =
       (case (if runtimeReset c ob then publishReset (publish_base c ob)
              else publishSample (publish_base c ob) w ob g clk) of
          (c1, Some reason) \<Rightarrow> (c1, rejectedPublication reason (ac_runtimeEpoch c1))
        | (c1, None) \<Rightarrow> publishCommit c1 ob (runtimeReset c ob) g p interval running waiting)"
    using PublishObservation_accepted [OF conjunct1 [OF acc] conjunct2 [OF acc], of clk]
    by (elim exE conjE) (rule that)
  let ?b = "publish_base c ob"
  have b: "controller_inv ?b" using assms(1) histogram_inv by (simp add: publish_base_def)
  have bf: "ac_reservations ?b = ac_reservations c" "ac_runtimeEpoch ?b = ac_runtimeEpoch c"
    "ac_observationSequence ?b = ac_observationSequence c"
    "ac_pendingFirstByteLeaseDuration ?b = ac_pendingFirstByteLeaseDuration c"
    by (simp_all add: publish_base_def)
  have no: "\<not> runtimeReset c ob"
    using eq assms(2-4) by (auto simp: publishCommit_def Let_def rejectedPublication_def split: prod.splits option.splits)
  obtain c1 r where step: "publishSample ?b w ob g clk = (c1, r)" by fastforce
  have r: "r = None" "c' = fst (publishCommit c1 ob False g p interval running waiting)"
    using eq step no assms(2,3) by (cases r; simp add: rejectedPublication_def; metis fst_conv)+
  from publishSample_outcome [OF b, of w ob g clk]
  obtain ov n d fwd rsp where "publishSample ?b w ob g clk =
      publishTPS (reconciled_state ?b w ob clk ov) w (sampleOf ?b ob g n fwd rsp)"
    using step r(1) by auto
  with step r(1) have "ac_reservations c1 = ac_reservations (reconciled_state ?b w ob clk ov) \<and>
      ac_runtimeEpoch c1 = ac_runtimeEpoch ?b \<and> ac_observationSequence c1 = ac_observationSequence ?b"
    by (auto simp: publishTPS_def Let_def reconciled_state_def split: if_splits prod.splits)
  then show ?thesis by (simp add: r(2) publishCommit_def Let_def reconciled_state_def bf)
qed

lemma PublishObservation_reset:
  assumes "PublishObservation c w ob clk = (c', res)" "pr_Accepted res" "pr_RuntimeReset res"
  shows "ac_reservations c' = [] \<and> ac_overlay c' = zeroOverlay \<and> ac_exposure c' = zeroLedger \<and>
     ac_runtimeEpoch c' = ac_runtimeEpoch c + 1"
proof -
  have acc: "publishable c w ob \<and> ac_observationSequence c \<noteq> MaxUint64"
    using PublishObservation_refused(2) [of c w ob clk] assms(1,2) by fastforce
  obtain g p interval running waiting where
    eq: "PublishObservation c w ob clk =
       (case (if runtimeReset c ob then publishReset (publish_base c ob)
              else publishSample (publish_base c ob) w ob g clk) of
          (c1, Some reason) \<Rightarrow> (c1, rejectedPublication reason (ac_runtimeEpoch c1))
        | (c1, None) \<Rightarrow> publishCommit c1 ob (runtimeReset c ob) g p interval running waiting)"
    using PublishObservation_accepted [OF conjunct1 [OF acc] conjunct2 [OF acc], of clk]
    by (elim exE conjE) (rule that)
  have "runtimeReset c ob"
    using eq assms by (auto simp: publishCommit_def Let_def rejectedPublication_def split: prod.splits option.splits)
  with eq assms(1,2) show ?thesis
    by (auto simp: publishReset_def publishCommit_def Let_def publish_base_def rejectedPublication_def
        ledger_reset_def split: if_splits)
qed

subsection \<open>Policy updates\<close>

definition policy_updatable :: "AdmissionController \<Rightarrow> PolicyUpdate \<Rightarrow> bool" where
  "policy_updatable c u \<longleftrightarrow> validPolicyUpdate u \<and> ac_closedReason c = ReasonEmpty \<and>
     ac_policyRevision c \<noteq> MaxUint64 \<and> up_ExpectedRevision u = ac_policyRevision c"

lemma UpdatePolicy_error_iff: "snd (snd (UpdatePolicy c u)) = None \<longleftrightarrow> policy_updatable c u"
  by (auto simp: UpdatePolicy_def policy_updatable_def Let_def)

lemma UpdatePolicy_refused: "\<not> policy_updatable c u \<Longrightarrow> fst (UpdatePolicy c u) = c"
  by (auto simp: UpdatePolicy_def policy_updatable_def Let_def)

lemma UpdatePolicy_success:
  assumes "policy_updatable c u"
  shows "ac_policyRevision (fst (UpdatePolicy c u)) = ac_policyRevision c + 1"
    "ac_windowConcurrency (fst (UpdatePolicy c u)) = override (ac_windowConcurrency c) (up_WindowConcurrency u)"
    "ac_runningLimit (fst (UpdatePolicy c u)) = override (ac_runningLimit c) (up_RunningLimit u)"
    "ac_waitingAllowance (fst (UpdatePolicy c u)) = override (ac_waitingAllowance c) (up_WaitingAllowance u)"
    "ac_reservations (fst (UpdatePolicy c u)) = ac_reservations c"
    "ac_overlay (fst (UpdatePolicy c u)) = ac_overlay c"
    "ac_exposure (fst (UpdatePolicy c u)) = ac_exposure c"
  using assms by (simp_all add: UpdatePolicy_def policy_updatable_def Let_def policySnapshot_def)

subsection \<open>Snapshots agree with admissions\<close>

lemma minimum_share:
  assumes "controller_inv c" "int (length (ac_reservations c)) < 1048576"
    "ov_sequenceLiabilities (ac_overlay c) < MaxInt64"
  shows "\<exists>share ov. contribution (new_item c minimumDemand) = Some share \<and> addOverlay (ac_overlay c) share = Some ov"
proof -
  have ep: "1 \<le> ac_runtimeEpoch c" and t: "acct.total (map snd (ac_reservations c)) = Some (ac_overlay c)"
    using assms(1) by (simp_all add: controller_inv_def inv_core_def inv_res_def)
  let ?r = "new_item c minimumDemand"
  have d: "demand_valid minimumDemand" "dm_DecodeSequences minimumDemand = 1"
    by (simp_all add: minimumDemand_def demand_valid_def zeroDemand_def)
  have share: "contribution ?r = Some (phaseShare ?r)"
    using contribution_eq [of ?r] ep d by (simp add: new_item_def zeroReservation_def)
  then have v: "overlay_valid (phaseShare ?r)" by (rule acct.contrib_valid)
  have len: "ov_liveReservations (ac_overlay c) + ov_residualDebts (ac_overlay c) < 1048576"
    using total_facts [OF t] assms(2) by simp
  have "overlay_valid (ac_overlay c)" using overlay_fits_total [OF t] by blast
  moreover have "overlay_fits (overlay_plus (ac_overlay c) (phaseShare ?r))"
    using assms(3) len d(2) \<open>overlay_valid (ac_overlay c)\<close>
    by (simp add: overlay_fits_def overlay_plus_def phaseShare_def new_item_def zeroReservation_def overlay_valid_def)
  ultimately show ?thesis using share v by (simp add: addOverlay_valid_eq)
qed

lemma Snapshot_available_iff:
  "cs_Available (Snapshot c now) \<longleftrightarrow>
     (\<exists>state. stateLocked c now = (state, ReasonOpen, True) \<and>
        pd_action (policy_evaluateDemand (ac_policy c) state minimumDemand (controllerBounds c)) = ActionAdmit)"
proof -
  obtain s r ok where st: "stateLocked c now = (s, r, ok)" by (metis prod.exhaust)
  show ?thesis
    using stateLocked_reason [of c now s r] st
    by (cases ok) (auto simp: Snapshot_def Let_def Admitted_def decisionLocked_def unavailableDecision_def)
qed

lemma Admit_minimum_iff:
  assumes "controller_inv c" "ac_nextReservationID c < MaxUint64" "ac_eventSequence c < MaxUint64"
    "int (length (ac_reservations c)) < 1048576" "ov_sequenceLiabilities (ac_overlay c) < MaxInt64"
  shows "Admitted (ar_Decision (snd (Admit c now minimumDemand))) \<longleftrightarrow> cs_Available (Snapshot c now)"
proof -
  obtain share ov where so: "contribution (new_item c minimumDemand) = Some share" "addOverlay (ac_overlay c) share = Some ov"
    using minimum_share [OF assms(1,4,5)] by blast
  have d: "demand_valid minimumDemand" by (simp add: minimumDemand_def demand_valid_def zeroDemand_def)
  have mx: "ac_maximumReservations c = 1048576" using assms(1) by (simp add: controller_inv_def inv_core_def)
  show ?thesis
  proof
    assume "Admitted (ar_Decision (snd (Admit c now minimumDemand)))"
    then show "cs_Available (Snapshot c now)"
      by (cases rule: Admit_result [of c now minimumDemand]) (auto simp: Snapshot_available_iff admits_def)
  next
    assume "cs_Available (Snapshot c now)"
    then obtain state where "admits c now minimumDemand state share ov"
      using so d mx assms(2-4) by (auto simp: Snapshot_available_iff admits_def)
    from Admit_success [OF this] this show "Admitted (ar_Decision (snd (Admit c now minimumDemand)))"
      by (simp add: admitted_result_def Admitted_def decisionLocked_def admits_def)
  qed
qed

end
