(* ===== verification/Evidence.thy ===== *)
theory Evidence
  imports Demand
begin

text \<open>
  \<open>internal/app/server/admission_evidence.go\<close> and \<open>tps_evidence.go\<close>: the counters of what the
  admission decided, by outcome, reason, scope, tier and number of sequences. An array of atomic
  counters is a function from its index type; an index of the source is a constructor, a pair
  for an array of arrays. An addition to a counter wraps around like \<open>uint64\<close>.
\<close>

subsection \<open>Counters\<close>

definition bump :: "'k \<Rightarrow> ('k \<Rightarrow> nat) \<Rightarrow> 'k \<Rightarrow> nat" where
  "bump k f = f(k := wrapu64 (f k + 1))"

definition count :: "('a \<Rightarrow> bool) \<Rightarrow> 'a list \<Rightarrow> nat" where
  "count P xs = length (filter P xs)"

lemma count_simps [simp]: "count P [] = 0" "count P (xs @ [x]) = count P xs + (if P x then 1 else 0)"
  by (simp_all add: count_def)

lemma count_le: "count P xs \<le> length xs"
  by (simp add: count_def)

text \<open>Counting by a key and summing over the keys counts everything.\<close>

lemma count_partition:
  assumes "finite A" "\<And>x. x \<in> set xs \<Longrightarrow> P x \<Longrightarrow> k x \<in> A"
  shows "(\<Sum>a\<in>A. count (\<lambda>x. P x \<and> k x = a) xs) = count P xs"
  using assms(2)
proof (induction xs rule: rev_induct)
  case (snoc x xs)
  then show ?case
  proof (cases "P x")
    case True
    then have "(\<Sum>a\<in>A. count (\<lambda>x. P x \<and> k x = a) (xs @ [x])) =
        (\<Sum>a\<in>A. count (\<lambda>x. P x \<and> k x = a) xs) + (\<Sum>a\<in>A. if k x = a then 1 else 0)"
      by (simp add: sum.distrib [symmetric])
    then show ?thesis using True snoc assms(1) by simp
  qed simp
qed simp

subsection \<open>What a decision is counted as\<close>

datatype admissionEvidenceOutcome = admissionEvidenceAdmitted | admissionEvidenceRequestProtected
  | admissionEvidenceLoadProtected | admissionEvidenceAvailabilityProtected

fun admissionEvidenceOutcomeLabel :: "admissionEvidenceOutcome \<Rightarrow> string" where
  "admissionEvidenceOutcomeLabel admissionEvidenceAdmitted = ''admitted''"
| "admissionEvidenceOutcomeLabel admissionEvidenceRequestProtected = ''request_protected''"
| "admissionEvidenceOutcomeLabel admissionEvidenceLoadProtected = ''load_protected''"
| "admissionEvidenceOutcomeLabel admissionEvidenceAvailabilityProtected = ''availability_protected''"

datatype admissionEvidenceProtectionReason = admissionEvidenceReasonUnknown
  | admissionEvidenceReasonControllerUnavailable | admissionEvidenceReasonObservationMissing
  | admissionEvidenceReasonObservationInvalid | admissionEvidenceReasonObservationStale
  | admissionEvidenceReasonInvalidRequest | admissionEvidenceReasonTPSReference
  | admissionEvidenceReasonRuntimeIdentityDrift | admissionEvidenceReasonResourceExhausted
  | admissionEvidenceReasonPriorityQueueFull | admissionEvidenceReasonPriorityQueueTimeout
  | admissionEvidenceReasonPriorityQueueCanceled | admissionEvidenceReasonCounterOverflow
  | admissionEvidenceReasonClosed | admissionEvidenceReasonRunningLimit
  | admissionEvidenceReasonWindowConcurrency

fun admissionEvidenceProtectionReasonLabel :: "admissionEvidenceProtectionReason \<Rightarrow> string" where
  "admissionEvidenceProtectionReasonLabel admissionEvidenceReasonUnknown = ''unknown''"
| "admissionEvidenceProtectionReasonLabel admissionEvidenceReasonControllerUnavailable = ''controller_unavailable''"
| "admissionEvidenceProtectionReasonLabel admissionEvidenceReasonObservationMissing = ''observation_missing''"
| "admissionEvidenceProtectionReasonLabel admissionEvidenceReasonObservationInvalid = ''observation_invalid''"
| "admissionEvidenceProtectionReasonLabel admissionEvidenceReasonObservationStale = ''observation_stale''"
| "admissionEvidenceProtectionReasonLabel admissionEvidenceReasonInvalidRequest = ''invalid_request''"
| "admissionEvidenceProtectionReasonLabel admissionEvidenceReasonTPSReference = ''tps_reference''"
| "admissionEvidenceProtectionReasonLabel admissionEvidenceReasonRuntimeIdentityDrift = ''runtime_identity_drift''"
| "admissionEvidenceProtectionReasonLabel admissionEvidenceReasonResourceExhausted = ''resource_exhausted''"
| "admissionEvidenceProtectionReasonLabel admissionEvidenceReasonPriorityQueueFull = ''priority_queue_full''"
| "admissionEvidenceProtectionReasonLabel admissionEvidenceReasonPriorityQueueTimeout = ''priority_queue_timeout''"
| "admissionEvidenceProtectionReasonLabel admissionEvidenceReasonPriorityQueueCanceled = ''priority_queue_canceled''"
| "admissionEvidenceProtectionReasonLabel admissionEvidenceReasonCounterOverflow = ''counter_overflow''"
| "admissionEvidenceProtectionReasonLabel admissionEvidenceReasonClosed = ''closed''"
| "admissionEvidenceProtectionReasonLabel admissionEvidenceReasonRunningLimit = ''running_limit''"
| "admissionEvidenceProtectionReasonLabel admissionEvidenceReasonWindowConcurrency = ''window_concurrency''"

datatype admissionEvidenceProtectionScope = admissionEvidenceScopeUnknown | admissionEvidenceScopeRequest
  | admissionEvidenceScopeLoad | admissionEvidenceScopeAvailability

fun admissionEvidenceProtectionScopeLabel :: "admissionEvidenceProtectionScope \<Rightarrow> string" where
  "admissionEvidenceProtectionScopeLabel admissionEvidenceScopeUnknown = ''unknown''"
| "admissionEvidenceProtectionScopeLabel admissionEvidenceScopeRequest = ''request''"
| "admissionEvidenceProtectionScopeLabel admissionEvidenceScopeLoad = ''load''"
| "admissionEvidenceProtectionScopeLabel admissionEvidenceScopeAvailability = ''availability''"

datatype admissionEvidenceFanoutBucket = admissionEvidenceFanoutUnknown | admissionEvidenceFanoutOne
  | admissionEvidenceFanoutTwo | admissionEvidenceFanoutThreeToFour | admissionEvidenceFanoutFiveToEight
  | admissionEvidenceFanoutNineToSixteen | admissionEvidenceFanoutAboveSixteen

fun admissionEvidenceFanoutBucketLabel :: "admissionEvidenceFanoutBucket \<Rightarrow> string" where
  "admissionEvidenceFanoutBucketLabel admissionEvidenceFanoutUnknown = ''unknown''"
| "admissionEvidenceFanoutBucketLabel admissionEvidenceFanoutOne = ''1''"
| "admissionEvidenceFanoutBucketLabel admissionEvidenceFanoutTwo = ''2''"
| "admissionEvidenceFanoutBucketLabel admissionEvidenceFanoutThreeToFour = ''3-4''"
| "admissionEvidenceFanoutBucketLabel admissionEvidenceFanoutFiveToEight = ''5-8''"
| "admissionEvidenceFanoutBucketLabel admissionEvidenceFanoutNineToSixteen = ''9-16''"
| "admissionEvidenceFanoutBucketLabel admissionEvidenceFanoutAboveSixteen = ''>16''"

definition admissionEvidenceOutcomeFor :: "DecisionRecord \<Rightarrow> admissionEvidenceOutcome" where
  "admissionEvidenceOutcomeFor decision =
     (if Admitted decision then admissionEvidenceAdmitted
      else case dr_Scope decision of
        ProtectionRequest \<Rightarrow> admissionEvidenceRequestProtected
      | ProtectionLoad \<Rightarrow> admissionEvidenceLoadProtected
      | _ \<Rightarrow> admissionEvidenceAvailabilityProtected)"

fun admissionEvidenceReasonFor :: "Reason \<Rightarrow> admissionEvidenceProtectionReason" where
  "admissionEvidenceReasonFor ReasonControllerUnavailable = admissionEvidenceReasonControllerUnavailable"
| "admissionEvidenceReasonFor ReasonObservationMissing = admissionEvidenceReasonObservationMissing"
| "admissionEvidenceReasonFor ReasonObservationInvalid = admissionEvidenceReasonObservationInvalid"
| "admissionEvidenceReasonFor ReasonObservationStale = admissionEvidenceReasonObservationStale"
| "admissionEvidenceReasonFor ReasonInvalidRequest = admissionEvidenceReasonInvalidRequest"
| "admissionEvidenceReasonFor ReasonTPSReference = admissionEvidenceReasonTPSReference"
| "admissionEvidenceReasonFor ReasonRuntimeIdentityDrift = admissionEvidenceReasonRuntimeIdentityDrift"
| "admissionEvidenceReasonFor ReasonResourceExhausted = admissionEvidenceReasonResourceExhausted"
| "admissionEvidenceReasonFor ReasonPriorityQueueFull = admissionEvidenceReasonPriorityQueueFull"
| "admissionEvidenceReasonFor ReasonPriorityQueueTimeout = admissionEvidenceReasonPriorityQueueTimeout"
| "admissionEvidenceReasonFor ReasonPriorityQueueCanceled = admissionEvidenceReasonPriorityQueueCanceled"
| "admissionEvidenceReasonFor ReasonCounterOverflow = admissionEvidenceReasonCounterOverflow"
| "admissionEvidenceReasonFor ReasonClosed = admissionEvidenceReasonClosed"
| "admissionEvidenceReasonFor ReasonRunningLimit = admissionEvidenceReasonRunningLimit"
| "admissionEvidenceReasonFor ReasonWindowConcurrency = admissionEvidenceReasonWindowConcurrency"
| "admissionEvidenceReasonFor _ = admissionEvidenceReasonUnknown"

fun admissionEvidenceScopeFor :: "ProtectionScope \<Rightarrow> admissionEvidenceProtectionScope" where
  "admissionEvidenceScopeFor ProtectionRequest = admissionEvidenceScopeRequest"
| "admissionEvidenceScopeFor ProtectionLoad = admissionEvidenceScopeLoad"
| "admissionEvidenceScopeFor ProtectionAvailability = admissionEvidenceScopeAvailability"
| "admissionEvidenceScopeFor _ = admissionEvidenceScopeUnknown"

definition admissionEvidenceFanoutFor :: "int \<Rightarrow> admissionEvidenceFanoutBucket" where
  "admissionEvidenceFanoutFor sequences =
     (if sequences \<le> 0 then admissionEvidenceFanoutUnknown
      else if sequences = 1 then admissionEvidenceFanoutOne
      else if sequences = 2 then admissionEvidenceFanoutTwo
      else if sequences \<le> 4 then admissionEvidenceFanoutThreeToFour
      else if sequences \<le> 8 then admissionEvidenceFanoutFiveToEight
      else if sequences \<le> 16 then admissionEvidenceFanoutNineToSixteen
      else admissionEvidenceFanoutAboveSixteen)"

fun indexFrom :: "nat \<Rightarrow> RequestTier list \<Rightarrow> RequestTier \<Rightarrow> nat option" where
  "indexFrom i [] tier = None"
| "indexFrom i (t # ts) tier = (if t = tier then Some i else indexFrom (i + 1) ts tier)"

text \<open>The recursive call of the code is on the default tier, which is in the list.\<close>

definition admissionEvidenceTierIndex :: "RequestTier \<Rightarrow> nat" where
  "admissionEvidenceTierIndex tier =
     (case indexFrom 0 RequestTiers tier of
        Some i \<Rightarrow> i
      | None \<Rightarrow> (case indexFrom 0 RequestTiers TierDefault of Some i \<Rightarrow> i | None \<Rightarrow> 0))"

definition admissionEvidenceTierCount :: nat where
  "admissionEvidenceTierCount = length RequestTiers"

subsection \<open>The evidence of admissions\<close>

record admissionEvidence =
  ae_outcomes :: "admissionEvidenceOutcome \<Rightarrow> nat"
  ae_protections :: "admissionEvidenceProtectionReason \<times> admissionEvidenceProtectionScope \<Rightarrow> nat"
  ae_decodeFanout :: "admissionEvidenceFanoutBucket \<times> admissionEvidenceOutcome \<Rightarrow> nat"
  ae_tierOutcomes :: "nat \<times> admissionEvidenceOutcome \<Rightarrow> nat"
  ae_tierProtections ::
    "nat \<times> admissionEvidenceProtectionReason \<times> admissionEvidenceProtectionScope \<Rightarrow> nat"

definition zeroEvidence :: admissionEvidence where
  "zeroEvidence = \<lparr>ae_outcomes = \<lambda>_. 0, ae_protections = \<lambda>_. 0, ae_decodeFanout = \<lambda>_. 0,
     ae_tierOutcomes = \<lambda>_. 0, ae_tierProtections = \<lambda>_. 0\<rparr>"

definition evidence_Record :: "admissionEvidence \<Rightarrow> DecisionRecord \<Rightarrow> admissionEvidence" where
  "evidence_Record e decision =
     (let outcome = admissionEvidenceOutcomeFor decision;
          tier = admissionEvidenceTierIndex (dm_Tier (dr_Demand decision));
          e1 = e\<lparr>ae_outcomes := bump outcome (ae_outcomes e),
                 ae_tierOutcomes := bump (tier, outcome) (ae_tierOutcomes e)\<rparr>;
          e2 = (if Admitted decision then e1
                else let reason = admissionEvidenceReasonFor (dr_Reason decision);
                         scope = admissionEvidenceScopeFor (dr_Scope decision)
                     in e1\<lparr>ae_protections := bump (reason, scope) (ae_protections e1),
                           ae_tierProtections := bump (tier, reason, scope) (ae_tierProtections e1)\<rparr>)
      in e2\<lparr>ae_decodeFanout :=
              bump (admissionEvidenceFanoutFor (dm_DecodeSequences (dr_Demand decision)), outcome)
                (ae_decodeFanout e2)\<rparr>)"

text \<open>A snapshot reads every counter of the arrays; there is none beyond the tiers.\<close>

definition evidence_Snapshot :: "admissionEvidence \<Rightarrow> admissionEvidence" where
  "evidence_Snapshot e =
     \<lparr>ae_outcomes = \<lambda>outcome. ae_outcomes e outcome,
      ae_protections = \<lambda>(reason, scope). ae_protections e (reason, scope),
      ae_decodeFanout = \<lambda>(fanout, outcome). ae_decodeFanout e (fanout, outcome),
      ae_tierOutcomes = \<lambda>(tier, outcome).
        if tier < admissionEvidenceTierCount then ae_tierOutcomes e (tier, outcome) else 0,
      ae_tierProtections = \<lambda>(tier, reason, scope).
        if tier < admissionEvidenceTierCount then ae_tierProtections e (tier, reason, scope) else 0\<rparr>"

subsection \<open>The evidence of throughput decisions\<close>

datatype tpsEvidenceResult = tpsEvidenceResultUnknown | tpsEvidenceResultDisabled
  | tpsEvidenceResultAdmit | tpsEvidenceResultProtect | tpsEvidenceResultInvalid

fun tpsEvidenceResultLabel :: "tpsEvidenceResult \<Rightarrow> string" where
  "tpsEvidenceResultLabel tpsEvidenceResultUnknown = ''unknown''"
| "tpsEvidenceResultLabel tpsEvidenceResultDisabled = ''disabled''"
| "tpsEvidenceResultLabel tpsEvidenceResultAdmit = ''admit''"
| "tpsEvidenceResultLabel tpsEvidenceResultProtect = ''protect''"
| "tpsEvidenceResultLabel tpsEvidenceResultInvalid = ''invalid''"

datatype tpsEvidenceSubreason = tpsEvidenceSubreasonUnknown | tpsEvidenceSubreasonDisabled
  | tpsEvidenceSubreasonInvalidState | tpsEvidenceSubreasonWaiting | tpsEvidenceSubreasonPreemption
  | tpsEvidenceSubreasonWarming | tpsEvidenceSubreasonNoCurrentEvidence
  | tpsEvidenceSubreasonHealthyWindow | tpsEvidenceSubreasonRecoveredCurrent
  | tpsEvidenceSubreasonBelowReference | tpsEvidenceSubreasonBackendScheduled
  | tpsEvidenceSubreasonWarmPrompt | tpsEvidenceSubreasonColdPrompt
  | tpsEvidenceSubreasonColdPromptPending

fun tpsEvidenceSubreasonLabel :: "tpsEvidenceSubreason \<Rightarrow> string" where
  "tpsEvidenceSubreasonLabel tpsEvidenceSubreasonUnknown = ''unknown''"
| "tpsEvidenceSubreasonLabel tpsEvidenceSubreasonDisabled = ''disabled''"
| "tpsEvidenceSubreasonLabel tpsEvidenceSubreasonInvalidState = ''invalid_state''"
| "tpsEvidenceSubreasonLabel tpsEvidenceSubreasonWaiting = ''waiting''"
| "tpsEvidenceSubreasonLabel tpsEvidenceSubreasonPreemption = ''preemption''"
| "tpsEvidenceSubreasonLabel tpsEvidenceSubreasonWarming = ''warming''"
| "tpsEvidenceSubreasonLabel tpsEvidenceSubreasonNoCurrentEvidence = ''no_current_evidence''"
| "tpsEvidenceSubreasonLabel tpsEvidenceSubreasonHealthyWindow = ''healthy_window''"
| "tpsEvidenceSubreasonLabel tpsEvidenceSubreasonRecoveredCurrent = ''recovered_current''"
| "tpsEvidenceSubreasonLabel tpsEvidenceSubreasonBelowReference = ''below_reference''"
| "tpsEvidenceSubreasonLabel tpsEvidenceSubreasonBackendScheduled = ''backend_scheduled''"
| "tpsEvidenceSubreasonLabel tpsEvidenceSubreasonWarmPrompt = ''warm_prompt''"
| "tpsEvidenceSubreasonLabel tpsEvidenceSubreasonColdPrompt = ''cold_prompt''"
| "tpsEvidenceSubreasonLabel tpsEvidenceSubreasonColdPromptPending = ''cold_prompt_pending''"

fun tpsEvidenceResultFor :: "TPSDecisionResult \<Rightarrow> tpsEvidenceResult" where
  "tpsEvidenceResultFor TPSDecisionResultDisabled = tpsEvidenceResultDisabled"
| "tpsEvidenceResultFor TPSDecisionResultAdmit = tpsEvidenceResultAdmit"
| "tpsEvidenceResultFor TPSDecisionResultProtect = tpsEvidenceResultProtect"
| "tpsEvidenceResultFor TPSDecisionResultInvalid = tpsEvidenceResultInvalid"
| "tpsEvidenceResultFor _ = tpsEvidenceResultUnknown"

fun tpsEvidenceSubreasonFor :: "TPSDecisionSubreason \<Rightarrow> tpsEvidenceSubreason" where
  "tpsEvidenceSubreasonFor TPSDecisionSubreasonDisabled = tpsEvidenceSubreasonDisabled"
| "tpsEvidenceSubreasonFor TPSDecisionSubreasonInvalidState = tpsEvidenceSubreasonInvalidState"
| "tpsEvidenceSubreasonFor TPSDecisionSubreasonWaiting = tpsEvidenceSubreasonWaiting"
| "tpsEvidenceSubreasonFor TPSDecisionSubreasonPreemption = tpsEvidenceSubreasonPreemption"
| "tpsEvidenceSubreasonFor TPSDecisionSubreasonWarming = tpsEvidenceSubreasonWarming"
| "tpsEvidenceSubreasonFor TPSDecisionSubreasonNoCurrentEvidence = tpsEvidenceSubreasonNoCurrentEvidence"
| "tpsEvidenceSubreasonFor TPSDecisionSubreasonHealthyWindow = tpsEvidenceSubreasonHealthyWindow"
| "tpsEvidenceSubreasonFor TPSDecisionSubreasonRecoveredCurrent = tpsEvidenceSubreasonRecoveredCurrent"
| "tpsEvidenceSubreasonFor TPSDecisionSubreasonBelowReference = tpsEvidenceSubreasonBelowReference"
| "tpsEvidenceSubreasonFor TPSDecisionSubreasonBackendScheduled = tpsEvidenceSubreasonBackendScheduled"
| "tpsEvidenceSubreasonFor TPSDecisionSubreasonWarmPrompt = tpsEvidenceSubreasonWarmPrompt"
| "tpsEvidenceSubreasonFor TPSDecisionSubreasonColdPrompt = tpsEvidenceSubreasonColdPrompt"
| "tpsEvidenceSubreasonFor TPSDecisionSubreasonColdPromptPending = tpsEvidenceSubreasonColdPromptPending"
| "tpsEvidenceSubreasonFor _ = tpsEvidenceSubreasonUnknown"

type_synonym tpsDecisionEvidence = "tpsEvidenceResult \<times> tpsEvidenceSubreason \<Rightarrow> nat"

definition tpsEvidence_Record :: "tpsDecisionEvidence \<Rightarrow> DecisionRecord \<Rightarrow> tpsDecisionEvidence" where
  "tpsEvidence_Record e decision =
     (let result = tpsEvidenceResultFor (dr_TPSDecisionResult decision);
          subreason = tpsEvidenceSubreasonFor (dr_TPSDecisionSubreason decision)
      in bump (result, subreason) e)"

definition tpsEvidence_Snapshot :: "tpsDecisionEvidence \<Rightarrow> tpsDecisionEvidence" where
  "tpsEvidence_Snapshot e = (\<lambda>(result, subreason). e (result, subreason))"

subsection \<open>Sums over the index types\<close>

lemma outcome_UNIV: "(UNIV :: admissionEvidenceOutcome set) = {admissionEvidenceAdmitted,
    admissionEvidenceRequestProtected, admissionEvidenceLoadProtected, admissionEvidenceAvailabilityProtected}"
  using admissionEvidenceOutcome.exhaust by blast

instantiation admissionEvidenceOutcome :: finite
begin
instance by standard (simp add: outcome_UNIV)
end

lemma reason_UNIV: "(UNIV :: admissionEvidenceProtectionReason set) = {admissionEvidenceReasonUnknown,
    admissionEvidenceReasonControllerUnavailable, admissionEvidenceReasonObservationMissing,
    admissionEvidenceReasonObservationInvalid, admissionEvidenceReasonObservationStale,
    admissionEvidenceReasonInvalidRequest, admissionEvidenceReasonTPSReference,
    admissionEvidenceReasonRuntimeIdentityDrift, admissionEvidenceReasonResourceExhausted,
    admissionEvidenceReasonPriorityQueueFull, admissionEvidenceReasonPriorityQueueTimeout,
    admissionEvidenceReasonPriorityQueueCanceled, admissionEvidenceReasonCounterOverflow,
    admissionEvidenceReasonClosed, admissionEvidenceReasonRunningLimit, admissionEvidenceReasonWindowConcurrency}"
  using admissionEvidenceProtectionReason.exhaust by blast

instantiation admissionEvidenceProtectionReason :: finite
begin
instance by standard (simp add: reason_UNIV)
end

lemma scope_UNIV: "(UNIV :: admissionEvidenceProtectionScope set) = {admissionEvidenceScopeUnknown,
    admissionEvidenceScopeRequest, admissionEvidenceScopeLoad, admissionEvidenceScopeAvailability}"
  using admissionEvidenceProtectionScope.exhaust by blast

instantiation admissionEvidenceProtectionScope :: finite
begin
instance by standard (simp add: scope_UNIV)
end

lemma fanout_UNIV: "(UNIV :: admissionEvidenceFanoutBucket set) = {admissionEvidenceFanoutUnknown,
    admissionEvidenceFanoutOne, admissionEvidenceFanoutTwo, admissionEvidenceFanoutThreeToFour,
    admissionEvidenceFanoutFiveToEight, admissionEvidenceFanoutNineToSixteen, admissionEvidenceFanoutAboveSixteen}"
  using admissionEvidenceFanoutBucket.exhaust by blast

instantiation admissionEvidenceFanoutBucket :: finite
begin
instance by standard (simp add: fanout_UNIV)
end

subsection \<open>The counters are exact\<close>

lemma indexFrom_lt: "indexFrom i ts t = Some j \<Longrightarrow> j < i + length ts"
  by (induction ts arbitrary: i) (fastforce split: if_splits)+

lemma tierIndex_lt: "admissionEvidenceTierIndex t < admissionEvidenceTierCount"
  by (cases t) (simp_all add: admissionEvidenceTierIndex_def admissionEvidenceTierCount_def RequestTiers_def)

abbreviation outcomeOf :: "DecisionRecord \<Rightarrow> admissionEvidenceOutcome" where
  "outcomeOf \<equiv> admissionEvidenceOutcomeFor"

definition tierOf :: "DecisionRecord \<Rightarrow> nat" where
  "tierOf d = admissionEvidenceTierIndex (dm_Tier (dr_Demand d))"

definition protectionOf :: "DecisionRecord \<Rightarrow> admissionEvidenceProtectionReason \<times> admissionEvidenceProtectionScope" where
  "protectionOf d = (admissionEvidenceReasonFor (dr_Reason d), admissionEvidenceScopeFor (dr_Scope d))"

definition fanoutOf :: "DecisionRecord \<Rightarrow> admissionEvidenceFanoutBucket" where
  "fanoutOf d = admissionEvidenceFanoutFor (dm_DecodeSequences (dr_Demand d))"

lemma bump_count:
  assumes "f = (\<lambda>k. count (\<lambda>x. P x \<and> key x = k) xs)" "length xs < MaxUint64"
  shows "(if P x then bump (key x) f else f) = (\<lambda>k. count (\<lambda>x. P x \<and> key x = k) (xs @ [x]))"
proof -
  have "count (\<lambda>y. P y \<and> key y = key x) xs < MaxUint64"
    using count_le [of "\<lambda>y. P y \<and> key y = key x" xs] assms(2) by simp
  then show ?thesis using assms(1) by (auto simp: bump_def fun_eq_iff)
qed

text \<open>What the counters are after recording a list of decisions.\<close>

definition evidence_of :: "DecisionRecord list \<Rightarrow> admissionEvidence" where
  "evidence_of ds = \<lparr>ae_outcomes = \<lambda>o'. count (\<lambda>d. outcomeOf d = o') ds,
     ae_protections = \<lambda>k. count (\<lambda>d. \<not> Admitted d \<and> protectionOf d = k) ds,
     ae_decodeFanout = \<lambda>k. count (\<lambda>d. (fanoutOf d, outcomeOf d) = k) ds,
     ae_tierOutcomes = \<lambda>k. count (\<lambda>d. (tierOf d, outcomeOf d) = k) ds,
     ae_tierProtections = \<lambda>k. count (\<lambda>d. \<not> Admitted d \<and> (tierOf d, protectionOf d) = k) ds\<rparr>"

lemma evidence_Snapshot_of: "evidence_Snapshot (evidence_of ds) = evidence_of ds"
proof -
  have none: "count P ds = 0" if "\<And>d. \<not> P d" for P using that by (simp add: count_def)
  have "t = tierOf d \<Longrightarrow> t < admissionEvidenceTierCount" for t d using tierIndex_lt by (simp add: tierOf_def)
  then have "\<not> t < admissionEvidenceTierCount \<Longrightarrow> tierOf d \<noteq> t" for t d by blast
  then show ?thesis by (auto simp: evidence_Snapshot_def evidence_of_def fun_eq_iff none)
qed

lemma evidence_Record_exact:
  assumes "length ds < MaxUint64"
  shows "evidence_Record (evidence_of ds) d = evidence_of (ds @ [d])"
proof -
  note bc = bump_count [OF refl assms, where P = "\<lambda>_. True" and x = d, simplified]
  note bp = bump_count [OF refl assms, where P = "\<lambda>d. \<not> Admitted d" and x = d]
  show ?thesis
    using bc [where key = outcomeOf] bc [where key = "\<lambda>d. (tierOf d, outcomeOf d)"]
      bc [where key = "\<lambda>d. (fanoutOf d, outcomeOf d)"]
      bp [where key = protectionOf] bp [where key = "\<lambda>d. (tierOf d, protectionOf d)"]
    by (cases "Admitted d") (simp_all add: evidence_Record_def evidence_of_def Let_def tierOf_def fanoutOf_def protectionOf_def)
qed

lemma evidence_run: "length ds \<le> MaxUint64 \<Longrightarrow> foldl evidence_Record zeroEvidence ds = evidence_of ds"
proof (induction ds rule: rev_induct)
  case Nil
  then show ?case by (simp add: evidence_of_def zeroEvidence_def)
next
  case (snoc d ds)
  then show ?case using evidence_Record_exact [of ds d] by simp
qed

lemma tpsEvidence_run:
  "length ds \<le> MaxUint64 \<Longrightarrow> foldl tpsEvidence_Record (\<lambda>_. 0) ds =
     (\<lambda>k. count (\<lambda>d. (tpsEvidenceResultFor (dr_TPSDecisionResult d),
        tpsEvidenceSubreasonFor (dr_TPSDecisionSubreason d)) = k) ds)"
proof (induction ds rule: rev_induct)
  case (snoc d ds)
  then have "length ds < MaxUint64" by simp
  from bump_count [OF refl this, where P = "\<lambda>_. True" and x = d and key = "\<lambda>d. (tpsEvidenceResultFor (dr_TPSDecisionResult d),
        tpsEvidenceSubreasonFor (dr_TPSDecisionSubreason d))"] snoc
  show ?case by (simp add: tpsEvidence_Record_def)
qed simp

text \<open>Every array of counters adds up to the outcomes.\<close>

lemma evidence_sums:
  "(\<Sum>o'\<in>UNIV. ae_outcomes (evidence_of ds) o') = length ds"
  "(\<Sum>b\<in>UNIV. ae_decodeFanout (evidence_of ds) (b, o')) = ae_outcomes (evidence_of ds) o'"
  "(\<Sum>t<admissionEvidenceTierCount. ae_tierOutcomes (evidence_of ds) (t, o')) = ae_outcomes (evidence_of ds) o'"
  "(\<Sum>t<admissionEvidenceTierCount. ae_tierProtections (evidence_of ds) (t, k)) = ae_protections (evidence_of ds) k"
  "(\<Sum>k\<in>UNIV. ae_protections (evidence_of ds) k) + ae_outcomes (evidence_of ds) admissionEvidenceAdmitted = length ds"
proof -
  note cp = count_partition [of _ ds]
  show "(\<Sum>o'\<in>UNIV. ae_outcomes (evidence_of ds) o') = length ds"
    using cp [of UNIV "\<lambda>_. True" outcomeOf] by (simp add: evidence_of_def count_def)
  show "(\<Sum>b\<in>UNIV. ae_decodeFanout (evidence_of ds) (b, o')) = ae_outcomes (evidence_of ds) o'"
    using cp [of UNIV "\<lambda>d. outcomeOf d = o'" fanoutOf] by (simp add: evidence_of_def conj_commute)
  show "(\<Sum>t<admissionEvidenceTierCount. ae_tierOutcomes (evidence_of ds) (t, o')) = ae_outcomes (evidence_of ds) o'"
    using cp [of "{..<admissionEvidenceTierCount}" "\<lambda>d. outcomeOf d = o'" tierOf] tierIndex_lt
    by (simp add: evidence_of_def conj_commute tierOf_def)
  show "(\<Sum>t<admissionEvidenceTierCount. ae_tierProtections (evidence_of ds) (t, k)) = ae_protections (evidence_of ds) k"
    using cp [of "{..<admissionEvidenceTierCount}" "\<lambda>d. \<not> Admitted d \<and> protectionOf d = k" tierOf] tierIndex_lt
    by (simp add: evidence_of_def conj_ac tierOf_def)
  have "outcomeOf d = admissionEvidenceAdmitted \<longleftrightarrow> Admitted d" for d
    by (simp add: admissionEvidenceOutcomeFor_def split: ProtectionScope.split)
  then show "(\<Sum>k\<in>UNIV. ae_protections (evidence_of ds) k) + ae_outcomes (evidence_of ds) admissionEvidenceAdmitted = length ds"
    using cp [of UNIV "\<lambda>d. \<not> Admitted d" protectionOf] sum_length_filter_compl [of Admitted ds]
    by (simp add: evidence_of_def count_def)
qed

text \<open>The labels of the metrics are the names the decisions print.\<close>

lemma tps_labels:
  "tpsEvidenceResultLabel (tpsEvidenceResultFor r) = TPSDecisionResult_String r"
  "tpsEvidenceSubreasonLabel (tpsEvidenceSubreasonFor s) = TPSDecisionSubreason_String s"
  by (cases r; simp) (cases s; simp)

end
