(* ===== verification/Reporter.thy ===== *)
theory Reporter
  imports Evidence
begin

text \<open>
  \<open>internal/app/server/admission_reporter.go\<close>: the totals of the decisions and the throttle of the
  decision log, which lets a line with the same signature through at most once per interval and
  counts the others. The callback is outside the model: \<open>reporter_Record\<close> returns the event it is
  called with.
\<close>

definition defaultAdmissionDecisionLogInterval :: duration where
  "defaultAdmissionDecisionLogInterval = 5 * Second"

abbreviation maximumAdmissionLogSignatures :: nat where "maximumAdmissionLogSignatures \<equiv> 256"

record admissionDecisionLogEvent =
  le_Mode :: string
  le_Enforced :: bool
  le_Decision :: DecisionRecord
  le_Suppressed :: nat
  le_ObservedAt :: gotime

record admissionDecisionLogSignature =
  ls_action :: Action
  ls_reason :: Reason
  ls_scope :: ProtectionScope
  ls_enforced :: bool

record admissionDecisionLogBucket =
  lb_lastLoggedAt :: gotime
  lb_suppressed :: nat

definition zeroLogBucket :: admissionDecisionLogBucket where
  "zeroLogBucket = \<lparr>lb_lastLoggedAt = zeroTime, lb_suppressed = 0\<rparr>"

type_synonym admissionDecisionLogState = "(admissionDecisionLogSignature \<times> admissionDecisionLogBucket) list"

definition signatureOf :: "admissionDecisionLogEvent \<Rightarrow> admissionDecisionLogSignature" where
  "signatureOf event = \<lparr>ls_action = dr_Action (le_Decision event), ls_reason = dr_Reason (le_Decision event),
     ls_scope = dr_Scope (le_Decision event), ls_enforced = le_Enforced event\<rparr>"

definition Claim ::
  "admissionDecisionLogState \<Rightarrow> gotime \<Rightarrow> duration \<Rightarrow> admissionDecisionLogEvent \<Rightarrow>
   admissionDecisionLogState \<times> admissionDecisionLogEvent option" where
  "Claim buckets now interval0 event =
     (if Admitted (le_Decision event) then (buckets, None)
      else
        let interval = (if interval0 \<le> 0 then defaultAdmissionDecisionLogInterval else interval0);
            signature = signatureOf event;
            found = map_of buckets signature;
            bucket = (case found of Some b \<Rightarrow> b | None \<Rightarrow> zeroLogBucket);
            elapsed = Sub now (lb_lastLoggedAt bucket)
        in if found \<noteq> None \<and> \<not> IsZero (lb_lastLoggedAt bucket) \<and> 0 \<le> elapsed \<and> elapsed < interval then
             (AList.update signature
                (if lb_suppressed bucket < MaxUint64 then bucket\<lparr>lb_suppressed := lb_suppressed bucket + 1\<rparr> else bucket)
                buckets, None)
           else
             let full = (found = None \<and> length buckets \<ge> maximumAdmissionLogSignatures);
                 buckets' = (if full then [] else buckets);
                 bucket' = (if full then zeroLogBucket else bucket)
             in (AList.update signature \<lparr>lb_lastLoggedAt = now, lb_suppressed = 0\<rparr> buckets',
                 Some (event\<lparr>le_Suppressed := lb_suppressed bucket', le_ObservedAt := now\<rparr>)))"

record admissionReportSnapshot =
  rs_Attempts :: nat
  rs_Admitted :: nat
  rs_RequestProtected :: nat
  rs_LoadProtected :: nat
  rs_AvailabilityProtected :: nat
  rs_ShadowProtectedForwards :: nat
  rs_LastDecision :: "DecisionRecord option"
  rs_LastReject :: "(DecisionRecord \<times> gotime) option"

definition zeroReport :: admissionReportSnapshot where
  "zeroReport = \<lparr>rs_Attempts = 0, rs_Admitted = 0, rs_RequestProtected = 0, rs_LoadProtected = 0,
     rs_AvailabilityProtected = 0, rs_ShadowProtectedForwards = 0, rs_LastDecision = None,
     rs_LastReject = None\<rparr>"

record admissionReporter =
  rp_snapshot :: admissionReportSnapshot
  rp_evidence :: admissionEvidence
  rp_tpsEvidence :: tpsDecisionEvidence
  rp_logState :: admissionDecisionLogState
  rp_logInterval :: duration

definition newAdmissionReporter :: "duration \<Rightarrow> admissionReporter" where
  "newAdmissionReporter logInterval =
     \<lparr>rp_snapshot = zeroReport, rp_evidence = zeroEvidence, rp_tpsEvidence = \<lambda>_. 0, rp_logState = [],
      rp_logInterval = (if logInterval \<le> 0 then defaultAdmissionDecisionLogInterval else logInterval)\<rparr>"

definition inc :: "nat \<Rightarrow> nat" where "inc n = wrapu64 (n + 1)"

text \<open>The totals after one decision.\<close>

definition report_Record ::
  "admissionReportSnapshot \<Rightarrow> gotime \<Rightarrow> string \<Rightarrow> DecisionRecord \<Rightarrow> admissionReportSnapshot" where
  "report_Record s now mode decision =
     (let enforced = (mode = ''enforce'' \<and> \<not> Admitted decision);
          s1 = s\<lparr>rs_Attempts := inc (rs_Attempts s), rs_LastDecision := Some decision\<rparr>
      in if Admitted decision then s1\<lparr>rs_Admitted := inc (rs_Admitted s1)\<rparr>
         else
           let s2 = (case dr_Scope decision of
                       ProtectionRequest \<Rightarrow> s1\<lparr>rs_RequestProtected := inc (rs_RequestProtected s1)\<rparr>
                     | ProtectionLoad \<Rightarrow> s1\<lparr>rs_LoadProtected := inc (rs_LoadProtected s1)\<rparr>
                     | _ \<Rightarrow> s1\<lparr>rs_AvailabilityProtected := inc (rs_AvailabilityProtected s1)\<rparr>);
               s3 = (if mode = ''shadow'' then s2\<lparr>rs_ShadowProtectedForwards := inc (rs_ShadowProtectedForwards s2)\<rparr> else s2)
           in if enforced then s3\<lparr>rs_LastReject := Some (decision, now)\<rparr> else s3)"

definition reporter_Record ::
  "admissionReporter \<Rightarrow> gotime \<Rightarrow> string \<Rightarrow> DecisionRecord \<Rightarrow> admissionReporter \<times> admissionDecisionLogEvent option" where
  "reporter_Record r now mode decision =
     (let enforced = (mode = ''enforce'' \<and> \<not> Admitted decision)
      in case Claim (rp_logState r) now (rp_logInterval r)
                \<lparr>le_Mode = mode, le_Enforced = enforced, le_Decision = decision, le_Suppressed = 0,
                 le_ObservedAt = zeroTime\<rparr> of
           (logState, event) \<Rightarrow>
             (r\<lparr>rp_snapshot := report_Record (rp_snapshot r) now mode decision,
                rp_evidence := evidence_Record (rp_evidence r) decision,
                rp_tpsEvidence := tpsEvidence_Record (rp_tpsEvidence r) decision,
                rp_logState := logState\<rparr>, event))"

definition reporter_Snapshot ::
  "admissionReporter \<Rightarrow> admissionReportSnapshot \<times> admissionEvidence \<times> tpsDecisionEvidence" where
  "reporter_Snapshot r =
     (rp_snapshot r, evidence_Snapshot (rp_evidence r), tpsEvidence_Snapshot (rp_tpsEvidence r))"

subsection \<open>The totals\<close>

definition reporter_step :: "admissionReporter \<Rightarrow> gotime \<times> string \<times> DecisionRecord \<Rightarrow> admissionReporter" where
  "reporter_step r x = (case x of (now, mode, decision) \<Rightarrow> fst (reporter_Record r now mode decision))"

lemma reporter_step_fields:
  "rp_snapshot (reporter_step r (t, m, d)) = report_Record (rp_snapshot r) t m d"
  "rp_evidence (reporter_step r (t, m, d)) = evidence_Record (rp_evidence r) d"
  "rp_tpsEvidence (reporter_step r (t, m, d)) = tpsEvidence_Record (rp_tpsEvidence r) d"
  by (simp_all add: reporter_step_def reporter_Record_def Let_def split: prod.split)

abbreviation decisions :: "(gotime \<times> string \<times> DecisionRecord) list \<Rightarrow> DecisionRecord list" where
  "decisions xs \<equiv> map (\<lambda>(t, m, d). d) xs"

lemma reporter_evidence:
  "rp_evidence (foldl reporter_step r xs) = foldl evidence_Record (rp_evidence r) (decisions xs)"
  "rp_tpsEvidence (foldl reporter_step r xs) = foldl tpsEvidence_Record (rp_tpsEvidence r) (decisions xs)"
  by (induction xs arbitrary: r) (auto simp: reporter_step_fields)

definition report_of :: "(gotime \<times> string \<times> DecisionRecord) list \<Rightarrow> admissionReportSnapshot \<Rightarrow> bool" where
  "report_of xs s \<longleftrightarrow>
     rs_Attempts s = length xs \<and>
     rs_Admitted s = count (\<lambda>d. outcomeOf d = admissionEvidenceAdmitted) (decisions xs) \<and>
     rs_RequestProtected s = count (\<lambda>d. outcomeOf d = admissionEvidenceRequestProtected) (decisions xs) \<and>
     rs_LoadProtected s = count (\<lambda>d. outcomeOf d = admissionEvidenceLoadProtected) (decisions xs) \<and>
     rs_AvailabilityProtected s = count (\<lambda>d. outcomeOf d = admissionEvidenceAvailabilityProtected) (decisions xs) \<and>
     rs_ShadowProtectedForwards s = count (\<lambda>(t, m, d). m = ''shadow'' \<and> \<not> Admitted d) xs \<and>
     rs_LastDecision s = (if xs = [] then None else Some (last (decisions xs)))"

lemma inc_exact: "n < MaxUint64 \<Longrightarrow> inc n = n + 1"
  by (simp add: inc_def)

lemma report_step:
  assumes "report_of xs s" "length xs < MaxUint64"
  shows "report_of (xs @ [(t, m, d)]) (report_Record s t m d)"
proof -
  have le: "count P xs < MaxUint64" for P
    using count_le [of P xs] assms(2) by simp
  have le': "count Q (decisions xs) < MaxUint64" for Q
    using count_le [of Q "decisions xs"] assms(2) by simp
  show ?thesis
    using assms le le'
    by (auto simp: report_of_def report_Record_def Let_def admissionEvidenceOutcomeFor_def inc_exact split: ProtectionScope.splits)
qed

lemma report_run:
  "length xs \<le> MaxUint64 \<Longrightarrow> report_of xs (rp_snapshot (foldl reporter_step (newAdmissionReporter iv) xs))"
proof (induction xs rule: rev_induct)
  case Nil
  then show ?case by (simp add: report_of_def newAdmissionReporter_def zeroReport_def)
next
  case (snoc x xs)
  obtain t m d where x: "x = (t, m, d)" by (metis prod.exhaust)
  show ?case using report_step [of xs _ t m d] snoc by (simp add: x reporter_step_fields)
qed

subsection \<open>The throttle of the log\<close>

text \<open>Claiming the events of a list one after the other: the state and the events let through.\<close>

definition log_step ::
  "duration \<Rightarrow> admissionDecisionLogState \<times> admissionDecisionLogEvent list \<Rightarrow> gotime \<times> admissionDecisionLogEvent \<Rightarrow>
   admissionDecisionLogState \<times> admissionDecisionLogEvent list" where
  "log_step interval = (\<lambda>(s, outs) (now, event).
     (case Claim s now interval event of
        (s', None) \<Rightarrow> (s', outs)
      | (s', Some out) \<Rightarrow> (s', outs @ [out])))"

definition log_run :: "duration \<Rightarrow> (gotime \<times> admissionDecisionLogEvent) list \<Rightarrow>
   admissionDecisionLogState \<times> admissionDecisionLogEvent list" where
  "log_run interval es = foldl (log_step interval) ([], []) es"

definition claimed :: "admissionDecisionLogSignature \<Rightarrow> gotime \<times> admissionDecisionLogEvent \<Rightarrow> bool" where
  "claimed k = (\<lambda>(now, e). \<not> Admitted (le_Decision e) \<and> signatureOf e = k)"

definition pendingOf :: "admissionDecisionLogState \<Rightarrow> admissionDecisionLogSignature \<Rightarrow> nat" where
  "pendingOf s k = (case map_of s k of None \<Rightarrow> 0 | Some b \<Rightarrow> lb_suppressed b)"

definition reported :: "admissionDecisionLogEvent list \<Rightarrow> admissionDecisionLogSignature \<Rightarrow> nat" where
  "reported outs k = sum_list (map (\<lambda>x. 1 + le_Suppressed x) (filter (\<lambda>x. signatureOf x = k) outs))"

definition spaced :: "duration \<Rightarrow> admissionDecisionLogEvent list \<Rightarrow> bool" where
  "spaced interval outs \<longleftrightarrow>
     sorted_wrt (\<lambda>x y. signatureOf x = signatureOf y \<longrightarrow> interval \<le> le_ObservedAt y - le_ObservedAt x) outs"

definition log_inv ::
  "duration \<Rightarrow> admissionDecisionLogSignature set \<Rightarrow> (gotime \<times> admissionDecisionLogEvent) list \<Rightarrow>
   admissionDecisionLogState \<times> admissionDecisionLogEvent list \<Rightarrow> bool" where
  "log_inv interval S es = (\<lambda>(s, outs).
     distinct (keys s) \<and> set (keys s) \<subseteq> S \<and>
     (\<forall>k b. map_of s k = Some b \<longrightarrow> zeroTime < lb_lastLoggedAt b \<and> (\<exists>e\<in>set es. lb_lastLoggedAt b \<le> fst e)) \<and>
     (\<forall>x\<in>set outs. \<exists>b. map_of s (signatureOf x) = Some b \<and> le_ObservedAt x \<le> lb_lastLoggedAt b) \<and>
     spaced interval outs \<and>
     (\<forall>k. count (claimed k) es = reported outs k + pendingOf s k))"

lemma signature_stamp: "signatureOf (e\<lparr>le_Suppressed := n, le_ObservedAt := t\<rparr>) = signatureOf e"
  by (simp add: signatureOf_def)

lemma Claim_cases:
  assumes "\<not> Admitted (le_Decision e)" "0 < iv" "zeroTime < now"
    and "\<And>b. map_of s (signatureOf e) = Some b \<Longrightarrow> zeroTime < lb_lastLoggedAt b \<and> lb_lastLoggedAt b \<le> now"
    and "map_of s (signatureOf e) = None \<Longrightarrow> length s < maximumAdmissionLogSignatures"
  obtains (held) b where "map_of s (signatureOf e) = Some b" "Sub now (lb_lastLoggedAt b) < iv"
      "Claim s now iv e = (AList.update (signatureOf e)
         (if lb_suppressed b < MaxUint64 then b\<lparr>lb_suppressed := lb_suppressed b + 1\<rparr> else b) s, None)"
    | (passed) n where "n = pendingOf s (signatureOf e)"
      "\<And>b. map_of s (signatureOf e) = Some b \<Longrightarrow> iv \<le> Sub now (lb_lastLoggedAt b)"
      "Claim s now iv e = (AList.update (signatureOf e) \<lparr>lb_lastLoggedAt = now, lb_suppressed = 0\<rparr> s,
         Some (e\<lparr>le_Suppressed := n, le_ObservedAt := now\<rparr>))"
proof (cases "map_of s (signatureOf e)")
  case None
  with passed [of 0] assms show ?thesis by (simp add: Claim_def pendingOf_def Let_def zeroLogBucket_def IsZero_def)
next
  case (Some b)
  with assms(4) [OF Some] show ?thesis
    using held [OF Some] passed [of "lb_suppressed b"] assms(1,2)
    by (cases "Sub now (lb_lastLoggedAt b) < iv") (auto simp: Claim_def pendingOf_def Let_def IsZero_def)
qed

lemma pendingOf_update: "pendingOf (AList.update k b s) k' = (if k' = k then lb_suppressed b else pendingOf s k')"
  by (simp add: pendingOf_def update_conv')

lemma reported_append: "reported (outs @ [x]) k = reported outs k + (if signatureOf x = k then 1 + le_Suppressed x else 0)"
  by (simp add: reported_def)

lemma spaced_append:
  "spaced iv outs \<Longrightarrow> (\<And>x. x \<in> set outs \<Longrightarrow> signatureOf x = signatureOf y \<Longrightarrow> iv \<le> le_ObservedAt y - le_ObservedAt x) \<Longrightarrow>
   spaced iv (outs @ [y])"
  by (simp add: spaced_def sorted_wrt_append)

lemma count_snoc: "count P (es @ [x]) = count P es + (if P x then 1 else 0)"
  by simp

lemma log_inv_step:
  assumes inv: "log_inv iv S es (s, outs)" and "0 < iv" "zeroTime < now" "\<forall>x\<in>set es. fst x \<le> now"
    and S: "finite S" "card S \<le> maximumAdmissionLogSignatures" "signatureOf e \<in> S"
    and len: "length es < MaxUint64"
  shows "log_inv iv S (es @ [(now, e)]) (log_step iv (s, outs) (now, e))"
proof (cases "Admitted (le_Decision e)")
  case True
  then have "Claim s now iv e = (s, None)" "\<not> claimed k (now, e)" for k by (simp_all add: Claim_def claimed_def)
  with inv show ?thesis by (fastforce simp: log_inv_def log_step_def)
next
  case False
  let ?k = "signatureOf e"
  have d: "distinct (keys s)" "set (keys s) \<subseteq> S" using inv by (auto simp: log_inv_def)
  have b: "zeroTime < lb_lastLoggedAt b \<and> lb_lastLoggedAt b \<le> now" if "map_of s k = Some b" for k b
    using inv that assms(4) by (fastforce simp: log_inv_def)
  have room: "length s < maximumAdmissionLogSignatures" if "map_of s ?k = None"
  proof -
    have "set (keys s) \<subset> S" using d(2) S(3) that by (auto simp: map_of_eq_None_iff)
    then have "card (set (keys s)) < card S" using S(1) by (rule psubset_card_mono [rotated])
    then show ?thesis using S(2) distinct_card [OF d(1)] by simp
  qed
  have dk: "distinct (keys (AList.update ?k v s))" "set (keys (AList.update ?k v s)) \<subseteq> S" for v
    using distinct_update [OF d(1)] d(2) S(3) by (auto simp: dom_update)
  have cl: "count (claimed k) (es @ [(now, e)]) = count (claimed k) es + (if k = ?k then 1 else 0)" for k
    using False by (auto simp: count_snoc claimed_def)
  have last: "\<forall>k b. map_of s k = Some b \<longrightarrow> zeroTime < lb_lastLoggedAt b \<and> (\<exists>e\<in>set es. lb_lastLoggedAt b \<le> fst e)"
    and outs: "\<And>x. x \<in> set outs \<Longrightarrow> \<exists>b. map_of s (signatureOf x) = Some b \<and> le_ObservedAt x \<le> lb_lastLoggedAt b"
    and sp: "spaced iv outs" and cnt: "\<And>k. count (claimed k) es = reported outs k + pendingOf s k"
    using inv unfolding log_inv_def prod.case by blast+
  show ?thesis
  proof (rule Claim_cases [OF False assms(2,3) b room])
    fix b0
    assume held: "map_of s ?k = Some b0" "Sub now (lb_lastLoggedAt b0) < iv"
      "Claim s now iv e = (AList.update ?k
         (if lb_suppressed b0 < MaxUint64 then b0\<lparr>lb_suppressed := lb_suppressed b0 + 1\<rparr> else b0) s, None)"
    then have p: "pendingOf s ?k = lb_suppressed b0" by (simp add: pendingOf_def)
    then have "lb_suppressed b0 < MaxUint64"
      using cnt [of ?k] count_le [of "claimed ?k" es] len by linarith
    then have step: "log_step iv (s, outs) (now, e) = (AList.update ?k (b0\<lparr>lb_suppressed := lb_suppressed b0 + 1\<rparr>) s, outs)"
      by (simp add: log_step_def held(3))
    let ?s = "AList.update ?k (b0\<lparr>lb_suppressed := lb_suppressed b0 + 1\<rparr>) s"
    have "\<forall>k b. map_of ?s k = Some b \<longrightarrow> zeroTime < lb_lastLoggedAt b \<and> (\<exists>e\<in>set (es @ [(now, e)]). lb_lastLoggedAt b \<le> fst e)"
      using last held(1) by (auto simp: update_conv')
    moreover have "\<forall>x\<in>set outs. \<exists>b. map_of ?s (signatureOf x) = Some b \<and> le_ObservedAt x \<le> lb_lastLoggedAt b"
      using outs held(1) by (force simp: update_conv')
    moreover have "count (claimed k) (es @ [(now, e)]) = reported outs k + pendingOf ?s k" for k
      using cnt [of k] p by (simp only: cl pendingOf_update) simp
    ultimately show ?thesis using dk sp unfolding step log_inv_def prod.case by blast
  next
    fix n
    assume passed: "n = pendingOf s ?k" "\<And>b. map_of s ?k = Some b \<Longrightarrow> iv \<le> Sub now (lb_lastLoggedAt b)"
      "Claim s now iv e = (AList.update ?k \<lparr>lb_lastLoggedAt = now, lb_suppressed = 0\<rparr> s,
         Some (e\<lparr>le_Suppressed := n, le_ObservedAt := now\<rparr>))"
    let ?x = "e\<lparr>le_Suppressed := n, le_ObservedAt := now\<rparr>"
    let ?s = "AList.update ?k \<lparr>lb_lastLoggedAt = now, lb_suppressed = 0\<rparr> s"
    have step: "log_step iv (s, outs) (now, e) = (?s, outs @ [?x])"
      by (simp add: log_step_def passed(3))
    have "spaced iv (outs @ [?x])"
    proof (rule spaced_append [OF sp])
      fix x assume x: "x \<in> set outs" "signatureOf x = signatureOf ?x"
      then obtain b0 where b0: "map_of s ?k = Some b0" "le_ObservedAt x \<le> lb_lastLoggedAt b0"
        using outs [OF x(1)] by (auto simp: signature_stamp)
      have "iv \<le> now - lb_lastLoggedAt b0"
        using passed(2) [OF b0(1)] b [OF b0(1)] by (simp add: Sub_of_nonneg)
      with b0(2) show "iv \<le> le_ObservedAt ?x - le_ObservedAt x" by simp
    qed
    moreover have "\<forall>k b. map_of ?s k = Some b \<longrightarrow> zeroTime < lb_lastLoggedAt b \<and> (\<exists>e\<in>set (es @ [(now, e)]). lb_lastLoggedAt b \<le> fst e)"
      using last assms(3) by (auto simp: update_conv')
    moreover have "\<exists>b. map_of ?s (signatureOf y) = Some b \<and> le_ObservedAt y \<le> lb_lastLoggedAt b" if "y \<in> set (outs @ [?x])" for y
    proof (cases "y = ?x")
      case False
      with that obtain b0 where "map_of s (signatureOf y) = Some b0" "le_ObservedAt y \<le> lb_lastLoggedAt b0"
        using outs by fastforce
      then show ?thesis using b [of "signatureOf y" b0] by (cases "signatureOf y = ?k") (auto simp: update_conv')
    qed (simp add: update_conv' signature_stamp)
    moreover have "count (claimed k) (es @ [(now, e)]) = reported (outs @ [?x]) k + pendingOf ?s k" for k
      using cnt [of k] passed(1) by (simp only: cl pendingOf_update reported_append signature_stamp) simp
    ultimately show ?thesis using dk unfolding step log_inv_def prod.case by blast
  qed
qed

lemma log_run_inv:
  assumes "sorted (map fst es)" "0 < iv" "\<forall>x\<in>set es. zeroTime < fst x"
    and "finite S" "card S \<le> maximumAdmissionLogSignatures" "signatureOf ` snd ` set es \<subseteq> S" "length es \<le> MaxUint64"
  shows "log_inv iv S es (log_run iv es)"
  using assms
proof (induction es rule: rev_induct)
  case Nil
  then show ?case by (simp add: log_inv_def log_run_def spaced_def pendingOf_def reported_def)
next
  case (snoc x es)
  obtain now e where x: "x = (now, e)" by fastforce
  obtain s outs where r: "log_run iv es = (s, outs)" by fastforce
  have "log_inv iv S es (s, outs)" using snoc by (simp add: sorted_append r)
  from log_inv_step [OF this, of now e] snoc.prems show ?case
    using r by (auto simp: x log_run_def sorted_append)
qed

end
