(* ===== verification/Durations.thy ===== *)
theory Durations
  imports Float64 "HOL-Library.Sublist"
begin

text \<open>
  \<open>internal/observability/histogram/histogram.go\<close>: the histograms of durations. The bounds are
  checked once, the buckets are cumulative. An atomic counter is a \<open>nat\<close> that wraps around
  like \<open>uint64\<close>.
\<close>

record DurationHistogram =
  dh_count :: nat
  dh_totalNs :: nat
  dh_upperBounds :: "f64 list"
  dh_buckets :: "nat list"

datatype histogramError = ErrNoBuckets | ErrBucketNotPositive nat | ErrBucketsNotIncreasing

definition DurationBucketsSeconds :: "f64 list" where
  "DurationBucketsSeconds = map rnd [1/10, 25/100, 5/10, 1, 2, 5, 10, 20, 30, 60, 120, 300, 600, 1800]"

definition predictiveDurationBucketsSeconds :: "f64 list" where
  "predictiveDurationBucketsSeconds = map rnd
     [1/100000, 25/1000000, 5/100000, 1/10000, 25/100000, 5/10000,
      1/1000, 2/1000, 5/1000, 1/100, 25/1000, 5/100, 1/10]"

text \<open>The loop over the bounds, with the bounds copied so far.\<close>

fun checkBounds :: "nat \<Rightarrow> f64 list \<Rightarrow> f64 list \<Rightarrow> histogramError + f64 list" where
  "checkBounds index owned [] = Inr owned"
| "checkBounds index owned (upper # rest) =
     (if fle upper (Fin 0) \<or> IsNaN upper \<or> IsInf upper then Inl (ErrBucketNotPositive index)
      else if index > 0 \<and> fle upper (owned ! (index - 1)) then Inl ErrBucketsNotIncreasing
      else checkBounds (index + 1) (owned @ [upper]) rest)"

definition validatedDurationHistogramBounds :: "f64 list \<Rightarrow> histogramError + f64 list" where
  "validatedDurationHistogramBounds upperBounds =
     (if upperBounds = [] then Inl ErrNoBuckets else checkBounds 0 [] upperBounds)"

definition emptyHistogram :: "f64 list \<Rightarrow> DurationHistogram" where
  "emptyHistogram owned = \<lparr>dh_count = 0, dh_totalNs = 0, dh_upperBounds = owned,
     dh_buckets = replicate (length owned) 0\<rparr>"

definition NewDurationHistogramWithBuckets :: "f64 list \<Rightarrow> histogramError + DurationHistogram" where
  "NewDurationHistogramWithBuckets upperBounds =
     (case validatedDurationHistogramBounds upperBounds of
        Inl err \<Rightarrow> Inl err | Inr owned \<Rightarrow> Inr (emptyHistogram owned))"

text \<open>\<open>None\<close> is the panic.\<close>

definition newStaticDurationHistogram :: "f64 list \<Rightarrow> DurationHistogram option" where
  "newStaticDurationHistogram upperBounds =
     (case validatedDurationHistogramBounds upperBounds of
        Inl err \<Rightarrow> None | Inr owned \<Rightarrow> Some (emptyHistogram owned))"

definition NewDurationHistogram :: "DurationHistogram option" where
  "NewDurationHistogram = newStaticDurationHistogram DurationBucketsSeconds"

definition NewPredictiveDurationHistogram :: "DurationHistogram option" where
  "NewPredictiveDurationHistogram = newStaticDurationHistogram predictiveDurationBucketsSeconds"

definition duration_Observe :: "DurationHistogram \<Rightarrow> duration \<Rightarrow> DurationHistogram" where
  "duration_Observe h elapsed0 =
     (let elapsed = (if elapsed0 < 0 then 0 else elapsed0);
          elapsedSeconds = Seconds elapsed
      in h\<lparr>dh_count := wrapu64 (dh_count h + 1),
           dh_totalNs := wrapu64 (dh_totalNs h + nat elapsed),
           dh_buckets := map2 (\<lambda>upper n. if fle elapsedSeconds upper then wrapu64 (n + 1) else n)
             (dh_upperBounds h) (dh_buckets h)\<rparr>)"

subsection \<open>The bounds\<close>

definition bound_ok :: "f64 \<Rightarrow> bool" where
  "bound_ok x \<longleftrightarrow> (\<exists>q. x = Fin q \<and> 0 < q)"

lemma bound_ok_iff: "bound_ok x \<longleftrightarrow> \<not> (fle x (Fin 0) \<or> IsNaN x \<or> IsInf x)"
  by (cases x) (auto simp: bound_ok_def IsNaN_def IsInf_def)

lemma checkBounds_iff:
  "index = length owned \<Longrightarrow> list_all bound_ok owned \<Longrightarrow> sorted_wrt flt owned \<Longrightarrow>
   checkBounds index owned xs = Inr ys \<longleftrightarrow> ys = owned @ xs \<and> list_all bound_ok (owned @ xs) \<and> sorted_wrt flt (owned @ xs)"
proof (induction xs arbitrary: index owned)
  case (Cons x xs)
  show ?case
  proof (cases "bound_ok x \<and> (owned = [] \<or> flt (last owned) x)")
    case True
    have l: "owned \<noteq> [] \<Longrightarrow> owned ! (length owned - Suc 0) = last owned"
      by (simp add: last_conv_nth)
    have "\<forall>y\<in>set owned. flt y x"
    proof
      fix y assume "y \<in> set owned"
      then obtain us where o: "owned = us @ [last owned]" by (metis append_butlast_last_id empty_iff empty_set)
      then have "y \<in> set us \<or> y = last owned" using \<open>y \<in> set owned\<close> by (metis Un_iff empty_iff empty_set set_ConsD set_append)
      moreover have "\<forall>y\<in>set us. flt y (last owned)" using Cons.prems(3) o
        by (metis list.set_intros(1) sorted_wrt_append)
      moreover have "owned \<noteq> []" using \<open>y \<in> set owned\<close> by auto
      then have "bound_ok (last owned)" "bound_ok y" using Cons.prems(2) \<open>y \<in> set owned\<close> by (simp_all add: list_all_iff)
      ultimately have "flt y (last owned) \<or> y = last owned" "bound_ok y" "bound_ok (last owned)" "owned \<noteq> []"
        using \<open>y \<in> set owned\<close> by auto
      then show "flt y x" using True by (auto simp: bound_ok_def)
    qed
    then have "sorted_wrt flt (owned @ [x])" using Cons.prems by (simp add: sorted_wrt_append)
    moreover have "\<not> (index > 0 \<and> fle x (owned ! (index - 1)))"
      using True l Cons.prems(1) flt_imp_not_fle [of "last owned" x] by auto
    ultimately show ?thesis
      using Cons.IH [of "index + 1" "owned @ [x]"] Cons.prems True by (auto simp: bound_ok_iff)
  next
    case False
    have "\<not> (bound_ok x \<and> sorted_wrt flt (owned @ x # xs))"
      using False by (auto simp: sorted_wrt_append)
    moreover have "checkBounds index owned (x # xs) \<noteq> Inr ys"
    proof (cases "bound_ok x")
      case True
      then have "owned \<noteq> []" "\<not> flt (last owned) x" using False by auto
      moreover have "bound_ok (last owned)" using Cons.prems \<open>owned \<noteq> []\<close> by (simp add: list_all_iff)
      ultimately show ?thesis
        using True Cons.prems(1) by (auto simp: last_conv_nth bound_ok_def)
    qed (auto simp: bound_ok_iff)
    ultimately show ?thesis by auto
  qed
qed auto

lemma validated_iff:
  "validatedDurationHistogramBounds xs = Inr ys \<longleftrightarrow> ys = xs \<and> xs \<noteq> [] \<and> list_all bound_ok xs \<and> sorted_wrt flt xs"
  using checkBounds_iff [of 0 "[]" xs ys] by (auto simp: validatedDurationHistogramBounds_def)

text \<open>Rounding keeps apart what a multiple of a power of two separates.\<close>

definition apart :: "rat \<Rightarrow> rat \<Rightarrow> bool" where
  "apart a b \<longleftrightarrow> \<lceil>a * 1048576\<rceil> < \<lfloor>b * 1048576\<rfloor> \<and> \<lfloor>b * 1048576\<rfloor> < 9007199254740992"

lemma rnd_dyadic: "0 < m \<Longrightarrow> m < 9007199254740992 \<Longrightarrow> rnd (of_int m / 1048576) = Fin (of_int m / 1048576)"
proof -
  assume m: "0 < m" "m < 9007199254740992"
  then have "rndabs (of_int m * 2 powi - 20) = of_int m * 2 powi - 20" by (intro rndabs_exact) simp_all
  moreover have "(2 :: rat) powi - 20 = 1 / 1048576" by (simp add: power_int_def power_divide)
  ultimately have r: "rndabs (of_int m / 1048576) = of_int m / 1048576" by simp
  have "(of_int m :: rat) < of_int 9007199254740992" using m by (simp only: of_int_less_iff)
  then have "(of_int m :: rat) / 1048576 < 2 ^ 53" by simp
  also have "\<dots> \<le> (2 :: rat) ^ 1024" by (intro power_increasing) simp_all
  finally have lt: "\<not> 2 ^ 1024 \<le> (of_int m :: rat) / 1048576" by (simp only: not_le)
  have "(0 :: rat) < of_int m / 1048576" using m by simp
  from rnd_pos [OF this] show ?thesis unfolding r if_not_P [OF lt] .
qed

lemma rnd_apart:
  assumes "0 < a" "apart a b"
  shows "flt (rnd a) (rnd b)"
proof -
  define p where "p = \<lceil>a * 1048576\<rceil>"
  define q where "q = \<lfloor>b * 1048576\<rfloor>"
  have "0 < p" "p < q" "q < 9007199254740992" using assms by (simp_all add: apart_def p_def q_def)
  then have e: "rnd (of_int p / 1048576) = Fin (of_int p / 1048576)" "rnd (of_int q / 1048576) = Fin (of_int q / 1048576)"
    by (simp_all only: rnd_dyadic)
  have "a * 1048576 \<le> of_int p" "of_int q \<le> b * 1048576" by (simp_all add: p_def q_def)
  then have "fle (rnd a) (Fin (of_int p / 1048576))" "fle (Fin (of_int q / 1048576)) (rnd b)"
    using rnd_mono [of a "of_int p / 1048576"] rnd_mono [of "of_int q / 1048576" b] unfolding e by simp_all
  moreover have "(of_int p :: rat) / 1048576 < of_int q / 1048576" using \<open>p < q\<close> by (simp add: divide_strict_right_mono)
  ultimately show ?thesis
    by (cases "rnd a"; cases "rnd b") auto
qed

lemma rnd_bound_ok: "apart 0 a \<Longrightarrow> apart a 8589934591 \<Longrightarrow> 0 < a \<Longrightarrow> bound_ok (rnd a)"
proof -
  assume a: "apart 0 a" "apart a 8589934591" "0 < a"
  have "(1 :: rat) / 1048576 \<le> a"
  proof -
    have "1 \<le> \<lfloor>a * 1048576\<rfloor>" using a(1) by (simp add: apart_def)
    then have "1 \<le> a * 1048576" by simp
    then show ?thesis by simp
  qed
  then have "fle (Fin (1 / 1048576)) (rnd a)" using rnd_mono [of "1/1048576" a] rnd_dyadic [of 1] by simp
  then show ?thesis using rnd_apart [OF a(3,2)]
    by (cases "rnd a"; cases "rnd 8589934591") (simp_all add: bound_ok_def)
qed

lemma static_ok:
  assumes "list_all (\<lambda>q. 0 < q \<and> apart 0 q \<and> apart q 8589934591) qs" "sorted_wrt apart qs"
  shows "list_all bound_ok (map rnd qs)" "sorted_wrt flt (map rnd qs)"
proof -
  show "list_all bound_ok (map rnd qs)"
    using assms(1) by (auto simp: list_all_iff intro: rnd_bound_ok)
  have "\<forall>q\<in>set qs. 0 < q" using assms(1) by (simp add: list_all_iff)
  with assms(2) show "sorted_wrt flt (map rnd qs)" by (induction qs) (auto intro: rnd_apart)
qed

lemma static_bounds:
  "validatedDurationHistogramBounds DurationBucketsSeconds = Inr DurationBucketsSeconds"
  "validatedDurationHistogramBounds predictiveDurationBucketsSeconds = Inr predictiveDurationBucketsSeconds"
  unfolding validated_iff DurationBucketsSeconds_def predictiveDurationBucketsSeconds_def
  by (intro conjI static_ok refl; (simp; fail)?, code_simp?)+

subsection \<open>The counts\<close>

definition durations_of :: "f64 list \<Rightarrow> duration list \<Rightarrow> DurationHistogram" where
  "durations_of bounds ds = foldl duration_Observe (emptyHistogram bounds) ds"

lemma durations_of_exact:
  assumes "\<forall>d\<in>set ds. 0 \<le> d" "length ds \<le> MaxUint64" "sum_list ds \<le> int MaxUint64"
  shows "durations_of bounds ds = \<lparr>dh_count = length ds, dh_totalNs = nat (sum_list ds), dh_upperBounds = bounds,
     dh_buckets = map (\<lambda>b. length (filter (\<lambda>d. fle (Seconds d) b) ds)) bounds\<rparr>"
  using assms
proof (induction ds rule: rev_induct)
  case Nil
  then show ?case by (simp add: durations_of_def emptyHistogram_def map_replicate_const)
next
  case (snoc d ds)
  have nn: "0 \<le> sum_list ds" using snoc.prems(1) by (intro sum_list_nonneg) auto
  with snoc have IH: "durations_of bounds ds = \<lparr>dh_count = length ds, dh_totalNs = nat (sum_list ds),
      dh_upperBounds = bounds, dh_buckets = map (\<lambda>b. length (filter (\<lambda>d. fle (Seconds d) b) ds)) bounds\<rparr>"
    by simp
  have le: "length (filter P ds) < MaxUint64" for P
    by (rule le_less_trans [OF length_filter_le]) (use snoc.prems(2) in simp)
  have m: "map2 f xs (map g xs) = map (\<lambda>x. f x (g x)) xs" for f :: "f64 \<Rightarrow> nat \<Rightarrow> nat" and g xs
    by (induction xs) auto
  have "durations_of bounds (ds @ [d]) = duration_Observe (durations_of bounds ds) d" by (simp add: durations_of_def)
  moreover have "nat (sum_list ds) + nat d \<le> MaxUint64" using snoc.prems(1,3) nn by auto
  moreover have "wrapu64 (Suc (length (filter P ds))) = Suc (length (filter P ds))" for P
    using le [of P] by simp
  ultimately show ?case
    using snoc.prems nn
    by (auto simp: IH duration_Observe_def Let_def m nat_add_distrib)
qed

lemma durations_cumulative:
  assumes "\<forall>d\<in>set ds. 0 \<le> d" "length ds \<le> MaxUint64" "sum_list ds \<le> int MaxUint64" "sorted_wrt flt bounds"
  shows "sorted (dh_buckets (durations_of bounds ds)) \<and>
     (\<forall>n\<in>set (dh_buckets (durations_of bounds ds)). n \<le> dh_count (durations_of bounds ds))"
proof -
  have mono: "length (filter (\<lambda>d. fle (Seconds d) a) ds) \<le> length (filter (\<lambda>d. fle (Seconds d) b) ds)" if "flt a b" for a b
  proof -
    have "fle (Seconds d) a \<Longrightarrow> fle (Seconds d) b" for d
      using that by (cases a; cases b; cases "Seconds d") auto
    then show ?thesis by (induction ds) auto
  qed
  have "sorted (map (\<lambda>b. length (filter (\<lambda>d. fle (Seconds d) b) ds)) bounds)"
    using assms(4) by (induction bounds) (auto intro: mono)
  then show ?thesis using assms by (auto simp: durations_of_exact)
qed

end
