(* ===== verification/Runtime.thy ===== *)
theory Runtime
  imports Controller_Contract Reporter Durations
begin

text \<open>
  \<open>internal/app/server/admission_runtime.go\<close>, \<open>admission_http.go\<close> and \<open>admission_projection.go\<close>:
  the service around the controller, the check of its decisions, and what of its capacity the
  router is told.

  A call that can panic returns an option, \<open>None\<close> being the panic. The events that the reporter's
  callback gets are collected in \<open>ru_events\<close>. The clock readings of a call are its arguments.
\<close>

record admissionDecision =
  ad_Record :: DecisionRecord
  ad_Reservation :: "ReservationHandle option"

definition decision_valid :: "admissionDecision \<Rightarrow> bool" where
  "decision_valid d \<longleftrightarrow>
     (if Admitted (ad_Record d) then ad_Reservation d \<noteq> None
      else dr_Action (ad_Record d) = ActionProtect \<and> ad_Reservation d = None)"

definition unavailableAdmissionDecision :: "TPSRequestDemand \<Rightarrow> admissionDecision" where
  "unavailableAdmissionDecision demand =
     \<lparr>ad_Record = zeroDecisionRecord\<lparr>dr_Action := ActionProtect, dr_Reason := ReasonControllerUnavailable,
        dr_Scope := ProtectionAvailability, dr_Demand := demand\<rparr>,
      ad_Reservation = None\<rparr>"

text \<open>Closing the observer: its error, or a panic.\<close>

type_synonym observerClose = "string option option"

record admissionRuntime =
  ru_controller :: AdmissionController
  ru_reporter :: admissionReporter
  ru_observer :: "observerClose option"
  ru_backendKind :: string
  ru_mode :: string
  ru_prediction :: DurationHistogram
  ru_kvCapacityTokens :: int
  ru_warmPromptTokens :: int
  ru_backendTierScheduling :: bool
  ru_closed :: bool
  ru_closeErr :: "string option"
  ru_events :: "admissionDecisionLogEvent list"

datatype runtimeError = ErrRuntimeInvalid | ErrHistogramPanic

definition newAdmissionRuntime ::
  "AdmissionController option \<Rightarrow> admissionReporter option \<Rightarrow> string \<Rightarrow> string \<Rightarrow> runtimeError + admissionRuntime" where
  "newAdmissionRuntime controller reporter backendKind mode =
     (case (controller, reporter) of
        (Some c, Some r) \<Rightarrow>
          if (backendKind \<noteq> ''vllm'' \<and> backendKind \<noteq> ''sglang'') \<or> (mode \<noteq> ''enforce'' \<and> mode \<noteq> ''shadow'')
          then Inl ErrRuntimeInvalid
          else (case NewPredictiveDurationHistogram of
                  None \<Rightarrow> Inl ErrHistogramPanic
                | Some h \<Rightarrow> Inr \<lparr>ru_controller = c, ru_reporter = r, ru_observer = None,
                    ru_backendKind = backendKind, ru_mode = mode, ru_prediction = h,
                    ru_kvCapacityTokens = 0, ru_warmPromptTokens = 0, ru_backendTierScheduling = False,
                    ru_closed = False, ru_closeErr = None, ru_events = []\<rparr>)
      | _ \<Rightarrow> Inl ErrRuntimeInvalid)"

definition runtime_record :: "admissionRuntime \<Rightarrow> gotime \<Rightarrow> DecisionRecord \<Rightarrow> admissionRuntime" where
  "runtime_record r now decision =
     (case reporter_Record (ru_reporter r) now (ru_mode r) decision of
        (reporter, event) \<Rightarrow>
          r\<lparr>ru_reporter := reporter,
            ru_events := ru_events r @ (case event of None \<Rightarrow> [] | Some e \<Rightarrow> [e])\<rparr>)"

text \<open>\<open>ctxDone\<close>: the context is nil or has an error. \<open>elapsed\<close>: what the histogram measures.\<close>

definition runtime_Decide ::
  "admissionRuntime \<Rightarrow> bool \<Rightarrow> gotime \<Rightarrow> duration \<Rightarrow> TPSRequestDemand \<Rightarrow> admissionRuntime \<times> admissionDecision" where
  "runtime_Decide r ctxDone now elapsed demand0 =
     (let demand = (if ctxDone then zeroDemand else demand0)
      in case Admit (ru_controller r) now demand of
           (controller, result) \<Rightarrow>
             let r1 = runtime_record (r\<lparr>ru_controller := controller\<rparr>) now (ar_Decision result);
                 decision = \<lparr>ad_Record = ar_Decision result,
                   ad_Reservation = (if Admitted (ar_Decision result) then Some (ar_Handle result) else None)\<rparr>
             in (r1\<lparr>ru_prediction := duration_Observe (ru_prediction r1) elapsed\<rparr>, decision))"

record admissionTelemetrySnapshot =
  at_BackendKind :: string
  at_Capacity :: CapacitySnapshot
  at_Report :: "admissionReportSnapshot \<times> admissionEvidence \<times> tpsDecisionEvidence"

definition runtime_Snapshot :: "admissionRuntime \<Rightarrow> gotime \<Rightarrow> admissionTelemetrySnapshot" where
  "runtime_Snapshot r now =
     \<lparr>at_BackendKind = ru_backendKind r, at_Capacity = Snapshot (ru_controller r) now,
      at_Report = reporter_Snapshot (ru_reporter r)\<rparr>"

definition PromptIndexTokens :: "admissionRuntime \<Rightarrow> int" where
  "PromptIndexTokens r = ru_kvCapacityTokens r"

definition WarmPromptTokens :: "admissionRuntime \<Rightarrow> int" where
  "WarmPromptTokens r = ru_warmPromptTokens r"

definition BackendTierScheduling :: "admissionRuntime \<Rightarrow> bool" where
  "BackendTierScheduling r = ru_backendTierScheduling r"

definition runtime_UpdatePolicy ::
  "admissionRuntime \<Rightarrow> PolicyUpdate \<Rightarrow> admissionRuntime \<times> PolicyUpdateResult \<times> PolicyError option" where
  "runtime_UpdatePolicy r update =
     (case UpdatePolicy (ru_controller r) update of (c, result) \<Rightarrow> (r\<lparr>ru_controller := c\<rparr>, result))"

definition RecordExternalDecision :: "admissionRuntime \<Rightarrow> gotime \<Rightarrow> DecisionRecord \<Rightarrow> admissionRuntime" where
  "RecordExternalDecision r now decision = runtime_record r now decision"

definition closeAdmissionObserver :: "observerClose option \<Rightarrow> string option" where
  "closeAdmissionObserver observer =
     (case observer of
        None \<Rightarrow> None
      | Some None \<Rightarrow> Some ''admission observer close panicked''
      | Some (Some err) \<Rightarrow> err)"

definition runtime_Close :: "admissionRuntime \<Rightarrow> admissionRuntime \<times> string option" where
  "runtime_Close r =
     (let r' = (if ru_closed r then r
                else r\<lparr>ru_closed := True,
                       ru_closeErr := (if ru_observer r \<noteq> None then closeAdmissionObserver (ru_observer r)
                                       else ru_closeErr r),
                       ru_controller := Close (ru_controller r)\<rparr>)
      in (r', ru_closeErr r'))"

text \<open>The methods of a reservation act on the controller behind the runtime.\<close>

definition reservation_Terminate ::
  "admissionRuntime \<Rightarrow> ReservationHandle \<Rightarrow> TerminalCause \<Rightarrow> gotime \<Rightarrow> admissionRuntime \<times> bool" where
  "reservation_Terminate r h cause clk =
     (case Terminate (ru_controller r) h cause clk of (c, ok) \<Rightarrow> (r\<lparr>ru_controller := c\<rparr>, ok))"

subsection \<open>Checking a decision\<close>

text \<open>
  What \<open>decideAdmission\<close> and \<open>safePriorityDelegateDecide\<close> do with the result of a service: a panic and
  a decision that contradicts itself become the refusal of an unavailable controller, and the
  reservation of such a decision is given back. The service is any state with its two operations.
\<close>

definition checkedDecide ::
  "('s \<Rightarrow> ReservationHandle \<Rightarrow> TerminalCause \<Rightarrow> 's \<times> bool) \<Rightarrow> 's \<times> admissionDecision option \<Rightarrow> TPSRequestDemand \<Rightarrow>
   's \<times> admissionDecision \<times> bool" where
  "checkedDecide terminateWith result demand =
     (case result of
        (s, None) \<Rightarrow> (s, unavailableAdmissionDecision demand, False)
      | (s, Some decision) \<Rightarrow>
          if \<not> decision_valid decision then
            ((case ad_Reservation decision of
                None \<Rightarrow> s | Some h \<Rightarrow> fst (terminateWith s h TerminalCancel)),
             unavailableAdmissionDecision demand, False)
          else (s, decision, True))"

text \<open>\<open>proxyServer.decideAdmission\<close> over the service and its counter of failed decisions.\<close>

definition decideAdmission ::
  "('s \<Rightarrow> ReservationHandle \<Rightarrow> TerminalCause \<Rightarrow> 's \<times> bool) \<Rightarrow> ('s \<Rightarrow> TPSRequestDemand \<Rightarrow> 's \<times> admissionDecision option) \<Rightarrow>
   's \<times> nat \<Rightarrow> TPSRequestDemand \<Rightarrow> ('s \<times> nat) \<times> admissionDecision" where
  "decideAdmission terminateWith decide = (\<lambda>(s, failures) demand.
     (case checkedDecide terminateWith (decide s demand) demand of
        (s', decision, ok) \<Rightarrow> ((s', if ok then failures else wrapu64 (failures + 1)), decision)))"

subsection \<open>The projection of the capacity\<close>

definition nonnegativeInt :: "int \<Rightarrow> int" where
  "nonnegativeInt value = (if value \<le> 0 then 0 else if value > MaxInt64 then MaxInt64 else value)"



definition admissionDecisionSource :: "DecisionRecord \<Rightarrow> string" where
  "admissionDecisionSource decision =
     (if dr_Scope decision = ProtectionAvailability then ''unavailable'' else ''deterministic'')"

record admissionCapacityProjection =
  cp_Active :: bool
  cp_Scope :: ProtectionScope
  cp_Reason :: Reason
  cp_Source :: string
  cp_MinimumRunning :: int
  cp_InspectCapacity :: int
  cp_LatestRejectAt :: "gotime option"

definition projectAdmissionCapacity ::
  "string \<Rightarrow> CapacitySnapshot \<Rightarrow> admissionReportSnapshot \<Rightarrow> admissionCapacityProjection" where
  "projectAdmissionCapacity mode capacity report =
     (let projection = \<lparr>cp_Active = False, cp_Scope = dr_Scope (cs_MinimumDecision capacity),
            cp_Reason = dr_Reason (cs_MinimumDecision capacity),
            cp_Source = admissionDecisionSource (cs_MinimumDecision capacity), cp_MinimumRunning = 0,
            cp_InspectCapacity = 0, cp_LatestRejectAt = map_option snd (rs_LastReject report)\<rparr>
      in if mode \<noteq> ''enforce'' \<or> cs_Available capacity then projection
         else projection\<lparr>cp_Active := True, cp_MinimumRunning := 1\<rparr>)"

record RouterCapacityCompatibility =
  rc_ObservedRunningRaw :: int
  rc_ObservedWaitingRaw :: int
  rc_ObservedRunning :: int
  rc_ObservedWaiting :: int
  rc_GlobalLimitRaw :: int
  rc_GlobalLimit :: int

definition projectRouterCompatibility ::
  "string \<Rightarrow> CapacitySnapshot \<Rightarrow> admissionCapacityProjection \<Rightarrow> RouterCapacityCompatibility" where
  "projectRouterCompatibility mode capacity projection =
     (let running = nonnegativeInt (ps_RawRunning (cs_State capacity));
          waiting = nonnegativeInt (ps_RawWaiting (cs_State capacity));
          value = \<lparr>rc_ObservedRunningRaw = running, rc_ObservedWaitingRaw = waiting,
            rc_ObservedRunning = running, rc_ObservedWaiting = waiting, rc_GlobalLimitRaw = 0,
            rc_GlobalLimit = 0\<rparr>
      in if mode \<noteq> ''enforce'' then value
         else
           let value1 = value\<lparr>rc_ObservedWaiting := 0\<rparr>
           in if \<not> cp_Active projection then value1
              else
                let minimumRunning = nonnegativeInt (cp_MinimumRunning projection);
                    observed = (if running < minimumRunning then minimumRunning else running);
                    observed1 = (if observed < 1 then 1 else observed);
                    inspect = nonnegativeInt (cp_InspectCapacity projection)
                in value1\<lparr>rc_ObservedRunning := observed1,
                          rc_GlobalLimitRaw := wrap64 (running + inspect),
                          rc_GlobalLimit := wrap64 (observed1 + inspect)\<rparr>)"

end
