(* ===== verification/Service.thy ===== *)
theory Service
  imports Runtime
begin

text \<open>
  The contract between an admission service and the code in front of it: which reservations are
  open, how a decision and a termination change that, and that decisions are consistent. The
  runtime of \<open>Runtime\<close> provides it. Lemmas about any client of such a service are proved in the
  locale.
\<close>

locale admission_service =
  fixes decide :: "'s \<Rightarrow> bool \<Rightarrow> gotime \<Rightarrow> duration \<Rightarrow> TPSRequestDemand \<Rightarrow> 's \<times> admissionDecision option"
    and terminateWith :: "'s \<Rightarrow> ReservationHandle \<Rightarrow> TerminalCause \<Rightarrow> gotime \<Rightarrow> 's \<times> bool"
    and recordDecision :: "'s \<Rightarrow> gotime \<Rightarrow> DecisionRecord \<Rightarrow> 's"
    and openHandles :: "'s \<Rightarrow> ReservationHandle set"
    and healthy :: "'s \<Rightarrow> bool"
  assumes decide_healthy: "healthy s \<Longrightarrow> healthy (fst (decide s ctx now elapsed d))"
    and terminate_healthy: "healthy s \<Longrightarrow> healthy (fst (terminateWith s h cause clk))"
    and record_healthy: "healthy s \<Longrightarrow> healthy (recordDecision s now rec)"
    and decide_panic: "decide s ctx now elapsed d = (s', None) \<Longrightarrow> openHandles s' \<subseteq> openHandles s"
    and decide_opens: "healthy s \<Longrightarrow> decide s ctx now elapsed d = (s', Some dec) \<Longrightarrow>
      openHandles s' \<subseteq> openHandles s \<union> set_option (ad_Reservation dec)"
    and terminate_closes: "healthy s \<Longrightarrow> TerminalCause_valid cause \<Longrightarrow>
      openHandles (fst (terminateWith s h cause clk)) \<subseteq> openHandles s - {h}"
    and record_keeps: "openHandles (recordDecision s now rec) = openHandles s"
begin

text \<open>A checked decision opens at most the reservation it carries, whatever the service answers.\<close>

lemma checked_healthy:
  "healthy s \<Longrightarrow> healthy (fst (checkedDecide (\<lambda>s h c. terminateWith s h c clk) (decide s ctx now elapsed d) d'))"
  using decide_healthy [of s ctx now elapsed d] terminate_healthy
  by (cases "decide s ctx now elapsed d") (auto simp: checkedDecide_def split: option.split)

lemma checked_valid:
  "decision_valid (fst (snd (checkedDecide (\<lambda>s h c. terminateWith s h c clk) result d)))"
  by (cases result)
     (auto simp: checkedDecide_def unavailableAdmissionDecision_def decision_valid_def Admitted_def split: option.split)

lemma checked_opens:
  assumes "healthy s" "checkedDecide (\<lambda>s h c. terminateWith s h c clk) (decide s ctx now elapsed d) d' = (s', dec, ok)"
  shows "openHandles s' \<subseteq> openHandles s \<union> set_option (ad_Reservation dec)"
proof -
  obtain s1 r where 1: "decide s ctx now elapsed d = (s1, r)" by fastforce
  show ?thesis
  proof (cases r)
    case None
    then show ?thesis using assms(2) decide_panic [of s ctx now elapsed d s1] 1 by (auto simp: checkedDecide_def)
  next
    case (Some dec1)
    have o: "openHandles s1 \<subseteq> openHandles s \<union> set_option (ad_Reservation dec1)"
      using decide_opens [OF assms(1)] 1 Some by simp
    have h: "healthy s1" using decide_healthy [OF assms(1), of ctx now elapsed d] 1 by simp
    show ?thesis
    proof (cases "decision_valid dec1")
      case True
      then show ?thesis using assms(2) o 1 Some by (auto simp: checkedDecide_def)
    next
      case False
      have "openHandles (fst (terminateWith s1 h' TerminalCancel clk)) \<subseteq> openHandles s1 - {h'}" for h'
        by (rule terminate_closes [OF h]) simp
      with False show ?thesis using assms(2) o 1 Some
        by (cases "ad_Reservation dec1") (auto simp: checkedDecide_def)
    qed
  qed
qed

end

subsection \<open>The runtime\<close>

definition runtimeDecide ::
  "admissionRuntime \<Rightarrow> bool \<Rightarrow> gotime \<Rightarrow> duration \<Rightarrow> TPSRequestDemand \<Rightarrow> admissionRuntime \<times> admissionDecision option" where
  "runtimeDecide r ctxDone now elapsed demand =
     (case runtime_Decide r ctxDone now elapsed demand of (r', d) \<Rightarrow> (r', Some d))"

definition openOf :: "AdmissionController \<Rightarrow> ReservationHandle set" where
  "openOf c = (\<lambda>(i, r). \<lparr>rh_controller = Some (ac_self c), rh_runtimeEpoch = rv_runtimeEpoch r, rh_id = i\<rparr>) `
     {x \<in> set (ac_reservations c). rv_phase (snd x) \<noteq> reservationResidualDebt}"

definition runtimeOpen :: "admissionRuntime \<Rightarrow> ReservationHandle set" where
  "runtimeOpen r = openOf (ru_controller r)"

definition runtimeHealthy :: "admissionRuntime \<Rightarrow> bool" where
  "runtimeHealthy r \<longleftrightarrow> controller_inv (ru_controller r)"

lemma runtime_record_fields [simp]:
  "ru_controller (runtime_record r now d) = ru_controller r" "ru_mode (runtime_record r now d) = ru_mode r"
  by (simp_all add: runtime_record_def split: prod.split)

lemma runtime_Decide_controller:
  "ru_controller (fst (runtime_Decide r ctxDone now elapsed d)) = fst (Admit (ru_controller r) now (if ctxDone then zeroDemand else d))"
  by (simp add: runtime_Decide_def Let_def split: prod.split)

lemma runtime_Decide_decision:
  "snd (runtime_Decide r ctxDone now elapsed d) =
     (let a = snd (Admit (ru_controller r) now (if ctxDone then zeroDemand else d))
      in \<lparr>ad_Record = ar_Decision a, ad_Reservation = (if Admitted (ar_Decision a) then Some (ar_Handle a) else None)\<rparr>)"
  by (simp add: runtime_Decide_def Let_def split: prod.split)

lemma openOf_iff:
  "h \<in> openOf c \<longleftrightarrow> rh_controller h = Some (ac_self c) \<and>
     (\<exists>r. (rh_id h, r) \<in> set (ac_reservations c) \<and> rv_runtimeEpoch r = rh_runtimeEpoch h \<and>
        rv_phase r \<noteq> reservationResidualDebt)"
  by (cases h) (force simp: openOf_def)

lemma openOf_closed: "ac_reservations c = [] \<Longrightarrow> openOf c = {}"
  by (simp add: openOf_def)

lemma failClosed_open: "openOf (failClosed c r) \<subseteq> openOf c"
  by (auto simp: failClosed_def openOf_def)

lemma failClosed_empties: "ac_closedReason c = ReasonEmpty \<Longrightarrow> openOf (failClosed c r) = {}"
  by (simp add: failClosed_def openOf_def)

lemma Admit_opens:
  assumes "controller_inv c"
  shows "openOf (fst (Admit c now d)) \<subseteq> openOf c \<union>
     (if Admitted (ar_Decision (snd (Admit c now d))) then {ar_Handle (snd (Admit c now d))} else {})"
proof (cases rule: Admit_result [of c now d])
  case refused
  then show ?thesis by (auto dest: subsetD [OF failClosed_open])
next
  case (success state share ov)
  have "Admitted (ar_Decision (admitted_result c d state))"
    using success(1) by (simp add: admits_def admitted_result_def Admitted_def decisionLocked_def)
  moreover have "map_of (ac_reservations c) (ac_nextReservationID c + 1) = None"
    using inv_fresh_id [of c "ac_nextReservationID c + 1"] assms
    by (simp add: controller_inv_def map_of_eq_None_iff)
  then have "AList.update (ac_nextReservationID c + 1) v (ac_reservations c) =
      ac_reservations c @ [(ac_nextReservationID c + 1, v)]" for v
    by (intro update_absent) (simp add: map_of_eq_None_iff)
  ultimately show ?thesis
    unfolding success(2)
    by (auto simp: openOf_iff admitted_state_def admitted_result_def new_item_def zeroReservation_def)
qed

lemma terminated_opens:
  assumes "distinct (keys (ac_reservations c))" "terminates c i cause clk item ov l"
  shows "openOf (terminated_state c i cause item ov l) \<subseteq> openOf c \<inter> {h. rh_id h \<noteq> i}"
proof
  fix h assume h: "h \<in> openOf (terminated_state c i cause item ov l)"
  let ?rs = "ac_reservations (terminated_state c i cause item ov l)"
  have d: "distinct (keys ?rs)"
    using assms(1) by (simp add: terminated_state_def distinct_update distinct_delete)
  obtain r where r: "map_of ?rs (rh_id h) = Some r" "rv_runtimeEpoch r = rh_runtimeEpoch h"
      "rv_phase r \<noteq> reservationResidualDebt" "rh_controller h = Some (ac_self c)"
    using h d by (auto simp: openOf_iff terminated_state_def)
  then have ne: "rh_id h \<noteq> i"
    by (auto simp: terminated_state_def debt_item_def update_conv' delete_conv' split: if_splits)
  with r(1) have "map_of (ac_reservations c) (rh_id h) = Some r"
    by (auto simp: terminated_state_def update_conv' delete_conv' split: if_splits)
  with r ne show "h \<in> openOf c \<inter> {h. rh_id h \<noteq> i}" by (auto simp: openOf_iff dest: map_of_SomeD)
qed

lemma life_failed_open: "life_failed c res \<Longrightarrow> fst res = c \<or> openOf (fst res) = {}"
  by (auto simp: life_failed_def failClosed_def openOf_def)

lemma terminate_opens:
  assumes "distinct (keys (ac_reservations c))"
  shows "openOf (fst (terminate c e i cause clk)) \<subseteq> openOf c"
proof (cases rule: terminate_result [of c e i cause clk])
  case failed
  then show ?thesis using life_failed_open [OF failed] by auto
next
  case (success item ov l)
  then show ?thesis using terminated_opens [OF assms success(2)] by auto
qed

lemma Terminate_closes:
  assumes "controller_inv c" "TerminalCause_valid cause"
  shows "openOf (fst (Terminate c h cause clk)) \<subseteq> openOf c - {h}"
proof -
  have res: "inv_res c" using assms(1) by (simp add: controller_inv_def)
  note d = inv_resD(1) [OF res]
  have sub: "openOf (fst (Terminate c h cause clk)) \<subseteq> openOf c"
    using terminate_opens [OF d] by (simp add: Terminate_def)
  show ?thesis
  proof (cases "h \<in> openOf c")
    case True
    then obtain item where item: "(rh_id h, item) \<in> set (ac_reservations c)" "rv_runtimeEpoch item = rh_runtimeEpoch h"
        "rv_phase item \<noteq> reservationResidualDebt" "rh_controller h = Some (ac_self c)"
      by (auto simp: openOf_iff)
    have ok: "res_ok (ac_runtimeEpoch c) (ac_eventSequence c) (ac_nextReservationID c) (rh_id h) item"
      using inv_resD(2) [OF res] item(1) by auto
    have m: "map_of (ac_reservations c) (rh_id h) = Some item" using item(1) d by simp
    have op: "ac_closedReason c = ReasonEmpty" using inv_resD(9) [OF res] item(1) by force
    have "1 \<le> ac_runtimeEpoch c" using assms(1) by (simp add: controller_inv_def inv_core_def)
    then have "handle_usable h" using ok item(2,4) by (auto simp: handle_usable_def res_ok_def)
    then have eq: "Terminate c h cause clk = terminate c (rh_runtimeEpoch h) (rh_id h) cause clk"
      using item(4) assms(2) by (simp add: Terminate_def)
    have ep: "rh_runtimeEpoch h = ac_runtimeEpoch c" using ok item(2) by (simp add: res_ok_def)
    show ?thesis
    proof (cases rule: terminate_result [of c "rh_runtimeEpoch h" "rh_id h" cause clk])
      case failed
      have "terminate c (rh_runtimeEpoch h) (rh_id h) cause clk \<noteq> (c, False)"
        using terminate_live [OF op ep assms(2) m item(2,3), of clk] terminate_success op ep by (metis fst_conv prod.inject)
      with failed show ?thesis
        using failClosed_empties op by (auto simp: eq life_failed_def)
    next
      case (success it ov l)
      then show ?thesis using terminated_opens [OF d success(2)] eq by auto
    qed
  qed (use sub in auto)
qed

lemma Admit_healthy: "controller_inv c \<Longrightarrow> controller_inv (fst (Admit c now d))"
  using perform_inv [of c "OpAdmit now d"] by simp

lemma Terminate_healthy: "controller_inv c \<Longrightarrow> controller_inv (fst (Terminate c h cause clk))"
  using perform_inv [of c "OpTerminate h cause clk"] by simp

lemma runtimeDecide_fields:
  "ru_controller (fst (runtimeDecide r ctx now elapsed d)) = fst (Admit (ru_controller r) now (if ctx then zeroDemand else d))"
  "snd (runtimeDecide r ctx now elapsed d) = Some (snd (runtime_Decide r ctx now elapsed d))"
  using runtime_Decide_controller [of r ctx now elapsed d]
  by (cases "runtime_Decide r ctx now elapsed d"; simp add: runtimeDecide_def)+

lemma reservation_Terminate_fields:
  "ru_controller (fst (reservation_Terminate r h cause clk)) = fst (Terminate (ru_controller r) h cause clk)"
  "snd (reservation_Terminate r h cause clk) = snd (Terminate (ru_controller r) h cause clk)"
  by (simp_all add: reservation_Terminate_def split: prod.split)

interpretation runtime_service: admission_service runtimeDecide reservation_Terminate RecordExternalDecision runtimeOpen runtimeHealthy
proof
  fix s ctx now elapsed d
  show "runtimeHealthy s \<Longrightarrow> runtimeHealthy (fst (runtimeDecide s ctx now elapsed d))"
    by (simp add: runtimeHealthy_def runtimeDecide_fields Admit_healthy)
next
  fix s h cause clk
  show "runtimeHealthy s \<Longrightarrow> runtimeHealthy (fst (reservation_Terminate s h cause clk))"
    by (simp add: runtimeHealthy_def reservation_Terminate_fields Terminate_healthy)
  show "runtimeHealthy s \<Longrightarrow> TerminalCause_valid cause \<Longrightarrow>
      runtimeOpen (fst (reservation_Terminate s h cause clk)) \<subseteq> runtimeOpen s - {h}"
    unfolding runtimeHealthy_def runtimeOpen_def reservation_Terminate_fields by (rule Terminate_closes)
next
  fix s now rec
  show "runtimeHealthy s \<Longrightarrow> runtimeHealthy (RecordExternalDecision s now rec)"
    by (simp add: runtimeHealthy_def RecordExternalDecision_def)
  show "runtimeOpen (RecordExternalDecision s now rec) = runtimeOpen s"
    by (simp add: runtimeOpen_def RecordExternalDecision_def)
next
  fix s ctx now elapsed d s'
  show "runtimeDecide s ctx now elapsed d = (s', None) \<Longrightarrow> runtimeOpen s' \<subseteq> runtimeOpen s"
    using runtimeDecide_fields(2) [of s ctx now elapsed d] by simp
  fix dec
  assume a: "runtimeHealthy s" "runtimeDecide s ctx now elapsed d = (s', Some dec)"
  let ?d = "if ctx then zeroDemand else d"
  have "ru_controller s' = fst (Admit (ru_controller s) now ?d)"
    using runtimeDecide_fields(1) [of s ctx now elapsed d] unfolding a(2) by simp
  moreover have "dec = snd (runtime_Decide s ctx now elapsed d)"
    using runtimeDecide_fields(2) [of s ctx now elapsed d] unfolding a(2) by simp
  ultimately show "runtimeOpen s' \<subseteq> runtimeOpen s \<union> set_option (ad_Reservation dec)"
    using Admit_opens [of "ru_controller s" now ?d] a(1)
    by (simp add: runtimeHealthy_def runtimeOpen_def runtime_Decide_decision Let_def split: if_splits)
qed

end
