(* ===== verification/PriorityQueue.thy ===== *)
theory PriorityQueue
  imports Service
begin

text \<open>
  \<open>internal/app/server/priority_admission.go\<close>: the short queue that orders requests in front of the
  admission service. Callers put requests into the queue, one worker takes them out and asks the
  delegate.

  The delegate is any state \<open>'s\<close> with its operations as arguments; a delegate that does not record
  decisions records with the identity. The channel a request waits on is a number that is never
  used twice; the results sent are collected in \<open>pq_results\<close> and the request the worker has taken is
  \<open>pq_inflight\<close>. Each critical section of the code is one operation; the readings of clocks and
  contexts are arguments.
\<close>

subsection \<open>Data\<close>

abbreviation priorityQueueMaximumEntries :: int where "priorityQueueMaximumEntries \<equiv> 64"
abbreviation priorityQueueCoalesceDelay :: duration where "priorityQueueCoalesceDelay \<equiv> 2 * Millisecond"
abbreviation priorityQueueMaximumWait :: duration where "priorityQueueMaximumWait \<equiv> 50 * Millisecond"

record priorityAdmissionRequest =
  qi_demand :: TPSRequestDemand
  qi_id :: nat
  qi_enqueuedAt :: gotime
  qi_channel :: nat

record 's priorityAdmissionService =
  pq_delegate :: 's
  pq_maxEntries :: int
  pq_coalesce :: duration
  pq_maxWait :: duration
  pq_queue :: "priorityAdmissionRequest list"
  pq_nextID :: nat
  pq_closed :: bool
  pq_full :: nat
  pq_enqueued :: nat
  pq_timedOut :: nat
  pq_canceled :: nat
  pq_channels :: nat
  pq_inflight :: "priorityAdmissionRequest option"
  pq_results :: "(nat \<times> admissionDecision) list"
  pq_done :: bool

definition newPriorityAdmissionServiceWithConfig ::
  "'s \<Rightarrow> int \<Rightarrow> duration \<Rightarrow> duration \<Rightarrow> 's priorityAdmissionService" where
  "newPriorityAdmissionServiceWithConfig delegate maxEntries0 coalesce0 maxWait0 =
     (let maxEntries = (if maxEntries0 \<le> 0 then priorityQueueMaximumEntries else maxEntries0);
          coalesce = (if coalesce0 < 0 then priorityQueueCoalesceDelay else coalesce0);
          maxWait1 = (if maxWait0 \<le> 0 then priorityQueueMaximumWait else maxWait0);
          maxWait = (if maxWait1 < coalesce then coalesce else maxWait1)
      in \<lparr>pq_delegate = delegate, pq_maxEntries = maxEntries, pq_coalesce = coalesce, pq_maxWait = maxWait,
          pq_queue = [], pq_nextID = 0, pq_closed = False, pq_full = 0, pq_enqueued = 0, pq_timedOut = 0,
          pq_canceled = 0, pq_channels = 0, pq_inflight = None, pq_results = [], pq_done = False\<rparr>)"

definition newPriorityAdmissionService :: "'s \<Rightarrow> 's priorityAdmissionService" where
  "newPriorityAdmissionService delegate =
     newPriorityAdmissionServiceWithConfig delegate priorityQueueMaximumEntries
       priorityQueueCoalesceDelay priorityQueueMaximumWait"

record priorityQueueSnapshot =
  qs_Depth :: nat
  qs_Enqueued :: nat
  qs_Full :: nat
  qs_TimedOut :: nat
  qs_Canceled :: nat

definition QueueSnapshot :: "'s priorityAdmissionService \<Rightarrow> priorityQueueSnapshot" where
  "QueueSnapshot s = \<lparr>qs_Depth = length (pq_queue s), qs_Enqueued = pq_enqueued s, qs_Full = pq_full s,
     qs_TimedOut = pq_timedOut s, qs_Canceled = pq_canceled s\<rparr>"

text \<open>The snapshot of the service is the delegate's, and policy updates go to it.\<close>

definition queue_Snapshot ::
  "('s \<Rightarrow> gotime \<Rightarrow> admissionTelemetrySnapshot) \<Rightarrow> 's priorityAdmissionService \<Rightarrow> gotime \<Rightarrow> admissionTelemetrySnapshot" where
  "queue_Snapshot snapshot s now = snapshot (pq_delegate s) now"

text \<open>\<open>update\<close> is \<open>None\<close> for a delegate without policy updates; \<open>unavailable\<close> is what the caller reads then.\<close>

definition queue_UpdatePolicy ::
  "('s \<Rightarrow> PolicyUpdate \<Rightarrow> 's \<times> 'r) option \<Rightarrow> 'r \<Rightarrow> 's priorityAdmissionService \<Rightarrow> PolicyUpdate \<Rightarrow>
   's priorityAdmissionService \<times> 'r" where
  "queue_UpdatePolicy update unavailable s u =
     (case update of
        None \<Rightarrow> (s, unavailable)
      | Some f \<Rightarrow> (case f (pq_delegate s) u of (d, result) \<Rightarrow> (s\<lparr>pq_delegate := d\<rparr>, result)))"

text \<open>\<open>Close\<close>: first the flag, which the worker answers by draining; when it is done, the delegate.\<close>

definition queue_closeFlag :: "'s priorityAdmissionService \<Rightarrow> 's priorityAdmissionService" where
  "queue_closeFlag s = s\<lparr>pq_closed := True\<rparr>"

definition queue_closeDelegate :: "('s \<Rightarrow> 's) \<Rightarrow> 's priorityAdmissionService \<Rightarrow> 's priorityAdmissionService" where
  "queue_closeDelegate closeDelegate s = s\<lparr>pq_delegate := closeDelegate (pq_delegate s)\<rparr>"

declare queue_closeFlag_def [simp] queue_closeDelegate_def [simp]

subsection \<open>Decisions of the queue itself\<close>

definition priorityQueueDecision :: "TPSRequestDemand \<Rightarrow> Reason \<Rightarrow> admissionDecision" where
  "priorityQueueDecision demand reason =
     (let scope = (if reason = ReasonPriorityQueueCanceled \<or> reason = ReasonClosed
                   then ProtectionAvailability else ProtectionLoad)
      in \<lparr>ad_Record = zeroDecisionRecord\<lparr>dr_Action := ActionProtect, dr_Reason := reason, dr_Scope := scope,
            dr_Demand := demand\<rparr>,
          ad_Reservation = None\<rparr>)"

definition queueDecision ::
  "('s \<Rightarrow> gotime \<Rightarrow> DecisionRecord \<Rightarrow> 's) \<Rightarrow> 's priorityAdmissionService \<Rightarrow> gotime \<Rightarrow> TPSRequestDemand \<Rightarrow> Reason \<Rightarrow>
   's priorityAdmissionService \<times> admissionDecision" where
  "queueDecision recordDecision s clk demand reason =
     (let decision = priorityQueueDecision demand reason
      in (s\<lparr>pq_delegate := recordDecision (pq_delegate s) clk (ad_Record decision)\<rparr>, decision))"

definition send :: "priorityAdmissionRequest \<Rightarrow> 's priorityAdmissionService \<times> admissionDecision \<Rightarrow> 's priorityAdmissionService" where
  "send item = (\<lambda>(s, decision). s\<lparr>pq_results := pq_results s @ [(qi_channel item, decision)]\<rparr>)"

subsection \<open>Callers\<close>

text \<open>
  \<open>Decide\<close> up to the point where it waits: either a decision at once or the channel it waits on.
  \<open>ctxErr\<close> is the first reading of the context, \<open>enqueuedAt\<close> the clock before the lock is taken and
  \<open>clk\<close> the clock when a decision is recorded.
\<close>

definition queue_Decide ::
  "('s \<Rightarrow> gotime \<Rightarrow> DecisionRecord \<Rightarrow> 's) \<Rightarrow> 's priorityAdmissionService \<Rightarrow> bool \<Rightarrow> gotime \<Rightarrow> gotime \<Rightarrow> TPSRequestDemand \<Rightarrow>
   's priorityAdmissionService \<times> (admissionDecision + nat)" where
  "queue_Decide recordDecision s ctxErr enqueuedAt clk demand =
     (if ctxErr then
        (case queueDecision recordDecision (s\<lparr>pq_canceled := wrapu64 (pq_canceled s + 1)\<rparr>) clk demand
                ReasonPriorityQueueCanceled of (s', d) \<Rightarrow> (s', Inl d))
      else if pq_closed s then
        (case queueDecision recordDecision s clk demand ReasonClosed of (s', d) \<Rightarrow> (s', Inl d))
      else if int (length (pq_queue s)) \<ge> pq_maxEntries s then
        (case queueDecision recordDecision (s\<lparr>pq_full := wrapu64 (pq_full s + 1)\<rparr>) clk demand
                ReasonPriorityQueueFull of (s', d) \<Rightarrow> (s', Inl d))
      else
        let nextID = wrapu64 (pq_nextID s + 1);
            item = \<lparr>qi_demand = demand, qi_id = nextID, qi_enqueuedAt = enqueuedAt, qi_channel = pq_channels s\<rparr>
        in (s\<lparr>pq_nextID := nextID, pq_queue := pq_queue s @ [item], pq_enqueued := wrapu64 (pq_enqueued s + 1),
              pq_channels := pq_channels s + 1\<rparr>, Inr (pq_channels s)))"

text \<open>A nil service or delegate.\<close>

definition queue_Decide_nil :: "TPSRequestDemand \<Rightarrow> admissionDecision" where
  "queue_Decide_nil demand = unavailableAdmissionDecision demand"

subsection \<open>Choosing a request\<close>

text \<open>
  A loop that keeps the index of the best request seen so far: it moves to a request that qualifies
  when there is none yet or the request is better than the one kept.
\<close>

definition selectIndex ::
  "(priorityAdmissionRequest \<Rightarrow> bool) \<Rightarrow> (priorityAdmissionRequest \<Rightarrow> priorityAdmissionRequest \<Rightarrow> bool) \<Rightarrow>
   priorityAdmissionRequest list \<Rightarrow> nat option" where
  "selectIndex qualifies better queue =
     foldl (\<lambda>selected index.
         if qualifies (queue ! index) \<and>
            (case selected of None \<Rightarrow> True | Some best \<Rightarrow> better (queue ! index) (queue ! best))
         then Some index else selected)
       None [0..<length queue]"

definition enqueuedBefore :: "priorityAdmissionRequest \<Rightarrow> priorityAdmissionRequest \<Rightarrow> bool" where
  "enqueuedBefore a b \<longleftrightarrow> qi_enqueuedAt a < qi_enqueuedAt b"

definition expired :: "duration \<Rightarrow> gotime \<Rightarrow> priorityAdmissionRequest \<Rightarrow> bool" where
  "expired maxWait now item \<longleftrightarrow> Sub now (qi_enqueuedAt item) \<ge> maxWait"

definition aged :: "duration \<Rightarrow> gotime \<Rightarrow> priorityAdmissionRequest \<Rightarrow> bool" where
  "aged maxWait now item \<longleftrightarrow>
     Sheddable (dm_Tier (qi_demand item)) \<and> Sub now (qi_enqueuedAt item) \<ge> go_div maxWait 2"

definition outranks :: "priorityAdmissionRequest \<Rightarrow> priorityAdmissionRequest \<Rightarrow> bool" where
  "outranks a b \<longleftrightarrow>
     Rank (dm_Tier (qi_demand a)) > Rank (dm_Tier (qi_demand b)) \<or>
     (Rank (dm_Tier (qi_demand a)) = Rank (dm_Tier (qi_demand b)) \<and> enqueuedBefore a b)"

definition chooseIndex :: "duration \<Rightarrow> priorityAdmissionRequest list \<Rightarrow> gotime \<Rightarrow> nat option" where
  "chooseIndex maxWait queue now =
     (case selectIndex (expired maxWait now) enqueuedBefore queue of
        Some selected \<Rightarrow> Some selected
      | None \<Rightarrow> (case selectIndex (aged maxWait now) enqueuedBefore queue of
          Some selected \<Rightarrow> Some selected
        | None \<Rightarrow> selectIndex (\<lambda>_. True) outranks queue))"

text \<open>The loop for the oldest request of a queue that is not empty.\<close>

definition oldestAt :: "priorityAdmissionRequest list \<Rightarrow> gotime" where
  "oldestAt queue =
     foldl (\<lambda>oldest item. if qi_enqueuedAt item < oldest then qi_enqueuedAt item else oldest)
       (qi_enqueuedAt (hd queue)) (tl queue)"

text \<open>\<open>next\<close>: the request taken, the time to wait, whether the service is closed.\<close>

definition queue_next ::
  "'s priorityAdmissionService \<Rightarrow> gotime \<Rightarrow>
   's priorityAdmissionService \<times> priorityAdmissionRequest option \<times> duration \<times> bool" where
  "queue_next s now =
     (if pq_closed s then (s, None, 0, True)
      else if pq_queue s = [] then (s, None, 0, False)
      else
        let readyAt = oldestAt (pq_queue s) + pq_coalesce s
        in if now < readyAt then (s, None, Sub readyAt now, False)
           else case chooseIndex (pq_maxWait s) (pq_queue s) now of
                  None \<Rightarrow> (s, None, 0, False)
                | Some index \<Rightarrow>
                    (s\<lparr>pq_queue := take index (pq_queue s) @ drop (index + 1) (pq_queue s)\<rparr>,
                     Some (pq_queue s ! index), 0, False))"

subsection \<open>The worker\<close>

text \<open>What \<open>dispatch\<close> reads from contexts and clocks while it runs.\<close>

record dispatchInputs =
  di_canceledBefore :: bool
  di_now :: gotime
  di_ctxDone :: bool
  di_decideAt :: gotime
  di_elapsed :: duration
  di_canceledAfter :: bool
  di_terminateAt :: gotime
  di_recordAt :: gotime

definition dispatch ::
  "('s \<Rightarrow> bool \<Rightarrow> gotime \<Rightarrow> duration \<Rightarrow> TPSRequestDemand \<Rightarrow> 's \<times> admissionDecision option) \<Rightarrow>
   ('s \<Rightarrow> ReservationHandle \<Rightarrow> TerminalCause \<Rightarrow> gotime \<Rightarrow> 's \<times> bool) \<Rightarrow>
   ('s \<Rightarrow> gotime \<Rightarrow> DecisionRecord \<Rightarrow> 's) \<Rightarrow>
   's priorityAdmissionService \<Rightarrow> priorityAdmissionRequest \<Rightarrow> dispatchInputs \<Rightarrow> 's priorityAdmissionService" where
  "dispatch decide terminateWith recordDecision s item inp =
     (if di_canceledBefore inp then
        send item (queueDecision recordDecision (s\<lparr>pq_canceled := wrapu64 (pq_canceled s + 1)\<rparr>)
          (di_recordAt inp) (qi_demand item) ReasonPriorityQueueCanceled)
      else if Sub (di_now inp) (qi_enqueuedAt item) \<ge> pq_maxWait s then
        send item (queueDecision recordDecision (s\<lparr>pq_timedOut := wrapu64 (pq_timedOut s + 1)\<rparr>)
          (di_recordAt inp) (qi_demand item) ReasonPriorityQueueTimeout)
      else
        case checkedDecide (\<lambda>d h c. terminateWith d h c (di_terminateAt inp))
               (decide (pq_delegate s) (di_ctxDone inp) (di_decideAt inp) (di_elapsed inp) (qi_demand item))
               (qi_demand item) of
          (delegate, decision, _) \<Rightarrow>
            if di_canceledAfter inp then
              let delegate1 = (case ad_Reservation decision of
                    None \<Rightarrow> delegate
                  | Some h \<Rightarrow> fst (terminateWith delegate h TerminalCancel (di_terminateAt inp)))
              in send item (queueDecision recordDecision
                   (s\<lparr>pq_delegate := delegate1, pq_canceled := wrapu64 (pq_canceled s + 1)\<rparr>)
                   (di_recordAt inp) (qi_demand item) ReasonPriorityQueueCanceled)
            else send item (s\<lparr>pq_delegate := delegate\<rparr>, decision))"

definition drain ::
  "('s \<Rightarrow> gotime \<Rightarrow> DecisionRecord \<Rightarrow> 's) \<Rightarrow> 's priorityAdmissionService \<Rightarrow> gotime \<Rightarrow> Reason \<Rightarrow> 's priorityAdmissionService" where
  "drain recordDecision s clk reason =
     foldl (\<lambda>s item. send item (queueDecision recordDecision s clk (qi_demand item) reason))
       (s\<lparr>pq_queue := []\<rparr>) (pq_queue s)"

end
