(* ===== verification/Queue_Steps.thy ===== *)
theory Queue_Steps
  imports PriorityQueue
begin

text \<open>
  The queue as a transition system: callers submit, the worker takes a request, dispatches it, and
  drains the queue when it sees the service closed; in between the other clients of the delegate
  act. \<open>other\<close> is what they can do. The invariants hold for any delegate that keeps the contract of
  \<open>Service\<close>.
\<close>

subsection \<open>Choosing is picking a best element\<close>

lemma selectIndex_snoc:
  "selectIndex P B (xs @ [x]) =
     (case selectIndex P B xs of
        None \<Rightarrow> if P x then Some (length xs) else None
      | Some best \<Rightarrow> if P x \<and> B x (xs ! best) then Some (length xs) else Some best)"
proof -
  have lt: "foldl (\<lambda>sel i. if P (ys ! i) \<and> (case sel of None \<Rightarrow> True | Some b \<Rightarrow> B (ys ! i) (ys ! b)) then Some i else sel) None [0..<n] = Some b
      \<Longrightarrow> b < n" for ys n b
    by (induction n arbitrary: b) (auto split: if_splits option.splits)
  have eq: "foldl (\<lambda>sel i. if P ((xs @ [x]) ! i) \<and> (case sel of None \<Rightarrow> True | Some b \<Rightarrow> B ((xs @ [x]) ! i) ((xs @ [x]) ! b)) then Some i else sel) None [0..<n] =
      foldl (\<lambda>sel i. if P (xs ! i) \<and> (case sel of None \<Rightarrow> True | Some b \<Rightarrow> B (xs ! i) (xs ! b)) then Some i else sel) None [0..<n]"
    if "n \<le> length xs" for n
    using that
  proof (induction n)
    case (Suc n)
    then show ?case using lt [of xs n] by (auto simp: nth_append split: option.split)
  qed simp
  show ?thesis
    using eq [of "length xs"] lt [of xs "length xs"]
    by (auto simp: selectIndex_def nth_append split: option.split)
qed

text \<open>The result qualifies, nothing that qualifies is better, and the earliest of equals wins.\<close>

definition best_at :: "(priorityAdmissionRequest \<Rightarrow> bool) \<Rightarrow> (priorityAdmissionRequest \<Rightarrow> priorityAdmissionRequest \<Rightarrow> bool) \<Rightarrow>
   priorityAdmissionRequest list \<Rightarrow> nat \<Rightarrow> bool" where
  "best_at P B xs i \<longleftrightarrow> i < length xs \<and> P (xs ! i) \<and>
     (\<forall>j<length xs. P (xs ! j) \<longrightarrow> \<not> B (xs ! j) (xs ! i)) \<and>
     (\<forall>j<i. P (xs ! j) \<longrightarrow> B (xs ! i) (xs ! j))"

definition weak_order :: "('a \<Rightarrow> 'a \<Rightarrow> bool) \<Rightarrow> bool" where
  "weak_order B \<longleftrightarrow> (\<forall>x. \<not> B x x) \<and> (\<forall>x y z. B x y \<longrightarrow> B y z \<longrightarrow> B x z) \<and>
     (\<forall>x y z. B x z \<longrightarrow> B x y \<or> B y z)"

lemma selectIndex_best:
  assumes "weak_order B"
  shows "case selectIndex P B xs of None \<Rightarrow> list_all (\<lambda>x. \<not> P x) xs | Some i \<Rightarrow> best_at P B xs i"
proof (induction xs rule: rev_induct)
  case Nil
  then show ?case by (simp add: selectIndex_def)
next
  case (snoc x xs)
  note B = assms [unfolded weak_order_def]
  show ?case
  proof (cases "selectIndex P B xs")
    case None
    with snoc show ?thesis using B
      by (auto simp: selectIndex_snoc best_at_def nth_append list_all_length less_Suc_eq)
  next
    case (Some b)
    then have b: "best_at P B xs b" using snoc by simp
    show ?thesis
    proof (cases "P x \<and> B x (xs ! b)")
      case True
      have "B x (xs ! j)" if "j < length xs" "P (xs ! j)" for j
        using b True that B unfolding best_at_def by meson
      moreover have "\<not> B (xs ! j) x" if "j < length xs" "P (xs ! j)" for j
        using calculation [OF that] B by blast
      ultimately show ?thesis using True Some B
        by (auto simp: selectIndex_snoc best_at_def nth_append less_Suc_eq)
    next
      case False
      with b Some show ?thesis
        by (auto simp: selectIndex_snoc best_at_def nth_append less_Suc_eq)
    qed
  qed
qed

lemma weak_orders: "weak_order enqueuedBefore" "weak_order outranks"
  by (auto simp: weak_order_def enqueuedBefore_def outranks_def)

lemma chooseIndex_best:
  "case chooseIndex maxWait queue now of
     None \<Rightarrow> queue = []
   | Some i \<Rightarrow>
       if list_ex (expired maxWait now) queue then best_at (expired maxWait now) enqueuedBefore queue i
       else if list_ex (aged maxWait now) queue then best_at (aged maxWait now) enqueuedBefore queue i
       else best_at (\<lambda>_. True) outranks queue i"
proof -
  note e = selectIndex_best [OF weak_orders(1), of "expired maxWait now" queue]
  note a = selectIndex_best [OF weak_orders(1), of "aged maxWait now" queue]
  note r = selectIndex_best [OF weak_orders(2), of "\<lambda>_. True" queue]
  have ex: "best_at P B queue i \<Longrightarrow> list_ex P queue" for P B i
    by (auto simp: best_at_def list_ex_length)
  have no: "list_all (\<lambda>x. \<not> P x) queue \<Longrightarrow> \<not> list_ex P queue" for P
    by (auto simp: list_all_iff list_ex_iff)
  show ?thesis
    using e a r ex no unfolding chooseIndex_def
    by (auto split: option.splits simp: list_all_iff)
qed

lemma chooseIndex_lt: "chooseIndex w q now = Some i \<Longrightarrow> i < length q"
  using chooseIndex_best [where maxWait = w and queue = q and now = now] by (auto simp: best_at_def split: if_splits)

lemma chooseIndex_None: "chooseIndex w q now = None \<longleftrightarrow> q = []"
  using chooseIndex_best [where maxWait = w and queue = q and now = now]
  by (cases "chooseIndex w q now") (auto simp: chooseIndex_def selectIndex_def dest: chooseIndex_lt)

subsection \<open>Steps\<close>

inductive queue_step ::
  "('s \<Rightarrow> bool \<Rightarrow> gotime \<Rightarrow> duration \<Rightarrow> TPSRequestDemand \<Rightarrow> 's \<times> admissionDecision option) \<Rightarrow>
   ('s \<Rightarrow> ReservationHandle \<Rightarrow> TerminalCause \<Rightarrow> gotime \<Rightarrow> 's \<times> bool) \<Rightarrow>
   ('s \<Rightarrow> gotime \<Rightarrow> DecisionRecord \<Rightarrow> 's) \<Rightarrow> ('s \<Rightarrow> 's) \<Rightarrow> ('s \<Rightarrow> 's \<Rightarrow> bool) \<Rightarrow>
   's priorityAdmissionService \<Rightarrow> 's priorityAdmissionService \<Rightarrow> bool"
  for decide terminateWith recordDecision closeDelegate other where
  submit: "queue_Decide recordDecision s ctxErr enqueuedAt clk demand = (s', result) \<Longrightarrow>
     queue_step decide terminateWith recordDecision closeDelegate other s s'"
| taking: "pq_inflight s = None \<Longrightarrow> \<not> pq_done s \<Longrightarrow> queue_next s now = (s', Some item, wait, False) \<Longrightarrow>
     queue_step decide terminateWith recordDecision closeDelegate other s (s'\<lparr>pq_inflight := Some item\<rparr>)"
| dispatching: "pq_inflight s = Some item \<Longrightarrow>
     s' = dispatch decide terminateWith recordDecision (s\<lparr>pq_inflight := None\<rparr>) item inp \<Longrightarrow>
     queue_step decide terminateWith recordDecision closeDelegate other s s'"
| draining: "pq_inflight s = None \<Longrightarrow> \<not> pq_done s \<Longrightarrow> pq_closed s \<Longrightarrow>
     s' = (drain recordDecision s clk ReasonClosed)\<lparr>pq_done := True\<rparr> \<Longrightarrow>
     queue_step decide terminateWith recordDecision closeDelegate other s s'"
| closing: "queue_step decide terminateWith recordDecision closeDelegate other s (queue_closeFlag s)"
| closingDelegate: "pq_done s \<Longrightarrow>
     queue_step decide terminateWith recordDecision closeDelegate other s
       (queue_closeDelegate closeDelegate s)"
| others: "other (pq_delegate s) d \<Longrightarrow>
     queue_step decide terminateWith recordDecision closeDelegate other s (s\<lparr>pq_delegate := d\<rparr>)"

inductive_cases queue_stepE: "queue_step decide terminateWith recordDecision closeDelegate other s s'"

subsection \<open>Every request is answered once\<close>

text \<open>The channels of the requests that wait: in the hands of the worker, or in the queue.\<close>

definition waitingChannels :: "'s priorityAdmissionService \<Rightarrow> nat list" where
  "waitingChannels s = (case pq_inflight s of None \<Rightarrow> [] | Some item \<Rightarrow> [qi_channel item]) @ map qi_channel (pq_queue s)"

definition channels_ok :: "'s priorityAdmissionService \<Rightarrow> bool" where
  "channels_ok s \<longleftrightarrow> distinct (map fst (pq_results s) @ waitingChannels s) \<and>
     set (map fst (pq_results s) @ waitingChannels s) = {..<pq_channels s} \<and>
     (pq_done s \<longrightarrow> pq_closed s \<and> waitingChannels s = []) \<and>
     int (length (pq_queue s)) \<le> pq_maxEntries s \<and> 0 < pq_maxEntries s"

lemma new_channels: "channels_ok (newPriorityAdmissionServiceWithConfig d n c w)"
  by (simp add: channels_ok_def newPriorityAdmissionServiceWithConfig_def waitingChannels_def Let_def)

lemma queueDecision_fields [simp]:
  "pq_results (fst (queueDecision r s clk d reason)) = pq_results s"
  "pq_queue (fst (queueDecision r s clk d reason)) = pq_queue s"
  "pq_inflight (fst (queueDecision r s clk d reason)) = pq_inflight s"
  "pq_channels (fst (queueDecision r s clk d reason)) = pq_channels s"
  "pq_closed (fst (queueDecision r s clk d reason)) = pq_closed s"
  "pq_done (fst (queueDecision r s clk d reason)) = pq_done s"
  "pq_maxEntries (fst (queueDecision r s clk d reason)) = pq_maxEntries s"
  "pq_delegate (fst (queueDecision r s clk d reason)) = r (pq_delegate s) clk (ad_Record (priorityQueueDecision d reason))"
  "snd (queueDecision r s clk d reason) = priorityQueueDecision d reason"
  by (simp_all add: queueDecision_def Let_def)

lemma send_fields [simp]:
  "pq_results (send item x) = pq_results (fst x) @ [(qi_channel item, snd x)]"
  "pq_queue (send item x) = pq_queue (fst x)" "pq_inflight (send item x) = pq_inflight (fst x)"
  "pq_channels (send item x) = pq_channels (fst x)" "pq_closed (send item x) = pq_closed (fst x)"
  "pq_done (send item x) = pq_done (fst x)" "pq_maxEntries (send item x) = pq_maxEntries (fst x)"
  "pq_delegate (send item x) = pq_delegate (fst x)"
  by (simp_all add: send_def split: prod.split)

lemma channels_ok_cong:
  "channels_ok s \<Longrightarrow> pq_results s' = pq_results s \<Longrightarrow> pq_queue s' = pq_queue s \<Longrightarrow> pq_inflight s' = pq_inflight s \<Longrightarrow>
   pq_channels s' = pq_channels s \<Longrightarrow> pq_done s' = pq_done s \<Longrightarrow> (pq_closed s \<longrightarrow> pq_closed s') \<Longrightarrow>
   pq_maxEntries s' = pq_maxEntries s \<Longrightarrow> channels_ok s'"
  by (simp add: channels_ok_def waitingChannels_def)

lemma queue_Decide_now [simp]:
  "fst (case x of (s, d) \<Rightarrow> (s, Inl d)) = fst x" "snd (case x of (s, d) \<Rightarrow> (s, Inl d)) = Inl (snd x)"
  by (simp_all split: prod.split)

text \<open>\<open>Decide\<close> either answers at once, touching only the counters and the delegate, or appends one request.\<close>

lemma queue_Decide_result:
  obtains (now) x reason where "queue_Decide r s ctxErr t0 clk d = (fst (queueDecision r x clk d reason), Inl (priorityQueueDecision d reason))"
      "x = s \<or> x = s\<lparr>pq_canceled := wrapu64 (pq_canceled s + 1)\<rparr> \<or> x = s\<lparr>pq_full := wrapu64 (pq_full s + 1)\<rparr>"
      "reason = ReasonPriorityQueueCanceled \<or> reason = ReasonClosed \<or> reason = ReasonPriorityQueueFull"
  | (later) "\<not> ctxErr" "\<not> pq_closed s" "int (length (pq_queue s)) < pq_maxEntries s"
      "queue_Decide r s ctxErr t0 clk d = (s\<lparr>pq_nextID := wrapu64 (pq_nextID s + 1),
         pq_queue := pq_queue s @ [\<lparr>qi_demand = d, qi_id = wrapu64 (pq_nextID s + 1), qi_enqueuedAt = t0, qi_channel = pq_channels s\<rparr>],
         pq_enqueued := wrapu64 (pq_enqueued s + 1), pq_channels := pq_channels s + 1\<rparr>, Inr (pq_channels s))"
proof (cases "\<not> ctxErr \<and> \<not> pq_closed s \<and> int (length (pq_queue s)) < pq_maxEntries s")
  case True
  then show ?thesis by (intro later) (simp_all add: queue_Decide_def Let_def)
next
  case False
  then consider "ctxErr" | "\<not> ctxErr" "pq_closed s" | "\<not> ctxErr" "\<not> pq_closed s" "int (length (pq_queue s)) \<ge> pq_maxEntries s"
    by linarith
  then show ?thesis
  proof cases
    case 1
    then show ?thesis by (intro now [of "s\<lparr>pq_canceled := wrapu64 (pq_canceled s + 1)\<rparr>" ReasonPriorityQueueCanceled]) (simp_all add: queue_Decide_def prod_eq_iff)
  next
    case 2
    then show ?thesis by (intro now [of s ReasonClosed]) (simp_all add: queue_Decide_def prod_eq_iff)
  next
    case 3
    then show ?thesis by (intro now [of "s\<lparr>pq_full := wrapu64 (pq_full s + 1)\<rparr>" ReasonPriorityQueueFull]) (simp_all add: queue_Decide_def prod_eq_iff)
  qed
qed

lemma queue_Decide_channels:
  assumes "channels_ok s" "queue_Decide r s ctxErr t0 clk d = (s', res)"
  shows "channels_ok s'"
proof (cases rule: queue_Decide_result [of r s ctxErr t0 clk d])
  case (now x reason)
  have "s' = fst (queueDecision r x clk d reason)" using now(1) assms(2) by simp
  then show ?thesis using now(2) by (auto intro!: channels_ok_cong [OF assms(1)])
next
  case later
  have s': "s' = fst (queue_Decide r s ctxErr t0 clk d)" using assms(2) by simp
  show ?thesis unfolding s' later(4)
    using assms(1) later(2,3) by (auto simp: channels_ok_def waitingChannels_def split: option.splits)
qed

end
