(* ===== verification/Queue_Safety.thy ===== *)
theory Queue_Safety
  imports Queue_Steps
begin

text \<open>
  Invariants of the queue's transition system: every request is answered exactly once, and no
  reservation is open that has not been handed to a caller. The second is proved in a locale for
  any delegate that keeps the contract of \<open>Service\<close> while other clients act on it; the runtime of
  the program is an instance.
\<close>

subsection \<open>What the operations change\<close>

lemma checkedDecide_split:
  obtains delegate decision ok where "checkedDecide t result d = (delegate, decision, ok)"
  by (metis prod.exhaust)

lemma dispatch_fields:
  "\<exists>decision. pq_results (dispatch dc tm rc s item inp) = pq_results s @ [(qi_channel item, decision)]"
  "pq_queue (dispatch dc tm rc s item inp) = pq_queue s" "pq_inflight (dispatch dc tm rc s item inp) = pq_inflight s"
  "pq_channels (dispatch dc tm rc s item inp) = pq_channels s" "pq_closed (dispatch dc tm rc s item inp) = pq_closed s"
  "pq_done (dispatch dc tm rc s item inp) = pq_done s" "pq_maxEntries (dispatch dc tm rc s item inp) = pq_maxEntries s"
  by (simp_all add: dispatch_def Let_def split: prod.split)

text \<open>What remains of the queue when the element at an index is taken out.\<close>

lemma taken_out:
  assumes "i < length q"
  shows "mset q = add_mset (q ! i) (mset (take i q @ drop (i + 1) q))"
  by (subst id_take_nth_drop [OF assms]) simp

lemma queue_next_taken:
  assumes "queue_next s now = (s', Some item, wait, cl)"
  obtains i where "chooseIndex (pq_maxWait s) (pq_queue s) now = Some i" "i < length (pq_queue s)"
    "item = pq_queue s ! i" "s' = s\<lparr>pq_queue := take i (pq_queue s) @ drop (i + 1) (pq_queue s)\<rparr>"
    "\<not> pq_closed s" "oldestAt (pq_queue s) + pq_coalesce s \<le> now"
proof -
  obtain i where i: "chooseIndex (pq_maxWait s) (pq_queue s) now = Some i"
      "item = pq_queue s ! i" "s' = s\<lparr>pq_queue := take i (pq_queue s) @ drop (i + 1) (pq_queue s)\<rparr>"
      "\<not> pq_closed s" "oldestAt (pq_queue s) + pq_coalesce s \<le> now"
    using assms by (auto simp: queue_next_def Let_def split: if_splits option.splits)
  with chooseIndex_lt [OF i(1)] that show ?thesis by blast
qed

lemma drain_loop:
  "pq_results (foldl (\<lambda>s item. send item (queueDecision r s clk (qi_demand item) reason)) s items) =
     pq_results s @ map (\<lambda>item. (qi_channel item, priorityQueueDecision (qi_demand item) reason)) items"
  "pq_queue (foldl (\<lambda>s item. send item (queueDecision r s clk (qi_demand item) reason)) s items) = pq_queue s"
  "pq_inflight (foldl (\<lambda>s item. send item (queueDecision r s clk (qi_demand item) reason)) s items) = pq_inflight s"
  "pq_channels (foldl (\<lambda>s item. send item (queueDecision r s clk (qi_demand item) reason)) s items) = pq_channels s"
  "pq_closed (foldl (\<lambda>s item. send item (queueDecision r s clk (qi_demand item) reason)) s items) = pq_closed s"
  "pq_maxEntries (foldl (\<lambda>s item. send item (queueDecision r s clk (qi_demand item) reason)) s items) = pq_maxEntries s"
  by (induction items arbitrary: s) simp_all

lemma drain_fields [simp]:
  "pq_results (drain r s clk reason) =
     pq_results s @ map (\<lambda>item. (qi_channel item, priorityQueueDecision (qi_demand item) reason)) (pq_queue s)"
  "pq_queue (drain r s clk reason) = []" "pq_inflight (drain r s clk reason) = pq_inflight s"
  "pq_channels (drain r s clk reason) = pq_channels s" "pq_closed (drain r s clk reason) = pq_closed s"
  "pq_maxEntries (drain r s clk reason) = pq_maxEntries s"
  by (simp_all add: drain_def drain_loop)

subsection \<open>Every request is answered once\<close>

text \<open>All channels, answered and waiting, as one bag: each operation moves channels inside it.\<close>

definition allChannels :: "'s priorityAdmissionService \<Rightarrow> nat multiset" where
  "allChannels s = mset (map fst (pq_results s)) + mset (waitingChannels s)"

lemma distinct_mset_upt: "distinct xs \<and> set xs = {..<n} \<longleftrightarrow> mset xs = mset [0..<n]"
  by (metis atLeast_upt distinct_upt mset_eq_setD set_eq_iff_mset_eq_distinct mset_eq_imp_distinct_iff lessThan_atLeast0 set_upt)

lemma channels_ok_iff:
  "channels_ok s \<longleftrightarrow> allChannels s = mset [0..<pq_channels s] \<and>
     (pq_done s \<longrightarrow> pq_closed s \<and> waitingChannels s = []) \<and>
     int (length (pq_queue s)) \<le> pq_maxEntries s \<and> 0 < pq_maxEntries s"
  unfolding channels_ok_def conj_assoc [symmetric] distinct_mset_upt
  by (simp add: allChannels_def)

lemma queue_step_channels:
  assumes "queue_step dc tm rc cd other s s'" "channels_ok s"
  shows "channels_ok s'"
  using assms(1)
proof (cases rule: queue_step.cases)
  case (submit ctxErr enqueuedAt clk demand result)
  then show ?thesis using queue_Decide_channels [OF assms(2)] by blast
next
  case (taking now s1 item wait)
  obtain i where i: "i < length (pq_queue s)" "item = pq_queue s ! i"
      "s1 = s\<lparr>pq_queue := take i (pq_queue s) @ drop (i + 1) (pq_queue s)\<rparr>"
    using queue_next_taken [OF taking(4)] by metis
  have "image_mset qi_channel (mset (pq_queue s)) = add_mset (qi_channel item)
      (image_mset qi_channel (mset (take i (pq_queue s) @ drop (i + 1) (pq_queue s))))"
    unfolding taken_out [OF i(1)] i(2) by simp
  then have "allChannels s' = allChannels s"
    using i(3) taking(1,2) by (simp add: allChannels_def waitingChannels_def)
  moreover have "int (length (pq_queue s')) \<le> int (length (pq_queue s))" using i taking(1) by simp
  ultimately show ?thesis
    using assms(2) taking(1,3) i(3) by (simp add: channels_ok_iff)
next
  case (dispatching item inp)
  note f = dispatch_fields [of dc tm rc "s\<lparr>pq_inflight := None\<rparr>" item inp]
  obtain d where d: "pq_results s' = pq_results s @ [(qi_channel item, d)]"
    using f(1) dispatching(2) by auto
  have "allChannels s' = allChannels s"
    using d f(2-) dispatching by (simp add: allChannels_def waitingChannels_def)
  moreover have "\<not> pq_done s" using assms(2) dispatching(1) by (auto simp: channels_ok_def waitingChannels_def)
  ultimately show ?thesis
    using assms(2) f(2-) dispatching by (simp add: channels_ok_iff)
next
  case (draining clk)
  then have "allChannels s' = allChannels s"
    by (simp add: allChannels_def waitingChannels_def comp_def)
  then show ?thesis
    using assms(2) draining by (simp add: channels_ok_iff waitingChannels_def)
next
  case closing
  show ?thesis using closing channels_ok_cong [OF assms(2), of s'] by simp
next
  case closingDelegate
  show ?thesis using closingDelegate channels_ok_cong [OF assms(2), of s'] by simp
next
  case (others d)
  show ?thesis using others channels_ok_cong [OF assms(2), of s'] by simp
qed

inductive queue_run ::
  "('s \<Rightarrow> bool \<Rightarrow> gotime \<Rightarrow> duration \<Rightarrow> TPSRequestDemand \<Rightarrow> 's \<times> admissionDecision option) \<Rightarrow>
   ('s \<Rightarrow> ReservationHandle \<Rightarrow> TerminalCause \<Rightarrow> gotime \<Rightarrow> 's \<times> bool) \<Rightarrow>
   ('s \<Rightarrow> gotime \<Rightarrow> DecisionRecord \<Rightarrow> 's) \<Rightarrow> ('s \<Rightarrow> 's) \<Rightarrow> ('s \<Rightarrow> 's \<Rightarrow> bool) \<Rightarrow>
   's priorityAdmissionService \<Rightarrow> 's priorityAdmissionService \<Rightarrow> bool"
  for dc tm rc cd other where
  start: "queue_run dc tm rc cd other (newPriorityAdmissionServiceWithConfig d n c w)
    (newPriorityAdmissionServiceWithConfig d n c w)"
| step: "queue_run dc tm rc cd other s0 s \<Longrightarrow> queue_step dc tm rc cd other s s' \<Longrightarrow> queue_run dc tm rc cd other s0 s'"

inductive_cases queue_runE: "queue_run dc tm rc cd other s0 s"

lemma queue_run_channels: "queue_run dc tm rc cd other s0 s \<Longrightarrow> channels_ok s"
  by (induction rule: queue_run.induct) (simp_all add: new_channels queue_step_channels)

subsection \<open>No reservation is open that nobody owns\<close>

lemma queueDecision_refuses: "ad_Reservation (priorityQueueDecision d reason) = None"
  by (simp add: priorityQueueDecision_def Let_def)

text \<open>The reservations handed to callers.\<close>

definition handed :: "'s priorityAdmissionService \<Rightarrow> ReservationHandle set" where
  "handed s = (\<Union>(ch, d)\<in>set (pq_results s). set_option (ad_Reservation d))"

lemma handed_append:
  "pq_results s' = pq_results s @ [(ch, d)] \<Longrightarrow> handed s' = handed s \<union> set_option (ad_Reservation d)"
  by (auto simp: handed_def)

definition ownership ::
  "('s \<Rightarrow> bool) \<Rightarrow> ('s \<Rightarrow> ReservationHandle set) \<Rightarrow> ReservationHandle set \<Rightarrow> 's priorityAdmissionService \<Rightarrow> bool" where
  "ownership healthy openHandles H s \<longleftrightarrow>
     healthy (pq_delegate s) \<and> openHandles (pq_delegate s) \<subseteq> H \<union> handed s"

lemma ownership_cong:
  "ownership healthy openHandles H s \<Longrightarrow> pq_delegate s' = pq_delegate s \<Longrightarrow> pq_results s' = pq_results s \<Longrightarrow>
     ownership healthy openHandles H s'"
  by (simp add: ownership_def handed_def)

locale queue_delegate = admission_service decide terminateWith recordDecision openHandles healthy
  for decide :: "'s \<Rightarrow> bool \<Rightarrow> gotime \<Rightarrow> duration \<Rightarrow> TPSRequestDemand \<Rightarrow> 's \<times> admissionDecision option"
    and terminateWith recordDecision openHandles healthy +
  fixes closeDelegate :: "'s \<Rightarrow> 's" and other :: "'s \<Rightarrow> 's \<Rightarrow> bool"
  assumes close_healthy: "healthy d \<Longrightarrow> healthy (closeDelegate d)"
    and close_keeps: "openHandles (closeDelegate d) \<subseteq> openHandles d"
    and other_healthy: "healthy d \<Longrightarrow> other d d' \<Longrightarrow> healthy d'"
    and other_keeps: "healthy d \<Longrightarrow> other d d' \<Longrightarrow> openHandles d' \<subseteq> openHandles d"
begin

lemma owned_queueDecision:
  assumes "ownership healthy openHandles H s"
  shows "ownership healthy openHandles H (fst (queueDecision recordDecision s clk d reason))"
    "ownership healthy openHandles H (send item (queueDecision recordDecision s clk d reason))"
  using assms
  by (simp_all add: ownership_def record_healthy record_keeps handed_def queueDecision_refuses)

lemma owned_delegate:
  assumes "ownership healthy openHandles H s" "healthy d" "openHandles d \<subseteq> openHandles (pq_delegate s)"
  shows "ownership healthy openHandles H (s\<lparr>pq_delegate := d, pq_canceled := n\<rparr>)"
    "ownership healthy openHandles H (s\<lparr>pq_delegate := d\<rparr>)"
  using assms by (auto simp: ownership_def handed_def)

lemma owned_dispatch:
  assumes "ownership healthy openHandles H s"
  shows "ownership healthy openHandles H (dispatch decide terminateWith recordDecision s item inp)"
proof -
  have base: "healthy (pq_delegate s)" using assms by (simp add: ownership_def)
  have early: "ownership healthy openHandles H (s\<lparr>pq_canceled := n\<rparr>)" "ownership healthy openHandles H (s\<lparr>pq_timedOut := n\<rparr>)" for n
    using assms by (simp_all add: ownership_cong)
  obtain del dec ok where chk: "checkedDecide (\<lambda>d h c. terminateWith d h c (di_terminateAt inp))
      (decide (pq_delegate s) (di_ctxDone inp) (di_decideAt inp) (di_elapsed inp) (qi_demand item)) (qi_demand item) = (del, dec, ok)"
    by (rule checkedDecide_split)
  have h: "healthy del" using checked_healthy [OF base] chk by (metis fst_conv)
  have o: "openHandles del \<subseteq> openHandles (pq_delegate s) \<union> set_option (ad_Reservation dec)"
    by (rule checked_opens [OF base chk])
  let ?d1 = "case ad_Reservation dec of None \<Rightarrow> del | Some h \<Rightarrow> fst (terminateWith del h TerminalCancel (di_terminateAt inp))"
  have closed: "openHandles (fst (terminateWith del x TerminalCancel (di_terminateAt inp))) \<subseteq> openHandles del - {x}" for x
    by (rule terminate_closes [OF h]) simp
  have late: "healthy ?d1" "openHandles ?d1 \<subseteq> openHandles (pq_delegate s)"
    using h o terminate_healthy [OF h] closed by (cases "ad_Reservation dec"; simp; blast)+
  have "ownership healthy openHandles H (send item (s\<lparr>pq_delegate := del\<rparr>, dec))"
    using h o assms handed_append [of "send item (s\<lparr>pq_delegate := del\<rparr>, dec)" s "qi_channel item" dec]
    by (auto simp: ownership_def)
  with early owned_delegate(1) [OF assms late] show ?thesis
    unfolding dispatch_def chk Let_def by (simp add: owned_queueDecision)
qed

lemma owned_drain:
  assumes "ownership healthy openHandles H s"
  shows "ownership healthy openHandles H (drain recordDecision s clk reason)"
proof -
  have "ownership healthy openHandles H (foldl (\<lambda>s item. send item (queueDecision recordDecision s clk (qi_demand item) reason)) x items)"
    if "ownership healthy openHandles H x" for items x
    using that by (induction items arbitrary: x) (simp_all add: owned_queueDecision)
  moreover have "ownership healthy openHandles H (s\<lparr>pq_queue := []\<rparr>)" using assms by (simp add: ownership_cong)
  ultimately show ?thesis by (simp add: drain_def)
qed

lemma owned_Decide:
  assumes "ownership healthy openHandles H s"
  shows "ownership healthy openHandles H (fst (queue_Decide recordDecision s ctxErr t0 clk d))"
proof (cases rule: queue_Decide_result [of recordDecision s ctxErr t0 clk d])
  case (now x reason)
  have "ownership healthy openHandles H x" using now(2) assms by (elim disjE) (simp_all add: ownership_cong)
  with now(1) show ?thesis by (simp add: owned_queueDecision)
next
  case later
  show ?thesis unfolding later(4) using assms by (simp add: ownership_cong)
qed

lemma owned_step:
  assumes "queue_step decide terminateWith recordDecision closeDelegate other s s'" "ownership healthy openHandles H s"
  shows "ownership healthy openHandles H s'"
  using assms(1)
proof (cases rule: queue_step.cases)
  case (submit ctxErr enqueuedAt clk demand result)
  have "s' = fst (queue_Decide recordDecision s ctxErr enqueuedAt clk demand)" by (simp add: submit)
  then show ?thesis using owned_Decide [OF assms(2)] by simp
next
  case (taking now s1 item wait)
  have "pq_results s1 = pq_results s" "pq_delegate s1 = pq_delegate s"
    by (rule queue_next_taken [OF taking(4)]; simp)+
  then show ?thesis unfolding taking(1) by (intro ownership_cong [OF assms(2)]) simp_all
next
  case (dispatching item inp)
  have "ownership healthy openHandles H (s\<lparr>pq_inflight := None\<rparr>)" using assms(2) by (simp add: ownership_cong)
  then show ?thesis unfolding dispatching(2) by (rule owned_dispatch)
next
  case (draining clk)
  have "ownership healthy openHandles H (drain recordDecision s clk ReasonClosed)" by (rule owned_drain [OF assms(2)])
  then show ?thesis unfolding draining(4) by (simp add: ownership_cong)
next
  case closing
  then show ?thesis using assms(2) by (simp add: ownership_cong)
next
  case closingDelegate
  have "healthy (pq_delegate s)" using assms(2) by (simp add: ownership_def)
  from owned_delegate(2) [OF assms(2) close_healthy [OF this] close_keeps]
  show ?thesis using closingDelegate(1) by simp
next
  case (others d)
  have "healthy (pq_delegate s)" using assms(2) by (simp add: ownership_def)
  from owned_delegate(2) [OF assms(2) other_healthy [OF this others(2)] other_keeps [OF this others(2)]]
  show ?thesis using others(1) by simp
qed

lemma owned_run:
  assumes "queue_run decide terminateWith recordDecision closeDelegate other s0 s" "healthy (pq_delegate s0)"
  shows "openHandles (pq_delegate s) \<subseteq> openHandles (pq_delegate s0) \<union> handed s"
proof -
  have "ownership healthy openHandles (openHandles (pq_delegate s0)) s"
    using assms
  proof (induction rule: queue_run.induct)
    case (start d n c w)
    then show ?case by (simp add: ownership_def)
  next
    case (step s0 s s')
    then show ?case by (blast intro: owned_step)
  qed
  then show ?thesis by (simp add: ownership_def)
qed

end

end
