(* ===== verification/Queue_Runtime.thy ===== *)
theory Queue_Runtime
  imports Queue_Safety
begin

text \<open>
  The runtime as the delegate of the queue. While the queue works, samples are published, policies
  updated and reservations moved through their life cycle; none of this opens a reservation.
\<close>

subsection \<open>Only admission opens reservations\<close>

definition openKeys :: "(nat \<times> reservation) list \<Rightarrow> (nat \<times> nat) set" where
  "openKeys rs = {(i, rv_runtimeEpoch r) | i r. (i, r) \<in> set rs \<and> rv_phase r \<noteq> reservationResidualDebt}"

lemma openKeys_iff:
  "(i, e) \<in> openKeys rs \<longleftrightarrow> (\<exists>r. (i, r) \<in> set rs \<and> rv_runtimeEpoch r = e \<and> rv_phase r \<noteq> reservationResidualDebt)"
  by (auto simp: openKeys_def)

definition shrinks :: "AdmissionController \<Rightarrow> AdmissionController \<Rightarrow> bool" where
  "shrinks c c' \<longleftrightarrow> ac_self c' = ac_self c \<and> openKeys (ac_reservations c') \<subseteq> openKeys (ac_reservations c)"

lemma shrinks_open:
  assumes s: "shrinks c c'"
  shows "openOf c' \<subseteq> openOf c"
proof
  fix h assume "h \<in> openOf c'"
  then have h: "rh_controller h = Some (ac_self c)" "(rh_id h, rh_runtimeEpoch h) \<in> openKeys (ac_reservations c')"
    using s unfolding openOf_iff openKeys_iff shrinks_def by simp_all
  from h(2) s have "(rh_id h, rh_runtimeEpoch h) \<in> openKeys (ac_reservations c)" by (auto simp: shrinks_def)
  with h(1) show "h \<in> openOf c" unfolding openOf_iff openKeys_iff by simp
qed

lemma shrinks_refl [simp]: "shrinks c c"
  by (simp add: shrinks_def)

lemma shrinks_trans: "shrinks a b \<Longrightarrow> shrinks b c \<Longrightarrow> shrinks a c"
  by (auto simp: shrinks_def)

lemma shrinks_same:
  "ac_self c' = ac_self c \<Longrightarrow> ac_reservations c' = ac_reservations c \<or> ac_reservations c' = [] \<Longrightarrow> shrinks c c'"
  by (auto simp: shrinks_def openKeys_def)

lemma shrinks_failClosed: "shrinks c c' \<Longrightarrow> shrinks c (failClosed c' r)"
  by (auto simp: shrinks_def failClosed_def openKeys_def)

lemma shrinks_life_failed: "life_failed c res \<Longrightarrow> shrinks c (fst res)"
  by (auto simp: life_failed_def shrinks_def failClosed_def openKeys_def)

lemma set_update_subset: "set (AList.update k v al) \<subseteq> insert (k, v) (set al)"
  by (induction al) auto

lemma shrinks_update:
  assumes "map_of (ac_reservations c) j = Some r" "rv_phase r \<noteq> reservationResidualDebt"
    and "rv_runtimeEpoch r' = rv_runtimeEpoch r" "ac_self c' = ac_self c"
    and "ac_reservations c' = AList.update j r' (ac_reservations c)"
  shows "shrinks c c'"
  using assms set_update_subset [of j r' "ac_reservations c"]
  by (fastforce simp: shrinks_def openKeys_def dest: map_of_SomeD)

lemma shrinks_handles:
  "shrinks c (fst (markForwarded c e j clk))" "shrinks c (fst (markFirstByte c e j clk))"
proof -
  show "shrinks c (fst (markForwarded c e j clk))"
  proof (cases rule: markForwarded_result [of c e j clk])
    case failed
    then show ?thesis by (rule shrinks_life_failed)
  next
    case (success item l)
    then show ?thesis
      by (intro shrinks_update [of c j item "forwarded_item item clk (ac_eventSequence c + 1)"])
         (simp_all add: forwards_def forwarded_state_def forwarded_item_def)
  qed
  show "shrinks c (fst (markFirstByte c e j clk))"
  proof (cases rule: markFirstByte_result [of c e j clk])
    case failed
    then show ?thesis by (rule shrinks_life_failed)
  next
    case (success item ov l)
    then show ?thesis
      by (intro shrinks_update [of c j item "decoding_item item"])
         (simp_all add: responds_def responded_state_def decoding_item_def)
  qed
qed

lemma reconcile_keeps:
  "reconcileReservation r w ob t d = (r', False, ch) \<Longrightarrow> rv_phase r' = rv_phase r \<and> rv_runtimeEpoch r' = rv_runtimeEpoch r"
  by (auto simp: reconcileReservation_def Let_def split: if_splits)

lemma openKeys_reconciled: "openKeys (reconciled w ob t d rs) \<subseteq> openKeys rs"
proof
  fix x assume "x \<in> openKeys (reconciled w ob t d rs)"
  then obtain i r' where x: "x = (i, rv_runtimeEpoch r')" "rv_phase r' \<noteq> reservationResidualDebt"
      "(i, r') \<in> set (reconciled w ob t d rs)"
    by (auto simp: openKeys_def)
  then obtain r ch where "(i, r) \<in> set rs" "reconcileReservation r w ob t d = (r', False, ch)"
    unfolding reconciled_def survivor_def
    by (auto split: prod.splits if_splits) metis
  with reconcile_keeps [OF this(2)] x show "x \<in> openKeys rs" by (auto simp: openKeys_def)
qed

lemma shrinks_publishTPS: "shrinks c c' \<Longrightarrow> shrinks c (fst (publishTPS c' w s))"
  by (auto simp: publishTPS_def Let_def shrinks_def failClosed_def openKeys_def split: prod.split)

lemma shrinks_publishSample:
  assumes "controller_inv c"
  shows "shrinks c (fst (publishSample c window ob g clk))"
  using publishSample_outcome [OF assms, of window ob g clk]
proof (elim disjE exE conjE)
  assume "publishSample c window ob g clk = (failClosed c ReasonControllerUnavailable, Some ReasonControllerUnavailable)"
  then show ?thesis by (simp add: shrinks_failClosed)
next
  fix ov n d fwd rsp
  assume "publishSample c window ob g clk =
     publishTPS (reconciled_state c window ob clk ov) window (sampleOf c ob g n fwd rsp)"
  moreover have "shrinks c (reconciled_state c window ob clk ov)"
    by (simp add: shrinks_def reconciled_state_def openKeys_reconciled)
  ultimately show ?thesis by (simp add: shrinks_publishTPS)
qed

lemma shrinks_Publish:
  assumes "controller_inv c"
  shows "shrinks c (fst (PublishObservation c window ob clk))"
proof (cases "publishable c window ob \<and> ac_observationSequence c \<noteq> MaxUint64")
  case False
  from PublishObservation_refused(1) [OF this, of clk] show ?thesis
    by (elim disjE exE conjE) (simp_all add: shrinks_failClosed)
next
  case True
  obtain g p interval running waiting where
    eq: "PublishObservation c window ob clk =
       (case (if runtimeReset c ob then publishReset (publish_base c ob)
              else publishSample (publish_base c ob) window ob g clk) of
          (c1, Some reason) \<Rightarrow> (c1, rejectedPublication reason (ac_runtimeEpoch c1))
        | (c1, None) \<Rightarrow> publishCommit c1 ob (runtimeReset c ob) g p interval running waiting)"
    using PublishObservation_accepted [OF conjunct1 [OF True] conjunct2 [OF True], of clk]
    by (elim exE conjE) (rule that)
  obtain c1 res where step: "(if runtimeReset c ob then publishReset (publish_base c ob)
      else publishSample (publish_base c ob) window ob g clk) = (c1, res)" by fastforce
  have b: "controller_inv (publish_base c ob)" "shrinks c (publish_base c ob)"
    using assms histogram_inv by (simp_all add: publish_base_def shrinks_same)
  have "shrinks (publish_base c ob) (fst (publishReset (publish_base c ob)))"
    by (simp add: publishReset_def shrinks_failClosed shrinks_same)
  with shrinks_publishSample [OF b(1), of window ob g clk] step have "shrinks (publish_base c ob) c1"
    by (cases "runtimeReset c ob") (metis fst_conv)+
  with b(2) have c1: "shrinks c c1" by (rule shrinks_trans)
  have "shrinks c1 (fst (publishCommit c1 ob r g p interval running waiting))" for r
    by (intro shrinks_same) (simp_all add: publishCommit_def Let_def)
  with c1 show ?thesis
    unfolding eq step by (cases res) (auto intro: shrinks_trans)
qed

lemma perform_shrinks:
  assumes "controller_inv c" "\<forall>now d. op \<noteq> OpAdmit now d"
  shows "openOf (perform c op) \<subseteq> openOf c"
proof (cases op)
  case (OpStartSampleWindow clk)
  have "shrinks c (perform c op)"
    unfolding OpStartSampleWindow
    by (auto simp: StartSampleWindow_def Let_def split: prod.split option.split
        intro!: shrinks_failClosed shrinks_same)
  then show ?thesis by (rule shrinks_open)
next
  case (OpUpdatePolicy u)
  have "shrinks c (perform c op)"
    unfolding OpUpdatePolicy by (intro shrinks_same) (auto simp: UpdatePolicy_def Let_def)
  then show ?thesis by (rule shrinks_open)
next
  case (OpTerminate h cause clk)
  have "distinct (keys (ac_reservations c))"
    using assms(1) inv_resD(1) by (simp add: controller_inv_def)
  then show ?thesis using OpTerminate terminate_opens by (simp add: Terminate_def)
next
  case (OpAdmit now d)
  then show ?thesis using assms(2) by blast
qed (use assms shrinks_Publish shrinks_handles in
    \<open>simp_all add: shrinks_open MarkForwarded_def MarkFirstByte_def Close_def shrinks_failClosed\<close>)

subsection \<open>The instance\<close>

text \<open>What happens to the runtime beside the queue: any operation of its controller but admission, and records.\<close>

inductive runtimeOther :: "admissionRuntime \<Rightarrow> admissionRuntime \<Rightarrow> bool" where
  controller: "(\<forall>now d. op \<noteq> OpAdmit now d) \<Longrightarrow>
     runtimeOther r (r\<lparr>ru_controller := perform (ru_controller r) op\<rparr>)"
| recorded: "runtimeOther r (RecordExternalDecision r now d)"

definition runtimeShutdown :: "admissionRuntime \<Rightarrow> admissionRuntime" where
  "runtimeShutdown r = fst (runtime_Close r)"

lemma runtimeShutdown_controller:
  "ru_controller (runtimeShutdown r) = ru_controller r \<or> ru_controller (runtimeShutdown r) = Close (ru_controller r)"
  by (simp add: runtimeShutdown_def runtime_Close_def Let_def)

interpretation runtime_queue: queue_delegate runtimeDecide reservation_Terminate RecordExternalDecision runtimeOpen
  runtimeHealthy runtimeShutdown runtimeOther
proof
  fix r :: admissionRuntime
  assume h: "runtimeHealthy r"
  show "runtimeHealthy (runtimeShutdown r)"
    using runtimeShutdown_controller [of r] h Close_inv by (auto simp: runtimeHealthy_def)
next
  fix r
  show "runtimeOpen (runtimeShutdown r) \<subseteq> runtimeOpen r"
    using runtimeShutdown_controller [of r] failClosed_open [of "ru_controller r" ReasonClosed]
    by (elim disjE) (simp_all add: runtimeOpen_def Close_def)
next
  fix r r' assume h: "runtimeHealthy r" and other: "runtimeOther r r'"
  show "runtimeHealthy r'"
    using other h by (cases rule: runtimeOther.cases) (auto simp: runtimeHealthy_def perform_inv RecordExternalDecision_def)
  show "runtimeOpen r' \<subseteq> runtimeOpen r"
    using other
  proof (cases rule: runtimeOther.cases)
    case (controller op)
    then show ?thesis using perform_shrinks [OF _ controller(2)] h by (simp add: runtimeHealthy_def runtimeOpen_def)
  next
    case (recorded now d)
    then show ?thesis by (simp add: runtimeOpen_def RecordExternalDecision_def)
  qed
qed

end
