(* ===== verification/Queue_Live.thy ===== *)
theory Queue_Live
  imports Queue_Runtime
begin

text \<open>
  The worker's loop: rounds that take and dispatch a request, and the last one, which drains the
  queue of a closed service. A queue whose requests are past the coalescing delay is emptied by as
  many rounds as it has requests, whatever the clocks and contexts say.
\<close>

text \<open>One turn of the loop of \<open>run\<close>, without the wait: the worker reads the clock in \<open>next\<close>.\<close>

definition worker_round ::
  "('s \<Rightarrow> bool \<Rightarrow> gotime \<Rightarrow> duration \<Rightarrow> TPSRequestDemand \<Rightarrow> 's \<times> admissionDecision option) \<Rightarrow>
   ('s \<Rightarrow> ReservationHandle \<Rightarrow> TerminalCause \<Rightarrow> gotime \<Rightarrow> 's \<times> bool) \<Rightarrow>
   ('s \<Rightarrow> gotime \<Rightarrow> DecisionRecord \<Rightarrow> 's) \<Rightarrow>
   's priorityAdmissionService \<Rightarrow> gotime \<times> dispatchInputs \<Rightarrow> 's priorityAdmissionService" where
  "worker_round decide terminateWith recordDecision s = (\<lambda>(now, inp).
     (if pq_done s then s
      else case queue_next s now of
        (s1, item, wait, shut) \<Rightarrow>
          if shut then (drain recordDecision s1 now ReasonClosed)\<lparr>pq_done := True\<rparr>
          else (case item of
                  Some it \<Rightarrow> dispatch decide terminateWith recordDecision s1 it inp
                | None \<Rightarrow> s1)))"

lemma oldestAt_le:
  assumes "queue \<noteq> []" "\<forall>item\<in>set queue. qi_enqueuedAt item \<le> t"
  shows "oldestAt queue \<le> t"
proof -
  have "foldl (\<lambda>oldest item. if qi_enqueuedAt item < oldest then qi_enqueuedAt item else oldest) a items \<le> a" for a items
    by (induction items arbitrary: a) (auto intro: order_trans less_imp_le)
  from this [of "qi_enqueuedAt (hd queue)" "tl queue"] show ?thesis
    using assms by (cases queue) (auto simp: oldestAt_def)
qed

lemma worker_round_serves:
  assumes "\<not> pq_closed s" "\<not> pq_done s" "pq_queue s \<noteq> []" "\<forall>item\<in>set (pq_queue s). qi_enqueuedAt item + pq_coalesce s \<le> now"
  shows "\<exists>item decision. mset (pq_queue s) = add_mset item (mset (pq_queue (worker_round dc tm rc s (now, inp)))) \<and>
     pq_results (worker_round dc tm rc s (now, inp)) = pq_results s @ [(qi_channel item, decision)]"
    (is "\<exists>item decision. ?P item decision")
proof -
  have ready: "\<not> now < oldestAt (pq_queue s) + pq_coalesce s"
    using oldestAt_le [of "pq_queue s" "now - pq_coalesce s"] assms(3,4) by fastforce
  obtain i where i: "chooseIndex (pq_maxWait s) (pq_queue s) now = Some i"
    using chooseIndex_None [of "pq_maxWait s" "pq_queue s" now] assms(3) by (meson not_Some_eq)
  let ?s1 = "s\<lparr>pq_queue := take i (pq_queue s) @ drop (i + 1) (pq_queue s)\<rparr>"
  have step: "worker_round dc tm rc s (now, inp) = dispatch dc tm rc ?s1 (pq_queue s ! i) inp"
    using assms(1-3) ready i by (simp add: worker_round_def queue_next_def Let_def)
  obtain d where "pq_results (worker_round dc tm rc s (now, inp)) = pq_results s @ [(qi_channel (pq_queue s ! i), d)]"
    using dispatch_fields(1) [of dc tm rc ?s1 "pq_queue s ! i" inp] step by auto
  then have "?P (pq_queue s ! i) d"
    using taken_out [OF chooseIndex_lt [OF i]] unfolding step by (simp add: dispatch_fields)
  then show ?thesis by blast
qed

lemma worker_round_keeps:
  "\<not> pq_closed s \<Longrightarrow> pq_closed (worker_round dc tm rc s x) = pq_closed s"
  "\<not> pq_closed s \<Longrightarrow> pq_done (worker_round dc tm rc s x) = pq_done s"
  "\<not> pq_closed s \<Longrightarrow> pq_coalesce (worker_round dc tm rc s x) = pq_coalesce s"
  by (auto simp: worker_round_def queue_next_def Let_def dispatch_fields dispatch_def send_def queueDecision_def
      split: prod.splits option.splits)

lemma worker_rounds_serve:
  assumes "\<not> pq_closed s" "\<not> pq_done s" "length rounds = length (pq_queue s)"
    "\<forall>item\<in>set (pq_queue s). \<forall>(now, inp)\<in>set rounds. qi_enqueuedAt item + pq_coalesce s \<le> now"
  shows "pq_queue (foldl (worker_round dc tm rc) s rounds) = [] \<and>
     mset (map fst (pq_results (foldl (worker_round dc tm rc) s rounds))) =
       mset (map fst (pq_results s)) + mset (map qi_channel (pq_queue s))"
  using assms
proof (induction rounds arbitrary: s)
  case (Cons x rounds)
  obtain now inp where x: "x = (now, inp)" by fastforce
  let ?s = "worker_round dc tm rc s x"
  have ne: "pq_queue s \<noteq> []" using Cons.prems(3) by auto
  have now: "\<forall>item\<in>set (pq_queue s). qi_enqueuedAt item + pq_coalesce s \<le> now" using Cons.prems(4) x by auto
  from worker_round_serves [OF Cons.prems(1,2) ne now, of dc tm rc inp]
  obtain item d where s: "mset (pq_queue s) = add_mset item (mset (pq_queue ?s))"
      "pq_results ?s = pq_results s @ [(qi_channel item, d)]"
    unfolding x by blast
  note k = worker_round_keeps [OF Cons.prems(1), of dc tm rc x]
  have "length (pq_queue s) = Suc (length (pq_queue ?s))" using arg_cong [OF s(1), of size] by simp
  moreover have "set (pq_queue ?s) \<subseteq> set (pq_queue s)" using arg_cong [OF s(1), of set_mset] by auto
  ultimately have "pq_queue (foldl (worker_round dc tm rc) ?s rounds) = [] \<and>
     mset (map fst (pq_results (foldl (worker_round dc tm rc) ?s rounds))) =
       mset (map fst (pq_results ?s)) + mset (map qi_channel (pq_queue ?s))"
    using Cons.prems k by (intro Cons.IH) auto
  moreover have "mset (map qi_channel (pq_queue s)) = add_mset (qi_channel item) (mset (map qi_channel (pq_queue ?s)))"
    using s(1) by simp
  ultimately show ?case using s(2) by simp
qed simp

lemma worker_round_drains:
  assumes "pq_closed s" "\<not> pq_done s"
  shows "pq_queue (worker_round dc tm rc s x) = []" "pq_done (worker_round dc tm rc s x)"
    "pq_results (worker_round dc tm rc s x) =
       pq_results s @ map (\<lambda>item. (qi_channel item, priorityQueueDecision (qi_demand item) ReasonClosed)) (pq_queue s)"
  using assms by (auto simp: worker_round_def queue_next_def split: prod.split)

text \<open>The turn of the loop is a turn of the transition system.\<close>

lemma worker_round_steps:
  assumes "pq_inflight s = None"
  shows "(queue_step dc tm rc cd other)\<^sup>*\<^sup>* s (worker_round dc tm rc s (now, inp))"
proof -
  consider (finished) "pq_done s" | (closed) "\<not> pq_done s" "pq_closed s"
    | (idle) "\<not> pq_done s" "\<not> pq_closed s" "fst (snd (queue_next s now)) = None"
    | (busy) item where "\<not> pq_done s" "\<not> pq_closed s" "fst (snd (queue_next s now)) = Some item"
    by (meson not_Some_eq)
  then show ?thesis
  proof cases
    case finished
    then show ?thesis by (simp add: worker_round_def)
  next
    case closed
    have "queue_step dc tm rc cd other s ((drain rc s now ReasonClosed)\<lparr>pq_done := True\<rparr>)"
      by (rule queue_step.draining [OF assms closed refl])
    then show ?thesis using closed by (simp add: worker_round_def queue_next_def r_into_rtranclp)
  next
    case idle
    then have "worker_round dc tm rc s (now, inp) = s"
      by (auto simp: worker_round_def queue_next_def Let_def split: prod.splits option.splits if_splits)
    then show ?thesis by simp
  next
    case (busy item)
    obtain s1 w where n: "queue_next s now = (s1, Some item, w, False)"
      using busy by (auto simp: queue_next_def Let_def split: if_splits option.splits)
    have i: "pq_inflight s1 = None"
      by (rule queue_next_taken [OF n]) (simp add: assms)
    have "queue_step dc tm rc cd other s (s1\<lparr>pq_inflight := Some item\<rparr>)"
      by (rule queue_step.taking [OF assms busy(1) n])
    moreover have "queue_step dc tm rc cd other (s1\<lparr>pq_inflight := Some item\<rparr>)
        (dispatch dc tm rc (s1\<lparr>pq_inflight := None\<rparr>) item inp)"
      by (rule queue_step.dispatching [where item = item and inp = inp]) simp_all
    moreover have "s1\<lparr>pq_inflight := None\<rparr> = s1" using i by simp
    moreover have "worker_round dc tm rc s (now, inp) = dispatch dc tm rc s1 item inp"
      using busy(1) n by (simp add: worker_round_def)
    ultimately show ?thesis by (metis converse_rtranclp_into_rtranclp r_into_rtranclp)
  qed
qed

subsection \<open>Who gets a reservation\<close>

lemma dispatch_in_time:
  assumes "pq_results (dispatch dc tm rc s item inp) = pq_results s @ [(ch, decision)]"
    "ad_Reservation decision \<noteq> None"
  shows "\<not> di_canceledBefore inp \<and> \<not> di_canceledAfter inp \<and> Sub (di_now inp) (qi_enqueuedAt item) < pq_maxWait s"
  using assms by (auto simp: dispatch_def Let_def queueDecision_refuses split: if_splits prod.splits)

lemma dispatch_valid:
  "decision_valid (snd (last (pq_results (dispatch dc tm rc s item inp))))"
proof -
  have q: "decision_valid (priorityQueueDecision d r)" for d r
    by (simp add: decision_valid_def priorityQueueDecision_def Let_def Admitted_def)
  have c: "checkedDecide (\<lambda>d h c. tm d h c clk) result d = (del, dec, ok) \<Longrightarrow> decision_valid dec" for clk result d del dec ok
    by (auto simp: checkedDecide_def decision_valid_def unavailableAdmissionDecision_def Admitted_def
        split: prod.splits option.splits if_splits)
  obtain del dec ok where chk: "checkedDecide (\<lambda>d h c. tm d h c (di_terminateAt inp))
      (dc (pq_delegate s) (di_ctxDone inp) (di_decideAt inp) (di_elapsed inp) (qi_demand item)) (qi_demand item) = (del, dec, ok)"
    by (rule checkedDecide_split)
  show ?thesis using q c [OF chk] unfolding dispatch_def chk by (simp add: Let_def)
qed

end
