(* ===== verification/Scenario.thy ===== *)
theory Scenario
  imports Controller_Total
begin

text \<open>
  A concrete run of the controller: it is created, takes two sample windows, publishes the
  first observation, admits a request and takes it through its life. The states are computed
  by the model's own operations; the lemmas evaluate what later theories use.
\<close>

definition demoConfig :: ControllerConfig where
  "demoConfig = \<lparr>cf_RuntimeIdentity = ''r'', cf_TPSReference = Fin 0, cf_WindowConcurrency = 4,
     cf_RunningLimit = 8, cf_RunningLimitSource = RunningLimitSourceEnvironment,
     cf_PendingFirstByteLeaseDuration = 0, cf_BackendTierScheduling = True,
     cf_WarmPromptTokens = 100\<rparr>"

definition demoNew :: AdmissionController where
  "demoNew = projr (NewAdmissionController 7 demoConfig)"

definition demoAt :: "int \<Rightarrow> gotime" where
  "demoAt seconds = seconds * Second"

definition demoSampled :: AdmissionController where
  "demoSampled = fst (StartSampleWindow demoNew (demoAt 1))"

definition demoWindow :: SampleWindow where
  "demoWindow = the (snd (StartSampleWindow demoNew (demoAt 1)))"

definition demoObservation :: BackendObservation where
  "demoObservation = zeroObservation\<lparr>bo_RuntimeIdentity := ''r'', bo_ObservedAt := demoAt 2,
     bo_MaximumAge := demoAt 60, bo_Running := 2, bo_Waiting := 1, bo_GenerationTokensTotal := 100,
     bo_RuntimeStartTime := Fin 5\<rparr>"

definition demoObserved :: AdmissionController where
  "demoObserved = fst (PublishObservation demoSampled demoWindow demoObservation (demoAt 2))"

definition demoDemand :: TPSRequestDemand where
  "demoDemand = zeroDemand\<lparr>dm_DecodeSequences := 2, dm_Source := TPSDemandSourceRequest,
     dm_Tier := TierDefault, dm_PrefillTokens := 500, dm_PrefillKnown := True\<rparr>"

definition demoAdmitted :: AdmissionController where
  "demoAdmitted = fst (Admit demoObserved (demoAt 3) demoDemand)"

definition demoHandle :: ReservationHandle where
  "demoHandle = ar_Handle (snd (Admit demoObserved (demoAt 3) demoDemand))"

definition demoForwarded :: AdmissionController where
  "demoForwarded = fst (MarkForwarded demoAdmitted demoHandle (demoAt 4))"

definition demoDebt :: AdmissionController where
  "demoDebt = fst (Terminate demoForwarded demoHandle TerminalTimeout (demoAt 4))"

subsection \<open>A new controller\<close>

lemma demoAt_simps [simp]: "IsZero (demoAt n) \<longleftrightarrow> False" if "0 \<le> n"
  using that by (simp add: demoAt_def IsZero_def zeroTime_def)

lemma demoNew_eq: "NewAdmissionController 7 demoConfig = Inr demoNew"
  and demoNew_fields: "ac_self demoNew = 7" "ac_runtimeIdentity demoNew = ''r''"
    "ac_policy demoNew = newAdmissionPolicy True 100" "ac_tpsWindow demoNew = newTPSWindow (Fin 0)"
    "ac_windowConcurrency demoNew = 4" "ac_runningLimit demoNew = 8" "ac_waitingAllowance demoNew = 3"
    "ac_exposure demoNew = zeroLedger" "ac_runtimeEpoch demoNew = 1" "ac_eventSequence demoNew = 0"
    "ac_sampleSequence demoNew = 0" "ac_observationSequence demoNew = 0" "ac_lastPublishedSample demoNew = 0"
    "ac_lastExposure demoNew = zeroExposure" "ac_policyRevision demoNew = 1" "ac_tpsPolicyEpoch demoNew = 1"
    "ac_hasObservation demoNew = False" "ac_closedReason demoNew = ReasonEmpty" "ac_reservations demoNew = []"
    "ac_overlay demoNew = zeroOverlay" "ac_nextReservationID demoNew = 0"
    "ac_maximumReservations demoNew = 1048576" "ac_pendingFirstByteLeaseDuration demoNew = 1500000000"
    "ac_windowHistogram demoNew = zeroHistogram"
  by (simp_all add: demoNew_def demoConfig_def NewAdmissionController_def)

lemma demoNew_reachable: "reachable demoNew"
  using demoNew_eq by (rule reachable.new)

definition demoLedger :: sequenceExposureLedger where
  "demoLedger = zeroLedger\<lparr>el_initialized := True, el_lastEventAt := demoAt 1\<rparr>"

lemma demoStart: "StartSampleWindow demoNew (demoAt 1) =
    (demoNew\<lparr>ac_sampleSequence := 1, ac_exposure := demoLedger\<rparr>,
     Some \<lparr>sw_controller = Some 7, sw_runtimeEpoch = 1, sw_tpsPolicyEpoch = 1, sw_id = 1,
           sw_eventSequence = 0, sw_exposure = zeroExposure\<rparr>)"
  by (simp add: demoNew_fields StartSampleWindow_def ledger_snapshot_def advance_def demoLedger_def
      zeroLedger_def ledger_valid_iff zeroExposure_def Let_def snapshot_valid_iff)

lemmas demoSampled_eq = demoSampled_def [unfolded demoStart fst_conv]
  and demoWindow_eq = demoWindow_def [unfolded demoStart snd_conv option.sel]

subsection \<open>The first observation\<close>

lemma ns_seconds_zero: "ns_seconds zeroNanoseconds = Fin 0"
proof -
  have "f64_of_int 1000000000 = Fin 1000000000" by code_simp
  then show ?thesis by (simp add: ns_seconds_def zeroNanoseconds_def f64_of_nat_def rnd_def [of 0])
qed

lemma zeroExposure_seconds: "snapshot_seconds zeroExposure = Some (Fin 0, Fin 0)"
  by (simp add: snapshot_seconds_def ns_seconds_zero Let_def) (simp add: zeroExposure_def ns_seconds_zero)

lemma zeroExposure_subtract: "snapshot_subtract zeroExposure zeroExposure = Some zeroExposure"
  by code_simp

lemma demoObservation_fields:
  "bo_RuntimeIdentity demoObservation = ''r''" "bo_ObservedAt demoObservation = demoAt 2"
  "bo_MaximumAge demoObservation = demoAt 60" "bo_Running demoObservation = 2" "bo_Waiting demoObservation = 1"
  "bo_GenerationTokensTotal demoObservation = 100" "bo_RuntimeStartTime demoObservation = Fin 5"
  "bo_PreemptionsTotal demoObservation = 0"
  by (simp_all add: demoObservation_def zeroObservation_def)

lemma demoObservation_valid: "validBackendObservation demoObservation"
  by (simp add: validBackendObservation_def demoObservation_fields addNonnegativeInt64_def IsNaN_def IsInf_def)
     (simp add: demoAt_def)

lemma demoSampled_fields:
  "ac_self demoSampled = 7" "ac_runtimeIdentity demoSampled = ''r''" "ac_hasObservation demoSampled = False"
  "ac_closedReason demoSampled = ReasonEmpty" "ac_reservations demoSampled = []"
  "ac_overlay demoSampled = zeroOverlay" "ac_observationSequence demoSampled = 0"
  "ac_lastExposure demoSampled = zeroExposure" "ac_runtimeEpoch demoSampled = 1"
  "ac_sampleSequence demoSampled = 1" "ac_lastPublishedSample demoSampled = 0"
  "ac_pendingFirstByteLeaseDuration demoSampled = 1500000000"
  "sw_exposure demoWindow = zeroExposure" "sw_id demoWindow = 1" "sw_controller demoWindow = Some 7"
  "sw_runtimeEpoch demoWindow = 1"
  by (simp_all add: demoSampled_eq demoWindow_eq demoNew_fields)

lemma demoPublish: "publishSample demoSampled demoWindow demoObservation 0 (demoAt 2) =
    (demoSampled\<lparr>ac_reservations := [], ac_overlay := zeroOverlay, ac_lastPublishedSample := 1,
       ac_lastExposure := zeroExposure\<rparr>, None)"
  by (simp add: publishSample_def demoSampled_fields zeroExposure_subtract
      zeroExposure_seconds reconciledOverlay_def publishTPS_def applyReconciliation_def)

lemma demoPublished: "PublishObservation demoSampled demoWindow demoObservation (demoAt 2) =
    publishCommit (demoSampled\<lparr>ac_reservations := [], ac_overlay := zeroOverlay,
       ac_lastPublishedSample := 1, ac_lastExposure := zeroExposure\<rparr>) demoObservation False 0 0 0 0 0"
proof -
  have "window_acceptable demoSampled demoWindow"
    by (simp add: window_acceptable_def demoSampled_fields)
  then show ?thesis
    by (simp add: PublishObservation_def demoObservation_valid demoObservation_fields
        runtimeReset_def demoPublish demoSampled_fields)
qed

lemmas demoObserved_eq = demoObserved_def [unfolded demoPublished publishCommit_def Let_def fst_conv]

lemma demoObserved_fields:
  "ac_self demoObserved = 7" "ac_hasObservation demoObserved" "ac_closedReason demoObserved = ReasonEmpty"
  "ac_reservations demoObserved = []" "ac_overlay demoObserved = zeroOverlay"
  "ac_policy demoObserved = newAdmissionPolicy True 100" "ac_tpsWindow demoObserved = newTPSWindow (Fin 0)"
  "ac_windowConcurrency demoObserved = 4" "ac_runningLimit demoObserved = 8" "ac_waitingAllowance demoObserved = 3"
  "ac_exposure demoObserved = demoLedger" "ac_runtimeEpoch demoObserved = 1" "ac_eventSequence demoObserved = 0"
  "ac_nextReservationID demoObserved = 0" "ac_maximumReservations demoObserved = 1048576"
  "ac_observationSequence demoObserved = 1" "ac_policyRevision demoObserved = 1"
  "ob_observation (ac_observation demoObserved) = demoObservation"
  "ob_interval (ac_observation demoObserved) = 0" "ob_previousRunning (ac_observation demoObserved) = 0"
  "ob_previousWaiting (ac_observation demoObserved) = 0"
  by (simp_all add: demoObserved_eq demoSampled_eq demoNew_fields)

lemma demoObserved_reachable: "reachable demoObserved"
proof -
  have "demoObserved = foldl perform demoNew
      [OpStartSampleWindow (demoAt 1), OpPublish demoWindow demoObservation (demoAt 2)]"
    by (simp add: demoObserved_def demoSampled_def)
  then show ?thesis using perform_run [OF demoNew_reachable] by metis
qed

subsection \<open>An admission\<close>

lemma demoState: "\<exists>state. stateLocked demoObserved (demoAt 3) = (state, ReasonOpen, True) \<and>
    ps_RawRunning state = 2 \<and> ps_RawWaiting state = 1 \<and> ps_UnobservedSequences state = 0 \<and> \<not> ts_Enabled (ps_TPS state)"
proof -
  let ?s = "\<lambda>s. ps_RawRunning s = 2 \<and> ps_RawWaiting s = 1 \<and> ps_UnobservedSequences s = 0"
  obtain s where s: "project (ac_observation demoObserved) zeroOverlay = Some s"
    using project_Some_iff [of "ac_observation demoObserved" zeroOverlay]
    by (auto simp: demoObserved_fields demoObservation_fields)
  have f: "?s s" using project_Some [OF s] by (simp add: demoObserved_fields demoObservation_fields zeroOverlay_def)
  have w: "\<not> ts_Enabled (window_snapshot (newTPSWindow (Fin 0)) now)" for now
    by (simp add: window_snapshot_def newTPSWindow_def window_enabled_def Let_def)
  have "Sub (demoAt 3) (demoAt 2) \<le> demoAt 60" by (simp add: demoAt_def Sub_def)
  then show ?thesis
    using f w s by (simp add: stateLocked_def demoObserved_fields demoObservation_fields Let_def) (simp add: demoAt_def)
qed

definition demoOverlay :: reservationOverlay where
  "demoOverlay = \<lparr>ov_unobservedSequences = 2, ov_sequenceLiabilities = 2, ov_liveReservations = 1,
     ov_residualDebts = 0, ov_coldSheddablePending = 1\<rparr>"

lemma demoDemand_fields: "dm_DecodeSequences demoDemand = 2" "dm_Tier demoDemand = TierDefault" "demand_valid demoDemand"
  by (simp_all add: demoDemand_def demand_valid_def zeroDemand_def)

lemma demoItem: "new_item demoObserved demoDemand = zeroReservation\<lparr>rv_id := 1, rv_runtimeEpoch := 1, rv_demand := demoDemand,
   rv_coldSheddable := True, rv_phase := reservationReserved\<rparr>"
  by (simp add: new_item_def demoObserved_fields newAdmissionPolicy_def coldSheddable_def promptAware_def warm_def demoDemand_def zeroDemand_def)

lemma demoShare: "contribution (new_item demoObserved demoDemand) = Some demoOverlay"
  by (simp add: demoItem contribution_eq demoDemand_fields zeroReservation_def phaseShare_def demoOverlay_def)

lemma demoAdmits: "\<exists>state. admits demoObserved (demoAt 3) demoDemand state demoOverlay demoOverlay"
proof -
  obtain s where s: "stateLocked demoObserved (demoAt 3) = (s, ReasonOpen, True)"
    "ps_RawRunning s = 2" "ps_RawWaiting s = 1" "ps_UnobservedSequences s = 0" "\<not> ts_Enabled (ps_TPS s)"
    using demoState by blast
  have "pd_action (policy_evaluateDemand (ac_policy demoObserved) s demoDemand (controllerBounds demoObserved)) = ActionAdmit"
    unfolding policy_admits_iff tps_gate_open_def bounds_fits_iff using s
    by (simp add: demoDemand_fields controllerBounds_def demoObserved_fields)
  moreover have "addOverlay zeroOverlay demoOverlay = Some demoOverlay"
    by (simp add: addOverlay_def demoOverlay_def addNonnegativeInt64_def zeroOverlay_def overlay_valid_def)
  ultimately show ?thesis using s
    by (auto simp: admits_def demoDemand_fields demoShare demoObserved_fields)
qed

lemma demoAdmitted_eq: "Admit demoObserved (demoAt 3) demoDemand =
   (demoAdmitted, snd (Admit demoObserved (demoAt 3) demoDemand))"
  by (simp add: demoAdmitted_def)

lemma demoAdmitted_state: "demoAdmitted = admitted_state demoObserved demoDemand demoOverlay"
   "demoHandle = \<lparr>rh_controller = Some 7, rh_runtimeEpoch = 1, rh_id = 1\<rparr>"
   "Admitted (ar_Decision (snd (Admit demoObserved (demoAt 3) demoDemand)))"
proof -
  obtain s where a: "admits demoObserved (demoAt 3) demoDemand s demoOverlay demoOverlay" using demoAdmits by blast
  show "demoAdmitted = admitted_state demoObserved demoDemand demoOverlay"
   "demoHandle = \<lparr>rh_controller = Some 7, rh_runtimeEpoch = 1, rh_id = 1\<rparr>"
   "Admitted (ar_Decision (snd (Admit demoObserved (demoAt 3) demoDemand)))"
    using Admit_success [OF a] a
    by (simp_all add: demoAdmitted_def demoHandle_def admitted_result_def demoObserved_fields Admitted_def decisionLocked_def admits_def)
qed

lemma demoAdmitted_fields:
  "ac_self demoAdmitted = 7" "ac_closedReason demoAdmitted = ReasonEmpty" "ac_overlay demoAdmitted = demoOverlay"
  "ac_exposure demoAdmitted = demoLedger" "ac_runtimeEpoch demoAdmitted = 1" "ac_eventSequence demoAdmitted = 1"
  "ac_reservations demoAdmitted = [(1, (new_item demoObserved demoDemand)\<lparr>rv_admittedSequence := 1\<rparr>)]"
  by (simp_all add: demoAdmitted_state admitted_state_def demoObserved_fields)

lemma demoAdmitted_reachable: "reachable demoAdmitted"
  using reachable_perform [OF demoObserved_reachable, of "OpAdmit (demoAt 3) demoDemand"] by (simp add: demoAdmitted_def)
lemma demoForwarded_ready: "life_ready demoAdmitted demoHandle ((new_item demoObserved demoDemand)\<lparr>rv_admittedSequence := 1\<rparr>) (demoAt 4)"
  by (simp add: life_ready_def demoAdmitted_fields demoAdmitted_state(2) ledger_room_def demoLedger_def zeroLedger_def elapsed_ns_def snval_def zeroNanoseconds_def)
    (simp add: demoAt_def)
lemma demoForwarded_eq: "MarkForwarded demoAdmitted demoHandle (demoAt 4) = (demoForwarded, True)"
  using MarkForwarded_total [OF reachable_inv [OF demoAdmitted_reachable] demoForwarded_ready]
  by (auto simp: demoForwarded_def demoItem zeroReservation_def)

subsection \<open>Forwarded, then timed out\<close>

lemma demoForwarded_facts:
  "demoForwarded = forwarded_state demoAdmitted 1 (demoAt 4)
     ((new_item demoObserved demoDemand)\<lparr>rv_admittedSequence := 1\<rparr>) (ac_exposure demoForwarded)"
  "ac_closedReason demoForwarded = ReasonEmpty" "ac_self demoForwarded = 7" "ac_runtimeEpoch demoForwarded = 1"
  "ac_eventSequence demoForwarded = 2"
  "ac_reservations demoForwarded = [(1, forwarded_item ((new_item demoObserved demoDemand)\<lparr>rv_admittedSequence := 1\<rparr>) (demoAt 4) 2)]"
  "el_initialized (ac_exposure demoForwarded)" "el_lastEventAt (ac_exposure demoForwarded) = demoAt 4"
  "el_activeForwarded (ac_exposure demoForwarded) = 2" "el_activeResponse (ac_exposure demoForwarded) = 0"
  "snval (el_forwardedTime (ac_exposure demoForwarded)) = 0" "snval (el_responseTime (ac_exposure demoForwarded)) = 0"
proof -
  let ?i = "(new_item demoObserved demoDemand)\<lparr>rv_admittedSequence := 1\<rparr>"
  obtain l where eq: "MarkForwarded demoAdmitted demoHandle (demoAt 4) = (forwarded_state demoAdmitted 1 (demoAt 4) ?i l, True)"
    using MarkForwarded_total [OF reachable_inv [OF demoAdmitted_reachable] demoForwarded_ready]
    by (auto simp: demoItem zeroReservation_def demoAdmitted_state(2))
  have st: "demoForwarded = forwarded_state demoAdmitted 1 (demoAt 4) ?i l" by (simp add: demoForwarded_def eq)
  show "demoForwarded = forwarded_state demoAdmitted 1 (demoAt 4) ?i (ac_exposure demoForwarded)"
    by (subst (2) st) (simp add: st forwarded_state_def)
  show "ac_closedReason demoForwarded = ReasonEmpty" "ac_self demoForwarded = 7" "ac_runtimeEpoch demoForwarded = 1"
    "ac_eventSequence demoForwarded = 2"
    "ac_reservations demoForwarded = [(1, forwarded_item ?i (demoAt 4) 2)]"
    by (simp_all add: st forwarded_state_def demoAdmitted_fields numeral_2_eq_2)
  have "addForwarded demoLedger (demoAt 4) 2 = (l, True)"
  proof (cases rule: markForwarded_result [of demoAdmitted 1 1 "demoAt 4"])
    case failed
    then have "\<not> snd (markForwarded demoAdmitted 1 1 (demoAt 4))"
      using life_failed_inv [OF reachable_inv [OF demoAdmitted_reachable]] by blast
    then show ?thesis
      using eq by (simp add: MarkForwarded_def demoAdmitted_state(2) split: if_splits)
  next
    case (success item l')
    then have "forwarded_state demoAdmitted 1 (demoAt 4) item l' = forwarded_state demoAdmitted 1 (demoAt 4) ?i l"
      using eq by (auto simp: MarkForwarded_def demoAdmitted_state(2) handle_usable_def demoAdmitted_fields)
    then have "ac_exposure (forwarded_state demoAdmitted 1 (demoAt 4) item l') =
        ac_exposure (forwarded_state demoAdmitted 1 (demoAt 4) ?i l)" by simp
    then have "l' = l" by (simp add: forwarded_state_def)
    with success show ?thesis
      by (auto simp: forwards_def demoAdmitted_fields demoItem demoDemand_fields)
  qed
  moreover have "ledger_valid demoLedger" "ledger_bounded demoLedger"
    by (simp_all add: demoLedger_def zeroLedger_def ledger_valid_iff ledger_bounded_def)
  ultimately show "el_initialized (ac_exposure demoForwarded)" "el_lastEventAt (ac_exposure demoForwarded) = demoAt 4"
    "el_activeForwarded (ac_exposure demoForwarded) = 2" "el_activeResponse (ac_exposure demoForwarded) = 0"
    "snval (el_forwardedTime (ac_exposure demoForwarded)) = 0" "snval (el_responseTime (ac_exposure demoForwarded)) = 0"
    using addForwarded_spec [of demoLedger "demoAt 4" 2 l] by (simp_all add: demoLedger_def zeroLedger_def st forwarded_state_def)
qed

lemma demoForwarded_reachable: "reachable demoForwarded"
  using reachable_perform [OF demoAdmitted_reachable, of "OpMarkForwarded demoHandle (demoAt 4)"]
  by (simp add: demoForwarded_def)

lemma demoDebt_ready:
  "\<exists>item. life_ready demoForwarded demoHandle item (demoAt 4) \<and> rv_phase item = reservationForwarded"
  by (simp add: life_ready_def demoForwarded_facts(2-) demoAdmitted_state(2) forwarded_item_def ledger_room_def
      elapsed_ns_def Sub_def)

lemma demoDebt_eq: "Terminate demoForwarded demoHandle TerminalTimeout (demoAt 4) = (demoDebt, True)"
proof -
  obtain item where "life_ready demoForwarded demoHandle item (demoAt 4)" "rv_phase item = reservationForwarded"
    using demoDebt_ready by blast
  then have "snd (Terminate demoForwarded demoHandle TerminalTimeout (demoAt 4))"
    using Terminate_total [OF reachable_inv [OF demoForwarded_reachable], of demoHandle item "demoAt 4" TerminalTimeout]
    by auto
  then show ?thesis by (simp add: demoDebt_def prod_eq_iff)
qed

lemma demoDebt_reachable: "reachable demoDebt"
  using reachable_perform [OF demoForwarded_reachable, of "OpTerminate demoHandle TerminalTimeout (demoAt 4)"]
  by (simp add: demoDebt_def)

lemma demoDebt_facts:
  "\<exists>ov l. demoDebt = terminated_state demoForwarded 1 TerminalTimeout
     (forwarded_item ((new_item demoObserved demoDemand)\<lparr>rv_admittedSequence := 1\<rparr>) (demoAt 4) 2) ov l"
  "ac_closedReason demoDebt = ReasonEmpty" "ac_self demoDebt = 7" "ac_runtimeEpoch demoDebt = 1"
  "ac_eventSequence demoDebt = 3"
  "ac_reservations demoDebt = [(1, debt_item (forwarded_item ((new_item demoObserved demoDemand)
     \<lparr>rv_admittedSequence := 1\<rparr>) (demoAt 4) 2) 3)]"
  "el_initialized (ac_exposure demoDebt)" "el_lastEventAt (ac_exposure demoDebt) = demoAt 4"
  "el_activeForwarded (ac_exposure demoDebt) = 0" "el_activeResponse (ac_exposure demoDebt) = 0"
  "snval (el_forwardedTime (ac_exposure demoDebt)) = 0" "snval (el_responseTime (ac_exposure demoDebt)) = 0"
proof -
  let ?i = "forwarded_item ((new_item demoObserved demoDemand)\<lparr>rv_admittedSequence := 1\<rparr>) (demoAt 4) 2"
  have t: "terminate demoForwarded 1 1 TerminalTimeout (demoAt 4) = (demoDebt, True)"
    using demoDebt_eq by (simp add: Terminate_def demoAdmitted_state(2) demoForwarded_facts(2-) split: if_splits)
  obtain ov l where l: "terminates demoForwarded 1 TerminalTimeout (demoAt 4) ?i ov l"
    "demoDebt = terminated_state demoForwarded 1 TerminalTimeout ?i ov l"
  proof (cases rule: terminate_result [of demoForwarded 1 1 TerminalTimeout "demoAt 4"])
    case failed
    then have "\<not> snd (terminate demoForwarded 1 1 TerminalTimeout (demoAt 4))"
      using life_failed_inv [OF reachable_inv [OF demoForwarded_reachable]] by blast
    with t show ?thesis by (metis snd_conv)
  next
    case (success item ov l)
    then have "item = ?i" by (simp add: terminates_def demoForwarded_facts(2-))
    with success t that show ?thesis by simp
  qed
  have no: "\<not> removes ?i TerminalTimeout" by (simp add: removes_def forwarded_item_def)
  show "\<exists>ov l. demoDebt = terminated_state demoForwarded 1 TerminalTimeout ?i ov l" using l(2) by blast
  show "ac_closedReason demoDebt = ReasonEmpty" "ac_self demoDebt = 7" "ac_runtimeEpoch demoDebt = 1"
    "ac_eventSequence demoDebt = 3" "ac_reservations demoDebt = [(1, debt_item ?i 3)]"
    using no by (simp_all add: l(2) terminated_state_def demoForwarded_facts(2-) numeral_3_eq_3 numeral_2_eq_2)
  have "reservationExposureCounts ?i = Some (2, 0)"
    by (simp add: reservationExposureCounts_def effectiveDemand_def forwarded_item_def demoItem zeroReservation_def demoDemand_fields)
  then have "remove_exposure (ac_exposure demoForwarded) (demoAt 4) 2 0 = (l, True)"
    using l(1) by (auto simp: terminates_def)
  moreover have "ledger_valid (ac_exposure demoForwarded)" "ledger_bounded (ac_exposure demoForwarded)"
    using reachable_inv [OF demoForwarded_reachable] inv_forwarded_bound(4)
    by (auto simp: controller_inv_def inv_res_def)
  ultimately show "el_initialized (ac_exposure demoDebt)" "el_lastEventAt (ac_exposure demoDebt) = demoAt 4"
    "el_activeForwarded (ac_exposure demoDebt) = 0" "el_activeResponse (ac_exposure demoDebt) = 0"
    "snval (el_forwardedTime (ac_exposure demoDebt)) = 0" "snval (el_responseTime (ac_exposure demoDebt)) = 0"
    using remove_exposure_spec [of "ac_exposure demoForwarded" "demoAt 4" 2 0 l]
    by (simp_all add: l(2) terminated_state_def demoForwarded_facts(2-) elapsed_ns_def Sub_def)
qed

subsection \<open>The second observation\<close>

definition demoSampled2 :: AdmissionController where
  "demoSampled2 = fst (StartSampleWindow demoDebt (demoAt 5))"

definition demoWindow2 :: SampleWindow where
  "demoWindow2 = the (snd (StartSampleWindow demoDebt (demoAt 5)))"

definition demoSettled :: AdmissionController where
  "demoSettled = fst (PublishObservation demoSampled2 demoWindow2 demoObservation (demoAt 6))"

definition demoRestart :: BackendObservation where
  "demoRestart = demoObservation\<lparr>bo_GenerationTokensTotal := 7\<rparr>"

lemma demoObserved_more:
  "ac_sampleSequence demoObserved = 1" "ac_lastPublishedSample demoObserved = 1"
  "ac_lastExposure demoObserved = zeroExposure" "ac_runtimeIdentity demoObserved = ''r''"
  "ac_pendingFirstByteLeaseDuration demoObserved = 1500000000"
  by (simp_all add: demoObserved_eq demoSampled_eq demoNew_fields)

lemma demoForwarded_more:
  "ac_sampleSequence demoForwarded = 1" "ac_lastPublishedSample demoForwarded = 1"
  "ac_lastExposure demoForwarded = zeroExposure" "ac_runtimeIdentity demoForwarded = ''r''"
  "ac_pendingFirstByteLeaseDuration demoForwarded = 1500000000" "ac_hasObservation demoForwarded"
  "ac_observation demoForwarded = ac_observation demoObserved" "ac_observationSequence demoForwarded = 1"
  "ac_tpsWindow demoForwarded = newTPSWindow (Fin 0)"
  by (subst demoForwarded_facts(1), simp add: forwarded_state_def demoAdmitted_state(1) admitted_state_def
      demoObserved_more demoObserved_fields)+

lemma demoDebt_more:
  "ac_sampleSequence demoDebt = 1" "ac_lastPublishedSample demoDebt = 1"
  "ac_lastExposure demoDebt = zeroExposure" "ac_runtimeIdentity demoDebt = ''r''"
  "ac_pendingFirstByteLeaseDuration demoDebt = 1500000000" "ac_hasObservation demoDebt"
  "ac_observation demoDebt = ac_observation demoObserved" "ac_observationSequence demoDebt = 1"
  "ac_tpsWindow demoDebt = newTPSWindow (Fin 0)"
proof -
  let ?i = "forwarded_item ((new_item demoObserved demoDemand)\<lparr>rv_admittedSequence := 1\<rparr>) (demoAt 4) 2"
  obtain ov l where eq: "demoDebt = terminated_state demoForwarded 1 TerminalTimeout ?i ov l"
    using demoDebt_facts(1) by blast
  show "ac_sampleSequence demoDebt = 1" "ac_lastPublishedSample demoDebt = 1"
    "ac_lastExposure demoDebt = zeroExposure" "ac_runtimeIdentity demoDebt = ''r''"
    "ac_pendingFirstByteLeaseDuration demoDebt = 1500000000" "ac_hasObservation demoDebt"
    "ac_observation demoDebt = ac_observation demoObserved" "ac_observationSequence demoDebt = 1"
    "ac_tpsWindow demoDebt = newTPSWindow (Fin 0)"
    unfolding eq terminated_state_def by (simp_all add: demoForwarded_more)
qed

lemma demoSampled2_start: "\<exists>l. ledger_snapshot (ac_exposure demoDebt) (demoAt 5) = (l, Some zeroExposure)"
proof -
  have v: "ledger_valid (ac_exposure demoDebt)" "ledger_bounded (ac_exposure demoDebt)"
    using reachable_inv [OF demoDebt_reachable] inv_forwarded_bound(4)
    by (auto simp: controller_inv_def inv_res_def)
  have "ledger_room (ac_exposure demoDebt) (demoAt 5)"
    by (simp add: ledger_room_def demoDebt_facts(2-) elapsed_ns_def) (simp add: demoAt_def)
  then obtain l s where l: "ledger_snapshot (ac_exposure demoDebt) (demoAt 5) = (l, Some s)"
    using ledger_snapshot_total [OF v] by blast
  have "snval (el_forwardedTime l) = 0" "snval (el_responseTime l) = 0"
    "s = \<lparr>sx_forwarded = el_forwardedTime l, sx_response = el_responseTime l\<rparr>"
    using ledger_snapshot_spec [OF v l] by (simp_all add: demoDebt_facts(2-))
  then have "s = zeroExposure" by (simp add: snval_0_iff zeroExposure_def)
  with l show ?thesis by blast
qed

lemma demoSampled2_fields:
  "ac_self demoSampled2 = 7" "ac_runtimeIdentity demoSampled2 = ''r''" "ac_hasObservation demoSampled2"
  "ac_closedReason demoSampled2 = ReasonEmpty" "ac_reservations demoSampled2 = ac_reservations demoDebt"
  "ac_observationSequence demoSampled2 = 1" "ac_observation demoSampled2 = ac_observation demoObserved"
  "ac_lastExposure demoSampled2 = zeroExposure" "ac_runtimeEpoch demoSampled2 = 1"
  "ac_sampleSequence demoSampled2 = 2" "ac_lastPublishedSample demoSampled2 = 1"
  "ac_pendingFirstByteLeaseDuration demoSampled2 = 1500000000" "ac_tpsWindow demoSampled2 = newTPSWindow (Fin 0)"
  "sw_exposure demoWindow2 = zeroExposure" "sw_id demoWindow2 = 2" "sw_controller demoWindow2 = Some 7"
  "sw_runtimeEpoch demoWindow2 = 1" "sw_eventSequence demoWindow2 = 3"
  using demoSampled2_start
  by (auto simp: demoSampled2_def demoWindow2_def StartSampleWindow_def demoDebt_facts(2-) demoDebt_more)

lemma demoSampled2_reachable: "reachable demoSampled2"
  using reachable_perform [OF demoDebt_reachable, of "OpStartSampleWindow (demoAt 5)"]
  by (simp add: demoSampled2_def)

lemma demoSampled2_publishable:
  "publishable demoSampled2 demoWindow2 demoObservation" "publishable demoSampled2 demoWindow2 demoRestart"
proof -
  have "validBackendObservation demoRestart"
    using demoObservation_valid by (simp add: demoRestart_def validBackendObservation_def)
  then show "publishable demoSampled2 demoWindow2 demoObservation" "publishable demoSampled2 demoWindow2 demoRestart"
    using demoObservation_valid
    by (simp_all add: publishable_def window_acceptable_def demoSampled2_fields demoObserved_fields demoObservation_fields
        demoRestart_def feq_def)
qed

lemma demoSettled_accepted:
  "pr_Accepted (snd (PublishObservation demoSampled2 demoWindow2 demoObservation (demoAt 6)))"
  "\<not> pr_RuntimeReset (snd (PublishObservation demoSampled2 demoWindow2 demoObservation (demoAt 6)))"
proof -
  have reset: "\<not> runtimeReset demoSampled2 demoObservation"
    by (simp add: runtimeReset_def runtimeIdentityChanged_def demoSampled2_fields demoObserved_fields
        demoObservation_fields feq_def)
  have off: "\<not> window_enabled (newTPSWindow (Fin 0))" by (simp add: window_enabled_def newTPSWindow_def)
  let ?b = "publish_base demoSampled2 demoObservation"
  have b: "ac_lastExposure ?b = zeroExposure" "ac_tpsWindow ?b = newTPSWindow (Fin 0)" "controller_inv ?b"
    using histogram_inv reachable_inv [OF demoSampled2_reachable]
    by (simp_all add: publish_base_def demoSampled2_fields)
  have step: "snd (publishSample ?b demoWindow2 demoObservation g (demoAt 6)) = None" for g
    using reconciledOverlay_total [OF b(3), of 3 demoObservation "demoAt 6"] off b(1,2)
    by (auto simp: publishSample_def demoSampled2_fields zeroExposure_subtract zeroExposure_seconds publishTPS_def
        applyReconciliation_def split: option.split)
  have ne: "ac_observationSequence demoSampled2 \<noteq> MaxUint64" by (simp add: demoSampled2_fields)
  obtain g p interval running waiting where
    eq: "PublishObservation demoSampled2 demoWindow2 demoObservation (demoAt 6) =
       (case (if runtimeReset demoSampled2 demoObservation then publishReset ?b
              else publishSample ?b demoWindow2 demoObservation g (demoAt 6)) of
          (c1, Some reason) \<Rightarrow> (c1, rejectedPublication reason (ac_runtimeEpoch c1))
        | (c1, None) \<Rightarrow> publishCommit c1 demoObservation (runtimeReset demoSampled2 demoObservation)
            g p interval running waiting)"
    using PublishObservation_accepted [OF demoSampled2_publishable(1) ne, of "demoAt 6"]
    by (elim exE conjE) (rule that)
  obtain c1 where "publishSample ?b demoWindow2 demoObservation g (demoAt 6) = (c1, None)"
    using step [of g] by (metis prod.collapse)
  then show "pr_Accepted (snd (PublishObservation demoSampled2 demoWindow2 demoObservation (demoAt 6)))"
    "\<not> pr_RuntimeReset (snd (PublishObservation demoSampled2 demoWindow2 demoObservation (demoAt 6)))"
    unfolding eq using reset by (simp_all add: publishCommit_def Let_def)
qed

lemma demoRestart_accepted:
  "pr_Accepted (snd (PublishObservation demoSampled2 demoWindow2 demoRestart (demoAt 6)))"
  "pr_RuntimeReset (snd (PublishObservation demoSampled2 demoWindow2 demoRestart (demoAt 6)))"
proof -
  have "runtimeReset demoSampled2 demoRestart"
    by (simp add: runtimeReset_def demoSampled2_fields demoObserved_fields demoObservation_fields demoRestart_def)
  moreover have "publish_base demoSampled2 demoRestart = demoSampled2"
    using calculation by (simp add: publish_base_def)
  moreover have ne: "ac_observationSequence demoSampled2 \<noteq> MaxUint64" by (simp add: demoSampled2_fields)
  ultimately show "pr_Accepted (snd (PublishObservation demoSampled2 demoWindow2 demoRestart (demoAt 6)))"
    "pr_RuntimeReset (snd (PublishObservation demoSampled2 demoWindow2 demoRestart (demoAt 6)))"
    using PublishObservation_accepted [OF demoSampled2_publishable(2) ne, of "demoAt 6"]
    by (auto simp: publishCommit_def publishReset_def Let_def demoSampled2_fields)
qed

end
