(* ===== verification/Service_Properties.thy ===== *)
theory Service_Properties
  imports Queue_Live Scenario
begin

text \<open>
  What the service around the controller guarantees, from the lemmas of the component theories:
  its totals, its log, its durations, what the router reads and the queue in front of it.
\<close>

section \<open>Totals, log and durations\<close>

text \<open>C22: The counters are exact: after any decisions the totals and the evidence count them by outcome,
  the outcomes of the evidence add up to the attempts, and every protection is in exactly one of its
  classes.\<close>
theorem reporter_counts_exact:
  assumes "length xs \<le> MaxUint64"
    and "reporter_Snapshot (foldl reporter_step (newAdmissionReporter interval) xs) = (totals, evidence, tps)"
  shows "report_of xs totals \<and> evidence = evidence_of (decisions xs) \<and>
     (\<Sum>k\<in>UNIV. ae_outcomes evidence k) = rs_Attempts totals \<and>
     ae_outcomes evidence admissionEvidenceAdmitted = rs_Admitted totals \<and>
     (\<Sum>k\<in>UNIV. ae_protections evidence k) + rs_Admitted totals = rs_Attempts totals"
proof -
  let ?r = "foldl reporter_step (newAdmissionReporter interval) xs"
  have rep: "report_of xs totals" using report_run assms by (auto simp: reporter_Snapshot_def)
  have "rp_evidence (newAdmissionReporter interval) = zeroEvidence" by (simp add: newAdmissionReporter_def)
  then have ev: "evidence = evidence_of (decisions xs)"
    using evidence_run [of "decisions xs"] assms
    by (auto simp: reporter_Snapshot_def reporter_evidence evidence_Snapshot_of)
  have "ae_outcomes (evidence_of (decisions xs)) admissionEvidenceAdmitted = rs_Admitted totals"
    using rep by (simp add: report_of_def evidence_of_def)
  then show ?thesis
    using rep ev evidence_sums(1,5) [of "decisions xs"] by (simp add: report_of_def)
qed

definition demoDecisions :: "(gotime \<times> string \<times> DecisionRecord) list" where
  "demoDecisions = [(demoAt 1, ''shadow'', zeroDecisionRecord\<lparr>dr_Action := ActionProtect, dr_Scope := ProtectionLoad\<rparr>),
     (demoAt 2, ''enforce'', zeroDecisionRecord\<lparr>dr_Action := ActionAdmit\<rparr>)]"

lemma reporter_counts_exact_witness:
  "\<exists>totals evidence tps. reporter_Snapshot (foldl reporter_step (newAdmissionReporter 0) demoDecisions) = (totals, evidence, tps) \<and>
     rs_Attempts totals = 2 \<and> (\<Sum>k\<in>UNIV. ae_outcomes evidence k) = 2"
proof -
  obtain totals evidence tps where s: "reporter_Snapshot (foldl reporter_step (newAdmissionReporter 0) demoDecisions) = (totals, evidence, tps)"
    by (metis prod.exhaust)
  have len: "length demoDecisions = 2" by (simp add: demoDecisions_def)
  then have "length demoDecisions \<le> MaxUint64" by simp
  note exact = reporter_counts_exact [OF this s]
  have "rs_Attempts totals = 2" using conjunct1 [OF exact] len by (simp add: report_of_def)
  with exact s show ?thesis by (elim conjE) (simp only: simp_thms, blast)
qed

text \<open>The decision log is throttled and loses nothing: with at most 256 kinds of events, two lines of
  the same kind are at least the interval apart, and every refusal is either a line or counted as
  suppressed, by a line written later or by the bucket of its kind.\<close>
theorem log_rate_limited:
  assumes "sorted (map fst es)" "0 < interval" "\<forall>x\<in>set es. zeroTime < fst x"
    and "card (signatureOf ` snd ` set es) \<le> maximumAdmissionLogSignatures" "length es \<le> MaxUint64"
    and "log_run interval es = (state, lines)"
  shows "(\<forall>i j. i < j \<longrightarrow> j < length lines \<longrightarrow> signatureOf (lines ! i) = signatureOf (lines ! j) \<longrightarrow>
       interval \<le> le_ObservedAt (lines ! j) - le_ObservedAt (lines ! i)) \<and>
     (\<forall>k. count (claimed k) es = reported lines k + pendingOf state k)"
  using log_run_inv [OF assms(1-3) _ assms(4) subset_refl assms(5)] assms(6)
  by (auto simp: log_inv_def spaced_def sorted_wrt_iff_nth_less)

text \<open>Two refusals of the same kind one second apart, with an interval of five.\<close>

definition demoEvent :: admissionDecisionLogEvent where
  "demoEvent = \<lparr>le_Mode = ''enforce'', le_Enforced = True,
     le_Decision = zeroDecisionRecord\<lparr>dr_Action := ActionProtect, dr_Scope := ProtectionLoad\<rparr>,
     le_Suppressed = 0, le_ObservedAt = zeroTime\<rparr>"

lemma log_rate_limited_witness:
  "\<exists>state lines. log_run (5 * Second) [(demoAt 1, demoEvent), (demoAt 2, demoEvent)] = (state, lines) \<and>
     reported lines (signatureOf demoEvent) + pendingOf state (signatureOf demoEvent) = 2"
proof -
  let ?es = "[(demoAt 1, demoEvent), (demoAt 2, demoEvent)]"
  obtain state lines where r: "log_run (5 * Second) ?es = (state, lines)" by fastforce
  have c: "count (claimed (signatureOf demoEvent)) ?es = 2"
    by (simp add: count_def claimed_def demoEvent_def Admitted_def)
  have "count (claimed (signatureOf demoEvent)) ?es =
      reported lines (signatureOf demoEvent) + pendingOf state (signatureOf demoEvent)"
    by (rule log_rate_limited [THEN conjunct2, THEN spec, OF _ _ _ _ _ r])
       (simp_all add: demoAt_def zeroTime_def)
  with r c show ?thesis by auto
qed

text \<open>A histogram of durations is exact and cumulative: bucket i counts the durations up to bound i,
  the buckets do not decrease and none exceeds the count, as long as the total fits 64 bits. The two
  static histograms of the program are made without a panic.\<close>
theorem duration_histogram_exact:
  assumes "validatedDurationHistogramBounds bounds = Inr owned" "\<forall>d\<in>set ds. 0 \<le> d" "sum_list ds \<le> int MaxUint64"
    and "length ds \<le> MaxUint64" "h = foldl duration_Observe (emptyHistogram owned) ds"
  shows "dh_count h = length ds \<and> int (dh_totalNs h) = sum_list ds \<and>
     dh_buckets h = map (\<lambda>b. length (filter (\<lambda>d. fle (Seconds d) b) ds)) bounds \<and>
     sorted (dh_buckets h) \<and> (\<forall>n\<in>set (dh_buckets h). n \<le> dh_count h) \<and>
     NewDurationHistogram \<noteq> None \<and> NewPredictiveDurationHistogram \<noteq> None"
proof -
  have b: "owned = bounds" "sorted_wrt flt bounds" using assms(1) by (simp_all add: validated_iff)
  have h: "h = durations_of bounds ds" using assms(5) b by (simp add: durations_of_def)
  have "0 \<le> sum_list ds" using assms(2) by (intro sum_list_nonneg) auto
  then show ?thesis
    using durations_of_exact [OF assms(2,4,3), of bounds] durations_cumulative [OF assms(2,4,3) b(2)] static_bounds
    by (simp add: h NewDurationHistogram_def NewPredictiveDurationHistogram_def newStaticDurationHistogram_def
        NewDurationHistogramWithBuckets_def)
qed

lemma duration_histogram_exact_witness:
  "dh_count (foldl duration_Observe (emptyHistogram [Fin 1, Fin 2]) [0, 0]) = 2 \<and> NewDurationHistogram \<noteq> None"
proof -
  have v: "validatedDurationHistogramBounds [Fin 1, Fin 2] = Inr [Fin 1, Fin 2]"
    by (simp add: validated_iff bound_ok_def)
  show ?thesis using duration_histogram_exact [OF v _ _ _ refl, of "[0, 0]"] by simp
qed

section \<open>What the router reads\<close>

text \<open>C23: The router is told the truth: while ids, event numbers and the overlay have room, it reads a
  positive limit exactly when the service enforces and would refuse the minimal request; then the
  limit is the running count it reads next to it, at least one, and no waiting requests.\<close>
theorem router_projection:
  assumes "reachable (ru_controller r)" "ac_nextReservationID (ru_controller r) < MaxUint64"
    "ac_eventSequence (ru_controller r) < MaxUint64" "int (length (ac_reservations (ru_controller r))) < 1048576"
    "ov_sequenceLiabilities (ac_overlay (ru_controller r)) < MaxInt64"
    and "capacity = at_Capacity (runtime_Snapshot r now)" "report = fst (at_Report (runtime_Snapshot r now))"
    and "router = projectRouterCompatibility (ru_mode r) capacity (projectAdmissionCapacity (ru_mode r) capacity report)"
  shows "(0 < rc_GlobalLimit router \<longleftrightarrow> ru_mode r = ''enforce'' \<and>
       \<not> Admitted (ar_Decision (snd (Admit (ru_controller r) now minimumDemand)))) \<and>
     (0 < rc_GlobalLimit router \<longrightarrow> rc_ObservedRunning router = rc_GlobalLimit router \<and> rc_ObservedWaiting router = 0) \<and>
     (\<not> 0 < rc_GlobalLimit router \<longrightarrow> rc_GlobalLimit router = 0)"
proof -
  have a: "cs_Available capacity \<longleftrightarrow> Admitted (ar_Decision (snd (Admit (ru_controller r) now minimumDemand)))"
    using Admit_minimum_iff [OF reachable_inv [OF assms(1)] assms(2-5)] assms(6) by (simp add: runtime_Snapshot_def)
  have n: "0 \<le> nonnegativeInt x \<and> nonnegativeInt x \<le> MaxInt64" for x by (simp add: nonnegativeInt_def)
  have w: "wrap64 x = x" if "0 \<le> x" "x \<le> MaxInt64" for x using that by (simp add: wrap64_id)
  have "nonnegativeInt 0 = 0" "nonnegativeInt 1 = 1" by (simp_all add: nonnegativeInt_def)
  then show ?thesis
    unfolding assms(8) projectRouterCompatibility_def projectAdmissionCapacity_def Let_def a [symmetric]
    using n [of "ps_RawRunning (cs_State capacity)"] by (auto simp: w)
qed

definition demoRuntime :: admissionRuntime where
  "demoRuntime = \<lparr>ru_controller = demoObserved, ru_reporter = newAdmissionReporter 0, ru_observer = None,
     ru_backendKind = ''vllm'', ru_mode = ''enforce'', ru_prediction = emptyHistogram [], ru_kvCapacityTokens = 0,
     ru_warmPromptTokens = 0, ru_backendTierScheduling = False, ru_closed = False, ru_closeErr = None, ru_events = []\<rparr>"

lemma router_projection_witness:
  "\<exists>router. (0 < rc_GlobalLimit router \<longleftrightarrow> \<not> Admitted (ar_Decision (snd (Admit demoObserved (demoAt 3) minimumDemand)))) \<and>
     router = projectRouterCompatibility ''enforce'' (at_Capacity (runtime_Snapshot demoRuntime (demoAt 3)))
       (projectAdmissionCapacity ''enforce'' (at_Capacity (runtime_Snapshot demoRuntime (demoAt 3)))
         (fst (at_Report (runtime_Snapshot demoRuntime (demoAt 3)))))"
proof -
  have r: "ru_controller demoRuntime = demoObserved" "ru_mode demoRuntime = ''enforce''" by (simp_all add: demoRuntime_def)
  have "reachable (ru_controller demoRuntime)" unfolding r by (rule demoObserved_reachable)
  from router_projection [OF this _ _ _ _ refl refl refl, of "demoAt 3"] show ?thesis
    by (simp add: r demoObserved_fields zeroOverlay_def)
qed

section \<open>The queue\<close>

text \<open>C24: In every run of the queue each request that got a channel is answered exactly once or still
  waits in the queue or at the worker, never both; the queue stays within its bound, and once the
  worker is done nobody waits.\<close>
theorem queue_answers_once:
  assumes "queue_run decide terminateWith recordDecision closeDelegate other s0 s"
  shows "distinct (map fst (pq_results s) @ waitingChannels s) \<and>
     set (map fst (pq_results s)) \<union> set (waitingChannels s) = {..<pq_channels s} \<and>
     int (length (pq_queue s)) \<le> pq_maxEntries s \<and> (pq_done s \<longrightarrow> waitingChannels s = [])"
  using queue_run_channels [OF assms] by (simp add: channels_ok_def)

definition demoQueue :: "admissionRuntime priorityAdmissionService" where
  "demoQueue = newPriorityAdmissionServiceWithConfig demoRuntime 4 0 50"

definition demoInputs :: dispatchInputs where
  "demoInputs = \<lparr>di_canceledBefore = False, di_now = demoAt 3, di_ctxDone = False, di_decideAt = demoAt 3,
     di_elapsed = 1, di_canceledAfter = False, di_terminateAt = demoAt 3, di_recordAt = demoAt 3\<rparr>"

definition demoQueued :: "admissionRuntime priorityAdmissionService" where
  "demoQueued = fst (queue_Decide RecordExternalDecision demoQueue False (demoAt 3) (demoAt 3) demoDemand)"

definition demoServed :: "admissionRuntime priorityAdmissionService" where
  "demoServed = worker_round runtimeDecide reservation_Terminate RecordExternalDecision demoQueued (demoAt 3, demoInputs)"

lemma queue_run_rtranclp:
  "(queue_step dc tm rc cd other)\<^sup>*\<^sup>* s s' \<Longrightarrow> queue_run dc tm rc cd other s0 s \<Longrightarrow> queue_run dc tm rc cd other s0 s'"
  by (induction rule: rtranclp_induct) (auto intro: queue_run.step)

lemma demoQueued_fields:
  "pq_queue demoQueued = [\<lparr>qi_demand = demoDemand, qi_id = 1, qi_enqueuedAt = demoAt 3, qi_channel = 0\<rparr>]"
  "pq_closed demoQueued = False" "pq_done demoQueued = False" "pq_inflight demoQueued = None" "pq_coalesce demoQueued = 0"
  "pq_maxWait demoQueued = 50" "pq_delegate demoQueued = demoRuntime" "pq_results demoQueued = []"
  by (simp_all add: demoQueued_def demoQueue_def queue_Decide_def newPriorityAdmissionServiceWithConfig_def Let_def wrapu64_def)

lemma demoServed_run:
  "queue_run runtimeDecide reservation_Terminate RecordExternalDecision runtimeShutdown runtimeOther demoQueue demoServed"
proof -
  have q0: "queue_run runtimeDecide reservation_Terminate RecordExternalDecision runtimeShutdown runtimeOther demoQueue demoQueue"
    unfolding demoQueue_def by (rule queue_run.start)
  have "queue_Decide RecordExternalDecision demoQueue False (demoAt 3) (demoAt 3) demoDemand =
      (demoQueued, snd (queue_Decide RecordExternalDecision demoQueue False (demoAt 3) (demoAt 3) demoDemand))"
    by (simp add: demoQueued_def)
  from queue_run.step [OF q0 queue_step.submit [OF this]]
  have q: "queue_run runtimeDecide reservation_Terminate RecordExternalDecision runtimeShutdown runtimeOther demoQueue demoQueued" .
  show ?thesis unfolding demoServed_def
    by (rule queue_run_rtranclp [OF worker_round_steps [OF demoQueued_fields(4)] q])
qed

lemma demoServed_result:
  "ru_controller (pq_delegate demoServed) = demoAdmitted"
  "\<exists>d. pq_results demoServed = [(0, d)] \<and> ad_Reservation d = Some demoHandle"
proof -
  let ?dec = "\<lparr>ad_Record = ar_Decision (snd (Admit demoObserved (demoAt 3) demoDemand)), ad_Reservation = Some demoHandle\<rparr>"
  obtain s where s: "runtimeDecide demoRuntime False (demoAt 3) 1 demoDemand = (s, Some ?dec)" "ru_controller s = demoAdmitted"
    using runtimeDecide_fields [of demoRuntime False "demoAt 3" 1 demoDemand] demoAdmitted_state(3)
    by (cases "runtimeDecide demoRuntime False (demoAt 3) 1 demoDemand")
       (simp add: runtime_Decide_decision Let_def demoRuntime_def demoHandle_def demoAdmitted_def)
  have choose: "chooseIndex 50 [x] now = Some 0" for x now
    using chooseIndex_None [of 50 "[x]" now] chooseIndex_lt [of 50 "[x]" now] by (cases "chooseIndex 50 [x] now") auto
  have v: "decision_valid ?dec" using demoAdmitted_state(3) by (simp add: decision_valid_def)
  have e: "demoServed = send \<lparr>qi_demand = demoDemand, qi_id = 1, qi_enqueuedAt = demoAt 3, qi_channel = 0\<rparr>
      (demoQueued\<lparr>pq_queue := [], pq_delegate := s\<rparr>, ?dec)"
    using v by (simp add: demoServed_def worker_round_def demoQueued_fields queue_next_def oldestAt_def choose
        dispatch_def demoInputs_def Sub_def s(1) checkedDecide_def)
  show "ru_controller (pq_delegate demoServed) = demoAdmitted"
    "\<exists>d. pq_results demoServed = [(0, d)] \<and> ad_Reservation d = Some demoHandle"
    unfolding e by (simp_all add: demoQueued_fields s(2))
qed

lemma queue_answers_once_witness:
  "distinct (map fst (pq_results demoServed) @ waitingChannels demoServed) \<and> length (pq_results demoServed) = 1"
  using queue_answers_once [OF demoServed_run] demoServed_result(2) by auto

text \<open>C25: No reservation leaks in front of the runtime: in every run of the queue, while samples are
  published and reservations end, every reservation open at the controller was open before or has
  been handed to a caller - also when a request is canceled while it is decided.\<close>
theorem queue_no_leak:
  assumes "queue_run runtimeDecide reservation_Terminate RecordExternalDecision runtimeShutdown runtimeOther s0 s"
    and "reachable (ru_controller (pq_delegate s0))"
  shows "runtimeOpen (pq_delegate s) \<subseteq> runtimeOpen (pq_delegate s0) \<union> handed s"
  using assms by (intro runtime_queue.owned_run) (simp_all add: runtimeHealthy_def reachable_inv)

lemma queue_no_leak_witness:
  "demoHandle \<in> runtimeOpen (pq_delegate demoServed) \<and> runtimeOpen (pq_delegate demoQueue) = {} \<and>
     runtimeOpen (pq_delegate demoServed) \<subseteq> runtimeOpen (pq_delegate demoQueue) \<union> handed demoServed"
proof -
  have q: "pq_delegate demoQueue = demoRuntime" by (simp add: demoQueue_def newPriorityAdmissionServiceWithConfig_def Let_def)
  have c: "ru_controller demoRuntime = demoObserved" by (simp add: demoRuntime_def)
  have "reachable (ru_controller (pq_delegate demoQueue))" unfolding q c by (rule demoObserved_reachable)
  note leak = queue_no_leak [OF demoServed_run this]
  have "demoHandle \<in> openOf demoAdmitted"
    by (simp add: openOf_iff demoAdmitted_fields demoAdmitted_state(2) demoItem zeroReservation_def)
  moreover have "openOf demoObserved = {}" by (simp add: openOf_closed demoObserved_fields)
  ultimately show ?thesis
    using leak unfolding q runtimeOpen_def demoServed_result(1) c by blast
qed

text \<open>C26: The queue picks by its rules: the oldest expired request if there is one; else the oldest
  sheddable request past half the wait; else one of the highest rank, the oldest of those. Of equals
  the first in the queue wins, and something is picked unless the queue is empty.\<close>
theorem queue_order:
  "case chooseIndex maxWait queue now of
     None \<Rightarrow> queue = []
   | Some i \<Rightarrow>
       if list_ex (expired maxWait now) queue then best_at (expired maxWait now) enqueuedBefore queue i
       else if list_ex (aged maxWait now) queue then best_at (aged maxWait now) enqueuedBefore queue i
       else best_at (\<lambda>_. True) outranks queue i"
  by (rule chooseIndex_best)

text \<open>C27: The queue makes progress: when its requests are past the coalescing delay, as many rounds of the
  worker as there are requests answer them all, whatever clocks, contexts and the delegate do; and
  one round of a closed service answers all that wait and ends the worker.\<close>
theorem queue_progress:
  assumes "\<not> pq_done s" "length rounds = length (pq_queue s)"
    "\<forall>item\<in>set (pq_queue s). \<forall>(now, inp)\<in>set rounds. qi_enqueuedAt item + pq_coalesce s \<le> now"
  shows "if pq_closed s then
       pq_queue (worker_round decide terminateWith recordDecision s x) = [] \<and>
       pq_done (worker_round decide terminateWith recordDecision s x) \<and>
       map fst (pq_results (worker_round decide terminateWith recordDecision s x)) =
         map fst (pq_results s) @ map qi_channel (pq_queue s)
     else
       pq_queue (foldl (worker_round decide terminateWith recordDecision) s rounds) = [] \<and>
       mset (map fst (pq_results (foldl (worker_round decide terminateWith recordDecision) s rounds))) =
         mset (map fst (pq_results s)) + mset (map qi_channel (pq_queue s))"
  using worker_rounds_serve [OF _ assms] worker_round_drains [OF _ assms(1)]
  by (cases "pq_closed s") (simp_all add: comp_def)

lemma queue_progress_witness:
  "pq_queue (foldl (worker_round runtimeDecide reservation_Terminate RecordExternalDecision) demoQueued [(demoAt 3, demoInputs)]) = [] \<and>
     length (pq_queue demoQueued) = 1"
proof -
  have "\<not> pq_done demoQueued" "length [(demoAt 3, demoInputs)] = length (pq_queue demoQueued)"
    by (simp_all add: demoQueued_fields)
  moreover have "\<forall>item\<in>set (pq_queue demoQueued). \<forall>(now, inp)\<in>set [(demoAt 3, demoInputs)]. qi_enqueuedAt item + pq_coalesce demoQueued \<le> now"
    by (simp add: demoQueued_fields)
  ultimately show ?thesis
    using queue_progress [of demoQueued "[(demoAt 3, demoInputs)]" runtimeDecide reservation_Terminate RecordExternalDecision]
    unfolding demoQueued_fields(2) if_False by (simp only: simp_thms) (simp add: demoQueued_fields)
qed


end
