(* ===== verification/Shape.thy ===== *)
theory Shape
  imports Prelude
begin

text \<open>
  \<open>internal/domain/request/tps_shape.go\<close> and \<open>endpoint.go\<close>: one pass over the bytes of a request
  that finds out how many sequences the backend will decode and whether the response streams.
  A byte is a \<open>char\<close>. The scanner keeps an index into the body, the depth of nesting and whether
  the limit of the depth was hit; a method returns its result with the new state. The mutually
  recursive methods carry fuel, \<open>None\<close> being out of fuel; \<open>Shape_Total\<close> shows that the fuel
  \<open>ParseTPSRequestShape\<close> starts with is always enough.
\<close>

subsection \<open>Endpoints\<close>

datatype EndpointKind = EndpointUnknown | EndpointChatCompletions | EndpointCompletions | EndpointResponses

definition EndpointForPath :: "string \<Rightarrow> EndpointKind" where
  "EndpointForPath path =
     (if path = ''/v1/chat/completions'' then EndpointChatCompletions
      else if path = ''/v1/completions'' then EndpointCompletions
      else if path = ''/v1/responses'' then EndpointResponses
      else EndpointUnknown)"

subsection \<open>Data\<close>

abbreviation maximumJSONShapeScanDepth :: nat where "maximumJSONShapeScanDepth \<equiv> 128"

record TPSRequestShape =
  sh_BasePromptCount :: int
  sh_DecodeSequences :: int
  sh_Supported :: bool
  sh_UnsupportedReason :: string
  sh_StreamingPresent :: bool
  sh_StreamingKnown :: bool
  sh_Streaming :: bool

definition zeroShape :: TPSRequestShape where
  "zeroShape = \<lparr>sh_BasePromptCount = 0, sh_DecodeSequences = 0, sh_Supported = False,
     sh_UnsupportedReason = '''', sh_StreamingPresent = False, sh_StreamingKnown = False,
     sh_Streaming = False\<rparr>"

record jsonStringSpan =
  ss_raw :: string
  ss_escaped :: bool

record jsonShapeParser =
  jp_body :: string
  jp_index :: nat
  jp_depth :: nat
  jp_depthLimitExceeded :: bool

record fanoutFieldState =
  ff_seen :: bool
  ff_valid :: bool
  ff_null :: bool
  ff_value :: int

datatype promptElementKind = promptElementUnsupported | promptElementString | promptElementToken
  | promptElementTokenArray

subsection \<open>Bytes\<close>

definition byte :: "char \<Rightarrow> nat" where "byte c = of_char c"

definition isJSONSpace :: "char \<Rightarrow> bool" where
  "isJSONSpace v \<longleftrightarrow> v = CHR '' '' \<or> v = CHR 0x0A \<or> v = CHR 0x0D \<or> v = CHR 0x09"

definition isASCIIStringSpace :: "char \<Rightarrow> bool" where
  "isASCIIStringSpace v \<longleftrightarrow> isJSONSpace v \<or> v = CHR 0x0B \<or> v = CHR 0x0C"

definition isJSONDigit :: "char \<Rightarrow> bool" where
  "isJSONDigit v \<longleftrightarrow> 48 \<le> byte v \<and> byte v \<le> 57"

definition isJSONHex :: "char \<Rightarrow> bool" where
  "isJSONHex v \<longleftrightarrow> isJSONDigit v \<or> 97 \<le> byte v \<and> byte v \<le> 102 \<or> 65 \<le> byte v \<and> byte v \<le> 70"

definition jsonHexValue :: "char \<Rightarrow> nat option" where
  "jsonHexValue v =
     (if 48 \<le> byte v \<and> byte v \<le> 57 then Some (byte v - 48)
      else if 97 \<le> byte v \<and> byte v \<le> 102 then Some (byte v - 97 + 10)
      else if 65 \<le> byte v \<and> byte v \<le> 70 then Some (byte v - 65 + 10)
      else None)"

definition isJSONSimpleEscape :: "char \<Rightarrow> bool" where
  "isJSONSimpleEscape v \<longleftrightarrow> v \<in> {CHR 0x22, CHR 0x5C, CHR ''/'', CHR ''b'', CHR ''f'', CHR ''n'', CHR ''r'', CHR ''t''}"

definition bytesEqual :: "string \<Rightarrow> string \<Rightarrow> bool" where
  "bytesEqual value candidate \<longleftrightarrow>
     length value = length candidate \<and> list_all2 (\<lambda>a b. a = b) value candidate"

subsection \<open>The position\<close>

definition inside :: "jsonShapeParser \<Rightarrow> bool" where
  "inside p \<longleftrightarrow> jp_index p < length (jp_body p)"

definition current :: "jsonShapeParser \<Rightarrow> char" where
  "current p = jp_body p ! jp_index p"

definition adv :: "nat \<Rightarrow> jsonShapeParser \<Rightarrow> jsonShapeParser" where
  "adv n p = p\<lparr>jp_index := jp_index p + n\<rparr>"

text \<open>The loops that move over bytes of one kind.\<close>

function skipWhile :: "(char \<Rightarrow> bool) \<Rightarrow> jsonShapeParser \<Rightarrow> jsonShapeParser" where
  "skipWhile P p = (if inside p \<and> P (current p) then skipWhile P (adv 1 p) else p)"
  by pat_completeness auto
termination
  by (relation "measure (\<lambda>(P, p). length (jp_body p) - jp_index p)") (auto simp: inside_def adv_def)

declare skipWhile.simps [simp del]

definition skipSpace :: "jsonShapeParser \<Rightarrow> jsonShapeParser" where
  "skipSpace = skipWhile isJSONSpace"

definition skipDigits :: "jsonShapeParser \<Rightarrow> jsonShapeParser" where
  "skipDigits = skipWhile isJSONDigit"

definition consume :: "char \<Rightarrow> jsonShapeParser \<Rightarrow> bool \<times> jsonShapeParser" where
  "consume value p = (if \<not> inside p \<or> current p \<noteq> value then (False, p) else (True, adv 1 p))"

definition consumeLiteral :: "string \<Rightarrow> jsonShapeParser \<Rightarrow> bool \<times> jsonShapeParser" where
  "consumeLiteral value p =
     (if length (jp_body p) - jp_index p < length value then (False, p)
      else if list_all (\<lambda>offset. jp_body p ! (jp_index p + offset) = value ! offset) [0..<length value]
      then (True, adv (length value) p)
      else (False, p))"

definition enter :: "char \<Rightarrow> jsonShapeParser \<Rightarrow> bool \<times> jsonShapeParser" where
  "enter opening p =
     (if jp_depth p \<ge> maximumJSONShapeScanDepth then (False, p\<lparr>jp_depthLimitExceeded := True\<rparr>)
      else case consume opening p of
        (False, p1) \<Rightarrow> (False, p1)
      | (True, p1) \<Rightarrow> (True, p1\<lparr>jp_depth := jp_depth p1 + 1\<rparr>))"

definition leave :: "jsonShapeParser \<Rightarrow> jsonShapeParser" where
  "leave p = (if jp_depth p > 0 then p\<lparr>jp_depth := jp_depth p - 1\<rparr> else p)"

text \<open>The bytes between two positions.\<close>

definition slice :: "string \<Rightarrow> nat \<Rightarrow> nat \<Rightarrow> string" where
  "slice body i j = take (j - i) (drop i body)"

subsection \<open>Strings, numbers\<close>

text \<open>The loop of \<open>parseString\<close> from the position after the opening quote.\<close>

function stringLoop ::
  "nat \<Rightarrow> bool \<Rightarrow> jsonShapeParser \<Rightarrow> jsonStringSpan option \<times> jsonShapeParser" where
  "stringLoop rawStart escaped p =
     (if \<not> inside p then (None, p)
      else if current p = CHR 0x22 then
        (Some \<lparr>ss_raw = slice (jp_body p) rawStart (jp_index p), ss_escaped = escaped\<rparr>, adv 1 p)
      else if current p = CHR 0x5C then
        (let p1 = adv 1 p
         in if \<not> inside p1 then (None, p1)
            else if current p1 = CHR ''u'' then
              (if jp_index p1 + 4 \<ge> length (jp_body p1) then (None, p1)
               else if \<not> list_all (\<lambda>offset. isJSONHex (jp_body p1 ! (jp_index p1 + offset))) [1, 2, 3, 4]
               then (None, p1)
               else stringLoop rawStart True (adv 5 p1))
            else if \<not> isJSONSimpleEscape (current p1) then (None, p1)
            else stringLoop rawStart True (adv 1 p1))
      else if byte (current p) < 32 then (None, p)
      else stringLoop rawStart escaped (adv 1 p))"
  by pat_completeness auto
termination
  by (relation "measure (\<lambda>(s, e, p). length (jp_body p) - jp_index p)") (auto simp: inside_def adv_def)

declare stringLoop.simps [simp del]

definition parseString :: "jsonShapeParser \<Rightarrow> jsonStringSpan option \<times> jsonShapeParser" where
  "parseString p =
     (if \<not> inside p \<or> current p \<noteq> CHR 0x22 then (None, p)
      else stringLoop (jp_index p + 1) False (adv 1 p))"

text \<open>The three parts of a number, each failing or moving on.\<close>

definition numberInteger :: "jsonShapeParser \<Rightarrow> bool \<times> jsonShapeParser" where
  "numberInteger p =
     (case consume (CHR ''0'') p of
        (True, p1) \<Rightarrow> (\<not> (inside p1 \<and> isJSONDigit (current p1)), p1)
      | (False, p1) \<Rightarrow>
          if \<not> inside p1 \<or> byte (current p1) < 49 \<or> byte (current p1) > 57 then (False, p1)
          else (True, skipDigits p1))"

definition numberFraction :: "jsonShapeParser \<Rightarrow> bool \<times> jsonShapeParser" where
  "numberFraction p =
     (case consume (CHR ''.'') p of
        (False, p1) \<Rightarrow> (True, p1)
      | (True, p1) \<Rightarrow> if \<not> inside p1 \<or> \<not> isJSONDigit (current p1) then (False, p1)
                      else (True, skipDigits p1))"

definition numberExponent :: "jsonShapeParser \<Rightarrow> bool \<times> jsonShapeParser" where
  "numberExponent p =
     (if inside p \<and> (current p = CHR ''e'' \<or> current p = CHR ''E'') then
        (let p1 = adv 1 p;
             p2 = (if inside p1 \<and> (current p1 = CHR ''+'' \<or> current p1 = CHR ''-'') then adv 1 p1 else p1)
         in if \<not> inside p2 \<or> \<not> isJSONDigit (current p2) then (False, p2) else (True, skipDigits p2))
      else (True, p))"

definition parseNumber :: "jsonShapeParser \<Rightarrow> bool \<times> jsonShapeParser" where
  "parseNumber p =
     (case consume (CHR ''-'') p of (negative, p1) \<Rightarrow>
        if negative \<and> \<not> inside p1 then (False, p1)
        else case numberInteger p1 of
          (False, p2) \<Rightarrow> (False, p2)
        | (True, p2) \<Rightarrow> (case numberFraction p2 of
            (False, p3) \<Rightarrow> (False, p3)
          | (True, p3) \<Rightarrow> (case numberExponent p3 of
              (False, p4) \<Rightarrow> (False, p4)
            | (True, p4) \<Rightarrow> (jp_index p4 > jp_index p, p4))))"

subsection \<open>Values\<close>

text \<open>What follows an element of an array or object: its end, a comma and another, or an error.\<close>

datatype separator = Closed | Another | Broken

definition nextElement :: "char \<Rightarrow> jsonShapeParser \<Rightarrow> separator \<times> jsonShapeParser" where
  "nextElement closing p =
     (case consume closing (skipSpace p) of
        (True, p1) \<Rightarrow> (Closed, p1)
      | (False, p1) \<Rightarrow> (case consume (CHR '','') p1 of
          (False, p2) \<Rightarrow> (Broken, p2)
        | (True, p2) \<Rightarrow>
            let p3 = skipSpace p2
            in if \<not> inside p3 \<or> current p3 = closing then (Broken, p3) else (Another, p3)))"

definition leaveResult :: "(bool \<times> jsonShapeParser) option \<Rightarrow> (bool \<times> jsonShapeParser) option" where
  "leaveResult r = map_option (\<lambda>(ok, p). (ok, leave p)) r"

fun parseValue :: "nat \<Rightarrow> jsonShapeParser \<Rightarrow> (bool \<times> jsonShapeParser) option"
and parseObject :: "nat \<Rightarrow> jsonShapeParser \<Rightarrow> (bool \<times> jsonShapeParser) option"
and objectLoop :: "nat \<Rightarrow> jsonShapeParser \<Rightarrow> (bool \<times> jsonShapeParser) option"
and parseArray :: "nat \<Rightarrow> jsonShapeParser \<Rightarrow> (bool \<times> jsonShapeParser) option"
and arrayLoop :: "nat \<Rightarrow> jsonShapeParser \<Rightarrow> (bool \<times> jsonShapeParser) option" where
  "parseValue 0 p = None"
| "parseValue (Suc fuel) p0 =
     (let p = skipSpace p0 in
      if \<not> inside p then Some (False, p)
      else if current p = CHR ''{'' then parseObject fuel p
      else if current p = CHR ''['' then parseArray fuel p
      else if current p = CHR 0x22 then (case parseString p of (str, p1) \<Rightarrow> Some (str \<noteq> None, p1))
      else if current p = CHR ''t'' then Some (consumeLiteral ''true'' p)
      else if current p = CHR ''f'' then Some (consumeLiteral ''false'' p)
      else if current p = CHR ''n'' then Some (consumeLiteral ''null'' p)
      else Some (parseNumber p))"
| "parseObject 0 p = None"
| "parseObject (Suc fuel) p =
     (case enter (CHR ''{'') p of
        (False, p1) \<Rightarrow> Some (False, p1)
      | (True, p1) \<Rightarrow> leaveResult (case consume (CHR ''}'') (skipSpace p1) of
            (True, p2) \<Rightarrow> Some (True, p2)
          | (False, p2) \<Rightarrow> objectLoop fuel p2))"
| "objectLoop 0 p = None"
| "objectLoop (Suc fuel) p =
     (case parseString p of
        (None, p1) \<Rightarrow> Some (False, p1)
      | (Some str, p1) \<Rightarrow> (case consume (CHR '':'') (skipSpace p1) of
          (False, p2) \<Rightarrow> Some (False, p2)
        | (True, p2) \<Rightarrow> (case parseValue fuel p2 of
            None \<Rightarrow> None
          | Some (False, p3) \<Rightarrow> Some (False, p3)
          | Some (True, p3) \<Rightarrow> (case nextElement (CHR ''}'') p3 of
              (Closed, p4) \<Rightarrow> Some (True, p4)
            | (Another, p4) \<Rightarrow> objectLoop fuel p4
            | (Broken, p4) \<Rightarrow> Some (False, p4)))))"
| "parseArray 0 p = None"
| "parseArray (Suc fuel) p =
     (case enter (CHR ''['') p of
        (False, p1) \<Rightarrow> Some (False, p1)
      | (True, p1) \<Rightarrow> leaveResult (case consume (CHR '']'') (skipSpace p1) of
            (True, p2) \<Rightarrow> Some (True, p2)
          | (False, p2) \<Rightarrow> arrayLoop fuel p2))"
| "arrayLoop 0 p = None"
| "arrayLoop (Suc fuel) p =
     (case parseValue fuel p of
        None \<Rightarrow> None
      | Some (False, p1) \<Rightarrow> Some (False, p1)
      | Some (True, p1) \<Rightarrow> (case nextElement (CHR '']'') p1 of
          (Closed, p2) \<Rightarrow> Some (True, p2)
        | (Another, p2) \<Rightarrow> arrayLoop fuel p2
        | (Broken, p2) \<Rightarrow> Some (False, p2)))"

subsection \<open>Small integers and booleans\<close>

definition digitOf :: "char \<Rightarrow> int" where
  "digitOf v = int (byte v) - 48"

text \<open>One step of \<open>result = result*10 + digit\<close> with its guard against overflow.\<close>

definition accumulate :: "int \<Rightarrow> char \<Rightarrow> int option" where
  "accumulate result v =
     (if result > (MaxInt64 - digitOf v) div 10 then None else Some (result * 10 + digitOf v))"

definition parseNonnegativeInt64 :: "string \<Rightarrow> int option" where
  "parseNonnegativeInt64 value =
     (if value = [] then None
      else foldo (\<lambda>result v. if \<not> isJSONDigit v then None else accumulate result v) 0 value)"

definition parseJSONBoolean :: "string \<Rightarrow> bool option" where
  "parseJSONBoolean value =
     (if bytesEqual value ''true'' then Some True
      else if bytesEqual value ''false'' then Some False else None)"

subsection \<open>Escaped strings\<close>

text \<open>The value of an ASCII character of a string and the index after it.\<close>

definition nextEscapedJSONStringASCII :: "string \<Rightarrow> nat \<Rightarrow> (char \<times> nat) option" where
  "nextEscapedJSONStringASCII raw i =
     (if i \<ge> length raw then None
      else let value = raw ! i in
        if value \<noteq> CHR 0x5C then (if byte value < 128 then Some (value, i + 1) else None)
        else if i + 1 \<ge> length raw then None
        else let escape = raw ! (i + 1) in
          if escape \<in> {CHR 0x22, CHR 0x5C, CHR ''/''} then Some (escape, i + 2)
          else if escape = CHR ''b'' then Some (CHR 0x08, i + 2)
          else if escape = CHR ''f'' then Some (CHR 0x0C, i + 2)
          else if escape = CHR ''n'' then Some (CHR 0x0A, i + 2)
          else if escape = CHR ''r'' then Some (CHR 0x0D, i + 2)
          else if escape = CHR ''t'' then Some (CHR 0x09, i + 2)
          else if escape = CHR ''u'' then
            (if length raw - (i + 2) < 4 then None
             else case foldo (\<lambda>codeUnit offset. case jsonHexValue (raw ! (i + 2 + offset)) of
                         None \<Rightarrow> None | Some hex \<Rightarrow> Some ((codeUnit * 16) mod 65536 + hex)) 0 [0, 1, 2, 3] of
               None \<Rightarrow> None
             | Some codeUnit \<Rightarrow> if codeUnit > 127 then None else Some (char_of codeUnit, i + 6))
          else None)"

lemma nextEscaped_index:
  "nextEscapedJSONStringASCII raw i = Some (v, next) \<Longrightarrow> i < next \<and> i < length raw"
  by (auto simp: nextEscapedJSONStringASCII_def Let_def split: if_splits option.splits)

function escapedEqualsFrom :: "string \<Rightarrow> string \<Rightarrow> nat \<Rightarrow> nat \<Rightarrow> bool" where
  "escapedEqualsFrom raw candidate i candidateIndex =
     (if i \<ge> length raw then candidateIndex = length candidate
      else case nextEscapedJSONStringASCII raw i of
        None \<Rightarrow> False
      | Some (value, next) \<Rightarrow>
          if candidateIndex \<ge> length candidate \<or> candidate ! candidateIndex \<noteq> value then False
          else escapedEqualsFrom raw candidate next (candidateIndex + 1))"
  by pat_completeness auto
termination
  by (relation "measure (\<lambda>(raw, c, i, j). length raw - i)") (auto dest: nextEscaped_index)

declare escapedEqualsFrom.simps [simp del]

definition escapedJSONStringEqualsASCII :: "string \<Rightarrow> string \<Rightarrow> bool" where
  "escapedJSONStringEqualsASCII raw candidate = escapedEqualsFrom raw candidate 0 0"

definition jsonStringSpanEquals :: "jsonStringSpan \<Rightarrow> string \<Rightarrow> bool" where
  "jsonStringSpanEquals value candidate =
     (if ss_escaped value then escapedJSONStringEqualsASCII (ss_raw value) candidate
      else bytesEqual (ss_raw value) candidate)"

text \<open>A positive integer, also one written in a string with blanks around it.\<close>

function quotedDigits :: "string \<Rightarrow> nat \<Rightarrow> int \<Rightarrow> bool \<Rightarrow> bool \<Rightarrow> int option" where
  "quotedDigits raw i result digits trailingSpace =
     (if i \<ge> length raw then (if digits \<and> result > 0 then Some result else None)
      else case nextEscapedJSONStringASCII raw i of
        None \<Rightarrow> None
      | Some (v, next) \<Rightarrow>
          if isASCIIStringSpace v then quotedDigits raw next result digits digits
          else if trailingSpace \<or> \<not> isJSONDigit v then None
          else case accumulate result v of
            None \<Rightarrow> None
          | Some result' \<Rightarrow> quotedDigits raw next result' True trailingSpace)"
  by pat_completeness auto
termination
  by (relation "measure (\<lambda>(raw, i, r, d, t). length raw - i)") (auto dest: nextEscaped_index)

declare quotedDigits.simps [simp del]

definition parsePositiveInt64JSON :: "string \<Rightarrow> int option" where
  "parsePositiveInt64JSON value =
     (if value = [] then None
      else if hd value \<noteq> CHR 0x22 then
        (case parseNonnegativeInt64 value of
           None \<Rightarrow> None | Some result \<Rightarrow> if result > 0 then Some result else None)
      else if length value < 2 \<or> value ! (length value - 1) \<noteq> CHR 0x22 then None
      else quotedDigits (slice value 1 (length value - 1)) 0 0 False False)"

subsection \<open>Fan-out fields\<close>

definition updatePositiveFanout :: "fanoutFieldState \<Rightarrow> string \<Rightarrow> fanoutFieldState \<times> bool" where
  "updatePositiveFanout state value =
     (case parsePositiveInt64JSON value of
        None \<Rightarrow> (state\<lparr>ff_valid := False\<rparr>, False)
      | Some parsed \<Rightarrow>
          if ff_seen state \<and> ff_value state \<noteq> parsed then (state\<lparr>ff_valid := False\<rparr>, False)
          else (state\<lparr>ff_seen := True, ff_valid := True, ff_value := parsed\<rparr>, True))"

definition updateOptionalPositiveFanout :: "fanoutFieldState \<Rightarrow> string \<Rightarrow> fanoutFieldState \<times> bool" where
  "updateOptionalPositiveFanout state value =
     (if bytesEqual value ''null'' then
        (if ff_seen state \<and> \<not> ff_null state then (state\<lparr>ff_valid := False\<rparr>, False)
         else (state\<lparr>ff_seen := True, ff_valid := True, ff_null := True, ff_value := 1\<rparr>, True))
      else if ff_seen state \<and> ff_null state then (state\<lparr>ff_valid := False\<rparr>, False)
      else updatePositiveFanout state value)"

definition endpointUsesDecodeFanout :: "EndpointKind \<Rightarrow> bool" where
  "endpointUsesDecodeFanout endpoint \<longleftrightarrow>
     endpoint = EndpointChatCompletions \<or> endpoint = EndpointCompletions"

definition finalizeTPSRequestShape ::
  "TPSRequestShape \<Rightarrow> EndpointKind \<Rightarrow> fanoutFieldState \<Rightarrow> fanoutFieldState \<Rightarrow> TPSRequestShape" where
  "finalizeTPSRequestShape shape0 endpoint n bestOf =
     (let candidates = (if endpoint = EndpointCompletions \<and> ff_value bestOf > ff_value n
                        then ff_value bestOf else ff_value n);
          shape = (if \<not> ff_valid n \<or> \<not> ff_valid bestOf \<or> sh_BasePromptCount shape0 \<le> 0 \<or> candidates \<le> 0 \<or>
                      sh_BasePromptCount shape0 > MaxInt64 div candidates
                   then shape0\<lparr>sh_Supported := False\<rparr> else shape0)
      in if \<not> sh_Supported shape
         then shape\<lparr>sh_DecodeSequences := 0, sh_UnsupportedReason := ''unsupported_request_shape''\<rparr>
         else shape\<lparr>sh_DecodeSequences := wrap64 (sh_BasePromptCount shape * candidates)\<rparr>)"

subsection \<open>The prompt of a completion\<close>

text \<open>An array of tokens: whether it is supported, whether it is well formed.\<close>

fun tokenLoop :: "nat \<Rightarrow> bool \<Rightarrow> jsonShapeParser \<Rightarrow> (bool \<times> bool \<times> jsonShapeParser) option" where
  "tokenLoop 0 supported p = None"
| "tokenLoop (Suc fuel) supported p =
     (case parseValue fuel p of
        None \<Rightarrow> None
      | Some (False, p1) \<Rightarrow> Some (False, False, p1)
      | Some (True, p1) \<Rightarrow>
          let supported' = (supported \<and> parseNonnegativeInt64 (slice (jp_body p1) (jp_index p) (jp_index p1)) \<noteq> None)
          in case nextElement (CHR '']'') p1 of
               (Closed, p2) \<Rightarrow> Some (supported', True, p2)
             | (Another, p2) \<Rightarrow> tokenLoop fuel supported' p2
             | (Broken, p2) \<Rightarrow> Some (False, False, p2))"

definition parseTokenArray :: "nat \<Rightarrow> jsonShapeParser \<Rightarrow> (bool \<times> bool \<times> jsonShapeParser) option" where
  "parseTokenArray fuel p =
     (case enter (CHR ''['') p of
        (False, p1) \<Rightarrow> Some (False, False, p1)
      | (True, p1) \<Rightarrow> map_option (\<lambda>(supported, ok, p). (supported, ok, leave p))
          (case consume (CHR '']'') (skipSpace p1) of
             (True, p2) \<Rightarrow> Some (True, True, p2)
           | (False, p2) \<Rightarrow> tokenLoop fuel True p2))"

definition parsePromptElement ::
  "nat \<Rightarrow> jsonShapeParser \<Rightarrow> (promptElementKind \<times> bool \<times> jsonShapeParser) option" where
  "parsePromptElement fuel p0 =
     (let p = skipSpace p0 in
      if \<not> inside p then Some (promptElementUnsupported, False, p)
      else if current p = CHR 0x22 then
        (case parseString p of (str, p1) \<Rightarrow> Some (promptElementString, str \<noteq> None, p1))
      else if current p = CHR ''['' then
        (case parseTokenArray fuel p of
           None \<Rightarrow> None
         | Some (supported, ok, p1) \<Rightarrow>
             Some (if \<not> supported then promptElementUnsupported else promptElementTokenArray, ok, p1))
      else (case parseValue fuel p of
              None \<Rightarrow> None
            | Some (False, p1) \<Rightarrow> Some (promptElementUnsupported, False, p1)
            | Some (True, p1) \<Rightarrow>
                Some (if parseNonnegativeInt64 (slice (jp_body p1) (jp_index p) (jp_index p1)) \<noteq> None
                      then promptElementToken else promptElementUnsupported, True, p1)))"

text \<open>The result of a prompt: its count, whether it is supported, whether it is well formed.\<close>

fun promptLoop ::
  "nat \<Rightarrow> int \<Rightarrow> promptElementKind \<Rightarrow> bool \<Rightarrow> jsonShapeParser \<Rightarrow> (int \<times> bool \<times> bool \<times> jsonShapeParser) option" where
  "promptLoop 0 count kind supported p = None"
| "promptLoop (Suc fuel) count kind supported p =
     (case parsePromptElement fuel p of
        None \<Rightarrow> None
      | Some (elementKind, False, p1) \<Rightarrow> Some (0, False, False, p1)
      | Some (elementKind, True, p1) \<Rightarrow>
          if count = MaxInt64 then Some (0, False, True, p1)
          else
            let count' = count + 1;
                kind' = (if kind = promptElementUnsupported then elementKind else kind);
                supported' = (supported \<and> (kind = promptElementUnsupported \<or> kind = elementKind) \<and>
                              elementKind \<noteq> promptElementUnsupported)
            in case nextElement (CHR '']'') p1 of
                 (Closed, p2) \<Rightarrow>
                   Some (if kind' = promptElementString \<or> kind' = promptElementTokenArray
                         then (count', supported', True, p2)
                         else if kind' = promptElementToken then (1, supported', True, p2)
                         else (1, False, True, p2))
               | (Another, p2) \<Rightarrow> promptLoop fuel count' kind' supported' p2
               | (Broken, p2) \<Rightarrow> Some (0, False, False, p2))"

definition parseCompletionPrompt ::
  "nat \<Rightarrow> jsonShapeParser \<Rightarrow> (int \<times> bool \<times> bool \<times> jsonShapeParser) option" where
  "parseCompletionPrompt fuel p0 =
     (let p = skipSpace p0 in
      if \<not> inside p then Some (0, False, False, p)
      else if current p = CHR 0x22 then
        (case parseString p of (str, p1) \<Rightarrow> Some (1, str \<noteq> None, str \<noteq> None, p1))
      else if current p \<noteq> CHR ''['' then
        map_option (\<lambda>(ok, p1). (1, False, ok, p1)) (parseValue fuel p)
      else (case enter (CHR ''['') p of
              (False, p1) \<Rightarrow> Some (0, False, False, p1)
            | (True, p1) \<Rightarrow> map_option (\<lambda>(count, supported, ok, p). (count, supported, ok, leave p))
                (case consume (CHR '']'') (skipSpace p1) of
                   (True, p2) \<Rightarrow> Some (1, True, True, p2)
                 | (False, p2) \<Rightarrow> promptLoop fuel 0 promptElementUnsupported True p2)))"

subsection \<open>The request\<close>

definition updateStreaming :: "TPSRequestShape \<Rightarrow> string \<Rightarrow> TPSRequestShape" where
  "updateStreaming shape value =
     (let streaming = (parseJSONBoolean value = Some True); valid = (parseJSONBoolean value \<noteq> None)
      in if \<not> sh_StreamingPresent shape then
           shape\<lparr>sh_StreamingPresent := True, sh_StreamingKnown := valid, sh_Streaming := streaming\<rparr>
         else if \<not> valid \<or> \<not> sh_StreamingKnown shape \<or> sh_Streaming shape \<noteq> streaming then
           shape\<lparr>sh_StreamingKnown := False, sh_Streaming := False\<rparr>
         else shape)"

text \<open>What one field of the request changes: the shape and the two fan-out fields.\<close>

definition updateFields ::
  "EndpointKind \<Rightarrow> jsonStringSpan \<Rightarrow> string \<Rightarrow> TPSRequestShape \<times> fanoutFieldState \<times> fanoutFieldState \<Rightarrow>
   TPSRequestShape \<times> fanoutFieldState \<times> fanoutFieldState" where
  "updateFields endpoint key value = (\<lambda>(shape0, n0, bestOf0).
     (let (shape1, n) =
            (if endpointUsesDecodeFanout endpoint \<and> jsonStringSpanEquals key ''n''
             then (case updatePositiveFanout n0 value of
                     (n, ok) \<Rightarrow> (shape0\<lparr>sh_Supported := (ok \<and> sh_Supported shape0)\<rparr>, n))
             else (shape0, n0));
          (shape2, bestOf) =
            (if endpoint = EndpointCompletions \<and> jsonStringSpanEquals key ''best_of''
             then (case updateOptionalPositiveFanout bestOf0 value of
                     (b, ok) \<Rightarrow> (shape1\<lparr>sh_Supported := (ok \<and> sh_Supported shape1)\<rparr>, b))
             else (shape1, bestOf0));
          shape3 = (if jsonStringSpanEquals key ''stream'' then updateStreaming shape2 value else shape2)
      in (shape3, n, bestOf)))"

text \<open>The value of a field: the state of the parser and the shape it leaves.\<close>

definition parseField ::
  "nat \<Rightarrow> EndpointKind \<Rightarrow> jsonStringSpan \<Rightarrow> bool \<Rightarrow> TPSRequestShape \<Rightarrow> jsonShapeParser \<Rightarrow>
   (bool \<times> bool \<times> TPSRequestShape \<times> jsonShapeParser) option" where
  "parseField fuel endpoint key promptSeen shape p =
     (if endpoint = EndpointCompletions \<and> jsonStringSpanEquals key ''prompt'' then
        map_option (\<lambda>(basePromptCount, supported, ok, p1).
            (ok, True,
             (let shape1 = (if promptSeen \<or> \<not> supported then shape\<lparr>sh_Supported := False\<rparr> else shape)
              in if supported then shape1\<lparr>sh_BasePromptCount := basePromptCount\<rparr> else shape1), p1))
          (parseCompletionPrompt fuel p)
      else map_option (\<lambda>(ok, p1). (ok, promptSeen, shape, p1)) (parseValue fuel p))"

fun rootLoop ::
  "nat \<Rightarrow> EndpointKind \<Rightarrow> bool \<Rightarrow> TPSRequestShape \<times> fanoutFieldState \<times> fanoutFieldState \<Rightarrow> jsonShapeParser \<Rightarrow>
   (TPSRequestShape \<times> bool \<times> jsonShapeParser) option" where
  "rootLoop 0 endpoint promptSeen acc p = None"
| "rootLoop (Suc fuel) endpoint promptSeen acc p =
     (case parseString p of
        (None, p1) \<Rightarrow> Some (zeroShape, False, p1)
      | (Some key, p1) \<Rightarrow> (case consume (CHR '':'') (skipSpace p1) of
          (False, p2) \<Rightarrow> Some (zeroShape, False, p2)
        | (True, p2) \<Rightarrow>
            let p3 = skipSpace p2 in
            case acc of (shape, n, bestOf) \<Rightarrow>
            (case parseField fuel endpoint key promptSeen shape p3 of
               None \<Rightarrow> None
             | Some (False, seen, shape', p4) \<Rightarrow> Some (zeroShape, False, p4)
             | Some (True, seen, shape', p4) \<Rightarrow>
                 let value = slice (jp_body p4) (jp_index p3) (jp_index p4);
                     acc2 = updateFields endpoint key value (shape', n, bestOf)
                 in case nextElement (CHR ''}'') p4 of
                      (Closed, p5) \<Rightarrow>
                        (case acc2 of (shape, n, bestOf) \<Rightarrow>
                           Some (finalizeTPSRequestShape shape endpoint n bestOf, True, p5))
                    | (Another, p5) \<Rightarrow> rootLoop fuel endpoint seen acc2 p5
                    | (Broken, p5) \<Rightarrow> Some (zeroShape, False, p5))))"

definition initialFanout :: fanoutFieldState where
  "initialFanout = \<lparr>ff_seen = False, ff_valid = True, ff_null = False, ff_value = 1\<rparr>"

definition initialShape :: TPSRequestShape where
  "initialShape = zeroShape\<lparr>sh_BasePromptCount := 1, sh_DecodeSequences := 1, sh_Supported := True\<rparr>"

definition parseRootObject ::
  "nat \<Rightarrow> EndpointKind \<Rightarrow> jsonShapeParser \<Rightarrow> (TPSRequestShape \<times> bool \<times> jsonShapeParser) option" where
  "parseRootObject fuel endpoint p =
     (case enter (CHR ''{'') p of
        (False, p1) \<Rightarrow> Some (zeroShape, False, p1)
      | (True, p1) \<Rightarrow> map_option (\<lambda>(shape, ok, p). (shape, ok, leave p))
          (case consume (CHR ''}'') (skipSpace p1) of
             (True, p2) \<Rightarrow> Some (finalizeTPSRequestShape initialShape endpoint initialFanout initialFanout, True, p2)
           | (False, p2) \<Rightarrow> rootLoop fuel endpoint False (initialShape, initialFanout, initialFanout) p2))"

definition shapeFuel :: "string \<Rightarrow> nat" where
  "shapeFuel body = 3 * length body + 8"

definition ParseTPSRequestShape :: "string \<Rightarrow> EndpointKind \<Rightarrow> (TPSRequestShape \<times> bool) option" where
  "ParseTPSRequestShape body endpoint =
     (let p = skipSpace \<lparr>jp_body = body, jp_index = 0, jp_depth = 0, jp_depthLimitExceeded = False\<rparr> in
      if endpoint = EndpointUnknown \<or> \<not> inside p \<or> current p \<noteq> CHR ''{'' then Some (zeroShape, False)
      else case parseRootObject (shapeFuel body) endpoint p of
        None \<Rightarrow> None
      | Some (shape, ok, p1) \<Rightarrow>
          let p2 = skipSpace p1
          in if jp_depthLimitExceeded p2
             then Some (zeroShape\<lparr>sh_UnsupportedReason := ''shape_scan_limit''\<rparr>, False)
             else Some (shape, ok \<and> jp_index p2 = length body))"

end
