(* ===== verification/Shape_Total.thy ===== *)
theory Shape_Total
  imports Shape
begin

text \<open>
  The scanner always returns: every method moves forward only, and the fuel that
  \<open>ParseTPSRequestShape\<close> starts with pays for every call, three units for each byte left.
\<close>

definition rem :: "jsonShapeParser \<Rightarrow> nat" where
  "rem p = length (jp_body p) - jp_index p"

named_theorems moves \<open>how the methods of the scanner change the number of bytes left\<close>

lemma rem_adv [simp]: "rem (adv n p) = rem p - n"
  by (simp add: rem_def adv_def)

lemma rem_inside: "inside p \<longleftrightarrow> 0 < rem p"
  by (auto simp: rem_def inside_def)

lemma rem_leave [simp]: "rem (leave p) = rem p"
  by (simp add: rem_def leave_def)

lemma rem_depth [simp]: "rem (p\<lparr>jp_depth := d\<rparr>) = rem p" "rem (p\<lparr>jp_depthLimitExceeded := b\<rparr>) = rem p"
  by (simp_all add: rem_def)

lemma skipWhile_rem: "rem (skipWhile P p) \<le> rem p"
proof (induction P p rule: skipWhile.induct)
  case (1 P p)
  show ?case
    using 1 skipWhile.simps [of P p] by (cases "inside p \<and> P (current p)") (auto intro: order_trans)
qed

lemma skip_rem [moves]: "rem (skipSpace p) \<le> rem p" "rem (skipDigits p) \<le> rem p"
  by (simp_all add: skipSpace_def skipDigits_def skipWhile_rem)

lemma consume_rem [moves]:
  "consume v p = (True, q) \<Longrightarrow> rem q < rem p" "consume v p = (False, q) \<Longrightarrow> q = p"
  by (auto simp: consume_def rem_inside split: if_splits)

lemma consume_le: "consume v p = (b, q) \<Longrightarrow> rem q \<le> rem p"
  by (auto simp: consume_def split: if_splits)

lemma enter_rem [moves]:
  "enter v p = (True, q) \<Longrightarrow> rem q < rem p" "enter v p = (b, q) \<Longrightarrow> rem q \<le> rem p"
  using consume_rem consume_le by (auto simp: enter_def split: if_splits bool.splits prod.splits)

lemma stringLoop_rem: "stringLoop i e p = (r, q) \<Longrightarrow> rem q \<le> rem p \<and> (r \<noteq> None \<longrightarrow> rem q < rem p)"
proof (induction i e p arbitrary: r q rule: stringLoop.induct)
  case (1 i e p)
  have lt: "inside p \<Longrightarrow> rem (adv 1 p) < rem p" by (simp add: rem_inside)
  show ?case
    using 1 lt stringLoop.simps [of i e p]
    by (auto simp: Let_def split: if_splits) (fastforce simp: rem_inside)+
qed

lemma parseString_rem [moves]:
  "parseString p = (r, q) \<Longrightarrow> rem q \<le> rem p" "parseString p = (Some s, q) \<Longrightarrow> rem q + 1 < rem p"
  using stringLoop_rem [of _ _ "adv 1 p"] by (fastforce simp: parseString_def rem_inside split: if_splits)+

lemma consumeLiteral_rem [moves]: "consumeLiteral v p = (b, q) \<Longrightarrow> rem q \<le> rem p"
  by (auto simp: consumeLiteral_def split: if_splits)

lemma number_rem: "numberInteger p = (b, q) \<Longrightarrow> rem q \<le> rem p" "numberFraction p = (b, q) \<Longrightarrow> rem q \<le> rem p"
  "numberExponent p = (b, q) \<Longrightarrow> rem q \<le> rem p"
proof -
  show "numberInteger p = (b, q) \<Longrightarrow> rem q \<le> rem p"
    using consume_le skip_rem(2)
    by (auto simp: numberInteger_def split: if_splits bool.splits prod.splits) (meson order_trans consume_le skip_rem(2))+
  show "numberFraction p = (b, q) \<Longrightarrow> rem q \<le> rem p"
    using consume_le skip_rem(2)
    by (auto simp: numberFraction_def split: if_splits bool.splits prod.splits) (meson order_trans consume_le skip_rem(2))+
  show "numberExponent p = (b, q) \<Longrightarrow> rem q \<le> rem p"
    using skip_rem(2) [of "adv 1 p"] skip_rem(2) [of "adv 1 (adv 1 p)"]
    by (auto simp: numberExponent_def Let_def split: if_splits)
qed

lemma parseNumber_rem [moves]: "parseNumber p = (b, q) \<Longrightarrow> rem q \<le> rem p"
  by (auto simp: parseNumber_def split: if_splits bool.splits prod.splits
      dest!: consume_le number_rem intro: order_trans)

lemma nextElement_rem [moves]:
  "nextElement c p = (s, q) \<Longrightarrow> rem q \<le> rem p" "nextElement c p = (Another, q) \<Longrightarrow> rem q < rem p"
proof -
  obtain b1 p1 where 1: "consume c (skipSpace p) = (b1, p1)" by fastforce
  obtain b2 p2 where 2: "consume (CHR '','') p1 = (b2, p2)" by fastforce
  have le: "rem p1 \<le> rem p" "rem p2 \<le> rem p1" "b2 \<Longrightarrow> rem p2 < rem p1" "rem (skipSpace p2) \<le> rem p2"
    using consume_le [OF 1] consume_le [OF 2] consume_rem(1) [of "CHR '',''" p1 p2] 2 skip_rem(1) [of p] skip_rem(1) [of p2]
    by auto
  show "nextElement c p = (s, q) \<Longrightarrow> rem q \<le> rem p" "nextElement c p = (Another, q) \<Longrightarrow> rem q < rem p"
    using le by (auto simp: nextElement_def 1 2 Let_def split: if_splits bool.splits)
qed

text \<open>The same with the result as a condition.\<close>

lemma strict_rem:
  "enter v p = (b, q) \<Longrightarrow> b \<Longrightarrow> rem q < rem p"
  "nextElement c p = (x, q) \<Longrightarrow> x = Another \<Longrightarrow> rem q < rem p"
  "parseString p = (r, q) \<Longrightarrow> r \<noteq> None \<Longrightarrow> rem q + 1 < rem p"
  using enter_rem(1) nextElement_rem(2) parseString_rem(2) by auto

subsection \<open>Values\<close>

lemma leaveResult_Some: "leaveResult r = Some (b, q) \<longleftrightarrow> (\<exists>q0. r = Some (b, q0) \<and> q = leave q0)"
  by (auto simp: leaveResult_def)

lemma leaveResult_None [simp]: "leaveResult r = None \<longleftrightarrow> r = None"
  by (simp add: leaveResult_def)

lemma bind_elem: "rem q \<le> rem p \<Longrightarrow> rem r \<le> rem q \<Longrightarrow> rem r \<le> rem p" for p q r :: jsonShapeParser
  by simp

lemma value_rem:
  "parseValue k p = Some (b, q) \<Longrightarrow> rem q \<le> rem p"
  "parseObject k p = Some (b, q) \<Longrightarrow> rem q \<le> rem p"
  "objectLoop k p = Some (b, q) \<Longrightarrow> rem q \<le> rem p"
  "parseArray k p = Some (b, q) \<Longrightarrow> rem q \<le> rem p"
  "arrayLoop k p = Some (b, q) \<Longrightarrow> rem q \<le> rem p"
proof (induction k p and k p and k p and k p and k p arbitrary: b q and b q and b q and b q and b q
    rule: parseValue_parseObject_objectLoop_parseArray_arrayLoop.induct)
  case (2 fuel p0)
  obtain r p1 where s: "parseString (skipSpace p0) = (r, p1)" by fastforce
  show ?case
    using 2 skip_rem(1) [of p0] parseString_rem(1) [OF s] parseNumber_rem consumeLiteral_rem
    by (auto simp: Let_def s split: if_splits) (meson order_trans)+
next
  case (4 fuel p)
  obtain b1 p1 where e: "enter (CHR ''{'') p = (b1, p1)" by fastforce
  obtain b2 p2 where c: "consume (CHR ''}'') (skipSpace p1) = (b2, p2)" by fastforce
  have "rem p1 \<le> rem p" "rem p2 \<le> rem p1"
    using enter_rem(2) [OF e] consume_le [OF c] skip_rem(1) [of p1] by auto
  with 4(1) [OF e [symmetric] _ c [symmetric]] 4(2) show ?case
    by (cases b1; cases b2) (auto simp: e c leaveResult_Some intro: order_trans)
next
  case (6 fuel p)
  obtain r p1 where s: "parseString p = (r, p1)" by fastforce
  obtain b2 p2 where c: "consume (CHR '':'') (skipSpace p1) = (b2, p2)" by fastforce
  have le: "rem p1 \<le> rem p" "rem p2 \<le> rem p1"
    using parseString_rem(1) [OF s] consume_le [OF c] skip_rem(1) [of p1] by auto
  show ?case
  proof (cases "r = None \<or> \<not> b2 \<or> parseValue fuel p2 = None")
    case True
    with 6(3) le show ?thesis by (auto simp: s c split: option.splits bool.splits)
  next
    case False
    then obtain st b3 p3 where f: "r = Some st" "b2" "parseValue fuel p2 = Some (b3, p3)" by auto
    have 3: "rem p3 \<le> rem p2" using 6(1) [OF s [symmetric, unfolded f(1)] refl] c f by auto
    obtain x p4 where n: "nextElement (CHR ''}'') p3 = (x, p4)" by fastforce
    have le4: "rem p4 \<le> rem p" using le 3 nextElement_rem(1) [OF n] by simp
    have step: "objectLoop (Suc fuel) p = (if b3 then (case x of Closed \<Rightarrow> Some (True, p4)
        | Another \<Rightarrow> objectLoop fuel p4 | Broken \<Rightarrow> Some (False, p4)) else Some (False, p3))"
      using f by (simp add: s c n split: separator.split bool.split)
    have IH: "objectLoop fuel p4 = Some (b, q) \<Longrightarrow> b3 \<Longrightarrow> x = Another \<Longrightarrow> rem q \<le> rem p4"
      using 6(2) [OF s [symmetric, unfolded f(1)] refl] c f n by simp
    show ?thesis
    proof (cases "b3 \<and> x = Another")
      case True
      with 6(3) step IH le4 show ?thesis by simp
    next
      case False
      with 6(3) have "q = p3 \<or> q = p4" unfolding step by (cases b3; cases x) simp_all
      with le 3 le4 show ?thesis by auto
    qed
  qed
next
  case (8 fuel p)
  obtain b1 p1 where e: "enter (CHR ''['') p = (b1, p1)" by fastforce
  obtain b2 p2 where c: "consume (CHR '']'') (skipSpace p1) = (b2, p2)" by fastforce
  have "rem p1 \<le> rem p" "rem p2 \<le> rem p1"
    using enter_rem(2) [OF e] consume_le [OF c] skip_rem(1) [of p1] by auto
  with 8(1) [OF e [symmetric] _ c [symmetric]] 8(2) show ?case
    by (cases b1; cases b2) (auto simp: e c leaveResult_Some intro: order_trans)
next
  case (10 fuel p)
  show ?case
  proof (cases "parseValue fuel p")
    case (Some y)
    then obtain b1 p1 where v: "parseValue fuel p = Some (b1, p1)" by (cases y) auto
    obtain x p2 where n: "nextElement (CHR '']'') p1 = (x, p2)" by fastforce
    have le: "rem p2 \<le> rem p" using 10(1) [OF v] nextElement_rem(1) [OF n] by simp
    have step: "arrayLoop (Suc fuel) p = (if b1 then (case x of Closed \<Rightarrow> Some (True, p2)
        | Another \<Rightarrow> arrayLoop fuel p2 | Broken \<Rightarrow> Some (False, p2)) else Some (False, p1))"
      by (simp add: v n split: separator.split bool.split)
    have IH: "arrayLoop fuel p2 = Some (b, q) \<Longrightarrow> b1 \<Longrightarrow> x = Another \<Longrightarrow> rem q \<le> rem p2"
      using 10(2) [OF v refl] n by simp
    show ?thesis
    proof (cases "b1 \<and> x = Another")
      case True
      with 10(3) step IH le show ?thesis by simp
    next
      case False
      with 10(3) have "q = p1 \<or> q = p2" unfolding step by (cases b1; cases x) simp_all
      with 10(1) [OF v] le show ?thesis by auto
    qed
  qed (use 10 in simp)
qed auto

subsection \<open>Enough fuel\<close>

lemma loop_next:
  assumes "parseValue k p = Some (b, p1)" "nextElement c p1 = (x, p2)"
  shows "rem p2 \<le> rem p" "x = Another \<Longrightarrow> rem p2 < rem p"
  using value_rem(1) [OF assms(1)] nextElement_rem(1) [OF assms(2)] nextElement_rem(2) [of c p1 p2] assms(2) by auto

lemma value_total:
  "3 * rem p + 2 \<le> k \<Longrightarrow> parseValue k p \<noteq> None"
  "3 * rem p + 1 \<le> k \<Longrightarrow> parseObject k p \<noteq> None"
  "3 * rem p + 3 \<le> k \<Longrightarrow> objectLoop k p \<noteq> None"
  "3 * rem p + 1 \<le> k \<Longrightarrow> parseArray k p \<noteq> None"
  "3 * rem p + 3 \<le> k \<Longrightarrow> arrayLoop k p \<noteq> None"
proof (induction k p and k p and k p and k p and k p
    rule: parseValue_parseObject_objectLoop_parseArray_arrayLoop.induct)
  case (2 fuel p0)
  then show ?case using skip_rem(1) [of p0] by (simp add: Let_def split: prod.split del: not_None_eq)
next
  case (4 fuel p)
  obtain b1 p1 where e: "enter (CHR ''{'') p = (b1, p1)" by fastforce
  obtain b2 p2 where c: "consume (CHR ''}'') (skipSpace p1) = (b2, p2)" by fastforce
  have "b1 \<Longrightarrow> rem p1 < rem p" "rem p2 \<le> rem p1"
    using enter_rem(1) [of _ p p1] e consume_le [OF c] skip_rem(1) [of p1] by auto
  with 4(1) [OF e [symmetric] _ c [symmetric]] 4(2) show ?case
    by (cases b1; cases b2) (simp_all add: e c del: not_None_eq)
next
  case (6 fuel p)
  obtain r p1 where s: "parseString p = (r, p1)" by fastforce
  obtain b2 p2 where c: "consume (CHR '':'') (skipSpace p1) = (b2, p2)" by fastforce
  have le: "r \<noteq> None \<Longrightarrow> rem p1 + 1 < rem p" "rem p2 \<le> rem p1"
    using parseString_rem(2) [of p _ p1] s consume_le [OF c] skip_rem(1) [of p1] by auto
  show ?case
  proof (cases "r = None \<or> \<not> b2")
    case True
    then show ?thesis by (auto simp: s c split: option.splits bool.splits)
  next
    case False
    then obtain st where f: "r = Some st" "b2" by auto
    have "parseValue fuel p2 \<noteq> None"
      using 6(1) [OF s [symmetric, unfolded f(1)] refl c [symmetric, unfolded f(2)]] 6(3) le f by simp
    then obtain b3 p3 where v: "parseValue fuel p2 = Some (b3, p3)" by auto
    obtain x p4 where n: "nextElement (CHR ''}'') p3 = (x, p4)" by fastforce
    have IH: "b3 \<Longrightarrow> x = Another \<Longrightarrow> objectLoop fuel p4 \<noteq> None"
      using 6(2) [OF s [symmetric, unfolded f(1)] refl] c f n v 6(3) le loop_next(2) [OF v n] by simp
    then show ?thesis using f v by (cases b3; cases x) (simp_all add: s c n)
  qed
next
  case (8 fuel p)
  obtain b1 p1 where e: "enter (CHR ''['') p = (b1, p1)" by fastforce
  obtain b2 p2 where c: "consume (CHR '']'') (skipSpace p1) = (b2, p2)" by fastforce
  have "b1 \<Longrightarrow> rem p1 < rem p" "rem p2 \<le> rem p1"
    using enter_rem(1) [of _ p p1] e consume_le [OF c] skip_rem(1) [of p1] by auto
  with 8(1) [OF e [symmetric] _ c [symmetric]] 8(2) show ?case
    by (cases b1; cases b2) (simp_all add: e c del: not_None_eq)
next
  case (10 fuel p)
  have "parseValue fuel p \<noteq> None" using 10(1,3) by simp
  then obtain b1 p1 where v: "parseValue fuel p = Some (b1, p1)" by auto
  obtain x p2 where n: "nextElement (CHR '']'') p1 = (x, p2)" by fastforce
  have "b1 \<Longrightarrow> x = Another \<Longrightarrow> arrayLoop fuel p2 \<noteq> None"
    using 10(2) [OF v refl] n 10(3) loop_next(2) [OF v n] by simp
  then show ?case using v by (cases b1; cases x) (simp_all add: n)
qed simp_all

subsection \<open>Prompts\<close>

text \<open>
  Scanning an array of tokens is scanning an array: only what is said about the elements differs.
\<close>

lemma tokenLoop_array: "map_option snd (tokenLoop k s p) = arrayLoop k p"
  by (induction k s p rule: tokenLoop.induct)
     (auto simp: Let_def split: option.splits prod.splits bool.splits separator.splits)

lemma parseTokenArray_array: "map_option snd (parseTokenArray k p) = parseArray (Suc k) p"
  by (auto simp: parseTokenArray_def leaveResult_def tokenLoop_array [of k True, symmetric] option.map_comp comp_def case_prod_unfold
      split: prod.splits bool.splits)

lemma parseTokenArray_Some:
  "parseTokenArray k p = Some (s, b, q) \<Longrightarrow> parseArray (Suc k) p = Some (b, q)"
  by (metis parseTokenArray_array option.simps(9) snd_conv)

lemma parseTokenArray_None: "parseTokenArray k p = None \<longleftrightarrow> parseArray (Suc k) p = None"
  by (metis parseTokenArray_array option.map_disc_iff)

lemma promptElement_rem:
  assumes "parsePromptElement k p = Some (e, b, q)"
  shows "rem q \<le> rem p"
proof -
  obtain r p1 where s: "parseString (skipSpace p) = (r, p1)" by fastforce
  show ?thesis
    using assms skip_rem(1) [of p] parseString_rem(1) [OF s] value_rem(1) value_rem(4) [OF parseTokenArray_Some]
    by (auto simp: parsePromptElement_def Let_def s split: if_splits option.splits bool.splits) (meson order_trans)+
qed

lemma promptElement_total:
  assumes "3 * rem p + 2 \<le> k"
  shows "parsePromptElement k p \<noteq> None"
proof -
  have "rem (skipSpace p) \<le> rem p" by (rule skip_rem)
  with assms have "parseValue k (skipSpace p) \<noteq> None" "parseTokenArray k (skipSpace p) \<noteq> None"
    unfolding parseTokenArray_None by (simp_all add: value_total(1) value_total(4) del: not_None_eq parseArray.simps)
  then show ?thesis
    by (auto simp: parsePromptElement_def Let_def split: prod.split bool.split)
qed

lemma promptLoop_total: "3 * rem p + 3 \<le> k \<Longrightarrow> promptLoop k count kind s p \<noteq> None"
proof (induction k count kind s p rule: promptLoop.induct)
  case (2 fuel count kind s p)
  obtain e b p1 where v: "parsePromptElement fuel p = Some (e, b, p1)"
    using promptElement_total [of p fuel] 2(2) by fastforce
  obtain x p2 where n: "nextElement (CHR '']'') p1 = (x, p2)" by fastforce
  have le: "x = Another \<Longrightarrow> rem p2 < rem p"
    using promptElement_rem [OF v] strict_rem(2) [OF n] by auto
  show ?case
  proof (cases "b \<and> count \<noteq> MaxInt64 \<and> x = Another")
    case True
    then show ?thesis
      using 2(1) [OF v refl refl _ _ refl refl refl n [symmetric]] le 2(2) True
      by (simp add: v n Let_def del: not_None_eq)
  next
    case False
    then show ?thesis by (cases b; cases x) (auto simp: v n Let_def)
  qed
qed simp

lemma parseCompletionPrompt_total: "3 * rem p + 2 \<le> k \<Longrightarrow> parseCompletionPrompt k p \<noteq> None"
proof -
  assume k: "3 * rem p + 2 \<le> k"
  let ?p = "skipSpace p"
  obtain b1 p1 where e: "enter (CHR ''['') ?p = (b1, p1)" by fastforce
  obtain b2 p2 where c: "consume (CHR '']'') (skipSpace p1) = (b2, p2)" by fastforce
  have "b1 \<Longrightarrow> 3 * rem p2 + 3 \<le> k"
    using k strict_rem(1) [OF e] consume_le [OF c] skip_rem(1) [of p1] skip_rem(1) [of p] by auto
  then show ?thesis
    using value_total(1) [of ?p k] k skip_rem(1) [of p] promptLoop_total [of p2 k]
    by (auto simp: parseCompletionPrompt_def Let_def e c split: prod.split bool.split)
qed

lemma promptLoop_rem: "promptLoop k count kind s p = Some (n, s', b, q) \<Longrightarrow> rem q \<le> rem p"
proof (induction k count kind s p rule: promptLoop.induct)
  case (2 fuel count kind s p)
  show ?case
  proof (cases "parsePromptElement fuel p")
    case (Some y)
    then obtain e c p1 where v: "parsePromptElement fuel p = Some (e, c, p1)" by (cases y) auto
    obtain x p2 where nx: "nextElement (CHR '']'') p1 = (x, p2)" by fastforce
    have le: "rem p1 \<le> rem p" "rem p2 \<le> rem p1"
      using promptElement_rem [OF v] nextElement_rem(1) [OF nx] by auto
    show ?thesis
    proof (cases "c \<and> count \<noteq> MaxInt64 \<and> x = Another")
      case True
      then show ?thesis
        using 2(1) [OF v refl refl _ _ refl refl refl nx [symmetric]] le 2(2) True
        by (simp add: v nx Let_def)
    next
      case False
      then show ?thesis using 2(2) le by (cases c; cases x) (auto simp: v nx Let_def split: if_splits)
    qed
  qed (use 2 in simp)
qed simp

lemma parseCompletionPrompt_rem: "parseCompletionPrompt k p = Some (n, s, b, q) \<Longrightarrow> rem q \<le> rem p"
proof -
  assume a: "parseCompletionPrompt k p = Some (n, s, b, q)"
  let ?p = "skipSpace p"
  obtain r p0 where st: "parseString ?p = (r, p0)" by fastforce
  obtain b1 p1 where e: "enter (CHR ''['') ?p = (b1, p1)" by fastforce
  obtain b2 p2 where c: "consume (CHR '']'') (skipSpace p1) = (b2, p2)" by fastforce
  have "rem p1 \<le> rem ?p" "rem p2 \<le> rem p1" "rem ?p \<le> rem p" "rem p0 \<le> rem ?p"
    using enter_rem(2) [OF e] consume_le [OF c] skip_rem(1) [of p1] skip_rem(1) [of p] parseString_rem(1) [OF st] by auto
  then show ?thesis
    using a value_rem(1) [of k ?p b q] promptLoop_rem [of k 0 promptElementUnsupported True p2 n s b]
    by (auto simp: parseCompletionPrompt_def Let_def e c st split: if_splits bool.splits)
qed

subsection \<open>The request\<close>

lemma parseField_rem: "parseField k ep key seen sh p = Some (b, seen', sh', q) \<Longrightarrow> rem q \<le> rem p"
  using value_rem(1) parseCompletionPrompt_rem by (auto simp: parseField_def split: if_splits)

lemma parseField_total: "3 * rem p + 2 \<le> k \<Longrightarrow> parseField k ep key seen sh p \<noteq> None"
  using value_total(1) [of p k] parseCompletionPrompt_total [of p k] by (simp add: parseField_def del: not_None_eq)

lemma rootLoop_total: "3 * rem p + 3 \<le> k \<Longrightarrow> rootLoop k ep seen acc p \<noteq> None"
proof (induction k ep seen acc p rule: rootLoop.induct)
  case (2 fuel ep seen acc p)
  obtain r p1 where s: "parseString p = (r, p1)" by fastforce
  obtain b2 p2 where c: "consume (CHR '':'') (skipSpace p1) = (b2, p2)" by fastforce
  obtain sh n bo where acc: "acc = (sh, n, bo)" by (metis prod.exhaust)
  show ?case
  proof (cases "r = None \<or> \<not> b2")
    case True
    then show ?thesis by (auto simp: s c split: option.splits bool.splits)
  next
    case False
    then obtain st where f: "r = Some st" "b2" by auto
    let ?p3 = "skipSpace p2"
    have le: "rem ?p3 + 1 < rem p"
      using parseString_rem(2) [of p st p1] s f consume_le [OF c] skip_rem(1) [of p1] skip_rem(1) [of p2] by auto
    then obtain b3 seen' sh' p4 where v: "parseField fuel ep st seen sh ?p3 = Some (b3, seen', sh', p4)"
      using parseField_total [of ?p3 fuel ep st seen sh] 2(2) by fastforce
    obtain x p5 where nx: "nextElement (CHR ''}'') p4 = (x, p5)" by fastforce
    show ?thesis
    proof (cases "b3 \<and> x = Another")
      case True
      have "rem p5 < rem p"
        using parseField_rem [OF v] nextElement_rem(1) [OF nx] le by simp
      with True show ?thesis
        using 2 f v by (simp add: s c acc nx Let_def del: not_None_eq)
    next
      case False
      then show ?thesis using v f by (cases b3; cases x) (auto simp: s c acc nx Let_def split: prod.split)
    qed
  qed
qed simp

lemma ParseTPSRequestShape_total: "ParseTPSRequestShape body ep \<noteq> None"
proof -
  let ?p = "skipSpace \<lparr>jp_body = body, jp_index = 0, jp_depth = 0, jp_depthLimitExceeded = False\<rparr>"
  obtain b1 p1 where e: "enter (CHR ''{'') ?p = (b1, p1)" by fastforce
  obtain b2 p2 where c: "consume (CHR ''}'') (skipSpace p1) = (b2, p2)" by fastforce
  have "rem ?p \<le> length body"
    by (rule order_trans [OF skip_rem(1)]) (simp add: rem_def)
  then have "3 * rem p2 + 3 \<le> shapeFuel body"
    using enter_rem(2) [OF e] consume_le [OF c] skip_rem(1) [of p1] by (simp add: shapeFuel_def)
  from rootLoop_total [OF this, of ep False "(initialShape, initialFanout, initialFanout)"] show ?thesis
    by (auto simp: ParseTPSRequestShape_def parseRootObject_def Let_def e c split: prod.split bool.split option.split)
qed

end
