(* ===== verification/Shape_Grammar.thy ===== *)
theory Shape_Grammar
  imports Shape_Total
begin

text \<open>
  The JSON grammar, written without any reference to the scanner, and the scanner's lexical
  methods against it. \<open>moves p s q\<close> says that going from \<open>p\<close> to \<open>q\<close> reads exactly the text \<open>s\<close> and
  changes nothing but the position.
\<close>

subsection \<open>The text that is left\<close>

definition rest :: "jsonShapeParser \<Rightarrow> string" where
  "rest p = drop (jp_index p) (jp_body p)"

definition moves :: "jsonShapeParser \<Rightarrow> string \<Rightarrow> jsonShapeParser \<Rightarrow> bool" where
  "moves p s q \<longleftrightarrow> (\<exists>t. rest p = s @ t) \<and> q = adv (length s) p"

lemma adv_0 [simp]: "adv 0 p = p"
  by (simp add: adv_def)

lemma adv_adv [simp]: "adv m (adv n p) = adv (n + m) p"
  by (simp add: adv_def add.assoc)

lemma adv_fields [simp]: "jp_body (adv n p) = jp_body p" "jp_depth (adv n p) = jp_depth p"
  "jp_depthLimitExceeded (adv n p) = jp_depthLimitExceeded p" "jp_index (adv n p) = jp_index p + n"
  by (simp_all add: adv_def)

lemma rest_adv [simp]: "rest (adv n p) = drop n (rest p)"
  by (simp add: rest_def add.commute)

lemma rest_depth [simp]: "rest (p\<lparr>jp_depth := d\<rparr>) = rest p" "rest (leave p) = rest p"
  by (simp_all add: rest_def leave_def)

lemma inside_rest: "inside p \<longleftrightarrow> rest p \<noteq> []"
  by (auto simp: inside_def rest_def)

lemma current_rest: "rest p \<noteq> [] \<Longrightarrow> current p = hd (rest p)"
  by (simp add: current_def rest_def hd_drop_conv_nth)

lemma current_Cons: "rest p = c # r \<Longrightarrow> current p = c"
  by (simp add: current_rest)

lemma body_rest: "jp_index p + i < length (jp_body p) \<Longrightarrow> jp_body p ! (jp_index p + i) = rest p ! i"
  by (simp add: rest_def)

lemma length_rest: "length (rest p) = length (jp_body p) - jp_index p"
  by (simp add: rest_def)

lemma moves_Nil [simp]: "moves p [] p"
  by (simp add: moves_def)

lemma movesI: "rest p = s @ t \<Longrightarrow> moves p s (adv (length s) p)"
  by (simp add: moves_def)

lemma moves_trans: "moves p s q \<Longrightarrow> moves q t r \<Longrightarrow> moves p (s @ t) r"
  by (auto simp: moves_def)

lemma moves_Cons: "rest p = c # t \<Longrightarrow> moves (adv 1 p) s q \<Longrightarrow> moves p (c # s) q"
  by (auto simp: moves_def)

lemma moves_depth: "moves p s q \<Longrightarrow> jp_depth q = jp_depth p"
  by (simp add: moves_def)

lemma moves_rest: "moves p s q \<Longrightarrow> rest p = s @ rest q"
  by (auto simp: moves_def)

lemma skipWhile_rest: "skipWhile P p = adv (length (takeWhile P (rest p))) p"
proof (induction P p rule: skipWhile.induct)
  case (1 P p)
  show ?case
  proof (cases "rest p")
    case Nil
    then show ?thesis using skipWhile.simps [of P p] by (simp add: inside_rest)
  next
    case (Cons c r)
    then have "inside p" "current p = c" by (simp_all add: inside_rest current_Cons)
    with 1 Cons show ?thesis by (subst skipWhile.simps) simp
  qed
qed

definition ws :: "string \<Rightarrow> bool" where
  "ws w \<longleftrightarrow> list_all isJSONSpace w"

lemma ws_simps [simp]: "ws []" "ws (a @ b) \<longleftrightarrow> ws a \<and> ws b" "ws (c # w) \<longleftrightarrow> isJSONSpace c \<and> ws w"
  by (simp_all add: ws_def)

lemma skipSpace_moves: "\<exists>w. ws w \<and> moves p w (skipSpace p)"
proof -
  have "ws (takeWhile isJSONSpace (rest p))" by (auto simp: ws_def list_all_iff dest: set_takeWhileD)
  moreover have "moves p (takeWhile isJSONSpace (rest p)) (skipSpace p)"
    by (auto simp: skipSpace_def skipWhile_rest moves_def intro: exI [of _ "dropWhile isJSONSpace (rest p)"])
  ultimately show ?thesis by blast
qed

text \<open>A text that does not begin with a blank.\<close>

definition solid :: "string \<Rightarrow> bool" where
  "solid s \<longleftrightarrow> s = [] \<or> \<not> isJSONSpace (hd s)"

lemma takeWhile_solid: "list_all P w \<Longrightarrow> s = [] \<or> \<not> P (hd s) \<Longrightarrow> takeWhile P (w @ s) = w"
  by (cases s) (auto simp: list_all_iff)

lemma skipSpace_solid: "rest p = w @ s \<Longrightarrow> ws w \<Longrightarrow> solid s \<Longrightarrow> skipSpace p = adv (length w) p"
  by (simp add: skipSpace_def skipWhile_rest takeWhile_solid ws_def solid_def)

lemma skipSpace_idle: "solid (rest p) \<Longrightarrow> skipSpace p = p"
  using skipSpace_solid [of p "[]" "rest p"] by simp

lemma skipSpace_idem [simp]: "skipSpace (skipSpace p) = skipSpace p"
proof (rule skipSpace_idle)
  show "solid (rest (skipSpace p))"
    using hd_dropWhile [of isJSONSpace "rest p"]
    by (auto simp: skipSpace_def skipWhile_rest dropWhile_eq_drop [symmetric] solid_def)
qed

lemma consume_rest:
  "consume v p = (case rest p of [] \<Rightarrow> (False, p) | c # r \<Rightarrow> if c = v then (True, adv 1 p) else (False, p))"
  by (auto simp: consume_def inside_rest current_rest split: list.split)

lemma consume_True: "consume v p = (True, q) \<Longrightarrow> moves p [v] q"
  by (auto simp: consume_rest moves_def split: list.splits if_splits)

lemma consume_here: "rest p = v # r \<Longrightarrow> consume v p = (True, adv 1 p)"
  by (simp add: consume_rest)

lemma consume_not: "rest p = [] \<or> hd (rest p) \<noteq> v \<Longrightarrow> consume v p = (False, p)"
  by (auto simp: consume_rest split: list.split)

lemma consumeLiteral_rest:
  "consumeLiteral v p = (if take (length v) (rest p) = v then (True, adv (length v) p) else (False, p))"
proof (cases "length (rest p) < length v")
  case True
  have "take (length v) (rest p) \<noteq> v"
  proof
    assume e: "take (length v) (rest p) = v"
    have "length v = length (take (length v) (rest p))" by (simp only: e)
    with True show False by simp
  qed
  with True show ?thesis by (simp add: consumeLiteral_def length_rest)
next
  case False
  then have "jp_body p ! (jp_index p + i) = rest p ! i" if "i < length v" for i
    using that by (intro body_rest) (simp add: length_rest)
  then have "list_all (\<lambda>offset. jp_body p ! (jp_index p + offset) = v ! offset) [0..<length v] \<longleftrightarrow>
      (\<forall>i<length v. rest p ! i = v ! i)"
    by (auto simp: list_all_iff)
  moreover have "take (length v) (rest p) = v \<longleftrightarrow> (\<forall>i<length v. rest p ! i = v ! i)"
    using False by (auto simp: list_eq_iff_nth_eq)
  ultimately show ?thesis using False by (simp add: consumeLiteral_def length_rest)
qed

lemma literal_moves:
  assumes "consumeLiteral v p = (True, q)"
  shows "moves p v q"
proof -
  have v: "take (length v) (rest p) = v" and q: "q = adv (length v) p"
    using assms by (auto simp: consumeLiteral_rest split: if_splits)
  have "rest p = v @ drop (length v) (rest p)" by (subst (1) v [symmetric]) simp
  with q show ?thesis by (auto simp: moves_def)
qed

lemma literal_here: "rest p = v @ t \<Longrightarrow> consumeLiteral v p = (True, adv (length v) p)"
  by (simp add: consumeLiteral_rest)

subsection \<open>Strings\<close>

inductive jchars :: "string \<Rightarrow> bool" where
  jchars_end: "jchars []"
| jchars_plain: "32 \<le> byte c \<Longrightarrow> c \<noteq> CHR 0x22 \<Longrightarrow> c \<noteq> CHR 0x5C \<Longrightarrow> jchars s \<Longrightarrow> jchars (c # s)"
| jchars_simple: "isJSONSimpleEscape e \<Longrightarrow> jchars s \<Longrightarrow> jchars (CHR 0x5C # e # s)"
| jchars_unicode: "isJSONHex a \<Longrightarrow> isJSONHex b \<Longrightarrow> isJSONHex c \<Longrightarrow> isJSONHex d \<Longrightarrow> jchars s \<Longrightarrow>
     jchars (CHR 0x5C # CHR ''u'' # a # b # c # d # s)"

definition jstring :: "string \<Rightarrow> bool" where
  "jstring s \<longleftrightarrow> (\<exists>t. s = CHR 0x22 # t @ [CHR 0x22] \<and> jchars t)"

lemma hex_test:
  assumes "rest p = u # r"
  shows "\<not> jp_index p + 4 \<ge> length (jp_body p) \<and>
      list_all (\<lambda>offset. isJSONHex (jp_body p ! (jp_index p + offset))) [1, 2, 3, 4] \<longleftrightarrow>
     (\<exists>a b c d t. r = a # b # c # d # t \<and> isJSONHex a \<and> isJSONHex b \<and> isJSONHex c \<and> isJSONHex d)"
proof (cases "length r < 4")
  case True
  then have "jp_index p + 4 \<ge> length (jp_body p)" using assms length_rest [of p] by simp
  moreover have "\<not> (\<exists>a b c d t. r = a # b # c # d # t)" using True by auto
  ultimately show ?thesis by blast
next
  case False
  then obtain a b c d t where r: "r = a # b # c # d # t"
    by (auto simp: not_less numeral_eq_Suc Suc_le_length_iff)
  have lt: "jp_index p + 4 < length (jp_body p)" using assms r length_rest [of p] by simp
  have "jp_body p ! (jp_index p + i) = rest p ! i" if "i \<le> 4" for i
    using that lt by (intro body_rest) simp
  from this [of 1] this [of 2] this [of 3] this [of 4] have "jp_body p ! (jp_index p + 1) = a" "jp_body p ! (jp_index p + 2) = b"
    "jp_body p ! (jp_index p + 3) = c" "jp_body p ! (jp_index p + 4) = d"
    using assms r by (simp_all add: numeral_eq_Suc)
  with lt r show ?thesis by simp
qed

lemma stringLoop_sound:
  "stringLoop i e p = (Some st, q) \<Longrightarrow> \<exists>s. jchars s \<and> moves p (s @ [CHR 0x22]) q"
proof (induction i e p rule: stringLoop.induct)
  case (1 i e p)
  show ?case
  proof (cases "rest p")
    case Nil
    with 1(4) show ?thesis by (simp add: stringLoop.simps [of i e p] inside_rest)
  next
    case (Cons c r)
    then have in_p: "inside p" "current p = c" by (simp_all add: inside_rest current_Cons)
    consider "c = CHR 0x22" | "c = CHR 0x5C" | "c \<noteq> CHR 0x22" "c \<noteq> CHR 0x5C" by blast
    then show ?thesis
    proof cases
      case 1
      with \<open>stringLoop i e p = (Some st, q)\<close> in_p have "q = adv 1 p" by (simp add: stringLoop.simps [of i e p])
      with 1 Cons show ?thesis by (intro exI [of _ "[]"]) (auto simp: jchars_end moves_def)
    next
      case 2
      let ?p = "adv 1 p"
      show ?thesis
      proof (cases "rest ?p")
        case Nil
        with 1(4) 2 in_p show ?thesis by (simp add: stringLoop.simps [of i e p] inside_rest Let_def)
      next
        case (Cons u r')
        then have in_q: "inside ?p" "current ?p = u" by (simp_all add: inside_rest current_Cons)
        have r: "rest p = CHR 0x5C # u # r'" using Cons \<open>rest p = c # r\<close> 2 by simp
        show ?thesis
        proof (cases "u = CHR ''u''")
          case True
          note h = hex_test [OF Cons]
          from 1(4) 2 in_p in_q True have t: "\<not> jp_index ?p + 4 \<ge> length (jp_body ?p)"
            "list_all (\<lambda>offset. isJSONHex (jp_body ?p ! (jp_index ?p + offset))) [1, 2, 3, 4]"
            "stringLoop i True (adv 5 ?p) = (Some st, q)"
            by (simp_all add: stringLoop.simps [of i e p] Let_def split: if_splits)
          obtain a b c' d t' where r': "r' = a # b # c' # d # t'" "isJSONHex a" "isJSONHex b" "isJSONHex c'" "isJSONHex d"
            using h t(1,2) by blast
          obtain s where s: "jchars s" "moves (adv 5 ?p) (s @ [CHR 0x22]) q"
            using 1(1) [OF _ _ _ refl _ _ t(1) _ t(3)] in_p in_q 2 True t(2) by auto
          have "jchars (CHR 0x5C # CHR ''u'' # a # b # c' # d # s)"
            using r' s by (intro jchars_unicode)
          moreover have "moves p ([CHR 0x5C, CHR ''u'', a, b, c', d] @ s @ [CHR 0x22]) q"
            by (rule moves_trans [of _ _ "adv 5 ?p"]) (use r r' True s in \<open>auto simp: moves_def\<close>)
          ultimately show ?thesis by fastforce
        next
          case False
          from 1(4) 2 in_p in_q False have t: "isJSONSimpleEscape u" "stringLoop i True (adv 1 ?p) = (Some st, q)"
            by (simp_all add: stringLoop.simps [of i e p] Let_def split: if_splits)
          obtain s where s: "jchars s" "moves (adv 1 ?p) (s @ [CHR 0x22]) q"
            using 1(2) [OF _ _ _ refl _ _ _ t(2)] in_p in_q 2 False t(1) by auto
          have "moves p ([CHR 0x5C, u] @ s @ [CHR 0x22]) q"
            by (rule moves_trans [of _ _ "adv 1 ?p"]) (use r s in \<open>auto simp: moves_def\<close>)
          then show ?thesis using jchars_simple [OF t(1) s(1)] by fastforce
        qed
      qed
    next
      case 3
      then have "\<not> byte c < 32" "stringLoop i e (adv 1 p) = (Some st, q)"
        using 1(4) in_p by (auto simp: stringLoop.simps [of i e p] split: if_splits)
      then obtain s where "jchars s" "moves (adv 1 p) (s @ [CHR 0x22]) q"
        using 1(3) in_p 3 by auto
      then show ?thesis
        using 3 Cons \<open>\<not> byte c < 32\<close> by (intro exI [of _ "c # s"]) (auto intro: jchars_plain moves_Cons)
    qed
  qed
qed

lemma stringLoop_complete:
  "jchars s \<Longrightarrow> rest p = s @ CHR 0x22 # t \<Longrightarrow> \<exists>st. stringLoop i e p = (Some st, adv (length s + 1) p)"
proof (induction s arbitrary: p e rule: jchars.induct)
  case jchars_end
  then show ?case by (simp add: stringLoop.simps [of i e p] inside_rest current_rest)
next
  case (jchars_plain c s)
  have ih: "\<exists>st. stringLoop i e (adv 1 p) = (Some st, adv (length s + 1) (adv 1 p))"
    using jchars_plain(5) [of "adv 1 p" e] jchars_plain(6) by simp
  have "inside p" "current p = c" using jchars_plain(6) by (simp_all add: inside_rest current_rest)
  then have "stringLoop i e p = stringLoop i e (adv 1 p)"
    using jchars_plain(1-3) by (subst stringLoop.simps) simp
  with ih show ?case by simp
next
  case (jchars_simple u s)
  have ih: "\<exists>st. stringLoop i True (adv 2 p) = (Some st, adv (length s + 1) (adv 2 p))"
    using jchars_simple(3) [of "adv 2 p" True] jchars_simple(4) by simp
  have "u \<noteq> CHR ''u''" using jchars_simple(1) by (auto simp: isJSONSimpleEscape_def)
  with jchars_simple(1,2,4) ih show ?case
    by (simp add: stringLoop.simps [of i e p] inside_rest current_rest Let_def numeral_2_eq_2)
next
  case (jchars_unicode a b c d s)
  have ih: "\<exists>st. stringLoop i True (adv 6 p) = (Some st, adv (length s + 1) (adv 6 p))"
    using jchars_unicode(6) [of "adv 6 p" True] jchars_unicode(7) by simp
  have r: "rest (adv 1 p) = CHR ''u'' # a # b # c # d # s @ CHR 0x22 # t" using jchars_unicode by simp
  have h: "\<not> jp_index (adv 1 p) + 4 \<ge> length (jp_body (adv 1 p)) \<and>
      list_all (\<lambda>offset. isJSONHex (jp_body (adv 1 p) ! (jp_index (adv 1 p) + offset))) [1, 2, 3, 4]"
    using hex_test [OF r] jchars_unicode by blast
  have "inside p" "current p = CHR 0x5C" "inside (adv 1 p)" "current (adv 1 p) = CHR ''u''"
    using jchars_unicode(7) r by (simp_all add: inside_rest current_rest)
  then have "stringLoop i e p = stringLoop i True (adv 6 p)"
    using h by (subst stringLoop.simps) (simp add: Let_def)
  with ih show ?case by (simp add: numeral_eq_Suc)
qed

lemma parseString_sound:
  assumes "parseString p = (Some st, q)"
  shows "\<exists>s. jstring s \<and> moves p s q"
proof -
  obtain r where r: "rest p = CHR 0x22 # r" "stringLoop (jp_index p + 1) False (adv 1 p) = (Some st, q)"
    using assms by (cases "rest p") (auto simp: parseString_def inside_rest current_rest split: if_splits)
  obtain s where "jchars s" "moves (adv 1 p) (s @ [CHR 0x22]) q" using stringLoop_sound [OF r(2)] by blast
  then show ?thesis using moves_Cons [OF r(1)] by (fastforce simp: jstring_def)
qed

lemma parseString_complete:
  assumes "jstring s" "rest p = s @ t"
  shows "\<exists>st. parseString p = (Some st, adv (length s) p)"
proof -
  obtain u where u: "s = CHR 0x22 # u @ [CHR 0x22]" "jchars u" using assms(1) by (auto simp: jstring_def)
  have "rest (adv 1 p) = u @ CHR 0x22 # t" using assms(2) u(1) by simp
  from stringLoop_complete [OF u(2) this, of "jp_index p + 1" False] show ?thesis
    using assms(2) u(1) by (simp add: parseString_def inside_rest current_rest)
qed

subsection \<open>Numbers\<close>

definition digits :: "string \<Rightarrow> bool" where
  "digits s \<longleftrightarrow> s \<noteq> [] \<and> list_all isJSONDigit s"

definition jint :: "string \<Rightarrow> bool" where
  "jint s \<longleftrightarrow> s = ''0'' \<or> digits s \<and> hd s \<noteq> CHR ''0''"

definition jfrac :: "string \<Rightarrow> bool" where
  "jfrac s \<longleftrightarrow> s = [] \<or> (\<exists>ds. s = CHR ''.'' # ds \<and> digits ds)"

definition jexp :: "string \<Rightarrow> bool" where
  "jexp s \<longleftrightarrow> s = [] \<or> (\<exists>e g ds. s = e # g @ ds \<and> (e = CHR ''e'' \<or> e = CHR ''E'') \<and> g \<in> {'''', ''+'', ''-''} \<and> digits ds)"

definition jnumber :: "string \<Rightarrow> bool" where
  "jnumber s \<longleftrightarrow> (\<exists>g i f x. s = g @ i @ f @ x \<and> g \<in> {'''', ''-''} \<and> jint i \<and> jfrac f \<and> jexp x)"

text \<open>No digit follows.\<close>

definition nodigit :: "string \<Rightarrow> bool" where
  "nodigit t \<longleftrightarrow> t = [] \<or> \<not> isJSONDigit (hd t)"

lemma skipDigits_moves:
  assumes "inside p" "isJSONDigit (current p)"
  shows "\<exists>ds. digits ds \<and> hd ds = current p \<and> moves p ds (skipDigits p)"
proof -
  obtain c r where r: "rest p = c # r" using assms(1) by (cases "rest p") (auto simp: inside_rest)
  let ?ds = "takeWhile isJSONDigit (rest p)"
  have "digits ?ds" "hd ?ds = current p"
    using assms(2) r by (auto simp: digits_def current_rest list_all_iff dest: set_takeWhileD)
  moreover have "moves p ?ds (skipDigits p)"
    by (auto simp: skipDigits_def skipWhile_rest moves_def intro: exI [of _ "dropWhile isJSONDigit (rest p)"])
  ultimately show ?thesis by blast
qed

lemma skipDigits_complete:
  "digits ds \<Longrightarrow> rest p = ds @ t \<Longrightarrow> nodigit t \<Longrightarrow> skipDigits p = adv (length ds) p"
  by (simp add: skipDigits_def skipWhile_rest takeWhile_solid digits_def nodigit_def)

lemma digits_hd: "digits ds \<Longrightarrow> \<exists>c r. ds = c # r \<and> isJSONDigit c"
  by (cases ds) (auto simp: digits_def)

lemma digits_head: "digits ds \<Longrightarrow> rest p = ds @ t \<Longrightarrow> inside p \<and> current p = hd ds \<and> isJSONDigit (hd ds)"
  using digits_hd [of ds] by (auto simp: inside_rest current_rest)

lemma digit_range: "isJSONDigit c \<longleftrightarrow> c = CHR ''0'' \<or> \<not> (byte c < 49 \<or> byte c > 57)"
proof -
  have "byte c = 48 \<longleftrightarrow> c = CHR ''0''"
  proof
    assume "byte c = 48"
    moreover have "char_of (48 :: nat) = CHR ''0''" by code_simp
    ultimately show "c = CHR ''0''" by (metis byte_def char_of_char)
  qed (simp add: byte_def)
  then show ?thesis by (auto simp: isJSONDigit_def)
qed

lemma numberInteger_sound:
  assumes "numberInteger p = (True, q)"
  shows "\<exists>s. jint s \<and> moves p s q"
proof (cases "consume (CHR ''0'') p")
  case (Pair b p1)
  show ?thesis
  proof (cases b)
    case True
    with assms Pair have "moves p ''0'' q" by (auto simp: numberInteger_def dest: consume_True)
    then show ?thesis by (auto simp: jint_def)
  next
    case False
    with Pair have p1: "p1 = p" "rest p = [] \<or> hd (rest p) \<noteq> CHR ''0''"
      by (auto simp: consume_rest split: list.splits if_splits)
    with assms Pair False have q: "inside p" "\<not> byte (current p) < 49" "\<not> byte (current p) > 57" "q = skipDigits p"
      by (auto simp: numberInteger_def split: if_splits)
    then have "isJSONDigit (current p)" by (simp add: digit_range)
    from skipDigits_moves [OF q(1) this] obtain ds where "digits ds" "hd ds = current p" "moves p ds q"
      using q(4) by blast
    moreover have "current p \<noteq> CHR ''0''" using p1 q(1) by (simp add: inside_rest current_rest)
    ultimately show ?thesis by (auto simp: jint_def)
  qed
qed

lemma numberInteger_complete:
  assumes "jint s" "rest p = s @ t" "nodigit t"
  shows "numberInteger p = (True, adv (length s) p)"
proof (cases "s = ''0''")
  case True
  with assms show ?thesis
    by (auto simp: numberInteger_def consume_rest inside_rest current_rest nodigit_def)
next
  case False
  then have s: "digits s" "hd s \<noteq> CHR ''0''" using assms(1) by (auto simp: jint_def)
  note h = digits_head [OF s(1) assms(2)]
  have "consume (CHR ''0'') p = (False, p)"
    using h s(2) by (intro consume_not) (auto simp: inside_rest current_rest)
  then show ?thesis
    using h s digit_range [of "hd s"] skipDigits_complete [OF s(1) assms(2,3)] by (simp add: numberInteger_def)
qed

lemma numberFraction_sound:
  assumes "numberFraction p = (True, q)"
  shows "\<exists>s. jfrac s \<and> moves p s q"
proof (cases "consume (CHR ''.'') p")
  case (Pair b p1)
  show ?thesis
  proof (cases b)
    case True
    have m: "moves p ''.'' p1" using consume_True Pair True by simp
    have p1: "inside p1" "isJSONDigit (current p1)" "q = skipDigits p1"
      using assms by (simp_all add: numberFraction_def Pair True split: if_splits)
    from skipDigits_moves [OF p1(1,2)] obtain ds where "digits ds" "moves p1 ds q" using p1(3) by blast
    then show ?thesis using moves_trans [OF m] by (intro exI [of _ "''.'' @ ds"]) (simp add: jfrac_def)
  next
    case False
    with assms Pair have "q = p" by (auto simp: numberFraction_def consume_rest split: list.splits if_splits)
    then show ?thesis by (intro exI [of _ "[]"]) (simp add: jfrac_def)
  qed
qed

lemma numberFraction_complete:
  assumes "jfrac s" "rest p = s @ t" "nodigit t" "t = [] \<or> hd t \<noteq> CHR ''.''"
  shows "numberFraction p = (True, adv (length s) p)"
proof (cases "s = []")
  case True
  with assms have "consume (CHR ''.'') p = (False, p)" by (intro consume_not) simp
  then show ?thesis using True by (simp add: numberFraction_def)
next
  case False
  then obtain ds where s: "s = CHR ''.'' # ds" "digits ds" using assms(1) by (auto simp: jfrac_def)
  have r: "rest (adv 1 p) = ds @ t" using assms(2) s by simp
  note h = digits_head [OF s(2) r]
  show ?thesis
    using h s consume_here [of p _ "ds @ t"] assms(2) skipDigits_complete [OF s(2) r assms(3)]
    by (simp add: numberFraction_def)
qed

lemma numberExponent_sound:
  assumes "numberExponent p = (True, q)"
  shows "\<exists>s. jexp s \<and> moves p s q"
proof (cases "inside p \<and> (current p = CHR ''e'' \<or> current p = CHR ''E'')")
  case True
  then obtain r where r: "rest p = current p # r" by (cases "rest p") (auto simp: inside_rest current_rest)
  let ?p1 = "adv 1 p"
  obtain g p2 where p2: "moves ?p1 g p2" "g \<in> {'''', ''+'', ''-''}" "inside p2" "isJSONDigit (current p2)" "q = skipDigits p2"
  proof (cases "inside ?p1 \<and> (current ?p1 = CHR ''+'' \<or> current ?p1 = CHR ''-'')")
    case sign: True
    then have "moves ?p1 [current ?p1] (adv 1 ?p1)"
      by (cases "rest ?p1") (auto simp: inside_rest current_rest moves_def)
    with sign True assms that [of "[current ?p1]" "adv 1 ?p1"] show ?thesis
      by (auto simp: numberExponent_def Let_def split: if_splits)
  next
    case False
    with True assms that [of "[]" ?p1] show ?thesis
      by (auto simp: numberExponent_def Let_def split: if_splits)
  qed
  obtain ds where ds: "digits ds" "moves p2 ds q" using skipDigits_moves [OF p2(3,4)] p2(5) by blast
  have "moves p (current p # g @ ds) q"
    using moves_Cons [OF r moves_trans [OF p2(1) ds(2)]] .
  with True p2(2) ds(1) show ?thesis unfolding jexp_def by blast
next
  case False
  with assms have "q = p" by (auto simp: numberExponent_def)
  then show ?thesis by (intro exI [of _ "[]"]) (simp add: jexp_def)
qed

lemma numberExponent_complete:
  assumes "jexp s" "rest p = s @ t" "nodigit t" "t = [] \<or> hd t \<noteq> CHR ''e'' \<and> hd t \<noteq> CHR ''E''"
  shows "numberExponent p = (True, adv (length s) p)"
proof (cases "s = []")
  case True
  with assms show ?thesis by (auto simp: numberExponent_def inside_rest current_rest)
next
  case False
  then obtain e g ds where s: "s = e # g @ ds" "e = CHR ''e'' \<or> e = CHR ''E''" "g \<in> {'''', ''+'', ''-''}" "digits ds"
    using assms(1) by (auto simp: jexp_def)
  have r: "rest (adv 1 p) = g @ ds @ t" "rest (adv (1 + length g) p) = ds @ t" using assms(2) s(1) by simp_all
  note h = digits_head [OF s(4) r(2)]
  have sign: "(if inside (adv 1 p) \<and> (current (adv 1 p) = CHR ''+'' \<or> current (adv 1 p) = CHR ''-'')
      then adv 1 (adv 1 p) else adv 1 p) = adv (1 + length g) p"
  proof (cases "g = []")
    case True
    have "\<not> isJSONDigit (CHR ''+'')" "\<not> isJSONDigit (CHR ''-'')" by (simp_all add: isJSONDigit_def byte_def)
    with True h show ?thesis by auto
  next
    case False
    with s(3) r(1) show ?thesis by (auto simp: inside_rest current_rest)
  qed
  have "inside p" "current p = e" using assms(2) s(1) by (simp_all add: inside_rest current_rest)
  then show ?thesis
    using h s(1,2) skipDigits_complete [OF s(4) r(2) assms(3)]
    by (simp only: numberExponent_def Let_def sign) simp
qed

text \<open>What may follow a value: nothing, a blank, a comma or a closing bracket.\<close>

definition delimited :: "string \<Rightarrow> bool" where
  "delimited t \<longleftrightarrow> t = [] \<or> isJSONSpace (hd t) \<or> hd t \<in> {CHR '','', CHR '']'', CHR ''}''}"

lemma delimited_facts:
  assumes "delimited t"
  shows "nodigit t" "t = [] \<or> hd t \<noteq> CHR ''.''" "t = [] \<or> hd t \<noteq> CHR ''e'' \<and> hd t \<noteq> CHR ''E''"
  using assms by (auto simp: delimited_def nodigit_def isJSONSpace_def isJSONDigit_def byte_def)

lemma parseNumber_sound:
  assumes "parseNumber p = (True, q)"
  shows "\<exists>s. jnumber s \<and> moves p s q"
proof -
  obtain b p1 where c: "consume (CHR ''-'') p = (b, p1)" by fastforce
  have "\<exists>g. g \<in> {'''', ''-''} \<and> moves p g p1"
  proof (cases b)
    case True
    then have "moves p ''-'' p1" using c consume_True by simp
    then show ?thesis by blast
  next
    case False
    then have "p1 = p" using c consume_rem(2) by simp
    then show ?thesis by (intro exI [of _ "''''"]) simp
  qed
  then obtain g where g: "g \<in> {'''', ''-''}" "moves p g p1" by blast
  obtain b2 p2 where 2: "numberInteger p1 = (b2, p2)" by fastforce
  obtain b3 p3 where 3: "numberFraction p2 = (b3, p3)" by fastforce
  obtain b4 p4 where 4: "numberExponent p3 = (b4, p4)" by fastforce
  have ok: "b2 \<and> b3 \<and> b4 \<and> p4 = q"
    using assms by (cases "b \<and> \<not> inside p1"; cases b2; cases b3; cases b4) (simp_all add: parseNumber_def c 2 3 4)
  obtain i where "jint i" "moves p1 i p2" using numberInteger_sound [of p1 p2] 2 ok by auto
  moreover obtain f where "jfrac f" "moves p2 f p3" using numberFraction_sound [of p2 p3] 3 ok by auto
  moreover obtain x where "jexp x" "moves p3 x q" using numberExponent_sound [of p3 q] 4 ok by auto
  ultimately have "jint i" "jfrac f" "jexp x" "moves p1 (i @ f @ x) q" using moves_trans by blast+
  then have "moves p (g @ i @ f @ x) q" using g(2) moves_trans by blast
  with g(1) \<open>jint i\<close> \<open>jfrac f\<close> \<open>jexp x\<close> show ?thesis unfolding jnumber_def by blast
qed

lemma jint_head: "jint i \<Longrightarrow> \<exists>c r. i = c # r \<and> isJSONDigit c"
  using digits_hd by (fastforce simp: jint_def isJSONDigit_def byte_def)

lemma parseNumber_complete:
  assumes "jnumber s" "rest p = s @ t" "delimited t"
  shows "parseNumber p = (True, adv (length s) p)"
proof -
  obtain g i f x where s: "s = g @ i @ f @ x" "g \<in> {'''', ''-''}" "jint i" "jfrac f" "jexp x"
    using assms(1) unfolding jnumber_def by blast
  note d = delimited_facts [OF assms(3)]
  obtain c r where c: "i = c # r" "isJSONDigit c" using jint_head [OF s(3)] by blast
  then have nc: "c \<noteq> CHR ''-''" by (auto simp: isJSONDigit_def byte_def)
  let ?p1 = "adv (length g) p"
  have r1: "rest ?p1 = i @ f @ x @ t" using assms(2) s(1) by simp
  have neg: "consume (CHR ''-'') p = (g \<noteq> [], ?p1)"
    using s(1,2) c(1) nc assms(2) by (auto simp: consume_rest)
  have x: "nodigit (x @ t)" "x @ t = [] \<or> hd (x @ t) \<noteq> CHR ''.''"
    using s(5) d by (auto simp: jexp_def nodigit_def isJSONDigit_def byte_def)
  have f: "nodigit (f @ x @ t)"
    using s(4) x(1) by (auto simp: jfrac_def nodigit_def isJSONDigit_def byte_def)
  let ?p2 = "adv (length i) ?p1" and ?p3 = "adv (length f) (adv (length i) ?p1)"
  have "numberInteger ?p1 = (True, ?p2)" by (rule numberInteger_complete [OF s(3) r1 f])
  moreover have r2: "rest ?p2 = f @ x @ t" using assms(2) s(1) by simp
  have "numberFraction ?p2 = (True, ?p3)" by (rule numberFraction_complete [OF s(4) r2 x])
  moreover have r3: "rest ?p3 = x @ t" using assms(2) s(1) by simp
  have "numberExponent ?p3 = (True, adv (length x) ?p3)"
    by (rule numberExponent_complete [OF s(5) r3 d(1,3)])
  moreover have "inside ?p1" using r1 c(1) by (simp add: inside_rest)
  ultimately have "parseNumber p = (0 < length s, adv (length x) ?p3)"
    using s(1) by (auto simp: parseNumber_def neg)
  then show ?thesis using s(1) c(1) by (simp add: add.assoc)
qed

subsection \<open>Values\<close>

definition jscalar :: "string \<Rightarrow> bool" where
  "jscalar s \<longleftrightarrow> s \<in> {''true'', ''false'', ''null''} \<or> jstring s \<or> jnumber s"

text \<open>The number is a bound on the depth of nesting. Members and elements end with the bracket.\<close>

inductive jvalue :: "nat \<Rightarrow> string \<Rightarrow> bool"
  and jobject :: "nat \<Rightarrow> string \<Rightarrow> bool"
  and jmembers :: "nat \<Rightarrow> string \<Rightarrow> bool"
  and jarray :: "nat \<Rightarrow> string \<Rightarrow> bool"
  and jelements :: "nat \<Rightarrow> string \<Rightarrow> bool" where
  scalar: "jscalar s \<Longrightarrow> jvalue d s"
| object: "jobject d s \<Longrightarrow> jvalue d s"
| array: "jarray d s \<Longrightarrow> jvalue d s"
| empty_object: "ws w \<Longrightarrow> jobject (Suc d) (''{'' @ w @ ''}'')"
| members: "ws w \<Longrightarrow> jmembers d s \<Longrightarrow> jobject (Suc d) (''{'' @ w @ s)"
| last_member: "jstring k \<Longrightarrow> ws w1 \<Longrightarrow> ws w2 \<Longrightarrow> jvalue d v \<Longrightarrow> ws w3 \<Longrightarrow>
     jmembers d (k @ w1 @ '':'' @ w2 @ v @ w3 @ ''}'')"
| member: "jstring k \<Longrightarrow> ws w1 \<Longrightarrow> ws w2 \<Longrightarrow> jvalue d v \<Longrightarrow> ws w3 \<Longrightarrow> ws w4 \<Longrightarrow> jmembers d s \<Longrightarrow>
     jmembers d (k @ w1 @ '':'' @ w2 @ v @ w3 @ '','' @ w4 @ s)"
| empty_array: "ws w \<Longrightarrow> jarray (Suc d) (''['' @ w @ '']'')"
| elements: "ws w \<Longrightarrow> jelements d s \<Longrightarrow> jarray (Suc d) (''['' @ w @ s)"
| last_element: "jvalue d v \<Longrightarrow> ws w1 \<Longrightarrow> jelements d (v @ w1 @ '']'')"
| element: "jvalue d v \<Longrightarrow> ws w1 \<Longrightarrow> ws w2 \<Longrightarrow> jelements d s \<Longrightarrow> jelements d (v @ w1 @ '','' @ w2 @ s)"

inductive_cases jobjectE: "jobject d s"
inductive_cases jarrayE: "jarray d s"

lemma enter_True: "enter c p = (True, q) \<longleftrightarrow>
    jp_depth p < maximumJSONShapeScanDepth \<and> (\<exists>r. rest p = c # r) \<and> q = (adv 1 p)\<lparr>jp_depth := jp_depth p + 1\<rparr>"
  by (auto simp: enter_def consume_rest split: list.splits if_splits bool.splits prod.splits)

lemma adv_depth_comm: "adv n (p\<lparr>jp_depth := d\<rparr>) = (adv n p)\<lparr>jp_depth := d\<rparr>"
  by (simp add: adv_def)

lemma leave_entered:
  assumes "enter c p = (True, p1)" "moves p1 s q"
  shows "moves p (c # s) (leave q)"
proof -
  obtain r where r: "rest p = c # r" "p1 = (adv 1 p)\<lparr>jp_depth := jp_depth p + 1\<rparr>"
    using assms(1) by (auto simp: enter_True)
  have q: "q = adv (length s) p1" "\<exists>t. rest p1 = s @ t" using assms(2) by (auto simp: moves_def)
  have "leave q = adv (Suc (length s)) p" by (simp add: q(1) r(2) leave_def adv_depth_comm)
  then show ?thesis using r q(2) by (auto simp: moves_def)
qed

text \<open>What a separator has read.\<close>

lemma nextElement_sound:
  assumes "nextElement c p = (x, q)"
  shows "x = Closed \<Longrightarrow> \<exists>w. ws w \<and> moves p (w @ [c]) q"
    and "x = Another \<Longrightarrow> \<exists>w w'. ws w \<and> ws w' \<and> moves p (w @ '','' @ w') q \<and> solid (rest q)"
proof -
  obtain w where w: "ws w" "moves p w (skipSpace p)" using skipSpace_moves by blast
  obtain b1 p1 where 1: "consume c (skipSpace p) = (b1, p1)" by fastforce
  obtain b2 p2 where 2: "consume (CHR '','') p1 = (b2, p2)" by fastforce
  show "x = Closed \<Longrightarrow> \<exists>w. ws w \<and> moves p (w @ [c]) q"
    using assms w consume_True [of c "skipSpace p" q] moves_trans [OF w(2)]
    by (auto simp: nextElement_def 1 2 Let_def split: bool.splits if_splits)
  assume a: "x = Another"
  then have b: "\<not> b1" "b2" "q = skipSpace p2"
    using assms by (auto simp: nextElement_def 1 2 Let_def split: bool.splits if_splits)
  then have "p1 = skipSpace p" using 1 by (auto simp: consume_rest split: list.splits if_splits)
  then have "moves (skipSpace p) '','' p2" using 2 b(2) consume_True by simp
  moreover obtain w' where "ws w'" "moves p2 w' (skipSpace p2)" using skipSpace_moves by blast
  moreover have "solid (rest (skipSpace p2))"
    using hd_dropWhile [of isJSONSpace "rest p2"]
    by (auto simp: skipSpace_def skipWhile_rest dropWhile_eq_drop [symmetric] solid_def)
  ultimately show "\<exists>w w'. ws w \<and> ws w' \<and> moves p (w @ '','' @ w') q \<and> solid (rest q)"
    using w b(3) moves_trans by blast
qed

lemma nextElement_closed:
  assumes "rest p = w @ c # t" "ws w" "\<not> isJSONSpace c"
  shows "nextElement c p = (Closed, adv (length w + 1) p)"
proof -
  have "skipSpace p = adv (length w) p"
    using assms by (intro skipSpace_solid [of p w "c # t"]) (simp_all add: solid_def)
  then show ?thesis using assms(1) by (simp add: nextElement_def consume_rest)
qed

lemma nextElement_another:
  assumes "rest p = w @ '','' @ w' @ s" "ws w" "ws w'" "c \<noteq> CHR '',''" "s \<noteq> []" "solid s" "hd s \<noteq> c"
  shows "nextElement c p = (Another, adv (length w + 1 + length w') p)"
proof -
  have 1: "skipSpace p = adv (length w) p"
    using assms(1,2) by (intro skipSpace_solid [of p w "'','' @ w' @ s"]) (simp_all add: solid_def isJSONSpace_def)
  have 2: "skipSpace (adv (length w + 1) p) = adv (length w') (adv (length w + 1) p)"
    using assms(1,3,6) by (intro skipSpace_solid [of _ w' s]) simp_all
  show ?thesis
    using assms by (simp add: nextElement_def 1 2 [simplified] consume_rest inside_rest current_rest Let_def)
qed

end
