(* ===== verification/Shape_Accepts.thy ===== *)
theory Shape_Accepts
  imports Shape_Grammar
begin

text \<open>
  The scanner accepts exactly the JSON grammar, up to its limit on the depth: what it accepts
  is a value of the grammar whose nesting fits, and it accepts every such value.
\<close>

abbreviation room :: "jsonShapeParser \<Rightarrow> nat" where
  "room p \<equiv> maximumJSONShapeScanDepth - jp_depth p"

lemma room_moves: "moves p s q \<Longrightarrow> room q = room p"
  by (simp add: moves_depth)

lemma room_enter: "enter c p = (True, q) \<Longrightarrow> room p = Suc (room q) \<and> jp_depth q = jp_depth p + 1"
  by (auto simp: enter_True)

subsection \<open>Soundness\<close>

lemma value_sound:
  "parseValue k p = Some (True, q) \<Longrightarrow> \<exists>w v. ws w \<and> jvalue (room p) v \<and> moves p (w @ v) q"
  "parseObject k p = Some (True, q) \<Longrightarrow> \<exists>s. jobject (room p) s \<and> moves p s q"
  "objectLoop k p = Some (True, q) \<Longrightarrow> \<exists>s. jmembers (room p) s \<and> moves p s q"
  "parseArray k p = Some (True, q) \<Longrightarrow> \<exists>s. jarray (room p) s \<and> moves p s q"
  "arrayLoop k p = Some (True, q) \<Longrightarrow> \<exists>w s. ws w \<and> jelements (room p) s \<and> moves p (w @ s) q"
proof (induction k p and k p and k p and k p and k p arbitrary: q and q and q and q and q
    rule: parseValue_parseObject_objectLoop_parseArray_arrayLoop.induct)
  case (2 fuel p0)
  let ?p = "skipSpace p0"
  obtain w where w: "ws w" "moves p0 w ?p" using skipSpace_moves by blast
  have "\<exists>v. jvalue (room ?p) v \<and> moves ?p v q"
  proof -
    consider (obj) "inside ?p" "current ?p = CHR ''{''" "parseObject fuel ?p = Some (True, q)"
      | (arr) "inside ?p" "current ?p = CHR ''[''" "current ?p \<noteq> CHR ''{''" "parseArray fuel ?p = Some (True, q)"
      | (str) st where "parseString ?p = (Some st, q)"
      | (lit) v where "v \<in> {''true'', ''false'', ''null''}" "consumeLiteral v ?p = (True, q)"
      | (num) "parseNumber ?p = (True, q)"
      using 2(3) by (auto simp: Let_def split: if_splits prod.splits)
    then show ?thesis
    proof cases
      case obj
      from 2(1) [OF refl _ obj(2,3)] obj(1) obtain s where "jobject (room ?p) s" "moves ?p s q" by blast
      then show ?thesis using jvalue_jobject_jmembers_jarray_jelements.object by blast
    next
      case arr
      from 2(2) [OF refl _ arr(3,2,4)] arr(1) obtain s where "jarray (room ?p) s" "moves ?p s q" by blast
      then show ?thesis using jvalue_jobject_jmembers_jarray_jelements.array by blast
    next
      case str
      from parseString_sound [OF this] show ?thesis using scalar by (auto simp: jscalar_def)
    next
      case lit
      from literal_moves [OF lit(2)] lit(1) show ?thesis using scalar [of v] by (auto simp: jscalar_def)
    next
      case num
      from parseNumber_sound [OF this] show ?thesis using scalar by (auto simp: jscalar_def)
    qed
  qed
  then show ?case using w moves_trans room_moves [OF w(2)] by metis
next
  case (4 fuel p)
  obtain b1 p1 where e: "enter (CHR ''{'') p = (b1, p1)" by fastforce
  obtain b2 p2 where c: "consume (CHR ''}'') (skipSpace p1) = (b2, p2)" by fastforce
  obtain w where w: "ws w" "moves p1 w (skipSpace p1)" using skipSpace_moves by blast
  have b1: "b1 = True" using 4(2) by (cases b1) (simp_all add: e)
  then have e': "enter (CHR ''{'') p = (True, p1)" using e by simp
  note d = room_enter [OF e']
  show ?case
  proof (cases b2)
    case True
    with 4(2) have q: "q = leave p2" by (simp add: e' c leaveResult_def)
    have "moves p1 (w @ ''}'') p2" using moves_trans [OF w(2)] consume_True c True by simp
    from leave_entered [OF e' this] show ?thesis
      using empty_object [OF w(1), of "room p1"] d q by auto
  next
    case False
    with 4(2) obtain q0 where q: "objectLoop fuel p2 = Some (True, q0)" "q = leave q0"
      by (auto simp: e' c leaveResult_Some)
    have p2: "p2 = skipSpace p1" using consume_rem(2) c False by simp
    obtain s where s: "jmembers (room p2) s" "moves p2 s q0"
      using 4(1) [OF e [symmetric] b1 c [symmetric] _ q(1)] False by auto
    have "moves p1 (w @ s) q0" using moves_trans w(2) s(2) p2 by blast
    from leave_entered [OF e' this] show ?thesis
      using members [OF w(1), of "room p1" s] s(1) d q(2) room_moves [OF w(2)] p2 by auto
  qed
next
  case (6 fuel p)
  obtain r p1 where s: "parseString p = (r, p1)" by fastforce
  obtain b2 p2 where c: "consume (CHR '':'') (skipSpace p1) = (b2, p2)" by fastforce
  obtain w1 where w1: "ws w1" "moves p1 w1 (skipSpace p1)" using skipSpace_moves by blast
  obtain st where st: "r = Some st" using 6(3) by (cases r) (simp_all add: s)
  have b2: "b2 = True" using 6(3) by (cases b2) (simp_all add: s c st)
  obtain p3 where v: "parseValue fuel p2 = Some (True, p3)"
    using 6(3) b2 by (auto simp: s c st split: option.splits bool.splits prod.splits)
  obtain x p4 where n: "nextElement (CHR ''}'') p3 = (x, p4)" by fastforce
  obtain k where k: "jstring k" "moves p k p1" using parseString_sound s st by blast
  have colon: "moves (skipSpace p1) '':'' p2" using consume_True c b2 by simp
  obtain w2 u where u: "ws w2" "jvalue (room p2) u" "moves p2 (w2 @ u) p3"
    using 6(1) [OF s [symmetric, unfolded st] refl c [symmetric, unfolded b2] _ v] b2 by auto
  have upto: "moves p (k @ w1 @ '':'' @ w2 @ u) p3"
    using moves_trans [OF k(2) moves_trans [OF w1(2) moves_trans [OF colon u(3)]]] by simp
  then have rooms: "room p2 = room p" "room p3 = room p"
    using room_moves k(2) w1(2) colon u(3) by metis+
  show ?case
  proof (cases x)
    case Closed
    then have "q = p4" using 6(3) b2 by (simp add: s c st v n)
    moreover obtain w3 where "ws w3" "moves p3 (w3 @ ''}'') p4" using nextElement_sound(1) [OF n Closed] by blast
    ultimately show ?thesis
      using moves_trans [OF upto] last_member [OF k(1) w1(1) u(1), of "room p" u w3] u(2) rooms
      by (intro exI [of _ "k @ w1 @ '':'' @ w2 @ u @ w3 @ ''}''"]) (auto simp del: append.simps)
  next
    case Another
    then have l: "objectLoop fuel p4 = Some (True, q)" using 6(3) b2 by (simp add: s c st v n)
    obtain w3 w4 where w: "ws w3" "ws w4" "moves p3 (w3 @ '','' @ w4) p4"
      using nextElement_sound(2) [OF n Another] by blast
    obtain t where t: "jmembers (room p4) t" "moves p4 t q"
      using 6(2) [OF s [symmetric, unfolded st] refl c [symmetric, unfolded b2] _ v refl refl n [symmetric] Another l] b2
      by auto
    have "moves p ((k @ w1 @ '':'' @ w2 @ u) @ (w3 @ '','' @ w4) @ t) q"
      using moves_trans [OF upto moves_trans [OF w(3) t(2)]] by simp
    moreover have "jmembers (room p) (k @ w1 @ '':'' @ w2 @ u @ w3 @ '','' @ w4 @ t)"
      using member [OF k(1) w1(1) u(1) _ w(1,2)] u(2) t(1) rooms room_moves [OF w(3)] by metis
    ultimately show ?thesis by (intro exI [of _ "k @ w1 @ '':'' @ w2 @ u @ w3 @ '','' @ w4 @ t"]) simp
  next
    case Broken
    then show ?thesis using 6(3) b2 by (simp add: s c st v n)
  qed
next
  case (8 fuel p)
  obtain b1 p1 where e: "enter (CHR ''['') p = (b1, p1)" by fastforce
  obtain b2 p2 where c: "consume (CHR '']'') (skipSpace p1) = (b2, p2)" by fastforce
  obtain w where w: "ws w" "moves p1 w (skipSpace p1)" using skipSpace_moves by blast
  have b1: "b1 = True" using 8(2) by (cases b1) (simp_all add: e)
  then have e': "enter (CHR ''['') p = (True, p1)" using e by simp
  note d = room_enter [OF e']
  show ?case
  proof (cases b2)
    case True
    with 8(2) have q: "q = leave p2" by (simp add: e' c leaveResult_def)
    have "moves p1 (w @ '']'') p2" using moves_trans [OF w(2)] consume_True c True by simp
    from leave_entered [OF e' this] show ?thesis
      using empty_array [OF w(1), of "room p1"] d q by auto
  next
    case False
    with 8(2) obtain q0 where q: "arrayLoop fuel p2 = Some (True, q0)" "q = leave q0"
      by (auto simp: e' c leaveResult_Some)
    have p2: "p2 = skipSpace p1" using consume_rem(2) c False by simp
    obtain w' s where s: "ws w'" "jelements (room p2) s" "moves p2 (w' @ s) q0"
      using 8(1) [OF e [symmetric] b1 c [symmetric] _ q(1)] False by auto
    have "moves p1 ((w @ w') @ s) q0" using moves_trans [OF w(2)] s(3) p2 by simp
    from leave_entered [OF e' this] show ?thesis
      using elements [of "w @ w'" "room p1" s] w(1) s(1,2) d q(2) room_moves [OF w(2)] p2 by auto
  qed
next
  case (10 fuel p)
  obtain p1 where v: "parseValue fuel p = Some (True, p1)"
    using 10(3) by (auto split: option.splits bool.splits prod.splits)
  obtain x p2 where n: "nextElement (CHR '']'') p1 = (x, p2)" by fastforce
  obtain w u where u: "ws w" "jvalue (room p) u" "moves p (w @ u) p1" using 10(1) [OF v] by blast
  show ?case
  proof (cases x)
    case Closed
    then have "q = p2" using 10(3) by (simp add: v n)
    moreover obtain w1 where "ws w1" "moves p1 (w1 @ '']'') p2" using nextElement_sound(1) [OF n Closed] by blast
    ultimately show ?thesis
      using moves_trans [OF u(3)] last_element [OF u(2)] u(1) by (metis append.assoc)
  next
    case Another
    then have l: "arrayLoop fuel p2 = Some (True, q)" using 10(3) by (simp add: v n)
    obtain w1 w2 where w: "ws w1" "ws w2" "moves p1 (w1 @ '','' @ w2) p2"
      using nextElement_sound(2) [OF n Another] by blast
    obtain w3 t where t: "ws w3" "jelements (room p2) t" "moves p2 (w3 @ t) q"
      using 10(2) [OF v refl refl n [symmetric] Another l] by blast
    have "moves p (w @ u @ w1 @ '','' @ (w2 @ w3) @ t) q"
      using moves_trans [OF u(3) moves_trans [OF w(3) t(3)]] by simp
    moreover have "jelements (room p) (u @ w1 @ '','' @ (w2 @ w3) @ t)"
      using element [OF u(2) w(1), of "w2 @ w3" t] w(2) t(1,2) room_moves [OF u(3)] room_moves [OF w(3)] by simp
    ultimately show ?thesis using u(1) by blast
  next
    case Broken
    then show ?thesis using 10(3) by (simp add: v n)
  qed
qed auto

subsection \<open>How values begin\<close>

lemma jstring_head: "jstring s \<Longrightarrow> \<exists>r. s = CHR 0x22 # r"
  by (auto simp: jstring_def)

lemma jnumber_head: "jnumber s \<Longrightarrow> \<exists>c r. s = c # r \<and> (c = CHR ''-'' \<or> isJSONDigit c)"
  using jint_head by (fastforce simp: jnumber_def)

lemma digit_not: "isJSONDigit c \<Longrightarrow> c \<notin> {CHR '' '', CHR 0x0A, CHR 0x0D, CHR 0x09, CHR '','', CHR '']'', CHR ''}'',
    CHR ''{'', CHR ''['', CHR 0x22, CHR ''t'', CHR ''f'', CHR ''n''}"
  by (auto simp: isJSONDigit_def byte_def)

lemma jobject_head: "jobject d s \<Longrightarrow> \<exists>r. s = CHR ''{'' # r"
  by (erule jobjectE) auto

lemma jarray_head: "jarray d s \<Longrightarrow> \<exists>r. s = CHR ''['' # r"
  by (erule jarrayE) auto

definition starts :: "string \<Rightarrow> bool" where
  "starts s \<longleftrightarrow> s \<noteq> [] \<and> \<not> isJSONSpace (hd s) \<and> hd s \<notin> {CHR '','', CHR '']'', CHR ''}''}"

lemma jscalar_starts: "jscalar v \<Longrightarrow> starts v"
  using jstring_head [of v] jnumber_head [of v] digit_not [of "hd v"]
  by (auto simp: jscalar_def starts_def isJSONSpace_def)

lemma jvalue_starts: "jvalue d v \<Longrightarrow> starts v"
  by (erule jvalue.cases)
     (use jscalar_starts jobject_head jarray_head in \<open>fastforce simp: starts_def isJSONSpace_def\<close>)+

lemma starts_append: "starts s \<Longrightarrow> starts (s @ t)"
  by (simp add: starts_def)

lemma starts_solid: "starts s \<Longrightarrow> solid (s @ t) \<and> solid s"
  by (simp add: starts_def solid_def)

lemma jmembers_head: "jmembers d s \<Longrightarrow> \<exists>r. s = CHR 0x22 # r"
  by (erule jmembers.cases) (auto dest!: jstring_head)

lemma jmembers_starts: "jmembers d s \<Longrightarrow> starts s"
  using jmembers_head [of d s] by (auto simp: starts_def isJSONSpace_def)

lemma jelements_starts: "jelements d s \<Longrightarrow> starts s"
  by (erule jelements.cases) (use jvalue_starts starts_append in blast)+

lemma delimited_simps:
  "delimited (w @ c # t)" if "ws w" "c \<in> {CHR '','', CHR '']'', CHR ''}''}"
  using that by (cases w) (auto simp: delimited_def)

subsection \<open>Completeness\<close>

lemma skipSpace_starts:
  assumes "rest p = w @ v @ t" "ws w" "starts v"
  shows "skipSpace p = adv (length w) p" "rest (adv (length w) p) = v @ t"
    "inside (adv (length w) p)" "current (adv (length w) p) = hd v"
  using assms starts_solid [of v t] skipSpace_solid [of p w "v @ t"]
  by (simp_all add: starts_def inside_rest current_rest)

lemma enter_here:
  "rest p = c # r \<Longrightarrow> jp_depth p < maximumJSONShapeScanDepth \<Longrightarrow>
     enter c p = (True, (adv 1 p)\<lparr>jp_depth := jp_depth p + 1\<rparr>)"
  by (simp add: enter_True)

lemma leave_adv: "leave (adv n ((adv 1 p)\<lparr>jp_depth := jp_depth p + 1\<rparr>)) = adv (Suc n) p"
  by (simp add: leave_def adv_depth_comm)

lemma scalar_complete:
  assumes "jscalar v" "rest p = v @ t" "delimited t" "skipSpace p0 = p" "parseValue k p0 \<noteq> None"
  shows "parseValue k p0 = Some (True, adv (length v) p)"
proof -
  obtain k' where k: "k = Suc k'" using assms(5) by (cases k) auto
  have v: "starts v" using jvalue_starts scalar assms(1) by blast
  then have p: "inside p" "current p = hd v" using assms(2) by (simp_all add: starts_def inside_rest current_rest)
  from assms(1) consider "v \<in> {''true'', ''false'', ''null''}" | "jstring v" | "jnumber v"
    by (auto simp: jscalar_def)
  then show ?thesis
  proof cases
    case 1
    then show ?thesis using p assms(2,4) literal_here [of p v t] by (auto simp: k)
  next
    case 2
    with jstring_head [OF 2] parseString_complete [OF 2 assms(2)] p assms(4) show ?thesis
      by (auto simp: k)
  next
    case 3
    then have "hd v = CHR ''-'' \<or> isJSONDigit (hd v)" using jnumber_head by fastforce
    then have "hd v \<notin> {CHR ''{'', CHR ''['', CHR 0x22, CHR ''t'', CHR ''f'', CHR ''n''}"
      using digit_not [of "hd v"] by auto
    then show ?thesis using p assms(4) parseNumber_complete [OF 3 assms(2,3)] by (simp add: k)
  qed
qed

text \<open>The key and the colon of a member.\<close>

definition objectLoop_head :: "jsonShapeParser \<Rightarrow> jsonShapeParser \<Rightarrow> bool" where
  "objectLoop_head p q \<longleftrightarrow>
     (\<exists>st p1. parseString p = (Some st, p1) \<and> consume (CHR '':'') (skipSpace p1) = (True, q))"

lemma objectLoop_headI:
  assumes "jstring k" "ws w" "rest p = k @ w @ '':'' @ t"
  shows "\<exists>q. objectLoop_head p q \<and> q = adv (length k + length w + 1) p"
proof -
  obtain st where st: "parseString p = (Some st, adv (length k) p)" using parseString_complete [OF assms(1,3)] by blast
  have r: "rest (adv (length k) p) = w @ '':'' @ t" using assms(3) by simp
  have "skipSpace (adv (length k) p) = adv (length w) (adv (length k) p)"
    by (rule skipSpace_solid [OF r assms(2)]) (simp add: solid_def isJSONSpace_def)
  moreover have "consume (CHR '':'') (adv (length w) (adv (length k) p)) = (True, adv 1 (adv (length w) (adv (length k) p)))"
    using assms(3) by (intro consume_here [of _ _ t]) simp
  ultimately show ?thesis using st by (simp add: objectLoop_head_def)
qed

lemma objectLoop_step:
  assumes "objectLoop_head p q"
  shows "objectLoop (Suc k) p = (case parseValue k q of
            None \<Rightarrow> None
          | Some (False, p3) \<Rightarrow> Some (False, p3)
          | Some (True, p3) \<Rightarrow> (case nextElement (CHR ''}'') p3 of
              (Closed, p4) \<Rightarrow> Some (True, p4)
            | (Another, p4) \<Rightarrow> objectLoop k p4
            | (Broken, p4) \<Rightarrow> Some (False, p4)))"
  using assms by (auto simp: objectLoop_head_def)

lemma value_complete:
  "jvalue d v \<Longrightarrow> rest p1 = w @ v @ t1 \<Longrightarrow> ws w \<Longrightarrow> d \<le> room p1 \<Longrightarrow> delimited t1 \<Longrightarrow> parseValue k1 p1 \<noteq> None \<Longrightarrow>
     parseValue k1 p1 = Some (True, adv (length w + length v) p1)"
  "jobject d s2 \<Longrightarrow> rest p2 = s2 @ t2 \<Longrightarrow> d \<le> room p2 \<Longrightarrow> parseObject k2 p2 \<noteq> None \<Longrightarrow>
     parseObject k2 p2 = Some (True, adv (length s2) p2)"
  "jmembers d s3 \<Longrightarrow> rest p3 = s3 @ t3 \<Longrightarrow> d \<le> room p3 \<Longrightarrow> objectLoop k3 p3 \<noteq> None \<Longrightarrow>
     objectLoop k3 p3 = Some (True, adv (length s3) p3)"
  "jarray d s4 \<Longrightarrow> rest p4 = s4 @ t4 \<Longrightarrow> d \<le> room p4 \<Longrightarrow> parseArray k4 p4 \<noteq> None \<Longrightarrow>
     parseArray k4 p4 = Some (True, adv (length s4) p4)"
  "jelements d s5 \<Longrightarrow> rest p5 = s5 @ t5 \<Longrightarrow> d \<le> room p5 \<Longrightarrow> arrayLoop k5 p5 \<noteq> None \<Longrightarrow>
     arrayLoop k5 p5 = Some (True, adv (length s5) p5)"
proof (induction d v and d s2 and d s3 and d s4 and d s5
    arbitrary: p1 w t1 k1 and p2 t2 k2 and p3 t3 k3 and p4 t4 k4 and p5 t5 k5
    rule: jvalue_jobject_jmembers_jarray_jelements.inducts)
  case (scalar s d p w t k)
  note sk = skipSpace_starts [OF scalar(2,3) jvalue_starts [OF jvalue_jobject_jmembers_jarray_jelements.scalar [OF scalar(1)]]]
  from scalar_complete [OF scalar(1) sk(2) scalar(5) sk(1) scalar(6)] show ?case by simp
next
  case (object d s p w t k)
  obtain r where r: "s = CHR ''{'' # r" using jobject_head object(1) by blast
  then have o: "starts s" by (simp add: starts_def isJSONSpace_def)
  note sk = skipSpace_starts [OF object(3,4) o]
  obtain k' where k: "k = Suc k'" using object(7) by (cases k) auto
  have eq: "parseValue k p = parseObject k' (adv (length w) p)" using sk r by (simp add: k)
  show ?case using object(2) [OF sk(2), of k'] object(5,7) unfolding eq by simp
next
  case (array d s p w t k)
  obtain r where r: "s = CHR ''['' # r" using jarray_head array(1) by blast
  then have o: "starts s" by (simp add: starts_def isJSONSpace_def)
  note sk = skipSpace_starts [OF array(3,4) o]
  obtain k' where k: "k = Suc k'" using array(7) by (cases k) auto
  have eq: "parseValue k p = parseArray k' (adv (length w) p)" using sk r by (simp add: k)
  show ?case using array(2) [OF sk(2), of k'] array(5,7) unfolding eq by simp
next
  case (empty_object w d p t k)
  let ?p1 = "(adv 1 p)\<lparr>jp_depth := jp_depth p + 1\<rparr>"
  obtain k' where k: "k = Suc k'" using empty_object(4) by (cases k) auto
  have e: "enter (CHR ''{'') p = (True, ?p1)" using empty_object(2,3) by (intro enter_here) auto
  have r: "rest ?p1 = w @ ''}'' @ t" using empty_object(2) by simp
  have "skipSpace ?p1 = adv (length w) ?p1"
    using r empty_object(1) by (intro skipSpace_solid) (auto simp: solid_def isJSONSpace_def)
  then show ?case
    using r leave_adv [of "length w + 1" p] by (simp add: k e leaveResult_def consume_rest)
next
  case (members w d s p t k)
  let ?p1 = "(adv 1 p)\<lparr>jp_depth := jp_depth p + 1\<rparr>"
  obtain k' where k: "k = Suc k'" using members(6) by (cases k) auto
  have e: "enter (CHR ''{'') p = (True, ?p1)" using members(4,5) by (intro enter_here) auto
  have r: "rest ?p1 = w @ s @ t" using members(4) by simp
  note o = jmembers_starts [OF members(2)]
  note sk = skipSpace_starts [OF r members(1) o]
  have c: "consume (CHR ''}'') (adv (length w) ?p1) = (False, adv (length w) ?p1)"
    using sk(2) o by (intro consume_not) (auto simp: starts_def)
  have eq: "parseObject k p = leaveResult (objectLoop k' (adv (length w) ?p1))"
    by (simp only: k parseObject.simps e sk(1) c prod.case bool.case)
  have "objectLoop k' (adv (length w) ?p1) = Some (True, adv (length s) (adv (length w) ?p1))"
    using members(3) [OF sk(2), of k'] members(5,6) unfolding eq by simp
  then show ?case
    unfolding eq using leave_adv [of "length w + length s" p] by (simp add: leaveResult_def)
next
  case (empty_array w d p t k)
  let ?p1 = "(adv 1 p)\<lparr>jp_depth := jp_depth p + 1\<rparr>"
  obtain k' where k: "k = Suc k'" using empty_array(4) by (cases k) auto
  have e: "enter (CHR ''['') p = (True, ?p1)" using empty_array(2,3) by (intro enter_here) auto
  have r: "rest ?p1 = w @ '']'' @ t" using empty_array(2) by simp
  have "skipSpace ?p1 = adv (length w) ?p1"
    using r empty_array(1) by (intro skipSpace_solid) (auto simp: solid_def isJSONSpace_def)
  then show ?case
    using r leave_adv [of "length w + 1" p] by (simp add: k e leaveResult_def consume_rest)
next
  case (elements w d s p t k)
  let ?p1 = "(adv 1 p)\<lparr>jp_depth := jp_depth p + 1\<rparr>"
  obtain k' where k: "k = Suc k'" using elements(6) by (cases k) auto
  have e: "enter (CHR ''['') p = (True, ?p1)" using elements(4,5) by (intro enter_here) auto
  have r: "rest ?p1 = w @ s @ t" using elements(4) by simp
  note o = jelements_starts [OF elements(2)]
  note sk = skipSpace_starts [OF r elements(1) o]
  have c: "consume (CHR '']'') (adv (length w) ?p1) = (False, adv (length w) ?p1)"
    using sk(2) o by (intro consume_not) (auto simp: starts_def)
  have eq: "parseArray k p = leaveResult (arrayLoop k' (adv (length w) ?p1))"
    by (simp only: k parseArray.simps e sk(1) c prod.case bool.case)
  have "arrayLoop k' (adv (length w) ?p1) = Some (True, adv (length s) (adv (length w) ?p1))"
    using elements(3) [OF sk(2), of k'] elements(5,6) unfolding eq by simp
  then show ?case
    unfolding eq using leave_adv [of "length w + length s" p] by (simp add: leaveResult_def)
next
  case (last_member k w1 w2 d v w3 p t j)
  obtain j' where j: "j = Suc j'" using last_member(9) by (cases j) auto
  have r: "rest p = k @ w1 @ '':'' @ w2 @ v @ w3 @ CHR ''}'' # t" using last_member(7) by simp
  obtain p2 where o: "objectLoop_head p p2" "p2 = adv (length k + length w1 + 1) p"
    using objectLoop_headI [OF last_member(1,2) r] by blast
  have r2: "rest p2 = w2 @ v @ (w3 @ CHR ''}'' # t)" using r o(2) by simp
  have "parseValue j' p2 \<noteq> None" using last_member(9) unfolding j objectLoop_step [OF o(1)] by (intro notI) simp
  with last_member.IH [OF r2 last_member(3)] last_member(8) o(2) delimited_simps [OF last_member(5)]
  have v: "parseValue j' p2 = Some (True, adv (length w2 + length v) p2)" by simp
  let ?p3 = "adv (length w2 + length v) p2"
  have r3: "rest ?p3 = w3 @ CHR ''}'' # t" using r2 by simp
  have n: "nextElement (CHR ''}'') ?p3 = (Closed, adv (length w3 + 1) ?p3)"
    by (rule nextElement_closed [OF r3 last_member(5)]) (simp add: isJSONSpace_def)
  have "objectLoop j p = Some (True, adv (length w3 + 1) ?p3)"
    by (simp add: j v n objectLoop_step [OF o(1)] del: adv_adv objectLoop.simps)
  then show ?case by (simp add: o(2) add_ac)
next
  case (member k w1 w2 d v w3 w4 s p t j)
  obtain j' where j: "j = Suc j'" using member.prems(3) by (cases j) auto
  have r: "rest p = k @ w1 @ '':'' @ w2 @ v @ w3 @ '','' @ w4 @ s @ t" using member.prems(1) by simp
  obtain p2 where o: "objectLoop_head p p2" "p2 = adv (length k + length w1 + 1) p"
    using objectLoop_headI [OF member(1,2) r] by blast
  have r2: "rest p2 = w2 @ v @ (w3 @ CHR '','' # w4 @ s @ t)" using r o(2) by simp
  have "parseValue j' p2 \<noteq> None" using member.prems(3) unfolding j objectLoop_step [OF o(1)] by (intro notI) simp
  with member.IH(1) [OF r2 member(3)] member.prems(2) o(2) delimited_simps [OF member(5)]
  have v: "parseValue j' p2 = Some (True, adv (length w2 + length v) p2)" by simp
  let ?p3 = "adv (length w2 + length v) p2"
  have r3: "rest ?p3 = w3 @ '','' @ w4 @ s @ t" using r2 by simp
  note st = jmembers_starts [OF member(7)]
  let ?p4 = "adv (length w3 + 1 + length w4) ?p3"
  have n: "nextElement (CHR ''}'') ?p3 = (Another, ?p4)"
    using nextElement_another [OF r3 member(5,6)] st starts_solid [OF st] by (simp add: starts_def)
  have r4: "rest ?p4 = s @ t" using r2 by simp
  have eq: "objectLoop j p = objectLoop j' ?p4" by (simp add: j v n objectLoop_step [OF o(1)] del: adv_adv objectLoop.simps)
  show ?case using member.IH(2) [OF r4, of j'] member.prems(2,3) o(2) unfolding eq by (simp add: add.assoc)
next
  case (last_element d v w1 p t j)
  obtain j' where j: "j = Suc j'" using last_element(6) by (cases j) auto
  have r: "rest p = [] @ v @ (w1 @ CHR '']'' # t)" using last_element(4) by simp
  have "parseValue j' p \<noteq> None" using last_element(6) unfolding j arrayLoop.simps by (intro notI) simp
  with last_element.IH [OF r _ last_element(5)] delimited_simps [OF last_element(2)]
  have v: "parseValue j' p = Some (True, adv (length v) p)" by simp
  have r2: "rest (adv (length v) p) = w1 @ CHR '']'' # t" using r by simp
  have n: "nextElement (CHR '']'') (adv (length v) p) = (Closed, adv (length w1 + 1) (adv (length v) p))"
    by (rule nextElement_closed [OF r2 last_element(2)]) (simp add: isJSONSpace_def)
  show ?case using n by (simp add: j v add_ac)
next
  case (element d v w1 w2 s p t j)
  obtain j' where j: "j = Suc j'" using element.prems(3) by (cases j) auto
  have r: "rest p = [] @ v @ (w1 @ CHR '','' # w2 @ s @ t)" using element.prems(1) by simp
  have "parseValue j' p \<noteq> None" using element.prems(3) unfolding j arrayLoop.simps by (intro notI) simp
  with element.IH(1) [OF r _ element.prems(2)] delimited_simps [OF element(2)]
  have v: "parseValue j' p = Some (True, adv (length v) p)" by simp
  note o = jelements_starts [OF element(4)]
  have r2: "rest (adv (length v) p) = w1 @ '','' @ w2 @ s @ t" using r by simp
  let ?p2 = "adv (length w1 + 1 + length w2) (adv (length v) p)"
  have n: "nextElement (CHR '']'') (adv (length v) p) = (Another, ?p2)"
    using nextElement_another [OF r2 element(2,3)] o starts_solid [OF o] by (simp add: starts_def)
  have r3: "rest ?p2 = s @ t" using r by simp
  have eq: "arrayLoop j p = arrayLoop j' ?p2" by (simp add: j v n del: adv_adv)
  show ?case using element.IH(2) [OF r3, of j'] element.prems(2,3) unfolding eq by (simp add: add.assoc)
qed

end
