(* ===== verification/Shape_Request.thy ===== *)
theory Shape_Request
  imports Shape_Accepts
begin

text \<open>
  The request scanner as a whole. Besides what it says of the fields, its loops scan an object
  the way \<open>parseObject\<close> does, given a little more fuel; so the bodies it accepts are the objects
  of the grammar between white space. Then what the shape of an accepted request is.
\<close>

subsection \<open>More fuel\<close>

lemma objectLoop_parts:
  "parseString p = (Some st, p1) \<Longrightarrow> consume (CHR '':'') (skipSpace p1) = (True, p2) \<Longrightarrow>
   parseValue k p2 = Some (b, p3) \<Longrightarrow> nextElement (CHR ''}'') p3 = (x, p4) \<Longrightarrow>
   objectLoop (Suc k) p = (if b then (case x of Closed \<Rightarrow> Some (True, p4)
     | Another \<Rightarrow> objectLoop k p4 | Broken \<Rightarrow> Some (False, p4)) else Some (False, p3))"
  by (cases b; cases x) simp_all

lemma arrayLoop_parts:
  "parseValue k p = Some (b, p1) \<Longrightarrow> nextElement (CHR '']'') p1 = (x, p2) \<Longrightarrow>
   arrayLoop (Suc k) p = (if b then (case x of Closed \<Rightarrow> Some (True, p2)
     | Another \<Rightarrow> arrayLoop k p2 | Broken \<Rightarrow> Some (False, p2)) else Some (False, p1))"
  by (cases b; cases x) simp_all

lemma value_more:
  "parseValue k p = Some r \<Longrightarrow> parseValue (Suc k) p = Some r"
  "parseObject k p = Some r \<Longrightarrow> parseObject (Suc k) p = Some r"
  "objectLoop k p = Some r \<Longrightarrow> objectLoop (Suc k) p = Some r"
  "parseArray k p = Some r \<Longrightarrow> parseArray (Suc k) p = Some r"
  "arrayLoop k p = Some r \<Longrightarrow> arrayLoop (Suc k) p = Some r"
proof (induction k p and k p and k p and k p and k p arbitrary: r and r and r and r and r
    rule: parseValue_parseObject_objectLoop_parseArray_arrayLoop.induct)
  case (2 fuel p0)
  show ?case using 2(1,2) [OF refl] 2(3) unfolding parseValue.simps(2) [of "Suc fuel"] parseValue.simps(2) [of fuel]
    by (auto simp: Let_def simp del: parseObject.simps parseArray.simps split: if_splits)
next
  case (4 fuel p)
  obtain b1 p1 where e: "enter (CHR ''{'') p = (b1, p1)" by fastforce
  obtain b2 p2 where c: "consume (CHR ''}'') (skipSpace p1) = (b2, p2)" by fastforce
  show ?case using 4(1) [OF e [symmetric] _ c [symmetric]] 4(2) unfolding parseObject.simps(2) [of "Suc fuel"] parseObject.simps(2) [of fuel]
    by (cases b1; cases b2) (auto simp: e c leaveResult_def simp del: objectLoop.simps)
next
  case (6 fuel p)
  obtain r p1 where s: "parseString p = (r, p1)" by fastforce
  obtain b2 p2 where c: "consume (CHR '':'') (skipSpace p1) = (b2, p2)" by fastforce
  show ?case
  proof (cases "r = None \<or> \<not> b2")
    case True
    then show ?thesis using 6(3) by (auto simp: s c split: option.splits bool.splits)
  next
    case False
    then obtain st where f: "r = Some st" "b2 = True" by auto
    obtain b3 p3 where v: "parseValue fuel p2 = Some (b3, p3)"
      using 6(3) f by (auto simp: s c split: option.splits)
    obtain x p4 where n: "nextElement (CHR ''}'') p3 = (x, p4)" by fastforce
    note v' = 6(1) [OF s [symmetric, unfolded f(1)] refl c [symmetric, unfolded f(2)] refl v]
    have IH: "b3 \<Longrightarrow> x = Another \<Longrightarrow> objectLoop fuel p4 = Some r \<Longrightarrow> objectLoop (Suc fuel) p4 = Some r" for r
      using 6(2) [OF s [symmetric, unfolded f(1)] refl] c f n v by simp
    note s' = s [unfolded f(1)] and c' = c [unfolded f(2)]
    show ?thesis
      using 6(3) IH unfolding objectLoop_parts [OF s' c' v' n] objectLoop_parts [OF s' c' v n]
      by (cases b3; cases x) simp_all
  qed
next
  case (8 fuel p)
  obtain b1 p1 where e: "enter (CHR ''['') p = (b1, p1)" by fastforce
  obtain b2 p2 where c: "consume (CHR '']'') (skipSpace p1) = (b2, p2)" by fastforce
  show ?case using 8(1) [OF e [symmetric] _ c [symmetric]] 8(2) unfolding parseArray.simps(2) [of "Suc fuel"] parseArray.simps(2) [of fuel]
    by (cases b1; cases b2) (auto simp: e c leaveResult_def simp del: arrayLoop.simps)
next
  case (10 fuel p)
  obtain b1 p1 where v: "parseValue fuel p = Some (b1, p1)" using 10(3) by (auto split: option.splits)
  obtain x p2 where n: "nextElement (CHR '']'') p1 = (x, p2)" by fastforce
  have IH: "b1 \<Longrightarrow> x = Another \<Longrightarrow> arrayLoop fuel p2 = Some r \<Longrightarrow> arrayLoop (Suc fuel) p2 = Some r" for r
    using 10(2) [OF v refl] n by simp
  show ?case using 10(3) IH unfolding arrayLoop_parts [OF 10(1) [OF v] n] arrayLoop_parts [OF v n]
    by (cases b1; cases x) simp_all
qed auto

lemma value_more_le: "parseValue k p = Some r \<Longrightarrow> parseValue (k + n) p = Some r"
  by (induction n) (use value_more(1) in \<open>auto simp del: parseValue.simps\<close>)

subsection \<open>Scanning as a value\<close>

text \<open>Each method of the request scanner moves, and succeeds, as the method for plain values.\<close>

lemma parseValue_space: "parseValue k (skipSpace p) = parseValue k p"
  by (cases k) (simp_all add: Let_def)

lemma parsePromptElement_value:
  "parsePromptElement k p = Some (e, b, q) \<Longrightarrow> parseValue (k + 2) p = Some (b, q)"
proof -
  assume a: "parsePromptElement k p = Some (e, b, q)"
  let ?p = "skipSpace p"
  obtain r p1 where s: "parseString ?p = (r, p1)" by fastforce
  have arr: "parseTokenArray k ?p = Some (x, b, q) \<Longrightarrow> parseArray (k + 1) ?p = Some (b, q)" for x
    using parseTokenArray_Some [of k ?p x b q] by simp
  have val: "parseValue k ?p = Some (b, q) \<Longrightarrow> parseValue (k + 2) ?p = Some (b, q)"
    by (rule value_more_le)
  consider "\<not> inside ?p" "b = False" "q = ?p"
    | "inside ?p" "current ?p = CHR 0x22" "b = (r \<noteq> None)" "q = p1"
    | x where "inside ?p" "current ?p = CHR ''[''" "parseTokenArray k ?p = Some (x, b, q)"
    | "parseValue k ?p = Some (b, q)"
    using a by (auto simp: parsePromptElement_def Let_def s simp del: parseValue.simps
        split: if_splits option.splits bool.splits prod.splits)
  then have "parseValue (k + 2) ?p = Some (b, q)"
  proof cases
    case 3
    from arr [OF 3(3)] 3(1,2) show ?thesis by (simp del: parseArray.simps)
  next
    case 4
    then show ?thesis by (rule val)
  qed (simp_all add: s)
  then show ?thesis by (simp only: parseValue_space)
qed

lemma parseValue_consumes: "parseValue k p = Some (True, q) \<Longrightarrow> rem q < rem p"
proof -
  assume "parseValue k p = Some (True, q)"
  from value_sound(1) [OF this] obtain w v where v: "jvalue (room p) v" "moves p (w @ v) q" by blast
  have "length (rest p) = length (w @ v) + length (rest q)" using moves_rest [OF v(2)] by simp
  moreover have "v \<noteq> []" using jvalue_starts [OF v(1)] by (simp add: starts_def)
  ultimately show ?thesis by (simp add: length_rest rem_def)
qed

lemma promptLoop_array:
  "promptLoop k count kind s p = Some (n, s', b, q) \<Longrightarrow> count + int (rem p) \<le> MaxInt64 \<Longrightarrow>
   arrayLoop (k + 2) p = Some (b, q)"
proof (induction k count kind s p rule: promptLoop.induct)
  case (2 fuel count kind s p)
  obtain e c p1 where v: "parsePromptElement fuel p = Some (e, c, p1)"
    using 2(2) by (auto split: option.splits)
  note v' = parsePromptElement_value [OF v]
  obtain x p2 where nx: "nextElement (CHR '']'') p1 = (x, p2)" by fastforce
  note step = arrayLoop_parts [OF v' nx]
  show ?case
  proof (cases c)
    case False
    then show ?thesis using 2(2) step by (simp add: v del: arrayLoop.simps)
  next
    case True
    have lt: "rem p1 < rem p" using parseValue_consumes [of "fuel + 2" p p1] v' True by simp
    then have m: "count \<noteq> MaxInt64" using 2(3) by auto
    have IH: "x = Another \<Longrightarrow> arrayLoop (fuel + 2) p2 = Some (b, q)"
      using 2(1) [OF v refl refl _ m refl refl refl nx [symmetric]] 2(2,3) lt nextElement_rem(1) [OF nx] True m
      by (simp add: v nx Let_def del: arrayLoop.simps)
    show ?thesis
    proof (cases x)
      case Another
      with step IH True show ?thesis by (simp del: arrayLoop.simps)
    qed (use 2(2) m True step in \<open>auto simp: v nx Let_def simp del: arrayLoop.simps split: if_splits\<close>)
  qed
qed simp

lemma parseCompletionPrompt_value:
  assumes "parseCompletionPrompt k p = Some (n, s, b, q)" "int (rem p) \<le> MaxInt64"
  shows "parseValue (k + 4) p = Some (b, q)"
proof -
  let ?p = "skipSpace p"
  obtain r p0 where st: "parseString ?p = (r, p0)" by fastforce
  obtain b1 p1 where e: "enter (CHR ''['') ?p = (b1, p1)" by fastforce
  obtain b2 p2 where c: "consume (CHR '']'') (skipSpace p1) = (b2, p2)" by fastforce
  have le: "rem p2 \<le> rem p" using enter_rem(2) [OF e] consume_le [OF c] skip_rem(1) [of p1] skip_rem(1) [of p] by auto
  have loop: "arrayLoop (k + 2) p2 = Some (b', q')" if "promptLoop k 0 promptElementUnsupported True p2 = Some (n', s', b', q')" for n' s' b' q'
    using promptLoop_array [OF that] le assms(2) by simp
  have val: "parseValue k ?p = Some (b', q') \<Longrightarrow> parseValue (k + 4) ?p = Some (b', q')" for b' q'
    by (rule value_more_le)
  have "parseValue (k + 4) ?p = Some (b, q)"
  proof (cases "inside ?p \<and> current ?p = CHR ''[''")
    case True
    then have "parseValue (k + 4) ?p = parseArray (Suc (k + 2)) ?p"
      using parseValue.simps(2) [of "k + 3" ?p] by (simp add: Let_def eval_nat_numeral del: parseArray.simps)
    also have "\<dots> = Some (b, q)"
      using assms(1) loop True
      by (cases b1; cases b2) (auto simp: parseCompletionPrompt_def Let_def e c leaveResult_def simp del: arrayLoop.simps)
    finally show ?thesis .
  next
    case False
    then show ?thesis using assms(1) val
      by (auto simp: parseCompletionPrompt_def Let_def st eval_nat_numeral simp del: parseValue.simps(2) split: if_splits)
        (auto simp: st)
  qed
  then show ?thesis by (simp only: parseValue_space)
qed

lemma parseField_value:
  assumes "parseField k ep key seen sh p = Some (b, seen', sh', q)" "int (rem p) \<le> MaxInt64"
  shows "parseValue (k + 4) p = Some (b, q)"
  using assms parseCompletionPrompt_value [OF _ assms(2), of k] value_more_le [of k p _ 4]
  by (auto simp: parseField_def simp del: parseValue.simps split: if_splits)

lemma rootLoop_parts:
  "parseString p = (Some st, p1) \<Longrightarrow> consume (CHR '':'') (skipSpace p1) = (True, p2) \<Longrightarrow>
   parseField k ep st seen sh (skipSpace p2) = Some (b, seen', sh', p3) \<Longrightarrow> nextElement (CHR ''}'') p3 = (x, p4) \<Longrightarrow>
   \<exists>acc' shape. rootLoop (Suc k) ep seen (sh, n, bo) p = (if b then (case x of Closed \<Rightarrow> Some (shape, True, p4)
     | Another \<Rightarrow> rootLoop k ep seen' acc' p4 | Broken \<Rightarrow> Some (shape, False, p4)) else Some (zeroShape, False, p3))"
  by (cases b; cases x; cases "updateFields ep st (slice (jp_body p3) (jp_index (skipSpace p2)) (jp_index p3)) (sh', n, bo)")
     (auto simp: Let_def intro: exI [of _ "updateFields ep st (slice (jp_body p3) (jp_index (skipSpace p2)) (jp_index p3)) (sh', n, bo)"])

lemma rootLoop_object:
  "rootLoop k ep seen acc p = Some (sh, b, q) \<Longrightarrow> int (rem p) \<le> MaxInt64 \<Longrightarrow> objectLoop (k + 4) p = Some (b, q)"
proof (induction k arbitrary: seen acc p)
  case (Suc k)
  obtain r p1 where s: "parseString p = (r, p1)" by fastforce
  obtain b2 p2 where c: "consume (CHR '':'') (skipSpace p1) = (b2, p2)" by fastforce
  obtain sh0 n bo where acc: "acc = (sh0, n, bo)" by (metis prod.exhaust)
  show ?case
  proof (cases "r = None \<or> \<not> b2")
    case True
    then have "objectLoop (Suc (k + 4)) p = Some (b, q)"
      using Suc.prems(1) unfolding objectLoop.simps by (auto simp: s c split: option.splits bool.splits)
    then show ?thesis by simp
  next
    case False
    then obtain st where f: "r = Some st" "b2 = True" by auto
    note s' = s [unfolded f(1)] and c' = c [unfolded f(2)]
    have le: "rem (skipSpace p2) \<le> rem p"
      using parseString_rem(1) [OF s] consume_le [OF c] skip_rem(1) [of p1] skip_rem(1) [of p2] by auto
    obtain b3 seen' sh' p3 where v: "parseField k ep st seen sh0 (skipSpace p2) = Some (b3, seen', sh', p3)"
      using Suc.prems(1) f by (auto simp: s c acc Let_def split: option.splits)
    have "parseValue (k + 4) (skipSpace p2) = Some (b3, p3)"
      using parseField_value [OF v] le Suc.prems(2) by simp
    then have v': "parseValue (k + 4) p2 = Some (b3, p3)" by (simp only: parseValue_space)
    obtain x p4 where nx: "nextElement (CHR ''}'') p3 = (x, p4)" by fastforce
    have le4: "rem p4 \<le> rem p"
      using parseField_rem [OF v] nextElement_rem(1) [OF nx] le by simp
    obtain acc' shape where step: "rootLoop (Suc k) ep seen acc p = (if b3 then (case x of Closed \<Rightarrow> Some (shape, True, p4)
        | Another \<Rightarrow> rootLoop k ep seen' acc' p4 | Broken \<Rightarrow> Some (shape, False, p4)) else Some (zeroShape, False, p3))"
      using rootLoop_parts [OF s' c' v nx] unfolding acc by blast
    have "objectLoop (Suc (k + 4)) p = Some (b, q)"
      using Suc.prems(1) Suc.IH [of seen' acc' p4] le4 Suc.prems(2)
      unfolding step objectLoop_parts [OF s' c' v' nx] by (cases b3; cases x) auto
    then show ?thesis by simp
  qed
qed simp

lemma parseRootObject_object:
  assumes "parseRootObject k ep p = Some (sh, b, q)" "int (rem p) \<le> MaxInt64"
  shows "parseObject (k + 5) p = Some (b, q)"
proof -
  obtain b1 p1 where e: "enter (CHR ''{'') p = (b1, p1)" by fastforce
  obtain b2 p2 where c: "consume (CHR ''}'') (skipSpace p1) = (b2, p2)" by fastforce
  have "rem p2 \<le> rem p" using enter_rem(2) [OF e] consume_le [OF c] skip_rem(1) [of p1] by auto
  then have loop: "rootLoop k ep False (initialShape, initialFanout, initialFanout) p2 = Some (sh', b', q') \<Longrightarrow>
      objectLoop (k + 4) p2 = Some (b', q')" for sh' b' q'
    using rootLoop_object assms(2) by simp
  have "parseObject (Suc (k + 4)) p = Some (b, q)"
    using assms(1) loop unfolding parseObject.simps
    by (cases b1; cases b2) (auto simp: parseRootObject_def e c leaveResult_def simp del: objectLoop.simps)
  then show ?thesis by (simp add: eval_nat_numeral)
qed

subsection \<open>The bodies accepted\<close>

abbreviation scanStart :: "string \<Rightarrow> jsonShapeParser" where
  "scanStart body \<equiv> \<lparr>jp_body = body, jp_index = 0, jp_depth = 0, jp_depthLimitExceeded = False\<rparr>"

lemma rest_start [simp]: "rest (scanStart body) = body"
  by (simp add: rest_def)

text \<open>A request: an object of at most 128 levels, between white space.\<close>

definition jrequest :: "string \<Rightarrow> bool" where
  "jrequest body \<longleftrightarrow> (\<exists>w s w'. ws w \<and> jobject maximumJSONShapeScanDepth s \<and> ws w' \<and> body = w @ s @ w')"

lemma shape_sound:
  assumes "ParseTPSRequestShape body ep = Some (shape, True)" "int (length body) \<le> MaxInt64"
  shows "jrequest body"
proof -
  let ?p = "skipSpace (scanStart body)"
  obtain w where w: "ws w" "moves (scanStart body) w ?p" using skipSpace_moves by blast
  obtain p1 where p1: "parseRootObject (shapeFuel body) ep ?p = Some (shape, True, p1)"
      "jp_index (skipSpace p1) = length body"
    using assms(1) by (auto simp: ParseTPSRequestShape_def Let_def split: if_splits option.splits)
  have "int (rem ?p) \<le> MaxInt64"
    using skip_rem(1) [of "scanStart body"] assms(2) by (simp add: rem_def)
  from value_sound(2) [OF parseRootObject_object [OF p1(1) this]]
  obtain s where s: "jobject (room ?p) s" "moves ?p s p1" by blast
  obtain w' where w': "ws w'" "moves p1 w' (skipSpace p1)" using skipSpace_moves by blast
  note m = moves_trans [OF w(2) moves_trans [OF s(2) w'(2)]]
  have "rest (skipSpace p1) = []"
    using p1(2) m by (simp add: rest_def moves_def)
  with moves_rest [OF m] have "body = w @ s @ w'" by simp
  moreover have "room ?p = maximumJSONShapeScanDepth" using room_moves [OF w(2)] by simp
  ultimately show ?thesis using w(1) w'(1) s(1) unfolding jrequest_def by metis
qed

lemma shape_complete:
  assumes "jrequest body" "ep \<noteq> EndpointUnknown" "int (length body) \<le> MaxInt64"
  shows "\<exists>shape. ParseTPSRequestShape body ep = Some (shape, True)"
proof -
  obtain w s w' where b: "ws w" "jobject maximumJSONShapeScanDepth s" "ws w'" "body = w @ s @ w'"
    using assms(1) unfolding jrequest_def by blast
  obtain s0 where s0: "s = CHR ''{'' # s0" using jobject_head [OF b(2)] by blast
  then have st: "starts s" by (simp add: starts_def isJSONSpace_def)
  let ?p = "adv (length w) (scanStart body)"
  have r: "rest (scanStart body) = w @ s @ w'" using b(4) by simp
  note sk = skipSpace_starts [OF r b(1) st]
  have le: "rem ?p \<le> length body" by (simp add: rem_def)
  have "parseRootObject (shapeFuel body) ep ?p \<noteq> None"
    using ParseTPSRequestShape_total [of body ep] assms(2) sk s0
    by (auto simp: ParseTPSRequestShape_def Let_def split: option.splits)
  then obtain shape ok p1 where p1: "parseRootObject (shapeFuel body) ep ?p = Some (shape, ok, p1)" by auto
  have o: "parseObject (shapeFuel body + 5) ?p = Some (ok, p1)"
    using parseRootObject_object [OF p1] le assms(3) by simp
  have e: "ok" "p1 = adv (length s) ?p"
    using value_complete(2) [OF b(2) sk(2), of "shapeFuel body + 5"] o by auto
  have "skipSpace p1 = adv (length w') p1"
    using b(3) by (intro skipSpace_solid [of p1 w' "[]"]) (simp_all add: e(2) sk(2) b(4) solid_def)
  then have "skipSpace p1 = adv (length body) (scanStart body)" by (simp add: e(2) b(4) add_ac)
  then show ?thesis using p1 e(1) assms(2) sk s0
    by (simp add: ParseTPSRequestShape_def Let_def adv_def)
qed

lemma shape_accepts_iff:
  assumes "ep \<noteq> EndpointUnknown" "int (length body) \<le> MaxInt64"
  shows "(\<exists>shape. ParseTPSRequestShape body ep = Some (shape, True)) \<longleftrightarrow> jrequest body"
  using shape_sound shape_complete assms by blast

subsection \<open>The shape of an accepted request\<close>

definition shape_ok :: "TPSRequestShape \<Rightarrow> bool" where
  "shape_ok sh \<longleftrightarrow> sh_UnsupportedReason sh = '''' \<and>
     (sh_StreamingKnown sh \<longrightarrow> sh_StreamingPresent sh) \<and> (sh_Streaming sh \<longrightarrow> sh_StreamingKnown sh)"

lemma shape_ok_update [simp]:
  "shape_ok (sh\<lparr>sh_Supported := b\<rparr>) = shape_ok sh" "shape_ok (sh\<lparr>sh_BasePromptCount := c\<rparr>) = shape_ok sh"
  by (simp_all add: shape_ok_def)

lemma parseJSONBoolean_simps: "parseJSONBoolean v = Some True \<Longrightarrow> parseJSONBoolean v \<noteq> None"
  by simp

lemma updateStreaming_ok: "shape_ok sh \<Longrightarrow> shape_ok (updateStreaming sh v)"
  by (auto simp: shape_ok_def updateStreaming_def Let_def)

lemma updateFields_ok: "shape_ok sh \<Longrightarrow> updateFields ep key v (sh, n, bo) = (sh', n', bo') \<Longrightarrow> shape_ok sh'"
  by (auto simp: updateFields_def Let_def updateStreaming_ok split: if_splits prod.splits)

lemma parseField_ok: "shape_ok sh \<Longrightarrow> parseField k ep key seen sh p = Some (b, seen', sh', q) \<Longrightarrow> shape_ok sh'"
  by (auto simp: parseField_def Let_def split: if_splits)

definition shape_final :: "TPSRequestShape \<Rightarrow> bool" where
  "shape_final sh \<longleftrightarrow>
     (if sh_Supported sh
      then 1 \<le> sh_BasePromptCount sh \<and> sh_BasePromptCount sh \<le> sh_DecodeSequences sh \<and>
           sh_DecodeSequences sh \<le> MaxInt64 \<and> sh_BasePromptCount sh dvd sh_DecodeSequences sh \<and>
           sh_UnsupportedReason sh = ''''
      else sh_DecodeSequences sh = 0 \<and> sh_UnsupportedReason sh = ''unsupported_request_shape'') \<and>
     (sh_Streaming sh \<longrightarrow> sh_StreamingKnown sh) \<and> (sh_StreamingKnown sh \<longrightarrow> sh_StreamingPresent sh)"

lemma product_fits:
  fixes b c :: int
  assumes "0 < b" "0 < c" "b \<le> MaxInt64 div c"
  shows "b \<le> b * c" "b * c \<le> MaxInt64"
proof -
  have "b * c \<le> (MaxInt64 div c) * c" using assms by (simp add: mult_right_mono)
  also have "\<dots> \<le> MaxInt64" using assms(2) by (metis div_mult_mod_eq le_add_same_cancel1 pos_mod_sign)
  finally show "b * c \<le> MaxInt64" .
  show "b \<le> b * c" using assms by simp
qed

lemma finalize_final: "shape_ok sh \<Longrightarrow> shape_final (finalizeTPSRequestShape sh ep n bo)"
proof -
  assume ok: "shape_ok sh"
  define c where "c = (if ep = EndpointCompletions \<and> ff_value bo > ff_value n then ff_value bo else ff_value n)"
  define bad where "bad \<longleftrightarrow> \<not> ff_valid n \<or> \<not> ff_valid bo \<or> sh_BasePromptCount sh \<le> 0 \<or> c \<le> 0 \<or> sh_BasePromptCount sh > MaxInt64 div c"
  have f: "finalizeTPSRequestShape sh ep n bo =
     (if bad \<or> \<not> sh_Supported sh
      then (if bad then sh\<lparr>sh_Supported := False\<rparr> else sh)\<lparr>sh_DecodeSequences := 0, sh_UnsupportedReason := ''unsupported_request_shape''\<rparr>
      else sh\<lparr>sh_DecodeSequences := wrap64 (sh_BasePromptCount sh * c)\<rparr>)"
    unfolding finalizeTPSRequestShape_def Let_def c_def [symmetric] bad_def [symmetric] by simp
  show ?thesis
  proof (cases "bad \<or> \<not> sh_Supported sh")
    case True
    with ok show ?thesis unfolding f by (auto simp: shape_final_def shape_ok_def)
  next
    case False
    then have "0 < sh_BasePromptCount sh" "0 < c" "sh_BasePromptCount sh \<le> MaxInt64 div c" by (auto simp: bad_def)
    note fit = product_fits [OF this]
    then have wr: "wrap64 (sh_BasePromptCount sh * c) = sh_BasePromptCount sh * c"
      using \<open>0 < sh_BasePromptCount sh\<close> by (intro wrap64_id) linarith+
    with fit ok False show ?thesis unfolding f wr by (auto simp: shape_final_def shape_ok_def bad_def)
  qed
qed

lemma rootLoop_final:
  "rootLoop k ep seen acc p = Some (sh, True, q) \<Longrightarrow> shape_ok (fst acc) \<Longrightarrow> shape_final sh"
proof (induction k arbitrary: seen acc p)
  case (Suc k)
  obtain r p1 where s: "parseString p = (r, p1)" by fastforce
  obtain b2 p2 where c: "consume (CHR '':'') (skipSpace p1) = (b2, p2)" by fastforce
  obtain sh0 n bo where acc: "acc = (sh0, n, bo)" by (metis prod.exhaust)
  obtain st where st: "r = Some st" using Suc.prems(1) by (cases r) (auto simp: s)
  have b2: "b2" using Suc.prems(1) by (cases b2) (auto simp: s c st)
  obtain b3 seen' sh' p3 where v: "parseField k ep st seen sh0 (skipSpace p2) = Some (b3, seen', sh', p3)"
    using Suc.prems(1) b2 by (auto simp: s c st acc Let_def split: option.splits)
  obtain x p4 where nx: "nextElement (CHR ''}'') p3 = (x, p4)" by fastforce
  obtain sh2 n2 bo2 where u: "updateFields ep st (slice (jp_body p3) (jp_index (skipSpace p2)) (jp_index p3)) (sh', n, bo) = (sh2, n2, bo2)"
    by (metis prod.exhaust)
  have ok: "shape_ok sh2" using updateFields_ok [OF parseField_ok [OF _ v] u] Suc.prems(2) acc by simp
  show ?case
    using Suc.prems(1) Suc.IH [of seen' "(sh2, n2, bo2)" p4] ok finalize_final [OF ok] b2
    by (cases b3; cases x) (auto simp: s c st acc v nx u Let_def)
qed simp

lemma ParseTPSRequestShape_final:
  assumes "ParseTPSRequestShape body ep = Some (sh, True)"
  shows "shape_final sh"
proof -
  have i: "shape_ok initialShape" by (simp add: shape_ok_def initialShape_def zeroShape_def)
  from assms obtain q where "parseRootObject (shapeFuel body) ep (skipSpace (scanStart body)) = Some (sh, True, q)"
    by (auto simp: ParseTPSRequestShape_def Let_def split: if_splits option.splits)
  then show ?thesis
    using rootLoop_final i finalize_final [OF i]
    by (fastforce simp: parseRootObject_def split: bool.splits prod.splits)
qed

subsection \<open>Decimal numbers\<close>

definition decimalFrom :: "int \<Rightarrow> string \<Rightarrow> int" where
  "decimalFrom r s = foldl (\<lambda>a c. a * 10 + digitOf c) r s"

lemma decimalFrom_simps [simp]: "decimalFrom r [] = r" "decimalFrom r (c # s) = decimalFrom (r * 10 + digitOf c) s"
  by (simp_all add: decimalFrom_def)

lemma digitOf_range: "isJSONDigit c \<Longrightarrow> 0 \<le> digitOf c \<and> digitOf c \<le> 9"
  by (auto simp: isJSONDigit_def digitOf_def)

lemma decimalFrom_ge: "list_all isJSONDigit s \<Longrightarrow> 0 \<le> r \<Longrightarrow> r \<le> decimalFrom r s"
proof (induction s arbitrary: r)
  case (Cons c s)
  then have "0 \<le> digitOf c" using digitOf_range [of c] by simp
  then show ?case using Cons.prems Cons.IH [of "r * 10 + digitOf c"] by simp
qed simp

lemma accumulate_eq:
  "isJSONDigit c \<Longrightarrow> accumulate r c = (if r * 10 + digitOf c \<le> MaxInt64 then Some (r * 10 + digitOf c) else None)"
  using digitOf_range [of c] by (simp add: accumulate_def zdiv_int) linarith

lemma parse_digits:
  "0 \<le> r \<Longrightarrow> r \<le> MaxInt64 \<Longrightarrow> foldo (\<lambda>result v. if \<not> isJSONDigit v then None else accumulate result v) r s =
     (if list_all isJSONDigit s \<and> decimalFrom r s \<le> MaxInt64 then Some (decimalFrom r s) else None)"
proof (induction s arbitrary: r)
  case (Cons c s)
  show ?case
  proof (cases "isJSONDigit c")
    case True
    note d = digitOf_range [OF True]
    show ?thesis
    proof (cases "r * 10 + digitOf c \<le> MaxInt64")
      case True
      then show ?thesis using Cons.IH [of "r * 10 + digitOf c"] Cons.prems d \<open>isJSONDigit c\<close> by (simp add: accumulate_eq)
    next
      case False
      then have "list_all isJSONDigit s \<Longrightarrow> MaxInt64 < decimalFrom (r * 10 + digitOf c) s"
        using decimalFrom_ge [of s "r * 10 + digitOf c"] Cons.prems d by linarith
      with False \<open>isJSONDigit c\<close> show ?thesis by (auto simp: accumulate_eq)
    qed
  qed simp
qed simp

lemma parseNonnegativeInt64_eq:
  "parseNonnegativeInt64 s =
     (if s \<noteq> [] \<and> list_all isJSONDigit s \<and> decimalFrom 0 s \<le> MaxInt64 then Some (decimalFrom 0 s) else None)"
  by (simp add: parseNonnegativeInt64_def parse_digits)

end
