(* ===== verification/Shape_Strings.thy ===== *)
theory Shape_Strings
  imports Shape
begin

text \<open>
  The comparison of a key of the request with an ASCII name. The code compares without building
  the decoded string; the reference \<open>unescape\<close> builds it. They agree, and every ASCII name is
  found again when each of its characters is written as an escape.
\<close>

definition hexQuad :: "char \<Rightarrow> char \<Rightarrow> char \<Rightarrow> char \<Rightarrow> nat option" where
  "hexQuad a b c d = (case (jsonHexValue a, jsonHexValue b, jsonHexValue c, jsonHexValue d) of
     (Some w, Some x, Some y, Some z) \<Rightarrow> Some (((w * 16 + x) * 16 + y) * 16 + z)
   | _ \<Rightarrow> None)"

definition simpleEscape :: "char \<Rightarrow> char option" where
  "simpleEscape e = map_of [(CHR 0x22, CHR 0x22), (CHR 0x5C, CHR 0x5C), (CHR ''/'', CHR ''/''), (CHR ''b'', CHR 0x08),
     (CHR ''f'', CHR 0x0C), (CHR ''n'', CHR 0x0A), (CHR ''r'', CHR 0x0D), (CHR ''t'', CHR 0x09)] e"

text \<open>The first character of a string literal and what is left of the literal.\<close>

definition unescape1 :: "string \<Rightarrow> (char \<times> string) option" where
  "unescape1 s = (case s of
     [] \<Rightarrow> None
   | c # t \<Rightarrow>
       if c \<noteq> CHR 0x5C then (if byte c < 128 then Some (c, t) else None)
       else (case t of
         [] \<Rightarrow> None
       | e # u \<Rightarrow>
           if e = CHR ''u'' then (case u of
               a # b # c # d # v \<Rightarrow> (case hexQuad a b c d of
                   Some n \<Rightarrow> if n < 128 then Some (char_of n, v) else None
                 | None \<Rightarrow> None)
             | _ \<Rightarrow> None)
           else map_option (\<lambda>x. (x, u)) (simpleEscape e)))"

lemma unescape1_shorter: "unescape1 s = Some (c, t) \<Longrightarrow> length t < length s"
  by (auto simp: unescape1_def split: list.splits if_splits option.splits)

function unescape :: "string \<Rightarrow> string option" where
  "unescape s = (if s = [] then Some [] else case unescape1 s of
     None \<Rightarrow> None | Some (c, t) \<Rightarrow> map_option ((#) c) (unescape t))"
  by pat_completeness auto
termination
  by (relation "measure length") (auto dest: unescape1_shorter)

declare unescape.simps [simp del]

lemma hex_less: "jsonHexValue c = Some n \<Longrightarrow> n < 16"
  by (auto simp: jsonHexValue_def split: if_splits)

lemma foldo4: "foldo f x [a, b, c, d] = Option.bind (f x a) (\<lambda>x. Option.bind (f x b) (\<lambda>x. Option.bind (f x c) (\<lambda>x. f x d)))"
  by (simp split: option.split Option.bind_split)

lemma quad_fold:
  assumes "r 0 = a" "r 1 = b" "r 2 = c" "r 3 = d"
  shows "foldo (\<lambda>codeUnit offset. case jsonHexValue (r offset) of
      None \<Rightarrow> None | Some hex \<Rightarrow> Some ((codeUnit * 16) mod 65536 + hex)) 0 [0, 1, 2, 3] = hexQuad a b c d"
  unfolding foldo4 assms hexQuad_def by (auto dest!: hex_less split: option.split)

lemma simpleEscape_cases:
  "simpleEscape e =
     (if e \<in> {CHR 0x22, CHR 0x5C, CHR ''/''} then Some e
      else if e = CHR ''b'' then Some (CHR 0x08)
      else if e = CHR ''f'' then Some (CHR 0x0C)
      else if e = CHR ''n'' then Some (CHR 0x0A)
      else if e = CHR ''r'' then Some (CHR 0x0D)
      else if e = CHR ''t'' then Some (CHR 0x09) else None)"
  by (simp add: simpleEscape_def)

lemma raw_nth: "(pre @ s) ! (length pre) = s ! 0" "(pre @ s) ! (length pre + k) = s ! k"
    "(pre @ s) ! (length pre + k + j) = s ! (k + j)" for pre s :: string
  using nth_append_length_plus [of pre s 0] nth_append_length_plus [of pre s k] nth_append_length_plus [of pre s "k + j"]
  by (simp_all only: add_0_right add.assoc)

lemma next_plain:
  assumes "c \<noteq> CHR 0x5C"
  shows "nextEscapedJSONStringASCII (pre @ c # t) (length pre) = (if byte c < 128 then Some (c, length pre + 1) else None)"
  using assms by (simp add: nextEscapedJSONStringASCII_def raw_nth Let_def)

lemma next_escape:
  assumes "e \<noteq> CHR ''u''"
  shows "nextEscapedJSONStringASCII (pre @ CHR 0x5C # e # t) (length pre) =
     map_option (\<lambda>x. (x, length pre + 2)) (simpleEscape e)"
  using assms unfolding nextEscapedJSONStringASCII_def raw_nth Let_def simpleEscape_cases
  by (simp only: list.simps nth_Cons_0 nth_Cons_Suc One_nat_def length_append add_Suc_right if_False if_True if_distrib [of "map_option _"] option.map)
     simp

lemma next_unicode:
  "nextEscapedJSONStringASCII (pre @ CHR 0x5C # CHR ''u'' # a # b # c # d # t) (length pre) =
     (case hexQuad a b c d of Some n \<Rightarrow> if n < 128 then Some (char_of n, length pre + 6) else None | None \<Rightarrow> None)"
proof -
  let ?s = "CHR 0x5C # CHR ''u'' # a # b # c # d # t"
  have q: "foldo (\<lambda>codeUnit offset. case jsonHexValue (?s ! (2 + offset)) of
      None \<Rightarrow> None | Some hex \<Rightarrow> Some ((codeUnit * 16) mod 65536 + hex)) 0 [0, 1, 2, 3] = hexQuad a b c d"
    by (rule quad_fold) simp_all
  have "?s ! 0 = CHR 0x5C" "?s ! 1 = CHR ''u''" by simp_all
  then show ?thesis
    unfolding nextEscapedJSONStringASCII_def raw_nth Let_def q
    by (simp del: foldo.simps split: option.split)
qed

lemma next_short:
  "length t < 4 \<Longrightarrow> nextEscapedJSONStringASCII (pre @ CHR 0x5C # CHR ''u'' # t) (length pre) = None"
  "nextEscapedJSONStringASCII (pre @ [CHR 0x5C]) (length pre) = None"
  unfolding nextEscapedJSONStringASCII_def raw_nth Let_def by simp_all

lemma unescape1_simps:
  "c \<noteq> CHR 0x5C \<Longrightarrow> unescape1 (c # t) = (if byte c < 128 then Some (c, t) else None)"
  "unescape1 [CHR 0x5C] = None"
  "e \<noteq> CHR ''u'' \<Longrightarrow> unescape1 (CHR 0x5C # e # t) = map_option (\<lambda>x. (x, t)) (simpleEscape e)"
  "unescape1 (CHR 0x5C # CHR ''u'' # a # b # x # d # t) =
     (case hexQuad a b x d of Some n \<Rightarrow> if n < 128 then Some (char_of n, t) else None | None \<Rightarrow> None)"
  "length t < 4 \<Longrightarrow> unescape1 (CHR 0x5C # CHR ''u'' # t) = None"
  by (auto simp: unescape1_def split: list.split)

text \<open>The two ways to read a character agree: \<open>k\<close> bytes are read and dropped.\<close>

lemma literal_cases:
  obtains "s = []" | c t where "s = c # t" "c \<noteq> CHR 0x5C" | "s = [CHR 0x5C]"
    | e t where "s = CHR 0x5C # e # t" "e \<noteq> CHR ''u''"
    | a b c d t where "s = CHR 0x5C # CHR ''u'' # a # b # c # d # t"
    | t where "s = CHR 0x5C # CHR ''u'' # t" "length t < 4"
proof (cases s)
  case (Cons c t)
  note s = this
  show thesis
  proof (cases "c = CHR 0x5C")
    case True
    note c = this
    show thesis
    proof (cases t)
      case (Cons e u)
      show thesis
      proof (cases "e = CHR ''u''")
        case True
        show thesis
        proof (cases "length u < 4")
          case False
          then obtain w x y z v where "u = w # x # y # z # v"
            by (auto simp: not_less numeral_eq_Suc Suc_le_length_iff)
          then show thesis using that(5) s c Cons True by blast
        qed (use that(6) s c Cons True in blast)
      qed (use that(4) s c Cons in blast)
    qed (use that(3) s c in blast)
  qed (use that(2) s in blast)
qed (use that(1) in blast)

lemma nextEscaped_unescape1:
  "s \<noteq> [] \<Longrightarrow> (case unescape1 s of
     None \<Rightarrow> nextEscapedJSONStringASCII (pre @ s) (length pre) = None
   | Some (c, t) \<Rightarrow> \<exists>r. s = r @ t \<and> nextEscapedJSONStringASCII (pre @ s) (length pre) = Some (c, length (pre @ r)))"
proof (cases s rule: literal_cases)
  case (4 e t)
  then show ?thesis
    by (auto simp: unescape1_simps next_escape intro!: exI [of _ "[CHR 0x5C, e]"] split: option.split)
next
  case (5 a b c d t)
  then show ?thesis
    by (auto simp: unescape1_simps next_unicode intro!: exI [of _ "[CHR 0x5C, CHR ''u'', a, b, c, d]"] split: option.split)
qed (auto simp: unescape1_simps next_plain next_short)

text \<open>The comparison decodes as it goes.\<close>

lemma escapedEquals_unescape:
  "escapedEqualsFrom (pre @ s) (cpre @ cand) (length pre) (length cpre) \<longleftrightarrow> unescape s = Some cand"
proof (induction s arbitrary: pre cpre cand rule: unescape.induct)
  case (1 s)
  show ?case
  proof (cases "s = []")
    case True
    then show ?thesis by (auto simp: escapedEqualsFrom.simps [of pre] unescape.simps [of "[]"])
  next
    case False
    note nx = nextEscaped_unescape1 [OF False, of pre]
    show ?thesis
    proof (cases "unescape1 s")
      case None
      with False nx show ?thesis
        by (simp add: escapedEqualsFrom.simps [of "pre @ s"] unescape.simps [of s])
    next
      case (Some y)
      then obtain c t where y: "unescape1 s = Some (c, t)" by (cases y) auto
      with nx obtain r where r: "s = r @ t" "nextEscapedJSONStringASCII (pre @ s) (length pre) = Some (c, length (pre @ r))"
        by auto
      have IH: "escapedEqualsFrom ((pre @ r) @ t) ((cpre @ [x]) @ cand') (length (pre @ r)) (length (cpre @ [x])) \<longleftrightarrow>
          unescape t = Some cand'" for x cand'
        by (rule 1 [OF False y refl])
      show ?thesis
      proof (cases cand)
        case Nil
        with False y r(2) show ?thesis
          by (auto simp: escapedEqualsFrom.simps [of "pre @ s"] unescape.simps [of s])
      next
        case (Cons x cand')
        have "escapedEqualsFrom (pre @ s) (cpre @ cand) (length pre) (length cpre) \<longleftrightarrow>
            x = c \<and> escapedEqualsFrom ((pre @ r) @ t) ((cpre @ [x]) @ cand') (length (pre @ r)) (length (cpre @ [x]))"
          using False r(2) Cons r(1) [symmetric]
          by (subst escapedEqualsFrom.simps) (simp add: r(1) [symmetric])
        then show ?thesis using IH [of x cand'] False y Cons by (auto simp: unescape.simps [of s])
      qed
    qed
  qed
qed

lemma escapedEquals_eq: "escapedJSONStringEqualsASCII raw cand \<longleftrightarrow> unescape raw = Some cand"
  using escapedEquals_unescape [of "[]" raw "[]" cand] by (simp add: escapedJSONStringEqualsASCII_def)

subsection \<open>Writing a name with escapes\<close>

definition hexDigit :: "nat \<Rightarrow> char" where
  "hexDigit n = char_of (if n < 10 then 48 + n else 87 + n)"

definition escapeChar :: "char \<Rightarrow> string" where
  "escapeChar c = [CHR 0x5C, CHR ''u'', CHR ''0'', CHR ''0'', hexDigit (byte c div 16), hexDigit (byte c mod 16)]"

lemma byte_char_of: "n < 256 \<Longrightarrow> byte (char_of n) = n"
  by (simp add: byte_def)

lemma hexDigit_value: "n < 16 \<Longrightarrow> jsonHexValue (hexDigit n) = Some n"
  by (auto simp: hexDigit_def jsonHexValue_def byte_char_of)

lemma unescape_escapeChar:
  assumes "byte c < 128"
  shows "unescape (escapeChar c @ t) = map_option ((#) c) (unescape t)"
proof -
  have z: "jsonHexValue (CHR ''0'') = Some 0" by (simp add: jsonHexValue_def byte_def)
  have "byte c div 16 < 16" using assms by linarith
  then have q: "hexQuad (CHR ''0'') (CHR ''0'') (hexDigit (byte c div 16)) (hexDigit (byte c mod 16)) = Some (byte c)"
    by (simp add: hexQuad_def z hexDigit_value mult.commute)
  have "unescape1 (escapeChar c @ t) = Some (c, t)"
    using assms by (simp add: escapeChar_def unescape1_simps q) (simp add: byte_def)
  moreover have "escapeChar c \<noteq> []" by (simp add: escapeChar_def)
  ultimately show ?thesis unfolding unescape.simps [of "escapeChar c @ t"] by simp
qed

lemma unescape_escape: "list_all (\<lambda>c. byte c < 128) s \<Longrightarrow> unescape (concat (map escapeChar s)) = Some s"
  by (induction s) (simp_all add: unescape_escapeChar unescape.simps [of "[]"])

end
