(* ===== verification/Scheduling.thy ===== *)
theory Scheduling
  imports Shape_Accepts
begin

text \<open>
  \<open>internal/app/request/scheduling_priority.go\<close>: the member \<open>"priority"\<close> that is written as the last
  one of a request object, in the buffered body at once or in a streamed body byte by byte.

  A source of bytes is the list of the results its next reads give; after the last it is at its end.
  Bytes are characters.
\<close>

subsection \<open>Numbers as text\<close>

text \<open>\<open>strconv.Itoa\<close>.\<close>

fun decimal :: "nat \<Rightarrow> string" where
  "decimal n = (if n < 10 then [char_of (48 + n)] else decimal (n div 10) @ [char_of (48 + n mod 10)])"

declare decimal.simps [simp del]

definition Itoa :: "int \<Rightarrow> string" where
  "Itoa value = (if value < 0 then CHR ''-'' # decimal (nat (- value)) else decimal (nat value))"

subsection \<open>The streamed body\<close>

type_synonym readResults = "(string \<times> string option) list"

definition sourceRead :: "readResults \<Rightarrow> string \<times> string option \<times> readResults" where
  "sourceRead source = (case source of [] \<Rightarrow> ([], Some ''EOF'', []) | (bytes, err) # later \<Rightarrow> (bytes, err, later))"

record schedulingPriorityBody =
  sp_source :: readResults
  sp_member :: string
  sp_pending :: string
  sp_offset :: nat
  sp_readErr :: "string option"
  sp_started :: bool
  sp_rootObject :: bool
  sp_depth :: int
  sp_inString :: bool
  sp_escaped :: bool
  sp_hasMember :: bool
  sp_injected :: bool

definition jsonWhitespace :: "char \<Rightarrow> bool" where
  "jsonWhitespace value \<longleftrightarrow> value = CHR '' '' \<or> value = CHR 0x09 \<or> value = CHR 0x0D \<or> value = CHR 0x0A"

definition transform :: "schedulingPriorityBody \<Rightarrow> char \<Rightarrow> schedulingPriorityBody" where
  "transform b value =
     (if \<not> sp_started b then
        (if jsonWhitespace value then b
         else b\<lparr>sp_started := True, sp_rootObject := (value = CHR ''{''), sp_depth := 1\<rparr>)
      else if \<not> sp_rootObject b \<or> sp_injected b then b
      else if sp_inString b then
        (if sp_escaped b then b\<lparr>sp_escaped := False\<rparr>
         else if value = CHR 0x5C then b\<lparr>sp_escaped := True\<rparr>
         else if value = CHR 0x22 then b\<lparr>sp_inString := False\<rparr>
         else b)
      else
        let b1 =
          (if value = CHR 0x22 then b\<lparr>sp_inString := True\<rparr>
           else if value = CHR ''{'' \<or> value = CHR ''['' then b\<lparr>sp_depth := sp_depth b + 1\<rparr>
           else if value = CHR ''}'' \<or> value = CHR '']'' then
             (let b' = (if value = CHR ''}'' \<and> sp_depth b = 1
                        then b\<lparr>sp_pending := sp_pending b @ (if sp_hasMember b then '','' else []) @ sp_member b,
                               sp_injected := True\<rparr>
                        else b)
              in b'\<lparr>sp_depth := sp_depth b' - 1\<rparr>)
           else b)
        in if sp_depth b1 = 1 \<and> \<not> jsonWhitespace value then b1\<lparr>sp_hasMember := True\<rparr> else b1)"

text \<open>One byte of the loop of \<open>Read\<close>.\<close>

definition feed :: "schedulingPriorityBody \<Rightarrow> char \<Rightarrow> schedulingPriorityBody" where
  "feed b value = (let b' = transform b value in b'\<lparr>sp_pending := sp_pending b' @ [value]\<rparr>)"

text \<open>The copy at the end of \<open>Read\<close> into a destination of \<open>n\<close> bytes.\<close>

definition serve :: "schedulingPriorityBody \<Rightarrow> nat \<Rightarrow> schedulingPriorityBody \<times> string \<times> string option" where
  "serve b n = (let out = take n (drop (sp_offset b) (sp_pending b))
     in (b\<lparr>sp_offset := sp_offset b + length out\<rparr>, out, None))"

definition scheduling_Read :: "schedulingPriorityBody \<Rightarrow> nat \<Rightarrow> schedulingPriorityBody \<times> string \<times> string option" where
  "scheduling_Read b n =
     (if n = 0 then (b, [], None)
      else if sp_offset b = length (sp_pending b) then
        (case sp_readErr b of
           Some err \<Rightarrow> (b, [], Some err)
         | None \<Rightarrow> (case sourceRead (sp_source b) of
             (input, err, later) \<Rightarrow>
               let b1 = foldl feed (b\<lparr>sp_source := later, sp_readErr := err, sp_pending := [], sp_offset := 0\<rparr>) input
               in if input = [] then (b1, [], err) else serve b1 n))
      else serve b n)"

subsection \<open>Setting the priority of a request\<close>

text \<open>White space of Unicode in UTF-8: the bytes of ASCII, two of two bytes, and those of three.\<close>

definition narrowSpace :: "char \<Rightarrow> bool" where
  "narrowSpace c \<longleftrightarrow> byte c \<in> {9, 10, 11, 12, 13, 32}"

definition pairSpace :: "char \<Rightarrow> char \<Rightarrow> bool" where
  "pairSpace c x \<longleftrightarrow> byte c = 0xC2 \<and> byte x \<in> {0x85, 0xA0}"

definition wideSpace :: "char \<Rightarrow> char \<Rightarrow> char \<Rightarrow> bool" where
  "wideSpace c x y \<longleftrightarrow>
     byte c = 0xE1 \<and> byte x = 0x9A \<and> byte y = 0x80 \<or>
     byte c = 0xE2 \<and> byte x = 0x80 \<and> (0x80 \<le> byte y \<and> byte y \<le> 0x8A \<or> byte y \<in> {0xA8, 0xA9, 0xAF}) \<or>
     byte c = 0xE2 \<and> byte x = 0x81 \<and> byte y = 0x9F \<or>
     byte c = 0xE3 \<and> byte x = 0x80 \<and> byte y = 0x80"

text \<open>The left half of \<open>TrimSpace\<close>; when it leaves nothing there is nothing for the right half.\<close>

fun trimLeft :: "string \<Rightarrow> string" where
  "trimLeft [] = []"
| "trimLeft [c] = (if narrowSpace c then [] else [c])"
| "trimLeft [c, x] = (if narrowSpace c then trimLeft [x] else if pairSpace c x then [] else [c, x])"
| "trimLeft (c # x # y # s) =
     (if narrowSpace c then trimLeft (x # y # s)
      else if pairSpace c x then trimLeft (y # s)
      else if wideSpace c x y then trimLeft s
      else c # x # y # s)"

definition trimmedEmpty :: "string \<Rightarrow> bool" where
  "trimmedEmpty s \<longleftrightarrow> trimLeft s = []"

text \<open>\<open>bytes.IndexByte\<close> and \<open>bytes.LastIndexByte\<close>.\<close>

definition indexByte :: "string \<Rightarrow> char \<Rightarrow> nat option" where
  "indexByte s c = (let before = takeWhile (\<lambda>x. x \<noteq> c) s in if length before < length s then Some (length before) else None)"

definition lastIndexByte :: "string \<Rightarrow> char \<Rightarrow> nat option" where
  "lastIndexByte s c = (let after = takeWhile (\<lambda>x. x \<noteq> c) (rev s)
     in if length after < length s then Some (length s - 1 - length after) else None)"

text \<open>
  A body: kept by the classifier with its buffer and what of it has not been read, kept with a reader
  that is not in memory or without a buffer, or anything else, a body rewritten before included; the
  last two are read as a stream.
\<close>

datatype requestBody =
    KeptBody string string
  | SourceBody readResults

record bodyRequest =
  br_Path :: string
  br_ContentType :: string
  br_Body :: "requestBody option"
  br_ContentLength :: int

text \<open>What is done with the request; the result of the function is whether it was protected.\<close>

datatype schedulingResult =
    PriorityNotSet
  | PriorityBuffered bodyRequest
  | PriorityStreamed bodyRequest schedulingPriorityBody

definition priorityMember :: "int \<Rightarrow> string" where
  "priorityMember value = [CHR 0x22] @ ''priority'' @ [CHR 0x22] @ '':'' @ Itoa value"

definition newSchedulingPriorityBody :: "readResults \<Rightarrow> string \<Rightarrow> schedulingPriorityBody" where
  "newSchedulingPriorityBody source member =
     \<lparr>sp_source = source, sp_member = member, sp_pending = [], sp_offset = 0, sp_readErr = None,
      sp_started = False, sp_rootObject = False, sp_depth = 0, sp_inString = False, sp_escaped = False,
      sp_hasMember = False, sp_injected = False\<rparr>"

definition setStreamingSchedulingPriority :: "bodyRequest \<Rightarrow> readResults \<Rightarrow> int \<Rightarrow> schedulingResult" where
  "setStreamingSchedulingPriority r source value =
     PriorityStreamed (r\<lparr>br_Body := None, br_ContentLength := -1\<rparr>)
       (newSchedulingPriorityBody source (priorityMember value))"

text \<open>The rewriting of a buffer, \<open>None\<close> when it does not look like an object.\<close>

definition rewriteBuffer :: "string \<Rightarrow> int \<Rightarrow> string option" where
  "rewriteBuffer original value =
     (case lastIndexByte original (CHR ''}'') of
        None \<Rightarrow> None
      | Some e \<Rightarrow>
          if \<not> trimmedEmpty (drop (e + 1) original) then None
          else case indexByte original (CHR ''{'') of
            None \<Rightarrow> None
          | Some s \<Rightarrow>
              if s \<ge> e then None
              else
                let member0 = priorityMember value;
                    inner = drop (s + 1) (take e original);
                    member = (if \<not> trimmedEmpty inner then '','' @ member0 else member0)
                in Some (take e original @ member @ drop e original))"

text \<open>\<open>contentTypeJSON\<close> is \<open>requestContentTypeJSON\<close>, see \<open>Classify\<close>.\<close>

definition SetSchedulingPriority :: "(string \<Rightarrow> bool) \<Rightarrow> bodyRequest \<Rightarrow> int \<Rightarrow> schedulingResult" where
  "SetSchedulingPriority contentTypeJSON r value =
     (case br_Body r of
        None \<Rightarrow> PriorityNotSet
      | Some body \<Rightarrow>
          if EndpointForPath (br_Path r) = EndpointUnknown \<or> \<not> contentTypeJSON (br_ContentType r) then PriorityNotSet
          else (case body of
              SourceBody source \<Rightarrow> setStreamingSchedulingPriority r source value
            | KeptBody original unread \<Rightarrow>
                if length unread \<noteq> length original then PriorityNotSet
                else (case rewriteBuffer original value of
                    None \<Rightarrow> PriorityNotSet
                  | Some rewritten \<Rightarrow>
                      PriorityBuffered (r\<lparr>br_Body := Some (KeptBody original rewritten),
                        br_ContentLength := int (length rewritten)\<rparr>))))"

end
