(* ===== verification/Classify.thy ===== *)
theory Classify
  imports Scheduling Shape_Request "HOL-Library.Word" "HOL-Library.Sublist"
begin

text \<open>
  \<open>internal/app/request\<close>: the budget of bodies held in memory (\<open>classifier.go\<close>), reading and
  classifying a request (\<open>json_output.go\<close>), the fingerprint of its prompt
  (\<open>prompt_fingerprint.go\<close>) and the tier it claims (\<open>tier.go\<close>).

  Three functions of the standard library are arguments where they are used: the media type that
  \<open>mime.ParseMediaType\<close> finds, \<open>json.Valid\<close>, and the bytes of the fields beside the prompt as
  \<open>json.Unmarshal\<close> and \<open>json.Marshal\<close> give them. The operations on the counters are atomic in the
  code and one step here; the pool of buffers is the number of buffers in it.
\<close>

unbundle bit_operations_syntax

subsection \<open>The classifier\<close>

abbreviation maximumRetainedBodyBufferBytes :: int where "maximumRetainedBodyBufferBytes \<equiv> 33554432"
abbreviation maximumOutstandingBodyBytes :: int where "maximumOutstandingBodyBytes \<equiv> 33554432"
abbreviation MinRead :: int where "MinRead \<equiv> 512"

record classifierConfig =
  cc_MaximumBodyBytes :: int
  cc_MaximumConcurrent :: int

record Classifier =
  cl_cfg :: classifierConfig
  cl_tokens :: "nat option"
  cl_bodyPool :: nat
  cl_poolCapacity :: nat
  cl_maximumReservedBodyBytes :: int
  cl_inflight :: int
  cl_reservedBodyBytes :: int
  cl_rejected :: nat

definition outstandingBodyBudget :: "classifierConfig \<Rightarrow> int" where
  "outstandingBodyBudget cfg =
     (if cc_MaximumBodyBytes cfg \<le> 0 then 0
      else
        let maximum = (if cc_MaximumBodyBytes cfg > maximumOutstandingBodyBytes
                       then cc_MaximumBodyBytes cfg else maximumOutstandingBodyBytes)
        in if cc_MaximumConcurrent cfg \<le> 0 then maximum
           else if cc_MaximumBodyBytes cfg > maximum div cc_MaximumConcurrent cfg then maximum
           else
             let configuredMaximum = cc_MaximumBodyBytes cfg * cc_MaximumConcurrent cfg
             in if configuredMaximum < maximum then configuredMaximum else maximum)"

definition retainedBodyBufferCount :: "classifierConfig \<Rightarrow> int" where
  "retainedBodyBufferCount cfg =
     (if cc_MaximumBodyBytes cfg \<le> 0 \<or> cc_MaximumBodyBytes cfg > maximumRetainedBodyBufferBytes - MinRead then 0
      else
        let maximumConcurrent = (if cc_MaximumConcurrent cfg < 1 then 1 else cc_MaximumConcurrent cfg);
            retainedBuffers = maximumRetainedBodyBufferBytes div (cc_MaximumBodyBytes cfg + MinRead)
        in if retainedBuffers > maximumConcurrent then maximumConcurrent else retainedBuffers)"

definition newClassifier :: "classifierConfig \<Rightarrow> Classifier" where
  "newClassifier cfg =
     \<lparr>cl_cfg = cfg, cl_tokens = (if cc_MaximumConcurrent cfg > 0 then Some 0 else None), cl_bodyPool = 0,
      cl_poolCapacity = nat (retainedBodyBufferCount cfg),
      cl_maximumReservedBodyBytes = outstandingBodyBudget cfg, cl_inflight = 0,
      cl_reservedBodyBytes = 0, cl_rejected = 0\<rparr>"

definition bodyReservationBytes :: "Classifier \<Rightarrow> int \<Rightarrow> int" where
  "bodyReservationBytes c contentLength =
     (if cc_MaximumBodyBytes (cl_cfg c) \<le> 0 then 0
      else if contentLength \<le> 0 \<or> contentLength > cc_MaximumBodyBytes (cl_cfg c)
      then cc_MaximumBodyBytes (cl_cfg c)
      else contentLength)"

definition reserveBodyBytes :: "Classifier \<Rightarrow> int \<Rightarrow> Classifier \<times> bool" where
  "reserveBodyBytes c bytes =
     (if bytes < 0 then (c, False)
      else if bytes = 0 \<or> cl_maximumReservedBodyBytes c \<le> 0 then (c, True)
      else
        let current = cl_reservedBodyBytes c
        in if current < 0 \<or> current > cl_maximumReservedBodyBytes c \<or>
              bytes > cl_maximumReservedBodyBytes c - current then (c, False)
           else (c\<lparr>cl_reservedBodyBytes := current + bytes\<rparr>, True))"

definition releaseBodyBytes :: "Classifier \<Rightarrow> int \<Rightarrow> Classifier \<times> bool" where
  "releaseBodyBytes c bytes =
     (if bytes < 0 then (c, False)
      else if bytes = 0 \<or> cl_maximumReservedBodyBytes c \<le> 0 then (c, True)
      else
        let current = cl_reservedBodyBytes c
        in if current < bytes then (c, False)
           else (c\<lparr>cl_reservedBodyBytes := current - bytes\<rparr>, True))"

definition acquire :: "Classifier \<Rightarrow> int \<Rightarrow> Classifier \<times> int option" where
  "acquire c contentLength =
     (if (case cl_tokens c of None \<Rightarrow> False | Some n \<Rightarrow> int n \<ge> cc_MaximumConcurrent (cl_cfg c))
      then (c\<lparr>cl_rejected := wrapu64 (cl_rejected c + 1)\<rparr>, None)
      else
        let c1 = c\<lparr>cl_tokens := map_option Suc (cl_tokens c)\<rparr>;
            reservedBytes = bodyReservationBytes c1 contentLength
        in case reserveBodyBytes c1 reservedBytes of
             (c2, False) \<Rightarrow>
               (c2\<lparr>cl_tokens := map_option (\<lambda>n. n - 1) (cl_tokens c2), cl_rejected := wrapu64 (cl_rejected c2 + 1)\<rparr>, None)
           | (c2, True) \<Rightarrow> (c2\<lparr>cl_inflight := cl_inflight c2 + 1\<rparr>, Some reservedBytes))"

definition releaseScanner :: "Classifier \<Rightarrow> Classifier" where
  "releaseScanner c = c\<lparr>cl_tokens := map_option (\<lambda>n. n - 1) (cl_tokens c), cl_inflight := cl_inflight c - 1\<rparr>"

definition Inflight :: "Classifier \<Rightarrow> int" where "Inflight c = cl_inflight c"
definition ReservedBodyBytes :: "Classifier \<Rightarrow> int" where "ReservedBodyBytes c = cl_reservedBodyBytes c"
definition Rejected :: "Classifier \<Rightarrow> nat" where "Rejected c = cl_rejected c"

definition acquireBodyBuffer :: "Classifier \<Rightarrow> Classifier" where
  "acquireBodyBuffer c = (if cl_bodyPool c > 0 then c\<lparr>cl_bodyPool := cl_bodyPool c - 1\<rparr> else c)"

definition releaseBodyBuffer :: "Classifier \<Rightarrow> Classifier" where
  "releaseBodyBuffer c = (if cl_bodyPool c < cl_poolCapacity c then c\<lparr>cl_bodyPool := cl_bodyPool c + 1\<rparr> else c)"

text \<open>
  Closing a body kept by the classifier: \<open>lease\<close> is what it still holds, \<open>None\<close> when it has been
  closed before.
\<close>

definition preserving_Close :: "Classifier \<Rightarrow> int option \<Rightarrow> Classifier \<times> int option" where
  "preserving_Close c lease =
     (case lease of
        None \<Rightarrow> (c, None)
      | Some reservedBodyBytes \<Rightarrow>
          let c1 = releaseBodyBuffer c
          in (if reservedBodyBytes > 0 then fst (releaseBodyBytes c1 reservedBodyBytes) else c1, None))"

subsection \<open>Reading a body\<close>

text \<open>
  \<open>buffer.ReadFrom (io.LimitReader body limit)\<close>: the bytes, the error if it is not the end, and
  what is left of the source.
\<close>

fun readLimited :: "readResults \<Rightarrow> nat \<Rightarrow> string \<times> string option \<times> readResults" where
  "readLimited [] limit = ([], None, [])"
| "readLimited ((bytes, err) # source) limit =
     (if limit = 0 then ([], None, (bytes, err) # source)
      else if length bytes > limit then (take limit bytes, None, (drop limit bytes, err) # source)
      else (case err of
          Some e \<Rightarrow> (bytes, if e = ''EOF'' then None else Some e, source)
        | None \<Rightarrow> (case readLimited source (limit - length bytes) of
            (more', err', rest') \<Rightarrow> (bytes @ more', err', rest'))))"

definition readBoundedRequestBody :: "Classifier \<Rightarrow> readResults \<Rightarrow> int \<Rightarrow> Classifier \<times> string \<times> string option \<times> readResults" where
  "readBoundedRequestBody c source maximum = (acquireBodyBuffer c, readLimited source (nat (wrap64 (maximum + 1))))"

definition requestContentTypeJSON :: "(string \<Rightarrow> string option) \<Rightarrow> string \<Rightarrow> bool" where
  "requestContentTypeJSON parseMediaType value =
     (if trimmedEmpty value then True
      else case parseMediaType value of
        None \<Rightarrow> False
      | Some mediaType \<Rightarrow> mediaType = ''application/json'' \<or> suffix ''+json'' mediaType)"

subsection \<open>The fingerprint of the prompt\<close>

abbreviation PromptBlockBytes :: nat where "PromptBlockBytes \<equiv> 1024"

record PromptFingerprint =
  pf_Blocks :: "64 word list"
  pf_Bytes :: int

definition zeroFingerprint :: PromptFingerprint where
  "zeroFingerprint = \<lparr>pf_Blocks = [], pf_Bytes = 0\<rparr>"

definition hashByte :: "64 word \<Rightarrow> char \<Rightarrow> 64 word" where
  "hashByte hash b = (hash XOR of_nat (byte b)) * 1099511628211"

text \<open>The loop over the prompt: \<open>i\<close> is the index of the next of \<open>n\<close> bytes.\<close>

fun promptBlocks :: "nat \<Rightarrow> nat \<Rightarrow> 64 word \<Rightarrow> string \<Rightarrow> 64 word list" where
  "promptBlocks n i hash [] = []"
| "promptBlocks n i hash (b # bs) =
     (let hash' = hashByte hash b
      in if (i + 1) mod PromptBlockBytes = 0 \<or> i + 1 = n
         then hash' # promptBlocks n (i + 1) hash' bs
         else promptBlocks n (i + 1) hash' bs)"

definition fingerprintPrompt :: "(string \<Rightarrow> string option) \<Rightarrow> string \<Rightarrow> PromptFingerprint" where
  "fingerprintPrompt contextBytes body =
     (case contextBytes body of
        None \<Rightarrow> zeroFingerprint
      | Some context \<Rightarrow>
          if body = [] then zeroFingerprint
          else let hash = foldl hashByte 14695981039346656037 context
               in \<lparr>pf_Blocks = promptBlocks (length body) 0 hash body, pf_Bytes = int (length body)\<rparr>)"

subsection \<open>Classifying\<close>

record ClassificationTiming =
  ct_BodyRead :: duration
  ct_ShapeScan :: duration
  ct_BodyReadMeasured :: bool
  ct_ShapeScanMeasured :: bool

record Classification =
  cf_Supported :: bool
  cf_SingleSequenceFallback :: bool
  cf_UnsupportedReason :: string
  cf_Timing :: ClassificationTiming
  cf_JSONFieldsKnown :: bool
  cf_StreamingPresent :: bool
  cf_StreamingKnown :: bool
  cf_Streaming :: bool
  cf_BasePromptCount :: int
  cf_DecodeSequences :: int
  cf_Prompt :: PromptFingerprint

definition unscannable :: Classification where
  "unscannable = \<lparr>cf_Supported = False, cf_SingleSequenceFallback = False,
     cf_UnsupportedReason = ''body_not_scannable'',
     cf_Timing = \<lparr>ct_BodyRead = 0, ct_ShapeScan = 0, ct_BodyReadMeasured = False, ct_ShapeScanMeasured = False\<rparr>,
     cf_JSONFieldsKnown = False, cf_StreamingPresent = False, cf_StreamingKnown = False, cf_Streaming = False,
     cf_BasePromptCount = 0, cf_DecodeSequences = 0, cf_Prompt = zeroFingerprint\<rparr>"

text \<open>What is classified from a scan: \<open>None\<close> for the protocol error of text that is not JSON.\<close>

definition classifyShape ::
  "(string \<Rightarrow> bool) \<Rightarrow> (string \<Rightarrow> string option) \<Rightarrow> Classification \<Rightarrow> string \<Rightarrow> TPSRequestShape \<times> bool \<Rightarrow>
   Classification \<times> string option" where
  "classifyShape jsonValid contextBytes classification body = (\<lambda>(shape, valid).
     (if \<not> valid then
        (if sh_UnsupportedReason shape = ''shape_scan_limit''
         then (classification\<lparr>cf_UnsupportedReason := ''shape_scan_limit'', cf_SingleSequenceFallback := True\<rparr>, None)
         else if jsonValid body
         then (classification\<lparr>cf_UnsupportedReason := ''unsupported_request_shape''\<rparr>, None)
         else (classification\<lparr>cf_UnsupportedReason := ''invalid_json''\<rparr>, Some ''invalid_json''))
      else
        (classification\<lparr>cf_JSONFieldsKnown := True, cf_Prompt := fingerprintPrompt contextBytes body,
           cf_StreamingPresent := sh_StreamingPresent shape, cf_StreamingKnown := sh_StreamingKnown shape,
           cf_Streaming := sh_Streaming shape, cf_BasePromptCount := sh_BasePromptCount shape,
           cf_DecodeSequences := sh_DecodeSequences shape, cf_Supported := sh_Supported shape,
           cf_UnsupportedReason :=
             (if \<not> sh_Supported shape \<and> sh_UnsupportedReason shape = '''' then ''unsupported_request_shape''
              else sh_UnsupportedReason shape)\<rparr>, None)))"

text \<open>What is left to read of a body.\<close>

fun bodyReads :: "requestBody \<Rightarrow> readResults" where
  "bodyReads (KeptBody buffer unread) = [(unread, None)]"
| "bodyReads (SourceBody source) = source"

text \<open>
  The result: the classifier, the request, the lease of a body that is kept (none when the body is
  the client's), the classification and the protocol error. \<open>readElapsed\<close> and \<open>scanElapsed\<close> are what
  the clock gives.
\<close>

definition classifyJSONFields ::
  "(string \<Rightarrow> string option) \<Rightarrow> (string \<Rightarrow> bool) \<Rightarrow> (string \<Rightarrow> string option) \<Rightarrow> duration \<Rightarrow> duration \<Rightarrow>
   Classifier \<Rightarrow> bodyRequest \<Rightarrow>
   Classifier \<times> bodyRequest \<times> int option \<times> Classification \<times> string option" where
  "classifyJSONFields parseMediaType jsonValid contextBytes readElapsed scanElapsed c r =
     (let maximum = cc_MaximumBodyBytes (cl_cfg c);
          give = (\<lambda>cf. (c, r, None, cf, None));
          fallback = (\<lambda>reason. unscannable\<lparr>cf_UnsupportedReason := reason, cf_SingleSequenceFallback := True\<rparr>)
      in if maximum \<le> 0 then give unscannable
         else if EndpointForPath (br_Path r) = EndpointUnknown
         then give (unscannable\<lparr>cf_UnsupportedReason := ''unsupported_endpoint''\<rparr>)
         else if br_ContentLength r > maximum then give (fallback ''body_too_large'')
         else case br_Body r of
           None \<Rightarrow> give unscannable
         | Some body0 \<Rightarrow>
             if \<not> requestContentTypeJSON parseMediaType (br_ContentType r)
             then give (fallback ''unsupported_content_type'')
             else case acquire c (br_ContentLength r) of
               (c1, None) \<Rightarrow> (c1, r, None, fallback ''classifier_saturated'', None)
             | (c1, Some reserved) \<Rightarrow>
                 (case readBoundedRequestBody c1 (bodyReads body0) maximum of
                    (c2, body, err, left) \<Rightarrow>
                      let timing = \<lparr>ct_BodyRead = readElapsed, ct_ShapeScan = 0, ct_BodyReadMeasured = True,
                            ct_ShapeScanMeasured = False\<rparr>;
                          again = r\<lparr>br_Body := Some (SourceBody ((body, None) # left))\<rparr>;
                          c3 = releaseScanner c2
                      in if err \<noteq> None
                         then (c3, again, Some reserved, (fallback ''body_read_failed'')\<lparr>cf_Timing := timing\<rparr>, None)
                         else if int (length body) > maximum
                         then (c3, again, Some reserved, (fallback ''body_too_large'')\<lparr>cf_Timing := timing\<rparr>, None)
                         else
                           (case ParseTPSRequestShape body (EndpointForPath (br_Path r)) of
                              None \<Rightarrow> (c3, r\<lparr>br_Body := Some (KeptBody body body)\<rparr>, Some reserved, unscannable, None)
                            | Some scan \<Rightarrow>
                                (case classifyShape jsonValid contextBytes
                                        (unscannable\<lparr>cf_Timing := timing\<lparr>ct_ShapeScan := scanElapsed,
                                           ct_ShapeScanMeasured := True\<rparr>\<rparr>) body scan of
                                   (classification, problem) \<Rightarrow>
                                     (c3, r\<lparr>br_Body := Some (KeptBody body body)\<rparr>, Some reserved,
                                      classification, problem)))))"

subsection \<open>The tier a request claims\<close>

text \<open>The right half of \<open>strings_TrimSpace\<close>, on the bytes in reverse.\<close>

fun trimReversed :: "string \<Rightarrow> string" where
  "trimReversed [] = []"
| "trimReversed [c] = (if narrowSpace c then [] else [c])"
| "trimReversed [c, x] = (if narrowSpace c then trimReversed [x] else if pairSpace x c then [] else [c, x])"
| "trimReversed (c # x # y # s) =
     (if narrowSpace c then trimReversed (x # y # s)
      else if pairSpace x c then trimReversed (y # s)
      else if wideSpace y x c then trimReversed s
      else c # x # y # s)"

definition strings_TrimSpace :: "string \<Rightarrow> string" where
  "strings_TrimSpace s = rev (trimReversed (rev (trimLeft s)))"

definition TierValue :: "string list \<Rightarrow> string" where
  "TierValue headerValues = (case headerValues of [value] \<Rightarrow> strings_TrimSpace value | _ \<Rightarrow> [])"

end
