(* ===== verification/PromptCost.thy ===== *)
theory PromptCost
  imports Classify Evidence
begin

text \<open>
  \<open>internal/app/server/prompt_cost.go\<close>: the estimate of the tokens a backend has to compute for a
  prompt. A list of the hashes of prompt blocks in the order of their last use mirrors the backend's
  cache; two decayed ratios turn bytes into tokens and correct the result.

  The list is \<open>container/list\<close>, front first; the index is the set of its hashes as the keys of a map.
\<close>

subsection \<open>Decayed ratios\<close>

record ratioEstimate =
  re_numerator :: f64
  re_denominator :: f64

definition defaultPromptBytesPerToken :: f64 where "defaultPromptBytesPerToken = Fin 4"
definition ratioEstimateDecay :: f64 where "ratioEstimateDecay = rnd (995 / 1000)"
definition minimumCorrection :: f64 where "minimumCorrection = rnd (1 / 10)"
definition maximumCorrection :: f64 where "maximumCorrection = Fin 10"

text \<open>\<open>math.Max\<close> and \<open>math.Min\<close>.\<close>

definition f64_Max :: "f64 \<Rightarrow> f64 \<Rightarrow> f64" where
  "f64_Max x y =
     (if x = PInf \<or> y = PInf then PInf else if x = NaN \<or> y = NaN then NaN
      else if flt y x then x else y)"

definition f64_Min :: "f64 \<Rightarrow> f64 \<Rightarrow> f64" where
  "f64_Min x y =
     (if x = NInf \<or> y = NInf then NInf else if x = NaN \<or> y = NaN then NaN
      else if flt x y then x else y)"

definition ratio_add :: "ratioEstimate \<Rightarrow> f64 \<Rightarrow> f64 \<Rightarrow> ratioEstimate" where
  "ratio_add r numerator denominator =
     r\<lparr>re_numerator := fadd (fmul (re_numerator r) ratioEstimateDecay) numerator,
       re_denominator := fadd (fmul (re_denominator r) ratioEstimateDecay) denominator\<rparr>"

definition ratio_value :: "ratioEstimate \<Rightarrow> f64 \<Rightarrow> f64 \<Rightarrow> f64 \<Rightarrow> f64" where
  "ratio_value r fallback minimum maximum =
     (if fle (re_denominator r) (Fin 0) then fallback
      else
        let v = fdiv (re_numerator r) (re_denominator r)
        in if IsNaN v \<or> IsInf v then fallback else f64_Min (f64_Max v minimum) maximum)"

text \<open>
  The conversion to an integer of 64 bits, which drops the fraction and for a value out of range gives
  what the processor gives, and \<open>math.Round\<close>, which rounds halves away from zero.
\<close>

definition int64_of :: "f64 \<Rightarrow> int" where
  "int64_of x =
     (case x of
        Fin q \<Rightarrow> (let n = (if q < 0 then - \<lfloor>- q\<rfloor> else \<lfloor>q\<rfloor>) in if MinInt64 \<le> n \<and> n \<le> MaxInt64 then n else MinInt64)
      | _ \<Rightarrow> MinInt64)"

definition f64_Round :: "f64 \<Rightarrow> f64" where
  "f64_Round x =
     (case x of
        Fin q \<Rightarrow> Fin (of_int (if q < 0 then - \<lfloor>- q + 1 / 2\<rfloor> else \<lfloor>q + 1 / 2\<rfloor>))
      | y \<Rightarrow> y)"

subsection \<open>The estimator\<close>

record promptCost =
  pc_known :: bool
  pc_uncachedTokens :: int
  pc_rawUncachedToks :: f64
  pc_warmLimit :: int

definition zeroCost :: promptCost where
  "zeroCost = \<lparr>pc_known = False, pc_uncachedTokens = 0, pc_rawUncachedToks = Fin 0, pc_warmLimit = 0\<rparr>"

record warmPromptOutcomes =
  wo_learnedRequests :: nat
  wo_uncachedTokens :: f64
  wo_overLimit :: nat

record promptCostEstimator =
  pe_index :: "64 word list"
  pe_lru :: "64 word list"
  pe_capacityTokens :: int
  pe_bytesPerToken :: ratioEstimate
  pe_correction :: ratioEstimate
  pe_estimates :: "nat \<Rightarrow> nat"
  pe_estimatedTokens :: "nat \<Rightarrow> f64"
  pe_learnedRequests :: nat
  pe_learnedEstimated :: f64
  pe_learnedUncached :: f64
  pe_warm :: warmPromptOutcomes
  pe_matchedBlocks :: nat
  pe_consideredBlocks :: nat
  pe_evictedBlocks :: nat
  pe_insertedBlockTotal :: nat

definition AdmittedAsWarm :: "promptCost \<Rightarrow> int \<Rightarrow> promptCost" where
  "AdmittedAsWarm c limit = c\<lparr>pc_warmLimit := limit\<rparr>"

definition newPromptCostEstimator :: "int \<Rightarrow> promptCostEstimator" where
  "newPromptCostEstimator capacityTokens =
     \<lparr>pe_index = [], pe_lru = [], pe_capacityTokens = capacityTokens,
      pe_bytesPerToken = \<lparr>re_numerator = Fin 0, re_denominator = Fin 0\<rparr>,
      pe_correction = \<lparr>re_numerator = Fin 0, re_denominator = Fin 0\<rparr>,
      pe_estimates = \<lambda>_. 0, pe_estimatedTokens = \<lambda>_. Fin 0, pe_learnedRequests = 0,
      pe_learnedEstimated = Fin 0, pe_learnedUncached = Fin 0,
      pe_warm = \<lparr>wo_learnedRequests = 0, wo_uncachedTokens = Fin 0, wo_overLimit = 0\<rparr>,
      pe_matchedBlocks = 0, pe_consideredBlocks = 0, pe_evictedBlocks = 0, pe_insertedBlockTotal = 0\<rparr>"

definition bytesPerToken :: "promptCostEstimator \<Rightarrow> f64" where
  "bytesPerToken e = ratio_value (pe_bytesPerToken e) defaultPromptBytesPerToken (Fin (1 / 2)) (Fin 64)"

definition correction :: "promptCostEstimator \<Rightarrow> f64" where
  "correction e = ratio_value (pe_correction e) (Fin 1) minimumCorrection maximumCorrection"

definition capacityBlocksLocked :: "promptCostEstimator \<Rightarrow> int" where
  "capacityBlocksLocked e =
     (if pe_capacityTokens e \<le> 0 then 0
      else int64_of (fdiv (fmul (f64_of_int (pe_capacityTokens e)) (bytesPerToken e)) (Fin 1024)))"

definition Estimate :: "promptCostEstimator \<Rightarrow> PromptFingerprint \<Rightarrow> int \<Rightarrow> promptCostEstimator \<times> promptCost" where
  "Estimate e prompt tier =
     (if pf_Blocks prompt = [] \<or> pf_Bytes prompt \<le> 0 then (e, zeroCost)
      else
        let matched = length (takeWhile (\<lambda>block. block \<in> set (pe_index e)) (pf_Blocks prompt));
            e1 = e\<lparr>pe_matchedBlocks := wrapu64 (pe_matchedBlocks e + matched),
                   pe_consideredBlocks := wrapu64 (pe_consideredBlocks e + length (pf_Blocks prompt))\<rparr>;
            uncachedBytes0 = pf_Bytes prompt - int matched * int PromptBlockBytes;
            uncachedBytes = (if uncachedBytes0 < 0 then 0 else uncachedBytes0);
            raw = fdiv (f64_of_int uncachedBytes) (bytesPerToken e1);
            tokens = fmul raw (correction e1);
            e2 = (if 0 \<le> tier \<and> tier < int admissionEvidenceTierCount
                  then e1\<lparr>pe_estimates := (pe_estimates e1)(nat tier := wrapu64 (pe_estimates e1 (nat tier) + 1)),
                          pe_estimatedTokens := (pe_estimatedTokens e1)
                            (nat tier := fadd (pe_estimatedTokens e1 (nat tier)) tokens)\<rparr>
                  else e1)
        in (e2, \<lparr>pc_known = True, pc_uncachedTokens = int64_of (f64_Round tokens), pc_rawUncachedToks = raw,
                 pc_warmLimit = 0\<rparr>))"

text \<open>One block of the loop of \<open>Admitted\<close>, and the loop that evicts.\<close>

definition use_block :: "promptCostEstimator \<Rightarrow> 64 word \<Rightarrow> promptCostEstimator" where
  "use_block e block =
     (if block \<in> set (pe_index e) then e\<lparr>pe_lru := block # remove1 block (pe_lru e)\<rparr>
      else e\<lparr>pe_lru := block # pe_lru e, pe_index := block # pe_index e,
             pe_insertedBlockTotal := wrapu64 (pe_insertedBlockTotal e + 1)\<rparr>)"

function evict :: "promptCostEstimator \<Rightarrow> nat \<Rightarrow> promptCostEstimator" where
  "evict e capacity =
     (if length (pe_lru e) > capacity
      then evict (e\<lparr>pe_index := removeAll (last (pe_lru e)) (pe_index e), pe_lru := butlast (pe_lru e),
                    pe_evictedBlocks := wrapu64 (pe_evictedBlocks e + 1)\<rparr>) capacity
      else e)"
  by pat_completeness auto

termination evict
  by (relation "measure (\<lambda>(e, capacity). length (pe_lru e))") auto

declare evict.simps [simp del]

definition prompt_Admitted :: "promptCostEstimator \<Rightarrow> PromptFingerprint \<Rightarrow> promptCostEstimator" where
  "prompt_Admitted e prompt =
     (if pf_Blocks prompt = [] then e
      else
        let capacity = capacityBlocksLocked e
        in if capacity \<le> 0 then e
           else evict (foldl use_block e (pf_Blocks prompt)) (nat capacity))"

definition Learn :: "promptCostEstimator \<Rightarrow> PromptFingerprint \<Rightarrow> promptCost \<Rightarrow> int \<Rightarrow> int \<Rightarrow> promptCostEstimator" where
  "Learn e prompt cost promptTokens cachedTokens =
     (if \<not> pc_known cost \<or> promptTokens \<le> 0 \<or> pf_Bytes prompt \<le> 0 then e
      else
        let e1 = e\<lparr>pe_bytesPerToken := ratio_add (pe_bytesPerToken e) (f64_of_int (pf_Bytes prompt)) (f64_of_int promptTokens)\<rparr>
        in if cachedTokens < 0 \<or> cachedTokens > promptTokens then e1
           else
             let uncached = f64_of_int (promptTokens - cachedTokens);
                 e2 = e1\<lparr>pe_correction := ratio_add (pe_correction e1) uncached (pc_rawUncachedToks cost),
                         pe_learnedRequests := wrapu64 (pe_learnedRequests e1 + 1),
                         pe_learnedEstimated := fadd (pe_learnedEstimated e1) (f64_of_int (pc_uncachedTokens cost)),
                         pe_learnedUncached := fadd (pe_learnedUncached e1) uncached\<rparr>
             in if pc_warmLimit cost > 0
                then e2\<lparr>pe_warm := (pe_warm e2)
                       \<lparr>wo_learnedRequests := wrapu64 (wo_learnedRequests (pe_warm e2) + 1),
                        wo_uncachedTokens := fadd (wo_uncachedTokens (pe_warm e2)) uncached,
                        wo_overLimit := (if flt (f64_of_int (pc_warmLimit cost)) uncached
                                         then wrapu64 (wo_overLimit (pe_warm e2) + 1)
                                         else wo_overLimit (pe_warm e2))\<rparr>\<rparr>
                else e2)"

record promptCostSnapshot =
  px_estimates :: "nat \<Rightarrow> nat"
  px_estimatedTokens :: "nat \<Rightarrow> f64"
  px_learnedRequests :: nat
  px_learnedEstimated :: f64
  px_learnedUncached :: f64
  px_warm :: warmPromptOutcomes
  px_bytesPerToken :: f64
  px_correction :: f64
  px_indexBlocks :: nat
  px_capacityBlocks :: int
  px_matchedBlocks :: nat
  px_consideredBlocks :: nat
  px_evictedBlocks :: nat
  px_insertedBlockTotal :: nat

definition promptCost_Snapshot :: "promptCostEstimator \<Rightarrow> promptCostSnapshot" where
  "promptCost_Snapshot e =
     \<lparr>px_estimates = pe_estimates e, px_estimatedTokens = pe_estimatedTokens e,
      px_learnedRequests = pe_learnedRequests e, px_learnedEstimated = pe_learnedEstimated e,
      px_learnedUncached = pe_learnedUncached e, px_warm = pe_warm e, px_bytesPerToken = bytesPerToken e,
      px_correction = correction e, px_indexBlocks = length (pe_lru e),
      px_capacityBlocks = capacityBlocksLocked e, px_matchedBlocks = pe_matchedBlocks e,
      px_consideredBlocks = pe_consideredBlocks e, px_evictedBlocks = pe_evictedBlocks e,
      px_insertedBlockTotal = pe_insertedBlockTotal e\<rparr>"

end
