(* ===== verification/UsageCapture.thy ===== *)
theory UsageCapture
  imports PromptCost "HOL-Library.Sublist"
begin

text \<open>
  \<open>internal/infra/openai/completion_usage.go\<close>: the observer that reads the usage of a completion out of the
  bytes of the response while they pass, and the body that feeds it.

  What \<open>json.Unmarshal\<close> finds in a payload is an argument, one function per type it decodes into; the
  hook of \<open>choices\<close> that it calls is code of the program and defined here. The callbacks are the log
  of their calls. \<open>now\<close> is the reading of the clock that is kept with a usage.
\<close>

subsection \<open>Usage\<close>

abbreviation maximumCompletionUsageJSONBytes :: nat where "maximumCompletionUsageJSONBytes \<equiv> 4194304"
abbreviation maximumCompletionUsageSSEBytes :: nat where "maximumCompletionUsageSSEBytes \<equiv> 65536"
abbreviation completionUsageLookaheadBytes :: nat where "completionUsageLookaheadBytes \<equiv> 32768"

record CompletionUsage =
  cu_PromptTokens :: int
  cu_CachedTokens :: int
  cu_CachedTokensKnown :: bool
  cu_CompletionTokens :: int
  cu_MeanITL :: duration
  cu_GenerationTime :: duration
  cu_ObservedAt :: gotime

definition zeroUsage :: CompletionUsage where
  "zeroUsage = \<lparr>cu_PromptTokens = 0, cu_CachedTokens = 0, cu_CachedTokensKnown = False, cu_CompletionTokens = 0,
     cu_MeanITL = 0, cu_GenerationTime = 0, cu_ObservedAt = zeroTime\<rparr>"

datatype CompletionUsageEvidenceOutcome =
  CompletionUsageUnavailable | CompletionUsageAvailable | CompletionUsageMalformed

record CompletionUsageEvidence =
  ue_Outcome :: CompletionUsageEvidenceOutcome
  ue_Usage :: CompletionUsage

datatype CompletionUsageFormat = CompletionUsageFormatCompletions | CompletionUsageFormatResponses

subsection \<open>Decoding\<close>

record completionUsageChoices =
  uc_present :: bool
  uc_empty :: bool

definition choices_UnmarshalJSON :: "completionUsageChoices \<Rightarrow> string \<Rightarrow> completionUsageChoices option" where
  "choices_UnmarshalJSON c payload0 =
     (let payload = strings_TrimSpace payload0
      in if length payload < 2 \<or> hd payload \<noteq> CHR ''['' \<or> last payload \<noteq> CHR '']'' then None
         else Some (c\<lparr>uc_present := True, uc_empty := (strings_TrimSpace (butlast (tl payload)) = [])\<rparr>))"

type_synonym usageTokensDetails = "int option"

definition details_apply :: "usageTokensDetails option \<Rightarrow> CompletionUsage \<Rightarrow> CompletionUsage" where
  "details_apply d usage =
     (case d of
        Some (Some cached) \<Rightarrow>
          if cached \<ge> 0 then usage\<lparr>cu_CachedTokens := cached, cu_CachedTokensKnown := True\<rparr> else usage
      | _ \<Rightarrow> usage)"

record completionUsageValue =
  uv_PromptTokens :: "int option"
  uv_CompletionTokens :: "int option"
  uv_PromptTokensDetails :: "usageTokensDetails option"

record completionMetrics =
  cm_MeanITLMilliseconds :: "f64 option"
  cm_GenerationTimeMilliseconds :: "f64 option"

text \<open>The choices are the bytes of each member of that name, for which the hook is called in turn.\<close>

record completionUsageEnvelope =
  en_Choices :: "string list"
  en_Usage :: "completionUsageValue option"
  en_Metrics :: "completionMetrics option"

record responsesUsageValue =
  rv_InputTokens :: "int option"
  rv_OutputTokens :: "int option"
  rv_InputTokensDetails :: "usageTokensDetails option"

type_synonym responsesUsageEnvelope = "responsesUsageValue option"

record responsesUsageEvent =
  rt_Type :: string
  rt_Response :: "responsesUsageEnvelope option"

record usageUnmarshal =
  um_completions :: "string \<Rightarrow> completionUsageEnvelope option"
  um_responses :: "string \<Rightarrow> responsesUsageEnvelope option"
  um_event :: "string \<Rightarrow> responsesUsageEvent option"

definition f64_Ceil :: "f64 \<Rightarrow> f64" where
  "f64_Ceil x = (case x of Fin q \<Rightarrow> Fin (of_int \<lceil>q\<rceil>) | y \<Rightarrow> y)"

definition millisecondsDuration :: "f64 \<Rightarrow> duration option" where
  "millisecondsDuration value =
     (if fle value (Fin 0) \<or> IsNaN value \<or> IsInf value then None
      else
        let nanoseconds = fmul value (Fin 1000000)
        in if flt (Fin 9223372036854775808) nanoseconds then None
           else Some (int64_of (f64_Ceil nanoseconds)))"

text \<open>One of the two durations of the metrics: absent, or not usable (\<open>None\<close>).\<close>

definition metricDuration :: "f64 option \<Rightarrow> duration option" where
  "metricDuration metric = (case metric of None \<Rightarrow> Some 0 | Some ms \<Rightarrow> millisecondsDuration ms)"

definition decodeCompletionsUsageEvidence ::
  "usageUnmarshal \<Rightarrow> string \<Rightarrow> bool \<Rightarrow> CompletionUsage \<times> CompletionUsageEvidenceOutcome" where
  "decodeCompletionsUsageEvidence d payload streaming =
     (let malformed = (zeroUsage, CompletionUsageMalformed); unavailable = (zeroUsage, CompletionUsageUnavailable)
      in case um_completions d payload of
           None \<Rightarrow> malformed
         | Some envelope \<Rightarrow>
             (case foldo choices_UnmarshalJSON \<lparr>uc_present = False, uc_empty = False\<rparr> (en_Choices envelope) of
                None \<Rightarrow> malformed
              | Some choices \<Rightarrow>
                  (case en_Usage envelope of
                     None \<Rightarrow> unavailable
                   | Some tokens \<Rightarrow>
                       (case uv_CompletionTokens tokens of
                          None \<Rightarrow> malformed
                        | Some completionTokens \<Rightarrow>
                            if \<not> uc_present choices then malformed
                            else if streaming \<and> \<not> uc_empty choices then unavailable
                            else if \<not> streaming \<and> uc_empty choices then malformed
                            else if completionTokens < 0 then malformed
                            else
                              let usage0 = zeroUsage\<lparr>cu_CompletionTokens := completionTokens\<rparr>;
                                  usage1 = (case uv_PromptTokens tokens of
                                              Some p \<Rightarrow> if p > 0 then usage0\<lparr>cu_PromptTokens := p\<rparr> else usage0
                                            | None \<Rightarrow> usage0);
                                  usage2 = details_apply (uv_PromptTokensDetails tokens) usage1
                              in (case en_Metrics envelope of
                                    None \<Rightarrow> (usage2, CompletionUsageAvailable)
                                  | Some m \<Rightarrow>
                                      (case metricDuration (cm_MeanITLMilliseconds m) of
                                         None \<Rightarrow> malformed
                                       | Some itl \<Rightarrow>
                                           (case metricDuration (cm_GenerationTimeMilliseconds m) of
                                              None \<Rightarrow> malformed
                                            | Some generation \<Rightarrow>
                                                (usage2\<lparr>cu_MeanITL := itl, cu_GenerationTime := generation\<rparr>,
                                                 CompletionUsageAvailable))))))))"

definition responsesUsage ::
  "responsesUsageEnvelope option \<Rightarrow> CompletionUsage \<times> CompletionUsageEvidenceOutcome" where
  "responsesUsage envelope =
     (case envelope of
        Some (Some tokens) \<Rightarrow>
          (case rv_OutputTokens tokens of
             None \<Rightarrow> (zeroUsage, CompletionUsageMalformed)
           | Some out \<Rightarrow>
               if out < 0 then (zeroUsage, CompletionUsageMalformed)
               else
                 let usage0 = zeroUsage\<lparr>cu_CompletionTokens := out\<rparr>;
                     usage1 = (case rv_InputTokens tokens of
                                 Some p \<Rightarrow> if p > 0 then usage0\<lparr>cu_PromptTokens := p\<rparr> else usage0
                               | None \<Rightarrow> usage0)
                 in (details_apply (rv_InputTokensDetails tokens) usage1, CompletionUsageAvailable))
      | _ \<Rightarrow> (zeroUsage, CompletionUsageUnavailable))"

definition decodeResponsesUsageEvidence ::
  "usageUnmarshal \<Rightarrow> string \<Rightarrow> bool \<Rightarrow> CompletionUsage \<times> CompletionUsageEvidenceOutcome" where
  "decodeResponsesUsageEvidence d payload streaming =
     (if streaming then
        (case um_event d payload of
           None \<Rightarrow> (zeroUsage, CompletionUsageMalformed)
         | Some event \<Rightarrow>
             if rt_Type event \<noteq> ''response.completed'' then (zeroUsage, CompletionUsageUnavailable)
             else responsesUsage (rt_Response event))
      else
        (case um_responses d payload of
           None \<Rightarrow> (zeroUsage, CompletionUsageMalformed)
         | Some envelope \<Rightarrow> responsesUsage (Some envelope)))"

definition decodeCompletionUsageEvidence ::
  "usageUnmarshal \<Rightarrow> string \<Rightarrow> bool \<Rightarrow> CompletionUsageFormat \<Rightarrow> CompletionUsage \<times> CompletionUsageEvidenceOutcome" where
  "decodeCompletionUsageEvidence d payload streaming format =
     (if format = CompletionUsageFormatResponses then decodeResponsesUsageEvidence d payload streaming
      else decodeCompletionsUsageEvidence d payload streaming)"

definition decodeCompletionUsage :: "usageUnmarshal \<Rightarrow> string \<Rightarrow> bool \<Rightarrow> CompletionUsage \<times> bool" where
  "decodeCompletionUsage d payload streaming =
     (case decodeCompletionUsageEvidence d payload streaming CompletionUsageFormatCompletions of
        (usage, outcome) \<Rightarrow> (usage, outcome = CompletionUsageAvailable))"

subsection \<open>The observer\<close>

datatype usageCall = UsageCall CompletionUsage | TerminalCall | EvidenceCall CompletionUsageEvidence

record CompletionUsageObserver =
  uo_streaming :: bool
  uo_format :: CompletionUsageFormat
  uo_callback :: bool
  uo_onTerminal :: bool
  uo_onEvidence :: bool
  uo_finished :: bool
  uo_terminalSeen :: bool
  uo_terminalNotified :: bool
  uo_evidenceNotified :: bool
  uo_candidate :: CompletionUsage
  uo_candidateValid :: bool
  uo_candidateInvalid :: bool
  uo_jsonBody :: string
  uo_jsonCapacity :: nat
  uo_jsonLimited :: bool
  uo_line :: string
  uo_eventData :: string
  uo_eventLimited :: bool
  uo_eventHasData :: bool
  uo_calls :: "usageCall list"

definition newCompletionUsageObserver ::
  "bool \<Rightarrow> CompletionUsageFormat \<Rightarrow> bool \<Rightarrow> bool \<Rightarrow> bool \<Rightarrow> CompletionUsageObserver option" where
  "newCompletionUsageObserver streaming format callback onTerminal onEvidence =
     (if \<not> callback \<and> \<not> onTerminal \<and> \<not> onEvidence then None
      else Some \<lparr>uo_streaming = streaming, uo_format = format, uo_callback = callback, uo_onTerminal = onTerminal,
        uo_onEvidence = onEvidence, uo_finished = False, uo_terminalSeen = False, uo_terminalNotified = False,
        uo_evidenceNotified = False, uo_candidate = zeroUsage, uo_candidateValid = False,
        uo_candidateInvalid = False, uo_jsonBody = [], uo_jsonCapacity = 0, uo_jsonLimited = False, uo_line = [],
        uo_eventData = [], uo_eventLimited = False, uo_eventHasData = False, uo_calls = []\<rparr>)"

definition emit :: "CompletionUsageObserver \<Rightarrow> CompletionUsage \<Rightarrow> CompletionUsageObserver" where
  "emit ob usage = (if uo_callback ob then ob\<lparr>uo_calls := uo_calls ob @ [UsageCall usage]\<rparr> else ob)"

definition notifyTerminal :: "CompletionUsageObserver \<Rightarrow> CompletionUsageObserver" where
  "notifyTerminal ob =
     (if uo_terminalNotified ob then ob
      else
        let o1 = ob\<lparr>uo_terminalNotified := True\<rparr>
        in if uo_onTerminal o1 then o1\<lparr>uo_calls := uo_calls o1 @ [TerminalCall]\<rparr> else o1)"

definition emitEvidence :: "CompletionUsageObserver \<Rightarrow> CompletionUsageEvidence \<Rightarrow> CompletionUsageObserver" where
  "emitEvidence ob evidence =
     (if uo_evidenceNotified ob then ob
      else
        let o1 = ob\<lparr>uo_evidenceNotified := True\<rparr>
        in if uo_onEvidence o1 then o1\<lparr>uo_calls := uo_calls o1 @ [EvidenceCall evidence]\<rparr> else o1)"

definition TerminalSeen :: "CompletionUsageObserver \<Rightarrow> bool" where
  "TerminalSeen ob = uo_terminalSeen ob"

text \<open>The loop that doubles a capacity until it is enough.\<close>

function growCapacity :: "nat \<Rightarrow> nat \<Rightarrow> nat" where
  "growCapacity capacity required =
     (if capacity = 0 \<or> capacity \<ge> required then capacity
      else if capacity \<ge> maximumCompletionUsageJSONBytes div 2 then maximumCompletionUsageJSONBytes
      else growCapacity (capacity * 2) required)"
  by pat_completeness auto

termination growCapacity
  by (relation "measure (\<lambda>(capacity, required). required - capacity)") auto

declare growCapacity.simps [simp del]

definition observeJSON :: "CompletionUsageObserver \<Rightarrow> string \<Rightarrow> CompletionUsageObserver" where
  "observeJSON ob chunk =
     (if uo_jsonLimited ob then ob
      else if length chunk > maximumCompletionUsageJSONBytes - length (uo_jsonBody ob)
      then ob\<lparr>uo_jsonBody := [], uo_jsonCapacity := 0, uo_jsonLimited := True\<rparr>
      else
        let required = length (uo_jsonBody ob) + length chunk;
            capacity = (if required > uo_jsonCapacity ob
                        then growCapacity (if uo_jsonCapacity ob = 0 then 1 else uo_jsonCapacity ob) required
                        else uo_jsonCapacity ob)
        in ob\<lparr>uo_jsonCapacity := capacity, uo_jsonBody := uo_jsonBody ob @ chunk\<rparr>)"

definition Contains :: "string \<Rightarrow> string \<Rightarrow> bool" where
  "Contains s sub = list_ex (prefix sub) (suffixes s)"

definition usageKey :: string where "usageKey = [CHR 0x22] @ ''usage'' @ [CHR 0x22]"

definition TrimPrefix :: "string \<Rightarrow> string \<Rightarrow> string" where
  "TrimPrefix s p = (if prefix p s then drop (length p) s else s)"

definition TrimSuffix :: "string \<Rightarrow> string \<Rightarrow> string" where
  "TrimSuffix s p = (if suffix p s then take (length s - length p) s else s)"

definition finishSSEEvent :: "usageUnmarshal \<Rightarrow> gotime \<Rightarrow> CompletionUsageObserver \<Rightarrow> CompletionUsageObserver" where
  "finishSSEEvent d now ob =
     (let data = strings_TrimSpace (uo_eventData ob);
          pending = (\<not> uo_eventLimited ob \<and> uo_eventHasData ob);
          terminal = (pending \<and> data = ''[DONE]'');
          o1 = (if pending then
                  (if data \<noteq> [] \<and> \<not> terminal \<and> Contains data usageKey
                   then (case decodeCompletionUsageEvidence d data True (uo_format ob) of
                           (usage, CompletionUsageAvailable) \<Rightarrow>
                             if uo_candidateValid ob then ob\<lparr>uo_candidateInvalid := True\<rparr>
                             else ob\<lparr>uo_candidate := usage\<lparr>cu_ObservedAt := now\<rparr>, uo_candidateValid := True\<rparr>
                         | (usage, CompletionUsageMalformed) \<Rightarrow> ob\<lparr>uo_candidateInvalid := True\<rparr>
                         | (usage, CompletionUsageUnavailable) \<Rightarrow> ob)
                   else ob)
                else if uo_eventLimited ob then ob\<lparr>uo_candidateInvalid := True\<rparr>
                else ob);
          o2 = o1\<lparr>uo_eventData := [], uo_eventLimited := False, uo_eventHasData := False\<rparr>
      in if terminal then notifyTerminal (o2\<lparr>uo_terminalSeen := True\<rparr>) else o2)"

definition processSSELine :: "usageUnmarshal \<Rightarrow> gotime \<Rightarrow> CompletionUsageObserver \<Rightarrow> CompletionUsageObserver" where
  "processSSELine d now ob =
     (let line = TrimSuffix (uo_line ob) [CHR 0x0D];
          o1 = ob\<lparr>uo_line := []\<rparr>
      in if line = [] then finishSSEEvent d now o1
         else if uo_eventLimited o1 \<or> hd line = CHR '':'' \<or> \<not> prefix ''data:'' line then o1
         else
           let data = TrimPrefix (TrimPrefix line ''data:'') '' '';
               additional = length data + (if uo_eventHasData o1 then 1 else 0)
           in if length (uo_eventData o1) + additional > maximumCompletionUsageSSEBytes
              then o1\<lparr>uo_eventData := [], uo_eventLimited := True\<rparr>
              else o1\<lparr>uo_eventData := uo_eventData o1 @ (if uo_eventHasData o1 then [CHR 0x0A] else []) @ data,
                      uo_eventHasData := True\<rparr>)"

text \<open>The loop over the bytes of a streamed chunk.\<close>

fun observeSSE :: "usageUnmarshal \<Rightarrow> gotime \<Rightarrow> CompletionUsageObserver \<Rightarrow> string \<Rightarrow> CompletionUsageObserver" where
  "observeSSE d now ob [] = ob"
| "observeSSE d now ob (b # chunk) =
     (if b = CHR 0x0A then
        (let o1 = processSSELine d now ob
         in if uo_finished o1 \<or> uo_terminalSeen o1 then o1 else observeSSE d now o1 chunk)
      else observeSSE d now
        (if length (uo_line ob) < maximumCompletionUsageSSEBytes then ob\<lparr>uo_line := uo_line ob @ [b]\<rparr>
         else ob\<lparr>uo_eventLimited := True\<rparr>) chunk)"

definition Observe :: "usageUnmarshal \<Rightarrow> gotime \<Rightarrow> CompletionUsageObserver \<Rightarrow> string \<Rightarrow> CompletionUsageObserver" where
  "Observe d now ob chunk =
     (if uo_finished ob \<or> uo_terminalSeen ob \<or> chunk = [] then ob
      else if \<not> uo_streaming ob then observeJSON ob chunk
      else observeSSE d now ob chunk)"

definition finishStreaming :: "CompletionUsageObserver \<Rightarrow> CompletionUsageObserver" where
  "finishStreaming ob =
     (if uo_finished ob then ob
      else
        let o1 = ob\<lparr>uo_finished := True\<rparr>;
            o2 = (if uo_candidateValid o1 \<and> \<not> uo_candidateInvalid o1
                  then emitEvidence (emit o1 (uo_candidate o1))
                         \<lparr>ue_Outcome = CompletionUsageAvailable, ue_Usage = uo_candidate o1\<rparr>
                  else if uo_candidateInvalid o1
                  then emitEvidence o1 \<lparr>ue_Outcome = CompletionUsageMalformed, ue_Usage = zeroUsage\<rparr>
                  else emitEvidence o1 \<lparr>ue_Outcome = CompletionUsageUnavailable, ue_Usage = zeroUsage\<rparr>)
        in notifyTerminal o2)"

definition Finish :: "usageUnmarshal \<Rightarrow> gotime \<Rightarrow> CompletionUsageObserver \<Rightarrow> CompletionUsageObserver" where
  "Finish d now ob =
     (if uo_finished ob then ob
      else if uo_streaming ob then
        (let o1 = (if \<not> uo_terminalSeen ob \<and> uo_line ob \<noteq> [] then processSSELine d now ob else ob)
         in if uo_finished o1 \<or> uo_terminalSeen o1 then finishStreaming o1
            else
              let o2 = (if uo_eventHasData o1 \<or> uo_eventLimited o1 then finishSSEEvent d now o1 else o1)
              in finishStreaming o2)
      else
        let o1 = ob\<lparr>uo_finished := True\<rparr>;
            o2 = (if uo_jsonLimited o1
                  then emitEvidence o1 \<lparr>ue_Outcome = CompletionUsageMalformed, ue_Usage = zeroUsage\<rparr>
                  else if uo_jsonBody o1 = []
                  then emitEvidence o1 \<lparr>ue_Outcome = CompletionUsageUnavailable, ue_Usage = zeroUsage\<rparr>
                  else
                    (case decodeCompletionUsageEvidence d (uo_jsonBody o1) False (uo_format o1) of
                       (usage, outcome) \<Rightarrow>
                         let usage1 = (if outcome = CompletionUsageAvailable then usage\<lparr>cu_ObservedAt := now\<rparr> else usage);
                             o3 = (if outcome = CompletionUsageAvailable then emit o1 usage1 else o1)
                         in emitEvidence o3 \<lparr>ue_Outcome = outcome, ue_Usage = usage1\<rparr>))
        in notifyTerminal o2)"

subsection \<open>The body\<close>

text \<open>
  A read of at most \<open>n\<close> bytes from a source, and \<open>bufio.Reader\<close> over it: the bytes it holds and the
  error it has seen. \<open>fill\<close> gives up after the number of empty reads it is given.
\<close>

definition readUpTo :: "nat \<Rightarrow> readResults \<Rightarrow> string \<times> string option \<times> readResults" where
  "readUpTo n source =
     (case source of
        [] \<Rightarrow> ([], Some ''EOF'', [])
      | (bytes, err) # later \<Rightarrow>
          if length bytes > n then (take n bytes, None, (drop n bytes, err) # later)
          else (bytes, err, later))"

record bufioReader =
  bf_source :: readResults
  bf_buffered :: string
  bf_err :: "string option"

definition bufio_Read :: "bufioReader \<Rightarrow> nat \<Rightarrow> bufioReader \<times> string \<times> string option" where
  "bufio_Read b n =
     (let readErr = (\<lambda>b. b\<lparr>bf_err := None\<rparr>);
          serve = (\<lambda>b. (b\<lparr>bf_buffered := drop n (bf_buffered b)\<rparr>, take n (bf_buffered b), None))
      in if n = 0 then (if bf_buffered b \<noteq> [] then (b, [], None) else (readErr b, [], bf_err b))
         else if bf_buffered b = [] then
           (if bf_err b \<noteq> None then (readErr b, [], bf_err b)
            else if n \<ge> completionUsageLookaheadBytes then
              (case readUpTo n (bf_source b) of (bytes, err, later) \<Rightarrow> (b\<lparr>bf_source := later\<rparr>, bytes, err))
            else
              (case readUpTo completionUsageLookaheadBytes (bf_source b) of
                 (bytes, err, later) \<Rightarrow>
                   if bytes = [] then (b\<lparr>bf_source := later\<rparr>, [], err)
                   else serve (b\<lparr>bf_source := later, bf_buffered := bytes, bf_err := err\<rparr>)))
         else serve b)"

fun bufio_fill :: "nat \<Rightarrow> bufioReader \<Rightarrow> bufioReader" where
  "bufio_fill 0 b = b\<lparr>bf_err := Some ''ErrNoProgress''\<rparr>"
| "bufio_fill (Suc attempts) b =
     (case readUpTo (completionUsageLookaheadBytes - length (bf_buffered b)) (bf_source b) of
        (bytes, err, later) \<Rightarrow>
          let b1 = b\<lparr>bf_source := later, bf_buffered := bf_buffered b @ bytes\<rparr>
          in if err \<noteq> None then b1\<lparr>bf_err := err\<rparr>
             else if bytes \<noteq> [] then b1
             else bufio_fill attempts b1)"

text \<open>\<open>Peek (1)\<close>: only its error is used.\<close>

definition bufio_Peek :: "bufioReader \<Rightarrow> bufioReader \<times> string option" where
  "bufio_Peek b =
     (let b1 = (if bf_buffered b = [] \<and> bf_err b = None then bufio_fill 100 b else b)
      in if bf_buffered b1 = [] then (b1\<lparr>bf_err := None\<rparr>, bf_err b1) else (b1, None))"

text \<open>The source is read through the lookahead when there is one.\<close>

record completionUsageBody =
  cb_reader :: "readResults + bufioReader"
  cb_observer :: CompletionUsageObserver
  cb_remaining :: int
  cb_hasExpectedLength :: bool
  cb_expectedLengthBad :: bool

definition observeCompletionUsageBody ::
  "readResults \<Rightarrow> bool \<Rightarrow> CompletionUsageFormat \<Rightarrow> int \<Rightarrow> bool \<Rightarrow> bool \<Rightarrow> bool \<Rightarrow> completionUsageBody option" where
  "observeCompletionUsageBody source streaming format contentLength callback onTerminal onEvidence =
     (case newCompletionUsageObserver streaming format callback onTerminal onEvidence of
        None \<Rightarrow> None
      | Some observer0 \<Rightarrow>
          let observer = (if \<not> streaming \<and> contentLength > 0 \<and> contentLength \<le> int maximumCompletionUsageJSONBytes
                          then observer0\<lparr>uo_jsonCapacity := nat contentLength\<rparr> else observer0);
              body = \<lparr>cb_reader = Inl source, cb_observer = observer, cb_remaining = -1,
                      cb_hasExpectedLength = False, cb_expectedLengthBad = False\<rparr>
          in Some (if \<not> streaming \<and> onTerminal \<and> contentLength \<ge> 0
                   then body\<lparr>cb_remaining := contentLength, cb_hasExpectedLength := True\<rparr>
                   else if \<not> streaming \<and> onTerminal
                   then body\<lparr>cb_reader := Inr \<lparr>bf_source = source, bf_buffered = [], bf_err = None\<rparr>\<rparr>
                   else body))"

definition ObserveCompletionUsageEvidenceBodyForFormatLength ::
  "readResults \<Rightarrow> bool \<Rightarrow> CompletionUsageFormat \<Rightarrow> int \<Rightarrow> bool \<Rightarrow> completionUsageBody option" where
  "ObserveCompletionUsageEvidenceBodyForFormatLength source streaming format contentLength onEvidence =
     observeCompletionUsageBody source streaming format contentLength False False onEvidence"

definition observeExpectedLength ::
  "usageUnmarshal \<Rightarrow> gotime \<Rightarrow> completionUsageBody \<Rightarrow> nat \<Rightarrow> string option \<Rightarrow> completionUsageBody" where
  "observeExpectedLength d now b n err =
     (if cb_expectedLengthBad b then b
      else if int n > cb_remaining b then b\<lparr>cb_expectedLengthBad := True\<rparr>
      else
        let b1 = b\<lparr>cb_remaining := cb_remaining b - int n\<rparr>
        in if cb_remaining b1 = 0 \<and> (err = None \<or> err = Some ''EOF'')
           then b1\<lparr>cb_observer := Finish d now (cb_observer b1)\<rparr>
           else if err = Some ''EOF'' then b1\<lparr>cb_expectedLengthBad := True\<rparr>
           else b1)"

definition usageBody_Read ::
  "usageUnmarshal \<Rightarrow> gotime \<Rightarrow> completionUsageBody \<Rightarrow> nat \<Rightarrow> completionUsageBody \<times> string \<times> string option" where
  "usageBody_Read d now b n =
     (let (reader, bytes, err) =
            (case cb_reader b of
               Inr lookahead \<Rightarrow> (case bufio_Read lookahead n of (l, bytes, err) \<Rightarrow> (Inr l, bytes, err))
             | Inl source \<Rightarrow> (case readUpTo n source of (bytes, err, later) \<Rightarrow> (Inl later, bytes, err)));
          b1 = b\<lparr>cb_reader := reader\<rparr>;
          b2 = (if bytes \<noteq> [] then b1\<lparr>cb_observer := Observe d now (cb_observer b1) bytes\<rparr> else b1);
          b3 = (if cb_hasExpectedLength b2 then observeExpectedLength d now b2 (length bytes) err
                else if err = Some ''EOF'' then b2\<lparr>cb_observer := Finish d now (cb_observer b2)\<rparr>
                else case cb_reader b2 of
                  Inl source \<Rightarrow> b2
                | Inr lookahead \<Rightarrow>
                    if err = None \<and> bytes \<noteq> [] then
                      (case bufio_Peek lookahead of
                         (l, peekErr) \<Rightarrow>
                           let b' = b2\<lparr>cb_reader := Inr l\<rparr>
                           in if peekErr = Some ''EOF'' then b'\<lparr>cb_observer := Finish d now (cb_observer b')\<rparr>
                              else b')
                    else b2)
      in (b3, bytes, err))"

end
