(* ===== verification/UsageCapture_Correct.thy ===== *)
theory UsageCapture_Correct
  imports UsageCapture
begin

text \<open>
  What the observer of a response finds, against a description of the whole text: its lines, the events
  between blank lines, and the usages in them. However the text is cut into chunks, the observer calls
  back as that description says, once.
\<close>

subsection \<open>The description of a stream\<close>

fun sseLines :: "string \<Rightarrow> string list" where
  "sseLines [] = []"
| "sseLines (b # s) =
     (if b = CHR 0x0A then [] # sseLines s
      else case sseLines s of [] \<Rightarrow> [[b]] | l # ls \<Rightarrow> (b # l) # ls)"

definition blankLine :: "string \<Rightarrow> bool" where
  "blankLine l \<longleftrightarrow> TrimSuffix l [CHR 0x0D] = []"

fun sseEvents :: "string list \<Rightarrow> string list \<Rightarrow> string list list" where
  "sseEvents cur [] = [cur]"
| "sseEvents cur (l # ls) = (if blankLine l then cur # sseEvents [] ls else sseEvents (cur @ [l]) ls)"

definition lineData :: "string \<Rightarrow> string list" where
  "lineData l = (let line = TrimSuffix l [CHR 0x0D]
     in if prefix ''data:'' line then [TrimPrefix (TrimPrefix line ''data:'') '' ''] else [])"

definition eventData :: "string list \<Rightarrow> string list" where
  "eventData ev = concat (map lineData ev)"

fun joinLines :: "string list \<Rightarrow> string" where
  "joinLines [] = []"
| "joinLines (x # xs) = x @ concat (map (\<lambda>y. CHR 0x0A # y) xs)"

definition tooLong :: "string list \<Rightarrow> bool" where
  "tooLong ev \<longleftrightarrow> list_ex (\<lambda>l. length l > maximumCompletionUsageSSEBytes) ev \<or>
     length (joinLines (eventData ev)) > maximumCompletionUsageSSEBytes"

datatype eventResult = NoUsage | BadUsage | GoodUsage CompletionUsage | StreamDone

definition eventResult :: "usageUnmarshal \<Rightarrow> CompletionUsageFormat \<Rightarrow> string list \<Rightarrow> eventResult" where
  "eventResult d format ev =
     (if tooLong ev then BadUsage
      else if eventData ev = [] then NoUsage
      else
        let data = strings_TrimSpace (joinLines (eventData ev))
        in if data = ''[DONE]'' then StreamDone
           else if Contains data usageKey
           then (case decodeCompletionUsageEvidence d data True format of
                   (usage, CompletionUsageAvailable) \<Rightarrow> GoodUsage usage
                 | (usage, CompletionUsageMalformed) \<Rightarrow> BadUsage
                 | (usage, CompletionUsageUnavailable) \<Rightarrow> NoUsage)
           else NoUsage)"

fun goodUsages :: "eventResult list \<Rightarrow> CompletionUsage list" where
  "goodUsages [] = []"
| "goodUsages (GoodUsage u # rs) = u # goodUsages rs"
| "goodUsages (_ # rs) = goodUsages rs"

definition evidenceOf :: "eventResult list \<Rightarrow> CompletionUsageEvidence" where
  "evidenceOf rs =
     (if BadUsage \<in> set rs \<or> 1 < length (goodUsages rs)
      then \<lparr>ue_Outcome = CompletionUsageMalformed, ue_Usage = zeroUsage\<rparr>
      else case goodUsages rs of
        [] \<Rightarrow> \<lparr>ue_Outcome = CompletionUsageUnavailable, ue_Usage = zeroUsage\<rparr>
      | u # us \<Rightarrow> \<lparr>ue_Outcome = CompletionUsageAvailable, ue_Usage = u\<rparr>)"

definition streamResults :: "usageUnmarshal \<Rightarrow> CompletionUsageFormat \<Rightarrow> string \<Rightarrow> eventResult list" where
  "streamResults d format text = map (eventResult d format) (sseEvents [] (sseLines text))"

text \<open>The evidence of a whole response.\<close>

definition responseUsageOf ::
  "usageUnmarshal \<Rightarrow> bool \<Rightarrow> CompletionUsageFormat \<Rightarrow> string \<Rightarrow> CompletionUsageEvidence" where
  "responseUsageOf d streaming format text =
     (if streaming then evidenceOf (takeWhile (\<lambda>r. r \<noteq> StreamDone) (streamResults d format text))
      else if length text > maximumCompletionUsageJSONBytes
      then \<lparr>ue_Outcome = CompletionUsageMalformed, ue_Usage = zeroUsage\<rparr>
      else if text = [] then \<lparr>ue_Outcome = CompletionUsageUnavailable, ue_Usage = zeroUsage\<rparr>
      else (case decodeCompletionUsageEvidence d text False format of
              (usage, outcome) \<Rightarrow> \<lparr>ue_Outcome = outcome, ue_Usage = usage\<rparr>))"

definition streamDone :: "usageUnmarshal \<Rightarrow> bool \<Rightarrow> CompletionUsageFormat \<Rightarrow> string \<Rightarrow> bool" where
  "streamDone d streaming format text \<longleftrightarrow> streaming \<and> StreamDone \<in> set (streamResults d format text)"

subsection \<open>Forgetting the clock\<close>

definition untimed :: "CompletionUsage \<Rightarrow> CompletionUsage" where
  "untimed u = u\<lparr>cu_ObservedAt := zeroTime\<rparr>"

fun untimedCall :: "usageCall \<Rightarrow> usageCall" where
  "untimedCall (UsageCall u) = UsageCall (untimed u)"
| "untimedCall TerminalCall = TerminalCall"
| "untimedCall (EvidenceCall e) = EvidenceCall (e\<lparr>ue_Usage := untimed (ue_Usage e)\<rparr>)"

definition forget :: "CompletionUsageObserver \<Rightarrow> CompletionUsageObserver" where
  "forget ob = ob\<lparr>uo_candidate := untimed (uo_candidate ob), uo_calls := map untimedCall (uo_calls ob)\<rparr>"

lemma untimed_simps [simp]:
  "untimed zeroUsage = zeroUsage" "untimed (u\<lparr>cu_ObservedAt := t\<rparr>) = untimed u" "untimed (untimed u) = untimed u"
  "u\<lparr>cu_ObservedAt := zeroTime\<rparr> = untimed u"
  by (simp_all add: untimed_def zeroUsage_def)

lemma forget_simps [simp]:
  "uo_streaming (forget ob) = uo_streaming ob" "uo_format (forget ob) = uo_format ob"
  "uo_finished (forget ob) = uo_finished ob" "uo_terminalSeen (forget ob) = uo_terminalSeen ob"
  "uo_line (forget ob) = uo_line ob" "uo_eventData (forget ob) = uo_eventData ob"
  "uo_eventLimited (forget ob) = uo_eventLimited ob" "uo_eventHasData (forget ob) = uo_eventHasData ob"
  "uo_candidateValid (forget ob) = uo_candidateValid ob" "uo_candidateInvalid (forget ob) = uo_candidateInvalid ob"
  "uo_jsonBody (forget ob) = uo_jsonBody ob" "uo_jsonLimited (forget ob) = uo_jsonLimited ob"
  "uo_jsonCapacity (forget ob) = uo_jsonCapacity ob"
  "uo_calls (forget ob) = map untimedCall (uo_calls ob)"
  by (simp_all add: forget_def)

lemma forget_event: "forget (finishSSEEvent d now ob) = finishSSEEvent d zeroTime (forget ob)"
  by (cases ob) (simp add: finishSSEEvent_def forget_def notifyTerminal_def Let_def
      split: prod.split CompletionUsageEvidenceOutcome.split)

lemma forget_line: "forget (processSSELine d now ob) = processSSELine d zeroTime (forget ob)"
proof -
  have l: "forget (ob\<lparr>uo_line := []\<rparr>) = (forget ob)\<lparr>uo_line := []\<rparr>" by (simp add: forget_def)
  show ?thesis by (simp add: processSSELine_def forget_event l Let_def) (simp add: forget_def)
qed

lemma forget_sse: "forget (observeSSE d now ob chunk) = observeSSE d zeroTime (forget ob) chunk"
proof (induction chunk arbitrary: ob)
  case (Cons b chunk)
  have "forget (ob\<lparr>uo_line := x\<rparr>) = (forget ob)\<lparr>uo_line := x\<rparr>"
    "forget (ob\<lparr>uo_eventLimited := y\<rparr>) = (forget ob)\<lparr>uo_eventLimited := y\<rparr>" for x y
    by (simp_all add: forget_def)
  moreover have "uo_finished (processSSELine d zeroTime (forget ob)) = uo_finished (processSSELine d now ob)"
    "uo_terminalSeen (processSSELine d zeroTime (forget ob)) = uo_terminalSeen (processSSELine d now ob)"
    by (metis forget_line forget_simps(3), metis forget_line forget_simps(4))
  ultimately show ?case using Cons by (simp add: forget_line Let_def)
qed simp

lemma forget_observe: "forget (Observe d now ob chunk) = Observe d zeroTime (forget ob) chunk"
proof -
  have "forget (observeJSON ob chunk) = observeJSON (forget ob) chunk"
    by (simp add: observeJSON_def Let_def) (simp add: forget_def)
  then show ?thesis by (simp add: Observe_def forget_sse)
qed

lemma forget_emit [simp]: "forget (emit ob u) = emit (forget ob) (untimed u)"
  by (simp add: emit_def forget_def)

lemma forget_evidence [simp]: "forget (emitEvidence ob e) = emitEvidence (forget ob) (e\<lparr>ue_Usage := untimed (ue_Usage e)\<rparr>)"
  by (simp add: emitEvidence_def forget_def Let_def)

lemma forget_terminal [simp]: "forget (notifyTerminal ob) = notifyTerminal (forget ob)"
  by (simp add: notifyTerminal_def forget_def Let_def)

lemma forget_finishStreaming: "forget (finishStreaming ob) = finishStreaming (forget ob)"
proof -
  have "forget (ob\<lparr>uo_finished := True\<rparr>) = (forget ob)\<lparr>uo_finished := True\<rparr>"
    "uo_candidate (forget ob) = untimed (uo_candidate ob)" by (simp_all add: forget_def)
  then show ?thesis by (simp add: finishStreaming_def Let_def)
qed

lemma details_untimed: "cu_ObservedAt (details_apply x v) = cu_ObservedAt v"
  by (simp add: details_apply_def split: option.split)

lemma responses_untimed: "cu_ObservedAt (fst (responsesUsage e)) = zeroTime"
  by (simp add: responsesUsage_def details_untimed zeroUsage_def Let_def split: option.split)

lemma completions_untimed: "cu_ObservedAt (fst (decodeCompletionsUsageEvidence d payload streaming)) = zeroTime"
  by (simp add: decodeCompletionsUsageEvidence_def details_untimed zeroUsage_def Let_def split: option.split)

lemma decode_untimed:
  assumes "decodeCompletionUsageEvidence d payload streaming format = (u, outcome)"
  shows "untimed u = u"
proof -
  have "cu_ObservedAt (fst (decodeResponsesUsageEvidence d payload streaming)) = zeroTime"
    by (simp add: decodeResponsesUsageEvidence_def responses_untimed zeroUsage_def split: option.split)
  then have "cu_ObservedAt (fst (decodeCompletionUsageEvidence d payload streaming format)) = zeroTime"
    by (simp add: decodeCompletionUsageEvidence_def completions_untimed)
  then have "cu_ObservedAt u = zeroTime" using assms by simp
  then show ?thesis unfolding untimed_def by (cases u) (simp del: untimed_simps)
qed

lemma forget_finish: "forget (Finish d now ob) = Finish d zeroTime (forget ob)"
proof (cases "uo_finished ob \<or> uo_streaming ob")
  case True
  have f: "uo_finished (processSSELine d zeroTime (forget ob)) = uo_finished (processSSELine d now ob)"
    "uo_terminalSeen (processSSELine d zeroTime (forget ob)) = uo_terminalSeen (processSSELine d now ob)"
    "uo_eventHasData (processSSELine d zeroTime (forget ob)) = uo_eventHasData (processSSELine d now ob)"
    "uo_eventLimited (processSSELine d zeroTime (forget ob)) = uo_eventLimited (processSSELine d now ob)"
    unfolding forget_line [of d now ob, symmetric] by (simp_all only: forget_simps)
  show ?thesis using True
    by (cases "uo_finished ob"; cases "uo_terminalSeen ob"; cases "uo_line ob = []")
      (simp_all add: Finish_def Let_def f forget_event forget_finishStreaming forget_line)
next
  case False
  have s: "forget (ob\<lparr>uo_finished := True\<rparr>) = (forget ob)\<lparr>uo_finished := True\<rparr>" by (simp add: forget_def)
  obtain u outcome where d: "decodeCompletionUsageEvidence d (uo_jsonBody ob) False (uo_format ob) = (u, outcome)"
    by fastforce
  show ?thesis using False
    by (cases "uo_jsonLimited ob"; cases "uo_jsonBody ob = []"; cases "outcome = CompletionUsageAvailable")
      (simp_all add: Finish_def Let_def s d decode_untimed [OF d])
qed

subsection \<open>Lines and events\<close>

text \<open>One whole line without its end, as the loop over the bytes treats it.\<close>

definition feedLine :: "usageUnmarshal \<Rightarrow> CompletionUsageObserver \<Rightarrow> string \<Rightarrow> CompletionUsageObserver" where
  "feedLine d ob l = processSSELine d zeroTime
     (ob\<lparr>uo_line := take maximumCompletionUsageSSEBytes l,
         uo_eventLimited := uo_eventLimited ob \<or> length l > maximumCompletionUsageSSEBytes\<rparr>)"

text \<open>The bytes of a line that has not ended.\<close>

definition partLine :: "CompletionUsageObserver \<Rightarrow> string \<Rightarrow> CompletionUsageObserver" where
  "partLine ob l = ob\<lparr>uo_line := take maximumCompletionUsageSSEBytes (uo_line ob @ l),
     uo_eventLimited := uo_eventLimited ob \<or> length (uo_line ob @ l) > maximumCompletionUsageSSEBytes\<rparr>"

lemma part_line:
  assumes "CHR 0x0A \<notin> set l" "length (uo_line ob) \<le> maximumCompletionUsageSSEBytes"
  shows "observeSSE d now ob (l @ chunk) =
    observeSSE d now (if l = [] then ob else partLine ob l) chunk"
  using assms
proof (induction l arbitrary: ob)
  case (Cons b l)
  show ?case
  proof (cases "length (uo_line ob) < maximumCompletionUsageSSEBytes")
    case True
    let ?o = "ob\<lparr>uo_line := uo_line ob @ [b]\<rparr>"
    have "(if l = [] then ?o else partLine ?o l) = partLine ob (b # l)"
      using True by (simp add: partLine_def)
    moreover have "length (uo_line ?o) \<le> maximumCompletionUsageSSEBytes" using True by simp
    ultimately show ?thesis using Cons True by auto
  next
    case False
    let ?o = "ob\<lparr>uo_eventLimited := True\<rparr>"
    have "(if l = [] then ?o else partLine ?o l) = partLine ob (b # l)"
      using False Cons.prems(2) by (cases ob) (simp add: partLine_def)
    then show ?thesis using Cons False by auto
  qed
qed simp

lemma whole_line:
  assumes "CHR 0x0A \<notin> set l" "uo_line ob = []"
  shows "observeSSE d zeroTime ob (l @ CHR 0x0A # chunk) =
     (let o1 = feedLine d ob l in if uo_finished o1 \<or> uo_terminalSeen o1 then o1 else observeSSE d zeroTime o1 chunk)"
proof -
  have "(if l = [] then ob else partLine ob l) =
      ob\<lparr>uo_line := take maximumCompletionUsageSSEBytes l,
         uo_eventLimited := uo_eventLimited ob \<or> length l > maximumCompletionUsageSSEBytes\<rparr>"
    using assms(2) by (cases ob) (simp add: partLine_def)
  then show ?thesis using part_line [OF assms(1), of ob d zeroTime "CHR 0x0A # chunk"] assms(2)
    by (simp add: feedLine_def Let_def)
qed

text \<open>The lines that the observer works through, with the last at the end of the stream.\<close>

fun runLines :: "usageUnmarshal \<Rightarrow> CompletionUsageObserver \<Rightarrow> string list \<Rightarrow> CompletionUsageObserver" where
  "runLines d ob [] =
     finishStreaming (if uo_eventHasData ob \<or> uo_eventLimited ob then finishSSEEvent d zeroTime ob else ob)"
| "runLines d ob (l # ls) =
     (let o1 = feedLine d ob l in if uo_terminalSeen o1 then finishStreaming o1 else runLines d o1 ls)"

lemma event_keeps [simp]:
  "uo_finished (finishSSEEvent d now ob) = uo_finished ob" "uo_streaming (finishSSEEvent d now ob) = uo_streaming ob"
  "uo_format (finishSSEEvent d now ob) = uo_format ob" "uo_line (finishSSEEvent d now ob) = uo_line ob"
  by (simp_all add: finishSSEEvent_def notifyTerminal_def Let_def
      split: prod.split CompletionUsageEvidenceOutcome.split)

lemma line_keeps [simp]:
  "uo_finished (processSSELine d now ob) = uo_finished ob" "uo_streaming (processSSELine d now ob) = uo_streaming ob"
  "uo_format (processSSELine d now ob) = uo_format ob" "uo_line (processSSELine d now ob) = []"
  by (simp_all add: processSSELine_def Let_def)

lemma feedLine_keeps [simp]:
  "uo_finished (feedLine d ob l) = uo_finished ob" "uo_streaming (feedLine d ob l) = uo_streaming ob"
  "uo_format (feedLine d ob l) = uo_format ob" "uo_line (feedLine d ob l) = []"
  by (simp_all add: feedLine_def)

lemma sseLines_line: "CHR 0x0A \<notin> set l \<Longrightarrow> sseLines (l @ CHR 0x0A # s) = l # sseLines s"
  by (induction l) auto

lemma sseLines_part: "CHR 0x0A \<notin> set l \<Longrightarrow> sseLines l = (if l = [] then [] else [l])"
  by (induction l) auto

lemma finish_lines:
  assumes "uo_streaming ob" "\<not> uo_finished ob" "\<not> uo_terminalSeen ob" "uo_line ob = []"
  shows "Finish d zeroTime (observeSSE d zeroTime ob input) = runLines d ob (sseLines input)"
  using assms
proof (induction input arbitrary: ob rule: length_induct)
  case (1 input ob)
  show ?case
  proof (cases "CHR 0x0A \<in> set input")
    case True
    then obtain l rest where t: "input = l @ CHR 0x0A # rest" "CHR 0x0A \<notin> set l"
      by (meson split_list_first)
    let ?o = "feedLine d ob l"
    show ?thesis
    proof (cases "uo_terminalSeen ?o")
      case True
      then show ?thesis using 1(2-) t by (simp add: whole_line sseLines_line Let_def Finish_def)
    next
      case False
      have "length rest < length input" using t by simp
      then have "Finish d zeroTime (observeSSE d zeroTime ?o rest) = runLines d ?o (sseLines rest)"
        using 1(1) 1(2-) False by simp
      then show ?thesis using 1(2-) t False by (simp add: whole_line sseLines_line Let_def)
    qed
  next
    case False
    show ?thesis
    proof (cases "input = []")
      case True
      then show ?thesis using 1(2-) by (simp add: Finish_def Let_def)
    next
      case ne: False
      have o: "observeSSE d zeroTime ob input = partLine ob input"
        using part_line [OF False, of ob d zeroTime "[]"] 1(5) ne by simp
      have p: "processSSELine d zeroTime (partLine ob input) = feedLine d ob input"
        using 1(5) by (simp add: partLine_def feedLine_def)
      have l: "uo_line (partLine ob input) \<noteq> []" using ne 1(5) by (simp add: partLine_def)
      have k: "uo_finished (partLine ob input) = uo_finished ob" "uo_terminalSeen (partLine ob input) = uo_terminalSeen ob"
          "uo_streaming (partLine ob input) = uo_streaming ob" by (simp_all add: partLine_def)
      show ?thesis using 1(2-) by (simp add: o Finish_def k l p Let_def sseLines_part [OF False] ne)
    qed
  qed
qed

text \<open>What the observer holds of the event \<open>cur\<close>, and of the results \<open>rs\<close> of those before it.\<close>

definition holdsEvent :: "CompletionUsageObserver \<Rightarrow> string list \<Rightarrow> bool" where
  "holdsEvent ob cur \<longleftrightarrow> uo_line ob = [] \<and> uo_eventLimited ob = tooLong cur \<and>
     (\<not> tooLong cur \<longrightarrow> uo_eventHasData ob = (eventData cur \<noteq> []) \<and> uo_eventData ob = joinLines (eventData cur))"

definition holdsResults :: "CompletionUsageObserver \<Rightarrow> eventResult list \<Rightarrow> bool" where
  "holdsResults ob rs \<longleftrightarrow> uo_candidateValid ob = (goodUsages rs \<noteq> []) \<and>
     (goodUsages rs \<noteq> [] \<longrightarrow> uo_candidate ob = hd (goodUsages rs)) \<and>
     uo_candidateInvalid ob = (BadUsage \<in> set rs \<or> 1 < length (goodUsages rs))"

lemma join_snoc: "joinLines (xs @ [y]) = joinLines xs @ (if xs = [] then [] else [CHR 0x0A]) @ y"
  by (cases xs) simp_all

lemma eventData_snoc: "eventData (cur @ [l]) = eventData cur @ lineData l"
  by (simp add: eventData_def)

lemma lineData_cases: "lineData l = [] \<or> (\<exists>x. lineData l = [x])"
  by (simp add: lineData_def Let_def)

lemma tooLong_mono: "tooLong cur \<Longrightarrow> tooLong (cur @ [l])"
  using lineData_cases [of l] by (auto simp: tooLong_def eventData_snoc join_snoc)

lemma goodUsages_append: "goodUsages (rs @ qs) = goodUsages rs @ goodUsages qs"
  by (induction rs rule: goodUsages.induct) simp_all

lemma blank_short: "blankLine l \<Longrightarrow> length l \<le> 1"
  by (auto simp: blankLine_def TrimSuffix_def suffix_def split: if_splits)

lemma feed_blank: "blankLine l \<Longrightarrow> uo_line ob = [] \<Longrightarrow> feedLine d ob l = finishSSEEvent d zeroTime ob"
  using blank_short [of l] by (cases ob) (simp add: feedLine_def processSSELine_def blankLine_def Let_def)

lemma data_not_comment: "prefix ''data:'' l \<Longrightarrow> hd l \<noteq> CHR '':''"
  by (cases l) auto

text \<open>A line of an event only adds to it.\<close>

lemma feed_line:
  assumes "holdsEvent ob cur" "\<not> blankLine l"
  shows "holdsEvent (feedLine d ob l) (cur @ [l]) \<and>
     (\<exists>e lim has. feedLine d ob l = ob\<lparr>uo_line := [], uo_eventData := e, uo_eventLimited := lim, uo_eventHasData := has\<rparr>)"
proof -
  let ?max = maximumCompletionUsageSSEBytes
  let ?o = "ob\<lparr>uo_line := take ?max l, uo_eventLimited := uo_eventLimited ob \<or> length l > ?max\<rparr>"
  let ?line = "TrimSuffix (take ?max l) [CHR 0x0D]"
  have ne: "?line \<noteq> []"
  proof (cases "length l \<le> ?max")
    case True
    then show ?thesis using assms(2) by (simp add: blankLine_def)
  next
    case False
    then have "length (take ?max l) = ?max" by simp
    then have "length ?line \<ge> ?max - 1" by (simp add: TrimSuffix_def)
    then show ?thesis by auto
  qed
  have f: "feedLine d ob l = (if tooLong cur \<or> length l > ?max \<or> \<not> prefix ''data:'' ?line
      then ob\<lparr>uo_line := [], uo_eventLimited := tooLong cur \<or> length l > ?max\<rparr>
      else let data = TrimPrefix (TrimPrefix ?line ''data:'') '' '';
               additional = length data + (if uo_eventHasData ob then 1 else 0)
           in if length (uo_eventData ob) + additional > ?max
              then ob\<lparr>uo_line := [], uo_eventData := [], uo_eventLimited := True\<rparr>
              else ob\<lparr>uo_line := [], uo_eventLimited := False,
                      uo_eventData := uo_eventData ob @ (if uo_eventHasData ob then [CHR 0x0A] else []) @ data,
                      uo_eventHasData := True\<rparr>)"
    using assms(1) ne data_not_comment [of ?line]
    by (cases ob) (auto simp: feedLine_def processSSELine_def holdsEvent_def Let_def)
  consider (long) "tooLong cur \<or> length l > ?max" | (other) "\<not> tooLong cur" "length l \<le> ?max" "\<not> prefix ''data:'' ?line"
    | (data) "\<not> tooLong cur" "length l \<le> ?max" "prefix ''data:'' ?line" by linarith
  then show ?thesis
  proof cases
    case long
    then have "tooLong (cur @ [l])" using tooLong_mono by (auto simp: tooLong_def)
    then show ?thesis using long unfolding f by (cases ob) (auto simp: holdsEvent_def)
  next
    case other
    then have n: "lineData l = []" by (simp add: lineData_def)
    then have "\<not> tooLong (cur @ [l])" using other by (simp add: tooLong_def eventData_snoc)
    then show ?thesis using other assms(1) n unfolding f by (cases ob) (auto simp: holdsEvent_def eventData_snoc)
  next
    case data
    let ?data = "TrimPrefix (TrimPrefix ?line ''data:'') '' ''"
    have n: "lineData l = [?data]" using data by (simp add: lineData_def)
    have h: "uo_eventHasData ob = (eventData cur \<noteq> [])" "uo_eventData ob = joinLines (eventData cur)"
      using assms(1) data(1) by (simp_all add: holdsEvent_def)
    have j: "joinLines (eventData (cur @ [l])) = uo_eventData ob @ (if uo_eventHasData ob then [CHR 0x0A] else []) @ ?data"
      by (simp add: eventData_snoc n join_snoc h)
    have t: "tooLong (cur @ [l]) \<longleftrightarrow>
        length (uo_eventData ob) + (length ?data + (if uo_eventHasData ob then 1 else 0)) > ?max"
      using data(1,2) by (simp add: tooLong_def j)
    have v: "eventData (cur @ [l]) \<noteq> []" by (simp add: eventData_snoc n)
    show ?thesis
    proof (cases "tooLong (cur @ [l])")
      case True
      then have "feedLine d ob l = ob\<lparr>uo_line := [], uo_eventData := [], uo_eventLimited := True\<rparr>"
        using data t by (simp add: f Let_def)
      then show ?thesis using True by (cases ob) (auto simp: holdsEvent_def)
    next
      case False
      then have "feedLine d ob l = ob\<lparr>uo_line := [], uo_eventLimited := False,
          uo_eventData := uo_eventData ob @ (if uo_eventHasData ob then [CHR 0x0A] else []) @ ?data, uo_eventHasData := True\<rparr>"
        using data t by (simp add: f Let_def)
      then show ?thesis using False v j by (cases ob) (auto simp: holdsEvent_def)
    qed
  qed
qed

text \<open>The calls that an observer makes for the evidence \<open>e\<close>; the end of the stream comes first when it is marked.\<close>

definition callsFor :: "bool \<Rightarrow> bool \<Rightarrow> bool \<Rightarrow> bool \<Rightarrow> CompletionUsageEvidence \<Rightarrow> usageCall list" where
  "callsFor callback onTerminal onEvidence marked e =
     (if marked \<and> onTerminal then [TerminalCall] else []) @
     (if callback \<and> ue_Outcome e = CompletionUsageAvailable then [UsageCall (ue_Usage e)] else []) @
     (if onEvidence then [EvidenceCall e] else []) @
     (if \<not> marked \<and> onTerminal then [TerminalCall] else [])"

definition quiet :: "CompletionUsageObserver \<Rightarrow> bool" where
  "quiet ob \<longleftrightarrow> \<not> uo_finished ob \<and> \<not> uo_evidenceNotified ob \<and> \<not> uo_terminalNotified ob \<and> \<not> uo_terminalSeen ob \<and>
     uo_streaming ob"

abbreviation clearEvent :: "CompletionUsageObserver \<Rightarrow> CompletionUsageObserver" where
  "clearEvent ob \<equiv> ob\<lparr>uo_eventData := [], uo_eventLimited := False, uo_eventHasData := False\<rparr>"

definition takeResult :: "eventResult \<Rightarrow> CompletionUsageObserver \<Rightarrow> CompletionUsageObserver" where
  "takeResult r ob = (case r of
      NoUsage \<Rightarrow> ob
    | BadUsage \<Rightarrow> ob\<lparr>uo_candidateInvalid := True\<rparr>
    | GoodUsage u \<Rightarrow> (if uo_candidateValid ob then ob\<lparr>uo_candidateInvalid := True\<rparr>
         else ob\<lparr>uo_candidate := untimed u, uo_candidateValid := True\<rparr>)
    | StreamDone \<Rightarrow> ob)"

lemma Contains_nil [simp]: "Contains [] usageKey = False"
  by (simp add: Contains_def usageKey_def)

lemma marker_no_usage: "Contains ''[DONE]'' usageKey = False"
  by (simp add: Contains_def usageKey_def)

lemma event_taken:
  fixes d :: usageUnmarshal
  assumes "holdsEvent ob cur"
  defines "r \<equiv> eventResult d (uo_format ob) cur"
  shows "finishSSEEvent d zeroTime ob =
    (if r = StreamDone then notifyTerminal ((clearEvent ob)\<lparr>uo_terminalSeen := True\<rparr>)
     else clearEvent (takeResult r ob))"
proof (cases "tooLong cur \<or> eventData cur = []")
  case True
  then show ?thesis
    using assms(1) by (auto simp: finishSSEEvent_def r_def eventResult_def holdsEvent_def takeResult_def Let_def)
next
  case False
  let ?data = "strings_TrimSpace (joinLines (eventData cur))"
  have h: "uo_eventData ob = joinLines (eventData cur)" "uo_eventHasData ob" "\<not> uo_eventLimited ob"
    using False assms(1) by (simp_all add: holdsEvent_def)
  obtain u outcome where dec: "decodeCompletionUsageEvidence d ?data True (uo_format ob) = (u, outcome)" by fastforce
  consider (mark) "?data = ''[DONE]''" | (key) "?data \<noteq> ''[DONE]''" "?data \<noteq> []" "Contains ?data usageKey"
    | (other) "?data \<noteq> ''[DONE]''" "\<not> Contains ?data usageKey"
    using Contains_nil by metis
  then show ?thesis
  proof cases
    case mark
    then show ?thesis using False h
      by (simp add: finishSSEEvent_def r_def eventResult_def Let_def)
  next
    case key
    then show ?thesis using False h dec
      by (cases outcome) (simp_all add: finishSSEEvent_def r_def eventResult_def takeResult_def Let_def)
  next
    case other
    then show ?thesis using False h
      by (simp add: finishSSEEvent_def r_def eventResult_def takeResult_def Let_def)
  qed
qed

lemma result_untimed: "eventResult d format cur = GoodUsage u \<Longrightarrow> untimed u = u"
  using decode_untimed [of d _ True format]
  by (simp add: eventResult_def Let_def split: if_splits prod.splits CompletionUsageEvidenceOutcome.splits)

lemma takeResult_keeps [simp]:
  "uo_finished (takeResult r ob) = uo_finished ob" "uo_evidenceNotified (takeResult r ob) = uo_evidenceNotified ob"
  "uo_terminalNotified (takeResult r ob) = uo_terminalNotified ob" "uo_terminalSeen (takeResult r ob) = uo_terminalSeen ob"
  "uo_streaming (takeResult r ob) = uo_streaming ob" "uo_format (takeResult r ob) = uo_format ob"
  "uo_callback (takeResult r ob) = uo_callback ob" "uo_onTerminal (takeResult r ob) = uo_onTerminal ob"
  "uo_onEvidence (takeResult r ob) = uo_onEvidence ob" "uo_calls (takeResult r ob) = uo_calls ob"
  "uo_line (takeResult r ob) = uo_line ob"
  by (simp_all add: takeResult_def split: eventResult.split)

lemma take_results:
  assumes "holdsResults ob rs" "r \<noteq> StreamDone" "\<And>u. r = GoodUsage u \<Longrightarrow> untimed u = u"
  shows "holdsResults (takeResult r ob) (rs @ [r])"
proof (cases r)
  case (GoodUsage u)
  then have u: "untimed u = u" by (rule assms(3))
  show ?thesis
  proof (cases "goodUsages rs")
    case Nil
    then show ?thesis using assms(1) GoodUsage u by (simp add: holdsResults_def takeResult_def goodUsages_append)
  next
    case (Cons x xs)
    then show ?thesis using assms(1) GoodUsage by (simp add: holdsResults_def takeResult_def goodUsages_append)
  qed
qed (use assms in \<open>simp_all add: holdsResults_def takeResult_def goodUsages_append\<close>)

lemma clear_holds: "uo_line ob = [] \<Longrightarrow> holdsEvent (clearEvent ob) []"
  by (simp add: holdsEvent_def tooLong_def eventData_def)

lemma clear_results [simp]: "holdsResults (clearEvent ob) rs = holdsResults ob rs"
  by (simp add: holdsResults_def)

lemma finish_calls:
  assumes "holdsResults ob rs" "\<not> uo_finished ob" "\<not> uo_evidenceNotified ob"
    and "uo_terminalNotified ob \<longrightarrow> marked" "marked \<longrightarrow> uo_terminalNotified ob"
    and "uo_calls ob = before @ (if marked \<and> uo_onTerminal ob then [TerminalCall] else [])"
  shows "uo_calls (finishStreaming ob) =
     before @ callsFor (uo_callback ob) (uo_onTerminal ob) (uo_onEvidence ob) marked (evidenceOf rs) \<and>
     uo_finished (finishStreaming ob)"
proof -
  have k: "uo_candidateValid ob = (goodUsages rs \<noteq> [])" "goodUsages rs \<noteq> [] \<Longrightarrow> uo_candidate ob = hd (goodUsages rs)"
      "uo_candidateInvalid ob = (BadUsage \<in> set rs \<or> 1 < length (goodUsages rs))"
    using assms(1) by (simp_all add: holdsResults_def)
  have m: "uo_terminalNotified ob = marked" using assms(4,5) by blast
  consider (bad) "uo_candidateInvalid ob" | (none) "\<not> uo_candidateInvalid ob" "goodUsages rs = []"
    | (one) u us where "\<not> uo_candidateInvalid ob" "goodUsages rs = u # us"
    by (cases "goodUsages rs") auto
  then show ?thesis
  proof cases
    case bad
    then have "evidenceOf rs = \<lparr>ue_Outcome = CompletionUsageMalformed, ue_Usage = zeroUsage\<rparr>"
      unfolding evidenceOf_def k(3) by simp
    then show ?thesis using bad assms(2,3,6) m
      by (simp add: finishStreaming_def Let_def emitEvidence_def notifyTerminal_def callsFor_def)
  next
    case none
    then have "evidenceOf rs = \<lparr>ue_Outcome = CompletionUsageUnavailable, ue_Usage = zeroUsage\<rparr>"
      unfolding evidenceOf_def k(3) by simp
    then show ?thesis using none assms(2,3,6) m k(1)
      by (simp add: finishStreaming_def Let_def emitEvidence_def notifyTerminal_def callsFor_def)
  next
    case one
    then have "evidenceOf rs = \<lparr>ue_Outcome = CompletionUsageAvailable, ue_Usage = u\<rparr>"
      unfolding evidenceOf_def k(3) by simp
    then show ?thesis using one assms(2,3,6) m k(1,2)
      by (simp add: finishStreaming_def Let_def emitEvidence_def emit_def notifyTerminal_def callsFor_def)
  qed
qed

lemma marked_finish:
  assumes "quiet ob" "holdsResults ob rs"
  shows "uo_calls (finishStreaming (notifyTerminal ((clearEvent ob)\<lparr>uo_terminalSeen := True\<rparr>))) =
     uo_calls ob @ callsFor (uo_callback ob) (uo_onTerminal ob) (uo_onEvidence ob) True (evidenceOf rs) \<and>
     uo_finished (finishStreaming (notifyTerminal ((clearEvent ob)\<lparr>uo_terminalSeen := True\<rparr>)))"
proof -
  let ?o = "notifyTerminal ((clearEvent ob)\<lparr>uo_terminalSeen := True\<rparr>)"
  have f: "uo_finished ?o = False" "uo_evidenceNotified ?o = False" "uo_terminalNotified ?o"
    "uo_callback ?o = uo_callback ob" "uo_onTerminal ?o = uo_onTerminal ob" "uo_onEvidence ?o = uo_onEvidence ob"
    "uo_calls ?o = uo_calls ob @ (if True \<and> uo_onTerminal ?o then [TerminalCall] else [])"
    using assms(1) by (simp_all add: notifyTerminal_def quiet_def Let_def)
  have h: "holdsResults ?o rs" using assms(2) by (simp add: holdsResults_def notifyTerminal_def Let_def)
  show ?thesis using finish_calls [OF h, of True "uo_calls ob"] f by simp
qed

text \<open>The results that count.\<close>

abbreviation counted :: "eventResult list \<Rightarrow> eventResult list" where
  "counted \<equiv> takeWhile (\<lambda>r. r \<noteq> StreamDone)"

lemma evidence_no_usage: "evidenceOf (rs @ [NoUsage]) = evidenceOf rs"
  by (simp add: evidenceOf_def goodUsages_append)

lemma run_lines:
  fixes d :: usageUnmarshal and ls :: "string list"
  assumes "holdsEvent ob cur" "holdsResults ob rs" "quiet ob" "StreamDone \<notin> set rs"
  defines "all \<equiv> map (eventResult d (uo_format ob)) (sseEvents cur ls)"
  shows "uo_calls (runLines d ob ls) =
      uo_calls ob @ callsFor (uo_callback ob) (uo_onTerminal ob) (uo_onEvidence ob) (StreamDone \<in> set all)
        (evidenceOf (rs @ counted all)) \<and>
     uo_finished (runLines d ob ls)"
  using assms(1-4) unfolding all_def
proof (induction ls arbitrary: ob cur rs)
  case Nil
  let ?r = "eventResult d (uo_format ob) cur"
  have taken: "finishSSEEvent d zeroTime ob = (if ?r = StreamDone then notifyTerminal ((clearEvent ob)\<lparr>uo_terminalSeen := True\<rparr>)
     else clearEvent (takeResult ?r ob))" by (rule event_taken [OF Nil(1)])
  show ?case
  proof (cases "uo_eventHasData ob \<or> uo_eventLimited ob")
    case True
    show ?thesis
    proof (cases "?r = StreamDone")
      case True
      then show ?thesis using marked_finish [OF Nil(3,2)] taken \<open>uo_eventHasData ob \<or> uo_eventLimited ob\<close> by simp
    next
      case False
      let ?o = "clearEvent (takeResult ?r ob)"
      have h: "holdsResults ?o (rs @ [?r])"
        using take_results [OF Nil(2) False result_untimed] by simp
      show ?thesis using finish_calls [OF h, of False "uo_calls ob"] Nil(3) taken False True
        by (simp add: quiet_def)
    qed
  next
    case False
    then have "?r = NoUsage" using Nil(1) by (auto simp: holdsEvent_def eventResult_def)
    then show ?thesis using finish_calls [OF Nil(2), of False "uo_calls ob"] Nil(3) False
      by (simp add: quiet_def evidence_no_usage)
  qed
next
  case (Cons l ls)
  show ?case
  proof (cases "blankLine l")
    case False
    from feed_line [OF Cons.prems(1) False, of d]
    obtain e lim has where h: "holdsEvent (feedLine d ob l) (cur @ [l])"
        and o: "feedLine d ob l = ob\<lparr>uo_line := [], uo_eventData := e, uo_eventLimited := lim, uo_eventHasData := has\<rparr>"
      by blast
    have "holdsResults (feedLine d ob l) rs" "quiet (feedLine d ob l)"
      using Cons.prems(2,3) by (simp_all add: o holdsResults_def quiet_def)
    note IH = Cons.IH [OF h this Cons.prems(4)]
    have q: "\<not> uo_terminalSeen (feedLine d ob l)" using Cons.prems(3) by (simp add: o quiet_def)
    show ?thesis using IH q False by (simp add: Let_def) (simp add: o)
  next
    case True
    let ?r = "eventResult d (uo_format ob) cur"
    have f: "feedLine d ob l = finishSSEEvent d zeroTime ob"
      using feed_blank [OF True] Cons.prems(1) by (simp add: holdsEvent_def)
    have taken: "feedLine d ob l = (if ?r = StreamDone then notifyTerminal ((clearEvent ob)\<lparr>uo_terminalSeen := True\<rparr>)
       else clearEvent (takeResult ?r ob))" unfolding f by (rule event_taken [OF Cons.prems(1)])
    show ?thesis
    proof (cases "?r = StreamDone")
      case fin: True
      have "uo_terminalSeen (feedLine d ob l)" using fin by (simp add: taken notifyTerminal_def Let_def)
      then have "runLines d ob (l # ls) = finishStreaming (notifyTerminal ((clearEvent ob)\<lparr>uo_terminalSeen := True\<rparr>))"
        using fin by (simp add: taken Let_def)
      then show ?thesis using marked_finish [OF Cons.prems(3,2)] True fin by simp
    next
      case False
      let ?o = "clearEvent (takeResult ?r ob)"
      have h: "holdsResults ?o (rs @ [?r])"
        using take_results [OF Cons.prems(2) False result_untimed] by simp
      have e: "holdsEvent ?o []" using Cons.prems(1) by (intro clear_holds) (simp add: holdsEvent_def)
      have q: "quiet ?o" using Cons.prems(3) by (simp add: quiet_def)
      have n: "StreamDone \<notin> set (rs @ [?r])" using Cons.prems(4) False by simp
      have fd: "feedLine d ob l = ?o" using taken False by simp
      have "\<not> uo_terminalSeen ?o" using q by (simp add: quiet_def)
      then have "runLines d ob (l # ls) = runLines d ?o ls" by (simp add: fd Let_def)
      then show ?thesis using Cons.IH [OF e h q n] True False by simp
    qed
  qed
qed

subsection \<open>A whole response\<close>

text \<open>Chunks with the readings of the clock at which they arrive.\<close>

fun observeAll :: "usageUnmarshal \<Rightarrow> CompletionUsageObserver \<Rightarrow> (gotime \<times> string) list \<Rightarrow> CompletionUsageObserver" where
  "observeAll d ob [] = ob"
| "observeAll d ob ((now, chunk) # chunks) = observeAll d (Observe d now ob chunk) chunks"

lemma forget_all: "forget (observeAll d ob chunks) = observeAll d (forget ob) (map (\<lambda>c. (zeroTime, snd c)) chunks)"
  by (induction d ob chunks rule: observeAll.induct) (simp_all add: forget_observe)

lemma sse_append:
  assumes "\<not> uo_finished ob" "\<not> uo_terminalSeen ob"
  shows "observeSSE d now ob (s @ t) = (let o1 = observeSSE d now ob s in
     if uo_finished o1 \<or> uo_terminalSeen o1 then o1 else observeSSE d now o1 t)"
  using assms
proof (induction s arbitrary: ob)
  case (Cons b s)
  show ?case
  proof (cases "b = CHR 0x0A")
    case True
    let ?o = "processSSELine d now ob"
    show ?thesis
    proof (cases "uo_finished ?o \<or> uo_terminalSeen ?o")
      case True
      then show ?thesis using \<open>b = CHR 0x0A\<close> by (simp add: Let_def)
    next
      case False
      then show ?thesis using \<open>b = CHR 0x0A\<close> Cons.IH [of ?o] by (simp add: Let_def)
    qed
  next
    case False
    then show ?thesis using Cons by (simp add: Let_def)
  qed
qed simp

lemma streaming_all:
  assumes "uo_streaming ob" "\<not> uo_finished ob" "\<not> uo_terminalSeen ob"
  shows "observeAll d ob (map (Pair now) chunks) = observeSSE d now ob (concat chunks)"
proof -
  have stop: "observeAll d ob (map (Pair now) cs) = ob" if "uo_finished ob \<or> uo_terminalSeen ob" for cs ob
    using that by (induction cs) (auto simp: Observe_def)
  have keep: "uo_streaming (observeSSE d now ob s) = uo_streaming ob" for s ob
    by (induction s arbitrary: ob) (auto simp: Let_def)
  show ?thesis using assms
  proof (induction chunks arbitrary: ob)
    case (Cons c chunks)
    let ?o = "observeSSE d now ob c"
    have s: "Observe d now ob c = ?o" using Cons.prems by (simp add: Observe_def)
    show ?case
    proof (cases "uo_finished ?o \<or> uo_terminalSeen ?o")
      case True
      then show ?thesis using Cons.prems stop [of ?o chunks] by (simp add: s sse_append Let_def)
    next
      case False
      then show ?thesis using Cons keep [of ob c] by (simp add: s sse_append Let_def)
    qed
  qed simp
qed

text \<open>A body that is not streamed is kept up to the limit.\<close>

definition holdsBody :: "CompletionUsageObserver \<Rightarrow> string \<Rightarrow> bool" where
  "holdsBody ob body \<longleftrightarrow> uo_jsonLimited ob = (length body > maximumCompletionUsageJSONBytes) \<and>
     (\<not> uo_jsonLimited ob \<longrightarrow> uo_jsonBody ob = body)"

lemma json_observe:
  assumes "holdsBody ob body" "\<not> uo_streaming ob" "\<not> uo_finished ob" "\<not> uo_terminalSeen ob"
  shows "holdsBody (Observe d now ob chunk) (body @ chunk) \<and>
     (\<exists>b c l. Observe d now ob chunk = ob\<lparr>uo_jsonBody := b, uo_jsonCapacity := c, uo_jsonLimited := l\<rparr>)"
proof -
  let ?max = maximumCompletionUsageJSONBytes
  consider (same) "chunk = [] \<or> uo_jsonLimited ob"
    | (much) "chunk \<noteq> []" "\<not> uo_jsonLimited ob" "length chunk > ?max - length (uo_jsonBody ob)"
    | (more) "chunk \<noteq> []" "\<not> uo_jsonLimited ob" "\<not> length chunk > ?max - length (uo_jsonBody ob)" by blast
  then show ?thesis
  proof cases
    case same
    then have ob: "Observe d now ob chunk = ob" by (auto simp: Observe_def observeJSON_def assms(2))
    have "ob = ob\<lparr>uo_jsonBody := uo_jsonBody ob, uo_jsonCapacity := uo_jsonCapacity ob, uo_jsonLimited := uo_jsonLimited ob\<rparr>"
      by simp
    then have "\<exists>b c l. ob = ob\<lparr>uo_jsonBody := b, uo_jsonCapacity := c, uo_jsonLimited := l\<rparr>" by blast
    moreover have "holdsBody ob (body @ chunk)" using same assms(1) by (auto simp: holdsBody_def)
    ultimately show ?thesis unfolding ob by blast
  next
    case much
    then have ob: "Observe d now ob chunk = ob\<lparr>uo_jsonBody := [], uo_jsonCapacity := 0, uo_jsonLimited := True\<rparr>"
      using assms(2-4) by (simp add: Observe_def observeJSON_def)
    have "holdsBody (ob\<lparr>uo_jsonBody := [], uo_jsonCapacity := 0, uo_jsonLimited := True\<rparr>) (body @ chunk)"
      using much assms(1) by (simp add: holdsBody_def)
    then show ?thesis unfolding ob by blast
  next
    case more
    obtain c where ob: "Observe d now ob chunk =
        ob\<lparr>uo_jsonBody := uo_jsonBody ob @ chunk, uo_jsonCapacity := c, uo_jsonLimited := False\<rparr>"
    proof
      have "ob\<lparr>uo_jsonLimited := False\<rparr> = ob" using more(2) by (cases ob) simp
      then show "Observe d now ob chunk = ob\<lparr>uo_jsonBody := uo_jsonBody ob @ chunk,
          uo_jsonCapacity := uo_jsonCapacity (observeJSON ob chunk), uo_jsonLimited := False\<rparr>"
        using more assms(2-4) by (cases ob) (simp add: Observe_def observeJSON_def Let_def)
    qed
    have b: "uo_jsonBody ob = body" "length body \<le> ?max" using more(2) assms(1) by (simp_all add: holdsBody_def)
    have "length chunk \<le> ?max - length body" using more(3) unfolding b(1) by (rule leI)
    then have "length body + length chunk \<le> ?max" using b(2) by (simp add: le_diff_conv2 add.commute)
    then have "holdsBody (ob\<lparr>uo_jsonBody := uo_jsonBody ob @ chunk, uo_jsonCapacity := c, uo_jsonLimited := False\<rparr>) (body @ chunk)"
      using b by (simp add: holdsBody_def)
    then show ?thesis unfolding ob by blast
  qed
qed

lemma json_all:
  assumes "holdsBody ob body" "\<not> uo_streaming ob" "\<not> uo_finished ob" "\<not> uo_terminalSeen ob"
  shows "holdsBody (observeAll d ob chunks) (body @ concat (map snd chunks)) \<and>
     (\<exists>b c l. observeAll d ob chunks = ob\<lparr>uo_jsonBody := b, uo_jsonCapacity := c, uo_jsonLimited := l\<rparr>)"
  using assms
proof (induction d ob chunks arbitrary: body rule: observeAll.induct)
  case (1 d ob)
  have "ob = ob\<lparr>uo_jsonBody := uo_jsonBody ob, uo_jsonCapacity := uo_jsonCapacity ob, uo_jsonLimited := uo_jsonLimited ob\<rparr>"
    by simp
  then have "\<exists>b c l. ob = ob\<lparr>uo_jsonBody := b, uo_jsonCapacity := c, uo_jsonLimited := l\<rparr>" by metis
  then show ?case using 1 by simp
next
  case (2 d ob now chunk chunks)
  from json_observe [OF 2(2-), of d now chunk]
  obtain b c l where h: "holdsBody (Observe d now ob chunk) (body @ chunk)"
    and ob: "Observe d now ob chunk = ob\<lparr>uo_jsonBody := b, uo_jsonCapacity := c, uo_jsonLimited := l\<rparr>" by blast
  have "\<not> uo_streaming (Observe d now ob chunk)" "\<not> uo_finished (Observe d now ob chunk)"
      "\<not> uo_terminalSeen (Observe d now ob chunk)" using 2(3-) by (simp_all add: ob)
  from 2(1) [OF h this] show ?case by (auto simp: ob)
qed

lemma new_observer:
  assumes "newCompletionUsageObserver streaming format callback onTerminal onEvidence = Some ob"
  shows "uo_streaming ob = streaming" "uo_format ob = format" "uo_callback ob = callback" "uo_onTerminal ob = onTerminal"
    "uo_onEvidence ob = onEvidence" "\<not> uo_finished ob" "\<not> uo_terminalSeen ob" "uo_calls ob = []" "forget ob = ob"
    "holdsBody ob []" "holdsEvent ob []" "holdsResults ob []" "uo_line ob = []" "streaming \<Longrightarrow> quiet ob"
    "\<not> uo_evidenceNotified ob" "\<not> uo_terminalNotified ob"
  using assms by (auto simp: newCompletionUsageObserver_def forget_def holdsBody_def holdsEvent_def holdsResults_def tooLong_def
      eventData_def quiet_def split: if_splits)

lemma usage_calls:
  fixes chunks :: "(gotime \<times> string) list"
  assumes new: "newCompletionUsageObserver streaming format callback onTerminal onEvidence = Some ob"
  defines "body \<equiv> concat (map snd chunks)"
  shows "map untimedCall (uo_calls (Finish d now (observeAll d (ob\<lparr>uo_jsonCapacity := capacity\<rparr>) chunks))) =
      callsFor callback onTerminal onEvidence (streamDone d streaming format body) (responseUsageOf d streaming format body) \<and>
    uo_finished (Finish d now (observeAll d (ob\<lparr>uo_jsonCapacity := capacity\<rparr>) chunks))"
proof -
  let ?ob = "ob\<lparr>uo_jsonCapacity := capacity\<rparr>"
  let ?cs = "map (\<lambda>c. (zeroTime, snd c)) chunks"
  let ?fin = "Finish d now (observeAll d ?ob chunks)"
  note n = new_observer [OF new]
  have n': "forget ?ob = ?ob" "holdsBody ?ob []" "holdsEvent ?ob []" "holdsResults ?ob []"
    using n(9-12) by (simp_all add: forget_def holdsBody_def holdsEvent_def holdsResults_def) (cases ob; simp)
  have f: "forget ?fin = Finish d zeroTime (observeAll d ?ob ?cs)"
    by (simp add: forget_finish forget_all n'(1))
  have c: "map untimedCall (uo_calls ?fin) = uo_calls (forget ?fin)" "uo_finished ?fin = uo_finished (forget ?fin)" by simp_all
  have snds: "concat (map snd ?cs) = body" by (simp add: body_def comp_def)
  show ?thesis
  proof (cases streaming)
    case True
    have q: "quiet ?ob" using n(14) [OF True] by (simp add: quiet_def)
    have "observeAll d ?ob ?cs = observeAll d ?ob (map (Pair zeroTime) (map snd chunks))" by (simp add: comp_def)
    also have "\<dots> = observeSSE d zeroTime ?ob body"
      using streaming_all [of ?ob d zeroTime "map snd chunks"] n(1,6,7) True by (simp add: body_def)
    finally have e: "forget ?fin = runLines d ?ob (sseLines body)"
      unfolding f using finish_lines [of ?ob d body] n(1,6,7,13) True by simp
    show ?thesis
      using run_lines [OF n'(3,4) q, of d "sseLines body"] n(2-5,8) True
      by (simp add: c e responseUsageOf_def streamDone_def streamResults_def)
  next
    case False
    have s: "\<not> uo_streaming ?ob" "\<not> uo_finished ?ob" "\<not> uo_terminalSeen ?ob" using n(1,6,7) False by simp_all
    obtain b k l where h: "holdsBody (observeAll d ?ob ?cs) body"
      and ob: "observeAll d ?ob ?cs = ?ob\<lparr>uo_jsonBody := b, uo_jsonCapacity := k, uo_jsonLimited := l\<rparr>"
      using json_all [OF n'(2) s, of d ?cs] snds by auto
    have l: "l = (length body > maximumCompletionUsageJSONBytes)" "\<not> l \<Longrightarrow> b = body"
      using h unfolding ob holdsBody_def by simp_all
    obtain u outcome where dec: "decodeCompletionUsageEvidence d body False format = (u, outcome)" by fastforce
    have zero: "\<not> uo_evidenceNotified ob" "\<not> uo_terminalNotified ob" by (rule n(15), rule n(16))
    have e: "forget ?fin = Finish d zeroTime (?ob\<lparr>uo_jsonBody := b, uo_jsonCapacity := k, uo_jsonLimited := l\<rparr>)"
      unfolding f ob ..
    note defs = Finish_def emitEvidence_def emit_def notifyTerminal_def callsFor_def responseUsageOf_def streamDone_def Let_def
    consider (limited) "l" | (empty) "\<not> l" "body = []" | (some) "\<not> l" "body \<noteq> []" by blast
    then show ?thesis
    proof cases
      case limited
      then show ?thesis unfolding c e using l n(1-8) zero False by (simp add: defs)
    next
      case empty
      then show ?thesis unfolding c e using l n(1-8) zero False by (simp add: defs)
    next
      case some
      then show ?thesis unfolding c e using l n(1-8) zero False dec decode_untimed [OF dec]
        by (cases outcome) (simp_all add: defs)
    qed
  qed
qed

subsection \<open>Reading a response\<close>

fun usageReads ::
  "usageUnmarshal \<Rightarrow> completionUsageBody \<Rightarrow> (gotime \<times> nat) list \<Rightarrow> completionUsageBody \<times> (string \<times> string option) list" where
  "usageReads d b [] = (b, [])"
| "usageReads d b ((now, n) # reads) =
     (case usageBody_Read d now b n of
        (b1, bytes, err) \<Rightarrow> (case usageReads d b1 reads of (b2, outs) \<Rightarrow> (b2, (bytes, err) # outs)))"

text \<open>The same reads without an observer between.\<close>

fun sourceReads :: "readResults \<Rightarrow> nat list \<Rightarrow> (string \<times> string option) list" where
  "sourceReads source [] = []"
| "sourceReads source (n # ns) =
     (case readUpTo n source of (bytes, err, later) \<Rightarrow> (bytes, err) # sourceReads later ns)"

text \<open>What a reader has got when the end is reported for the first time.\<close>

fun textRead :: "(string \<times> string option) list \<Rightarrow> string" where
  "textRead [] = []"
| "textRead ((bytes, err) # outs) = bytes @ (if err = Some ''EOF'' then [] else textRead outs)"

definition endRead :: "(string \<times> string option) list \<Rightarrow> bool" where
  "endRead outs = list_ex (\<lambda>x. snd x = Some ''EOF'') outs"

lemma finish_finished [simp]: "uo_finished (Finish d now ob)"
proof -
  have t: "uo_finished (notifyTerminal x) = uo_finished x" and e: "uo_finished (emitEvidence x ev) = uo_finished x"
    and u: "uo_finished (emit x v) = uo_finished x" for x ev v
    by (simp_all add: notifyTerminal_def emitEvidence_def emit_def Let_def)
  have "uo_finished (finishStreaming x)" for x by (simp add: finishStreaming_def t e u Let_def)
  then show ?thesis by (simp add: Finish_def t e u Let_def split: prod.split)
qed

lemma finished_stays: "uo_finished ob \<Longrightarrow> Observe d now ob chunk = ob \<and> Finish d now ob = ob"
  by (simp add: Observe_def Finish_def)

lemma read_through:
  assumes "cb_reader b = Inl source" "\<not> cb_hasExpectedLength b"
  shows "usageBody_Read d now b n = (case readUpTo n source of (bytes, err, later) \<Rightarrow>
     (b\<lparr>cb_reader := Inl later, cb_observer :=
        (let o1 = Observe d now (cb_observer b) bytes in if err = Some ''EOF'' then Finish d now o1 else o1)\<rparr>, bytes, err))"
proof -
  obtain bytes err later where r: "readUpTo n source = (bytes, err, later)" by (metis prod.exhaust)
  have "Observe d now (cb_observer b) [] = cb_observer b" by (simp add: Observe_def)
  then show ?thesis using assms by (cases b; cases "bytes = []") (simp_all add: usageBody_Read_def r Let_def)
qed

lemma usage_reads:
  assumes "cb_reader b = Inl source" "\<not> cb_hasExpectedLength b" "usageReads d b reads = (b', outs)"
  shows "outs = sourceReads source (map snd reads) \<and>
     (uo_finished (cb_observer b) \<longrightarrow> cb_observer b' = cb_observer b) \<and>
     (\<not> uo_finished (cb_observer b) \<longrightarrow> (\<exists>now chunks. concat (map snd chunks) = textRead outs \<and>
        cb_observer b' = (let o1 = observeAll d (cb_observer b) chunks in if endRead outs then Finish d now o1 else o1)))"
  using assms
proof (induction d b reads arbitrary: source b' outs rule: usageReads.induct)
  case (1 d b)
  then show ?case by (auto simp: endRead_def intro: exI [of _ "[]"])
next
  case (2 d b now n reads)
  obtain bytes err later where r: "readUpTo n source = (bytes, err, later)" by (metis prod.exhaust)
  let ?o = "let o1 = Observe d now (cb_observer b) bytes in if err = Some ''EOF'' then Finish d now o1 else o1"
  let ?b = "b\<lparr>cb_reader := Inl later, cb_observer := ?o\<rparr>"
  have b1: "usageBody_Read d now b n = (?b, bytes, err)" using read_through [OF 2(2,3), of d now n] r by simp
  obtain b2 rest where u: "usageReads d ?b reads = (b2, rest)" by fastforce
  have e: "b' = b2" "outs = (bytes, err) # rest" using 2(4) b1 u by simp_all
  have "cb_reader ?b = Inl later" "\<not> cb_hasExpectedLength ?b" using 2(3) by simp_all
  note I = 2(1) [OF b1 [symmetric] refl this u]
  have ob: "cb_observer ?b = ?o" by simp
  have IH: "rest = sourceReads later (map snd reads)" "uo_finished ?o \<Longrightarrow> cb_observer b2 = ?o"
    "\<not> uo_finished ?o \<Longrightarrow> \<exists>now chunks. concat (map snd chunks) = textRead rest \<and>
        cb_observer b2 = (let o1 = observeAll d ?o chunks in if endRead rest then Finish d now o1 else o1)"
    using I unfolding ob by blast+
  show ?case
  proof (cases "uo_finished (cb_observer b)")
    case True
    then have "?o = cb_observer b" by (simp add: finished_stays Let_def)
    then show ?thesis using IH(1,2) True r e by simp
  next
    case False
    show ?thesis
    proof (cases "uo_finished ?o")
      case fin: True
      have "err = Some ''EOF''"
      proof (rule ccontr)
        assume "err \<noteq> Some ''EOF''"
        then have "uo_finished (Observe d now (cb_observer b) bytes)" using fin by (simp add: Let_def)
        moreover have "uo_finished (observeSSE d now ob s) = uo_finished ob" for ob s
          by (induction s arbitrary: ob) (simp_all add: Let_def)
        moreover have "uo_finished (observeJSON ob s) = uo_finished ob" for ob s
          by (simp add: observeJSON_def Let_def)
        ultimately show False using False by (simp add: Observe_def split: if_splits)
      qed
      then show ?thesis using IH(1) IH(2) [OF fin] False r e
        by (auto simp: endRead_def Let_def intro!: exI [of _ now] exI [of _ "[(now, bytes)]"])
    next
      case going: False
      then have err: "err \<noteq> Some ''EOF''" by (auto simp: Let_def)
      from IH(3) [OF going] obtain t chunks where c: "concat (map snd chunks) = textRead rest"
        "cb_observer b2 = (let o1 = observeAll d ?o chunks in if endRead rest then Finish d t o1 else o1)" by blast
      then show ?thesis using IH(1) False r e err
        by (auto simp: endRead_def Let_def intro!: exI [of _ t] exI [of _ "(now, bytes) # chunks"])
    qed
  qed
qed

lemma silent_all:
  assumes "\<not> uo_onTerminal ob"
  shows "uo_calls (observeAll d ob chunks) = uo_calls ob"
proof -
  let ?same = "\<lambda>o1 ob. \<not> uo_onTerminal o1 \<and> uo_calls o1 = uo_calls ob"
  have event: "?same (finishSSEEvent d now ob) ob" if "\<not> uo_onTerminal ob" for now ob
    using that by (simp add: finishSSEEvent_def notifyTerminal_def Let_def
        split: prod.split CompletionUsageEvidenceOutcome.split)
  have line: "?same (processSSELine d now ob) ob" if "\<not> uo_onTerminal ob" for now ob
    using that event [of "ob\<lparr>uo_line := []\<rparr>"] by (simp add: processSSELine_def Let_def)
  have sse: "?same (observeSSE d now ob s) ob" if "\<not> uo_onTerminal ob" for now ob s
    using that line by (induction s arbitrary: ob) (simp_all add: Let_def)
  have json: "?same (observeJSON ob s) ob" if "\<not> uo_onTerminal ob" for ob s
    using that by (simp add: observeJSON_def Let_def)
  have observe: "?same (Observe d now ob s) ob" if "\<not> uo_onTerminal ob" for now ob s
    using that sse json by (simp add: Observe_def)
  show ?thesis using assms
  proof (induction chunks arbitrary: ob)
    case (Cons c chunks)
    then show ?case using observe [of ob "fst c" "snd c"] by (cases c) simp
  qed simp
qed

text \<open>C33: The usage of a response is captured exactly and changes nothing of it: a reader of the observed body
  gets the bytes and errors that the source gives, however it cuts them. Until the end nothing is reported;
  at the end exactly one evidence is, the one that the whole text has - for a stream, the single usable
  usage among the events before its mark of the end, with every line and event within the limits, and
  for a JSON body what decoding the text gives, if it is within 4 MiB.\<close>
theorem usage_captured_once:
  "\<exists>body. ObserveCompletionUsageEvidenceBodyForFormatLength source streaming format contentLength True = Some body \<and>
     (case usageReads d body reads of (body', outs) \<Rightarrow>
        outs = sourceReads source (map snd reads) \<and>
        map untimedCall (uo_calls (cb_observer body')) =
          (if endRead outs then [EvidenceCall (responseUsageOf d streaming format (textRead outs))] else []))"
proof -
  obtain ob where ob: "newCompletionUsageObserver streaming format False False True = Some ob"
    by (simp add: newCompletionUsageObserver_def)
  note n = new_observer [OF ob]
  let ?capacity = "if \<not> streaming \<and> contentLength > 0 \<and> contentLength \<le> int maximumCompletionUsageJSONBytes
    then nat contentLength else uo_jsonCapacity ob"
  let ?body = "\<lparr>cb_reader = Inl source, cb_observer = ob\<lparr>uo_jsonCapacity := ?capacity\<rparr>, cb_remaining = -1,
     cb_hasExpectedLength = False, cb_expectedLengthBad = False\<rparr>"
  have b: "ObserveCompletionUsageEvidenceBodyForFormatLength source streaming format contentLength True = Some ?body"
    by (simp add: ObserveCompletionUsageEvidenceBodyForFormatLength_def observeCompletionUsageBody_def ob Let_def)
  obtain body' outs where u: "usageReads d ?body reads = (body', outs)" by fastforce
  from usage_reads [OF _ _ u, of source] n(6)
  obtain now chunks where o: "outs = sourceReads source (map snd reads)" "concat (map snd chunks) = textRead outs"
    "cb_observer body' = (let o1 = observeAll d (ob\<lparr>uo_jsonCapacity := ?capacity\<rparr>) chunks
        in if endRead outs then Finish d now o1 else o1)" by auto
  have "map untimedCall (uo_calls (cb_observer body')) =
      (if endRead outs then [EvidenceCall (responseUsageOf d streaming format (textRead outs))] else [])"
  proof (cases "endRead outs")
    case True
    then show ?thesis using usage_calls [OF ob, of d now ?capacity chunks] o by (simp add: callsFor_def)
  next
    case False
    then show ?thesis using silent_all [of "ob\<lparr>uo_jsonCapacity := ?capacity\<rparr>" d chunks] n(4,8) o(3) by simp
  qed
  then show ?thesis using b u o(1) by auto
qed

subsection \<open>Durations at the bound\<close>

text \<open>
  The guard of \<open>millisecondsDuration\<close> lets a product through that rounds to \<open>2 ^ 63\<close>, which is no
  duration: the conversion gives what the processor makes of it, here the least integer.
\<close>

lemma rne_up: "of_int n - 1 / 2 < x \<Longrightarrow> x \<le> of_int n \<Longrightarrow> rne x = n"
proof -
  assume a: "of_int n - 1 / 2 < x" "x \<le> of_int n"
  show ?thesis
  proof (cases "x = of_int n")
    case False
    then have "\<lfloor>x\<rfloor> = n - 1" using a by (intro floor_unique) simp_all
    then show ?thesis using a by (simp add: rne_def Let_def)
  qed simp
qed

theorem milliseconds_duration_overflow:
  "rnd (4722366482869645 / 512) = Fin (4722366482869645 / 512) \<and>
   millisecondsDuration (Fin (4722366482869645 / 512)) = Some MinInt64"
proof -
  let ?v = "4722366482869645 / 512 :: rat"
  let ?p = "4722366482869645 / 512 * 1000000 :: rat"
  have v: "?v = of_int 4722366482869645 * 2 powi (- 9)" by (simp add: power_int_minus)
  have "rndabs ?v = ?v" unfolding v by (rule rndabs_exact) simp_all
  moreover have "(?v :: rat) < 2 ^ 1024" by (rule less_le_trans [of _ "2 ^ 64"]) (simp, rule power_increasing, simp_all)
  ultimately have float: "rnd ?v = Fin ?v" by (simp add: rnd_pos)
  have "elog2 ?p \<ge> 62" by (rule elog2_ge_iff) simp_all
  moreover have "elog2 ?p < 63" by (rule elog2_less_iff) simp_all
  ultimately have "fexp ?p = 10" by (simp add: fexp_def)
  moreover have "rne (?p / 1024) = 9007199254740992" by (rule rne_up) simp_all
  ultimately have r: "rndabs ?p = 9223372036854775808" by (simp add: rndabs_def)
  have "\<not> (2 :: rat) ^ 1024 \<le> 9223372036854775808"
  proof -
    have "(9223372036854775808 :: rat) < 2 ^ 64" by simp
    also have "\<dots> \<le> 2 ^ 1024" by (rule power_increasing) simp_all
    finally show ?thesis by simp
  qed
  moreover have "0 < ?p" by simp
  ultimately have "rnd ?p = Fin 9223372036854775808" by (simp only: rnd_pos r if_False)
  then have "fmul (Fin ?v) (Fin 1000000) = Fin 9223372036854775808" by (simp only: fmul.simps)
  then have "millisecondsDuration (Fin ?v) = Some (int64_of (f64_Ceil (Fin 9223372036854775808)))"
    by (simp add: millisecondsDuration_def IsNaN_def IsInf_def Let_def del: fmul.simps)
  moreover have "int64_of (f64_Ceil (Fin 9223372036854775808)) = MinInt64"
    by (simp add: f64_Ceil_def int64_of_def Let_def)
  ultimately show ?thesis using float by simp
qed

end
