(* ===== verification/ResponseEvidence.thy ===== *)
theory ResponseEvidence
  imports UsageCapture
begin

text \<open>
  \<open>internal/app/server/response_usage_evidence.go\<close> and \<open>request_evidence.go\<close>, with the result of
  forwarding that \<open>proxy.go\<close> judges: what is counted of the requests and of the usage of their
  responses, and what is learned from it about the cost of prompts.

  The last constructor of an enumeration with a count is that count, which stands for every number
  out of range. An array of counters is a function from its indices.
\<close>

subsection \<open>The result of forwarding\<close>

abbreviation clientClosedRequestStatus :: int where "clientClosedRequestStatus \<equiv> 499"

record proxyResult =
  pr_status :: int
  pr_total :: duration
  pr_firstByte :: duration
  pr_firstByteOK :: bool
  pr_timedOut :: bool
  pr_proxyFailed :: bool

definition proxyResultSucceeded :: "proxyResult \<Rightarrow> bool" where
  "proxyResultSucceeded result \<longleftrightarrow>
     pr_status result \<ge> 200 \<and> pr_status result < 300 \<and> \<not> pr_proxyFailed result \<and> \<not> pr_timedOut result \<and>
     pr_status result \<noteq> clientClosedRequestStatus"

definition admissionTerminalCause :: "proxyResult \<Rightarrow> TerminalCause" where
  "admissionTerminalCause result =
     (if pr_timedOut result then TerminalTimeout
      else if pr_status result = clientClosedRequestStatus then TerminalDisconnect
      else if pr_proxyFailed result then TerminalError
      else if proxyResultSucceeded result then TerminalSuccess
      else TerminalError)"

subsection \<open>Evidence of requests\<close>

datatype classifierEvidenceOutcome =
  classifierEvidenceSupported | classifierEvidenceBodyNotScannable | classifierEvidenceBodyTooLarge
  | classifierEvidenceUnsupportedContentType | classifierEvidenceSaturated | classifierEvidenceBodyReadFailed
  | classifierEvidenceInvalidJSON | classifierEvidenceUnsupportedRequestShape | classifierEvidenceShapeScanLimit
  | classifierEvidenceUnsupportedEndpoint | classifierEvidenceUnknown

datatype streamingEvidenceState =
  streamingEvidenceUnknown | streamingEvidenceUnspecified | streamingEvidenceTrue | streamingEvidenceFalse
  | streamingEvidenceInvalid

record requestEvidence =
  qe_classifierOutcomes :: "classifierEvidenceOutcome \<Rightarrow> nat"
  qe_streamingStates :: "streamingEvidenceState \<Rightarrow> nat"
  qe_decodeFanout :: "admissionEvidenceFanoutBucket \<Rightarrow> nat"

definition classifierEvidenceOutcomeFor :: "Classification \<Rightarrow> classifierEvidenceOutcome" where
  "classifierEvidenceOutcomeFor c =
     (let reason = cf_UnsupportedReason c
      in if cf_Supported c then classifierEvidenceSupported
         else if reason = ''body_not_scannable'' then classifierEvidenceBodyNotScannable
         else if reason = ''body_too_large'' then classifierEvidenceBodyTooLarge
         else if reason = ''unsupported_content_type'' then classifierEvidenceUnsupportedContentType
         else if reason = ''classifier_saturated'' then classifierEvidenceSaturated
         else if reason = ''body_read_failed'' then classifierEvidenceBodyReadFailed
         else if reason = ''invalid_json'' then classifierEvidenceInvalidJSON
         else if reason = ''unsupported_request_shape'' then classifierEvidenceUnsupportedRequestShape
         else if reason = ''shape_scan_limit'' then classifierEvidenceShapeScanLimit
         else if reason = ''unsupported_endpoint'' then classifierEvidenceUnsupportedEndpoint
         else classifierEvidenceUnknown)"

definition streamingEvidenceStateFor :: "Classification \<Rightarrow> streamingEvidenceState" where
  "streamingEvidenceStateFor c =
     (if \<not> cf_JSONFieldsKnown c then streamingEvidenceUnknown
      else if \<not> cf_StreamingPresent c then streamingEvidenceUnspecified
      else if \<not> cf_StreamingKnown c then streamingEvidenceInvalid
      else if cf_Streaming c then streamingEvidenceTrue
      else streamingEvidenceFalse)"

definition increment :: "('a \<Rightarrow> nat) \<Rightarrow> 'a \<Rightarrow> 'a \<Rightarrow> nat" where
  "increment counters i = counters(i := wrapu64 (counters i + 1))"

definition requestEvidence_Record :: "requestEvidence \<Rightarrow> Classification \<Rightarrow> requestEvidence" where
  "requestEvidence_Record e classification =
     e\<lparr>qe_classifierOutcomes := increment (qe_classifierOutcomes e) (classifierEvidenceOutcomeFor classification),
       qe_streamingStates := increment (qe_streamingStates e) (streamingEvidenceStateFor classification),
       qe_decodeFanout := increment (qe_decodeFanout e) (admissionEvidenceFanoutFor (cf_DecodeSequences classification))\<rparr>"

definition requestEvidence_Snapshot :: "requestEvidence \<Rightarrow> requestEvidence" where
  "requestEvidence_Snapshot e =
     \<lparr>qe_classifierOutcomes = qe_classifierOutcomes e, qe_streamingStates = qe_streamingStates e,
      qe_decodeFanout = qe_decodeFanout e\<rparr>"

subsection \<open>Evidence of the usage of responses\<close>

datatype responseUsageEvidenceOutcome =
  responseUsageEvidenceAvailable | responseUsageEvidenceUnavailable | responseUsageEvidenceMalformed
  | responseUsageEvidenceCensored | responseUsageEvidenceOutcomeCount

datatype actualOutputTokenBucket =
  actualOutputTokensLE64 | actualOutputTokensLE256 | actualOutputTokensLE1024 | actualOutputTokensLE4096
  | actualOutputTokensLE16384 | actualOutputTokensGT16384 | actualOutputTokensUnavailable
  | actualOutputTokensMalformed | actualOutputTokensCensored | actualOutputTokenBucketCount

record responseUsageEvidence =
  rx_outcomes :: "responseUsageEvidenceOutcome \<Rightarrow> nat"
  rx_actuals :: "actualOutputTokenBucket \<Rightarrow> nat"
  rx_successfulCompletionTokens :: nat
  rx_tierSuccessfulCompletionTokens :: "nat \<Rightarrow> nat"

record responseUsageRequestEvidence =
  rq_tier :: int
  rq_streamingKnown :: bool
  rq_streaming :: bool
  rq_formatKnown :: bool
  rq_format :: CompletionUsageFormat
  rq_promptCost :: bool
  rq_prompt :: PromptFingerprint
  rq_promptCostResult :: promptCost
  rq_parserAttached :: bool
  rq_observation :: CompletionUsageEvidence
  rq_observed :: bool
  rq_completed :: bool

definition responseUsageFormatForPath :: "string \<Rightarrow> CompletionUsageFormat \<times> bool" where
  "responseUsageFormatForPath path =
     (if path = ''/v1/chat/completions'' \<or> path = ''/v1/completions'' then (CompletionUsageFormatCompletions, True)
      else if path = ''/v1/responses'' then (CompletionUsageFormatResponses, True)
      else (CompletionUsageFormatCompletions, False))"

definition responseUsage_Begin :: "Classification \<Rightarrow> string \<Rightarrow> RequestTier \<Rightarrow> responseUsageRequestEvidence" where
  "responseUsage_Begin classification path tier =
     (case responseUsageFormatForPath path of
        (format, formatKnown) \<Rightarrow>
          \<lparr>rq_tier = int (admissionEvidenceTierIndex tier),
           rq_streamingKnown = (cf_JSONFieldsKnown classification \<and>
             (\<not> cf_StreamingPresent classification \<or> cf_StreamingKnown classification)),
           rq_streaming = cf_Streaming classification, rq_formatKnown = formatKnown, rq_format = format,
           rq_promptCost = False, rq_prompt = zeroFingerprint, rq_promptCostResult = zeroCost,
           rq_parserAttached = False,
           rq_observation = \<lparr>ue_Outcome = CompletionUsageUnavailable, ue_Usage = zeroUsage\<rparr>,
           rq_observed = False, rq_completed = False\<rparr>)"

definition responseUsage_record ::
  "responseUsageEvidence \<Rightarrow> int \<Rightarrow> responseUsageEvidenceOutcome \<Rightarrow> actualOutputTokenBucket \<Rightarrow> nat \<Rightarrow> responseUsageEvidence" where
  "responseUsage_record e tier outcome0 actual0 tokens =
     (let outcome = (if outcome0 = responseUsageEvidenceOutcomeCount then responseUsageEvidenceMalformed else outcome0);
          actual = (if actual0 = actualOutputTokenBucketCount then actualOutputTokensMalformed else actual0);
          e1 = e\<lparr>rx_outcomes := increment (rx_outcomes e) outcome, rx_actuals := increment (rx_actuals e) actual,
                 rx_successfulCompletionTokens := wrapu64 (rx_successfulCompletionTokens e + tokens)\<rparr>
      in if 0 \<le> tier \<and> tier < int admissionEvidenceTierCount
         then e1\<lparr>rx_tierSuccessfulCompletionTokens := (rx_tierSuccessfulCompletionTokens e1)
                (nat tier := wrapu64 (rx_tierSuccessfulCompletionTokens e1 (nat tier) + tokens))\<rparr>
         else e1)"

definition responseUsage_Snapshot :: "responseUsageEvidence \<Rightarrow> responseUsageEvidence" where
  "responseUsage_Snapshot e =
     \<lparr>rx_outcomes = rx_outcomes e, rx_actuals = rx_actuals e,
      rx_successfulCompletionTokens = rx_successfulCompletionTokens e,
      rx_tierSuccessfulCompletionTokens = rx_tierSuccessfulCompletionTokens e\<rparr>"

text \<open>\<open>mime.ParseMediaType\<close> is an argument, see \<open>Classify\<close>.\<close>

definition CompletionUsageContentTypeEligible :: "(string \<Rightarrow> string option) \<Rightarrow> string \<Rightarrow> bool \<Rightarrow> bool" where
  "CompletionUsageContentTypeEligible parseMediaType contentType streaming =
     (case parseMediaType contentType of
        None \<Rightarrow> False
      | Some mediaType0 \<Rightarrow>
          let mediaType = ToLower mediaType0
          in if streaming then mediaType = ''text/event-stream''
             else mediaType = ''application/json'' \<or> suffix ''+json'' mediaType)"

record upstreamResponse =
  us_StatusCode :: int
  us_ContentType :: string
  us_ContentLength :: int
  us_Body :: "readResults option"

text \<open>The request's evidence, and the body that the observer reads through when one is attached.\<close>

definition WrapResponse ::
  "(string \<Rightarrow> string option) \<Rightarrow> responseUsageRequestEvidence \<Rightarrow> upstreamResponse \<Rightarrow>
   responseUsageRequestEvidence \<times> completionUsageBody option" where
  "WrapResponse parseMediaType r response =
     (case us_Body response of
        None \<Rightarrow> (r, None)
      | Some body \<Rightarrow>
          if us_StatusCode response < 200 \<or> us_StatusCode response \<ge> 300 \<or> \<not> rq_streamingKnown r \<or> \<not> rq_formatKnown r \<or>
             \<not> CompletionUsageContentTypeEligible parseMediaType (us_ContentType response) (rq_streaming r)
          then (r, None)
          else if rq_completed r \<or> rq_parserAttached r then (r, None)
          else (r\<lparr>rq_parserAttached := True\<rparr>,
                ObserveCompletionUsageEvidenceBodyForFormatLength body (rq_streaming r) (rq_format r)
                  (us_ContentLength response) True))"

definition TrackPromptCost ::
  "responseUsageRequestEvidence \<Rightarrow> PromptFingerprint \<Rightarrow> promptCost \<Rightarrow> responseUsageRequestEvidence" where
  "TrackPromptCost r prompt cost =
     (if \<not> pc_known cost then r
      else r\<lparr>rq_promptCost := True, rq_prompt := prompt, rq_promptCostResult := cost\<rparr>)"

definition observe_usage :: "responseUsageRequestEvidence \<Rightarrow> CompletionUsageEvidence \<Rightarrow> responseUsageRequestEvidence" where
  "observe_usage r observation =
     (if \<not> rq_completed r \<and> \<not> rq_observed r then r\<lparr>rq_observation := observation, rq_observed := True\<rparr> else r)"

definition actualOutputTokenBucketFor :: "int \<Rightarrow> actualOutputTokenBucket" where
  "actualOutputTokenBucketFor tokens =
     (if tokens \<le> 64 then actualOutputTokensLE64
      else if tokens \<le> 256 then actualOutputTokensLE256
      else if tokens \<le> 1024 then actualOutputTokensLE1024
      else if tokens \<le> 4096 then actualOutputTokensLE4096
      else if tokens \<le> 16384 then actualOutputTokensLE16384
      else actualOutputTokensGT16384)"

definition responseUsageEvidenceForObservation ::
  "CompletionUsageEvidence \<Rightarrow> responseUsageEvidenceOutcome \<times> actualOutputTokenBucket \<times> nat" where
  "responseUsageEvidenceForObservation observation =
     (let malformed = (responseUsageEvidenceMalformed, actualOutputTokensMalformed, 0);
          tokens = cu_CompletionTokens (ue_Usage observation)
      in case ue_Outcome observation of
           CompletionUsageAvailable \<Rightarrow>
             if tokens \<ge> 0 then (responseUsageEvidenceAvailable, actualOutputTokenBucketFor tokens, nat tokens) else malformed
         | CompletionUsageUnavailable \<Rightarrow> (responseUsageEvidenceUnavailable, actualOutputTokensUnavailable, 0)
         | CompletionUsageMalformed \<Rightarrow> malformed)"

text \<open>The evidence of all requests and the estimator, which completing a request updates.\<close>

definition responseUsage_Complete ::
  "responseUsageEvidence \<times> promptCostEstimator \<Rightarrow> responseUsageRequestEvidence \<Rightarrow> proxyResult \<Rightarrow>
   (responseUsageEvidence \<times> promptCostEstimator) \<times> responseUsageRequestEvidence" where
  "responseUsage_Complete = (\<lambda>(owner, estimator) r result.
     (if rq_completed r then ((owner, estimator), r)
      else
        let censored = (responseUsageEvidenceCensored, actualOutputTokensCensored, 0);
            (outcome, actual, tokens) =
              (if proxyResultSucceeded result then
                 (if rq_observed r then responseUsageEvidenceForObservation (rq_observation r)
                  else if \<not> rq_parserAttached r
                  then (responseUsageEvidenceUnavailable, actualOutputTokensUnavailable, 0)
                  else censored)
               else censored);
            r1 = r\<lparr>rq_completed := True\<rparr>;
            learn = (rq_observed r1 \<and> outcome = responseUsageEvidenceAvailable);
            usage = ue_Usage (rq_observation r1);
            owner1 = responseUsage_record owner (rq_tier r1) outcome actual tokens;
            estimator1 =
              (if learn \<and> cu_PromptTokens usage > 0 \<and> cu_CachedTokensKnown usage \<and> rq_promptCost r1
               then prompt_Admitted (Learn estimator (rq_prompt r1) (rq_promptCostResult r1) (cu_PromptTokens usage)
                      (cu_CachedTokens usage)) (rq_prompt r1)
               else estimator)
        in ((owner1, estimator1), r1)))"

definition responseUsage_Censor ::
  "responseUsageEvidence \<Rightarrow> responseUsageRequestEvidence \<Rightarrow> responseUsageEvidence \<times> responseUsageRequestEvidence" where
  "responseUsage_Censor owner r =
     (if rq_completed r then (owner, r)
      else (responseUsage_record owner (rq_tier r) responseUsageEvidenceCensored actualOutputTokensCensored 0,
            r\<lparr>rq_completed := True\<rparr>))"

end
