(* ===== verification/Scheduling_Rewrite.thy ===== *)
theory Scheduling_Rewrite
  imports Scheduling "HOL-Library.Sublist"
begin

text \<open>
  What the two ways of writing the priority do to a JSON object, by the grammar of \<open>Shape_Grammar\<close>:
  both put the member last, the result is an object again, and a streamed body does so however its
  bytes arrive and are read.
\<close>

subsection \<open>The text of a number is a number\<close>

lemma byte_of_char_of: "n < 256 \<Longrightarrow> byte (char_of n) = n"
  by (simp add: byte_def)

lemma decimal_digits: "decimal n \<noteq> [] \<and> list_all isJSONDigit (decimal n)"
proof (induction n rule: decimal.induct)
  case (1 n)
  have d: "isJSONDigit (char_of (48 + m))" if "m < 10" for m :: nat
    using that by (simp add: isJSONDigit_def byte_of_char_of)
  show ?case
  proof (cases "n < 10")
    case True
    then show ?thesis using d [of n] by (subst (1 2) decimal.simps) simp
  next
    case False
    then show ?thesis using 1 d [of "n mod 10"] by (subst (1 2) decimal.simps) simp
  qed
qed

lemma char48: "char_of (48 + m) = CHR ''0'' \<longleftrightarrow> m = 0" if "m < 10" for m :: nat
proof
  assume "char_of (48 + m) = CHR ''0''"
  then have "byte (char_of (48 + m)) = byte (CHR ''0'')" by simp
  then show "m = 0" using that by (simp add: byte_of_char_of) (simp add: byte_def)
next
  have "char_of (48 :: nat) = CHR ''0''" by code_simp
  then show "m = 0 \<Longrightarrow> char_of (48 + m) = CHR ''0''" by simp
qed

lemma decimal_head: "0 < n \<Longrightarrow> hd (decimal n) \<noteq> CHR ''0''"
proof (induction n rule: decimal.induct)
  case (1 n)
  show ?case
  proof (cases "n < 10")
    case True
    then show ?thesis using 1(2) char48 [of n] by (subst decimal.simps) simp
  next
    case False
    then show ?thesis using 1 decimal_digits [of "n div 10"] by (subst decimal.simps) simp
  qed
qed

lemma decimal_jint: "jint (decimal n)"
proof (cases "n = 0")
  case True
  have "char_of (48 :: nat) = CHR ''0''" by code_simp
  then show ?thesis using True by (simp add: jint_def decimal.simps [of 0])
next
  case False
  then show ?thesis using decimal_digits decimal_head [of n] by (simp add: jint_def digits_def)
qed

lemma Itoa_number: "jnumber (Itoa value)"
proof -
  have "jnumber (g @ decimal n @ [] @ [])" if "g \<in> {'''', ''-''}" for g n
    unfolding jnumber_def using that decimal_jint [of n]
    by (intro exI [of _ g] exI [of _ "decimal n"] exI [of _ "[]"]) (simp add: jfrac_def jexp_def)
  from this [of "''-''"] this [of "''''"] show ?thesis by (simp add: Itoa_def)
qed

lemma priority_key: "jstring ([CHR 0x22] @ ''priority'' @ [CHR 0x22])"
  by (auto simp: jstring_def byte_def intro!: exI [of _ "''priority''"] jchars.intros)

lemma member_last: "jmembers d (priorityMember value @ ''}'')"
  using last_member [OF priority_key, of "[]" "[]" d "Itoa value" "[]"]
    scalar [of "Itoa value" d] Itoa_number
  by (simp add: priorityMember_def jscalar_def)

lemmas jmembers_member = jvalue_jobject_jmembers_jarray_jelements.member

lemma jmembers_extend:
  "jvalue d v \<Longrightarrow> True" "jobject d o' \<Longrightarrow> True"
  "jmembers d s \<Longrightarrow> jmembers d t \<Longrightarrow> \<exists>s0. s = s0 @ ''}'' \<and> jmembers d (s0 @ '','' @ t)"
  "jarray d a \<Longrightarrow> True" "jelements d es \<Longrightarrow> True"
proof (induction rule: jvalue_jobject_jmembers_jarray_jelements.inducts)
  case (last_member k w1 w2 d v w3)
  then have "jmembers d ((k @ w1 @ '':'' @ w2 @ v @ w3) @ '','' @ [] @ t)"
    using jmembers_member [of k w1 w2 d v w3 "[]" t] by simp
  then show ?case by (intro exI [of _ "k @ w1 @ '':'' @ w2 @ v @ w3"]) simp
next
  case (member k w1 w2 d v w3 w4 s)
  then obtain s0 where s: "s = s0 @ ''}''" "jmembers d (s0 @ '','' @ t)" by blast
  have "jmembers d (k @ w1 @ '':'' @ w2 @ v @ w3 @ '','' @ w4 @ (s0 @ '','' @ t))"
    using member s(2) by (intro jmembers_member)
  then show ?case using s(1) by (intro exI [of _ "k @ w1 @ '':'' @ w2 @ v @ w3 @ '','' @ w4 @ s0"]) simp
qed simp_all

subsection \<open>The streamed rewriting of an object\<close>

definition ready :: "schedulingPriorityBody \<Rightarrow> bool" where
  "ready b \<longleftrightarrow> sp_started b \<and> sp_rootObject b \<and> \<not> sp_injected b \<and> \<not> sp_inString b \<and> \<not> sp_escaped b \<and> 1 \<le> sp_depth b"

text \<open>Text that passes through: it is copied, and it is a member when it is not white space of the root.\<close>

definition past :: "schedulingPriorityBody \<Rightarrow> string \<Rightarrow> schedulingPriorityBody" where
  "past b s = b\<lparr>sp_pending := sp_pending b @ s, sp_hasMember := (sp_hasMember b \<or> sp_depth b = 1 \<and> \<not> ws s)\<rparr>"

definition neutral :: "string \<Rightarrow> bool" where
  "neutral s \<longleftrightarrow> (\<forall>b. ready b \<longrightarrow> foldl feed b s = past b s)"

lemma whitespace_space: "jsonWhitespace = isJSONSpace"
  by (auto simp: jsonWhitespace_def isJSONSpace_def fun_eq_iff)

lemma past_ready [simp]: "ready (past b s) = ready b"
  by (simp add: past_def ready_def)

lemma past_past: "past (past b s) t = past b (s @ t)"
  by (cases "sp_depth b = 1"; cases "ws s") (simp_all add: past_def)

lemma past_nil [simp]: "past b [] = b"
  by (simp add: past_def)

lemma neutral_nil [simp]: "neutral []"
  by (simp add: neutral_def)

lemma neutral_append: "neutral s \<Longrightarrow> neutral t \<Longrightarrow> neutral (s @ t)"
  by (simp add: neutral_def past_past)

definition plainChar :: "char \<Rightarrow> bool" where
  "plainChar c \<longleftrightarrow> c \<notin> {CHR 0x22, CHR ''{'', CHR ''}'', CHR ''['', CHR '']''}"

lemma neutral_char: "plainChar c \<Longrightarrow> neutral [c]"
  by (auto simp: neutral_def plainChar_def feed_def transform_def past_def ready_def whitespace_space)

lemma neutral_plain: "list_all plainChar s \<Longrightarrow> neutral s"
proof (induction s)
  case (Cons c s)
  then show ?case using neutral_append [of "[c]" s] neutral_char by simp
qed simp

lemma space_plain: "isJSONSpace c \<Longrightarrow> plainChar c"
  unfolding isJSONSpace_def plainChar_def by (elim disjE) simp_all

lemma neutral_ws: "ws w \<Longrightarrow> neutral w"
  unfolding ws_def using space_plain list.pred_mono_strong by (intro neutral_plain) blast

text \<open>A string: nothing in it is looked at until its closing quote.\<close>

lemma feed_string_plain:
  assumes "sp_started b" "sp_inString b" "\<not> sp_escaped b" "c \<noteq> CHR 0x22" "c \<noteq> CHR 0x5C"
  shows "feed b c = b\<lparr>sp_pending := sp_pending b @ [c]\<rparr>"
  using assms by (simp add: feed_def transform_def)

lemma feed_string_escape:
  assumes "sp_started b" "sp_rootObject b" "\<not> sp_injected b" "sp_inString b" "\<not> sp_escaped b"
  shows "feed (feed b (CHR 0x5C)) e = b\<lparr>sp_pending := sp_pending b @ [CHR 0x5C, e]\<rparr>"
proof -
  have "feed b (CHR 0x5C) = b\<lparr>sp_pending := sp_pending b @ [CHR 0x5C], sp_escaped := True\<rparr>"
    using assms by (simp add: feed_def transform_def)
  moreover have "feed (b\<lparr>sp_pending := sp_pending b @ [CHR 0x5C], sp_escaped := True\<rparr>) e =
      b\<lparr>sp_pending := sp_pending b @ [CHR 0x5C, e]\<rparr>"
    using assms by (cases b) (simp add: feed_def transform_def)
  ultimately show ?thesis by simp
qed

lemma feed_jchars:
  assumes "jchars t" "sp_started b" "sp_rootObject b" "\<not> sp_injected b" "sp_inString b" "\<not> sp_escaped b"
  shows "foldl feed b t = b\<lparr>sp_pending := sp_pending b @ t\<rparr>"
  using assms
proof (induction arbitrary: b rule: jchars.induct)
  case (jchars_plain c s)
  then show ?case by (simp add: feed_string_plain)
next
  case (jchars_simple e s)
  then show ?case by (simp add: feed_string_escape)
next
  case (jchars_unicode a1 a2 a3 a4 s)
  have h: "isJSONHex x \<Longrightarrow> x \<noteq> CHR 0x22 \<and> x \<noteq> CHR 0x5C" for x
    by (auto simp: isJSONHex_def isJSONDigit_def byte_def)
  show ?case using jchars_unicode h [of a1] h [of a2] h [of a3] h [of a4]
    by (simp add: feed_string_escape feed_string_plain)
qed simp

lemma neutral_string:
  assumes "jstring s"
  shows "neutral s"
proof -
  obtain t where t: "s = CHR 0x22 # t @ [CHR 0x22]" "jchars t" using assms by (auto simp: jstring_def)
  show ?thesis
    unfolding neutral_def
  proof (intro allI impI)
    fix b assume r: "ready b"
    let ?b = "b\<lparr>sp_pending := sp_pending b @ [CHR 0x22], sp_inString := True, sp_hasMember := sp_hasMember b \<or> sp_depth b = 1\<rparr>"
    have q: "feed b (CHR 0x22) = ?b"
      using r by (cases b) (simp add: feed_def transform_def ready_def whitespace_space isJSONSpace_def Let_def)
    have "foldl feed ?b t = ?b\<lparr>sp_pending := sp_pending ?b @ t\<rparr>"
      using r by (intro feed_jchars [OF t(2)]) (simp_all add: ready_def)
    moreover have "feed (?b\<lparr>sp_pending := sp_pending ?b @ t\<rparr>) (CHR 0x22) = past b s"
      using r by (auto simp: feed_def transform_def ready_def past_def t(1) isJSONSpace_def)
    ultimately show "foldl feed b s = past b s" by (simp add: t(1) q)
  qed
qed

text \<open>Brackets around text that passes through.\<close>

lemma neutral_nested:
  assumes "neutral s" "(l, r) \<in> {(CHR ''{'', CHR ''}''), (CHR ''['', CHR '']'')}"
  shows "neutral (l # s @ [r])"
  unfolding neutral_def
proof (intro allI impI)
  fix b assume b: "ready b"
  let ?b = "b\<lparr>sp_pending := sp_pending b @ [l], sp_depth := sp_depth b + 1\<rparr>"
  have o: "feed b l = ?b" using b assms(2) by (auto simp: feed_def transform_def ready_def)
  have "foldl feed ?b s = past ?b s" using assms(1) b by (simp add: neutral_def ready_def)
  moreover have "feed (past ?b s) r = past b (l # s @ [r])"
    using b assms(2) by (cases b) (auto simp: feed_def transform_def ready_def past_def whitespace_space isJSONSpace_def Let_def)
  ultimately show "foldl feed b (l # s @ [r]) = past b (l # s @ [r])" by (simp add: o)
qed

lemma neutral_scalar:
  assumes "jscalar s"
  shows "neutral s"
proof -
  have d: "list_all isJSONDigit x \<Longrightarrow> list_all plainChar x" for x
    by (auto simp: list_all_iff plainChar_def isJSONDigit_def byte_def)
  have i: "jint x \<Longrightarrow> list_all plainChar x" for x
    using d by (auto simp: jint_def digits_def) (simp add: plainChar_def)
  have f: "jfrac x \<Longrightarrow> list_all plainChar x" for x
    using d by (auto simp: jfrac_def digits_def) (simp add: plainChar_def)
  have e: "jexp x \<Longrightarrow> list_all plainChar x" for x
    using d by (auto simp: jexp_def digits_def) (simp_all add: plainChar_def)
  have n: "jnumber s \<Longrightarrow> list_all plainChar s"
    using i f e by (auto simp: jnumber_def) (simp add: plainChar_def)
  have l: "list_all plainChar ''true''" "list_all plainChar ''false''" "list_all plainChar ''null''"
    by (simp_all add: plainChar_def)
  show ?thesis using assms neutral_string neutral_plain n l by (auto simp: jscalar_def)
qed

lemma value_neutral:
  "jvalue d v \<Longrightarrow> neutral v"
  "jobject d o' \<Longrightarrow> \<exists>s. o' = CHR ''{'' # s @ ''}'' \<and> neutral s"
  "jmembers d ms \<Longrightarrow> \<exists>s. ms = s @ ''}'' \<and> neutral s"
  "jarray d a \<Longrightarrow> \<exists>s. a = CHR ''['' # s @ '']'' \<and> neutral s"
  "jelements d es \<Longrightarrow> \<exists>s. es = s @ '']'' \<and> neutral s"
proof (induction rule: jvalue_jobject_jmembers_jarray_jelements.inducts)
  case (last_member k w1 w2 d v w3)
  then show ?case
    by (intro exI [of _ "k @ w1 @ '':'' @ w2 @ v @ w3"])
       (simp add: neutral_append neutral_string neutral_ws neutral_char [of "CHR '':''", simplified] neutral_plain plainChar_def
         neutral_append [of "'':''", simplified])
next
  case (member k w1 w2 d v w3 w4 s)
  then obtain s0 where "s = s0 @ ''}''" "neutral s0" by blast
  with member show ?case
    by (intro exI [of _ "k @ w1 @ '':'' @ w2 @ v @ w3 @ '','' @ w4 @ s0"])
       (simp add: neutral_append neutral_string neutral_ws neutral_plain plainChar_def
         neutral_append [of "'':''", simplified] neutral_append [of "'',''", simplified])
next
  case (element d v w1 w2 s)
  then obtain s0 where "s = s0 @ '']''" "neutral s0" by blast
  with element show ?case
    by (intro exI [of _ "v @ w1 @ '','' @ w2 @ s0"])
       (simp add: neutral_append neutral_ws neutral_plain plainChar_def neutral_append [of "'',''", simplified])
next
  case (object d s)
  then show ?case using neutral_nested by fastforce
next
  case (array d s)
  then show ?case using neutral_nested by fastforce
next
  case (members w d s)
  then show ?case using neutral_append [OF neutral_ws] by force
next
  case (elements w d s)
  then show ?case using neutral_append [OF neutral_ws] by force
next
  case (last_element d v w1)
  then show ?case using neutral_append [OF _ neutral_ws] by force
qed (auto simp: neutral_scalar neutral_ws)

subsection \<open>Reading, whatever the chunks\<close>

text \<open>What the machine writes for the bytes of a whole body.\<close>

definition rewritten :: "string \<Rightarrow> string \<Rightarrow> string" where
  "rewritten member s = sp_pending (foldl feed (newSchedulingPriorityBody [] member) s)"

text \<open>The machine without what belongs to the buffer.\<close>

definition core :: "schedulingPriorityBody \<Rightarrow> schedulingPriorityBody" where
  "core b = b\<lparr>sp_source := [], sp_pending := [], sp_offset := 0, sp_readErr := None\<rparr>"

definition written :: "schedulingPriorityBody \<Rightarrow> char \<Rightarrow> string" where
  "written b c = sp_pending (feed (core b) c)"

lemma feed_core: "core (feed b c) = core (feed (core b) c)" "sp_pending (feed b c) = sp_pending b @ written b c"
  "sp_offset (feed b c) = sp_offset b" "sp_source (feed b c) = sp_source b" "sp_readErr (feed b c) = sp_readErr b"
  by (simp_all add: core_def written_def feed_def transform_def Let_def)

lemma feeds_core:
  "core (foldl feed b s) = core (foldl feed (core b) s) \<and>
   sp_pending (foldl feed b s) = sp_pending b @ sp_pending (foldl feed (core b) s) \<and>
   sp_offset (foldl feed b s) = sp_offset b \<and> sp_source (foldl feed b s) = sp_source b \<and>
   sp_readErr (foldl feed b s) = sp_readErr b"
proof (induction s arbitrary: b)
  case Nil
  show ?case by (simp add: core_def)
next
  case (Cons c s)
  have "sp_pending (foldl feed (feed (core b) c) s) =
      sp_pending (feed (core b) c) @ sp_pending (foldl feed (core (feed (core b) c)) s)"
    using Cons.IH by blast
  moreover have "core (foldl feed (feed (core b) c) s) = core (foldl feed (core (feed (core b) c)) s)" using Cons.IH by blast
  ultimately show ?case
    using Cons.IH [of "feed b c"] by (simp add: feed_core(1) [of b c] feed_core(2-5) [of b c] written_def)
qed

text \<open>The bytes taken from the source so far, and what the reader has given out.\<close>

definition reading :: "string \<Rightarrow> string \<Rightarrow> string \<Rightarrow> schedulingPriorityBody \<Rightarrow> bool" where
  "reading member input out b \<longleftrightarrow>
     core b = core (foldl feed (newSchedulingPriorityBody [] member) input) \<and>
     sp_offset b \<le> length (sp_pending b) \<and> out @ drop (sp_offset b) (sp_pending b) = rewritten member input"

lemma reading_serve:
  assumes "reading member input out b"
  shows "\<exists>b' o'. serve b n = (b', o', None) \<and> reading member input (out @ o') b' \<and> sp_source b' = sp_source b \<and>
     sp_readErr b' = sp_readErr b"
proof -
  let ?o = "take n (drop (sp_offset b) (sp_pending b))"
  have "?o @ drop (length ?o) (drop (sp_offset b) (sp_pending b)) = drop (sp_offset b) (sp_pending b)"
    by (metis append_take_drop_id append_eq_conv_conj)
  then have "?o @ drop (sp_offset b + length ?o) (sp_pending b) = drop (sp_offset b) (sp_pending b)"
    by (simp add: add.commute)
  with assms have "out @ ?o @ drop (sp_offset b + length ?o) (sp_pending b) = rewritten member input"
    unfolding reading_def by simp
  then have "reading member input (out @ ?o) (b\<lparr>sp_offset := sp_offset b + length ?o\<rparr>)"
    using assms by (auto simp: reading_def core_def min_def)
  then show ?thesis by (simp add: serve_def Let_def)
qed

lemma reading_refill:
  assumes "reading member input out b" "sp_offset b = length (sp_pending b)"
  shows "reading member (input @ extra) out
     (foldl feed (b\<lparr>sp_source := src, sp_readErr := err, sp_pending := [], sp_offset := 0\<rparr>) extra)"
proof -
  let ?b = "b\<lparr>sp_source := src, sp_readErr := err, sp_pending := [], sp_offset := 0\<rparr>"
  let ?s = "foldl feed (newSchedulingPriorityBody [] member) input"
  have c: "core ?b = core ?s" using assms(1) by (simp add: reading_def core_def)
  have o: "out = sp_pending ?s" using assms by (simp add: reading_def rewritten_def)
  show ?thesis
    using feeds_core [of ?b extra] feeds_core [of ?s extra]
    by (simp add: reading_def rewritten_def c o)
qed

text \<open>Any number of reads with destinations of any sizes, while no error is returned.\<close>

fun readsOf :: "schedulingPriorityBody \<Rightarrow> nat list \<Rightarrow> schedulingPriorityBody \<times> string \<times> string option" where
  "readsOf b [] = (b, [], None)"
| "readsOf b (n # ns) = (case scheduling_Read b n of
     (b', out, Some err) \<Rightarrow> (b', out, Some err)
   | (b', out, None) \<Rightarrow> (case readsOf b' ns of (b'', extra, err) \<Rightarrow> (b'', out @ extra, err)))"

definition sourceOk :: "readResults \<Rightarrow> bool" where
  "sourceOk source \<longleftrightarrow> (\<forall>(bytes, err)\<in>set source. err = None)"

lemma reading_Read:
  assumes "reading member input out b" "scheduling_Read b n = (b', o', err)" "sourceOk (sp_source b)"
    "sp_readErr b = None \<or> sp_source b = []"
  shows "\<exists>extra. concat (map fst (sp_source b)) = extra @ concat (map fst (sp_source b')) \<and>
     reading member (input @ extra) (out @ o') b' \<and> sourceOk (sp_source b') \<and>
     (sp_readErr b' = None \<or> sp_source b' = []) \<and>
     (err \<noteq> None \<longrightarrow> sp_source b' = [] \<and> sp_offset b' = length (sp_pending b'))"
proof -
  note serve = reading_serve
  consider (zero) "n = 0" | (some) "n \<noteq> 0" "sp_offset b \<noteq> length (sp_pending b)"
    | (failed) e where "n \<noteq> 0" "sp_offset b = length (sp_pending b)" "sp_readErr b = Some e"
    | (refill) "n \<noteq> 0" "sp_offset b = length (sp_pending b)" "sp_readErr b = None"
    by (cases "sp_readErr b") auto
  then show ?thesis
  proof cases
    case zero
    then show ?thesis using assms by (auto simp: scheduling_Read_def)
  next
    case some
    then have "serve b n = (b', o', err)" using assms(2) by (simp add: scheduling_Read_def)
    then show ?thesis using serve [OF assms(1), of n] assms(3,4) by (intro exI [of _ "[]"]) auto
  next
    case failed
    then show ?thesis using assms by (auto simp: scheduling_Read_def)
  next
    case refill
    obtain i e src where s: "sourceRead (sp_source b) = (i, e, src)" by (metis prod.exhaust)
    have src: "concat (map fst (sp_source b)) = i @ concat (map fst src)" "sourceOk src" "e = None \<or> src = []"
      using s assms(3) by (auto simp: sourceRead_def sourceOk_def split: list.splits)
    let ?b1 = "foldl feed (b\<lparr>sp_source := src, sp_readErr := e, sp_pending := [], sp_offset := 0\<rparr>) i"
    have r: "reading member (input @ i) out ?b1" by (rule reading_refill [OF assms(1) refill(2)])
    have f: "sp_source ?b1 = src" "sp_readErr ?b1 = e"
      using feeds_core [of "b\<lparr>sp_source := src, sp_readErr := e, sp_pending := [], sp_offset := 0\<rparr>" i] by simp_all
    show ?thesis
    proof (cases "i = []")
      case True
      have "scheduling_Read b n = (?b1, [], e)" using refill s True by (simp add: scheduling_Read_def)
      then have "b' = ?b1 \<and> o' = [] \<and> err = e" using assms(2) by simp
      moreover have "e \<noteq> None \<longrightarrow> src = []" using src(3) by blast
      ultimately show ?thesis using r f src True by (intro exI [of _ "[]"]) auto
    next
      case False
      then have "serve ?b1 n = (b', o', err)" using assms(2) refill s by (simp add: scheduling_Read_def)
      then show ?thesis using serve [OF r, of n] f src by (intro exI [of _ i]) auto
    qed
  qed
qed

lemma readsOf_reading:
  assumes "reading member input out b" "readsOf b ns = (b', o', err)" "sourceOk (sp_source b)"
    "sp_readErr b = None \<or> sp_source b = []"
  shows "\<exists>extra. concat (map fst (sp_source b)) = extra @ concat (map fst (sp_source b')) \<and>
     reading member (input @ extra) (out @ o') b' \<and>
     (err \<noteq> None \<longrightarrow> sp_source b' = [] \<and> sp_offset b' = length (sp_pending b'))"
  using assms
proof (induction ns arbitrary: b input out o' b' err)
  case Nil
  then show ?case by auto
next
  case (Cons n ns)
  obtain b1 o1 e1 where 1: "scheduling_Read b n = (b1, o1, e1)" by (metis prod.exhaust)
  obtain m1 where m1: "concat (map fst (sp_source b)) = m1 @ concat (map fst (sp_source b1))"
      "reading member (input @ m1) (out @ o1) b1" "sourceOk (sp_source b1)" "sp_readErr b1 = None \<or> sp_source b1 = []"
      "e1 \<noteq> None \<longrightarrow> sp_source b1 = [] \<and> sp_offset b1 = length (sp_pending b1)"
    using reading_Read [OF Cons.prems(1) 1 Cons.prems(3,4)] by blast
  show ?case
  proof (cases e1)
    case (Some e)
    then show ?thesis using Cons.prems(2) m1 by (auto simp: 1)
  next
    case None
    obtain b2 o2 e2 where 2: "readsOf b1 ns = (b2, o2, e2)" by (metis prod.exhaust)
    then have eq: "b' = b2" "o' = o1 @ o2" "err = e2" using Cons.prems(2) None by (simp_all add: 1)
    obtain m2 where "concat (map fst (sp_source b1)) = m2 @ concat (map fst (sp_source b2))"
        "reading member ((input @ m1) @ m2) ((out @ o1) @ o2) b2"
        "e2 \<noteq> None \<longrightarrow> sp_source b2 = [] \<and> sp_offset b2 = length (sp_pending b2)"
      using Cons.IH [OF m1(2) 2 m1(3,4)] by blast
    then show ?thesis using m1(1) by (intro exI [of _ "m1 @ m2"]) (simp add: eq)
  qed
qed

text \<open>A reader that has come to the end has given out the rewritten body, and one that has not a prefix of it.\<close>

lemma reads_rewritten:
  assumes "sourceOk source" "readsOf (newSchedulingPriorityBody source member) ns = (b, out, err)"
  shows "\<exists>input. prefix input (concat (map fst source)) \<and> prefix out (rewritten member input) \<and>
     (err \<noteq> None \<longrightarrow> input = concat (map fst source) \<and> out = rewritten member input)"
proof -
  have "reading member [] [] (newSchedulingPriorityBody source member)"
    by (simp add: reading_def rewritten_def core_def newSchedulingPriorityBody_def)
  from readsOf_reading [OF this assms(2)] assms(1)
  obtain extra where m: "concat (map fst source) = extra @ concat (map fst (sp_source b))"
      "reading member extra out b" "err \<noteq> None \<longrightarrow> sp_source b = [] \<and> sp_offset b = length (sp_pending b)"
    by (auto simp: newSchedulingPriorityBody_def)
  have "prefix out (rewritten member extra)" using m(2) by (auto simp: reading_def prefix_def intro: sym)
  moreover have "err \<noteq> None \<longrightarrow> out = rewritten member extra" using m(2,3) by (auto simp: reading_def)
  ultimately show ?thesis using m(1,3) by (intro exI [of _ extra]) (auto simp: prefix_def)
qed

subsection \<open>The rewritten object\<close>

text \<open>The object with the member put last.\<close>

definition withMember :: "string \<Rightarrow> string \<Rightarrow> string" where
  "withMember member inner = ''{'' @ inner @ (if ws inner then [] else '','') @ member @ ''}''"

lemma object_inner:
  assumes "jobject d s"
  shows "\<exists>inner. s = ''{'' @ inner @ ''}'' \<and> neutral inner \<and> (ws inner \<or> (\<exists>w r. inner = w @ CHR 0x22 # r \<and> ws w)) \<and>
    jobject d (withMember (priorityMember v) inner)"
  using assms
proof (cases rule: jobject.cases)
  case (empty_object w d')
  have "jobject d (''{'' @ w @ (priorityMember v @ ''}''))"
    unfolding empty_object(1) by (rule members [OF empty_object(3) member_last])
  then show ?thesis using empty_object by (intro exI [of _ w]) (simp add: withMember_def neutral_ws)
next
  case (members w d' ms)
  obtain ms0 where m: "ms = ms0 @ ''}''" "neutral ms0" using value_neutral(3) [OF members(4)] by blast
  obtain ms1 where "ms = ms1 @ ''}''" "jmembers d' (ms1 @ '','' @ (priorityMember v @ ''}''))"
    using jmembers_extend(3) [OF members(4) member_last] by blast
  with m have e: "jmembers d' (ms0 @ '','' @ priorityMember v @ ''}'')" by simp
  obtain r where r: "ms = CHR 0x22 # r" using jmembers_head [OF members(4)] by blast
  then obtain r0 where r0: "ms0 = CHR 0x22 # r0" using m(1) by (cases ms0) auto
  have "\<not> ws (w @ ms0)" by (simp add: r0 isJSONSpace_def)
  moreover have "jobject d (''{'' @ w @ (ms0 @ '','' @ priorityMember v @ ''}''))"
    unfolding members(1) by (rule jvalue_jobject_jmembers_jarray_jelements.members [OF members(3) e])
  ultimately show ?thesis
    using members(2,3) m r0 neutral_append [OF neutral_ws [OF members(3)] m(2)]
    by (intro exI [of _ "w @ ms0"]) (auto simp: withMember_def)
qed

lemma feed_spaces: "ws w \<Longrightarrow> \<not> sp_started b \<Longrightarrow> foldl feed b w = b\<lparr>sp_pending := sp_pending b @ w\<rparr>"
  by (induction w arbitrary: b) (simp_all add: feed_def transform_def whitespace_space)

lemma feed_injected:
  "sp_started b \<Longrightarrow> sp_injected b \<Longrightarrow> foldl feed b s = b\<lparr>sp_pending := sp_pending b @ s\<rparr>"
  by (induction s arbitrary: b) (simp_all add: feed_def transform_def)

lemma rewritten_object:
  assumes "neutral inner" "ws w1"
  shows "rewritten member (w1 @ (''{'' @ inner @ ''}'') @ w2) = w1 @ withMember member inner @ w2"
proof -
  let ?b0 = "newSchedulingPriorityBody [] member"
  let ?b1 = "?b0\<lparr>sp_pending := w1\<rparr>"
  let ?b2 = "?b0\<lparr>sp_started := True, sp_rootObject := True, sp_depth := 1, sp_pending := w1 @ ''{''\<rparr>"
  have 1: "foldl feed ?b0 w1 = ?b1"
    using feed_spaces [OF assms(2), of ?b0] by (simp add: newSchedulingPriorityBody_def)
  have 2: "feed ?b1 (CHR ''{'') = ?b2"
    by (simp add: feed_def transform_def newSchedulingPriorityBody_def jsonWhitespace_def)
  have 3: "foldl feed ?b2 inner = past ?b2 inner"
    using assms(1) by (simp add: neutral_def ready_def newSchedulingPriorityBody_def)
  let ?b4 = "feed (past ?b2 inner) (CHR ''}'')"
  have 4: "sp_started ?b4" "sp_injected ?b4" "sp_pending ?b4 = w1 @ withMember member inner"
    by (simp_all add: feed_def transform_def past_def newSchedulingPriorityBody_def withMember_def jsonWhitespace_def Let_def)
  have "foldl feed ?b0 (w1 @ (''{'' @ inner @ ''}'') @ w2) = ?b4\<lparr>sp_pending := sp_pending ?b4 @ w2\<rparr>"
    using feed_injected [OF 4(1,2)] by (simp add: 1 2 3)
  then show ?thesis using 4(3) by (simp add: rewritten_def)
qed

subsection \<open>The buffered body\<close>

lemma trimLeft_space: "narrowSpace c \<Longrightarrow> trimLeft (c # s) = trimLeft s"
  by (cases s rule: trimLeft.cases) simp_all

lemma trimLeft_quote: "trimLeft (CHR 0x22 # s) = CHR 0x22 # s"
  by (cases s rule: trimLeft.cases) (simp_all add: narrowSpace_def pairSpace_def wideSpace_def byte_def)

lemma space_narrow: "isJSONSpace c \<Longrightarrow> narrowSpace c"
  unfolding isJSONSpace_def by (elim disjE) (simp_all add: narrowSpace_def byte_def)

lemma trimLeft_ws: "ws w \<Longrightarrow> trimLeft (w @ s) = trimLeft s"
  by (induction w) (simp_all add: trimLeft_space space_narrow)

lemma trimmed_inner:
  "ws inner \<Longrightarrow> trimmedEmpty inner" "ws w \<Longrightarrow> \<not> trimmedEmpty (w @ CHR 0x22 # r)"
  using trimLeft_ws [of inner "[]"] by (simp_all add: trimmedEmpty_def trimLeft_ws trimLeft_quote)

lemma ws_plain: "ws w \<Longrightarrow> x \<in> set w \<Longrightarrow> x \<noteq> CHR ''}'' \<and> x \<noteq> CHR ''{''"
  using space_plain [of x] by (auto simp: ws_def list_all_iff plainChar_def)

lemma lastIndexByte_ws: "ws w \<Longrightarrow> lastIndexByte (s @ ''}'' @ w) (CHR ''}'') = Some (length s)"
proof -
  assume w: "ws w"
  have "takeWhile (\<lambda>x. x \<noteq> CHR ''}'') (rev w @ CHR ''}'' # rev s) = rev w"
    using ws_plain [OF w] by (subst takeWhile_append2) simp_all
  then show ?thesis by (simp add: lastIndexByte_def Let_def)
qed

lemma indexByte_ws: "ws w \<Longrightarrow> indexByte (w @ CHR ''{'' # s) (CHR ''{'') = Some (length w)"
proof -
  assume w: "ws w"
  have "takeWhile (\<lambda>x. x \<noteq> CHR ''{'') (w @ CHR ''{'' # s) = w"
    using ws_plain [OF w] by (subst takeWhile_append2) simp_all
  then show ?thesis by (simp add: indexByte_def Let_def)
qed

lemma rewriteBuffer_object:
  assumes "ws w1" "ws w2" "ws inner \<or> (\<exists>w r. inner = w @ CHR 0x22 # r \<and> ws w)"
  shows "rewriteBuffer (w1 @ (''{'' @ inner @ ''}'') @ w2) v = Some (w1 @ withMember (priorityMember v) inner @ w2)"
proof -
  let ?s = "w1 @ (''{'' @ inner @ ''}'') @ w2"
  have e: "lastIndexByte ?s (CHR ''}'') = Some (length w1 + 1 + length inner)"
    using lastIndexByte_ws [OF assms(2), of "w1 @ ''{'' @ inner"] by simp
  have s: "indexByte ?s (CHR ''{'') = Some (length w1)"
    using indexByte_ws [OF assms(1), of "inner @ ''}'' @ w2"] by simp
  have t: "trimmedEmpty w2" by (rule trimmed_inner(1) [OF assms(2)])
  have ne: "\<not> ws (w @ CHR 0x22 # r)" for w r by (simp add: isJSONSpace_def)
  have i: "trimmedEmpty inner \<longleftrightarrow> ws inner"
    using assms(3) trimmed_inner ne by metis
  show ?thesis
    unfolding rewriteBuffer_def e s by (simp add: t i withMember_def Let_def)
qed

lemma rewritten_mono: "prefix (rewritten member x) (rewritten member (x @ y))"
  using feeds_core [of "foldl feed (newSchedulingPriorityBody [] member) x" y]
  by (simp add: rewritten_def prefix_def)


definition demoBodyRequest :: bodyRequest where
  "demoBodyRequest = \<lparr>br_Path = ''/v1/completions'', br_ContentType = [], br_Body = None, br_ContentLength = 2\<rparr>"


end
