(* ===== verification/Classify_Correct.thy ===== *)
theory Classify_Correct
  imports Classify Scheduling_Rewrite
begin

text \<open>
  The budget of bodies as a transition system - requests are scanned, their bodies kept and closed, in
  any order - with its invariant, and what classifying does to a body and its fingerprint.
\<close>

subsection \<open>The budget\<close>

lemma outstandingBodyBudget_bounds:
  assumes "0 < cc_MaximumBodyBytes cfg"
  shows "cc_MaximumBodyBytes cfg \<le> outstandingBodyBudget cfg"
    "outstandingBodyBudget cfg \<le> max (cc_MaximumBodyBytes cfg) maximumOutstandingBodyBytes"
    "0 < cc_MaximumConcurrent cfg \<Longrightarrow> outstandingBodyBudget cfg \<le> cc_MaximumBodyBytes cfg * cc_MaximumConcurrent cfg \<or>
       outstandingBodyBudget cfg = max (cc_MaximumBodyBytes cfg) maximumOutstandingBodyBytes"
proof -
  have "cc_MaximumBodyBytes cfg * 1 \<le> cc_MaximumBodyBytes cfg * cc_MaximumConcurrent cfg" if "1 \<le> cc_MaximumConcurrent cfg"
    using assms that by (intro mult_left_mono) simp_all
  then show "cc_MaximumBodyBytes cfg \<le> outstandingBodyBudget cfg"
    using assms by (auto simp: outstandingBodyBudget_def Let_def)
  show "outstandingBodyBudget cfg \<le> max (cc_MaximumBodyBytes cfg) maximumOutstandingBodyBytes"
    using assms by (simp add: outstandingBodyBudget_def Let_def)
  show "0 < cc_MaximumConcurrent cfg \<Longrightarrow> outstandingBodyBudget cfg \<le> cc_MaximumBodyBytes cfg * cc_MaximumConcurrent cfg \<or>
       outstandingBodyBudget cfg = max (cc_MaximumBodyBytes cfg) maximumOutstandingBodyBytes"
    using assms by (auto simp: outstandingBodyBudget_def Let_def)
qed

text \<open>The classifier with the reservations of the requests being scanned and of the bodies kept.\<close>

type_synonym classifierState = "Classifier \<times> int list \<times> int list"

inductive classifier_step :: "classifierState \<Rightarrow> classifierState \<Rightarrow> bool" where
  starts: "acquire c contentLength = (c', Some bytes) \<Longrightarrow> classifier_step (c, scanning, kept) (c', bytes # scanning, kept)"
| refuses: "acquire c contentLength = (c', None) \<Longrightarrow> classifier_step (c, scanning, kept) (c', scanning, kept)"
| buffers: "classifier_step (c, scanning, kept) (acquireBodyBuffer c, scanning, kept)"
| keeps: "classifier_step (c, xs @ bytes # ys, kept) (releaseScanner c, xs @ ys, bytes # kept)"
| abandons: "classifier_step (c, xs @ bytes # ys, kept) (fst (releaseBodyBytes (releaseScanner c) bytes), xs @ ys, kept)"
| closes: "classifier_step (c, scanning, xs @ bytes # ys) (fst (preserving_Close c (Some bytes)), scanning, xs @ ys)"

definition budget_inv :: "classifierConfig \<Rightarrow> classifierState \<Rightarrow> bool" where
  "budget_inv cfg = (\<lambda>(c, scanning, kept).
     cl_cfg c = cfg \<and> 0 < cc_MaximumBodyBytes cfg \<and> cl_maximumReservedBodyBytes c = outstandingBodyBudget cfg \<and>
     list_all (\<lambda>b. 0 < b \<and> b \<le> cc_MaximumBodyBytes cfg) (scanning @ kept) \<and>
     cl_reservedBodyBytes c = sum_list scanning + sum_list kept \<and>
     cl_reservedBodyBytes c \<le> outstandingBodyBudget cfg \<and>
     cl_inflight c = int (length scanning) \<and>
     cl_tokens c = (if 0 < cc_MaximumConcurrent cfg then Some (length scanning) else None) \<and>
     (0 < cc_MaximumConcurrent cfg \<longrightarrow> int (length scanning) \<le> cc_MaximumConcurrent cfg) \<and>
     cl_bodyPool c \<le> cl_poolCapacity c)"

lemma budget_new: "0 < cc_MaximumBodyBytes cfg \<Longrightarrow> budget_inv cfg (newClassifier cfg, [], [])"
  using outstandingBodyBudget_bounds(1) [of cfg] by (simp add: budget_inv_def newClassifier_def)

lemma reservation_pos:
  "0 < cc_MaximumBodyBytes (cl_cfg c) \<Longrightarrow>
     0 < bodyReservationBytes c n \<and> bodyReservationBytes c n \<le> cc_MaximumBodyBytes (cl_cfg c)"
  by (simp add: bodyReservationBytes_def)

lemma sums_nonneg:
  "list_all (\<lambda>b. 0 < b \<and> b \<le> m) xs \<Longrightarrow> (0 :: int) \<le> sum_list xs"
  by (induction xs) auto

text \<open>Taking a body out of the account.\<close>

lemma release_exact:
  assumes "budget_inv cfg (c, scanning, kept)" "0 < bytes" "bytes \<le> sum_list scanning + sum_list kept"
  shows "releaseBodyBytes c bytes = (c\<lparr>cl_reservedBodyBytes := cl_reservedBodyBytes c - bytes\<rparr>, True)"
proof -
  have "0 < outstandingBodyBudget cfg"
    using assms(1) outstandingBodyBudget_bounds(1) [of cfg] by (simp add: budget_inv_def)
  then show ?thesis using assms by (simp add: budget_inv_def releaseBodyBytes_def Let_def)
qed

lemma acquire_result:
  assumes "budget_inv cfg (c, scanning, kept)"
  shows "acquire c n =
    (if (0 < cc_MaximumConcurrent cfg \<and> cc_MaximumConcurrent cfg \<le> int (length scanning)) \<or>
        outstandingBodyBudget cfg < cl_reservedBodyBytes c + bodyReservationBytes c n
     then (c\<lparr>cl_rejected := wrapu64 (cl_rejected c + 1)\<rparr>, None)
     else (c\<lparr>cl_tokens := map_option Suc (cl_tokens c), cl_reservedBodyBytes := cl_reservedBodyBytes c + bodyReservationBytes c n,
             cl_inflight := cl_inflight c + 1\<rparr>, Some (bodyReservationBytes c n)))"
proof -
  have t: "cl_tokens c = (if 0 < cc_MaximumConcurrent cfg then Some (length scanning) else None)"
    and cfg: "cl_cfg c = cfg" "0 < cc_MaximumBodyBytes cfg" "cl_maximumReservedBodyBytes c = outstandingBodyBudget cfg"
    and r: "cl_reservedBodyBytes c \<le> outstandingBodyBudget cfg" "0 \<le> cl_reservedBodyBytes c"
    using assms sums_nonneg [of "cc_MaximumBodyBytes cfg" "scanning"] sums_nonneg [of "cc_MaximumBodyBytes cfg" kept]
    by (simp_all add: budget_inv_def)
  have p: "0 < bodyReservationBytes c n" using reservation_pos [of c n] cfg by simp
  have b: "0 < outstandingBodyBudget cfg" using outstandingBodyBudget_bounds(1) [of cfg] cfg(2) by simp
  have same: "bodyReservationBytes (c\<lparr>cl_tokens := x\<rparr>) n = bodyReservationBytes c n" for x
    by (simp add: bodyReservationBytes_def)
  have undo: "c\<lparr>cl_tokens := map_option (\<lambda>n. n - 1) (map_option Suc (cl_tokens c)), cl_rejected := m\<rparr> = c\<lparr>cl_rejected := m\<rparr>" for m
    by (cases c; cases "cl_tokens c") simp_all
  show ?thesis
    using p b r cfg t undo by (auto simp: acquire_def reserveBodyBytes_def same Let_def)
qed

lemma budget_step:
  assumes "classifier_step s s'" "budget_inv cfg s"
  shows "budget_inv cfg s'"
  using assms
proof (induction rule: classifier_step.induct)
  case (starts c n c' bytes scanning kept)
  note a = acquire_result [OF starts(2), of n] starts(1)
  have cfg: "cl_cfg c = cfg" "0 < cc_MaximumBodyBytes cfg" using starts(2) by (simp_all add: budget_inv_def)
  show ?case
    using a starts(2) reservation_pos [of c n] cfg by (auto simp: budget_inv_def split: if_splits)
next
  case (refuses c n c' scanning kept)
  then show ?case using acquire_result [OF refuses(2), of n] by (auto simp: budget_inv_def split: if_splits)
next
  case (buffers c scanning kept)
  then show ?case by (auto simp: budget_inv_def acquireBodyBuffer_def)
next
  case (keeps c xs bytes ys kept)
  then show ?case by (auto simp: budget_inv_def releaseScanner_def)
next
  case (abandons c xs bytes ys kept)
  then have k: "budget_inv cfg (releaseScanner c, xs @ ys, bytes # kept)"
    by (auto simp: budget_inv_def releaseScanner_def)
  then have "0 < bytes" "0 \<le> sum_list (xs @ ys)" "0 \<le> sum_list kept"
    using sums_nonneg [of "cc_MaximumBodyBytes cfg"] by (auto simp: budget_inv_def)
  with release_exact [OF k] k show ?case by (simp add: budget_inv_def)
next
  case (closes c scanning xs bytes ys)
  let ?c = "releaseBodyBuffer c"
  have k: "budget_inv cfg (?c, scanning, bytes # xs @ ys)"
    using closes by (auto simp: budget_inv_def releaseBodyBuffer_def)
  then have "0 < bytes" "0 \<le> sum_list scanning" "0 \<le> sum_list (xs @ ys)"
    using sums_nonneg [of "cc_MaximumBodyBytes cfg"] by (auto simp: budget_inv_def)
  with release_exact [OF k] k show ?case by (simp add: budget_inv_def preserving_Close_def Let_def)
qed

lemma budget_run: "classifier_step\<^sup>*\<^sup>* s s' \<Longrightarrow> budget_inv cfg s \<Longrightarrow> budget_inv cfg s'"
  by (induction rule: rtranclp_induct) (auto intro: budget_step)

subsection \<open>The body is kept\<close>

text \<open>Nothing comes after an error of the source.\<close>

fun wellEnded :: "readResults \<Rightarrow> bool" where
  "wellEnded [] = True"
| "wellEnded [x] = True"
| "wellEnded (x # y # source) = (snd x = None \<and> wellEnded (y # source))"

definition bodyBytes :: "requestBody \<Rightarrow> string" where
  "bodyBytes body = concat (map fst (bodyReads body))"

lemma readLimited_facts:
  "readLimited source limit = (bytes, err, left) \<Longrightarrow>
     concat (map fst source) = bytes @ concat (map fst left) \<and> length bytes \<le> limit \<and>
     (wellEnded source \<longrightarrow> length bytes < limit \<longrightarrow> left = [])"
proof (induction source limit arbitrary: bytes err left rule: readLimited.induct)
  case (2 b e source limit)
  consider "limit = 0" | "0 < limit" "length b > limit" | x where "0 < limit" "length b \<le> limit" "e = Some x"
    | "0 < limit" "length b \<le> limit" "e = None"
    by (cases e; cases "limit = 0"; cases "length b \<le> limit"; simp)
  then show ?case
  proof cases
    case 1
    then show ?thesis using 2(2) by auto
  next
    case 2
    then show ?thesis using \<open>readLimited ((b, e) # source) limit = (bytes, err, left)\<close> by auto
  next
    case (3 x)
    then have "bytes = b \<and> left = source" using 2(2) by auto
    moreover have "wellEnded ((b, e) # source) \<Longrightarrow> source = []" using 3 by (cases source) auto
    ultimately show ?thesis using 3 by auto
  next
    case 4
    obtain b2 e2 l2 where r: "readLimited source (limit - length b) = (b2, e2, l2)" by (metis prod.exhaust)
    then have eq: "bytes = b @ b2 \<and> err = e2 \<and> left = l2" using 2(2) 4 by simp
    have "wellEnded ((b, e) # source) \<Longrightarrow> wellEnded source" by (cases source) auto
    then show ?thesis using 2(1) [OF _ _ 4(3) r] 4 eq by auto
  qed
qed auto

lemma classifyShape_supported:
  assumes "classifyShape jv cb unscan body (shape, valid) = (cls, problem)" "\<not> cf_Supported unscan"
  shows "(cf_Supported cls \<longrightarrow> valid \<and> sh_Supported shape \<and> cf_DecodeSequences cls = sh_DecodeSequences shape \<and>
       cf_BasePromptCount cls = sh_BasePromptCount shape) \<and>
     (problem \<noteq> None \<longrightarrow> \<not> jv body \<and> \<not> valid)"
  using assms by (auto simp: classifyShape_def split: if_splits)

lemma classify_keeps_body:
  assumes "classifyJSONFields pm jv cb t1 t2 c r = (c', r', lease, cls, problem)" "br_Body r = Some body"
    and "wellEnded (bodyReads body)" "cc_MaximumBodyBytes (cl_cfg c) < MaxInt64"
  shows "(\<exists>body'. r' = r\<lparr>br_Body := Some body'\<rparr> \<and> bodyBytes body' = bodyBytes body) \<and>
     (cf_Supported cls \<longrightarrow> (\<exists>shape. ParseTPSRequestShape (bodyBytes body) (EndpointForPath (br_Path r)) = Some (shape, True) \<and>
        sh_Supported shape \<and> cf_DecodeSequences cls = sh_DecodeSequences shape \<and> cf_BasePromptCount cls = sh_BasePromptCount shape)) \<and>
     (problem \<noteq> None \<longrightarrow> \<not> jv (bodyBytes body))"
proof -
  have same: "r = r\<lparr>br_Body := Some body\<rparr>" using assms(2) by (cases r) simp
  show ?thesis
proof (cases "0 < cc_MaximumBodyBytes (cl_cfg c) \<and> EndpointForPath (br_Path r) \<noteq> EndpointUnknown \<and>
    \<not> br_ContentLength r > cc_MaximumBodyBytes (cl_cfg c) \<and> requestContentTypeJSON pm (br_ContentType r)")
  case False
  then have "r' = r \<and> \<not> cf_Supported cls \<and> problem = None"
    using assms(1,2) by (auto simp: classifyJSONFields_def Let_def unscannable_def split: if_splits)
  then show ?thesis using same by blast
next
  case ok: True
  let ?max = "cc_MaximumBodyBytes (cl_cfg c)"
  obtain c1 res where a: "acquire c (br_ContentLength r) = (c1, res)" by fastforce
  show ?thesis
  proof (cases res)
    case None
    then have "r' = r \<and> \<not> cf_Supported cls \<and> problem = None"
      using assms(1,2) ok a by (auto simp: classifyJSONFields_def Let_def unscannable_def)
    then show ?thesis using same by blast
  next
    case (Some reserved)
    obtain c2 bytes err left where rd: "readBoundedRequestBody c1 (bodyReads body) ?max = (c2, bytes, err, left)"
      by (metis prod.exhaust)
    have lim: "nat (wrap64 (?max + 1)) = nat (?max + 1)" using ok assms(4) by (simp add: wrap64_id)
    have rl: "readLimited (bodyReads body) (nat (?max + 1)) = (bytes, err, left)"
      using rd by (simp add: readBoundedRequestBody_def lim)
    note f = readLimited_facts [OF rl]
    have bytes: "bodyBytes body = bytes @ concat (map fst left)" using f by (simp add: bodyBytes_def)
    show ?thesis
    proof (cases "err \<noteq> None \<or> int (length bytes) > ?max")
      case True
      then have "r' = r\<lparr>br_Body := Some (SourceBody ((bytes, None) # left))\<rparr> \<and> \<not> cf_Supported cls \<and> problem = None"
        using assms(1,2) ok a Some rd by (auto simp: classifyJSONFields_def Let_def unscannable_def split: if_splits)
      moreover have "bodyBytes (SourceBody ((bytes, None) # left)) = bodyBytes body" using bytes by (simp add: bodyBytes_def)
      ultimately show ?thesis by blast
    next
      case False
      have all: "bodyBytes body = bytes" using bytes f assms(3) False ok by auto
      obtain shape valid where p: "ParseTPSRequestShape bytes (EndpointForPath (br_Path r)) = Some (shape, valid)"
        using ParseTPSRequestShape_total [of bytes "EndpointForPath (br_Path r)"] by (metis prod.exhaust option.exhaust)
      let ?u = "unscannable\<lparr>cf_Timing := \<lparr>ct_BodyRead = t1, ct_ShapeScan = t2, ct_BodyReadMeasured = True, ct_ShapeScanMeasured = True\<rparr>\<rparr>"
      obtain cl pr where cs: "classifyShape jv cb ?u bytes (shape, valid) = (cl, pr)" by fastforce
      have e: "r' = r\<lparr>br_Body := Some (KeptBody bytes bytes)\<rparr> \<and> cls = cl \<and> problem = pr"
        using assms(1,2) ok a Some rd False p cs by (auto simp: classifyJSONFields_def Let_def)
      have "\<not> cf_Supported ?u" by (simp add: unscannable_def)
      from classifyShape_supported [OF cs this] e all p
      have "cf_Supported cls \<longrightarrow> (\<exists>shape. ParseTPSRequestShape (bodyBytes body) (EndpointForPath (br_Path r)) = Some (shape, True) \<and>
          sh_Supported shape \<and> cf_DecodeSequences cls = sh_DecodeSequences shape \<and> cf_BasePromptCount cls = sh_BasePromptCount shape)"
        "problem \<noteq> None \<longrightarrow> \<not> jv (bodyBytes body)" by auto
      moreover have "bodyBytes (KeptBody bytes bytes) = bodyBytes body" using all by (simp add: bodyBytes_def)
      ultimately show ?thesis using e by blast
    qed
  qed
qed
qed

subsection \<open>The fingerprint\<close>

text \<open>Block \<open>j\<close> is the hash of everything through its end.\<close>

lemma promptBlocks_eq:
  "bs \<noteq> [] \<Longrightarrow> i + length bs = n \<Longrightarrow>
     promptBlocks n i hash bs =
       map (\<lambda>j. foldl hashByte hash (take (PromptBlockBytes * (j + 1) - i) bs)) [i div PromptBlockBytes..<(n + 1023) div PromptBlockBytes]"
proof (induction bs arbitrary: i hash)
  case (Cons b bs)
  let ?h = "hashByte hash b"
  have le: "i < PromptBlockBytes * (j + 1)" if "i div PromptBlockBytes \<le> j" for j
  proof -
    have "i < PromptBlockBytes + i div PromptBlockBytes * PromptBlockBytes" by (rule dividend_less_div_times) simp
    also have "\<dots> \<le> PromptBlockBytes * (j + 1)" using that by simp
    finally show ?thesis .
  qed
  have tk: "take (PromptBlockBytes * (j + 1) - i) (b # bs) = b # take (PromptBlockBytes * (j + 1) - (i + 1)) bs"
    if "i div PromptBlockBytes \<le> j" for j
  proof -
    have "PromptBlockBytes * (j + 1) - i = Suc (PromptBlockBytes * (j + 1) - (i + 1))" using le [OF that] by linarith
    then show ?thesis by (simp only: take_Suc_Cons)
  qed
  show ?case
  proof (cases "bs = []")
    case True
    then have n: "n = i + 1" using Cons.prems by simp
    have u: "[i div PromptBlockBytes..<(n + 1023) div PromptBlockBytes] = [i div PromptBlockBytes]"
    proof -
      have "(n + 1023) div PromptBlockBytes = Suc (i div PromptBlockBytes)" unfolding n by simp
      then show ?thesis by simp
    qed
    have one: "take (PromptBlockBytes * (i div PromptBlockBytes + 1) - i) (b # bs) = [b]"
      using tk [OF order_refl] by (simp only: True take_Nil)
    have "promptBlocks n i hash [b] = [?h]" by (simp add: n Let_def)
    from this one show ?thesis unfolding u list.map by (simp only: True foldl_Cons foldl_Nil)
  next
    case False
    have IH: "promptBlocks n (i + 1) ?h bs =
        map (\<lambda>j. foldl hashByte ?h (take (PromptBlockBytes * (j + 1) - (i + 1)) bs)) [(i + 1) div PromptBlockBytes..<(n + 1023) div PromptBlockBytes]"
      by (rule Cons.IH [OF False]) (use Cons.prems(2) in simp)
    have lt: "i div PromptBlockBytes < (n + 1023) div PromptBlockBytes"
    proof -
      have "(i + PromptBlockBytes) div PromptBlockBytes \<le> (n + 1023) div PromptBlockBytes"
        using Cons.prems(2) by (intro div_le_mono) simp
      then show ?thesis by simp
    qed
    have ne: "i + 1 \<noteq> n" using Cons.prems False by auto
    have r: "map (\<lambda>j. foldl hashByte hash (take (PromptBlockBytes * (j + 1) - i) (b # bs))) [i div PromptBlockBytes..<(n + 1023) div PromptBlockBytes] =
        map (\<lambda>j. foldl hashByte ?h (take (PromptBlockBytes * (j + 1) - (i + 1)) bs)) [i div PromptBlockBytes..<(n + 1023) div PromptBlockBytes]"
    proof (rule map_cong [OF refl])
      fix j assume "j \<in> set [i div PromptBlockBytes..<(n + 1023) div PromptBlockBytes]"
      then have "i div PromptBlockBytes \<le> j" by (simp only: set_upt atLeastLessThan_iff)
      from tk [OF this] show "foldl hashByte hash (take (PromptBlockBytes * (j + 1) - i) (b # bs)) =
          foldl hashByte ?h (take (PromptBlockBytes * (j + 1) - (i + 1)) bs)" by (simp only: foldl_Cons)
    qed
    show ?thesis
    proof (cases "(i + 1) mod PromptBlockBytes = 0")
      case True
      then have d: "(i + 1) div PromptBlockBytes = Suc (i div PromptBlockBytes)" by (simp add: div_Suc)
      then have m: "PromptBlockBytes * (i div PromptBlockBytes + 1) - (i + 1) = 0"
        using mult_div_mod_eq [of PromptBlockBytes "i + 1"] unfolding True d by simp
      show ?thesis unfolding r using True IH ne lt m by (simp add: d [unfolded Suc_eq_plus1 [symmetric]] upt_conv_Cons Let_def)
    next
      case False
      then have "(i + 1) div PromptBlockBytes = i div PromptBlockBytes" by (simp add: div_Suc)
      then show ?thesis unfolding r using False IH ne by (simp add: Let_def)
    qed
  qed
qed simp

lemma fingerprint_blocks:
  assumes "cb body = Some context" "body \<noteq> []"
  shows "pf_Blocks (fingerprintPrompt cb body) =
     map (\<lambda>j. foldl hashByte 14695981039346656037 (context @ take (PromptBlockBytes * (j + 1)) body))
       [0..<(length body + 1023) div PromptBlockBytes]"
    "pf_Bytes (fingerprintPrompt cb body) = int (length body)"
  using assms promptBlocks_eq [OF assms(2), of 0 "length body"] by (simp_all add: fingerprintPrompt_def Let_def)

text \<open>Prompts of the same context that share their first bytes share the blocks of them.\<close>

lemma fingerprint_shared:
  assumes "cb body = Some context" "cb body' = Some context"
    and "take (PromptBlockBytes * m) body = take (PromptBlockBytes * m) body'"
    and "PromptBlockBytes * m \<le> length body" "PromptBlockBytes * m \<le> length body'"
  shows "take m (pf_Blocks (fingerprintPrompt cb body)) = take m (pf_Blocks (fingerprintPrompt cb body')) \<and>
     m \<le> length (pf_Blocks (fingerprintPrompt cb body))"
proof (cases "m = 0")
  case False
  then have ne: "body \<noteq> []" "body' \<noteq> []" using assms(4,5) by auto
  have m: "m \<le> (length x + 1023) div PromptBlockBytes" if "PromptBlockBytes * m \<le> length x" for x :: string
    using that by (simp add: less_eq_div_iff_mult_less_eq mult.commute)
  have t: "take (PromptBlockBytes * (j + 1)) body = take (PromptBlockBytes * (j + 1)) body'" if "j < m" for j
  proof -
    have "PromptBlockBytes * (j + 1) \<le> PromptBlockBytes * m" using that by (intro mult_le_mono) simp_all
    then show ?thesis using assms(3) by (metis min.absorb1 take_take)
  qed
  show ?thesis
    unfolding fingerprint_blocks(1) [of cb, OF assms(1) ne(1)] fingerprint_blocks(1) [of cb, OF assms(2) ne(2)]
    using m [OF assms(4)] m [OF assms(5)] by (auto simp: take_map t [simplified])
qed simp

subsection \<open>Classifying as steps of the budget\<close>

lemma classify_run:
  assumes "classifyJSONFields pm jv cb t1 t2 c r = (c', r', lease, cls, problem)"
  shows "classifier_step\<^sup>*\<^sup>* (c, scanning, kept) (c', scanning, (case lease of None \<Rightarrow> [] | Some b \<Rightarrow> [b]) @ kept)"
proof -
  obtain c1 res where a: "acquire c (br_ContentLength r) = (c1, res)" by fastforce
  have ends: "(res = None \<and> lease = None \<and> c' = c1) \<or>
      (\<exists>b. res = Some b \<and> lease = Some b \<and> c' = releaseScanner (acquireBodyBuffer c1)) \<or> (lease = None \<and> c' = c)"
    using assms a by (auto simp: classifyJSONFields_def readBoundedRequestBody_def Let_def
        split: if_splits option.splits prod.splits)
  have scan: "classifier_step\<^sup>*\<^sup>* (c, scanning, kept) (releaseScanner (acquireBodyBuffer c1), scanning, b # kept)"
    if "res = Some b" for b
  proof -
    have "classifier_step (c, scanning, kept) (c1, b # scanning, kept)" using a that by (auto intro: starts)
    moreover have "classifier_step (c1, b # scanning, kept) (acquireBodyBuffer c1, b # scanning, kept)" by (rule buffers)
    moreover have "classifier_step (acquireBodyBuffer c1, b # scanning, kept) (releaseScanner (acquireBodyBuffer c1), scanning, b # kept)"
      using keeps [of "acquireBodyBuffer c1" "[]" b scanning kept] by simp
    ultimately show ?thesis by (meson converse_rtranclp_into_rtranclp rtranclp.rtrancl_refl)
  qed
  from ends show ?thesis using scan a refuses [of c "br_ContentLength r" c1 scanning kept] by auto
qed

subsection \<open>What is shown of them\<close>

text \<open>C31: The memory for bodies is accounted exactly and never exceeds its budget: after any interleaving of
  requests that are scanned, kept, abandoned and closed, the classifier reports the sum of the
  reservations that are open and the number of scans that run, both within the configured limits; the
  next request is refused exactly when a slot or its bytes are missing, and with nothing outstanding it
  is let in, whatever length it claims.\<close>
theorem bodies_within_budget:
  assumes "0 < cc_MaximumBodyBytes cfg"
    and "classifier_step\<^sup>*\<^sup>* (newClassifier cfg, [], []) (c, scanning, kept)"
  shows "ReservedBodyBytes c = sum_list scanning + sum_list kept \<and>
     ReservedBodyBytes c \<le> outstandingBodyBudget cfg \<and>
     outstandingBodyBudget cfg \<le> max (cc_MaximumBodyBytes cfg) maximumOutstandingBodyBytes \<and>
     Inflight c = int (length scanning) \<and>
     (0 < cc_MaximumConcurrent cfg \<longrightarrow> Inflight c \<le> cc_MaximumConcurrent cfg) \<and>
     (snd (acquire c contentLength) = None \<longleftrightarrow>
        (0 < cc_MaximumConcurrent cfg \<and> Inflight c = cc_MaximumConcurrent cfg) \<or>
        outstandingBodyBudget cfg < ReservedBodyBytes c + bodyReservationBytes c contentLength) \<and>
     (scanning = [] \<and> kept = [] \<longrightarrow> snd (acquire c contentLength) \<noteq> None)"
proof -
  have i: "budget_inv cfg (c, scanning, kept)" using budget_run [OF assms(2) budget_new [OF assms(1)]] .
  then have m: "0 < cc_MaximumConcurrent cfg \<longrightarrow> Inflight c \<le> cc_MaximumConcurrent cfg"
      "Inflight c = int (length scanning)" "ReservedBodyBytes c = sum_list scanning + sum_list kept"
      "ReservedBodyBytes c \<le> outstandingBodyBudget cfg" "cl_cfg c = cfg"
    by (simp_all add: budget_inv_def Inflight_def ReservedBodyBytes_def)
  have a: "snd (acquire c contentLength) = None \<longleftrightarrow>
      (0 < cc_MaximumConcurrent cfg \<and> cc_MaximumConcurrent cfg \<le> Inflight c) \<or>
      outstandingBodyBudget cfg < ReservedBodyBytes c + bodyReservationBytes c contentLength"
    using m(2) by (simp add: acquire_result [OF i] ReservedBodyBytes_def)
  have "bodyReservationBytes c contentLength \<le> outstandingBodyBudget cfg"
    using reservation_pos [of c contentLength] outstandingBodyBudget_bounds(1) [OF assms(1)] assms(1) m(5) by simp
  then have e: "scanning = [] \<and> kept = [] \<longrightarrow> snd (acquire c contentLength) \<noteq> None"
    using a m(2,3) by auto
  show ?thesis
    using m a e outstandingBodyBudget_bounds(2) [OF assms(1)] by (intro conjI) auto
qed

definition demoClassifierConfig :: classifierConfig where
  "demoClassifierConfig = \<lparr>cc_MaximumBodyBytes = 100, cc_MaximumConcurrent = 2\<rparr>"

lemma bodies_within_budget_witness:
  "\<exists>c. classifier_step\<^sup>*\<^sup>* (newClassifier demoClassifierConfig, [], []) (c, [100], [40]) \<and>
     ReservedBodyBytes c = 140 \<and> Inflight c = 1 \<and> snd (acquire c 61) = None \<and> snd (acquire c 60) = Some 60"
proof -
  let ?cfg = demoClassifierConfig
  note defs = acquire_def newClassifier_def demoClassifierConfig_def bodyReservationBytes_def reserveBodyBytes_def
    outstandingBodyBudget_def retainedBodyBufferCount_def releaseScanner_def Let_def
  let ?c1 = "fst (acquire (newClassifier ?cfg) 40)"
  let ?c2 = "releaseScanner ?c1"
  let ?c3 = "fst (acquire ?c2 0)"
  have "classifier_step (newClassifier ?cfg, [], []) (?c1, [40], [])" by (rule starts [of _ 40]) (simp add: defs)
  moreover have "classifier_step (?c1, [40], []) (?c2, [], [40])" using keeps [of ?c1 "[]" 40 "[]" "[]"] by simp
  moreover have "classifier_step (?c2, [], [40]) (?c3, [100], [40])" by (rule starts [of _ 0]) (simp add: defs)
  ultimately have run: "classifier_step\<^sup>*\<^sup>* (newClassifier ?cfg, [], []) (?c3, [100], [40])"
    by (meson converse_rtranclp_into_rtranclp rtranclp.rtrancl_refl)
  have p: "0 < cc_MaximumBodyBytes ?cfg" by (simp add: demoClassifierConfig_def)
  have "ReservedBodyBytes ?c3 = 140 \<and> Inflight ?c3 = 1 \<and> snd (acquire ?c3 61) = None"
    using bodies_within_budget [OF p run, of 61] by (simp add: defs)
  moreover have "snd (acquire ?c3 60) = Some 60" by (simp add: defs)
  ultimately show ?thesis using run by blast
qed


definition demoClassified :: bodyRequest where
  "demoClassified = demoBodyRequest\<lparr>br_Body := Some (SourceBody [(''{'', None), (''}'', Some ''EOF'')])\<rparr>"


end
