(* ===== verification/UpstreamError.thy ===== *)
theory UpstreamError
  imports ResponseEvidence Classify_Correct "HOL-Library.AList" "HOL-Library.Sublist"
begin

text \<open>
  \<open>internal/domain/upstreamerror/classifier.go\<close> and \<open>internal/app/server/upstream_error.go\<close>: internal
  errors of the backend that are the client's fault are recognised by their message and answered as
  such. Then what of a response that can change.

  A decoded JSON value is an \<open>anyValue\<close>; the maps have distinct keys. \<open>json.Unmarshal\<close> of an object,
  \<open>json.Marshal\<close>, \<open>mime.ParseMediaType\<close> and \<open>strings.ToLower\<close>, which is that of Unicode, are arguments.
\<close>

subsection \<open>The classifier\<close>

datatype anyValue =
    AnyNil | AnyBool bool | AnyFloat f64 | AnyInt int | AnyNumber string | AnyString string
  | AnyList "anyValue list" | AnyMap "(string \<times> anyValue) list"

record upstreamLibrary =
  ul_parseMediaType :: "string \<Rightarrow> string option"
  ul_toLower :: "string \<Rightarrow> string"
  ul_unmarshal :: "string \<Rightarrow> (string \<times> anyValue) list option"
  ul_marshal :: "(string \<times> anyValue) list \<Rightarrow> string option"

record upstreamClassification =
  uc_Matched :: bool
  uc_Status :: int
  uc_Type :: string
  uc_Reason :: string

abbreviation noClassification :: upstreamClassification where
  "noClassification \<equiv> \<lparr>uc_Matched = False, uc_Status = 0, uc_Type = [], uc_Reason = []\<rparr>"

fun strings_Contains :: "string \<Rightarrow> string \<Rightarrow> bool" where
  "strings_Contains [] pattern = (pattern = [])"
| "strings_Contains (c # s) pattern = (prefix pattern (c # s) \<or> strings_Contains s pattern)"

lemma strings_Contains_iff: "strings_Contains s pattern \<longleftrightarrow> sublist pattern s"
  by (induction s) (auto simp: sublist_Cons_right)

text \<open>
  \<open>strconv.Atoi\<close> and \<open>json.Number.Int64\<close> with their error dropped: zero for what is not a number, and
  the nearest bound for one that is too large.
\<close>

definition decimalValue :: "string \<Rightarrow> nat" where
  "decimalValue figures = foldl (\<lambda>n c. 10 * n + (of_char c - 48)) 0 figures"

definition parsedInt :: "string \<Rightarrow> int" where
  "parsedInt s =
     (let (negative, figures) = (case s of
            c # rest' \<Rightarrow> if c = CHR ''-'' then (True, rest') else if c = CHR ''+'' then (False, rest') else (False, s)
          | [] \<Rightarrow> (False, s));
          n = int (decimalValue figures)
      in if figures = [] \<or> \<not> list_all (\<lambda>c. (48::nat) \<le> of_char c \<and> (of_char c :: nat) \<le> 57) figures then 0
         else if negative then max MinInt64 (- n) else min MaxInt64 n)"

definition numericCode :: "anyValue \<Rightarrow> int" where
  "numericCode code =
     (case code of
        AnyFloat value \<Rightarrow> int64_of value
      | AnyInt value \<Rightarrow> value
      | AnyNumber value \<Rightarrow> parsedInt value
      | AnyString value \<Rightarrow> parsedInt value
      | _ \<Rightarrow> 0)"

definition stringField :: "(string \<times> anyValue) list \<Rightarrow> string \<Rightarrow> string" where
  "stringField payload key = (case map_of payload key of Some (AnyString s) \<Rightarrow> s | _ \<Rightarrow> [])"

definition looksLikeVLLMInternalError :: "(string \<times> anyValue) list \<Rightarrow> bool" where
  "looksLikeVLLMInternalError errorPayload =
     (let errorType = stringField errorPayload ''type''
      in if errorType \<noteq> [] \<and> errorType \<noteq> ''InternalServerError'' then False
         else case map_of errorPayload ''code'' of
             None \<Rightarrow> errorType = ''InternalServerError''
           | Some AnyNil \<Rightarrow> errorType = ''InternalServerError''
           | Some code \<Rightarrow> numericCode code = 500)"

definition upstreamJsonContentType :: "upstreamLibrary \<Rightarrow> string \<Rightarrow> bool" where
  "upstreamJsonContentType lib contentType =
     (let mediaType = (case ul_parseMediaType lib contentType of
            Some m \<Rightarrow> m | None \<Rightarrow> strings_TrimSpace (ul_toLower lib contentType))
      in mediaType = ''application/json'' \<or> suffix ''+json'' mediaType)"

definition Eligible :: "upstreamLibrary \<Rightarrow> int \<Rightarrow> string \<Rightarrow> bool" where
  "Eligible lib status contentType \<longleftrightarrow> status = 500 \<and> upstreamJsonContentType lib contentType"

definition isContextLengthInputError :: "string \<Rightarrow> bool" where
  "isContextLengthInputError message \<longleftrightarrow>
     strings_Contains message ''maximum context length'' \<or>
     strings_Contains message ''context length'' \<and> strings_Contains message ''exceed''"

definition isJSONDecodeInputError :: "string \<Rightarrow> bool" where
  "isJSONDecodeInputError message \<longleftrightarrow>
     strings_Contains message ''jsondecodeerror'' \<or>
     list_ex (strings_Contains message)
       [''expecting value:'', ''extra data:'', ''unterminated string'', ''invalid control character'',
        ''property name enclosed in double quotes'']"

definition isImageInputError :: "string \<Rightarrow> bool" where
  "isImageInputError message \<longleftrightarrow>
     strings_Contains message ''failed to load image'' \<or>
     strings_Contains message ''cannot identify image file'' \<or> strings_Contains message ''unidentifiedimageerror'' \<or>
     strings_Contains message ''url='' \<and>
       (strings_Contains message (''message='' @ [CHR 0x27] @ ''forbidden'' @ [CHR 0x27]) \<or> strings_Contains message ''403'') \<or>
     strings_Contains message ''clientconnectordnserror'' \<or>
     strings_Contains message ''cannot connect to host'' \<and>
       (strings_Contains message ''name or service not known'' \<or>
        strings_Contains message ''temporary failure in name resolution'' \<or> strings_Contains message ''ssl:'')"

definition classifyMessage :: "upstreamLibrary \<Rightarrow> string \<Rightarrow> upstreamClassification" where
  "classifyMessage lib message =
     (let lower = ul_toLower lib message;
          badRequest = (\<lambda>reason. \<lparr>uc_Matched = True, uc_Status = 400, uc_Type = ''BadRequestError'', uc_Reason = reason\<rparr>)
      in if lower = [] then noClassification
         else if strings_Contains lower ''vllmvalidationerror'' then badRequest ''validation''
         else if isContextLengthInputError lower then badRequest ''context_length''
         else if isJSONDecodeInputError lower then badRequest ''json_decode''
         else if isImageInputError lower then
           \<lparr>uc_Matched = True, uc_Status = 422, uc_Type = ''UnprocessableEntityError'', uc_Reason = ''image_input''\<rparr>
         else noClassification)"

text \<open>The classification with the payload and the error in it, which are absent where Go has nil maps.\<close>

definition classifyPayload ::
  "upstreamLibrary \<Rightarrow> int \<Rightarrow> string \<Rightarrow> string \<Rightarrow>
   upstreamClassification \<times> ((string \<times> anyValue) list \<times> (string \<times> anyValue) list) option" where
  "classifyPayload lib status contentType body =
     (if \<not> Eligible lib status contentType then (noClassification, None)
      else case ul_unmarshal lib body of
          None \<Rightarrow> (noClassification, None)
        | Some payload \<Rightarrow>
            (case map_of payload ''error'' of
               Some (AnyMap errorPayload) \<Rightarrow>
                 if \<not> looksLikeVLLMInternalError errorPayload then (noClassification, None)
                 else (classifyMessage lib (stringField errorPayload ''message''), Some (payload, errorPayload))
             | _ \<Rightarrow> (noClassification, None)))"

definition Classify_upstream :: "upstreamLibrary \<Rightarrow> int \<Rightarrow> string \<Rightarrow> string \<Rightarrow> upstreamClassification" where
  "Classify_upstream lib status contentType body = fst (classifyPayload lib status contentType body)"

definition rewrittenPayload ::
  "(string \<times> anyValue) list \<Rightarrow> (string \<times> anyValue) list \<Rightarrow> upstreamClassification \<Rightarrow> (string \<times> anyValue) list" where
  "rewrittenPayload payload errorPayload c =
     AList.update ''error'' (AnyMap (AList.update ''type'' (AnyString (uc_Type c))
       (AList.update ''code'' (AnyInt (uc_Status c)) errorPayload))) payload"

definition ClassifyAndRewrite ::
  "upstreamLibrary \<Rightarrow> int \<Rightarrow> string \<Rightarrow> string \<Rightarrow> upstreamClassification \<times> string" where
  "ClassifyAndRewrite lib status contentType body =
     (case classifyPayload lib status contentType body of
        (classification, Some (payload, errorPayload)) \<Rightarrow>
          if \<not> uc_Matched classification then (classification, body)
          else (case ul_marshal lib (rewrittenPayload payload errorPayload classification) of
                  None \<Rightarrow> (noClassification, body)
                | Some revised \<Rightarrow> (classification, revised))
      | (classification, None) \<Rightarrow> (classification, body))"

subsection \<open>The response\<close>

abbreviation upstreamErrorClassificationBodyBytes :: int where "upstreamErrorClassificationBodyBytes \<equiv> 65536"

text \<open>The text of the status and the length header, which only restate the fields, are left out.\<close>

definition classifyUpstreamErrorResponse :: "upstreamLibrary \<Rightarrow> bool \<Rightarrow> upstreamResponse \<Rightarrow> upstreamResponse" where
  "classifyUpstreamErrorResponse lib enabled response =
     (case us_Body response of
        None \<Rightarrow> response
      | Some original \<Rightarrow>
          if \<not> enabled then response
          else if \<not> Eligible lib (us_StatusCode response) (us_ContentType response) then response
          else if us_ContentLength response > upstreamErrorClassificationBodyBytes then response
          else (case readLimited original (nat (upstreamErrorClassificationBodyBytes + 1)) of
                  (body, err, left) \<Rightarrow>
                    if err \<noteq> None \<or> int (length body) > upstreamErrorClassificationBodyBytes
                    then response\<lparr>us_Body := Some ((body, None) # left)\<rparr>
                    else (case ClassifyAndRewrite lib (us_StatusCode response) (us_ContentType response) body of
                            (classification, revised) \<Rightarrow>
                              let response1 = response\<lparr>us_Body := Some [(revised, None)]\<rparr>
                              in if \<not> uc_Matched classification then response1
                                 else response1\<lparr>us_StatusCode := uc_Status classification,
                                        us_ContentLength := int (length revised)\<rparr>)))"

subsection \<open>What is shown of it\<close>

abbreviation responseBytes :: "upstreamResponse \<Rightarrow> string" where
  "responseBytes response \<equiv> (case us_Body response of None \<Rightarrow> [] | Some source \<Rightarrow> concat (map fst source))"

lemma classifyMessage_status:
  "uc_Matched (classifyMessage lib message) \<Longrightarrow> uc_Status (classifyMessage lib message) \<in> {400, 422}"
  "\<not> uc_Matched (classifyMessage lib message) \<Longrightarrow> classifyMessage lib message = noClassification"
  by (simp_all add: classifyMessage_def Let_def split: if_splits)

lemma rewrittenPayload_fields:
  assumes "map_of payload ''error'' = Some (AnyMap errorPayload)"
  shows "key \<noteq> ''error'' \<Longrightarrow> map_of (rewrittenPayload payload errorPayload c) key = map_of payload key"
    and "\<exists>e. map_of (rewrittenPayload payload errorPayload c) ''error'' = Some (AnyMap e) \<and>
      map_of e = (map_of errorPayload)(''code'' \<mapsto> AnyInt (uc_Status c), ''type'' \<mapsto> AnyString (uc_Type c))"
  by (simp_all add: rewrittenPayload_def update_conv' fun_eq_iff)

lemma classifyPayload_result:
  assumes "classifyPayload lib status contentType body = (c, some)" "uc_Matched c"
  obtains payload errorPayload where "some = Some (payload, errorPayload)" "Eligible lib status contentType"
    "ul_unmarshal lib body = Some payload" "map_of payload ''error'' = Some (AnyMap errorPayload)"
    "looksLikeVLLMInternalError errorPayload" "c = classifyMessage lib (stringField errorPayload ''message'')"
  using assms by (auto simp: classifyPayload_def split: if_splits option.splits anyValue.splits)

lemma ClassifyAndRewrite_cases:
  obtains (kept) c where "ClassifyAndRewrite lib status contentType body = (c, body)" "\<not> uc_Matched c"
  | (revised) c payload errorPayload body' where "ClassifyAndRewrite lib status contentType body = (c, body')" "uc_Matched c"
      "Eligible lib status contentType" "ul_unmarshal lib body = Some payload"
      "map_of payload ''error'' = Some (AnyMap errorPayload)" "looksLikeVLLMInternalError errorPayload"
      "c = classifyMessage lib (stringField errorPayload ''message'')"
      "ul_marshal lib (rewrittenPayload payload errorPayload c) = Some body'"
proof -
  obtain c some where p: "classifyPayload lib status contentType body = (c, some)" by fastforce
  show thesis
  proof (cases "uc_Matched c")
    case False
    then show thesis using kept [of c] p by (auto simp: ClassifyAndRewrite_def split: option.splits)
  next
    case True
    from p True obtain payload errorPayload where e: "some = Some (payload, errorPayload)" "Eligible lib status contentType"
        "ul_unmarshal lib body = Some payload" "map_of payload ''error'' = Some (AnyMap errorPayload)"
        "looksLikeVLLMInternalError errorPayload" "c = classifyMessage lib (stringField errorPayload ''message'')"
      by (rule classifyPayload_result)
    show thesis
    proof (cases "ul_marshal lib (rewrittenPayload payload errorPayload c)")
      case None
      then show thesis using kept [of noClassification] p e(1) True by (simp add: ClassifyAndRewrite_def)
    next
      case (Some body')
      then show thesis using p e(1) True by (intro revised [OF _ True e(2-6) Some]) (simp add: ClassifyAndRewrite_def)
    qed
  qed
qed

text \<open>C35: A backend's internal error is turned into a client error only as a whole, and nothing else of a response
  changes: either status, length and every byte that will be read stay as they are, or the response was
  a 500 with an error object that looks like vLLM's, and it becomes a 400 or 422 of the stated length
  whose payload is the decoded one with only the code and the type of the error replaced.\<close>
theorem upstream_error_rewritten:
  assumes "us_Body response = Some source" "wellEnded source"
    and "response' = classifyUpstreamErrorResponse lib enabled response"
  shows "us_ContentType response' = us_ContentType response \<and>
    (us_StatusCode response' = us_StatusCode response \<and> us_ContentLength response' = us_ContentLength response \<and>
       responseBytes response' = responseBytes response \<or>
     (\<exists>payload errorPayload payload' errorPayload'.
        enabled \<and> us_StatusCode response = 500 \<and> us_StatusCode response' \<in> {400, 422} \<and>
        us_ContentLength response' = int (length (responseBytes response')) \<and>
        ul_unmarshal lib (responseBytes response) = Some payload \<and>
        ul_marshal lib payload' = Some (responseBytes response') \<and>
        map_of payload ''error'' = Some (AnyMap errorPayload) \<and> looksLikeVLLMInternalError errorPayload \<and>
        map_of payload' = (map_of payload)(''error'' \<mapsto> AnyMap errorPayload') \<and>
        (\<exists>kind. map_of errorPayload' =
           (map_of errorPayload)(''code'' \<mapsto> AnyInt (us_StatusCode response'), ''type'' \<mapsto> AnyString kind))))"
proof (cases "\<not> enabled \<or> \<not> Eligible lib (us_StatusCode response) (us_ContentType response) \<or>
    us_ContentLength response > upstreamErrorClassificationBodyBytes")
  case True
  then show ?thesis using assms(1,3) by (auto simp: classifyUpstreamErrorResponse_def)
next
  case on: False
  obtain body err left where rd: "readLimited source (nat (upstreamErrorClassificationBodyBytes + 1)) = (body, err, left)"
    by (metis prod.exhaust)
  note f = readLimited_facts [OF rd]
  show ?thesis
  proof (cases "err \<noteq> None \<or> int (length body) > upstreamErrorClassificationBodyBytes")
    case True
    then show ?thesis using assms(1,3) on rd f by (auto simp: classifyUpstreamErrorResponse_def)
  next
    case False
    then have all: "concat (map fst source) = body" using f assms(2) by simp
    have c: "response' = (case ClassifyAndRewrite lib (us_StatusCode response) (us_ContentType response) body of
        (classification, revised) \<Rightarrow>
          let response1 = response\<lparr>us_Body := Some [(revised, None)]\<rparr>
          in if \<not> uc_Matched classification then response1
             else response1\<lparr>us_StatusCode := uc_Status classification, us_ContentLength := int (length revised)\<rparr>)"
      using assms(1,3) on rd False by (simp add: classifyUpstreamErrorResponse_def)
    show ?thesis
    proof (cases rule: ClassifyAndRewrite_cases [of lib "us_StatusCode response" "us_ContentType response" body])
      case (kept cl)
      then show ?thesis using c assms(1) all by simp
    next
      case (revised cl payload errorPayload body')
      obtain e where e: "map_of (rewrittenPayload payload errorPayload cl) ''error'' = Some (AnyMap e)"
          "map_of e = (map_of errorPayload)(''code'' \<mapsto> AnyInt (uc_Status cl), ''type'' \<mapsto> AnyString (uc_Type cl))"
        using rewrittenPayload_fields(2) [OF revised(5), of cl] by blast
      have m: "map_of (rewrittenPayload payload errorPayload cl) = (map_of payload)(''error'' \<mapsto> AnyMap e)"
        using rewrittenPayload_fields(1) [OF revised(5)] e(1) by (auto simp: fun_eq_iff)
      have st: "us_StatusCode response = 500" "uc_Status cl \<in> {400, 422}"
        using revised(2,3,7) classifyMessage_status(1) by (simp_all add: Eligible_def)
      have r: "response' = response\<lparr>us_Body := Some [(body', None)], us_StatusCode := uc_Status cl, us_ContentLength := int (length body')\<rparr>"
        using c revised(1,2) by simp
      show ?thesis
        unfolding r using on st revised(4-6,8) all assms(1) m e(2)
        by (intro conjI disjI2 exI [of _ payload] exI [of _ errorPayload]
              exI [of _ "rewrittenPayload payload errorPayload cl"] exI [of _ e] exI [of _ "uc_Type cl"]) simp_all
    qed
  qed
qed

definition demoUpstream :: upstreamLibrary where
  "demoUpstream = \<lparr>ul_parseMediaType = (\<lambda>_. Some ''application/json''), ul_toLower = (\<lambda>s. s),
     ul_unmarshal = (\<lambda>_. Some [(''error'', AnyMap [(''message'', AnyString ''extra data: line 1''), (''code'', AnyInt 500)])]),
     ul_marshal = (\<lambda>_. Some ''{}'')\<rparr>"

lemma upstream_error_rewritten_witness:
  "\<exists>response'. response' = classifyUpstreamErrorResponse demoUpstream True
       \<lparr>us_StatusCode = 500, us_ContentType = ''application/json'', us_ContentLength = -1, us_Body = Some [(''{'', None), (''}'', Some ''EOF'')]\<rparr> \<and>
     us_StatusCode response' = 400 \<and> responseBytes response' = ''{}''"
proof -
  let ?r = "\<lparr>us_StatusCode = 500, us_ContentType = ''application/json'', us_ContentLength = -1, us_Body = Some [(''{'', None), (''}'', Some ''EOF'')]\<rparr>"
  have "us_Body ?r = Some [(''{'', None), (''}'', Some ''EOF'')]" "wellEnded [(''{'', None), (''}'', Some ''EOF'')]" by simp_all
  note t = upstream_error_rewritten [OF this refl, of demoUpstream True]
  have "us_StatusCode (classifyUpstreamErrorResponse demoUpstream True ?r) = 400"
    by (simp add: classifyUpstreamErrorResponse_def demoUpstream_def Eligible_def upstreamJsonContentType_def
        ClassifyAndRewrite_def classifyPayload_def looksLikeVLLMInternalError_def stringField_def numericCode_def
        classifyMessage_def isContextLengthInputError_def isJSONDecodeInputError_def Let_def)
  with t show ?thesis by (auto simp: demoUpstream_def)
qed

end
