(* ===== verification/RequestFlow.thy ===== *)
theory RequestFlow
  imports Queue_Runtime UpstreamError
begin

text \<open>
  A request on its way through the server: \<open>internal/app/server/proxy.go\<close>, with the parts of
  \<open>admission_http.go\<close>, \<open>scheduling_priority.go\<close>, \<open>server_setup.go\<close> and \<open>predictive_lifecycle.go\<close> that act on
  its state. What \<open>ServeHTTP\<close> does on a generation route is cut where it waits or touches what other
  requests share: it classifies the request, asks for admission, forwards it, and finishes it; while
  the request is upstream the handlers of the response act. A request's own variables are a record,
  and the server's state is shared by all. The deferred calls run in \<open>endServing\<close>, last deferred first.

  The admission service is any state with the operations of its interface.
\<close>

subsection \<open>What the request asks for\<close>

definition tierForRequest :: "string list \<Rightarrow> RequestTier" where
  "tierForRequest headerValues = ParseRequestTier (TierValue headerValues)"

definition tpsDemandForClassification :: "Classification \<Rightarrow> TPSRequestDemand" where
  "tpsDemandForClassification classification =
     (if cf_Supported classification then NewTPSRequestDemand (cf_DecodeSequences classification)
      else if cf_SingleSequenceFallback classification then NewFallbackTPSRequestDemand
      else zeroDemand)"

definition schedulingPriority :: "RequestTier \<Rightarrow> int" where
  "schedulingPriority tier =
     (case tier of TierPriority \<Rightarrow> 2 | TierFlex \<Rightarrow> 0 | _ \<Rightarrow> 1)"

subsection \<open>The backend and the client\<close>

text \<open>
  \<open>internal/infra/backend/proxy.go\<close> counts the requests, \<open>client_abort.go\<close> the clients that went away, each
  request once: \<open>recorded\<close> is the flag in the request's context, absent without one.
\<close>

record backendStats =
  bs_inflight :: int
  bs_accepted :: nat
  bs_completed :: nat
  bs_proxyErrs :: nat

definition backend_Begin :: "backendStats \<Rightarrow> backendStats" where
  "backend_Begin b = b\<lparr>bs_inflight := wrap64 (bs_inflight b + 1), bs_accepted := wrapu64 (bs_accepted b + 1)\<rparr>"

definition backend_done :: "backendStats \<Rightarrow> backendStats" where
  "backend_done b = b\<lparr>bs_inflight := wrap64 (bs_inflight b - 1), bs_completed := wrapu64 (bs_completed b + 1)\<rparr>"

definition ObserveProxyError :: "backendStats \<Rightarrow> backendStats" where
  "ObserveProxyError b = b\<lparr>bs_proxyErrs := wrapu64 (bs_proxyErrs b + 1)\<rparr>"

record clientDisconnects =
  dc_queue :: nat
  dc_upstream :: nat
  dc_response :: nat
  dc_cancel :: nat

definition recordClientDisconnect ::
  "clientDisconnects \<Rightarrow> bool option \<Rightarrow> bool \<Rightarrow> string \<Rightarrow> bool \<Rightarrow> clientDisconnects \<times> bool option \<times> bool" where
  "recordClientDisconnect d recorded clientGone phase upstreamCancel =
     (if \<not> clientGone then (d, recorded, False)
      else if recorded = Some True then (d, recorded, True)
      else
        let d1 = (if phase = ''queue'' then d\<lparr>dc_queue := wrapu64 (dc_queue d + 1)\<rparr>
                  else if phase = ''upstream'' then d\<lparr>dc_upstream := wrapu64 (dc_upstream d + 1)\<rparr>
                  else if phase = ''response'' then d\<lparr>dc_response := wrapu64 (dc_response d + 1)\<rparr>
                  else d)
        in (if upstreamCancel then d1\<lparr>dc_cancel := wrapu64 (dc_cancel d1 + 1)\<rparr> else d1,
            map_option (\<lambda>_. True) recorded, True))"

text \<open>
  How the reverse proxy left: it returned with a status, or panicked, which it does with
  \<open>http.ErrAbortHandler\<close> when the response breaks off. The recorder of the status measured the rest.
\<close>

record servedResponse =
  sr_status :: int
  sr_total :: duration
  sr_firstByte :: "duration option"
  sr_deadlineExceeded :: bool
  sr_clientGone :: bool

datatype proxyEnd = ProxyReturned servedResponse | ProxyPanicked bool servedResponse

definition measured :: "int \<Rightarrow> servedResponse \<Rightarrow> bool \<Rightarrow> proxyResult" where
  "measured status r timedOut =
     \<lparr>pr_status = status, pr_total = sr_total r,
      pr_firstByte = (case sr_firstByte r of None \<Rightarrow> 0 | Some first \<Rightarrow> first),
      pr_firstByteOK = (sr_firstByte r \<noteq> None), pr_timedOut = timedOut, pr_proxyFailed = False\<rparr>"

text \<open>The result of \<open>proxyRequest\<close>, \<open>None\<close> when it panics on.\<close>

definition proxyRequest ::
  "clientDisconnects \<times> bool option \<Rightarrow> proxyEnd \<Rightarrow> (clientDisconnects \<times> bool option) \<times> proxyResult option" where
  "proxyRequest = (\<lambda>(d, recorded) served.
     (case served of
        ProxyReturned r \<Rightarrow>
          (case recordClientDisconnect d recorded (sr_clientGone r) ''response'' True of
             (d', recorded', gone) \<Rightarrow>
               ((d', recorded'),
                Some (measured (if gone then clientClosedRequestStatus else sr_status r) r (sr_deadlineExceeded r))))
      | ProxyPanicked abort r \<Rightarrow>
          if \<not> abort then ((d, recorded), None)
          else (case recordClientDisconnect d recorded (sr_clientGone r) ''response'' True of
                  (d', recorded', gone) \<Rightarrow>
                    ((d', recorded'), if gone then Some (measured clientClosedRequestStatus r False) else None))))"

definition observeProxyResult ::
  "DurationHistogram \<times> DurationHistogram \<Rightarrow> proxyResult \<Rightarrow> DurationHistogram \<times> DurationHistogram" where
  "observeProxyResult = (\<lambda>(proxyTotal, proxyTTFB) result.
     (duration_Observe proxyTotal (pr_total result),
      if pr_firstByteOK result then duration_Observe proxyTTFB (pr_firstByte result) else proxyTTFB))"

definition observeInternalOverhead :: "DurationHistogram \<Rightarrow> duration \<Rightarrow> duration \<Rightarrow> duration \<Rightarrow> DurationHistogram" where
  "observeInternalOverhead h elapsed queueWait proxyTotal =
     (let overhead = wrap64 (wrap64 (elapsed - queueWait) - proxyTotal)
      in duration_Observe h (if overhead < 0 then 0 else overhead))"

subsection \<open>The server\<close>

record 's admissionServiceOps =
  op_Decide :: "'s \<Rightarrow> bool \<Rightarrow> gotime \<Rightarrow> duration \<Rightarrow> TPSRequestDemand \<Rightarrow> 's \<times> admissionDecision option"
  op_MarkForwarded :: "'s \<Rightarrow> ReservationHandle \<Rightarrow> gotime \<Rightarrow> 's \<times> bool"
  op_MarkFirstByte :: "'s \<Rightarrow> ReservationHandle \<Rightarrow> gotime \<Rightarrow> 's \<times> bool"
  op_Terminate :: "'s \<Rightarrow> ReservationHandle \<Rightarrow> TerminalCause \<Rightarrow> gotime \<Rightarrow> 's \<times> bool"

record httpLibrary =
  hl_parseMediaType :: "string \<Rightarrow> string option"
  hl_jsonValid :: "string \<Rightarrow> bool"
  hl_contextBytes :: "string \<Rightarrow> string option"
  hl_upstream :: upstreamLibrary

record 's proxyServer =
  sv_mode :: string
  sv_upstreamErrorClassificationEnabled :: bool
  sv_requestClassifier :: Classifier
  sv_promptCost :: promptCostEstimator
  sv_admission :: 's
  sv_warmPromptTokens :: int
  sv_backendTierScheduling :: bool
  sv_total429 :: nat
  sv_clientProtocolInvalidJSON :: nat
  sv_predictiveEnforcedRejects :: nat
  sv_written :: "nat \<Rightarrow> nat"
  sv_skipped :: nat
  sv_failedDecide :: nat
  sv_failedForward :: nat
  sv_failedFirstByte :: nat
  sv_failedTerminal :: nat
  sv_requestEvidence :: requestEvidence
  sv_responseUsageEvidence :: responseUsageEvidence
  sv_decisionDuration :: DurationHistogram
  sv_bodyReadDuration :: DurationHistogram
  sv_shapeScanDuration :: DurationHistogram
  sv_proxyTTFB :: DurationHistogram
  sv_proxyTotal :: DurationHistogram
  sv_internalOverhead :: DurationHistogram
  sv_clientDisconnects :: clientDisconnects
  sv_backend :: backendStats

datatype httpAnswer = AnswerInvalidJSON | AnswerTooManyRequests | AnswerProxied proxyResult | AnswerAborted

text \<open>The variables of the handler; \<open>fd_lease\<close> is what the body kept for the request still holds.\<close>

record flowData =
  fd_request :: bodyRequest
  fd_streamed :: "schedulingPriorityBody option"
  fd_lease :: "int option"
  fd_classification :: Classification
  fd_tier :: RequestTier
  fd_evidence :: responseUsageRequestEvidence
  fd_promptCost :: promptCost
  fd_decision :: admissionDecision
  fd_reservation :: "ReservationHandle option"
  fd_terminal :: TerminalCause
  fd_first :: bool
  fd_complete :: bool
  fd_recorded :: "bool option"

datatype flow =
    FlowArrived bodyRequest "string list"
  | FlowClassified flowData
  | FlowDecided flowData
  | FlowUpstream flowData
  | FlowFinished flowData httpAnswer

text \<open>The readings of the clock and of the context in a step.\<close>

record flowEnv =
  ev_now :: gotime
  ev_elapsed :: duration
  ev_read :: duration
  ev_scan :: duration
  ev_ctxDone :: bool
  ev_clientGone :: bool

definition writeSchedulingPriority ::
  "httpLibrary \<Rightarrow> 's proxyServer \<Rightarrow> flowData \<Rightarrow> 's proxyServer \<times> flowData" where
  "writeSchedulingPriority lib s f =
     (let tier = fd_tier f;
          written = s\<lparr>sv_written := increment (sv_written s) (admissionEvidenceTierIndex tier)\<rparr>
      in if \<not> sv_backendTierScheduling s then (s, f)
         else case SetSchedulingPriority (requestContentTypeJSON (hl_parseMediaType lib)) (fd_request f)
                (schedulingPriority tier) of
           PriorityNotSet \<Rightarrow> (s\<lparr>sv_skipped := wrapu64 (sv_skipped s + 1)\<rparr>, f)
         | PriorityBuffered r \<Rightarrow> (written, f\<lparr>fd_request := r\<rparr>)
         | PriorityStreamed r body \<Rightarrow> (written, f\<lparr>fd_request := r, fd_streamed := Some body\<rparr>))"

text \<open>The deferred calls: the reservation is terminated, the evidence censored, the body closed.\<close>

definition endServing ::
  "'s admissionServiceOps \<Rightarrow> flowEnv \<Rightarrow> 's proxyServer \<Rightarrow> flowData \<Rightarrow> httpAnswer \<Rightarrow> 's proxyServer \<times> flow" where
  "endServing ops env s f answer =
     (let admission = (case fd_reservation f of
            None \<Rightarrow> sv_admission s
          | Some h \<Rightarrow> fst (op_Terminate ops (sv_admission s) h (fd_terminal f) (ev_now env)))
      in case responseUsage_Censor (sv_responseUsageEvidence s) (fd_evidence f) of
           (usage, evidence) \<Rightarrow>
             (case preserving_Close (sv_requestClassifier s) (fd_lease f) of
                (classifier, lease) \<Rightarrow>
                  (s\<lparr>sv_admission := admission, sv_responseUsageEvidence := usage, sv_requestClassifier := classifier\<rparr>,
                   FlowFinished (f\<lparr>fd_evidence := evidence, fd_lease := lease\<rparr>) answer)))"

definition serveClassify ::
  "httpLibrary \<Rightarrow> 's admissionServiceOps \<Rightarrow> flowEnv \<Rightarrow> 's proxyServer \<Rightarrow> bodyRequest \<Rightarrow> string list \<Rightarrow>
   's proxyServer \<times> flow" where
  "serveClassify lib ops env s r headers =
     (case classifyJSONFields (hl_parseMediaType lib) (hl_jsonValid lib) (hl_contextBytes lib) (ev_read env) (ev_scan env)
             (sv_requestClassifier s) r of
        (classifier, r1, lease, classification, problem) \<Rightarrow>
          let tier = tierForRequest headers;
              timing = cf_Timing classification;
              s1 = s\<lparr>sv_requestClassifier := classifier,
                     sv_requestEvidence := requestEvidence_Record (sv_requestEvidence s) classification,
                     sv_bodyReadDuration := (if ct_BodyReadMeasured timing
                       then duration_Observe (sv_bodyReadDuration s) (ct_BodyRead timing) else sv_bodyReadDuration s),
                     sv_shapeScanDuration := (if ct_ShapeScanMeasured timing
                       then duration_Observe (sv_shapeScanDuration s) (ct_ShapeScan timing) else sv_shapeScanDuration s)\<rparr>;
              f = \<lparr>fd_request = r1, fd_streamed = None, fd_lease = lease, fd_classification = classification,
                   fd_tier = tier, fd_evidence = responseUsage_Begin classification (br_Path r) tier,
                   fd_promptCost = zeroCost, fd_decision = unavailableAdmissionDecision zeroDemand,
                   fd_reservation = None, fd_terminal = TerminalCancel, fd_first = False, fd_complete = False,
                   fd_recorded = Some False\<rparr>
          in (case problem of
                None \<Rightarrow> (s1, FlowClassified f)
              | Some reason \<Rightarrow>
                  endServing ops env
                    (s1\<lparr>sv_decisionDuration := duration_Observe (sv_decisionDuration s1) (ev_elapsed env),
                        sv_clientProtocolInvalidJSON := (if reason = ''invalid_json''
                          then wrapu64 (sv_clientProtocolInvalidJSON s1 + 1) else sv_clientProtocolInvalidJSON s1)\<rparr>)
                    f AnswerInvalidJSON))"

definition serveDecide ::
  "'s admissionServiceOps \<Rightarrow> flowEnv \<Rightarrow> 's proxyServer \<Rightarrow> flowData \<Rightarrow> 's proxyServer \<times> flow" where
  "serveDecide ops env s f =
     (case Estimate (sv_promptCost s) (cf_Prompt (fd_classification f)) (int (admissionEvidenceTierIndex (fd_tier f))) of
        (estimator, cost) \<Rightarrow>
          let demand0 = WithTier (tpsDemandForClassification (fd_classification f)) (fd_tier f);
              demand = (if pc_known cost then WithPrefillTokens demand0 (pc_uncachedTokens cost) else demand0)
          in case decideAdmission (\<lambda>a h c. op_Terminate ops a h c (ev_now env))
                    (\<lambda>a d. op_Decide ops a (ev_ctxDone env) (ev_now env) (ev_elapsed env) d)
                    (sv_admission s, sv_failedDecide s) demand of
               ((admission, failures), decision) \<Rightarrow>
                 let s1 = s\<lparr>sv_promptCost := estimator, sv_admission := admission, sv_failedDecide := failures\<rparr>;
                     f1 = f\<lparr>fd_promptCost := cost, fd_decision := decision, fd_reservation := ad_Reservation decision\<rparr>
                 in if sv_mode s1 = ''enforce'' \<and> \<not> Admitted (ad_Record decision)
                    then endServing ops env
                      (s1\<lparr>sv_predictiveEnforcedRejects := wrapu64 (sv_predictiveEnforcedRejects s1 + 1),
                          sv_total429 := wrapu64 (sv_total429 s1 + 1),
                          sv_decisionDuration := duration_Observe (sv_decisionDuration s1) (ev_elapsed env)\<rparr>)
                      (f1\<lparr>fd_reservation := None\<rparr>) AnswerTooManyRequests
                    else (s1, FlowDecided f1))"

definition serveForward ::
  "httpLibrary \<Rightarrow> 's admissionServiceOps \<Rightarrow> flowEnv \<Rightarrow> 's proxyServer \<Rightarrow> flowData \<Rightarrow> 's proxyServer \<times> flow" where
  "serveForward lib ops env s f =
     (let marked = (case fd_reservation f of
            None \<Rightarrow> (sv_admission s, True)
          | Some h \<Rightarrow> op_MarkForwarded ops (sv_admission s) h (ev_now env));
          s1 = s\<lparr>sv_admission := fst marked\<rparr>
      in if \<not> snd marked then
           endServing ops env
             (s1\<lparr>sv_failedForward := wrapu64 (sv_failedForward s1 + 1),
                 sv_predictiveEnforcedRejects := (if sv_mode s1 = ''enforce''
                   then wrapu64 (sv_predictiveEnforcedRejects s1 + 1) else sv_predictiveEnforcedRejects s1),
                 sv_total429 := wrapu64 (sv_total429 s1 + 1),
                 sv_decisionDuration := duration_Observe (sv_decisionDuration s1) (ev_elapsed env)\<rparr>)
             (f\<lparr>fd_terminal := TerminalError\<rparr>) AnswerTooManyRequests
         else case writeSchedulingPriority lib s1 f of
           (s2, f1) \<Rightarrow>
             let cost = (if dr_TPSDecisionSubreason (ad_Record (fd_decision f1)) = TPSDecisionSubreasonWarmPrompt
                         then AdmittedAsWarm (fd_promptCost f1) (sv_warmPromptTokens s2) else fd_promptCost f1);
                 evidence = TrackPromptCost (fd_evidence f1) (cf_Prompt (fd_classification f1)) cost
             in (s2\<lparr>sv_decisionDuration := duration_Observe (sv_decisionDuration s2) (ev_elapsed env),
                     sv_backend := backend_Begin (sv_backend s2)\<rparr>,
                 FlowUpstream (f1\<lparr>fd_promptCost := cost, fd_evidence := evidence\<rparr>)))"

text \<open>
  While the request is upstream: the response arrives and its body is observed, its first byte passes,
  the usage of it is found, and its body ends (\<open>modifyBackendResponse\<close> and the readers it wraps).
\<close>

definition serveResponse ::
  "httpLibrary \<Rightarrow> 's proxyServer \<Rightarrow> flowData \<Rightarrow> upstreamResponse \<Rightarrow> 's proxyServer \<times> flow" where
  "serveResponse lib s f response =
     (let response1 = classifyUpstreamErrorResponse (hl_upstream lib) (sv_upstreamErrorClassificationEnabled s) response
      in (s, FlowUpstream (f\<lparr>fd_evidence := fst (WrapResponse (hl_parseMediaType lib) (fd_evidence f) response1)\<rparr>)))"

definition serveFirstByte ::
  "'s admissionServiceOps \<Rightarrow> flowEnv \<Rightarrow> 's proxyServer \<Rightarrow> flowData \<Rightarrow> 's proxyServer \<times> flow" where
  "serveFirstByte ops env s f =
     (case fd_reservation f of
        None \<Rightarrow> (s, FlowUpstream f)
      | Some h \<Rightarrow>
          if fd_first f then (s, FlowUpstream f)
          else (case op_MarkFirstByte ops (sv_admission s) h (ev_now env) of
                  (admission, ok) \<Rightarrow>
                    (s\<lparr>sv_admission := admission,
                       sv_failedFirstByte := (if ok then sv_failedFirstByte s else wrapu64 (sv_failedFirstByte s + 1))\<rparr>,
                     FlowUpstream (f\<lparr>fd_first := True\<rparr>))))"

definition serveUsage :: "'s proxyServer \<Rightarrow> flowData \<Rightarrow> CompletionUsageEvidence \<Rightarrow> 's proxyServer \<times> flow" where
  "serveUsage s f observation = (s, FlowUpstream (f\<lparr>fd_evidence := observe_usage (fd_evidence f) observation\<rparr>))"

definition serveBodyEnd ::
  "'s admissionServiceOps \<Rightarrow> flowEnv \<Rightarrow> 's proxyServer \<Rightarrow> flowData \<Rightarrow> int \<Rightarrow> 's proxyServer \<times> flow" where
  "serveBodyEnd ops env s f status =
     (case fd_reservation f of
        None \<Rightarrow> (s, FlowUpstream f)
      | Some h \<Rightarrow>
          if fd_complete f \<or> \<not> (status \<ge> 200 \<and> status < 300) then (s, FlowUpstream f)
          else if ev_ctxDone env then (s, FlowUpstream (f\<lparr>fd_complete := True\<rparr>))
          else (case op_Terminate ops (sv_admission s) h TerminalSuccess (ev_now env) of
                  (admission, ok) \<Rightarrow>
                    (s\<lparr>sv_admission := admission,
                       sv_failedTerminal := (if ok then sv_failedTerminal s else wrapu64 (sv_failedTerminal s + 1))\<rparr>,
                     FlowUpstream (f\<lparr>fd_complete := True\<rparr>))))"

text \<open>The error handler of the reverse proxy: the client is told to come back, unless it is gone.\<close>

definition serveUpstreamError :: "flowEnv \<Rightarrow> 's proxyServer \<Rightarrow> flowData \<Rightarrow> 's proxyServer \<times> flow" where
  "serveUpstreamError env s f =
     (case recordClientDisconnect (sv_clientDisconnects s) (fd_recorded f) (ev_clientGone env) ''upstream'' True of
        (d, recorded, gone) \<Rightarrow>
          (if gone then s\<lparr>sv_clientDisconnects := d\<rparr>
           else s\<lparr>sv_clientDisconnects := d, sv_backend := ObserveProxyError (sv_backend s)\<rparr>,
           FlowUpstream (f\<lparr>fd_recorded := recorded\<rparr>)))"

text \<open>The reverse proxy has left, and the handler ends.\<close>

definition serveFinish ::
  "'s admissionServiceOps \<Rightarrow> flowEnv \<Rightarrow> 's proxyServer \<Rightarrow> flowData \<Rightarrow> proxyEnd \<Rightarrow> 's proxyServer \<times> flow" where
  "serveFinish ops env s f served =
     (case proxyRequest (sv_clientDisconnects s, fd_recorded f) served of
        ((d, recorded), outcome) \<Rightarrow>
          let s1 = s\<lparr>sv_clientDisconnects := d, sv_backend := backend_done (sv_backend s)\<rparr>;
              f1 = f\<lparr>fd_recorded := recorded\<rparr>
          in (case outcome of
                None \<Rightarrow> endServing ops env s1 f1 AnswerAborted
              | Some result \<Rightarrow>
                  (case responseUsage_Complete (sv_responseUsageEvidence s1, sv_promptCost s1) (fd_evidence f1) result of
                     ((usage, estimator), evidence) \<Rightarrow>
                       (case observeProxyResult (sv_proxyTotal s1, sv_proxyTTFB s1) result of
                          (proxyTotal, proxyTTFB) \<Rightarrow>
                            endServing ops env
                              (s1\<lparr>sv_responseUsageEvidence := usage, sv_promptCost := estimator,
                                  sv_proxyTotal := proxyTotal, sv_proxyTTFB := proxyTTFB,
                                  sv_internalOverhead := observeInternalOverhead (sv_internalOverhead s1)
                                    (ev_elapsed env) 0 (pr_total result)\<rparr>)
                              (f1\<lparr>fd_evidence := evidence, fd_terminal := admissionTerminalCause result\<rparr>)
                              (AnswerProxied result)))))"

subsection \<open>Requests side by side\<close>

text \<open>A step of one request, and the steps of many in any order, with the rest of the service's clients.\<close>

inductive flow_step ::
  "httpLibrary \<Rightarrow> 's admissionServiceOps \<Rightarrow> 's proxyServer \<Rightarrow> flow \<Rightarrow> 's proxyServer \<Rightarrow> flow \<Rightarrow> bool"
  for lib ops where
  classify: "serveClassify lib ops env s r headers = (s', x) \<Longrightarrow> flow_step lib ops s (FlowArrived r headers) s' x"
| decide: "serveDecide ops env s f = (s', x) \<Longrightarrow> flow_step lib ops s (FlowClassified f) s' x"
| forward: "serveForward lib ops env s f = (s', x) \<Longrightarrow> flow_step lib ops s (FlowDecided f) s' x"
| response: "serveResponse lib s f response = (s', x) \<Longrightarrow> flow_step lib ops s (FlowUpstream f) s' x"
| firstByte: "serveFirstByte ops env s f = (s', x) \<Longrightarrow> flow_step lib ops s (FlowUpstream f) s' x"
| usage: "serveUsage s f observation = (s', x) \<Longrightarrow> flow_step lib ops s (FlowUpstream f) s' x"
| bodyEnd: "serveBodyEnd ops env s f status = (s', x) \<Longrightarrow> flow_step lib ops s (FlowUpstream f) s' x"
| upstreamError: "serveUpstreamError env s f = (s', x') \<Longrightarrow> flow_step lib ops s (FlowUpstream f) s' x'"
| finish: "serveFinish ops env s f served = (s', x) \<Longrightarrow> flow_step lib ops s (FlowUpstream f) s' x"

inductive server_step ::
  "httpLibrary \<Rightarrow> 's admissionServiceOps \<Rightarrow> ('s \<Rightarrow> 's \<Rightarrow> bool) \<Rightarrow> 's proxyServer \<times> flow list \<Rightarrow> 's proxyServer \<times> flow list \<Rightarrow> bool"
  for lib ops other where
  arrives: "server_step lib ops other (s, flows) (s, flows @ [FlowArrived r headers])"
| moves: "flow_step lib ops s x s' x' \<Longrightarrow> server_step lib ops other (s, xs @ x # ys) (s', xs @ x' # ys)"
| background: "other (sv_admission s) a \<Longrightarrow> server_step lib ops other (s, flows) (s\<lparr>sv_admission := a\<rparr>, flows)"

inductive_cases flow_stepE [elim]: "flow_step lib ops s x s' x'"
inductive_cases finished_stepE: "flow_step lib ops s (FlowFinished f a) s' x'"

end
