(* ===== verification/RequestFlow_Safety.thy ===== *)
theory RequestFlow_Safety
  imports RequestFlow Classify_Correct Scenario
begin

text \<open>
  What holds of requests side by side: each step of a request gives back what it took. No reservation
  is open that no unfinished request holds, no byte of the body budget is taken that no unfinished
  request keeps, every request is counted once where it is classified and once where it ends, and in
  enforce mode only admitted requests are forwarded. The reservations are followed in a locale for any
  service that keeps the contract of \<open>Service\<close>; the runtime is an instance.
\<close>

subsection \<open>What a request holds\<close>

fun heldBy :: "flow \<Rightarrow> ReservationHandle set" where
  "heldBy (FlowDecided f) = set_option (fd_reservation f)"
| "heldBy (FlowUpstream f) = set_option (fd_reservation f)"
| "heldBy _ = {}"

fun leaseOf :: "flow \<Rightarrow> int list" where
  "leaseOf (FlowArrived r headers) = []"
| "leaseOf (FlowClassified f) = (case fd_lease f of None \<Rightarrow> [] | Some b \<Rightarrow> [b])"
| "leaseOf (FlowDecided f) = (case fd_lease f of None \<Rightarrow> [] | Some b \<Rightarrow> [b])"
| "leaseOf (FlowUpstream f) = (case fd_lease f of None \<Rightarrow> [] | Some b \<Rightarrow> [b])"
| "leaseOf (FlowFinished f answer) = []"

fun isFinished :: "flow \<Rightarrow> bool" where
  "isFinished (FlowFinished f answer) = True"
| "isFinished _ = False"

fun isArrived :: "flow \<Rightarrow> bool" where
  "isArrived (FlowArrived r headers) = True"
| "isArrived _ = False"

fun isRefused :: "flow \<Rightarrow> bool" where
  "isRefused (FlowFinished f AnswerTooManyRequests) = True"
| "isRefused _ = False"

text \<open>The request has been sent to the backend.\<close>

fun isForwarded :: "flow \<Rightarrow> flowData option" where
  "isForwarded (FlowUpstream f) = Some f"
| "isForwarded (FlowFinished f (AnswerProxied result)) = Some f"
| "isForwarded (FlowFinished f AnswerAborted) = Some f"
| "isForwarded _ = None"

fun flow_ok :: "string \<Rightarrow> flow \<Rightarrow> bool" where
  "flow_ok mode (FlowArrived r headers) = True"
| "flow_ok mode (FlowClassified f) = (\<not> rq_completed (fd_evidence f) \<and> fd_reservation f = None \<and>
     fd_terminal f = TerminalCancel)"
| "flow_ok mode (FlowDecided f) = (\<not> rq_completed (fd_evidence f) \<and> fd_terminal f = TerminalCancel \<and>
     (mode = ''enforce'' \<longrightarrow> Admitted (ad_Record (fd_decision f))))"
| "flow_ok mode (FlowUpstream f) = (\<not> rq_completed (fd_evidence f) \<and> fd_terminal f = TerminalCancel \<and>
     (mode = ''enforce'' \<longrightarrow> Admitted (ad_Record (fd_decision f))))"
| "flow_ok mode (FlowFinished f answer) = (rq_completed (fd_evidence f) \<and> fd_lease f = None \<and>
     (mode = ''enforce'' \<and> isForwarded (FlowFinished f answer) \<noteq> None \<longrightarrow> Admitted (ad_Record (fd_decision f))))"

subsection \<open>Counting\<close>

lemma usage_outcome_UNIV: "(UNIV :: responseUsageEvidenceOutcome set) = {responseUsageEvidenceAvailable,
    responseUsageEvidenceUnavailable, responseUsageEvidenceMalformed, responseUsageEvidenceCensored,
    responseUsageEvidenceOutcomeCount}"
  using responseUsageEvidenceOutcome.exhaust by blast

lemma classifier_outcome_UNIV: "(UNIV :: classifierEvidenceOutcome set) = {classifierEvidenceSupported,
    classifierEvidenceBodyNotScannable, classifierEvidenceBodyTooLarge, classifierEvidenceUnsupportedContentType,
    classifierEvidenceSaturated, classifierEvidenceBodyReadFailed, classifierEvidenceInvalidJSON,
    classifierEvidenceUnsupportedRequestShape, classifierEvidenceShapeScanLimit, classifierEvidenceUnsupportedEndpoint,
    classifierEvidenceUnknown}"
  using classifierEvidenceOutcome.exhaust by blast

instantiation responseUsageEvidenceOutcome :: finite
begin
instance by standard (simp add: usage_outcome_UNIV)
end

instantiation classifierEvidenceOutcome :: finite
begin
instance by standard (simp add: classifier_outcome_UNIV)
end

definition totalOf :: "('a :: finite \<Rightarrow> nat) \<Rightarrow> nat" where
  "totalOf counters = (\<Sum>i\<in>UNIV. counters i)"

lemma increment_total:
  assumes "totalOf counters < MaxUint64"
  shows "totalOf (increment counters i) = totalOf counters + 1"
proof -
  have "counters i \<le> totalOf counters" unfolding totalOf_def by (rule member_le_sum) simp_all
  then have w: "wrapu64 (counters i + 1) = counters i + 1" using assms by simp
  have "totalOf (increment counters i) = counters i + 1 + (\<Sum>j\<in>UNIV - {i}. counters j)"
    unfolding totalOf_def increment_def w by (subst sum.remove [of UNIV i]) simp_all
  also have "\<dots> = totalOf counters + 1"
    unfolding totalOf_def by (subst sum.remove [of UNIV i]) simp_all
  finally show ?thesis .
qed

lemma record_total:
  "totalOf (rx_outcomes u) < MaxUint64 \<Longrightarrow>
     totalOf (rx_outcomes (responseUsage_record u tier outcome actual tokens)) = totalOf (rx_outcomes u) + 1"
  by (simp add: responseUsage_record_def Let_def increment_total)

lemma complete_evidence:
  assumes "responseUsage_Complete (u, e) r result = ((u', e'), r')" "totalOf (rx_outcomes u) < MaxUint64"
  shows "rq_completed r' \<and> (if rq_completed r then u' = u else totalOf (rx_outcomes u') = totalOf (rx_outcomes u) + 1)"
  using assms by (auto simp: responseUsage_Complete_def Let_def record_total split: if_splits prod.splits)

lemma censor_evidence:
  assumes "responseUsage_Censor u r = (u', r')" "totalOf (rx_outcomes u) < MaxUint64"
  shows "rq_completed r' \<and> (if rq_completed r then u' = u else totalOf (rx_outcomes u') = totalOf (rx_outcomes u) + 1)"
  using assms by (auto simp: responseUsage_Censor_def record_total split: if_splits)

text \<open>Leaving, as far as it does not concern the reservation.\<close>

lemma leave_facts:
  assumes "endServing ops env s f answer = (s', x')"
  shows "\<exists>evidence lease. x' = FlowFinished (f\<lparr>fd_evidence := evidence, fd_lease := lease\<rparr>) answer \<and> lease = None \<and>
      responseUsage_Censor (sv_responseUsageEvidence s) (fd_evidence f) = (sv_responseUsageEvidence s', evidence)"
    and "sv_requestClassifier s' = fst (preserving_Close (sv_requestClassifier s) (fd_lease f))"
    and "sv_admission s' = (case fd_reservation f of None \<Rightarrow> sv_admission s
          | Some h \<Rightarrow> fst (op_Terminate ops (sv_admission s) h (fd_terminal f) (ev_now env)))"
    and "sv_mode s' = sv_mode s" "sv_requestEvidence s' = sv_requestEvidence s" "sv_total429 s' = sv_total429 s"
  using assms by (auto simp: endServing_def preserving_Close_def Let_def split: prod.splits option.splits)

definition counts :: "'s proxyServer \<Rightarrow> nat \<times> nat \<times> nat" where
  "counts s = (totalOf (qe_classifierOutcomes (sv_requestEvidence s)), totalOf (rx_outcomes (sv_responseUsageEvidence s)),
     sv_total429 s)"

lemma priority_facts:
  "sv_requestEvidence (fst (writeSchedulingPriority lib s f)) = sv_requestEvidence s"
  "sv_responseUsageEvidence (fst (writeSchedulingPriority lib s f)) = sv_responseUsageEvidence s"
  "sv_total429 (fst (writeSchedulingPriority lib s f)) = sv_total429 s"
  "sv_mode (fst (writeSchedulingPriority lib s f)) = sv_mode s"
  "sv_admission (fst (writeSchedulingPriority lib s f)) = sv_admission s"
  "sv_requestClassifier (fst (writeSchedulingPriority lib s f)) = sv_requestClassifier s"
  "fd_lease (snd (writeSchedulingPriority lib s f)) = fd_lease f"
  "fd_evidence (snd (writeSchedulingPriority lib s f)) = fd_evidence f"
  "fd_decision (snd (writeSchedulingPriority lib s f)) = fd_decision f"
  "fd_reservation (snd (writeSchedulingPriority lib s f)) = fd_reservation f"
  "fd_terminal (snd (writeSchedulingPriority lib s f)) = fd_terminal f"
  by (simp_all add: writeSchedulingPriority_def Let_def split: schedulingResult.split)

lemma evidence_kept [simp]:
  "rq_completed (TrackPromptCost r p c) = rq_completed r" "rq_completed (fst (WrapResponse pm r response)) = rq_completed r"
  "rq_completed (observe_usage r ob) = rq_completed r" "\<not> rq_completed (responseUsage_Begin cls path tier)"
  by (simp_all add: TrackPromptCost_def WrapResponse_def observe_usage_def responseUsage_Begin_def
      split: option.split prod.split)

text \<open>The step of a request on its own variables and on the counters.\<close>

lemma leave_counts:
  assumes "endServing ops env s f answer = (s', x')" "totalOf (rx_outcomes (sv_responseUsageEvidence s)) < MaxUint64"
  shows "counts s' = (fst (counts s), fst (snd (counts s)) + (if rq_completed (fd_evidence f) then 0 else 1), sv_total429 s)"
    and "\<exists>f'. x' = FlowFinished f' answer \<and> rq_completed (fd_evidence f') \<and> fd_lease f' = None \<and>
      fd_decision f' = fd_decision f"
proof -
  obtain evidence where x: "x' = FlowFinished (f\<lparr>fd_evidence := evidence, fd_lease := None\<rparr>) answer"
    and c: "responseUsage_Censor (sv_responseUsageEvidence s) (fd_evidence f) = (sv_responseUsageEvidence s', evidence)"
    using leave_facts(1) [OF assms(1)] by blast
  note e = censor_evidence [OF c assms(2)]
  show "counts s' = (fst (counts s), fst (snd (counts s)) + (if rq_completed (fd_evidence f) then 0 else 1), sv_total429 s)"
    using e leave_facts(5,6) [OF assms(1)] by (simp add: counts_def)
  show "\<exists>f'. x' = FlowFinished f' answer \<and> rq_completed (fd_evidence f') \<and> fd_lease f' = None \<and> fd_decision f' = fd_decision f"
    using e x by simp
qed

subsection \<open>A step of one request\<close>

lemma cause_valid [simp]: "TerminalCause_valid (admissionTerminalCause result)"
  by (simp add: admissionTerminalCause_def)

text \<open>What each handler does to the shared counters and to the classifier, and how the request stands after it.\<close>

definition moved :: "flow \<Rightarrow> 's proxyServer \<Rightarrow> 's proxyServer \<Rightarrow> flow \<Rightarrow> bool" where
  "moved x s s' x' \<longleftrightarrow> sv_mode s' = sv_mode s \<and> flow_ok (sv_mode s) x' \<and>
     fst (counts s') = fst (counts s) + (if isArrived x then 1 else 0) \<and>
     fst (snd (counts s')) = fst (snd (counts s)) + (if isFinished x' then 1 else 0) \<and>
     snd (snd (counts s')) = snd (snd (counts s)) + (if isRefused x' then 1 else 0) \<and>
     \<not> isArrived x' \<and>
     (\<forall>kept. classifier_step\<^sup>*\<^sup>* (sv_requestClassifier s, [], leaseOf x @ kept) (sv_requestClassifier s', [], leaseOf x' @ kept))"

definition leaseList :: "int option \<Rightarrow> int list" where
  "leaseList lease = (case lease of None \<Rightarrow> [] | Some b \<Rightarrow> [b])"

lemma leaseOf_active [simp]:
  "leaseOf (FlowClassified f) = leaseList (fd_lease f)" "leaseOf (FlowDecided f) = leaseList (fd_lease f)"
  "leaseOf (FlowUpstream f) = leaseList (fd_lease f)"
  by (simp_all add: leaseList_def)

declare leaseOf.simps(2-4) [simp del]

lemma close_run: "classifier_step\<^sup>*\<^sup>* (c, scanning, leaseList lease @ kept) (fst (preserving_Close c lease), scanning, kept)"
proof (cases lease)
  case None
  then show ?thesis by (simp add: leaseList_def preserving_Close_def)
next
  case (Some b)
  then show ?thesis using closes [of c scanning "[]" b kept] by (simp add: leaseList_def)
qed

text \<open>Leaving, after the counters of the caller.\<close>

lemma leave_moved:
  assumes "endServing ops env s1 f answer = (s', x')" "totalOf (rx_outcomes (sv_responseUsageEvidence s1)) < MaxUint64"
    and "sv_mode s1 = sv_mode s" "\<not> rq_completed (fd_evidence f)"
    and "counts s1 = (fst (counts s) + (if isArrived x then 1 else 0), fst (snd (counts s)),
       snd (snd (counts s)) + (if answer = AnswerTooManyRequests then 1 else 0))"
    and "sv_mode s = ''enforce'' \<Longrightarrow> answer \<noteq> AnswerTooManyRequests \<Longrightarrow> answer \<noteq> AnswerInvalidJSON \<Longrightarrow> Admitted (ad_Record (fd_decision f))"
    and "\<And>kept. classifier_step\<^sup>*\<^sup>* (sv_requestClassifier s, [], leaseOf x @ kept) (sv_requestClassifier s1, [], leaseList (fd_lease f) @ kept)"
  shows "moved x s s' x'"
proof -
  obtain f' where x': "x' = FlowFinished f' answer" "rq_completed (fd_evidence f')" "fd_lease f' = None" "fd_decision f' = fd_decision f"
    using leave_counts(2) [OF assms(1,2)] by blast
  have "isRefused (FlowFinished f' answer) \<longleftrightarrow> answer = AnswerTooManyRequests" by (cases answer) simp_all
  moreover have "isForwarded (FlowFinished f' answer) \<noteq> None \<Longrightarrow> answer \<noteq> AnswerTooManyRequests \<and> answer \<noteq> AnswerInvalidJSON"
    by (cases answer) simp_all
  moreover have "classifier_step\<^sup>*\<^sup>* (sv_requestClassifier s, [], leaseOf x @ kept) (sv_requestClassifier s', [], kept)" for kept
    using rtranclp_trans [OF assms(7) close_run [of "sv_requestClassifier s1" "[]" "fd_lease f" kept]] leave_facts(2) [OF assms(1)] by simp
  ultimately show ?thesis
    using leave_counts(1) [OF assms(1,2)] leave_facts(4) [OF assms(1)] assms(3-6) x' by (auto simp: moved_def counts_def)
qed

lemma stays_moved:
  assumes "sv_mode s' = sv_mode s" "flow_ok (sv_mode s) x'" "counts s' = counts s" "\<not> isFinished x'" "\<not> isArrived x'" "\<not> isArrived x"
    "sv_requestClassifier s' = sv_requestClassifier s" "leaseOf x' = leaseOf x"
  shows "moved x s s' x'"
  using assms by (cases x') (simp_all add: moved_def)

lemma classify_moved:
  assumes "serveClassify lib ops env s r headers = (s', x')"
    and "totalOf (qe_classifierOutcomes (sv_requestEvidence s)) < MaxUint64"
    and "totalOf (rx_outcomes (sv_responseUsageEvidence s)) < MaxUint64"
  shows "moved (FlowArrived r headers) s s' x'"
proof -
  obtain classifier r1 lease cls problem where c: "classifyJSONFields (hl_parseMediaType lib) (hl_jsonValid lib) (hl_contextBytes lib)
      (ev_read env) (ev_scan env) (sv_requestClassifier s) r = (classifier, r1, lease, cls, problem)"
    by (metis prod.exhaust)
  have run: "classifier_step\<^sup>*\<^sup>* (sv_requestClassifier s, [], kept) (classifier, [], leaseList lease @ kept)" for kept
    using classify_run [OF c] by (simp add: leaseList_def)
  have t: "totalOf (qe_classifierOutcomes (requestEvidence_Record e cls')) = totalOf (qe_classifierOutcomes e) + 1"
    if "totalOf (qe_classifierOutcomes e) < MaxUint64" for e cls'
    using that by (simp add: requestEvidence_Record_def increment_total)
  show ?thesis
  proof (cases problem)
    case None
    then show ?thesis using assms run
      by (auto simp: serveClassify_def c Let_def moved_def counts_def t)
  next
    case (Some reason)
    show ?thesis
      using assms(1) unfolding serveClassify_def c Some prod.case Let_def option.case
      by (rule leave_moved) (use assms(2,3) run in \<open>simp_all add: counts_def t\<close>)
  qed
qed

lemma decide_moved:
  assumes "serveDecide ops env s f = (s', x')" "flow_ok (sv_mode s) (FlowClassified f)"
    and "totalOf (rx_outcomes (sv_responseUsageEvidence s)) < MaxUint64" "sv_total429 s < MaxUint64"
  shows "moved (FlowClassified f) s s' x'"
proof -
  obtain estimator cost where e: "Estimate (sv_promptCost s) (cf_Prompt (fd_classification f))
      (int (admissionEvidenceTierIndex (fd_tier f))) = (estimator, cost)" by fastforce
  define demand where "demand = (let demand0 = WithTier (tpsDemandForClassification (fd_classification f)) (fd_tier f)
    in if pc_known cost then WithPrefillTokens demand0 (pc_uncachedTokens cost) else demand0)"
  obtain admission failures decision where d: "decideAdmission (\<lambda>a h c. op_Terminate ops a h c (ev_now env))
      (\<lambda>a d. op_Decide ops a (ev_ctxDone env) (ev_now env) (ev_elapsed env) d) (sv_admission s, sv_failedDecide s) demand =
      ((admission, failures), decision)" by (metis prod.exhaust)
  note eq = assms(1) [unfolded serveDecide_def e prod.case Let_def, folded demand_def [unfolded Let_def], unfolded d prod.case]
  show ?thesis
  proof (cases "sv_mode s = ''enforce'' \<and> \<not> Admitted (ad_Record decision)")
    case True
    with eq have l: "endServing ops env
        (s\<lparr>sv_promptCost := estimator, sv_admission := admission, sv_failedDecide := failures,
          sv_predictiveEnforcedRejects := wrapu64 (sv_predictiveEnforcedRejects s + 1), sv_total429 := wrapu64 (sv_total429 s + 1),
          sv_decisionDuration := duration_Observe (sv_decisionDuration s) (ev_elapsed env)\<rparr>)
        (f\<lparr>fd_promptCost := cost, fd_decision := decision, fd_reservation := None\<rparr>) AnswerTooManyRequests = (s', x')"
      by simp
    show ?thesis by (rule leave_moved [OF l]) (use assms(2-4) in \<open>simp_all add: counts_def\<close>)
  next
    case False
    with eq have "s' = s\<lparr>sv_promptCost := estimator, sv_admission := admission, sv_failedDecide := failures\<rparr>"
        "x' = FlowDecided (f\<lparr>fd_promptCost := cost, fd_decision := decision, fd_reservation := ad_Reservation decision\<rparr>)"
      by (auto split: if_splits)
    then show ?thesis using False assms(2) by (intro stays_moved) (auto simp: counts_def)
  qed
qed

text \<open>Marking a request as forwarded, which the service may refuse.\<close>

definition marked :: "'s admissionServiceOps \<Rightarrow> flowEnv \<Rightarrow> 's \<Rightarrow> ReservationHandle option \<Rightarrow> 's \<times> bool" where
  "marked ops env a reservation =
     (case reservation of None \<Rightarrow> (a, True) | Some h \<Rightarrow> op_MarkForwarded ops a h (ev_now env))"

lemma serveForward_cases:
  assumes "serveForward lib ops env s f = (s', x')"
  obtains (refused) s1 where "\<not> snd (marked ops env (sv_admission s) (fd_reservation f))"
      "endServing ops env s1 (f\<lparr>fd_terminal := TerminalError\<rparr>) AnswerTooManyRequests = (s', x')"
      "sv_admission s1 = fst (marked ops env (sv_admission s) (fd_reservation f))" "sv_mode s1 = sv_mode s"
      "counts s1 = (fst (counts s), fst (snd (counts s)), wrapu64 (sv_total429 s + 1))"
      "sv_requestClassifier s1 = sv_requestClassifier s" "sv_responseUsageEvidence s1 = sv_responseUsageEvidence s"
  | (sent) f' where "x' = FlowUpstream f'" "fd_lease f' = fd_lease f" "fd_decision f' = fd_decision f"
      "fd_reservation f' = fd_reservation f" "fd_terminal f' = fd_terminal f"
      "rq_completed (fd_evidence f') = rq_completed (fd_evidence f)"
      "sv_admission s' = fst (marked ops env (sv_admission s) (fd_reservation f))"
      "sv_mode s' = sv_mode s" "counts s' = counts s" "sv_requestClassifier s' = sv_requestClassifier s"
proof (cases "snd (marked ops env (sv_admission s) (fd_reservation f))")
  case False
  with assms show ?thesis
    by (intro refused [OF False, of "s\<lparr>sv_admission := fst (marked ops env (sv_admission s) (fd_reservation f)),
          sv_failedForward := wrapu64 (sv_failedForward s + 1),
          sv_predictiveEnforcedRejects := (if sv_mode s = ''enforce''
            then wrapu64 (sv_predictiveEnforcedRejects s + 1) else sv_predictiveEnforcedRejects s),
          sv_total429 := wrapu64 (sv_total429 s + 1),
          sv_decisionDuration := duration_Observe (sv_decisionDuration s) (ev_elapsed env)\<rparr>"];
        cases "sv_mode s = ''enforce''"; simp add: serveForward_def Let_def counts_def marked_def)
next
  case True
  define s1 where "s1 = s\<lparr>sv_admission := fst (marked ops env (sv_admission s) (fd_reservation f))\<rparr>"
  obtain s2 f1 where w: "writeSchedulingPriority lib s1 f = (s2, f1)" by fastforce
  note p = priority_facts [of lib s1 f, unfolded w fst_conv snd_conv]
  have w': "writeSchedulingPriority lib (s\<lparr>sv_admission := fst (case fd_reservation f of None \<Rightarrow> (sv_admission s, True)
      | Some h \<Rightarrow> op_MarkForwarded ops (sv_admission s) h (ev_now env))\<rparr>) f = (s2, f1)"
    using w by (simp add: s1_def marked_def)
  define cost where "cost = (if dr_TPSDecisionSubreason (ad_Record (fd_decision f1)) = TPSDecisionSubreasonWarmPrompt
      then AdmittedAsWarm (fd_promptCost f1) (sv_warmPromptTokens s2) else fd_promptCost f1)"
  define f2 where "f2 = f1\<lparr>fd_promptCost := cost,
      fd_evidence := TrackPromptCost (fd_evidence f1) (cf_Prompt (fd_classification f1)) cost\<rparr>"
  have "s' = s2\<lparr>sv_decisionDuration := duration_Observe (sv_decisionDuration s2) (ev_elapsed env),
      sv_backend := backend_Begin (sv_backend s2)\<rparr>" "x' = FlowUpstream f2"
    using assms True w' by (auto simp: serveForward_def Let_def marked_def cost_def f2_def)
  then show ?thesis
    using p by (intro sent [of f2]) (simp_all add: f2_def s1_def counts_def)
qed

lemma forward_moved:
  assumes "serveForward lib ops env s f = (s', x')" "flow_ok (sv_mode s) (FlowDecided f)"
    and "totalOf (rx_outcomes (sv_responseUsageEvidence s)) < MaxUint64" "sv_total429 s < MaxUint64"
  shows "moved (FlowDecided f) s s' x'"
  using assms(1)
proof (cases rule: serveForward_cases)
  case (refused s1)
  show ?thesis by (rule leave_moved [OF refused(2)]) (use assms(2-4) refused(4-7) in \<open>simp_all add: counts_def\<close>)
next
  case (sent f')
  then show ?thesis using assms(2) by (intro stays_moved) simp_all
qed

text \<open>The handlers of the response.\<close>

lemma upstream_cases:
  assumes "serveResponse lib s f response = (s', x') \<or> serveFirstByte ops env s f = (s', x') \<or>
     serveUsage s f observation = (s', x') \<or> serveBodyEnd ops env s f status = (s', x') \<or>
     serveUpstreamError env s f = (s', x')"
  obtains f' where "x' = FlowUpstream f'" "fd_lease f' = fd_lease f" "fd_decision f' = fd_decision f"
    "fd_reservation f' = fd_reservation f" "fd_terminal f' = fd_terminal f"
    "rq_completed (fd_evidence f') = rq_completed (fd_evidence f)"
    "sv_mode s' = sv_mode s" "counts s' = counts s" "sv_requestClassifier s' = sv_requestClassifier s"
    "sv_admission s' = sv_admission s \<or>
      (\<exists>h. sv_admission s' = fst (op_MarkFirstByte ops (sv_admission s) h (ev_now env))) \<or>
      (\<exists>h. sv_admission s' = fst (op_Terminate ops (sv_admission s) h TerminalSuccess (ev_now env)))"
proof -
  have "\<exists>f'. x' = FlowUpstream f' \<and> fd_lease f' = fd_lease f \<and> fd_decision f' = fd_decision f \<and>
      fd_reservation f' = fd_reservation f \<and> fd_terminal f' = fd_terminal f \<and>
      rq_completed (fd_evidence f') = rq_completed (fd_evidence f) \<and>
      sv_mode s' = sv_mode s \<and> counts s' = counts s \<and> sv_requestClassifier s' = sv_requestClassifier s \<and>
      (sv_admission s' = sv_admission s \<or>
       (\<exists>h. sv_admission s' = fst (op_MarkFirstByte ops (sv_admission s) h (ev_now env))) \<or>
       (\<exists>h. sv_admission s' = fst (op_Terminate ops (sv_admission s) h TerminalSuccess (ev_now env))))"
    using assms
  proof (elim disjE)
    assume "serveFirstByte ops env s f = (s', x')"
    then show ?thesis
      by (cases "fd_reservation f"; cases "fd_first f"; cases "op_MarkFirstByte ops (sv_admission s) (the (fd_reservation f)) (ev_now env)")
         (auto simp: serveFirstByte_def counts_def, metis fst_conv)
  next
    assume "serveBodyEnd ops env s f status = (s', x')"
    then show ?thesis
      by (cases "fd_reservation f"; cases "op_Terminate ops (sv_admission s) (the (fd_reservation f)) TerminalSuccess (ev_now env)")
         (auto simp: serveBodyEnd_def counts_def split: if_splits, (metis fst_conv)+)
  next
    assume "serveUpstreamError env s f = (s', x')"
    then show ?thesis by (auto simp: serveUpstreamError_def counts_def split: prod.splits if_splits)
  qed (auto simp: serveResponse_def serveUsage_def Let_def)
  then show ?thesis using that by blast
qed

lemma finish_cases:
  assumes "serveFinish ops env s f served = (s', x')" "totalOf (rx_outcomes (sv_responseUsageEvidence s)) < MaxUint64"
    and "\<not> rq_completed (fd_evidence f)"
  obtains (aborted) s1 f1 where "endServing ops env s1 f1 AnswerAborted = (s', x')"
      "fd_evidence f1 = fd_evidence f" "fd_lease f1 = fd_lease f" "fd_decision f1 = fd_decision f"
      "fd_reservation f1 = fd_reservation f" "fd_terminal f1 = fd_terminal f"
      "sv_mode s1 = sv_mode s" "sv_admission s1 = sv_admission s" "sv_requestClassifier s1 = sv_requestClassifier s"
      "counts s1 = counts s" "sv_responseUsageEvidence s1 = sv_responseUsageEvidence s"
  | (ended) result s1 f1 where "endServing ops env s1 f1 (AnswerProxied result) = (s', x')"
      "rq_completed (fd_evidence f1)" "fd_lease f1 = fd_lease f" "fd_decision f1 = fd_decision f"
      "fd_reservation f1 = fd_reservation f" "fd_terminal f1 = admissionTerminalCause result"
      "sv_mode s1 = sv_mode s" "sv_admission s1 = sv_admission s" "sv_requestClassifier s1 = sv_requestClassifier s"
      "counts s1 = (fst (counts s), fst (snd (counts s)) + 1, sv_total429 s)"
proof -
  obtain d recorded outcome where p: "proxyRequest (sv_clientDisconnects s, fd_recorded f) served = ((d, recorded), outcome)"
    by (metis prod.exhaust)
  let ?s = "s\<lparr>sv_clientDisconnects := d, sv_backend := backend_done (sv_backend s)\<rparr>"
  let ?f = "f\<lparr>fd_recorded := recorded\<rparr>"
  show thesis
  proof (cases outcome)
    case None
    then show thesis using assms(1) by (intro aborted [of ?s ?f]) (simp_all add: serveFinish_def p counts_def)
  next
    case (Some result)
    obtain usage estimator evidence where c: "responseUsage_Complete (sv_responseUsageEvidence s, sv_promptCost s) (fd_evidence f) result =
        ((usage, estimator), evidence)" by (metis prod.exhaust)
    obtain proxyTotal proxyTTFB where o: "observeProxyResult (sv_proxyTotal s, sv_proxyTTFB s) result = (proxyTotal, proxyTTFB)"
      by fastforce
    note e = complete_evidence [OF c assms(2)]
    show thesis
      using assms(1,3) e
      by (intro ended [of "?s\<lparr>sv_responseUsageEvidence := usage, sv_promptCost := estimator,
              sv_proxyTotal := proxyTotal, sv_proxyTTFB := proxyTTFB,
              sv_internalOverhead := observeInternalOverhead (sv_internalOverhead s) (ev_elapsed env) 0 (pr_total result)\<rparr>"
            "?f\<lparr>fd_evidence := evidence, fd_terminal := admissionTerminalCause result\<rparr>" result])
         (simp_all add: serveFinish_def p Some c o counts_def Let_def)
  qed
qed

lemma flow_step_moved:
  assumes "flow_step lib ops s x s' x'" "flow_ok (sv_mode s) x"
    and "totalOf (qe_classifierOutcomes (sv_requestEvidence s)) < MaxUint64 \<or> \<not> isArrived x"
    and "totalOf (rx_outcomes (sv_responseUsageEvidence s)) < MaxUint64" "sv_total429 s < MaxUint64"
  shows "moved x s s' x'"
proof -
  have up: "moved (FlowUpstream f) s s' x'"
    if "serveResponse lib s f response = (s', x') \<or> serveFirstByte ops env s f = (s', x') \<or>
      serveUsage s f observation = (s', x') \<or> serveBodyEnd ops env s f status = (s', x') \<or>
      serveUpstreamError env s f = (s', x')" "x = FlowUpstream f"
    for f env response observation status
    using that(1)
  proof (cases rule: upstream_cases)
    case (1 f')
    then show ?thesis using assms(2) that(2) by (intro stays_moved) simp_all
  qed
  from assms(1) show ?thesis
  proof (cases rule: flow_step.cases)
    case (finish env f served)
    have ok: "\<not> rq_completed (fd_evidence f)" "sv_mode s = ''enforce'' \<longrightarrow> Admitted (ad_Record (fd_decision f))"
      using assms(2) finish(1) by simp_all
    from finish(2) assms(4) ok(1) show ?thesis
    proof (cases rule: finish_cases)
      case aborted
      show ?thesis unfolding finish(1)
        by (rule leave_moved [OF aborted(1)]) (use assms(4) ok aborted(2-) in \<open>simp_all add: counts_def\<close>)
    next
      case (ended result s1 f1)
      obtain evidence where x: "x' = FlowFinished (f1\<lparr>fd_evidence := evidence, fd_lease := None\<rparr>) (AnswerProxied result)"
        and c: "responseUsage_Censor (sv_responseUsageEvidence s1) (fd_evidence f1) = (sv_responseUsageEvidence s', evidence)"
        using leave_facts(1) [OF ended(1)] by blast
      have e: "sv_responseUsageEvidence s' = sv_responseUsageEvidence s1" "evidence = fd_evidence f1"
        using c ended(2) by (simp_all add: responseUsage_Censor_def)
      then have "counts s' = counts s1" using leave_facts(5,6) [OF ended(1)] e(1) by (simp add: counts_def)
      then have "moved (FlowUpstream f) s s' (FlowFinished (f1\<lparr>fd_evidence := evidence, fd_lease := None\<rparr>) (AnswerProxied result))"
        using ended(2,3,4,7,9,10) leave_facts(2,4) [OF ended(1)] ok e(2) close_run [of "sv_requestClassifier s" "[]" "fd_lease f"]
        by (simp add: moved_def counts_def)
      then show ?thesis unfolding x finish(1) .
    qed
  next
    case (classify env r headers)
    show ?thesis unfolding classify(1)
      by (rule classify_moved [OF classify(2)]) (use assms(3,4) classify(1) in simp_all)
  next
    case (decide env f)
    show ?thesis unfolding decide(1)
      by (rule decide_moved [OF decide(2)]) (use assms(2,4,5) decide(1) in simp_all)
  next
    case (forward env f)
    show ?thesis unfolding forward(1)
      by (rule forward_moved [OF forward(2)]) (use assms(2,4,5) forward(1) in simp_all)
  qed (use up in blast)+
qed

subsection \<open>Many requests\<close>

definition server_inv :: "classifierConfig \<Rightarrow> string \<Rightarrow> 's proxyServer \<times> flow list \<Rightarrow> bool" where
  "server_inv cfg mode = (\<lambda>(s, flows).
     sv_mode s = mode \<and> list_all (flow_ok mode) flows \<and>
     counts s = (length (filter (\<lambda>x. \<not> isArrived x) flows), length (filter isFinished flows), length (filter isRefused flows)) \<and>
     budget_inv cfg (sv_requestClassifier s, [], concat (map leaseOf flows)))"

lemma budget_permuted: "budget_inv cfg (c, scanning, kept) \<Longrightarrow> mset kept' = mset kept \<Longrightarrow> budget_inv cfg (c, scanning, kept')"
proof -
  assume a: "budget_inv cfg (c, scanning, kept)" "mset kept' = mset kept"
  have "sum_list kept' = sum_list kept" "set kept' = set kept"
    using arg_cong [OF a(2), of sum_mset] arg_cong [OF a(2), of set_mset] by (simp_all add: sum_mset_sum_list)
  with a(1) show ?thesis by (simp add: budget_inv_def list_all_iff)
qed

lemma filter_counts: "P x \<Longrightarrow> length (filter P (xs @ x # ys)) = length (filter P (xs @ ys)) + 1"
  "\<not> P x \<Longrightarrow> length (filter P (xs @ x # ys)) = length (filter P (xs @ ys))"
  by simp_all

lemma refused_finished: "isRefused x \<Longrightarrow> isFinished x"
  by (cases x) simp_all

lemma server_step_inv:
  assumes "server_step lib ops other (s, flows) (s', flows')" "server_inv cfg mode (s, flows)" "length flows' \<le> MaxUint64"
  shows "server_inv cfg mode (s', flows')"
  using assms(1)
proof (cases rule: server_step.cases)
  case (arrives r headers)
  then show ?thesis using assms(2) by (simp add: server_inv_def)
next
  case (background a)
  then show ?thesis using assms(2) by (simp add: server_inv_def counts_def)
next
  case (moves x x' xs ys)
  note i = assms(2) [unfolded moves(1) server_inv_def prod.case]
  have nf: "\<not> isFinished x" using moves(3) by (cases rule: flow_step.cases) simp_all
  then have nr: "\<not> isRefused x" using refused_finished by blast
  have le: "length (filter P (xs @ ys)) < MaxUint64" for P
    using length_filter_le [of P "xs @ ys"] assms(3) moves(2) by simp
  have t: "totalOf (qe_classifierOutcomes (sv_requestEvidence s)) < MaxUint64 \<or> \<not> isArrived x"
      "totalOf (rx_outcomes (sv_responseUsageEvidence s)) < MaxUint64" "sv_total429 s < MaxUint64"
    using i nf nr le [of "\<lambda>x. \<not> isArrived x"] le [of isFinished] le [of isRefused] by (auto simp: counts_def)
  have m: "moved x s s' x'"
    using i by (intro flow_step_moved [OF moves(3) _ t]) simp
  let ?rest = "concat (map leaseOf (xs @ ys))"
  have "budget_inv cfg (sv_requestClassifier s, [], leaseOf x @ ?rest)"
  proof (rule budget_permuted)
    show "budget_inv cfg (sv_requestClassifier s, [], concat (map leaseOf (xs @ x # ys)))" using i by blast
  qed simp
  moreover have "classifier_step\<^sup>*\<^sup>* (sv_requestClassifier s, [], leaseOf x @ ?rest) (sv_requestClassifier s', [], leaseOf x' @ ?rest)"
    using m by (simp add: moved_def)
  ultimately have "budget_inv cfg (sv_requestClassifier s', [], leaseOf x' @ ?rest)" by (metis budget_run)
  then have b: "budget_inv cfg (sv_requestClassifier s', [], concat (map leaseOf (xs @ x' # ys)))"
    by (rule budget_permuted) simp
  have "counts s' = (length (filter (\<lambda>x. \<not> isArrived x) (xs @ x' # ys)), length (filter isFinished (xs @ x' # ys)),
      length (filter isRefused (xs @ x' # ys)))"
  proof (intro prod_eqI; unfold fst_conv snd_conv)
    have c: "counts s = (length (filter (\<lambda>x. \<not> isArrived x) (xs @ x # ys)), length (filter isFinished (xs @ x # ys)),
      length (filter isRefused (xs @ x # ys)))" using i by blast
    show "fst (counts s') = length (filter (\<lambda>x. \<not> isArrived x) (xs @ x' # ys))"
      using m c by (simp add: moved_def)
    show "fst (snd (counts s')) = length (filter isFinished (xs @ x' # ys))"
      using m c nf by (simp add: moved_def)
    show "snd (snd (counts s')) = length (filter isRefused (xs @ x' # ys))"
      using m c nr by (simp add: moved_def)
  qed
  then show ?thesis using m i b unfolding moves(2) server_inv_def prod.case by (simp add: moved_def)
qed

subsection \<open>The reservations\<close>

text \<open>The service behind the server, whose life-cycle operations are among the moves of its other clients.\<close>

locale request_service = queue_delegate "op_Decide ops" "op_Terminate ops" recordDecision openHandles healthy closeDelegate other
  for ops :: "'s admissionServiceOps" and recordDecision openHandles healthy closeDelegate other +
  assumes forward_other: "other a (fst (op_MarkForwarded ops a h clk))"
    and firstByte_other: "other a (fst (op_MarkFirstByte ops a h clk))"
begin

definition keeps :: "'s \<Rightarrow> ReservationHandle set \<Rightarrow> 's \<Rightarrow> ReservationHandle set \<Rightarrow> bool" where
  "keeps a held a' held' \<longleftrightarrow> healthy a' \<and> openHandles a' \<subseteq> (openHandles a - held) \<union> held'"

lemma other_keeps_all: "healthy a \<Longrightarrow> other a a' \<Longrightarrow> keeps a held a' held"
  using other_healthy other_keeps unfolding keeps_def by blast

lemma leave_keeps:
  assumes "endServing ops env s f answer = (s', x')" "healthy (sv_admission s)" "TerminalCause_valid (fd_terminal f)"
  shows "keeps (sv_admission s) (set_option (fd_reservation f)) (sv_admission s') (heldBy x')"
proof -
  have "heldBy x' = {}" using leave_facts(1) [OF assms(1)] by auto
  then show ?thesis
    using leave_facts(3) [OF assms(1)] assms(2) terminate_healthy [OF assms(2)] terminate_closes [OF assms(2,3)]
    by (cases "fd_reservation f") (auto simp: keeps_def)
qed

lemma flow_step_keeps:
  assumes "flow_step lib ops s x s' x'" "flow_ok (sv_mode s) x" "healthy (sv_admission s)"
    and "totalOf (rx_outcomes (sv_responseUsageEvidence s)) < MaxUint64"
  shows "keeps (sv_admission s) (heldBy x) (sv_admission s') (heldBy x')"
proof -
  have up: "keeps (sv_admission s) (heldBy (FlowUpstream f)) (sv_admission s') (heldBy x')"
    if "serveResponse lib s f response = (s', x') \<or> serveFirstByte ops env s f = (s', x') \<or>
      serveUsage s f observation = (s', x') \<or> serveBodyEnd ops env s f status = (s', x') \<or>
      serveUpstreamError env s f = (s', x')"
    for f env response observation status
    using that
  proof (cases rule: upstream_cases)
    case (1 f')
    have h: "heldBy x' = heldBy (FlowUpstream f)" using 1 by simp
    from 1(10) show ?thesis unfolding h
    proof (elim disjE exE)
      assume eq: "sv_admission s' = sv_admission s"
      show "keeps (sv_admission s) (heldBy (FlowUpstream f)) (sv_admission s') (heldBy (FlowUpstream f))"
        using assms(3) by (auto simp: eq keeps_def)
    next
      fix h
      assume eq: "sv_admission s' = fst (op_MarkFirstByte ops (sv_admission s) h (ev_now env))"
      show "keeps (sv_admission s) (heldBy (FlowUpstream f)) (sv_admission s') (heldBy (FlowUpstream f))"
        unfolding eq by (rule other_keeps_all [OF assms(3) firstByte_other])
    next
      fix h
      assume eq: "sv_admission s' = fst (op_Terminate ops (sv_admission s) h TerminalSuccess (ev_now env))"
      have "TerminalCause_valid TerminalSuccess" by simp
      from terminate_healthy [OF assms(3), of h TerminalSuccess "ev_now env"] terminate_closes [OF assms(3) this, of h "ev_now env"]
      show "keeps (sv_admission s) (heldBy (FlowUpstream f)) (sv_admission s') (heldBy (FlowUpstream f))"
        unfolding eq keeps_def by blast
    qed
  qed
  from assms(1) show ?thesis
  proof (cases rule: flow_step.cases)
    case (classify env r headers)
    obtain classifier r1 lease cls problem where c: "classifyJSONFields (hl_parseMediaType lib) (hl_jsonValid lib) (hl_contextBytes lib)
        (ev_read env) (ev_scan env) (sv_requestClassifier s) r = (classifier, r1, lease, cls, problem)"
      by (metis prod.exhaust)
    have same: "sv_admission s' = sv_admission s"
    proof (cases problem)
      case None
      then show ?thesis using classify(2) by (auto simp: serveClassify_def c Let_def)
    next
      case (Some reason)
      from classify(2) [unfolded serveClassify_def c Some prod.case Let_def option.case]
      show ?thesis by (drule_tac leave_facts(3)) simp
    qed
    show ?thesis using assms(3) classify(1) by (auto simp: keeps_def same)
  next
    case (decide env f)
    obtain estimator cost where e: "Estimate (sv_promptCost s) (cf_Prompt (fd_classification f))
        (int (admissionEvidenceTierIndex (fd_tier f))) = (estimator, cost)" by fastforce
    define demand where "demand = (let demand0 = WithTier (tpsDemandForClassification (fd_classification f)) (fd_tier f)
      in if pc_known cost then WithPrefillTokens demand0 (pc_uncachedTokens cost) else demand0)"
    obtain admission dec ok where ck: "checkedDecide (\<lambda>a h c. op_Terminate ops a h c (ev_now env))
        (op_Decide ops (sv_admission s) (ev_ctxDone env) (ev_now env) (ev_elapsed env) demand) demand = (admission, dec, ok)"
      by (metis prod.exhaust)
    have k: "openHandles admission \<subseteq> openHandles (sv_admission s) \<union> set_option (ad_Reservation dec)" "healthy admission"
        "decision_valid dec"
      using checked_opens [OF assms(3) ck] checked_healthy [OF assms(3), of "ev_now env" "ev_ctxDone env" "ev_now env" "ev_elapsed env" demand demand]
        checked_valid [of "ev_now env" "op_Decide ops (sv_admission s) (ev_ctxDone env) (ev_now env) (ev_elapsed env) demand" demand] ck
      by simp_all
    note eq = decide(2) [unfolded serveDecide_def e decideAdmission_def prod.case Let_def,
      folded demand_def [unfolded Let_def], unfolded ck prod.case]
    show ?thesis
    proof (cases "sv_mode s = ''enforce'' \<and> \<not> Admitted (ad_Record dec)")
      case True
      then have none: "ad_Reservation dec = None" using k(3) by (simp add: decision_valid_def split: if_splits)
      from eq True obtain s1 f1 where l: "endServing ops env s1 f1 AnswerTooManyRequests = (s', x')" "sv_admission s1 = admission"
          "fd_reservation f1 = None" by fastforce
      have "sv_admission s' = admission" "heldBy x' = {}" using leave_facts(1,3) [OF l(1)] l(2,3) by auto
      then show ?thesis using k none decide(1) by (simp add: keeps_def)
    next
      case False
      with eq have "sv_admission s' = admission" "heldBy x' = set_option (ad_Reservation dec)" by (auto split: if_splits)
      then show ?thesis using k decide(1) by (simp add: keeps_def)
    qed
  next
    case (forward env f)
    have m: "keeps (sv_admission s) {} (fst (marked ops env (sv_admission s) (fd_reservation f))) {}"
      using assms(3) other_keeps_all [OF assms(3) forward_other] by (auto simp: marked_def keeps_def split: option.split)
    from forward(2) show ?thesis
    proof (cases rule: serveForward_cases)
      case (refused s1)
      have "keeps (sv_admission s1) (set_option (fd_reservation f)) (sv_admission s') (heldBy x')"
        using leave_keeps [OF refused(2)] m refused(3) by (simp add: keeps_def)
      then show ?thesis using m forward(1) refused(3) by (auto simp: keeps_def)
    next
      case (sent f')
      then show ?thesis using m forward(1) by (auto simp: keeps_def)
    qed
  next
    case (finish env f served)
    have ok: "\<not> rq_completed (fd_evidence f)" "fd_terminal f = TerminalCancel" using assms(2) finish(1) by simp_all
    from finish(2) assms(4) ok(1) show ?thesis
    proof (cases rule: finish_cases)
      case aborted
      then show ?thesis using leave_keeps [OF aborted(1)] assms(3) ok finish(1) by simp
    next
      case (ended result s1 f1)
      then show ?thesis using leave_keeps [OF ended(1)] assms(3) finish(1) by simp
    qed
  qed (use up in blast)+
qed

lemma server_step_keeps:
  assumes "server_step lib ops other (s, flows) (s', flows')" "server_inv cfg mode (s, flows)" "length flows' \<le> MaxUint64"
    and "healthy (sv_admission s)" "openHandles (sv_admission s) \<subseteq> \<Union> (heldBy ` set flows)"
  shows "healthy (sv_admission s') \<and> openHandles (sv_admission s') \<subseteq> \<Union> (heldBy ` set flows')"
  using assms(1)
proof (cases rule: server_step.cases)
  case (background a)
  then show ?thesis using other_healthy other_keeps assms(4,5) by fastforce
next
  case (moves x x' xs ys)
  note i = assms(2) [unfolded moves(1) server_inv_def prod.case]
  have nf: "\<not> isFinished x" using moves(3) by (cases rule: flow_step.cases) simp_all
  have "length (filter isFinished (xs @ ys)) < MaxUint64"
    using length_filter_le [of isFinished "xs @ ys"] assms(3) moves(2) by simp
  then have t: "totalOf (rx_outcomes (sv_responseUsageEvidence s)) < MaxUint64" using i nf by (simp add: counts_def)
  have ok: "flow_ok (sv_mode s) x" using i by simp
  from flow_step_keeps [OF moves(3) ok assms(4) t]
  show ?thesis using assms(5) unfolding moves(1,2) keeps_def by auto
qed (use assms in auto)

lemma server_run:
  assumes "(server_step lib ops other)\<^sup>*\<^sup>* (s0, []) (s, flows)" "length flows \<le> MaxUint64"
    and "server_inv cfg mode (s0, [])" "healthy (sv_admission s0)" "openHandles (sv_admission s0) = {}"
  shows "server_inv cfg mode (s, flows) \<and> healthy (sv_admission s) \<and> openHandles (sv_admission s) \<subseteq> \<Union> (heldBy ` set flows)"
  using assms(1,2)
proof (induction "(s, flows)" arbitrary: s flows rule: rtranclp_induct)
  case base
  then show ?case using assms(3-5) by simp
next
  case (step y)
  obtain s1 flows1 where y: "y = (s1, flows1)" by fastforce
  have "length flows1 \<le> length flows" using step(2) unfolding y by (cases rule: server_step.cases) simp_all
  then have "length flows1 \<le> MaxUint64" using step(4) by simp
  note i = step(3) [OF y this]
  show ?case
    using server_step_inv [OF step(2) [unfolded y] conjunct1 [OF i] step(4)]
      server_step_keeps [OF step(2) [unfolded y] conjunct1 [OF i] step(4)] i by simp
qed

end

subsection \<open>In front of the runtime\<close>

definition runtimeOps :: "admissionRuntime admissionServiceOps" where
  "runtimeOps = \<lparr>op_Decide = runtimeDecide,
     op_MarkForwarded = (\<lambda>r h clk. (r\<lparr>ru_controller := fst (MarkForwarded (ru_controller r) h clk)\<rparr>, snd (MarkForwarded (ru_controller r) h clk))),
     op_MarkFirstByte = (\<lambda>r h clk. (r\<lparr>ru_controller := fst (MarkFirstByte (ru_controller r) h clk)\<rparr>, snd (MarkFirstByte (ru_controller r) h clk))),
     op_Terminate = reservation_Terminate\<rparr>"

lemma runtimeOps_sel [simp]:
  "op_Decide runtimeOps = runtimeDecide" "op_Terminate runtimeOps = reservation_Terminate"
  "op_MarkForwarded runtimeOps r h clk = (r\<lparr>ru_controller := fst (MarkForwarded (ru_controller r) h clk)\<rparr>, snd (MarkForwarded (ru_controller r) h clk))"
  "op_MarkFirstByte runtimeOps r h clk = (r\<lparr>ru_controller := fst (MarkFirstByte (ru_controller r) h clk)\<rparr>, snd (MarkFirstByte (ru_controller r) h clk))"
  by (simp_all add: runtimeOps_def)

interpretation runtime_requests: request_service runtimeOps RecordExternalDecision runtimeOpen runtimeHealthy runtimeShutdown runtimeOther
proof (unfold request_service_def runtimeOps_sel, intro conjI)
  show "queue_delegate runtimeDecide reservation_Terminate RecordExternalDecision runtimeOpen runtimeHealthy runtimeShutdown runtimeOther"
    by (rule runtime_queue.queue_delegate_axioms)
  show "request_service_axioms runtimeOps runtimeOther"
  proof
    fix r h clk
    show "runtimeOther r (fst (op_MarkForwarded runtimeOps r h clk))"
      using runtimeOther.controller [of "OpMarkForwarded h clk" r] by simp
    show "runtimeOther r (fst (op_MarkFirstByte runtimeOps r h clk))"
      using runtimeOther.controller [of "OpMarkFirstByte h clk" r] by simp
  qed
qed

subsection \<open>What is shown of the requests\<close>

text \<open>A server that has served nobody.\<close>

definition fresh :: "classifierConfig \<Rightarrow> admissionRuntime proxyServer \<Rightarrow> bool" where
  "fresh cfg s \<longleftrightarrow> sv_requestClassifier s = newClassifier cfg \<and> 0 < cc_MaximumBodyBytes cfg \<and> counts s = (0, 0, 0) \<and>
     reachable (ru_controller (sv_admission s)) \<and> runtimeOpen (sv_admission s) = {}"

lemma fresh_inv: "fresh cfg s \<Longrightarrow> server_inv cfg (sv_mode s) (s, [])"
  using budget_new by (simp add: fresh_def server_inv_def)

text \<open>C34: Requests give back what they take. However many are served side by side, each step of one
  interleaved with the others, with samples, policy updates and shutdown: every open reservation
  belongs to a request that is still served, the classifier has reserved exactly the bodies of those,
  each request is counted once where it is classified, once where its usage is decided and, if it is
  refused, once there; and in enforce mode whatever was forwarded had been admitted. When all requests
  are finished nothing is held.\<close>
theorem requests_give_back:
  assumes "fresh cfg s0" "(server_step lib runtimeOps runtimeOther)\<^sup>*\<^sup>* (s0, []) (s, flows)" "length flows \<le> MaxUint64"
  shows "runtimeOpen (sv_admission s) \<subseteq> \<Union> (heldBy ` set flows) \<and>
     ReservedBodyBytes (sv_requestClassifier s) = sum_list (concat (map leaseOf flows)) \<and>
     ReservedBodyBytes (sv_requestClassifier s) \<le> outstandingBodyBudget cfg \<and>
     totalOf (qe_classifierOutcomes (sv_requestEvidence s)) = length (filter (\<lambda>x. \<not> isArrived x) flows) \<and>
     totalOf (rx_outcomes (sv_responseUsageEvidence s)) = length (filter isFinished flows) \<and>
     sv_total429 s = length (filter isRefused flows) \<and>
     (sv_mode s0 = ''enforce'' \<longrightarrow>
        (\<forall>x\<in>set flows. \<forall>f. isForwarded x = Some f \<longrightarrow> Admitted (ad_Record (fd_decision f)))) \<and>
     (list_all isFinished flows \<longrightarrow>
        runtimeOpen (sv_admission s) = {} \<and> ReservedBodyBytes (sv_requestClassifier s) = 0)"
proof -
  have h: "runtimeHealthy (sv_admission s0)" "runtimeOpen (sv_admission s0) = {}"
    using assms(1) by (simp_all add: fresh_def runtimeHealthy_def reachable_inv)
  note r = runtime_requests.server_run [OF assms(2,3) fresh_inv [OF assms(1)] h]
  then have i: "list_all (flow_ok (sv_mode s0)) flows"
      "counts s = (length (filter (\<lambda>x. \<not> isArrived x) flows), length (filter isFinished flows), length (filter isRefused flows))"
      "budget_inv cfg (sv_requestClassifier s, [], concat (map leaseOf flows))"
    by (simp_all add: server_inv_def)
  have b: "ReservedBodyBytes (sv_requestClassifier s) = sum_list (concat (map leaseOf flows))"
      "ReservedBodyBytes (sv_requestClassifier s) \<le> outstandingBodyBudget cfg"
    using i(3) by (simp_all add: budget_inv_def ReservedBodyBytes_def)
  have f: "flow_ok mode x \<Longrightarrow> mode = ''enforce'' \<Longrightarrow> isForwarded x = Some f \<Longrightarrow> Admitted (ad_Record (fd_decision f))" for mode x f
    by (cases "(mode, x)" rule: flow_ok.cases; cases x rule: isForwarded.cases) auto
  have "isFinished x \<Longrightarrow> heldBy x = {} \<and> leaseOf x = []" for x by (cases x) simp_all
  then have e: "list_all isFinished flows \<Longrightarrow> \<Union> (heldBy ` set flows) = {} \<and> sum_list (concat (map leaseOf flows)) = 0"
  proof (induction flows)
    case (Cons x xs)
    then show ?case using \<open>\<And>x. isFinished x \<Longrightarrow> heldBy x = {} \<and> leaseOf x = []\<close> [of x] by simp
  qed simp
  have "list_all isFinished flows \<longrightarrow> runtimeOpen (sv_admission s) = {} \<and> ReservedBodyBytes (sv_requestClassifier s) = 0"
    using e r b(1) by auto
  moreover have "sv_mode s0 = ''enforce'' \<longrightarrow>
      (\<forall>x\<in>set flows. \<forall>f. isForwarded x = Some f \<longrightarrow> Admitted (ad_Record (fd_decision f)))"
    using f i(1) by (auto simp: list_all_iff)
  ultimately show ?thesis using r b i(2) by (simp add: counts_def)
qed

text \<open>A request can always be brought to its end.\<close>

inductive canEnd :: "httpLibrary \<Rightarrow> 's admissionServiceOps \<Rightarrow> 's proxyServer \<Rightarrow> flow \<Rightarrow> bool" for lib ops where
  ended: "canEnd lib ops s (FlowFinished f answer)"
| first: "flow_step lib ops s x s' x' \<Longrightarrow> canEnd lib ops s' x' \<Longrightarrow> canEnd lib ops s x"

lemma leave_ends: "endServing ops env s f answer = (s', x') \<Longrightarrow> canEnd lib ops s' x'"
  using leave_facts(1) [of ops env s f answer s' x'] by (auto intro: ended)

lemma upstream_ends: "canEnd lib ops s (FlowUpstream f)"
proof -
  fix env served
  obtain s' x' where e: "serveFinish ops env s f served = (s', x')" by fastforce
  then have "canEnd lib ops s' x'"
    unfolding serveFinish_def Let_def by (auto split: prod.splits option.splits intro: leave_ends)
  with flow_step.finish [OF e] show ?thesis by (rule first)
qed

lemma decided_ends: "canEnd lib ops s (FlowDecided f)"
proof -
  fix env
  obtain s1 x1 where e: "serveForward lib ops env s f = (s1, x1)" by fastforce
  from e have "canEnd lib ops s1 x1"
    by (cases rule: serveForward_cases) (auto intro: leave_ends upstream_ends)
  with flow_step.forward [OF e] show ?thesis by (rule first)
qed

lemma classified_ends: "canEnd lib ops s (FlowClassified f)"
proof -
  fix env
  obtain s1 x1 where e: "serveDecide ops env s f = (s1, x1)" by fastforce
  then have "canEnd lib ops s1 x1"
    unfolding serveDecide_def Let_def by (auto split: prod.splits if_splits intro: leave_ends decided_ends)
  with flow_step.decide [OF e] show ?thesis by (rule first)
qed

lemma flow_ends: "canEnd lib ops s x"
proof (cases x)
  case (FlowArrived r headers)
  fix env
  obtain s1 x1 where e: "serveClassify lib ops env s r headers = (s1, x1)" by fastforce
  then have "canEnd lib ops s1 x1"
    unfolding serveClassify_def Let_def by (auto split: prod.splits option.splits intro: leave_ends classified_ends)
  with flow_step.classify [OF e] show ?thesis unfolding FlowArrived by (rule first)
qed (simp_all add: classified_ends decided_ends upstream_ends ended)

lemma canEnd_run:
  assumes "canEnd lib ops s x"
  shows "\<exists>s' f answer. (server_step lib ops other)\<^sup>*\<^sup>* (s, xs @ x # ys) (s', xs @ FlowFinished f answer # ys)"
  using assms
proof induction
  case (first s x s' x')
  then show ?case using moves [OF first(1), of other xs ys] by (blast intro: converse_rtranclp_into_rtranclp)
qed blast

definition demoServer :: "admissionRuntime proxyServer" where
  "demoServer = \<lparr>sv_mode = ''enforce'', sv_upstreamErrorClassificationEnabled = True, sv_requestClassifier = newClassifier demoClassifierConfig,
     sv_promptCost = newPromptCostEstimator 0,
     sv_admission = \<lparr>ru_controller = demoObserved, ru_reporter = newAdmissionReporter 0, ru_observer = None,
       ru_backendKind = ''vllm'', ru_mode = ''enforce'', ru_prediction = emptyHistogram [], ru_kvCapacityTokens = 0,
       ru_warmPromptTokens = 0, ru_backendTierScheduling = False, ru_closed = False, ru_closeErr = None, ru_events = []\<rparr>,
     sv_warmPromptTokens = 0, sv_backendTierScheduling = False, sv_total429 = 0, sv_clientProtocolInvalidJSON = 0,
     sv_predictiveEnforcedRejects = 0, sv_written = (\<lambda>_. 0), sv_skipped = 0, sv_failedDecide = 0, sv_failedForward = 0,
     sv_failedFirstByte = 0, sv_failedTerminal = 0,
     sv_requestEvidence = \<lparr>qe_classifierOutcomes = (\<lambda>_. 0), qe_streamingStates = (\<lambda>_. 0), qe_decodeFanout = (\<lambda>_. 0)\<rparr>,
     sv_responseUsageEvidence = \<lparr>rx_outcomes = (\<lambda>_. 0), rx_actuals = (\<lambda>_. 0), rx_successfulCompletionTokens = 0,
       rx_tierSuccessfulCompletionTokens = (\<lambda>_. 0)\<rparr>,
     sv_decisionDuration = emptyHistogram [], sv_bodyReadDuration = emptyHistogram [], sv_shapeScanDuration = emptyHistogram [],
     sv_proxyTTFB = emptyHistogram [], sv_proxyTotal = emptyHistogram [], sv_internalOverhead = emptyHistogram [],
     sv_clientDisconnects = \<lparr>dc_queue = 0, dc_upstream = 0, dc_response = 0, dc_cancel = 0\<rparr>,
     sv_backend = \<lparr>bs_inflight = 0, bs_accepted = 0, bs_completed = 0, bs_proxyErrs = 0\<rparr>\<rparr>"

definition demoLibrary :: httpLibrary where
  "demoLibrary = \<lparr>hl_parseMediaType = (\<lambda>_. None), hl_jsonValid = (\<lambda>_. True), hl_contextBytes = (\<lambda>_. None), hl_upstream = demoUpstream\<rparr>"

lemma requests_give_back_witness:
  "\<exists>s f answer. (server_step demoLibrary runtimeOps runtimeOther)\<^sup>*\<^sup>* (demoServer, []) (s, [FlowFinished f answer, FlowArrived demoClassified []]) \<and>
     totalOf (qe_classifierOutcomes (sv_requestEvidence s)) = 1 \<and> totalOf (rx_outcomes (sv_responseUsageEvidence s)) = 1 \<and>
     runtimeOpen (sv_admission s) = {} \<and> ReservedBodyBytes (sv_requestClassifier s) = 0"
proof -
  have fresh: "fresh demoClassifierConfig demoServer"
    using demoObserved_reachable
    by (simp add: fresh_def demoServer_def demoClassifierConfig_def counts_def totalOf_def runtimeOpen_def openOf_closed demoObserved_fields)
  let ?flows = "[FlowArrived demoClassified [], FlowArrived demoClassified []]"
  have "server_step demoLibrary runtimeOps runtimeOther (demoServer, []) (demoServer, [FlowArrived demoClassified []])"
    using arrives [of demoLibrary runtimeOps runtimeOther demoServer "[]"] by simp
  moreover have "server_step demoLibrary runtimeOps runtimeOther (demoServer, [FlowArrived demoClassified []]) (demoServer, ?flows)"
    using arrives [of demoLibrary runtimeOps runtimeOther demoServer "[FlowArrived demoClassified []]"] by simp
  moreover obtain s f answer where "(server_step demoLibrary runtimeOps runtimeOther)\<^sup>*\<^sup>* (demoServer, ?flows)
      (s, [FlowFinished f answer, FlowArrived demoClassified []])"
    using canEnd_run [OF flow_ends, of demoLibrary runtimeOps runtimeOther demoServer "[]" "FlowArrived demoClassified []"
      "[FlowArrived demoClassified []]"] by auto
  ultimately have run: "(server_step demoLibrary runtimeOps runtimeOther)\<^sup>*\<^sup>* (demoServer, [])
      (s, [FlowFinished f answer, FlowArrived demoClassified []])"
    by (meson converse_rtranclp_into_rtranclp)
  have "length [FlowFinished f answer, FlowArrived demoClassified []] \<le> MaxUint64" by simp
  from requests_give_back [OF fresh run this] run show ?thesis by auto
qed

end
