(* ===== verification/PromptCost_Correct.thy ===== *)
theory PromptCost_Correct
  imports PromptCost Classify_Correct
begin

text \<open>
  The mirror of the prefix cache is the list of the blocks used last, cut at the capacity, and a prompt
  that continues one that was admitted is priced at its new suffix.
\<close>

subsection \<open>The mirror\<close>

definition mirror_inv :: "promptCostEstimator \<Rightarrow> bool" where
  "mirror_inv e \<longleftrightarrow> distinct (pe_lru e) \<and> distinct (pe_index e) \<and> set (pe_index e) = set (pe_lru e)"

text \<open>The reference: using a block moves it to the front.\<close>

definition touch :: "'a list \<Rightarrow> 'a \<Rightarrow> 'a list" where
  "touch xs x = x # removeAll x xs"

text \<open>What the mirror does not change.\<close>

definition same_ratios :: "promptCostEstimator \<Rightarrow> promptCostEstimator \<Rightarrow> bool" where
  "same_ratios e e' \<longleftrightarrow> pe_capacityTokens e' = pe_capacityTokens e \<and> pe_bytesPerToken e' = pe_bytesPerToken e \<and>
     pe_correction e' = pe_correction e"

lemma same_ratios_facts:
  assumes "same_ratios e e'"
  shows "bytesPerToken e' = bytesPerToken e" "correction e' = correction e" "capacityBlocksLocked e' = capacityBlocksLocked e"
  using assms by (simp_all add: same_ratios_def bytesPerToken_def correction_def capacityBlocksLocked_def)

lemma use_block_spec:
  assumes "mirror_inv e"
  shows "mirror_inv (use_block e b) \<and> pe_lru (use_block e b) = touch (pe_lru e) b \<and> same_ratios e (use_block e b)"
  using assms
  by (auto simp: mirror_inv_def use_block_def touch_def same_ratios_def distinct_remove1_removeAll distinct_removeAll removeAll_id)

lemma use_blocks_spec:
  "mirror_inv e \<Longrightarrow> mirror_inv (foldl use_block e bs) \<and> pe_lru (foldl use_block e bs) = foldl touch (pe_lru e) bs \<and>
     same_ratios e (foldl use_block e bs)"
proof (induction bs arbitrary: e)
  case (Cons b bs)
  then show ?case using use_block_spec [of e b] Cons.IH [of "use_block e b"] by (simp add: same_ratios_def)
qed (simp add: same_ratios_def)

lemma evict_spec:
  "mirror_inv e \<Longrightarrow> mirror_inv (evict e n) \<and> pe_lru (evict e n) = take n (pe_lru e) \<and> same_ratios e (evict e n)"
proof (induction e n rule: evict.induct)
  case (1 e n)
  let ?e = "e\<lparr>pe_index := removeAll (last (pe_lru e)) (pe_index e), pe_lru := butlast (pe_lru e),
      pe_evictedBlocks := wrapu64 (pe_evictedBlocks e + 1)\<rparr>"
  show ?case
  proof (cases "length (pe_lru e) > n")
    case True
    then obtain xs x where l: "pe_lru e = xs @ [x]" by (metis list.size(3) not_less_zero rev_exhaust)
    have "mirror_inv ?e" using 1(2) l by (auto simp: mirror_inv_def distinct_removeAll)
    then show ?thesis
      using 1(1) [OF True] True l by (subst (1 2 3) evict.simps) (simp add: same_ratios_def)
  next
    case False
    then show ?thesis using 1(2) by (subst (1 2 3) evict.simps) (simp add: same_ratios_def)
  qed
qed

lemma admitted_spec:
  assumes "mirror_inv e"
  shows "mirror_inv (prompt_Admitted e p) \<and> same_ratios e (prompt_Admitted e p) \<and>
    pe_lru (prompt_Admitted e p) =
      (if pf_Blocks p = [] \<or> capacityBlocksLocked e \<le> 0 then pe_lru e
       else take (nat (capacityBlocksLocked e)) (foldl touch (pe_lru e) (pf_Blocks p)))"
  using assms use_blocks_spec [OF assms, of "pf_Blocks p"] evict_spec [of "foldl use_block e (pf_Blocks p)" "nat (capacityBlocksLocked e)"]
  by (auto simp: prompt_Admitted_def Let_def same_ratios_def)

text \<open>Blocks just used are at the front.\<close>

lemma touched_front: "set bs \<subseteq> set (take (length bs) (foldl touch xs bs))"
proof (induction bs rule: rev_induct)
  case (snoc b bs)
  let ?X = "foldl touch xs bs"
  have "set bs - {b} \<subseteq> set (take (length bs) (removeAll b ?X))"
  proof
    fix x assume "x \<in> set bs - {b}"
    then have x: "x \<in> set (removeAll b (take (length bs) ?X))" using snoc by auto
    have "removeAll b ?X = removeAll b (take (length bs) ?X) @ removeAll b (drop (length bs) ?X)"
      by (metis append_take_drop_id removeAll_append)
    moreover have "length (removeAll b (take (length bs) ?X)) \<le> length bs"
    proof -
      have "length (removeAll b ys) \<le> length ys" for ys by (simp add: removeAll_filter_not_eq)
      from this [of "take (length bs) ?X"] show ?thesis by (rule order_trans) simp
    qed
    ultimately show "x \<in> set (take (length bs) (removeAll b ?X))"
      using x by (simp add: take_append)
  qed
  moreover have "foldl touch xs (bs @ [b]) = b # removeAll b ?X" by (simp add: touch_def [of ?X])
  ultimately show ?case by auto
qed simp

lemma takeWhile_least: "list_all P (take m xs) \<Longrightarrow> m \<le> length xs \<Longrightarrow> m \<le> length (takeWhile P xs)"
proof (induction xs arbitrary: m)
  case (Cons x xs)
  then show ?case by (cases m) auto
qed simp

subsection \<open>The operations in any order\<close>

datatype costOp = OpEstimate PromptFingerprint int | OpAdmitted PromptFingerprint
  | OpLearn PromptFingerprint promptCost int int

fun cost_step :: "promptCostEstimator \<Rightarrow> costOp \<Rightarrow> promptCostEstimator" where
  "cost_step e (OpEstimate p tier) = fst (Estimate e p tier)"
| "cost_step e (OpAdmitted p) = prompt_Admitted e p"
| "cost_step e (OpLearn p cost prompt cached) = Learn e p cost prompt cached"

lemma estimate_mirror:
  "pe_lru (fst (Estimate e p tier)) = pe_lru e" "pe_index (fst (Estimate e p tier)) = pe_index e"
  by (simp_all add: Estimate_def Let_def)

lemma learn_mirror: "pe_lru (Learn e p c t h) = pe_lru e" "pe_index (Learn e p c t h) = pe_index e"
  by (simp_all add: Learn_def Let_def)

lemma cost_step_inv:
  assumes "mirror_inv e"
  shows "mirror_inv (cost_step e op)"
proof (cases op)
  case (OpAdmitted p)
  then show ?thesis using admitted_spec [OF assms, of p] by simp
qed (use assms in \<open>simp_all add: mirror_inv_def estimate_mirror learn_mirror\<close>)

lemma cost_run_inv: "mirror_inv (foldl cost_step (newPromptCostEstimator n) ops)"
proof -
  have "mirror_inv e \<Longrightarrow> mirror_inv (foldl cost_step e ops)" for e
    by (induction ops arbitrary: e) (simp_all add: cost_step_inv)
  then show ?thesis by (simp add: mirror_inv_def newPromptCostEstimator_def)
qed

subsection \<open>Pricing a continued prompt\<close>

lemma estimate_price:
  assumes "pf_Blocks p \<noteq> []" "0 < pf_Bytes p" "m \<le> length (pf_Blocks p)" "set (take m (pf_Blocks p)) \<subseteq> set (pe_index e)"
  shows "\<exists>u. 0 \<le> u \<and> u \<le> max 0 (pf_Bytes p - int PromptBlockBytes * int m) \<and> pc_known (snd (Estimate e p tier)) \<and>
     pc_rawUncachedToks (snd (Estimate e p tier)) = fdiv (f64_of_int u) (bytesPerToken e) \<and>
     pc_uncachedTokens (snd (Estimate e p tier)) =
       int64_of (f64_Round (fmul (fdiv (f64_of_int u) (bytesPerToken e)) (correction e)))"
proof -
  let ?n = "length (takeWhile (\<lambda>block. block \<in> set (pe_index e)) (pf_Blocks p))"
  let ?u = "if pf_Bytes p - int ?n * int PromptBlockBytes < 0 then 0 else pf_Bytes p - int ?n * int PromptBlockBytes"
  have "m \<le> ?n" using assms(3,4) by (intro takeWhile_least) (auto simp: list_all_iff)
  then have "0 \<le> ?u \<and> ?u \<le> max 0 (pf_Bytes p - int PromptBlockBytes * int m)" by simp
  moreover have "bytesPerToken (e\<lparr>pe_matchedBlocks := a, pe_consideredBlocks := b\<rparr>) = bytesPerToken e"
    "correction (e\<lparr>pe_matchedBlocks := a, pe_consideredBlocks := b\<rparr>) = correction e" for a b
    by (simp_all add: bytesPerToken_def correction_def)
  ultimately show ?thesis
    using assms(1,2) by (intro exI [of _ ?u]) (simp add: Estimate_def Let_def)
qed


definition demoPrompt :: string where "demoPrompt = replicate 1024 (CHR ''a'')"

lemma demoCapacity: "capacityBlocksLocked (newPromptCostEstimator 1024) = 4"
proof -
  have b: "bytesPerToken (newPromptCostEstimator 1024) = Fin 4"
    by (simp add: newPromptCostEstimator_def bytesPerToken_def ratio_value_def defaultPromptBytesPerToken_def)
  have c: "f64_of_int 1024 = Fin 1024" using f64_of_small_int [of 1024] by simp
  have m: "fmul (Fin 1024) (Fin 4) = Fin 4096" using rnd_of_small_int [of 4096] by simp
  have d: "fdiv (Fin 4096) (Fin 1024) = Fin 4" using rnd_of_small_int [of 4] by simp
  have k: "pe_capacityTokens (newPromptCostEstimator 1024) = 1024" by (simp add: newPromptCostEstimator_def)
  have n: "int64_of (Fin 4) = 4" by (simp add: int64_of_def Let_def)
  show ?thesis unfolding capacityBlocksLocked_def k b c m d n by simp
qed


end
