(* ===== verification/Prometheus.thy ===== *)
theory Prometheus
  imports PromptCost
begin

text \<open>
  \<open>internal/infra/prometheus\<close> (\<open>metric_index.go\<close>, \<open>labels.go\<close>, \<open>sample.go\<close>, \<open>sample_vllm.go\<close>,
  \<open>sample_sglang.go\<close>) and \<open>internal/runtime/telemetry/sample.go\<close>: what is read out of the text of a
  backend's metrics.

  \<open>strconv.ParseFloat\<close>, \<open>strconv.Unquote\<close> and \<open>strings.EqualFold\<close> are the library, an argument. A Go map
  from names is a function from them, labels are an association list. A \<open>(T, bool)\<close> result is an
  option.
\<close>

record goStrings =
  gs_parseFloat :: "string \<Rightarrow> f64 option"
  gs_unquote :: "string \<Rightarrow> string option"
  gs_equalFold :: "string \<Rightarrow> string \<Rightarrow> bool"

subsection \<open>Words and lines\<close>

text \<open>The number of bytes of a white space at the front, \<open>0\<close> when there is none, and \<open>strings.Fields\<close>.\<close>

fun spaceAt :: "string \<Rightarrow> nat" where
  "spaceAt [] = 0"
| "spaceAt [c] = (if narrowSpace c then 1 else 0)"
| "spaceAt [c, x] = (if narrowSpace c then 1 else if pairSpace c x then 2 else 0)"
| "spaceAt (c # x # y # s) =
     (if narrowSpace c then 1 else if pairSpace c x then 2 else if wideSpace c x y then 3 else 0)"

function fieldsFrom :: "string \<Rightarrow> string \<Rightarrow> string list" where
  "fieldsFrom cur s =
     (if s = [] then (if cur = [] then [] else [cur])
      else if spaceAt s = 0 then fieldsFrom (cur @ [hd s]) (tl s)
      else (if cur = [] then [] else [cur]) @ fieldsFrom [] (drop (spaceAt s) s))"
  by pat_completeness auto

termination fieldsFrom
  by (relation "measure (\<lambda>(cur, s). length s)") auto

declare fieldsFrom.simps [simp del]

definition Fields :: "string \<Rightarrow> string list" where "Fields s = fieldsFrom [] s"

fun splitLines :: "string \<Rightarrow> string list" where
  "splitLines [] = [[]]"
| "splitLines (c # s) =
     (if c = CHR 0x0A then [] # splitLines s
      else case splitLines s of [] \<Rightarrow> [[c]] | l # ls \<Rightarrow> (c # l) # ls)"

definition forEachPrometheusLine :: "(string \<Rightarrow> 'a \<Rightarrow> 'a) \<Rightarrow> string \<Rightarrow> 'a \<Rightarrow> 'a" where
  "forEachPrometheusLine visit text =
     fold visit (filter (\<lambda>l. l \<noteq> []) (map strings_TrimSpace (splitLines text)))"

subsection \<open>Labels\<close>

text \<open>A quoted string after its opening quote: through the closing quote, and the rest.\<close>

fun scanQuoted :: "bool \<Rightarrow> string \<Rightarrow> string \<times> string" where
  "scanQuoted escaped [] = ([], [])"
| "scanQuoted escaped (c # s) =
     (if c = CHR 0x22 \<and> \<not> escaped then ([c], s)
      else case scanQuoted (c = CHR 0x5C \<and> \<not> escaped) s of (q, r) \<Rightarrow> (c # q, r))"

lemma scanQuoted_length: "length (snd (scanQuoted e s)) \<le> length s"
  by (induction e s rule: scanQuoted.induct) (auto split: prod.splits)

function parseLabels ::
  "(string \<Rightarrow> string option) \<Rightarrow> (string \<times> string) list \<Rightarrow> string \<Rightarrow> (string \<times> string) list option" where
  "parseLabels unquote labels raw =
     (let s = dropWhile (\<lambda>c. c = CHR '','' \<or> c = CHR '' '' \<or> c = CHR 0x09) raw;
          name = takeWhile (\<lambda>c. c \<noteq> CHR ''='') s;
          r = dropWhile (\<lambda>c. c \<noteq> CHR ''='') s
      in if s = [] then Some labels
         else if name = [] \<or> r = [] then None
         else if tl r = [] \<or> hd (tl r) \<noteq> CHR 0x22 then None
         else
           let quoted = hd (tl r) # fst (scanQuoted False (tl (tl r)))
           in if last quoted \<noteq> CHR 0x22 then None
              else case unquote quoted of
                None \<Rightarrow> None
              | Some v \<Rightarrow>
                  parseLabels unquote (AList.update (strings_TrimSpace name) v labels) (snd (scanQuoted False (tl (tl r)))))"
  by pat_completeness auto

termination parseLabels
proof (relation "measure (\<lambda>(unquote, labels, raw). length raw)")
  fix unquote :: "string \<Rightarrow> string option" and labels :: "(string \<times> string) list" and raw s name r :: string and quoted v
  assume s: "s = dropWhile (\<lambda>c. c = CHR '','' \<or> c = CHR '' '' \<or> c = CHR 0x09) raw"
    and r: "r = dropWhile (\<lambda>c. c \<noteq> CHR ''='') s" "\<not> (name = [] \<or> r = [])"
  have "length (snd (scanQuoted False (tl (tl r)))) \<le> length (tl (tl r))" by (rule scanQuoted_length)
  also have "\<dots> < length r" using r(2) by (cases r) auto
  also have "\<dots> \<le> length raw" using s r(1) length_dropWhile_le [of _ s] length_dropWhile_le [of _ raw] le_trans by metis
  finally show "((unquote, AList.update (strings_TrimSpace name) v labels, snd (scanQuoted False (tl (tl r)))),
      (unquote, labels, raw)) \<in> measure (\<lambda>(unquote, labels, raw). length raw)" by simp
qed simp

declare parseLabels.simps [simp del]

definition parseLabelSet :: "(string \<Rightarrow> string option) \<Rightarrow> string \<Rightarrow> (string \<times> string) list option" where
  "parseLabelSet unquote raw = parseLabels unquote [] raw"

definition labelOf :: "(string \<times> string) list \<Rightarrow> string \<Rightarrow> string" where
  "labelOf labels name = (case map_of labels name of None \<Rightarrow> '''' | Some v \<Rightarrow> v)"

subsection \<open>The index\<close>

text \<open>Labels and values that are not valid are \<open>None\<close>.\<close>

record indexedMetricSample =
  ms_labels :: "(string \<times> string) list option"
  ms_value :: "f64 option"

record metricIndex =
  mi_samples :: "string \<Rightarrow> indexedMetricSample list"
  mi_types :: "string \<Rightarrow> string option"

definition recordType :: "string \<Rightarrow> string \<Rightarrow> metricIndex \<Rightarrow> metricIndex" where
  "recordType name metricType i =
     (case mi_types i name of
        Some previous \<Rightarrow>
          if previous \<noteq> metricType then i\<lparr>mi_types := (mi_types i)(name \<mapsto> ''invalid'')\<rparr>
          else i\<lparr>mi_types := (mi_types i)(name \<mapsto> metricType)\<rparr>
      | None \<Rightarrow> i\<lparr>mi_types := (mi_types i)(name \<mapsto> metricType)\<rparr>)"

definition indexLine :: "goStrings \<Rightarrow> string list \<Rightarrow> string \<Rightarrow> metricIndex \<Rightarrow> metricIndex" where
  "indexLine lib wanted line i =
     (if prefix ''#'' line then
        (let fields = Fields line
         in if length fields = 4 \<and> fields ! 0 = ''#'' \<and> fields ! 1 = ''TYPE'' then
              (let name = fields ! 2; kind = fields ! 3;
                   i1 = (if name \<in> set wanted then recordType name kind i else i)
               in if kind = ''counter'' \<and> \<not> suffix ''_total'' name \<and> name @ ''_total'' \<in> set wanted
                  then recordType (name @ ''_total'') kind i1 else i1)
            else i)
      else
        let fields = Fields line
        in if length fields < 2 then i
           else
             let head = fields ! 0; name = takeWhile (\<lambda>c. c \<noteq> CHR ''{'') head
             in if name \<notin> set wanted then i
                else
                  let labels = (case indexByte head (CHR ''{'') of
                        None \<Rightarrow> Some []
                      | Some open' \<Rightarrow> (case lastIndexByte head (CHR ''}'') of
                          None \<Rightarrow> None
                        | Some close \<Rightarrow> if close > open'
                            then parseLabelSet (gs_unquote lib) (drop (open' + 1) (take close head)) else None));
                      sample = \<lparr>ms_labels = labels, ms_value = gs_parseFloat lib (fields ! 1)\<rparr>
                  in i\<lparr>mi_samples := (mi_samples i)(name := mi_samples i name @ [sample])\<rparr>)"

definition newMetricIndex :: "goStrings \<Rightarrow> string \<Rightarrow> string list \<Rightarrow> metricIndex" where
  "newMetricIndex lib text wanted =
     forEachPrometheusLine (indexLine lib wanted) text \<lparr>mi_samples = \<lambda>_. [], mi_types = \<lambda>_. None\<rparr>"

definition hasSamples :: "metricIndex \<Rightarrow> string \<Rightarrow> bool" where
  "hasSamples i name \<longleftrightarrow> mi_samples i name \<noteq> []"

definition index_has :: "metricIndex \<Rightarrow> string \<Rightarrow> bool" where
  "index_has i name \<longleftrightarrow> mi_samples i name \<noteq> [] \<or> (case mi_types i name of None \<Rightarrow> False | Some t \<Rightarrow> t \<noteq> '''')"

definition hasAny :: "metricIndex \<Rightarrow> string list \<Rightarrow> bool" where
  "hasAny i names \<longleftrightarrow> list_ex (index_has i) names"

definition declaredType :: "metricIndex \<Rightarrow> string \<Rightarrow> string \<Rightarrow> bool" where
  "declaredType i name metricType \<longleftrightarrow> (case mi_types i name of None \<Rightarrow> '''' | Some t \<Rightarrow> t) = metricType"

text \<open>\<open>Inl\<close>: labels that are not valid were met first.\<close>

fun matchingSamples :: "indexedMetricSample list \<Rightarrow> ((string \<times> string) list \<Rightarrow> bool) \<Rightarrow> bool \<times> bool" where
  "matchingSamples [] include = (False, True)"
| "matchingSamples (sample # samples) include =
     (case ms_labels sample of
        None \<Rightarrow> (False, False)
      | Some labels \<Rightarrow> if include labels then (True, True) else matchingSamples samples include)"

definition hasMatchingSamples :: "metricIndex \<Rightarrow> string \<Rightarrow> ((string \<times> string) list \<Rightarrow> bool) \<Rightarrow> bool \<times> bool" where
  "hasMatchingSamples i name include = matchingSamples (mi_samples i name) include"

text \<open>The loops over the samples of a metric: \<open>None\<close> when one is not valid, else what is found (\<open>None\<close> when nothing is).\<close>

definition sampleLoop ::
  "(f64 option \<Rightarrow> f64 \<Rightarrow> f64 option) \<Rightarrow> ((string \<times> string) list \<Rightarrow> bool) \<Rightarrow> indexedMetricSample list \<Rightarrow> f64 option option" where
  "sampleLoop combine include samples =
     foldo (\<lambda>found sample.
       (case (ms_value sample, ms_labels sample) of
          (Some value, Some labels) \<Rightarrow> Some (if include labels then combine found value else found)
        | _ \<Rightarrow> None)) None samples"

definition index_sum :: "metricIndex \<Rightarrow> string \<Rightarrow> ((string \<times> string) list \<Rightarrow> bool) \<Rightarrow> f64 option" where
  "index_sum i name include =
     Option.bind (sampleLoop (\<lambda>found value. Some (fadd (case found of None \<Rightarrow> Fin 0 | Some v \<Rightarrow> v) value)) include (mi_samples i name))
       (\<lambda>x. x)"

definition index_maximum :: "metricIndex \<Rightarrow> string \<Rightarrow> ((string \<times> string) list \<Rightarrow> bool) \<Rightarrow> f64 option" where
  "index_maximum i name include =
     Option.bind (sampleLoop (\<lambda>found value. (case found of None \<Rightarrow> Some value
       | Some v \<Rightarrow> Some (if flt v value then value else v))) include (mi_samples i name)) (\<lambda>x. x)"

definition uniqueValue :: "metricIndex \<Rightarrow> string \<Rightarrow> f64 option" where
  "uniqueValue i name =
     Option.bind (foldo (\<lambda>found sample.
       (case (ms_value sample, ms_labels sample) of
          (Some value, Some labels) \<Rightarrow>
            (case found of None \<Rightarrow> Some (Some value) | Some v \<Rightarrow> if \<not> feq value v then None else Some (Some v))
        | _ \<Rightarrow> None)) None (mi_samples i name)) (\<lambda>x. x)"

definition uniqueFloatLabel :: "goStrings \<Rightarrow> metricIndex \<Rightarrow> string \<Rightarrow> string list \<Rightarrow> f64 option" where
  "uniqueFloatLabel lib i name labelNames =
     Option.bind (foldo (\<lambda>found sample.
       (case ms_labels sample of
          None \<Rightarrow> None
        | Some labels \<Rightarrow>
            let raw = (case filter (\<lambda>n. map_of labels n \<noteq> None) labelNames of [] \<Rightarrow> '''' | n # ns \<Rightarrow> labelOf labels n)
            in if raw = '''' then None
               else case gs_parseFloat lib raw of
                 None \<Rightarrow> None
               | Some candidate \<Rightarrow>
                   (case found of None \<Rightarrow> Some (Some candidate)
                    | Some v \<Rightarrow> if \<not> feq candidate v then None else Some (Some v)))) None (mi_samples i name)) (\<lambda>x. x)"

definition requiredUniqueLabel :: "metricIndex \<Rightarrow> string list \<Rightarrow> string \<Rightarrow> string option" where
  "requiredUniqueLabel i metricNames labelName =
     (case foldo (\<lambda>value metricName.
        if mi_samples i metricName = [] then None
        else foldo (\<lambda>value sample.
          (case ms_labels sample of
             None \<Rightarrow> None
           | Some labels \<Rightarrow>
               let candidate = labelOf labels labelName
               in if candidate = '''' \<or> (value \<noteq> '''' \<and> candidate \<noteq> value) then None else Some candidate))
          value (mi_samples i metricName)) '''' metricNames of
        None \<Rightarrow> None
      | Some value \<Rightarrow> if value \<noteq> '''' then Some value else None)"

definition uniqueLabelAcrossPresent :: "metricIndex \<Rightarrow> string list \<Rightarrow> string \<Rightarrow> bool \<Rightarrow> string option" where
  "uniqueLabelAcrossPresent i metricNames labelName allowEmpty =
     Option.bind (foldo (\<lambda>found metricName.
        foldo (\<lambda>found sample.
          (case ms_labels sample of
             None \<Rightarrow> None
           | Some labels \<Rightarrow>
               let candidate = labelOf labels labelName
               in if \<not> allowEmpty \<and> candidate = '''' then None
                  else (case found of None \<Rightarrow> Some (Some candidate)
                        | Some v \<Rightarrow> if candidate \<noteq> v then None else Some (Some candidate))))
          found (mi_samples i metricName)) None metricNames) (\<lambda>x. x)"

subsection \<open>Exact numbers\<close>

definition finitePositive :: "f64 \<Rightarrow> bool" where
  "finitePositive value \<longleftrightarrow> flt (Fin 0) value \<and> \<not> IsInf value \<and> \<not> IsNaN value"

definition finiteNonNegative :: "f64 \<Rightarrow> bool" where
  "finiteNonNegative value \<longleftrightarrow> fle (Fin 0) value \<and> \<not> IsInf value \<and> \<not> IsNaN value"

definition f64_Trunc :: "f64 \<Rightarrow> f64" where
  "f64_Trunc x = (case x of Fin q \<Rightarrow> Fin (of_int (if q < 0 then - \<lfloor>- q\<rfloor> else \<lfloor>q\<rfloor>)) | y \<Rightarrow> y)"

abbreviation maximumExactFloatInteger :: int where "maximumExactFloatInteger \<equiv> 9007199254740992"

text \<open>The value when it is present; the bounds are \<open>float64 (MaxInt64)\<close>, which is \<open>2 ^ 63\<close>, and \<open>2 ^ 53\<close>.\<close>

definition exactNonNegativeMetricInt :: "f64 option \<Rightarrow> int option" where
  "exactNonNegativeMetricInt value0 =
     (case value0 of
        None \<Rightarrow> None
      | Some value \<Rightarrow>
          if \<not> finiteNonNegative value \<or> \<not> feq (f64_Trunc value) value \<or> flt (Fin 9223372036854775808) value then None
          else Some (int64_of value))"

definition exactNonNegativeMetricInt64 :: "f64 option \<Rightarrow> int option" where
  "exactNonNegativeMetricInt64 value0 =
     (case value0 of
        None \<Rightarrow> None
      | Some value \<Rightarrow>
          if \<not> finiteNonNegative value \<or> \<not> feq (f64_Trunc value) value \<or> flt (Fin (of_int maximumExactFloatInteger)) value
          then None
          else Some (int64_of value))"

definition exactNonNegativeMetricUint64 :: "f64 option \<Rightarrow> nat option" where
  "exactNonNegativeMetricUint64 value0 = map_option nat (exactNonNegativeMetricInt64 value0)"

definition clampTokenValue :: "int \<Rightarrow> int \<Rightarrow> int" where
  "clampTokenValue value capacity = (if value < 0 then 0 else if value > capacity then capacity else value)"

text \<open>A value that counts only under a condition: the argument \<open>present\<close> of these functions.\<close>

definition given :: "'a option \<Rightarrow> bool \<Rightarrow> 'a option" where
  "given value condition = (if condition then value else None)"

end
