(* ===== verification/Samples.thy ===== *)
theory Samples
  imports Prometheus
begin

text \<open>
  The sample that is read from the metrics of vLLM or SGLang: \<open>sample.go\<close>, \<open>sample_vllm.go\<close>,
  \<open>sample_sglang.go\<close>, the reading of the answer in \<open>fetch.go\<close>, and how samples are added up in
  \<open>internal/runtime/telemetry/sample.go\<close>.

  A number with the flag that it is valid is \<open>0\<close> when it is not.
\<close>

record telemetrySample =
  ts_BackendKind :: string
  ts_ModelName :: string
  ts_ModelNameValid :: bool
  ts_KVCapacityTokens :: int
  ts_KVBlockSize :: int
  ts_KVBlockSizeValid :: bool
  ts_KVUsedTokens :: int
  ts_KVAvailableTokens :: int
  ts_KVEvictableTokens :: int
  ts_KVTokenMetricsValid :: bool
  ts_Running :: int
  ts_RunningValid :: bool
  ts_Waiting :: int
  ts_WaitingValid :: bool
  ts_KVCacheUsage :: f64
  ts_Preemptions :: nat
  ts_PreemptionsValid :: bool
  ts_PreemptionDelta :: nat
  ts_PreemptionDeltaDirect :: bool
  ts_Generation :: nat
  ts_GenerationValid :: bool
  ts_GenerationTPS :: f64
  ts_GenerationTPSDirect :: bool
  ts_PrefillCompute :: nat
  ts_PrefillComputeValid :: bool
  ts_CacheQueryTokens :: nat
  ts_CacheHitTokens :: nat
  ts_CacheTokensValid :: bool
  ts_RuntimeStartTime :: f64
  ts_RuntimeStartTimeValid :: bool

definition zeroSample :: telemetrySample where
  "zeroSample = \<lparr>ts_BackendKind = [], ts_ModelName = [], ts_ModelNameValid = False, ts_KVCapacityTokens = 0,
     ts_KVBlockSize = 0, ts_KVBlockSizeValid = False, ts_KVUsedTokens = 0, ts_KVAvailableTokens = 0,
     ts_KVEvictableTokens = 0, ts_KVTokenMetricsValid = False, ts_Running = 0, ts_RunningValid = False,
     ts_Waiting = 0, ts_WaitingValid = False, ts_KVCacheUsage = Fin 0, ts_Preemptions = 0, ts_PreemptionsValid = False,
     ts_PreemptionDelta = 0, ts_PreemptionDeltaDirect = False, ts_Generation = 0, ts_GenerationValid = False,
     ts_GenerationTPS = Fin 0, ts_GenerationTPSDirect = False, ts_PrefillCompute = 0, ts_PrefillComputeValid = False,
     ts_CacheQueryTokens = 0, ts_CacheHitTokens = 0, ts_CacheTokensValid = False, ts_RuntimeStartTime = Fin 0,
     ts_RuntimeStartTimeValid = False\<rparr>"

definition zeroOr :: "'a :: zero option \<Rightarrow> 'a" where
  "zeroOr value = (case value of None \<Rightarrow> 0 | Some v \<Rightarrow> v)"

definition emptyOr :: "string option \<Rightarrow> string" where
  "emptyOr value = (case value of None \<Rightarrow> [] | Some v \<Rightarrow> v)"

abbreviation exactTotal :: nat where "exactTotal \<equiv> 9007199254740992"

subsection \<open>vLLM\<close>

definition vllmModelIdentityMetrics :: "string list" where
  "vllmModelIdentityMetrics =
     [''vllm:num_requests_running'', ''vllm:num_requests_waiting'', ''vllm:num_preemptions_total'',
      ''vllm:generation_tokens_total'']"

definition vllmCacheConfigHasExplicitCapacity :: "metricIndex \<Rightarrow> bool" where
  "vllmCacheConfigHasExplicitCapacity index =
     list_ex (\<lambda>item. (case ms_labels item of
         None \<Rightarrow> True
       | Some labels \<Rightarrow> map_of labels ''kv_cache_size_tokens'' \<noteq> None \<or> map_of labels ''kv_cache_size'' \<noteq> None))
       (mi_samples index ''vllm:cache_config_info'')"

definition guardedLegacyVLLMCapacity :: "goStrings \<Rightarrow> metricIndex \<Rightarrow> int option \<Rightarrow> int option" where
  "guardedLegacyVLLMCapacity lib index blockSize0 =
     (case blockSize0 of
        None \<Rightarrow> None
      | Some blockSize \<Rightarrow>
          if blockSize \<le> 0 then None
          else
            let label = (\<lambda>name. uniqueLabelAcrossPresent index [''vllm:cache_config_info''] name False);
                folds = (\<lambda>value expected. (case value of None \<Rightarrow> False | Some v \<Rightarrow> gs_equalFold lib v expected))
            in case exactNonNegativeMetricInt64
                   (uniqueFloatLabel lib index ''vllm:cache_config_info'' [''num_gpu_blocks'']) of
                 None \<Rightarrow> None
               | Some blocks \<Rightarrow>
                   if blocks \<le> 0 \<or> \<not> folds (label ''is_attention_free'') ''false'' \<or>
                      \<not> folds (label ''mamba_page_size_padded'') ''none'' \<or> \<not> folds (label ''sliding_window'') ''none'' \<or>
                      blocks > MaxInt64 div blockSize
                   then None
                   else Some (blocks * blockSize))"

definition adaptVLLMKV :: "goStrings \<Rightarrow> metricIndex \<Rightarrow> f64 option \<Rightarrow> telemetrySample \<Rightarrow> telemetrySample" where
  "adaptVLLMKV lib index usage0 sample =
     (let capacity0 = exactNonNegativeMetricInt64
            (uniqueFloatLabel lib index ''vllm:cache_config_info'' [''kv_cache_size_tokens'', ''kv_cache_size'']);
          blockSize0 = exactNonNegativeMetricInt (uniqueFloatLabel lib index ''vllm:cache_config_info'' [''block_size'']);
          capacity1 = (if capacity0 = None \<and> \<not> vllmCacheConfigHasExplicitCapacity index
            then guardedLegacyVLLMCapacity lib index blockSize0 else capacity0)
      in if \<not> declaredType index ''vllm:cache_config_info'' ''gauge'' \<or>
            \<not> declaredType index ''vllm:kv_cache_usage_perc'' ''gauge'' then sample
         else case (capacity1, blockSize0, usage0) of
             (Some capacity, Some blockSize, Some usage) \<Rightarrow>
               if capacity \<le> 0 \<or> blockSize \<le> 0 \<or> \<not> finiteNonNegative usage \<or> flt (Fin 1) usage then sample
               else
                 let used = clampTokenValue (int64_of (f64_Round (fmul (f64_of_int capacity) usage))) capacity
                 in sample\<lparr>ts_KVCapacityTokens := capacity, ts_KVBlockSize := blockSize, ts_KVBlockSizeValid := True,
                           ts_KVUsedTokens := used, ts_KVAvailableTokens := capacity - used, ts_KVCacheUsage := usage,
                           ts_KVTokenMetricsValid := True\<rparr>
           | _ \<Rightarrow> sample)"

definition vllmCacheCountersByEngine :: "metricIndex \<Rightarrow> string \<Rightarrow> string \<Rightarrow> (string \<times> nat) list option" where
  "vllmCacheCountersByEngine index metricName modelName =
     foldo (\<lambda>values item.
       (case ms_labels item of
          None \<Rightarrow> None
        | Some labels \<Rightarrow>
            if labelOf labels ''model_name'' \<noteq> modelName then None
            else
              let engine = labelOf labels ''engine''
              in if engine = [] then None
                 else case exactNonNegativeMetricUint64 (ms_value item) of
                     None \<Rightarrow> None
                   | Some value \<Rightarrow>
                       if map_of values engine \<noteq> None then None else Some (values @ [(engine, value)])))
       [] (mi_samples index metricName)"

text \<open>The totals over the engines, \<open>None\<close> where the loop returns early.\<close>

definition cacheTotals :: "(string \<times> nat) list \<Rightarrow> (string \<times> nat) list \<Rightarrow> (nat \<times> nat) option" where
  "cacheTotals queries hits =
     foldo (\<lambda>(queryTotal, hitTotal) (engine, query).
       (case map_of hits engine of
          None \<Rightarrow> None
        | Some hit \<Rightarrow>
            if hit > query \<or> queryTotal > exactTotal - query \<or> hitTotal > exactTotal - hit then None
            else Some (queryTotal + query, hitTotal + hit))) (0, 0) queries"

definition adaptVLLMCache :: "metricIndex \<Rightarrow> string \<Rightarrow> telemetrySample \<Rightarrow> telemetrySample" where
  "adaptVLLMCache index modelName sample =
     (if modelName = [] \<or> \<not> declaredType index ''vllm:prefix_cache_queries_total'' ''counter'' \<or>
         \<not> declaredType index ''vllm:prefix_cache_hits_total'' ''counter'' then sample
      else case (vllmCacheCountersByEngine index ''vllm:prefix_cache_queries_total'' modelName,
                 vllmCacheCountersByEngine index ''vllm:prefix_cache_hits_total'' modelName) of
          (Some queries, Some hits) \<Rightarrow>
            if queries = [] \<or> length queries \<noteq> length hits then sample
            else (case cacheTotals queries hits of
                    None \<Rightarrow> sample
                  | Some (queryTotal, hitTotal) \<Rightarrow>
                      sample\<lparr>ts_CacheQueryTokens := queryTotal, ts_CacheHitTokens := hitTotal, ts_CacheTokensValid := True\<rparr>)
        | _ \<Rightarrow> sample)"

abbreviation anyLabels :: "(string \<times> string) list \<Rightarrow> bool" where "anyLabels \<equiv> (\<lambda>_. True)"

definition parseVLLMSample :: "goStrings \<Rightarrow> metricIndex \<Rightarrow> telemetrySample" where
  "parseVLLMSample lib index =
     (let total = (\<lambda>name kind. given (index_sum index name anyLabels) (declaredType index name kind));
          running = exactNonNegativeMetricInt (total ''vllm:num_requests_running'' ''gauge'');
          waiting = exactNonNegativeMetricInt (total ''vllm:num_requests_waiting'' ''gauge'');
          preemptions = exactNonNegativeMetricUint64 (total ''vllm:num_preemptions_total'' ''counter'');
          generation = exactNonNegativeMetricUint64 (total ''vllm:generation_tokens_total'' ''counter'');
          modelName = requiredUniqueLabel index vllmModelIdentityMetrics ''model_name'';
          sample = zeroSample\<lparr>ts_BackendKind := ''vllm'', ts_ModelName := emptyOr modelName,
            ts_ModelNameValid := modelName \<noteq> None, ts_Running := zeroOr running, ts_RunningValid := running \<noteq> None,
            ts_Waiting := zeroOr waiting, ts_WaitingValid := waiting \<noteq> None,
            ts_Preemptions := zeroOr preemptions, ts_PreemptionsValid := preemptions \<noteq> None,
            ts_Generation := zeroOr generation, ts_GenerationValid := generation \<noteq> None\<rparr>
      in adaptVLLMCache index (emptyOr modelName)
           (adaptVLLMKV lib index (index_maximum index ''vllm:kv_cache_usage_perc'' anyLabels) sample))"

subsection \<open>SGLang\<close>

abbreviation sglangRealtimeTokenCounter :: string where "sglangRealtimeTokenCounter \<equiv> ''sglang:realtime_tokens_total''"
abbreviation sglangRetractionCounter :: string where "sglangRetractionCounter \<equiv> ''sglang:num_retracted_requests_total''"

definition sglangStaticIdentityMetrics :: "string list" where
  "sglangStaticIdentityMetrics = [''sglang:max_total_num_tokens'', ''sglang:page_size'', ''sglang:num_pages'']"

definition sglangAdmissionIdentityMetrics :: "string list" where
  "sglangAdmissionIdentityMetrics =
     [''sglang:max_total_num_tokens'', ''sglang:page_size'', ''sglang:num_pages'', ''sglang:kv_available_tokens'',
      ''sglang:kv_evictable_tokens'', ''sglang:kv_used_tokens'', ''sglang:num_running_reqs'', ''sglang:num_queue_reqs'',
      ''sglang:realtime_tokens_total'', ''sglang:num_retracted_requests_total'']"

definition totalPriority :: "(string \<times> string) list \<Rightarrow> bool" where
  "totalPriority labels \<longleftrightarrow> labelOf labels ''priority'' = []"

definition parseSGLangRequestGauge :: "metricIndex \<Rightarrow> string \<Rightarrow> f64 option \<Rightarrow> int option" where
  "parseSGLangRequestGauge index name value0 =
     (case value0 of
        Some value \<Rightarrow> exactNonNegativeMetricInt (given (Some value) (declaredType index name ''gauge''))
      | None \<Rightarrow>
          if hasSamples index name then None
          else if index_has index name \<and> \<not> declaredType index name ''gauge'' then None
          else Some 0)"

definition parseSGLangRetractions :: "metricIndex \<Rightarrow> nat option" where
  "parseSGLangRetractions index =
     (case index_maximum index sglangRetractionCounter totalPriority of
        Some value \<Rightarrow> exactNonNegativeMetricUint64 (given (Some value) (declaredType index sglangRetractionCounter ''counter''))
      | None \<Rightarrow>
          if hasSamples index sglangRetractionCounter then None
          else if index_has index sglangRetractionCounter
          then (if declaredType index sglangRetractionCounter ''counter'' then Some 0 else None)
          else case index_maximum index ''sglang:num_retracted_reqs'' totalPriority of
              Some legacyValue \<Rightarrow>
                if exactNonNegativeMetricInt
                     (given (Some legacyValue) (declaredType index ''sglang:num_retracted_reqs'' ''gauge'')) = Some 0
                then Some 0 else None
            | None \<Rightarrow>
                if hasSamples index ''sglang:num_retracted_reqs'' \<or>
                   index_has index ''sglang:num_retracted_reqs'' \<and> \<not> declaredType index ''sglang:num_retracted_reqs'' ''gauge''
                then None else Some 0)"

definition validAbsentSGLangGauge :: "metricIndex \<Rightarrow> string \<Rightarrow> bool" where
  "validAbsentSGLangGauge index name \<longleftrightarrow> \<not> index_has index name \<or> declaredType index name ''gauge''"

text \<open>The capacity with its available and evictable tokens, \<open>None\<close> where \<open>adaptSGLangKV\<close> returns before its geometry.\<close>

definition coldKV :: "metricIndex \<Rightarrow> int option \<Rightarrow> bool" where
  "coldKV index capacity0 \<longleftrightarrow>
     uniqueValue index ''sglang:kv_available_tokens'' = None \<and> uniqueValue index ''sglang:kv_evictable_tokens'' = None \<and>
     uniqueValue index ''sglang:kv_used_tokens'' = None \<and> validAbsentSGLangGauge index ''sglang:kv_available_tokens'' \<and>
     validAbsentSGLangGauge index ''sglang:kv_evictable_tokens'' \<and> validAbsentSGLangGauge index ''sglang:kv_used_tokens'' \<and>
     capacity0 \<noteq> None"

definition sglangKVTokens :: "metricIndex \<Rightarrow> (int \<times> int \<times> int) option" where
  "sglangKVTokens index =
     (let capacity0 = exactNonNegativeMetricInt64 (uniqueValue index ''sglang:max_total_num_tokens'');
          available0 = uniqueValue index ''sglang:kv_available_tokens'';
          evictable0 = uniqueValue index ''sglang:kv_evictable_tokens'';
          directUsed0 = uniqueValue index ''sglang:kv_used_tokens'';
          allKVAbsent = (available0 = None \<and> evictable0 = None \<and> directUsed0 = None);
          gauge = (\<lambda>name. declaredType index name ''gauge'');
          cold = coldKV index capacity0;
          available1 = (if cold then capacity0 else exactNonNegativeMetricInt64 available0);
          evictable1 = (if cold then Some 0 else exactNonNegativeMetricInt64 evictable0);
          directUsed1 = (if cold then Some 0 else exactNonNegativeMetricInt64 directUsed0)
      in if \<not> gauge ''sglang:max_total_num_tokens'' \<or> \<not> gauge ''sglang:page_size'' \<or> \<not> gauge ''sglang:num_pages'' \<or>
            (\<not> allKVAbsent \<and> (\<not> gauge ''sglang:kv_available_tokens'' \<or> \<not> gauge ''sglang:kv_evictable_tokens'' \<or>
               \<not> gauge ''sglang:kv_used_tokens'')) then None
         else case (capacity0, available1, evictable1, directUsed1) of
             (Some capacity, Some available, Some evictable, Some directUsed) \<Rightarrow>
               if capacity \<le> 0 \<or> available > capacity \<or> evictable > capacity - available then None
               else if directUsed > capacity - available - evictable then None
               else Some (capacity, available, evictable)
           | _ \<Rightarrow> None)"

definition adaptSGLangKV :: "metricIndex \<Rightarrow> telemetrySample \<Rightarrow> telemetrySample" where
  "adaptSGLangKV index sample =
     (case sglangKVTokens index of
        None \<Rightarrow> sample
      | Some (capacity, available, evictable) \<Rightarrow>
          let used = capacity - available - evictable;
              pageValue = uniqueValue index ''sglang:page_size'';
              pageCountValue = uniqueValue index ''sglang:num_pages'';
              pageSize = exactNonNegativeMetricInt pageValue;
              geometryPresent = (pageValue \<noteq> None \<or> pageCountValue \<noteq> None);
              geometryValid = (case (pageSize, exactNonNegativeMetricInt64 pageCountValue) of
                (Some perPage, Some pages) \<Rightarrow> perPage > 0 \<and> pages > 0 \<and> pages = capacity div perPage
              | _ \<Rightarrow> False)
          in if geometryPresent \<and> \<not> geometryValid then sample
             else
               let sample1 = sample\<lparr>ts_KVCapacityTokens := capacity, ts_KVUsedTokens := used,
                     ts_KVAvailableTokens := available, ts_KVEvictableTokens := evictable,
                     ts_KVCacheUsage := fdiv (f64_of_int used) (f64_of_int capacity),
                     ts_KVTokenMetricsValid := True\<rparr>
               in if geometryValid
                  then sample1\<lparr>ts_KVBlockSize := zeroOr pageSize, ts_KVBlockSizeValid := True\<rparr>
                  else sample1)"

text \<open>One sample of the counter of prefilled tokens, over the totals by mode found so far.\<close>

definition sglangCacheModes :: "string list" where
  "sglangCacheModes = [''input'', ''device_hit'', ''host_hit'', ''storage_hit'']"

definition sglangCacheSample ::
  "string \<Rightarrow> string \<Rightarrow> (string \<Rightarrow> nat option) \<times> string option \<Rightarrow> indexedMetricSample \<Rightarrow>
   ((string \<Rightarrow> nat option) \<times> string option) option" where
  "sglangCacheSample modelName admissionDPRank = (\<lambda>(modes, dpRank) item.
     (case ms_labels item of
        None \<Rightarrow> None
      | Some labels \<Rightarrow>
          if labelOf labels ''model_name'' \<noteq> modelName \<or> labelOf labels ''engine_type'' \<noteq> ''unified'' \<or>
             labelOf labels ''priority'' \<noteq> [] then None
          else
            let candidateDP = labelOf labels ''dp_rank''; mode = labelOf labels ''mode''
            in if candidateDP \<noteq> admissionDPRank then None
               else if dpRank \<noteq> None \<and> dpRank \<noteq> Some candidateDP then None
               else if mode \<notin> set sglangCacheModes then None
               else case exactNonNegativeMetricUint64 (ms_value item) of
                   None \<Rightarrow> None
                 | Some value \<Rightarrow>
                     Some ((case modes mode of
                              None \<Rightarrow> modes(mode \<mapsto> value)
                            | Some known \<Rightarrow> if value > known then modes(mode \<mapsto> value) else modes),
                           Some candidateDP)))"

definition adaptSGLangCache :: "metricIndex \<Rightarrow> string \<Rightarrow> string \<Rightarrow> telemetrySample \<Rightarrow> telemetrySample" where
  "adaptSGLangCache index modelName admissionDPRank sample =
     (if modelName = [] \<or> \<not> declaredType index ''sglang:prefill_effective_tokens_total'' ''counter'' \<or>
         \<not> hasSamples index ''sglang:prefill_effective_tokens_total'' then sample
      else case foldo (sglangCacheSample modelName admissionDPRank) (\<lambda>_. None, None)
                (mi_samples index ''sglang:prefill_effective_tokens_total'') of
          None \<Rightarrow> sample
        | Some (modes, dpRank) \<Rightarrow>
            (case (modes ''input'', modes ''device_hit'', modes ''host_hit'', modes ''storage_hit'') of
               (Some input, Some device, Some host, Some storage) \<Rightarrow>
                 if device > exactTotal - host then sample
                 else
                   if device + host > exactTotal - storage then sample
                   else
                     let hits = device + host + storage
                     in if input > exactTotal - hits then sample
                        else sample\<lparr>ts_CacheQueryTokens := input + hits, ts_CacheHitTokens := hits, ts_CacheTokensValid := True\<rparr>
             | _ \<Rightarrow> sample))"

definition parseSGLangSample :: "metricIndex \<Rightarrow> telemetrySample" where
  "parseSGLangSample index =
     (let counter = declaredType index sglangRealtimeTokenCounter ''counter'';
          runningValue = index_maximum index ''sglang:num_running_reqs'' totalPriority;
          waitingValue = index_maximum index ''sglang:num_queue_reqs'' totalPriority;
          generationValue = index_maximum index sglangRealtimeTokenCounter
            (\<lambda>labels. labelOf labels ''mode'' = ''decode'' \<and> labelOf labels ''priority'' = []);
          preemptions = parseSGLangRetractions index;
          modelName = requiredUniqueLabel index sglangStaticIdentityMetrics ''model_name'';
          observedModel = uniqueLabelAcrossPresent index sglangAdmissionIdentityMetrics ''model_name'' False;
          engineType = requiredUniqueLabel index sglangStaticIdentityMetrics ''engine_type'';
          observedEngine = uniqueLabelAcrossPresent index sglangAdmissionIdentityMetrics ''engine_type'' False;
          admissionDPRank = uniqueLabelAcrossPresent index sglangAdmissionIdentityMetrics ''dp_rank'' True;
          modelNameValid = (modelName \<noteq> None \<and> observedModel = modelName \<and>
            engineType = Some ''unified'' \<and> observedEngine = engineType \<and> admissionDPRank \<noteq> None);
          oneOnly = ((runningValue = None) \<noteq> (waitingValue = None));
          running = parseSGLangRequestGauge index ''sglang:num_running_reqs'' runningValue;
          waiting = parseSGLangRequestGauge index ''sglang:num_queue_reqs'' waitingValue;
          decode = hasMatchingSamples index sglangRealtimeTokenCounter (\<lambda>labels. labelOf labels ''mode'' = ''decode'');
          generation = (case generationValue of
              Some value \<Rightarrow> exactNonNegativeMetricUint64 (given (Some value) (snd decode \<and> counter))
            | None \<Rightarrow>
                if \<not> snd decode \<or> fst decode then None
                else if index_has index sglangRealtimeTokenCounter then (if counter then Some 0 else None)
                else Some 0);
          prefill = exactNonNegativeMetricUint64 (given (index_maximum index sglangRealtimeTokenCounter
            (\<lambda>labels. labelOf labels ''mode'' = ''prefill_compute'' \<and> labelOf labels ''priority'' = [])) counter);
          sample = zeroSample\<lparr>ts_BackendKind := ''sglang'', ts_ModelName := emptyOr modelName,
            ts_ModelNameValid := modelNameValid, ts_Running := zeroOr running, ts_RunningValid := running \<noteq> None \<and> \<not> oneOnly,
            ts_Waiting := zeroOr waiting, ts_WaitingValid := waiting \<noteq> None \<and> \<not> oneOnly,
            ts_Preemptions := zeroOr preemptions, ts_PreemptionsValid := preemptions \<noteq> None,
            ts_Generation := zeroOr generation, ts_GenerationValid := generation \<noteq> None,
            ts_PrefillCompute := zeroOr prefill, ts_PrefillComputeValid := prefill \<noteq> None\<rparr>
      in adaptSGLangCache index (emptyOr modelName) (emptyOr admissionDPRank) (adaptSGLangKV index sample))"

subsection \<open>The sample\<close>

definition indexedAdmissionMetrics :: "string list" where
  "indexedAdmissionMetrics =
     [''process_start_time_seconds'', ''vllm:cache_config_info'', ''vllm:kv_cache_usage_perc'',
      ''vllm:num_requests_running'', ''vllm:num_requests_waiting'', ''vllm:num_preemptions_total'',
      ''vllm:generation_tokens_total'', ''vllm:prefix_cache_queries_total'', ''vllm:prefix_cache_hits_total'',
      ''sglang:max_total_num_tokens'', ''sglang:page_size'', ''sglang:num_pages'', ''sglang:kv_available_tokens'',
      ''sglang:kv_evictable_tokens'', ''sglang:kv_used_tokens'', ''sglang:num_running_reqs'', ''sglang:num_queue_reqs'',
      ''sglang:realtime_tokens_total'', ''sglang:prefill_effective_tokens_total'',
      ''sglang:num_retracted_requests_total'', ''sglang:num_retracted_reqs'']"

definition vllmAdmissionSignatures :: "string list" where
  "vllmAdmissionSignatures =
     [''vllm:cache_config_info'', ''vllm:kv_cache_usage_perc'', ''vllm:num_requests_running'',
      ''vllm:num_requests_waiting'', ''vllm:num_preemptions_total'', ''vllm:generation_tokens_total'']"

definition sglangAdmissionSignatures :: "string list" where
  "sglangAdmissionSignatures =
     [''sglang:max_total_num_tokens'', ''sglang:page_size'', ''sglang:num_pages'', ''sglang:kv_available_tokens'',
      ''sglang:kv_evictable_tokens'', ''sglang:kv_used_tokens'', ''sglang:num_running_reqs'', ''sglang:num_queue_reqs'',
      ''sglang:realtime_tokens_total'', ''sglang:num_retracted_requests_total'', ''sglang:num_retracted_reqs'']"

definition applyRuntimeEpoch :: "metricIndex \<Rightarrow> telemetrySample \<Rightarrow> telemetrySample" where
  "applyRuntimeEpoch index sample =
     (case index_maximum index ''process_start_time_seconds'' anyLabels of
        None \<Rightarrow> sample
      | Some start \<Rightarrow>
          if finitePositive start then sample\<lparr>ts_RuntimeStartTime := start, ts_RuntimeStartTimeValid := True\<rparr> else sample)"

definition ParseSample :: "goStrings \<Rightarrow> string \<Rightarrow> telemetrySample" where
  "ParseSample lib metricsText =
     (let index = newMetricIndex lib metricsText indexedAdmissionMetrics;
          hasVLLM = hasAny index vllmAdmissionSignatures;
          hasSGLang = hasAny index sglangAdmissionSignatures
      in applyRuntimeEpoch index
           (if hasVLLM \<and> hasSGLang then zeroSample
            else if hasVLLM then parseVLLMSample lib index
            else if hasSGLang then parseSGLangSample index
            else zeroSample))"

text \<open>The answer of the backend: its body as a reader, the error of closing it, and its status.\<close>

abbreviation maximumMetricsBodyBytes :: int where "maximumMetricsBodyBytes \<equiv> 4194304"

definition sampleOfResponse :: "goStrings \<Rightarrow> readResults \<Rightarrow> string option \<Rightarrow> int \<Rightarrow> telemetrySample option" where
  "sampleOfResponse lib source closeErr status =
     (case readLimited source (nat (maximumMetricsBodyBytes + 1)) of
        (body, readErr, left) \<Rightarrow>
          if readErr \<noteq> None \<or> closeErr \<noteq> None \<or> int (length body) > maximumMetricsBodyBytes \<or> status \<noteq> 200 then None
          else Some (ParseSample lib body))"

subsection \<open>Adding up\<close>

definition aggregateStep :: "telemetrySample \<Rightarrow> telemetrySample \<Rightarrow> telemetrySample" where
  "aggregateStep a sample =
     (let overflow = (ts_CacheQueryTokens a > MaxUint64 - ts_CacheQueryTokens sample \<or>
            ts_CacheHitTokens a > MaxUint64 - ts_CacheHitTokens sample);
          b = a\<lparr>ts_Running := wrap64 (ts_Running a + ts_Running sample),
                ts_RunningValid := ts_RunningValid a \<and> ts_RunningValid sample,
                ts_Waiting := wrap64 (ts_Waiting a + ts_Waiting sample),
                ts_WaitingValid := ts_WaitingValid a \<and> ts_WaitingValid sample,
                ts_KVCacheUsage := (if flt (ts_KVCacheUsage a) (ts_KVCacheUsage sample) then ts_KVCacheUsage sample
                                    else ts_KVCacheUsage a),
                ts_Preemptions := wrapu64 (ts_Preemptions a + ts_Preemptions sample),
                ts_PreemptionsValid := ts_PreemptionsValid a \<and> ts_PreemptionsValid sample\<rparr>;
          c = (if ts_PreemptionDeltaDirect sample
               then b\<lparr>ts_PreemptionDelta := wrapu64 (ts_PreemptionDelta b + ts_PreemptionDelta sample),
                      ts_PreemptionDeltaDirect := True\<rparr> else b);
          d = c\<lparr>ts_Generation := wrapu64 (ts_Generation c + ts_Generation sample),
                ts_GenerationValid := ts_GenerationValid c \<and> ts_GenerationValid sample,
                ts_PrefillCompute := wrapu64 (ts_PrefillCompute c + ts_PrefillCompute sample),
                ts_PrefillComputeValid := ts_PrefillComputeValid c \<and> ts_PrefillComputeValid sample\<rparr>;
          e = (if overflow then d\<lparr>ts_CacheTokensValid := False\<rparr>
               else d\<lparr>ts_CacheQueryTokens := ts_CacheQueryTokens d + ts_CacheQueryTokens sample,
                      ts_CacheHitTokens := ts_CacheHitTokens d + ts_CacheHitTokens sample\<rparr>);
          g = e\<lparr>ts_CacheTokensValid := ts_CacheTokensValid e \<and> ts_CacheTokensValid sample\<rparr>
      in if ts_GenerationTPSDirect sample
         then g\<lparr>ts_GenerationTPS := fadd (ts_GenerationTPS g) (ts_GenerationTPS sample), ts_GenerationTPSDirect := True\<rparr>
         else g)"

definition AggregateSamples :: "telemetrySample list \<Rightarrow> telemetrySample" where
  "AggregateSamples samples =
     (case samples of
        [] \<Rightarrow> zeroSample
      | [sample] \<Rightarrow> sample
      | _ \<Rightarrow> foldl aggregateStep
          (zeroSample\<lparr>ts_RunningValid := True, ts_WaitingValid := True, ts_PreemptionsValid := True,
             ts_GenerationValid := True, ts_CacheTokensValid := True, ts_PrefillComputeValid := True\<rparr>) samples)"

end
