(* ===== verification/Observer.thy ===== *)
theory Observer
  imports Samples Queue_Runtime
begin

text \<open>
  From samples to the controller, in \<open>internal/app/server\<close>: the poller of
  \<open>admission_backend_observer.go\<close>, the wait for the backend of \<open>predictive_backend_probe.go\<close>, what is
  found out about it in \<open>predictive_running_limit.go\<close>, and the service that is built on that in
  \<open>predictive_factory.go\<close>.

  The hash of a model's name, the check of an address and the JSON of the backend's answer are
  arguments. A fetch that failed is \<open>None\<close>. Error texts are left out where nothing depends on them.
\<close>

subsection \<open>The poller\<close>

datatype admissionSampleDisposition = admissionSampleTransient | admissionSampleUsable | admissionSampleIdentityDrift

record admissionBackendObserver =
  ao_backendKind :: string
  ao_runtimeIdentity :: string
  ao_pollInterval :: duration
  ao_maximumAge :: duration

definition validPredictiveModelIdentitySHA256 :: "string \<Rightarrow> bool" where
  "validPredictiveModelIdentitySHA256 value \<longleftrightarrow>
     length value = 64 \<and>
     list_all (\<lambda>c. (let n = of_char c :: nat in 48 \<le> n \<and> n \<le> 57 \<or> 97 \<le> n \<and> n \<le> 102 \<or> 65 \<le> n \<and> n \<le> 70)) value"

text \<open>What the code reads of the result of \<open>url.Parse\<close>, an argument; the second check allows no query and no fragment.\<close>

record parsedURL =
  url_Scheme :: string
  url_Host :: string
  url_RawQuery :: string
  url_Fragment :: string

definition httpURL :: "(string \<Rightarrow> parsedURL option) \<Rightarrow> string \<Rightarrow> bool" where
  "httpURL parseURL address =
     (case parseURL address of
        None \<Rightarrow> False
      | Some parsed \<Rightarrow> (url_Scheme parsed = ''http'' \<or> url_Scheme parsed = ''https'') \<and> url_Host parsed \<noteq> [])"

definition plainURL :: "(string \<Rightarrow> parsedURL option) \<Rightarrow> string \<Rightarrow> bool" where
  "plainURL parseURL address =
     (case parseURL address of
        None \<Rightarrow> False
      | Some parsed \<Rightarrow> \<not> ((url_Scheme parsed \<noteq> ''http'' \<and> url_Scheme parsed \<noteq> ''https'') \<or> url_Host parsed = [] \<or>
          url_RawQuery parsed \<noteq> [] \<or> url_Fragment parsed \<noteq> []))"

definition newAdmissionBackendObserver ::
  "(string \<Rightarrow> parsedURL option) \<Rightarrow> string \<Rightarrow> string \<Rightarrow> string \<Rightarrow> duration \<Rightarrow> duration \<Rightarrow> duration \<Rightarrow> admissionBackendObserver option" where
  "newAdmissionBackendObserver parseURL backendKind0 metricsURL runtimeIdentity pollInterval maximumAge requestTimeout =
     (let backendKind = strings_TrimSpace backendKind0;
          identity = ToLower (strings_TrimSpace runtimeIdentity)
      in if \<not> plainURL parseURL metricsURL then None
         else if (backendKind \<noteq> ''vllm'' \<and> backendKind \<noteq> ''sglang'') \<or> \<not> validPredictiveModelIdentitySHA256 identity \<or>
            pollInterval \<le> 0 \<or> maximumAge < pollInterval \<or> requestTimeout \<le> 0 then None
         else Some \<lparr>ao_backendKind = backendKind, ao_runtimeIdentity = identity, ao_pollInterval = pollInterval,
                ao_maximumAge = maximumAge\<rparr>)"

text \<open>The counters of a sample that say how busy the backend is, for the poller and for the start.\<close>

definition coherentSample :: "telemetrySample \<Rightarrow> bool" where
  "coherentSample sample \<longleftrightarrow>
     ts_RunningValid sample \<and> ts_WaitingValid sample \<and> ts_PreemptionsValid sample \<and> ts_GenerationValid sample \<and>
     0 \<le> ts_Running sample \<and> 0 \<le> ts_Waiting sample \<and> ts_Running sample \<le> MaxInt64 - ts_Waiting sample"

definition observation ::
  "(string \<Rightarrow> string) \<Rightarrow> admissionBackendObserver \<Rightarrow> telemetrySample \<Rightarrow> gotime \<Rightarrow>
   BackendObservation \<times> admissionSampleDisposition" where
  "observation sha o' sample observedAt =
     (if ts_BackendKind sample = [] \<or> \<not> ts_ModelNameValid sample \<or> strings_TrimSpace (ts_ModelName sample) = [] \<or>
         \<not> coherentSample sample \<or> IsZero observedAt
      then (zeroObservation, admissionSampleTransient)
      else
        let identity0 = sha (ts_ModelName sample);
            drift = (ts_BackendKind sample \<noteq> ao_backendKind o' \<or> identity0 \<noteq> ao_runtimeIdentity o');
            identity = (if ts_BackendKind sample \<noteq> ao_backendKind o' then ''runtime-identity-drift'' else identity0)
        in (\<lparr>bo_RuntimeIdentity = identity, bo_ObservedAt = observedAt, bo_MaximumAge = ao_maximumAge o',
             bo_Running = ts_Running sample, bo_Waiting = ts_Waiting sample,
             bo_GenerationTokensTotal = ts_Generation sample, bo_PreemptionsTotal = ts_Preemptions sample,
             bo_RuntimeStartTime = ts_RuntimeStartTime sample, bo_PrefillTokensTotal = ts_PrefillCompute sample,
             bo_PrefillTokensValid = ts_PrefillComputeValid sample\<rparr>,
            if drift then admissionSampleIdentityDrift else admissionSampleUsable))"

text \<open>
  The readings of the clock in a poll and the sample it fetched, with what others do to the controller
  before the poll and while it waits for the backend.
\<close>

record pollInputs =
  pi_before :: "controllerOp list"
  pi_meanwhile :: "controllerOp list"
  pi_startAt :: gotime
  pi_sample :: "telemetrySample option"
  pi_observedAt :: gotime
  pi_publishAt :: gotime

text \<open>The controller afterwards, and whether the poller stopped itself.\<close>

definition poll ::
  "(string \<Rightarrow> string) \<Rightarrow> admissionBackendObserver \<Rightarrow> AdmissionController \<Rightarrow> pollInputs \<Rightarrow> AdmissionController \<times> bool" where
  "poll sha o' c0 inp =
     (case StartSampleWindow c0 (pi_startAt inp) of
        (c, None) \<Rightarrow> (c, False)
      | (c, Some window) \<Rightarrow>
          let c1 = foldl perform c (pi_meanwhile inp)
          in case pi_sample inp of
             None \<Rightarrow> (c1, False)
           | Some sample \<Rightarrow>
               (case observation sha o' sample (pi_observedAt inp) of
                  (ob, disposition) \<Rightarrow>
                    if disposition = admissionSampleTransient then (c1, False)
                    else (case PublishObservation c1 window ob (pi_publishAt inp) of
                            (c2, result) \<Rightarrow>
                              (c2, \<not> pr_Accepted result \<and> pr_Reason result \<noteq> ReasonObservationInvalid))))"

text \<open>The loop: once its context is stopped a poll can at most fail to fetch, and then none follows.\<close>

fun observerLoop ::
  "(string \<Rightarrow> string) \<Rightarrow> admissionBackendObserver \<Rightarrow> AdmissionController \<times> bool \<Rightarrow> pollInputs list \<Rightarrow> AdmissionController \<times> bool" where
  "observerLoop sha o' (c, stopped) [] = (c, stopped)"
| "observerLoop sha o' (c, stopped) (inp # inputs) =
     (case poll sha o' (foldl perform c (pi_before inp)) (if stopped then inp\<lparr>pi_sample := None\<rparr> else inp) of
        (c1, now) \<Rightarrow> observerLoop sha o' (c1, stopped \<or> now) inputs)"

subsection \<open>The wait for the backend\<close>

record predictiveBackendStartup =
  st_BackendKind :: string
  st_modelName :: string
  st_ModelIdentitySHA256 :: string
  st_Running :: int
  st_Waiting :: int
  st_Preemptions :: nat
  st_Generation :: nat
  st_RuntimeStartTime :: f64
  st_ObservedAt :: gotime
  st_KVCapacityTokens :: int
  st_PrefillCompute :: nat
  st_PrefillComputeValid :: bool

definition predictiveBackendStartupFromSample ::
  "(string \<Rightarrow> string) \<Rightarrow> telemetrySample \<Rightarrow> gotime \<Rightarrow> predictiveBackendStartup option" where
  "predictiveBackendStartupFromSample sha sample observedAt =
     (if (ts_BackendKind sample \<noteq> ''vllm'' \<and> ts_BackendKind sample \<noteq> ''sglang'') \<or>
         \<not> ts_ModelNameValid sample \<or> strings_TrimSpace (ts_ModelName sample) = [] \<or>
         \<not> coherentSample sample \<or> IsZero observedAt then None
      else Some \<lparr>st_BackendKind = ts_BackendKind sample, st_modelName = ts_ModelName sample,
        st_ModelIdentitySHA256 = sha (ts_ModelName sample), st_Running = ts_Running sample,
        st_Waiting = ts_Waiting sample, st_Preemptions = ts_Preemptions sample, st_Generation = ts_Generation sample,
        st_RuntimeStartTime = ts_RuntimeStartTime sample, st_ObservedAt = observedAt,
        st_KVCapacityTokens = ts_KVCapacityTokens sample, st_PrefillCompute = ts_PrefillCompute sample,
        st_PrefillComputeValid = ts_PrefillComputeValid sample\<rparr>)"

text \<open>The attempts until one is coherent, \<open>None\<close> when the caller gave up before that.\<close>

fun startupAttempts ::
  "(string \<Rightarrow> string) \<Rightarrow> (telemetrySample option \<times> gotime) list \<Rightarrow> predictiveBackendStartup option" where
  "startupAttempts sha [] = None"
| "startupAttempts sha ((fetched, observedAt) # attempts) =
     (case Option.bind fetched (\<lambda>sample. predictiveBackendStartupFromSample sha sample observedAt) of
        None \<Rightarrow> startupAttempts sha attempts
      | Some startup \<Rightarrow> Some startup)"

record predictiveBackendStartupProbeConfig =
  pp_MetricsURL :: string
  pp_StartupTimeout :: duration
  pp_RequestTimeout :: duration
  pp_RetryInterval :: duration

definition validatePredictiveBackendStartupProbe :: "(string \<Rightarrow> parsedURL option) \<Rightarrow> predictiveBackendStartupProbeConfig \<Rightarrow> bool" where
  "validatePredictiveBackendStartupProbe parseURL config \<longleftrightarrow>
     \<not> (strings_TrimSpace (pp_MetricsURL config) = [] \<or> pp_StartupTimeout config \<le> 0 \<or> pp_RequestTimeout config \<le> 0 \<or>
        pp_RequestTimeout config > pp_StartupTimeout config \<or> pp_RetryInterval config \<le> 0) \<and>
     httpURL parseURL (pp_MetricsURL config)"

definition waitPredictiveBackendStartup ::
  "(string \<Rightarrow> string) \<Rightarrow> (string \<Rightarrow> parsedURL option) \<Rightarrow> predictiveBackendStartupProbeConfig \<Rightarrow>
   (telemetrySample option \<times> gotime) list \<Rightarrow> predictiveBackendStartup option" where
  "waitPredictiveBackendStartup sha parseURL config attempts =
     (if \<not> validatePredictiveBackendStartupProbe parseURL config then None else startupAttempts sha attempts)"

subsection \<open>What the backend says about itself\<close>

abbreviation maximumPredictiveSequenceBound :: int where "maximumPredictiveSequenceBound \<equiv> 1048576"

record serverJSON =
  sj_object :: "string \<Rightarrow> (string \<times> string) list option"
  sj_array :: "string \<Rightarrow> string list option"
  sj_bool :: "string \<Rightarrow> bool option"
  sj_int :: "string \<Rightarrow> int option"

record sglangServerInfo =
  si_MaxRunningRequests :: int
  si_ChunkedPrefillSize :: int
  si_BackendTierScheduling :: bool

text \<open>A field that may be repeated with the same value.\<close>

definition onceSame :: "'a option \<Rightarrow> 'a \<Rightarrow> 'a option option" where
  "onceSame known candidate =
     (case known of None \<Rightarrow> Some (Some candidate) | Some v \<Rightarrow> if candidate \<noteq> v then None else Some (Some v))"

definition sequenceBound :: "serverJSON \<Rightarrow> string \<Rightarrow> int option" where
  "sequenceBound js raw =
     (case sj_int js raw of
        None \<Rightarrow> None
      | Some candidate \<Rightarrow>
          if candidate \<le> 0 \<or> candidate > maximumPredictiveSequenceBound then None else Some candidate)"

definition internalStateLimit :: "serverJSON \<Rightarrow> string \<Rightarrow> int option option" where
  "internalStateLimit js state =
     (case sj_object js state of
        None \<Rightarrow> None
      | Some members \<Rightarrow>
          foldo (\<lambda>known (key, field).
            if key \<noteq> ''effective_max_running_requests_per_dp'' then Some known
            else (case sequenceBound js field of None \<Rightarrow> None | Some candidate \<Rightarrow> onceSame known candidate)) None members)"

definition decodeSGLangEffectiveRunningLimit :: "serverJSON \<Rightarrow> string \<Rightarrow> int option" where
  "decodeSGLangEffectiveRunningLimit js raw =
     (case sj_array js raw of
        None \<Rightarrow> None
      | Some states \<Rightarrow>
          (case foldo (\<lambda>(minimum, reports) state.
             (case internalStateLimit js state of
                None \<Rightarrow> None
              | Some None \<Rightarrow> Some (minimum, reports)
              | Some (Some value) \<Rightarrow> Some (if minimum = 0 \<or> value < minimum then value else minimum, reports + 1)))
             (0, 0 :: nat) states of
             None \<Rightarrow> None
           | Some (minimum, reports) \<Rightarrow> if reports > 0 \<and> reports \<noteq> length states then None else Some minimum))"

record serverInfoState =
  ss_max :: "int option"
  ss_chunk :: "int option"
  ss_effective :: "int option"
  ss_enable :: "bool option"
  ss_lowFirst :: "bool option"

definition serverInfoField :: "serverJSON \<Rightarrow> serverInfoState \<Rightarrow> string \<times> string \<Rightarrow> serverInfoState option" where
  "serverInfoField js s = (\<lambda>(key, raw).
     (if key = ''internal_states'' then
        Option.bind (decodeSGLangEffectiveRunningLimit js raw) (\<lambda>candidate.
          map_option (\<lambda>v. s\<lparr>ss_effective := v\<rparr>) (onceSame (ss_effective s) candidate))
      else if key = ''enable_priority_scheduling'' then
        Option.bind (sj_bool js raw) (\<lambda>candidate. map_option (\<lambda>v. s\<lparr>ss_enable := v\<rparr>) (onceSame (ss_enable s) candidate))
      else if key = ''schedule_low_priority_values_first'' then
        Option.bind (sj_bool js raw) (\<lambda>candidate. map_option (\<lambda>v. s\<lparr>ss_lowFirst := v\<rparr>) (onceSame (ss_lowFirst s) candidate))
      else if key = ''max_running_requests'' then
        Option.bind (sequenceBound js raw) (\<lambda>candidate. map_option (\<lambda>v. s\<lparr>ss_max := v\<rparr>) (onceSame (ss_max s) candidate))
      else if key = ''chunked_prefill_size'' then
        Option.bind (sj_int js raw) (\<lambda>candidate.
          if candidate > maximumPredictiveSequenceBound then None
          else map_option (\<lambda>v. s\<lparr>ss_chunk := v\<rparr>) (onceSame (ss_chunk s) (if candidate < 0 then 0 else candidate)))
      else Some s))"

definition decodeSGLangServerInfo :: "serverJSON \<Rightarrow> string \<Rightarrow> sglangServerInfo option" where
  "decodeSGLangServerInfo js body =
     Option.bind (sj_object js body) (\<lambda>members.
       Option.bind (foldo (serverInfoField js)
         \<lparr>ss_max = None, ss_chunk = None, ss_effective = None, ss_enable = None, ss_lowFirst = None\<rparr> members) (\<lambda>s.
         case ss_max s of
           None \<Rightarrow> None
         | Some limit \<Rightarrow>
             let effective = zeroOr (ss_effective s)
             in Some \<lparr>si_MaxRunningRequests = (if effective > 0 \<and> effective < limit then effective else limit),
                  si_ChunkedPrefillSize = zeroOr (ss_chunk s),
                  si_BackendTierScheduling = (ss_enable s = Some True \<and> ss_lowFirst s = Some False)\<rparr>))"

text \<open>
  What is made of the answer: its status, what \<open>mime.ParseMediaType\<close> gave for its content type, its body;
  \<open>None\<close> when there was no answer.
\<close>

abbreviation maximumSGLangServerInfoBytes :: int where "maximumSGLangServerInfoBytes \<equiv> 1048576"

definition probeSGLangServerInfo ::
  "serverJSON \<Rightarrow> (string \<Rightarrow> parsedURL option) \<Rightarrow> string \<Rightarrow> duration \<Rightarrow> (int \<times> string option \<times> readResults) option \<Rightarrow> sglangServerInfo option" where
  "probeSGLangServerInfo js parseURL metricsURL requestTimeout response =
     (if strings_TrimSpace metricsURL = [] \<or> requestTimeout \<le> 0 then None
      else if \<not> plainURL parseURL metricsURL then None
      else case response of
          None \<Rightarrow> None
        | Some (status, mediaType, source) \<Rightarrow>
            if status \<noteq> 200 then None
            else if mediaType \<noteq> Some ''application/json'' then None
            else case readLimited source (nat (maximumSGLangServerInfoBytes + 1)) of
                (body, readErr, unread) \<Rightarrow>
                  if readErr \<noteq> None then None
                  else if int (length body) > maximumSGLangServerInfoBytes then None
                  else decodeSGLangServerInfo js body)"

subsection \<open>The service\<close>

record serviceConfig =
  sc_PredictiveMetricsURL :: string
  sc_PredictiveAdmissionMode :: string
  sc_PredictiveTPSReference :: f64
  sc_PredictiveWindowConcurrency :: int
  sc_PredictiveRunningLimit :: int
  sc_PredictiveRunningLimitConfigured :: bool
  sc_PredictiveObservationPollInterval :: duration
  sc_PredictiveMaximumMetricsAge :: duration
  sc_PredictiveMetricsRequestTimeout :: duration
  sc_PredictiveStartupProbeTimeout :: duration

record predictiveBackendDiscovery =
  bd_RunningLimit :: int
  bd_RunningLimitSource :: RunningLimitSource
  bd_WarmPromptTokens :: int
  bd_BackendTierScheduling :: bool

text \<open>\<open>probed\<close>: what the probe of the server's information gave, if it did.\<close>

definition discoverPredictiveBackend ::
  "serviceConfig \<Rightarrow> predictiveBackendStartup \<Rightarrow> sglangServerInfo option \<Rightarrow> predictiveBackendDiscovery" where
  "discoverPredictiveBackend cfg startup probed =
     (let explicit = (sc_PredictiveRunningLimitConfigured cfg \<or> sc_PredictiveRunningLimit cfg > 0);
          discovery = (if explicit
            then \<lparr>bd_RunningLimit = sc_PredictiveRunningLimit cfg, bd_RunningLimitSource = RunningLimitSourceEnvironment,
                  bd_WarmPromptTokens = 0, bd_BackendTierScheduling = False\<rparr>
            else \<lparr>bd_RunningLimit = 0, bd_RunningLimitSource = RunningLimitSourceUnknown,
                  bd_WarmPromptTokens = 0, bd_BackendTierScheduling = False\<rparr>)
      in if st_BackendKind startup \<noteq> ''sglang'' then discovery
         else case probed of
             None \<Rightarrow> discovery
           | Some info \<Rightarrow>
               let discovery1 = (if explicit then discovery
                     else discovery\<lparr>bd_RunningLimit := si_MaxRunningRequests info,
                            bd_RunningLimitSource := RunningLimitSourceSGLangServerInfo\<rparr>)
               in discovery1\<lparr>bd_WarmPromptTokens := si_ChunkedPrefillSize info,
                             bd_BackendTierScheduling := si_BackendTierScheduling info\<rparr>)"

datatype serviceError =
    ServiceMetricsURL | ServiceStartup | ServiceContext | ServiceController ConfigError | ServiceWindow
  | ServiceObservation Reason | ServiceRuntime runtimeError | ServiceObserver

text \<open>\<open>address\<close> is the identity of the new controller; the interval of the log is \<open>logInterval\<close>.\<close>

record serviceInputs =
  sn_attempts :: "(telemetrySample option \<times> gotime) list"
  sn_probed :: "sglangServerInfo option"
  sn_ctxDone :: bool
  sn_address :: nat
  sn_startAt :: gotime
  sn_publishAt :: gotime
  sn_logInterval :: duration

definition startupConfig :: "serviceConfig \<Rightarrow> predictiveBackendStartup \<Rightarrow> predictiveBackendDiscovery \<Rightarrow> ControllerConfig" where
  "startupConfig cfg startup discovery =
     \<lparr>cf_RuntimeIdentity = st_ModelIdentitySHA256 startup, cf_TPSReference = sc_PredictiveTPSReference cfg,
      cf_WindowConcurrency = sc_PredictiveWindowConcurrency cfg, cf_RunningLimit = bd_RunningLimit discovery,
      cf_RunningLimitSource = bd_RunningLimitSource discovery,
      cf_PendingFirstByteLeaseDuration = wrap64 (3 * sc_PredictiveObservationPollInterval cfg),
      cf_BackendTierScheduling = bd_BackendTierScheduling discovery,
      cf_WarmPromptTokens = bd_WarmPromptTokens discovery\<rparr>"

definition startupObservation :: "serviceConfig \<Rightarrow> predictiveBackendStartup \<Rightarrow> BackendObservation" where
  "startupObservation cfg startup =
     \<lparr>bo_RuntimeIdentity = st_ModelIdentitySHA256 startup, bo_ObservedAt = st_ObservedAt startup,
      bo_MaximumAge = sc_PredictiveMaximumMetricsAge cfg, bo_Running = st_Running startup,
      bo_Waiting = st_Waiting startup, bo_GenerationTokensTotal = st_Generation startup,
      bo_PreemptionsTotal = st_Preemptions startup,
      bo_RuntimeStartTime = st_RuntimeStartTime startup,
      bo_PrefillTokensTotal = st_PrefillCompute startup,
      bo_PrefillTokensValid = st_PrefillComputeValid startup\<rparr>"

definition newDefaultAdmissionService ::
  "(string \<Rightarrow> string) \<Rightarrow> (string \<Rightarrow> parsedURL option) \<Rightarrow> serviceConfig \<Rightarrow> serviceInputs \<Rightarrow>
   serviceError + (admissionRuntime \<times> admissionBackendObserver)" where
  "newDefaultAdmissionService sha parseURL cfg inp =
     (let metricsURL = strings_TrimSpace (sc_PredictiveMetricsURL cfg)
      in if metricsURL = [] then Inl ServiceMetricsURL
         else case waitPredictiveBackendStartup sha parseURL
             \<lparr>pp_MetricsURL = metricsURL, pp_StartupTimeout = sc_PredictiveStartupProbeTimeout cfg,
              pp_RequestTimeout = sc_PredictiveMetricsRequestTimeout cfg,
              pp_RetryInterval = sc_PredictiveObservationPollInterval cfg\<rparr> (sn_attempts inp) of
           None \<Rightarrow> Inl ServiceStartup
         | Some startup \<Rightarrow>
             let discovery = discoverPredictiveBackend cfg startup (sn_probed inp)
             in if sn_ctxDone inp then Inl ServiceContext
                else case NewAdmissionController (sn_address inp) (startupConfig cfg startup discovery) of
                  Inl err \<Rightarrow> Inl (ServiceController err)
                | Inr controller \<Rightarrow>
                    (case StartSampleWindow controller (sn_startAt inp) of
                       (c1, None) \<Rightarrow> Inl ServiceWindow
                     | (c1, Some window) \<Rightarrow>
                         (case PublishObservation c1 window (startupObservation cfg startup) (sn_publishAt inp) of
                            (c2, publication) \<Rightarrow>
                              if \<not> pr_Accepted publication then Inl (ServiceObservation (pr_Reason publication))
                              else case newAdmissionRuntime (Some c2) (Some (newAdmissionReporter (sn_logInterval inp)))
                                  (st_BackendKind startup) (sc_PredictiveAdmissionMode cfg) of
                                Inl err \<Rightarrow> Inl (ServiceRuntime err)
                              | Inr runtime \<Rightarrow>
                                  (case newAdmissionBackendObserver parseURL (st_BackendKind startup) metricsURL
                                      (st_ModelIdentitySHA256 startup) (sc_PredictiveObservationPollInterval cfg)
                                      (sc_PredictiveMaximumMetricsAge cfg) (sc_PredictiveMetricsRequestTimeout cfg) of
                                     None \<Rightarrow> Inl ServiceObserver
                                   | Some observer \<Rightarrow>
                                       Inr (runtime\<lparr>ru_observer := Some (Some None),
                                              ru_kvCapacityTokens := st_KVCapacityTokens startup,
                                              ru_warmPromptTokens := bd_WarmPromptTokens discovery,
                                              ru_backendTierScheduling := bd_BackendTierScheduling discovery\<rparr>, observer)))))"

end
