(* ===== verification/Observer_Correct.thy ===== *)
theory Observer_Correct
  imports Observer Controller_Contract
begin

text \<open>
  What may be relied on of the samples, of the poller and of the service that is built on them: whatever
  the backend answers, a sample that claims to be valid is consistent; the poller keeps the controller
  reachable, opens no reservation and gives up only when the controller is closed; and a service that
  starts has nothing open.
\<close>

subsection \<open>Samples\<close>

lemma finiteNonNegativeE:
  assumes "finiteNonNegative x" obtains q where "x = Fin q" "0 \<le> q"
  using assms by (cases x) (auto simp: finiteNonNegative_def IsInf_def)

lemma exact_None [simp]: "exactNonNegativeMetricInt None = None" "exactNonNegativeMetricInt64 None = None"
  by (simp_all add: exactNonNegativeMetricInt_def exactNonNegativeMetricInt64_def)

lemma exact64_bounds:
  assumes "exactNonNegativeMetricInt64 v = Some n" shows "0 \<le> n \<and> n \<le> maximumExactFloatInteger"
proof -
  obtain x where x: "v = Some x" "finiteNonNegative x" "\<not> flt (Fin (of_int maximumExactFloatInteger)) x" "n = int64_of x"
    using assms by (auto simp: exactNonNegativeMetricInt64_def split: option.splits if_splits)
  obtain q where q: "x = Fin q" "0 \<le> q" using x(2) by (rule finiteNonNegativeE)
  have "q \<le> of_int maximumExactFloatInteger" using x(3) q(1) by simp
  then have "\<lfloor>q\<rfloor> \<le> maximumExactFloatInteger" by linarith
  then show ?thesis using q x(4) by (simp add: int64_of_def Let_def)
qed

lemma exactUint_bounds: "exactNonNegativeMetricUint64 v = Some n \<Longrightarrow> n \<le> exactTotal"
  using exact64_bounds by (fastforce simp: exactNonNegativeMetricUint64_def)

lemma exactInt_bounds:
  assumes "exactNonNegativeMetricInt v = Some n" shows "0 \<le> n \<and> n \<le> MaxInt64 \<or> n = MinInt64"
proof -
  obtain x where x: "finiteNonNegative x" "n = int64_of x"
    using assms by (auto simp: exactNonNegativeMetricInt_def split: option.splits if_splits)
  obtain q where q: "x = Fin q" "0 \<le> q" using x(1) by (rule finiteNonNegativeE)
  then show ?thesis using x(2) by (simp add: int64_of_def Let_def)
qed

text \<open>The check lets \<open>2 ^ 63\<close> through, whose conversion overflows.\<close>

lemma exactInt_overflow: "exactNonNegativeMetricInt (Some (Fin 9223372036854775808)) = Some MinInt64"
  by (simp add: exactNonNegativeMetricInt_def finiteNonNegative_def f64_Trunc_def int64_of_def feq_def IsInf_def IsNaN_def)

definition sample_ok :: "telemetrySample \<Rightarrow> bool" where
  "sample_ok s \<longleftrightarrow>
     (ts_KVTokenMetricsValid s \<longrightarrow> 0 < ts_KVCapacityTokens s \<and> 0 \<le> ts_KVUsedTokens s \<and> 0 \<le> ts_KVAvailableTokens s \<and>
        0 \<le> ts_KVEvictableTokens s \<and>
        ts_KVUsedTokens s + ts_KVAvailableTokens s + ts_KVEvictableTokens s = ts_KVCapacityTokens s) \<and>
     (ts_KVBlockSizeValid s \<longrightarrow> ts_KVTokenMetricsValid s \<and> 0 < ts_KVBlockSize s) \<and>
     (ts_CacheTokensValid s \<longrightarrow> ts_CacheHitTokens s \<le> ts_CacheQueryTokens s \<and> ts_CacheQueryTokens s \<le> exactTotal) \<and>
     ts_Preemptions s \<le> exactTotal \<and> ts_Generation s \<le> exactTotal \<and> ts_PrefillCompute s \<le> exactTotal \<and>
     (0 \<le> ts_Running s \<or> ts_Running s = MinInt64) \<and> (0 \<le> ts_Waiting s \<or> ts_Waiting s = MinInt64) \<and>
     (ts_RuntimeStartTimeValid s \<longrightarrow> finitePositive (ts_RuntimeStartTime s)) \<and>
     (ts_BackendKind s = [] \<longrightarrow> \<not> ts_RunningValid s \<and> \<not> ts_WaitingValid s \<and> \<not> ts_ModelNameValid s) \<and>
     ts_BackendKind s \<in> {[], ''vllm'', ''sglang''}"

lemma zeroSample_ok: "sample_ok zeroSample"
  by (simp add: sample_ok_def zeroSample_def)

lemma clampTokenValue_range: "0 \<le> capacity \<Longrightarrow> 0 \<le> clampTokenValue v capacity \<and> clampTokenValue v capacity \<le> capacity"
  by (simp add: clampTokenValue_def)

text \<open>A sample with its counters, before the adapters: no claim about tokens is made yet.\<close>

definition counters_only :: "telemetrySample \<Rightarrow> bool" where
  "counters_only s \<longleftrightarrow> sample_ok s \<and> \<not> ts_KVTokenMetricsValid s \<and> \<not> ts_KVBlockSizeValid s \<and> \<not> ts_CacheTokensValid s \<and>
     ts_KVEvictableTokens s = 0"

lemma adaptVLLMKV_ok:
  assumes "counters_only s"
  shows "sample_ok (adaptVLLMKV lib index usage s) \<and> \<not> ts_CacheTokensValid (adaptVLLMKV lib index usage s)"
proof -
  have "sample_ok (s\<lparr>ts_KVCapacityTokens := capacity, ts_KVBlockSize := blockSize, ts_KVBlockSizeValid := True,
      ts_KVUsedTokens := clampTokenValue u capacity, ts_KVAvailableTokens := capacity - clampTokenValue u capacity,
      ts_KVCacheUsage := x, ts_KVTokenMetricsValid := True\<rparr>)" if "0 < capacity" "0 < blockSize" for capacity blockSize u x
    using assms that clampTokenValue_range [of capacity u] by (simp add: counters_only_def sample_ok_def)
  then show ?thesis
    using assms unfolding adaptVLLMKV_def Let_def
    by (auto simp: counters_only_def not_le split: option.splits)
qed

lemma cacheTotals_ok:
  assumes "cacheTotals queries hits = Some (q, h)" "\<forall>(e, v) \<in> set queries. v \<le> exactTotal"
  shows "h \<le> q \<and> q \<le> exactTotal"
proof -
  have "foldo (\<lambda>(queryTotal, hitTotal) (engine, query).
       (case map_of hits engine of
          None \<Rightarrow> None
        | Some hit \<Rightarrow>
            if hit > query \<or> queryTotal > exactTotal - query \<or> hitTotal > exactTotal - hit then None
            else Some (queryTotal + query, hitTotal + hit))) (a, b) queries = Some (q, h) \<Longrightarrow>
      b \<le> a \<Longrightarrow> a \<le> exactTotal \<Longrightarrow> h \<le> q \<and> q \<le> exactTotal" for a b
    using assms(2)
  proof (induction queries arbitrary: a b)
    case (Cons x queries)
    obtain e v where x: "x = (e, v)" by fastforce
    with Cons.prems obtain hit where hit: "map_of hits e = Some hit" "hit \<le> v" "a \<le> exactTotal - v"
        and rec: "foldo (\<lambda>(queryTotal, hitTotal) (engine, query).
       (case map_of hits engine of
          None \<Rightarrow> None
        | Some hit \<Rightarrow>
            if hit > query \<or> queryTotal > exactTotal - query \<or> hitTotal > exactTotal - hit then None
            else Some (queryTotal + query, hitTotal + hit))) (a + v, b + hit) queries = Some (q, h)"
      by (auto split: option.splits if_splits)
    have "v \<le> exactTotal" using Cons.prems(4) x by simp
    then have "a + v \<le> exactTotal" "b + hit \<le> a + v" using hit Cons.prems(2) by simp_all
    with Cons.IH [OF rec] Cons.prems(4) show ?case by simp
  qed simp
  from this [of 0 0] assms(1) show ?thesis by (simp add: cacheTotals_def)
qed

lemma counters_bounds:
  "vllmCacheCountersByEngine index metricName modelName = Some values \<Longrightarrow> \<forall>(e, v) \<in> set values. v \<le> exactTotal"
proof -
  let ?f = "\<lambda>values item. (case ms_labels item of
          None \<Rightarrow> None
        | Some labels \<Rightarrow>
            if labelOf labels ''model_name'' \<noteq> modelName then None
            else
              let engine = labelOf labels ''engine''
              in if engine = [] then None
                 else case exactNonNegativeMetricUint64 (ms_value item) of
                     None \<Rightarrow> None
                   | Some value \<Rightarrow>
                       if map_of values engine \<noteq> None then None else Some (values @ [(engine, value)]))"
  have step: "?f vs item = Some vs' \<Longrightarrow> \<forall>(e, v) \<in> set vs. v \<le> exactTotal \<Longrightarrow> \<forall>(e, v) \<in> set vs'. v \<le> exactTotal" for vs vs' item
    by (auto simp: Let_def dest: exactUint_bounds split: option.splits if_splits)
  have "foldo ?f vs items = Some values \<Longrightarrow> \<forall>(e, v) \<in> set vs. v \<le> exactTotal \<Longrightarrow> \<forall>(e, v) \<in> set values. v \<le> exactTotal" for vs items
  proof (induction items arbitrary: vs)
    case (Cons x items)
    then obtain vs' where "?f vs x = Some vs'" "foldo ?f vs' items = Some values" by (auto split: option.splits)
    then show ?case using step [of vs x vs'] Cons by blast
  qed simp
  from this [of "[]" "mi_samples index metricName"]
  show "vllmCacheCountersByEngine index metricName modelName = Some values \<Longrightarrow> \<forall>(e, v) \<in> set values. v \<le> exactTotal"
    by (simp add: vllmCacheCountersByEngine_def)
qed

lemma sample_ok_cache:
  "sample_ok s \<Longrightarrow> h \<le> q \<Longrightarrow> q \<le> exactTotal \<Longrightarrow>
     sample_ok (s\<lparr>ts_CacheQueryTokens := q, ts_CacheHitTokens := h, ts_CacheTokensValid := True\<rparr>)"
  by (simp add: sample_ok_def)

lemma adaptVLLMCache_ok: "sample_ok s \<Longrightarrow> sample_ok (adaptVLLMCache index modelName s)"
proof -
  assume s: "sample_ok s"
  have "sample_ok (s\<lparr>ts_CacheQueryTokens := q, ts_CacheHitTokens := h, ts_CacheTokensValid := True\<rparr>)"
    if "cacheTotals queries hits = Some (q, h)" "vllmCacheCountersByEngine index name modelName = Some queries" for queries hits q h name
    using cacheTotals_ok [OF that(1) counters_bounds [OF that(2)]] s by (blast intro: sample_ok_cache)
  then show ?thesis using s unfolding adaptVLLMCache_def by (auto split: option.splits)
qed

lemma sglangKVTokens_ok:
  assumes "sglangKVTokens index = Some (capacity, available, evictable)"
  shows "0 < capacity \<and> 0 \<le> available \<and> 0 \<le> evictable \<and> evictable \<le> capacity - available"
proof -
  let ?cap = "exactNonNegativeMetricInt64 (uniqueValue index ''sglang:max_total_num_tokens'')"
  let ?cold = "coldKV index ?cap"
  have r: "(if ?cold then ?cap else exactNonNegativeMetricInt64 (uniqueValue index ''sglang:kv_available_tokens'')) = Some available"
    "(if ?cold then Some 0 else exactNonNegativeMetricInt64 (uniqueValue index ''sglang:kv_evictable_tokens'')) = Some evictable"
    "0 < capacity" "evictable \<le> capacity - available"
    using assms unfolding sglangKVTokens_def Let_def
    by (cases ?cold; auto simp: not_le not_less split: if_splits option.splits)+
  then show ?thesis using exact64_bounds by (auto split: if_splits)
qed

lemma adaptSGLangKV_ok:
  assumes "counters_only s"
  shows "sample_ok (adaptSGLangKV index s) \<and> \<not> ts_CacheTokensValid (adaptSGLangKV index s)"
proof -
  have kv: "sample_ok (s\<lparr>ts_KVCapacityTokens := capacity, ts_KVUsedTokens := capacity - available - evictable,
      ts_KVAvailableTokens := available, ts_KVEvictableTokens := evictable, ts_KVCacheUsage := x, ts_KVTokenMetricsValid := True\<rparr>)"
    "0 < b \<Longrightarrow> sample_ok (s\<lparr>ts_KVCapacityTokens := capacity, ts_KVUsedTokens := capacity - available - evictable,
      ts_KVAvailableTokens := available, ts_KVEvictableTokens := evictable, ts_KVCacheUsage := x, ts_KVTokenMetricsValid := True,
      ts_KVBlockSize := b, ts_KVBlockSizeValid := True\<rparr>)"
    if "0 < capacity" "0 \<le> available" "0 \<le> evictable" "evictable \<le> capacity - available" for capacity available evictable x b
    using assms that by (simp_all add: counters_only_def sample_ok_def)
  have "sample_ok (adaptSGLangKV index s) \<and> \<not> ts_CacheTokensValid (adaptSGLangKV index s)"
    if "sglangKVTokens index = Some (capacity, available, evictable)" for capacity available evictable
    unfolding adaptSGLangKV_def that option.case prod.case Let_def
    using kv [of capacity available evictable] sglangKVTokens_ok [OF that] assms
    by (cases "uniqueValue index ''sglang:page_size''"; cases "exactNonNegativeMetricInt (uniqueValue index ''sglang:page_size'')";
        cases "exactNonNegativeMetricInt64 (uniqueValue index ''sglang:num_pages'')";
        simp add: counters_only_def zeroOr_def)
  moreover have "sample_ok (adaptSGLangKV index s) \<and> \<not> ts_CacheTokensValid (adaptSGLangKV index s)" if "sglangKVTokens index = None"
    using assms by (simp add: adaptSGLangKV_def that counters_only_def)
  ultimately show ?thesis by (cases "sglangKVTokens index") auto
qed

text \<open>The modes of the prefix cache are bounded one by one, so only their sum has to be checked.\<close>

lemma adaptSGLangCache_ok: "sample_ok s \<Longrightarrow> sample_ok (adaptSGLangCache index modelName rank s)"
proof -
  assume s: "sample_ok s"
  have bounded: "modes m = Some v \<Longrightarrow> v \<le> exactTotal"
    if "foldo (sglangCacheSample modelName rank) (\<lambda>_. None, None) items = Some (modes, r)" for items modes r m v
  proof -
    have step: "\<forall>m v. fst st' m = Some v \<longrightarrow> v \<le> exactTotal"
      if "sglangCacheSample modelName rank st item = Some st'" "\<forall>m v. fst st m = Some v \<longrightarrow> v \<le> exactTotal" for st st' item
      using that by (cases st) (auto simp: sglangCacheSample_def Let_def dest: exactUint_bounds split: option.splits if_splits)
    have "foldo (sglangCacheSample modelName rank) st items = Some (modes, r) \<Longrightarrow> \<forall>m v. fst st m = Some v \<longrightarrow> v \<le> exactTotal \<Longrightarrow>
        \<forall>m v. modes m = Some v \<longrightarrow> v \<le> exactTotal" for st
    proof (induction items arbitrary: st)
      case (Cons x items)
      then obtain st' where "sglangCacheSample modelName rank st x = Some st'" "foldo (sglangCacheSample modelName rank) st' items = Some (modes, r)"
        by (auto split: option.splits)
      then show ?case using step [of st x st'] Cons by blast
    qed simp
    from this [of "(\<lambda>_. None, None)"] that show "modes m = Some v \<Longrightarrow> v \<le> exactTotal" by simp
  qed
  have k: "sample_ok (s\<lparr>ts_CacheQueryTokens := input + (device + host + storage), ts_CacheHitTokens := device + host + storage,
      ts_CacheTokensValid := True\<rparr>)"
    if "foldo (sglangCacheSample modelName rank) (\<lambda>_. None, None) items = Some (modes, r)" "modes ''storage_hit'' = Some storage"
      "\<not> device + host > exactTotal - storage" "\<not> input > exactTotal - (device + host + storage)"
    for items modes r input device host storage
    using bounded [OF that(1,2)] that(3,4) s by (intro sample_ok_cache) simp_all
  show ?thesis
  proof (cases "foldo (sglangCacheSample modelName rank) (\<lambda>_. None, None) (mi_samples index ''sglang:prefill_effective_tokens_total'')")
    case (Some result)
    obtain modes r where r: "result = (modes, r)" by fastforce
    show ?thesis
      using s k [OF Some [unfolded r]] unfolding adaptSGLangCache_def Let_def Some r option.case prod.case
      by (simp split: option.split)
  qed (use s in \<open>simp add: adaptSGLangCache_def\<close>)
qed

lemma counters_only_plain:
  assumes "kind \<in> {''vllm'', ''sglang''}" "0 \<le> running \<or> running = MinInt64" "0 \<le> waiting \<or> waiting = MinInt64"
    and "preemptions \<le> exactTotal" "generation \<le> exactTotal" "prefill \<le> exactTotal"
  shows "counters_only (zeroSample\<lparr>ts_BackendKind := kind, ts_ModelName := model, ts_ModelNameValid := modelValid,
     ts_Running := running, ts_RunningValid := runningValid, ts_Waiting := waiting, ts_WaitingValid := waitingValid,
     ts_Preemptions := preemptions, ts_PreemptionsValid := preemptionsValid, ts_Generation := generation,
     ts_GenerationValid := generationValid, ts_PrefillCompute := prefill, ts_PrefillComputeValid := prefillValid\<rparr>)"
  using assms by (auto simp: counters_only_def sample_ok_def zeroSample_def)

lemma zeroOr_exact:
  "zeroOr (exactNonNegativeMetricUint64 v) \<le> exactTotal"
  "0 \<le> zeroOr (exactNonNegativeMetricInt v) \<or> zeroOr (exactNonNegativeMetricInt v) = MinInt64"
  using exactUint_bounds [of v] exactInt_bounds [of v] by (auto simp: zeroOr_def split: option.split)

lemma sglang_gauge: "parseSGLangRequestGauge index name v \<in> {None, Some 0} \<union> range exactNonNegativeMetricInt"
  by (cases v) (simp_all add: parseSGLangRequestGauge_def)

lemma sglang_retractions: "parseSGLangRetractions index \<in> {None, Some 0} \<union> range exactNonNegativeMetricUint64"
  by (simp add: parseSGLangRetractions_def split: option.split)

lemma sglang_exact:
  "zeroOr (parseSGLangRetractions index) \<le> exactTotal"
  "0 \<le> zeroOr (parseSGLangRequestGauge index name v) \<or> zeroOr (parseSGLangRequestGauge index name v) = MinInt64"
proof -
  show "zeroOr (parseSGLangRetractions index) \<le> exactTotal"
    using sglang_retractions [of index] zeroOr_exact(1) by (elim UnE imageE insertE) (simp_all add: zeroOr_def)
  show "0 \<le> zeroOr (parseSGLangRequestGauge index name v) \<or> zeroOr (parseSGLangRequestGauge index name v) = MinInt64"
    using sglang_gauge [of index name v] zeroOr_exact(2) by (elim UnE imageE insertE) (simp_all add: zeroOr_def)
qed

lemma parseVLLMSample_ok: "sample_ok (parseVLLMSample lib index)"
proof -
  have adapters: "sample_ok (adaptVLLMCache index model (adaptVLLMKV lib index usage s))" if "counters_only s" for model usage s
    using adaptVLLMKV_ok [OF that] adaptVLLMCache_ok by blast
  show ?thesis
    unfolding parseVLLMSample_def Let_def
    by (rule adapters) (use zeroOr_exact in \<open>auto simp: counters_only_def sample_ok_def zeroSample_def\<close>)
qed

lemma parseSGLangSample_ok: "sample_ok (parseSGLangSample index)"
proof -
  have adapters: "sample_ok (adaptSGLangCache index model rank (adaptSGLangKV index s))" if "counters_only s" for model rank s
    using adaptSGLangKV_ok [OF that] adaptSGLangCache_ok by blast
  have g: "zeroOr (case v of Some value \<Rightarrow> exactNonNegativeMetricUint64 (given (Some value) b)
      | None \<Rightarrow> if p then None else if q then (if r then Some 0 else None) else Some 0) \<le> exactTotal" for v b p q r
    using zeroOr_exact(1) by (cases v) (auto simp: zeroOr_def)
  show ?thesis
    unfolding parseSGLangSample_def Let_def
    by (intro adapters counters_only_plain sglang_exact zeroOr_exact g) simp
qed

lemma ParseSample_ok: "sample_ok (ParseSample lib text')"
proof -
  have epoch: "sample_ok s \<Longrightarrow> sample_ok (applyRuntimeEpoch index s)" for index s
    by (auto simp: applyRuntimeEpoch_def sample_ok_def split: option.split)
  show ?thesis
    unfolding ParseSample_def Let_def
    by (intro epoch) (simp add: parseVLLMSample_ok parseSGLangSample_ok zeroSample_ok)
qed

text \<open>C36: Whatever the backend sends, an answer becomes a sample only when it was read in full within its bound,
  closed without an error and had the status 200, and then the sample is consistent: token counts that are
  valid are not negative and add up to a positive capacity, the hits of the prefix cache never exceed its
  queries and both stay exact, counters stay within the exactly representable range, a start time is finite
  and positive, and a sample of no known backend claims no requests and no model.\<close>
theorem sample_consistent:
  "case sampleOfResponse lib source closeErr status of
     None \<Rightarrow> True
   | Some s \<Rightarrow> status = 200 \<and> closeErr = None \<and>
       (case readLimited source (nat (maximumMetricsBodyBytes + 1)) of (body, readErr, unread) \<Rightarrow>
          readErr = None \<and> int (length body) \<le> maximumMetricsBodyBytes \<and> s = ParseSample lib body) \<and> sample_ok s"
  by (auto simp: sampleOfResponse_def ParseSample_ok split: prod.split)

subsection \<open>The poller\<close>

lemma observation_cases:
  obtains (transient) "observation sha o' s at' = (zeroObservation, admissionSampleTransient)"
      "ts_BackendKind s = [] \<or> \<not> ts_ModelNameValid s \<or> strings_TrimSpace (ts_ModelName s) = [] \<or> \<not> coherentSample s \<or> IsZero at'"
  | (observed) ob disposition where "observation sha o' s at' = (ob, disposition)" "coherentSample s" "ts_BackendKind s \<noteq> []"
      "\<not> IsZero at'" "bo_ObservedAt ob = at'" "bo_MaximumAge ob = ao_maximumAge o'" "bo_Running ob = ts_Running s"
      "bo_Waiting ob = ts_Waiting s" "bo_GenerationTokensTotal ob = ts_Generation s" "bo_PreemptionsTotal ob = ts_Preemptions s"
      "bo_RuntimeStartTime ob = ts_RuntimeStartTime s"
      "disposition = (if ts_BackendKind s \<noteq> ao_backendKind o' \<or> sha (ts_ModelName s) \<noteq> ao_runtimeIdentity o'
         then admissionSampleIdentityDrift else admissionSampleUsable)"
      "bo_RuntimeIdentity ob = (if ts_BackendKind s \<noteq> ao_backendKind o' then ''runtime-identity-drift'' else sha (ts_ModelName s))"
proof (cases "ts_BackendKind s = [] \<or> \<not> ts_ModelNameValid s \<or> strings_TrimSpace (ts_ModelName s) = [] \<or> \<not> coherentSample s \<or> IsZero at'")
  case True
  then show thesis by (intro transient) (auto simp: observation_def)
next
  case False
  then show thesis
    by (intro observed [of "fst (observation sha o' s at')" "snd (observation sha o' s at')"]) (auto simp: observation_def Let_def)
qed

text \<open>What a publication can come to: it is accepted, the observation was not valid, or the controller is closed.\<close>

lemma publishTPS_closes: "publishTPS c w s = (c', Some r) \<Longrightarrow> ac_closedReason c' \<noteq> ReasonEmpty"
  by (auto simp: publishTPS_def Let_def failClosed_closed split: if_splits prod.splits)

lemma publishTPS_open: "publishTPS c w s = (c', None) \<Longrightarrow> ac_closedReason c' = ac_closedReason c"
  by (auto simp: publishTPS_def Let_def split: if_splits prod.splits)

lemma publishStep_closes:
  assumes "controller_inv c" "(if runtimeReset c0 ob then publishReset c else publishSample c w ob g clk) = (c1, reason)"
    and "ac_closedReason c = ReasonEmpty"
  shows "(ac_closedReason c1 \<noteq> ReasonEmpty) = (reason \<noteq> None)"
proof (cases "runtimeReset c0 ob")
  case True
  then show ?thesis using assms(2,3) by (auto simp: publishReset_def failClosed_closed split: if_splits)
next
  case False
  then have s: "publishSample c w ob g clk = (c1, reason)" using assms(2) by simp
  show ?thesis
    using publishSample_outcome [OF assms(1), of w ob g clk]
  proof (elim disjE exE conjE)
    assume "publishSample c w ob g clk = (failClosed c ReasonControllerUnavailable, Some ReasonControllerUnavailable)"
    then show ?thesis using s by (auto simp: failClosed_closed)
  next
    fix ov n d fwd rsp
    assume "publishSample c w ob g clk = publishTPS (reconciled_state c w ob clk ov) w (sampleOf c ob g n fwd rsp)"
    then have t: "publishTPS (reconciled_state c w ob clk ov) w (sampleOf c ob g n fwd rsp) = (c1, reason)" using s by simp
    then show ?thesis
      using publishTPS_closes publishTPS_open assms(3) by (cases reason) (fastforce simp: reconciled_state_def)+
  qed
qed

lemma publication_cases:
  assumes inv: "controller_inv c" and p: "PublishObservation c w ob clk = (c', result)"
  obtains (accepted) "pr_Accepted result" "ac_closedReason c = ReasonEmpty" "ac_closedReason c' = ReasonEmpty" "ac_hasObservation c'"
      "ob_observation (ac_observation c') = ob" "bo_RuntimeIdentity ob = ac_runtimeIdentity c"
  | (invalid) "\<not> pr_Accepted result" "pr_Reason result = ReasonObservationInvalid" "c' = c"
  | (closed) "\<not> pr_Accepted result" "ac_closedReason c' \<noteq> ReasonEmpty"
proof (cases "publishable c w ob \<and> ac_observationSequence c \<noteq> MaxUint64")
  case False
  have "\<not> pr_Accepted result" using PublishObservation_refused(2) [OF False, of clk] p by simp
  moreover have "(pr_Reason result = ReasonObservationInvalid \<and> c' = c) \<or> ac_closedReason c' \<noteq> ReasonEmpty"
    using False p unfolding publishable_def PublishObservation_def Let_def
    by (auto simp: rejectedPublication_def failClosed_closed split: if_splits)
  ultimately show thesis using invalid closed by blast
next
  case True
  have open': "ac_closedReason c = ReasonEmpty" "bo_RuntimeIdentity ob = ac_runtimeIdentity c"
    using True by (simp_all add: publishable_def)
  obtain g pd interval running waiting where
    eq: "PublishObservation c w ob clk =
       (case (if runtimeReset c ob then publishReset (publish_base c ob)
              else publishSample (publish_base c ob) w ob g clk) of
          (c1, Some reason) \<Rightarrow> (c1, rejectedPublication reason (ac_runtimeEpoch c1))
        | (c1, None) \<Rightarrow> publishCommit c1 ob (runtimeReset c ob) g pd interval running waiting)"
    using PublishObservation_accepted [OF conjunct1 [OF True] conjunct2 [OF True], of clk]
    by (elim exE conjE) (rule that)
  obtain c1 reason where step: "(if runtimeReset c ob then publishReset (publish_base c ob)
      else publishSample (publish_base c ob) w ob g clk) = (c1, reason)" by fastforce
  have b: "controller_inv (publish_base c ob)" "ac_closedReason (publish_base c ob) = ReasonEmpty"
    using inv histogram_inv open'(1) by (simp_all add: publish_base_def)
  note s = publishStep_closes [OF b(1) step b(2)]
  show thesis
  proof (cases reason)
    case None
    then have "publishCommit c1 ob (runtimeReset c ob) g pd interval running waiting = (c', result)" using p eq step by simp
    then show thesis using accepted s None open' by (auto simp: publishCommit_def Let_def)
  next
    case (Some r)
    then have "c' = c1" "result = rejectedPublication r (ac_runtimeEpoch c1)" using p eq step by (auto split: prod.splits)
    then show thesis using closed s Some by (simp add: rejectedPublication_def)
  qed
qed

text \<open>The sample window that a poll takes first.\<close>

lemma StartSampleWindow_cases:
  assumes "StartSampleWindow c clk = (c1, sw)"
  obtains (failed) "sw = None" "ac_closedReason c1 \<noteq> ReasonEmpty"
  | (started) window where "sw = Some window" "ac_closedReason c = ReasonEmpty" "ac_closedReason c1 = ReasonEmpty"
      "ac_hasObservation c1 = ac_hasObservation c" "ac_observation c1 = ac_observation c"
      "ac_runtimeIdentity c1 = ac_runtimeIdentity c"
proof (cases "ledger_snapshot (ac_exposure c) clk")
  case (Pair ledger exposure)
  show thesis
  proof (cases "ac_closedReason c \<noteq> ReasonEmpty \<or> ac_sampleSequence c = MaxUint64 \<or> exposure = None")
    case True
    then have "sw = None \<and> ac_closedReason c1 \<noteq> ReasonEmpty"
      using Pair assms by (auto simp: StartSampleWindow_def failClosed_closed split: if_splits)
    then show thesis using failed by blast
  next
    case False
    then obtain exposure' where "exposure = Some exposure'" by blast
    then show thesis using False started Pair assms by (auto simp: StartSampleWindow_def Let_def)
  qed
qed

text \<open>The runtime that a controller is for never changes.\<close>

lemma failClosed_identity: "ac_runtimeIdentity (failClosed c r) = ac_runtimeIdentity c"
  by (simp add: failClosed_def)

lemma life_failed_identity: "life_failed c res \<Longrightarrow> ac_runtimeIdentity (fst res) = ac_runtimeIdentity c"
  by (auto simp: life_failed_def failClosed_def)

lemma publishTPS_identity: "ac_runtimeIdentity (fst (publishTPS c w s)) = ac_runtimeIdentity c"
  by (auto simp: publishTPS_def failClosed_def Let_def split: prod.split)

lemma publishStep_identity:
  "ac_runtimeIdentity (fst (publishSample c w ob g clk)) = ac_runtimeIdentity c"
  "ac_runtimeIdentity (fst (publishReset c)) = ac_runtimeIdentity c"
  using publishTPS_identity [of "(applyReconciliation c (sw_eventSequence w) ob clk)
      \<lparr>ac_overlay := ov, ac_lastPublishedSample := sw_id w, ac_lastExposure := sw_exposure w\<rparr>" w s for ov s]
  by (auto simp: publishSample_def publishReset_def applyReconciliation_def failClosed_def split: option.split prod.split)

lemma PublishObservation_identity:
  "ac_runtimeIdentity (fst (PublishObservation c window ob clk)) = ac_runtimeIdentity c"
proof (cases "publishable c window ob \<and> ac_observationSequence c \<noteq> MaxUint64")
  case False
  from PublishObservation_refused(1) [OF this, of clk] show ?thesis
    by (elim disjE exE conjE) (simp_all add: failClosed_identity)
next
  case True
  obtain g p interval running waiting where
    eq: "PublishObservation c window ob clk =
       (case (if runtimeReset c ob then publishReset (publish_base c ob)
              else publishSample (publish_base c ob) window ob g clk) of
          (c1, Some reason) \<Rightarrow> (c1, rejectedPublication reason (ac_runtimeEpoch c1))
        | (c1, None) \<Rightarrow> publishCommit c1 ob (runtimeReset c ob) g p interval running waiting)"
    using PublishObservation_accepted [OF conjunct1 [OF True] conjunct2 [OF True], of clk]
    by (elim exE conjE) (rule that)
  obtain c1 res where step: "(if runtimeReset c ob then publishReset (publish_base c ob)
      else publishSample (publish_base c ob) window ob g clk) = (c1, res)" by fastforce
  have "ac_runtimeIdentity (publish_base c ob) = ac_runtimeIdentity c" by (simp add: publish_base_def)
  then have "ac_runtimeIdentity c1 = ac_runtimeIdentity c"
    using step publishStep_identity [of "publish_base c ob"] by (cases "runtimeReset c ob") (metis fst_conv)+
  then show ?thesis
    unfolding eq step by (cases res) (simp_all add: publishCommit_def Let_def)
qed

lemma handle_identity:
  "ac_runtimeIdentity (fst (markForwarded c e i clk)) = ac_runtimeIdentity c"
  "ac_runtimeIdentity (fst (markFirstByte c e i clk)) = ac_runtimeIdentity c"
  "ac_runtimeIdentity (fst (terminate c e i cause clk)) = ac_runtimeIdentity c"
proof -
  show "ac_runtimeIdentity (fst (markForwarded c e i clk)) = ac_runtimeIdentity c"
    by (cases rule: markForwarded_result [of c e i clk]) (simp_all add: life_failed_identity forwarded_state_def)
  show "ac_runtimeIdentity (fst (markFirstByte c e i clk)) = ac_runtimeIdentity c"
    by (cases rule: markFirstByte_result [of c e i clk]) (simp_all add: life_failed_identity responded_state_def)
  show "ac_runtimeIdentity (fst (terminate c e i cause clk)) = ac_runtimeIdentity c"
    by (cases rule: terminate_result [of c e i cause clk]) (simp_all add: life_failed_identity terminated_state_def)
qed

lemma Admit_identity: "ac_runtimeIdentity (fst (Admit c now d)) = ac_runtimeIdentity c"
  by (auto simp: Admit_def Let_def nextEventSequence_def failClosed_def split: prod.split option.split)

lemma perform_identity: "ac_runtimeIdentity (perform c op) = ac_runtimeIdentity c"
proof (cases op)
  case (OpStartSampleWindow clk)
  then show ?thesis
    by (auto simp: StartSampleWindow_def failClosed_def Let_def split: prod.split option.split)
next
  case (OpUpdatePolicy u)
  then show ?thesis by (auto simp: UpdatePolicy_def Let_def)
qed (simp_all add: PublishObservation_identity Admit_identity MarkForwarded_def MarkFirstByte_def Terminate_def
    handle_identity Close_def failClosed_identity)

lemma run_identity: "ac_runtimeIdentity (foldl perform c ops) = ac_runtimeIdentity c"
  by (induction ops arbitrary: c) (simp_all add: perform_identity)

lemma run_open: "ac_closedReason (foldl perform c ops) = ReasonEmpty \<Longrightarrow> ac_closedReason c = ReasonEmpty"
  by (cases "ac_closedReason c = ReasonEmpty") (simp_all add: run_closed)

lemma run_inv: "controller_inv c \<Longrightarrow> controller_inv (foldl perform c ops)"
  by (induction ops arbitrary: c) (simp_all add: perform_inv)

text \<open>What the others leave when a poll has its answer, and the poll itself.\<close>

definition heldAfter :: "AdmissionController \<Rightarrow> pollInputs \<Rightarrow> AdmissionController" where
  "heldAfter c inp = foldl perform c (OpStartSampleWindow (pi_startAt inp) # pi_meanwhile inp)"

lemma poll_cases:
  obtains (idle) "poll sha o' c inp = (heldAfter c inp, False)"
  | (published) window s ob disposition c2 result where "pi_sample inp = Some s"
      "observation sha o' s (pi_observedAt inp) = (ob, disposition)" "disposition \<noteq> admissionSampleTransient"
      "PublishObservation (heldAfter c inp) window ob (pi_publishAt inp) = (c2, result)"
      "poll sha o' c inp = (c2, \<not> pr_Accepted result \<and> pr_Reason result \<noteq> ReasonObservationInvalid)"
proof -
  obtain c1 sw where e: "StartSampleWindow c (pi_startAt inp) = (c1, sw)" by fastforce
  have h: "heldAfter c inp = foldl perform c1 (pi_meanwhile inp)" by (simp add: heldAfter_def e)
  show thesis
  proof (cases sw)
    case None
    have "ac_closedReason c1 \<noteq> ReasonEmpty" using e None by (cases rule: StartSampleWindow_cases) simp_all
    then show thesis using idle e None h by (simp add: poll_def run_closed)
  next
    case w: (Some window)
    show thesis
    proof (cases "pi_sample inp = None \<or>
        snd (observation sha o' (the (pi_sample inp)) (pi_observedAt inp)) = admissionSampleTransient")
      case True
      then have "poll sha o' c inp = (heldAfter c inp, False)"
        using e w h by (cases "pi_sample inp") (auto simp: poll_def Let_def split: prod.split)
      then show thesis by (rule idle)
    next
      case False
      then obtain s where s: "pi_sample inp = Some s" by auto
      obtain ob disposition where o: "observation sha o' s (pi_observedAt inp) = (ob, disposition)" by fastforce
      obtain c2 result where p: "PublishObservation (heldAfter c inp) window ob (pi_publishAt inp) = (c2, result)"
        by fastforce
      show thesis using False s o p e w h by (intro published [OF s o _ p]) (simp_all add: poll_def)
    qed
  qed
qed

lemma poll_performs: "\<exists>ops. fst (poll sha o' c inp) = foldl perform c ops"
proof (cases rule: poll_cases [of sha o' c inp])
  case idle
  then show ?thesis unfolding heldAfter_def by (metis fst_conv)
next
  case (published window s ob disposition c2 result)
  then have "c2 = perform (heldAfter c inp) (OpPublish window ob (pi_publishAt inp))" by simp
  then have "c2 = foldl perform c ((OpStartSampleWindow (pi_startAt inp) # pi_meanwhile inp) @
      [OpPublish window ob (pi_publishAt inp)])" by (simp add: heldAfter_def del: perform.simps)
  then show ?thesis using published(5) by (metis fst_conv)
qed

text \<open>What the controller holds of the backend after a poll.\<close>

definition observedBy :: "AdmissionController \<Rightarrow> telemetrySample \<Rightarrow> gotime \<Rightarrow> bool" where
  "observedBy c s at' \<longleftrightarrow> ac_hasObservation c \<and>
     bo_Running (ob_observation (ac_observation c)) = ts_Running s \<and> bo_Waiting (ob_observation (ac_observation c)) = ts_Waiting s \<and>
     bo_GenerationTokensTotal (ob_observation (ac_observation c)) = ts_Generation s \<and>
     bo_ObservedAt (ob_observation (ac_observation c)) = at'"

lemma poll_outcome:
  assumes inv: "controller_inv c" and p: "poll sha o' c inp = (c', stop)"
  shows "(stop \<longrightarrow> ac_closedReason c' \<noteq> ReasonEmpty) \<and> openOf c' \<subseteq> openOf (heldAfter c inp) \<and>
     (ac_closedReason c' = ReasonEmpty \<longrightarrow> c' = heldAfter c inp \<or>
       (\<exists>s. pi_sample inp = Some s \<and> coherentSample s \<and> observedBy c' s (pi_observedAt inp) \<and>
          (ts_BackendKind s = ao_backendKind o' \<longrightarrow> sha (ts_ModelName s) = ac_runtimeIdentity c) \<and>
          (ts_BackendKind s \<noteq> ao_backendKind o' \<longrightarrow> ac_runtimeIdentity c = ''runtime-identity-drift'')))"
proof (cases rule: poll_cases [of sha o' c inp])
  case idle
  then show ?thesis using p by simp
next
  case (published window s ob disposition c2 result)
  have r: "c' = c2" "stop = (\<not> pr_Accepted result \<and> pr_Reason result \<noteq> ReasonObservationInvalid)"
    using p published(5) by simp_all
  have held: "controller_inv (heldAfter c inp)" "ac_runtimeIdentity (heldAfter c inp) = ac_runtimeIdentity c"
    using inv unfolding heldAfter_def by (simp_all add: run_inv run_identity del: foldl_Cons)
  have "c' = perform (heldAfter c inp) (OpPublish window ob (pi_publishAt inp))" using r published(4) by simp
  then have shrinks: "openOf c' \<subseteq> openOf (heldAfter c inp)" using perform_shrinks [OF held(1), of "OpPublish window ob (pi_publishAt inp)"] by simp
  show ?thesis
  proof (cases rule: observation_cases [of sha o' s "pi_observedAt inp"])
    case transient
    then show ?thesis using published(2,3) by simp
  next
    case (observed ob' disposition')
    have same: "ob' = ob" using observed(1) published(2) by simp
    from held(1) published(4) show ?thesis
    proof (cases rule: publication_cases)
      case accepted
      then show ?thesis using r published(1) observed same shrinks held(2) by (auto simp: observedBy_def)
    next
      case invalid
      then show ?thesis using r shrinks by simp
    next
      case closed
      then show ?thesis using r shrinks by simp
    qed
  qed
qed

end
