(* ===== verification/Startup.thy ===== *)
theory Startup
  imports Observer_Correct Scenario
begin

text \<open>
  The service at its start: what it takes to start it, and the state it is in when it has started. A new
  controller accepts its first sample window and a first valid observation, which the lemmas compute
  without a concrete configuration.
\<close>

subsection \<open>The first observation of a controller\<close>

lemma guarded_Inr:
  "(if p then Inl e else if q then Inl f else if r then Inl g else Inr x) = Inr c \<Longrightarrow> x = c"
  by (simp split: if_split_asm)

lemma new_fields:
  assumes "NewAdmissionController a cf = Inr c"
  shows "ac_self c = a" "ac_runtimeIdentity c = cf_RuntimeIdentity cf" "ac_hasObservation c = False"
    "ac_closedReason c = ReasonEmpty" "ac_reservations c = []" "ac_observationSequence c = 0"
    "ac_lastExposure c = zeroExposure" "ac_runtimeEpoch c = 1" "ac_sampleSequence c = 0" "ac_eventSequence c = 0"
    "ac_lastPublishedSample c = 0" "ac_overlay c = zeroOverlay" "ac_exposure c = zeroLedger" "ac_tpsPolicyEpoch c = 1"
    "ac_runningLimit c = cf_RunningLimit cf"
  unfolding guarded_Inr [OF assms [unfolded NewAdmissionController_def Let_def], symmetric] by simp_all

definition startedLedger :: "gotime \<Rightarrow> sequenceExposureLedger" where
  "startedLedger clk = zeroLedger\<lparr>el_initialized := True, el_lastEventAt := clk\<rparr>"

lemma snapshot_new:
  "ledger_snapshot zeroLedger clk =
     (if IsZero clk then (zeroLedger, None) else (startedLedger clk, Some zeroExposure))"
  by (simp add: ledger_snapshot_def advance_def startedLedger_def zeroLedger_def ledger_valid_iff zeroExposure_def
      Let_def snapshot_valid_iff)

definition firstWindow :: "nat \<Rightarrow> SampleWindow" where
  "firstWindow a = \<lparr>sw_controller = Some a, sw_runtimeEpoch = 1, sw_tpsPolicyEpoch = 1, sw_id = 1,
     sw_eventSequence = 0, sw_exposure = zeroExposure\<rparr>"

lemma startWindow_new:
  assumes "NewAdmissionController a cf = Inr c"
  shows "StartSampleWindow c clk =
    (if IsZero clk then (failClosed c ReasonControllerUnavailable, None)
     else (c\<lparr>ac_sampleSequence := 1, ac_exposure := startedLedger clk\<rparr>, Some (firstWindow a)))"
  by (cases "IsZero clk")
     (simp_all add: StartSampleWindow_def new_fields [OF assms] snapshot_new firstWindow_def failClosed_def ledger_reset_def)

lemma publish_new:
  assumes "NewAdmissionController a cf = Inr c" "StartSampleWindow c clk = (c1, Some w)" "bo_RuntimeIdentity ob = cf_RuntimeIdentity cf"
  shows "PublishObservation c1 w ob clk' =
    (if validBackendObservation ob
     then publishCommit (c1\<lparr>ac_lastPublishedSample := 1\<rparr>) ob False 0 0 0 0 0
     else (c1, rejectedPublication ReasonObservationInvalid 1))"
proof -
  have nz: "\<not> IsZero clk" using assms(2) startWindow_new [OF assms(1), of clk] by auto
  have c1: "c1 = c\<lparr>ac_sampleSequence := 1, ac_exposure := startedLedger clk\<rparr>" and w: "w = firstWindow a"
    using assms(2) startWindow_new [OF assms(1), of clk] nz by simp_all
  have f: "ac_self c1 = a" "ac_runtimeIdentity c1 = cf_RuntimeIdentity cf" "ac_hasObservation c1 = False"
    "ac_closedReason c1 = ReasonEmpty" "ac_reservations c1 = []" "ac_observationSequence c1 = 0"
    "ac_lastExposure c1 = zeroExposure" "ac_runtimeEpoch c1 = 1" "ac_sampleSequence c1 = 1"
    "ac_lastPublishedSample c1 = 0" "ac_overlay c1 = zeroOverlay"
    unfolding c1 using new_fields [OF assms(1)] by simp_all
  have acceptable: "window_acceptable c1 w" by (simp add: window_acceptable_def f w firstWindow_def)
  have "publishSample c1 w ob g clk' = (c1\<lparr>ac_reservations := [], ac_overlay := zeroOverlay,
      ac_lastPublishedSample := 1, ac_lastExposure := zeroExposure\<rparr>, None)" for g
    by (simp add: publishSample_def f w firstWindow_def zeroExposure_subtract zeroExposure_seconds reconciledOverlay_def publishTPS_def
        applyReconciliation_def)
  moreover have "c1\<lparr>ac_reservations := [], ac_overlay := zeroOverlay, ac_lastPublishedSample := 1,
      ac_lastExposure := zeroExposure\<rparr> = c1\<lparr>ac_lastPublishedSample := 1\<rparr>"
    using f by (cases c1) simp
  ultimately have "publishSample c1 w ob g clk' = (c1\<lparr>ac_lastPublishedSample := 1\<rparr>, None)" for g by simp
  then show ?thesis
    using acceptable assms(3) by (simp add: PublishObservation_def f runtimeReset_def)
qed

lemma new_publication:
  assumes "NewAdmissionController a cf = Inr c" "StartSampleWindow c clk = (c1, Some w)" "bo_RuntimeIdentity ob = cf_RuntimeIdentity cf"
    and "PublishObservation c1 w ob clk' = (c2, result)"
  shows "pr_Accepted result = validBackendObservation ob"
    and "pr_Accepted result \<Longrightarrow> reachable c2 \<and> openOf c2 = {} \<and> ac_closedReason c2 = ReasonEmpty \<and> ac_hasObservation c2 \<and>
      ob_observation (ac_observation c2) = ob \<and> ac_runtimeIdentity c2 = cf_RuntimeIdentity cf \<and>
      ac_runningLimit c2 = cf_RunningLimit cf"
proof -
  note p = publish_new [OF assms(1-3), of clk']
  show accepted: "pr_Accepted result = validBackendObservation ob"
    using p assms(4) by (auto simp: publishCommit_def Let_def rejectedPublication_def split: if_splits)
  assume "pr_Accepted result"
  then have c2: "c2 = fst (publishCommit (c1\<lparr>ac_lastPublishedSample := 1\<rparr>) ob False 0 0 0 0 0)"
    using p assms(4) accepted by (metis fst_conv)
  have c1: "c1 = c\<lparr>ac_sampleSequence := 1, ac_exposure := startedLedger clk\<rparr>"
    using assms(2) startWindow_new [OF assms(1), of clk] by (simp split: if_splits)
  have "c2 = foldl perform c [OpStartSampleWindow clk, OpPublish w ob clk']" using assms(2,4) by simp
  then have "reachable c2" using perform_run [OF reachable.new [OF assms(1)]] by metis
  then show "reachable c2 \<and> openOf c2 = {} \<and> ac_closedReason c2 = ReasonEmpty \<and> ac_hasObservation c2 \<and>
      ob_observation (ac_observation c2) = ob \<and> ac_runtimeIdentity c2 = cf_RuntimeIdentity cf \<and>
      ac_runningLimit c2 = cf_RunningLimit cf"
    using new_fields [OF assms(1)] unfolding c2 c1 by (simp add: publishCommit_def Let_def openOf_def)
qed

subsection \<open>What it takes to start the service\<close>

lemma wait_startup:
  assumes "startupAttempts sha attempts = Some st"
  obtains s at' where "(Some s, at') \<in> set attempts" "predictiveBackendStartupFromSample sha s at' = Some st"
  using assms
proof (induction attempts)
  case (Cons x attempts)
  obtain fetched at' where x: "x = (fetched, at')" by fastforce
  show ?case
  proof (cases "Option.bind fetched (\<lambda>s. predictiveBackendStartupFromSample sha s at')")
    case None
    then show ?thesis using Cons x by auto
  next
    case (Some st')
    then show ?thesis using Cons.prems x by (cases fetched) auto
  qed
qed simp

lemma startup_fields:
  assumes "predictiveBackendStartupFromSample sha s at' = Some st"
  shows "coherentSample s" "st_BackendKind st = ts_BackendKind s" "st_BackendKind st = ''vllm'' \<or> st_BackendKind st = ''sglang''"
    "st_ModelIdentitySHA256 st = sha (ts_ModelName s)" "st_Running st = ts_Running s" "st_Waiting st = ts_Waiting s"
    "st_Generation st = ts_Generation s" "st_Preemptions st = ts_Preemptions s"
    "st_RuntimeStartTime st = ts_RuntimeStartTime s" "st_ObservedAt st = at'" "\<not> IsZero at'"
  using assms by (auto simp: predictiveBackendStartupFromSample_def split: if_splits)

text \<open>The conditions on the configuration, and those on the backend and what was found out about it.\<close>

definition probeUsable :: "(string \<Rightarrow> parsedURL option) \<Rightarrow> serviceConfig \<Rightarrow> bool" where
  "probeUsable parseURL cfg \<longleftrightarrow> strings_TrimSpace (strings_TrimSpace (sc_PredictiveMetricsURL cfg)) \<noteq> [] \<and>
     0 < sc_PredictiveStartupProbeTimeout cfg \<and> 0 < sc_PredictiveMetricsRequestTimeout cfg \<and>
     sc_PredictiveMetricsRequestTimeout cfg \<le> sc_PredictiveStartupProbeTimeout cfg \<and>
     0 < sc_PredictiveObservationPollInterval cfg \<and> httpURL parseURL (strings_TrimSpace (sc_PredictiveMetricsURL cfg))"

definition settingsUsable :: "(string \<Rightarrow> parsedURL option) \<Rightarrow> serviceConfig \<Rightarrow> bool" where
  "settingsUsable parseURL cfg \<longleftrightarrow>
     probeUsable parseURL cfg \<and> plainURL parseURL (strings_TrimSpace (sc_PredictiveMetricsURL cfg)) \<and>
     sc_PredictiveAdmissionMode cfg \<in> {''enforce'', ''shadow''} \<and>
     finiteNonnegative (sc_PredictiveTPSReference cfg) \<and> \<not> flt (Fin 1000000) (sc_PredictiveTPSReference cfg) \<and>
     0 \<le> sc_PredictiveWindowConcurrency cfg \<and> sc_PredictiveWindowConcurrency cfg \<le> maximumTPSReservations \<and>
     0 \<le> wrap64 (3 * sc_PredictiveObservationPollInterval cfg) \<and>
     sc_PredictiveObservationPollInterval cfg \<le> sc_PredictiveMaximumMetricsAge cfg"

definition backendUsable :: "predictiveBackendStartup \<Rightarrow> predictiveBackendDiscovery \<Rightarrow> bool" where
  "backendUsable st discovery \<longleftrightarrow>
     validPredictiveModelIdentitySHA256 (ToLower (strings_TrimSpace (st_ModelIdentitySHA256 st))) \<and>
     0 \<le> bd_RunningLimit discovery \<and> bd_RunningLimit discovery \<le> maximumTPSReservations \<and>
     \<not> flt (st_RuntimeStartTime st) (Fin 0) \<and> \<not> IsNaN (st_RuntimeStartTime st) \<and> \<not> IsInf (st_RuntimeStartTime st)"

lemma startup_observation_valid:
  assumes "startupAttempts sha attempts = Some st" "0 < sc_PredictiveMaximumMetricsAge cfg" "st_ModelIdentitySHA256 st \<noteq> []"
  shows "validBackendObservation (startupObservation cfg st) =
     (\<not> flt (st_RuntimeStartTime st) (Fin 0) \<and> \<not> IsNaN (st_RuntimeStartTime st) \<and> \<not> IsInf (st_RuntimeStartTime st))"
proof -
  from assms(1) obtain s at' where "predictiveBackendStartupFromSample sha s at' = Some st" by (rule wait_startup)
  note f = startup_fields [OF this]
  show ?thesis
    using f(1,11) assms(2,3)
    by (auto simp: validBackendObservation_def startupObservation_def f(5,6,9,10) coherentSample_def addNonnegativeInt64_def)
qed

lemma new_controller_valid:
  "(\<exists>c. NewAdmissionController a cfg = Inr c \<and> ac_closedReason c = ReasonEmpty \<and> ac_reservations c = []) =
     (cf_RuntimeIdentity cfg \<noteq> '''' \<and>
     finiteNonnegative (cf_TPSReference cfg) \<and> \<not> flt (Fin 1000000) (cf_TPSReference cfg) \<and>
     0 \<le> cf_WindowConcurrency cfg \<and> cf_WindowConcurrency cfg \<le> maximumTPSReservations \<and>
     0 \<le> cf_RunningLimit cfg \<and> cf_RunningLimit cfg \<le> maximumTPSReservations \<and>
     0 \<le> cf_PendingFirstByteLeaseDuration cfg \<and>
     (if 0 < cf_RunningLimit cfg
      then RunningLimitSource_valid (cf_RunningLimitSource cfg) \<and> cf_RunningLimitSource cfg \<noteq> RunningLimitSourceUnknown
      else RunningLimitSource_valid (cf_RunningLimitSource cfg) \<or> cf_RunningLimitSource cfg = RunningLimitSourceEmpty))"
  by (auto simp: NewAdmissionController_def Let_def)


lemma predictive_histogram: "NewPredictiveDurationHistogram \<noteq> None"
  by (simp add: NewPredictiveDurationHistogram_def newStaticDurationHistogram_def NewDurationHistogramWithBuckets_def static_bounds)

lemma discovery_source:
  "if 0 < bd_RunningLimit (discoverPredictiveBackend cfg st probed)
   then RunningLimitSource_valid (bd_RunningLimitSource (discoverPredictiveBackend cfg st probed)) \<and>
     bd_RunningLimitSource (discoverPredictiveBackend cfg st probed) \<noteq> RunningLimitSourceUnknown
   else RunningLimitSource_valid (bd_RunningLimitSource (discoverPredictiveBackend cfg st probed)) \<or>
     bd_RunningLimitSource (discoverPredictiveBackend cfg st probed) = RunningLimitSourceEmpty"
  by (auto simp: discoverPredictiveBackend_def Let_def split: option.split)

lemma startup_controller:
  "(\<exists>c. NewAdmissionController a (startupConfig cfg st (discoverPredictiveBackend cfg st probed)) = Inr c) =
     (st_ModelIdentitySHA256 st \<noteq> [] \<and>
      finiteNonnegative (sc_PredictiveTPSReference cfg) \<and> \<not> flt (Fin 1000000) (sc_PredictiveTPSReference cfg) \<and>
      0 \<le> sc_PredictiveWindowConcurrency cfg \<and> sc_PredictiveWindowConcurrency cfg \<le> maximumTPSReservations \<and>
      0 \<le> bd_RunningLimit (discoverPredictiveBackend cfg st probed) \<and>
      bd_RunningLimit (discoverPredictiveBackend cfg st probed) \<le> maximumTPSReservations \<and>
      0 \<le> wrap64 (3 * sc_PredictiveObservationPollInterval cfg))"
proof -
  have "(\<exists>c. NewAdmissionController a cf = Inr c) =
      (\<exists>c. NewAdmissionController a cf = Inr c \<and> ac_closedReason c = ReasonEmpty \<and> ac_reservations c = [])" for cf
    using new_fields by blast
  then show ?thesis
    using discovery_source [of cfg st probed] by (simp add: new_controller_valid startupConfig_def)
qed

lemma observer_accepted:
  assumes "kind = ''vllm'' \<or> kind = ''sglang''"
  shows "newAdmissionBackendObserver parseURL kind url identity interval age timeout =
    (if plainURL parseURL url \<and> validPredictiveModelIdentitySHA256 (ToLower (strings_TrimSpace identity)) \<and> 0 < interval \<and>
        interval \<le> age \<and> 0 < timeout
     then Some \<lparr>ao_backendKind = kind, ao_runtimeIdentity = ToLower (strings_TrimSpace identity), ao_pollInterval = interval,
       ao_maximumAge = age\<rparr>
     else None)"
proof -
  have "strings_TrimSpace ''vllm'' = ''vllm''" "strings_TrimSpace ''sglang'' = ''sglang''" by code_simp+
  then show ?thesis using assms by (auto simp: newAdmissionBackendObserver_def Let_def)
qed

lemma identity_nonempty: "validPredictiveModelIdentitySHA256 (ToLower (strings_TrimSpace [])) = False"
  by code_simp

definition startable :: "(string \<Rightarrow> string) \<Rightarrow> (string \<Rightarrow> parsedURL option) \<Rightarrow> serviceConfig \<Rightarrow> serviceInputs \<Rightarrow> bool" where
  "startable sha parseURL cfg inp \<longleftrightarrow>
     settingsUsable parseURL cfg \<and> \<not> sn_ctxDone inp \<and> \<not> IsZero (sn_startAt inp) \<and>
     (case startupAttempts sha (sn_attempts inp) of
        None \<Rightarrow> False
      | Some st \<Rightarrow> backendUsable st (discoverPredictiveBackend cfg st (sn_probed inp)))"

text \<open>What has started: the service, its poller, the backend they were started for.\<close>

definition startedFor ::
  "serviceConfig \<Rightarrow> serviceInputs \<Rightarrow> predictiveBackendStartup \<Rightarrow> admissionRuntime \<Rightarrow> admissionBackendObserver \<Rightarrow> bool" where
  "startedFor cfg inp st rt ob \<longleftrightarrow>
     reachable (ru_controller rt) \<and> runtimeOpen rt = {} \<and> ac_closedReason (ru_controller rt) = ReasonEmpty \<and>
     ac_hasObservation (ru_controller rt) \<and>
     ob_observation (ac_observation (ru_controller rt)) = startupObservation cfg st \<and>
     ac_runtimeIdentity (ru_controller rt) = st_ModelIdentitySHA256 st \<and>
     ac_runningLimit (ru_controller rt) = bd_RunningLimit (discoverPredictiveBackend cfg st (sn_probed inp)) \<and>
     ru_mode rt = sc_PredictiveAdmissionMode cfg \<and> ru_backendKind rt = st_BackendKind st \<and>
     ao_backendKind ob = st_BackendKind st \<and> ao_runtimeIdentity ob = ToLower (strings_TrimSpace (st_ModelIdentitySHA256 st))"

abbreviation startupWait ::
  "(string \<Rightarrow> string) \<Rightarrow> (string \<Rightarrow> parsedURL option) \<Rightarrow> serviceConfig \<Rightarrow> serviceInputs \<Rightarrow> predictiveBackendStartup option" where
  "startupWait sha parseURL cfg inp \<equiv> waitPredictiveBackendStartup sha parseURL
     \<lparr>pp_MetricsURL = strings_TrimSpace (sc_PredictiveMetricsURL cfg), pp_StartupTimeout = sc_PredictiveStartupProbeTimeout cfg,
      pp_RequestTimeout = sc_PredictiveMetricsRequestTimeout cfg, pp_RetryInterval = sc_PredictiveObservationPollInterval cfg\<rparr>
     (sn_attempts inp)"

lemma startupWait_eq:
  "startupWait sha parseURL cfg inp = (if probeUsable parseURL cfg then startupAttempts sha (sn_attempts inp) else None)"
  by (auto simp: waitPredictiveBackendStartup_def validatePredictiveBackendStartupProbe_def probeUsable_def)

text \<open>The tail of the construction, once the controller has been asked for its first observation.\<close>

lemma service_tail:
  assumes wait: "startupAttempts sha (sn_attempts inp) = Some st"
    and url: "strings_TrimSpace (sc_PredictiveMetricsURL cfg) \<noteq> []" "probeUsable parseURL cfg" and ctx: "\<not> sn_ctxDone inp"
    and new: "NewAdmissionController (sn_address inp)
      (startupConfig cfg st (discoverPredictiveBackend cfg st (sn_probed inp))) = Inr c"
    and window: "StartSampleWindow c (sn_startAt inp) = (c1, Some w)"
    and pub: "PublishObservation c1 w (startupObservation cfg st) (sn_publishAt inp) = (c2, result)"
  shows "case newDefaultAdmissionService sha parseURL cfg inp of
      Inl e \<Rightarrow> \<not> startable sha parseURL cfg inp
    | Inr (rt, ob) \<Rightarrow> startable sha parseURL cfg inp \<and> startedFor cfg inp st rt ob"
proof -
  let ?d = "discoverPredictiveBackend cfg st (sn_probed inp)"
  obtain s at' where "predictiveBackendStartupFromSample sha s at' = Some st" using wait by (rule wait_startup)
  then have kind: "st_BackendKind st = ''vllm'' \<or> st_BackendKind st = ''sglang''" by (rule startup_fields(3))
  have rhs: "st_ModelIdentitySHA256 st \<noteq> []" "finiteNonnegative (sc_PredictiveTPSReference cfg)"
    "\<not> flt (Fin 1000000) (sc_PredictiveTPSReference cfg)" "0 \<le> sc_PredictiveWindowConcurrency cfg"
    "sc_PredictiveWindowConcurrency cfg \<le> maximumTPSReservations" "0 \<le> bd_RunningLimit ?d"
    "bd_RunningLimit ?d \<le> maximumTPSReservations" "0 \<le> wrap64 (3 * sc_PredictiveObservationPollInterval cfg)"
    using startup_controller [of "sn_address inp" cfg st "sn_probed inp"] new by blast+
  have start: "\<not> IsZero (sn_startAt inp)" using window startWindow_new [OF new, of "sn_startAt inp"] by auto
  have same: "bo_RuntimeIdentity (startupObservation cfg st) = cf_RuntimeIdentity (startupConfig cfg st ?d)"
    by (simp add: startupObservation_def startupConfig_def)
  note made = new_publication [OF new window same pub]
  have valid: "0 < sc_PredictiveMaximumMetricsAge cfg \<Longrightarrow> pr_Accepted result =
      (\<not> flt (st_RuntimeStartTime st) (Fin 0) \<and> \<not> IsNaN (st_RuntimeStartTime st) \<and> \<not> IsInf (st_RuntimeStartTime st))"
    using made(1) startup_observation_valid [OF wait _ rhs(1)] by blast
  have config: "cf_RuntimeIdentity (startupConfig cfg st ?d) = st_ModelIdentitySHA256 st"
    "cf_RunningLimit (startupConfig cfg st ?d) = bd_RunningLimit ?d"
    by (simp_all add: startupConfig_def)
  have started: "startupWait sha parseURL cfg inp = Some st" using wait url(2) by (simp add: startupWait_eq)
  define ok where "ok \<longleftrightarrow> plainURL parseURL (strings_TrimSpace (sc_PredictiveMetricsURL cfg)) \<and>
     validPredictiveModelIdentitySHA256 (ToLower (strings_TrimSpace (st_ModelIdentitySHA256 st))) \<and>
     0 < sc_PredictiveObservationPollInterval cfg \<and>
     sc_PredictiveObservationPollInterval cfg \<le> sc_PredictiveMaximumMetricsAge cfg \<and> 0 < sc_PredictiveMetricsRequestTimeout cfg"
  have interval: "0 < sc_PredictiveObservationPollInterval cfg" "0 < sc_PredictiveMetricsRequestTimeout cfg"
    using url(2) by (simp_all add: probeUsable_def)
  have can: "startable sha parseURL cfg inp = (pr_Accepted result \<and> sc_PredictiveAdmissionMode cfg \<in> {''enforce'', ''shadow''} \<and> ok)"
    using valid rhs start url ctx interval
    by (auto simp: startable_def settingsUsable_def backendUsable_def wait ok_def)
  show ?thesis
  proof (cases "pr_Accepted result \<and> sc_PredictiveAdmissionMode cfg \<in> {''enforce'', ''shadow''} \<and> ok")
    case False
    then have "\<exists>e. newDefaultAdmissionService sha parseURL cfg inp = Inl e"
      using kind url ctx
      by (auto simp: newDefaultAdmissionService_def Let_def started new window pub newAdmissionRuntime_def
          observer_accepted [OF kind] ok_def [symmetric] split: option.split)
    then show ?thesis using False can by auto
  next
    case True
    obtain h where h: "NewPredictiveDurationHistogram = Some h" using predictive_histogram by blast
    show ?thesis
      using True can made(2) kind url ctx
      by (auto simp: newDefaultAdmissionService_def Let_def started new window pub newAdmissionRuntime_def h
          observer_accepted [OF kind] ok_def [symmetric] startedFor_def runtimeOpen_def config)
  qed
qed

lemma service_outcome:
  "case newDefaultAdmissionService sha parseURL cfg inp of
     Inl e \<Rightarrow> \<not> startable sha parseURL cfg inp
   | Inr (rt, ob) \<Rightarrow> startable sha parseURL cfg inp \<and>
       (case startupAttempts sha (sn_attempts inp) of
          None \<Rightarrow> False
        | Some st \<Rightarrow> startedFor cfg inp st rt ob)"
proof (cases "strings_TrimSpace (sc_PredictiveMetricsURL cfg) = [] \<or> \<not> probeUsable parseURL cfg \<or> sn_ctxDone inp")
  case True
  have "strings_TrimSpace [] = []" by code_simp
  then show ?thesis using True
    by (auto simp: newDefaultAdmissionService_def startable_def settingsUsable_def Let_def startupWait_eq probeUsable_def
        split: option.split)
next
  case False
  then have probe: "startupWait sha parseURL cfg inp = startupAttempts sha (sn_attempts inp)" by (simp add: startupWait_eq)
  show ?thesis
  proof (cases "startupAttempts sha (sn_attempts inp)")
    case None
    then show ?thesis using False probe by (simp add: newDefaultAdmissionService_def startable_def Let_def)
  next
    case wait: (Some st)
    let ?d = "discoverPredictiveBackend cfg st (sn_probed inp)"
    show ?thesis
    proof (cases "NewAdmissionController (sn_address inp) (startupConfig cfg st ?d)")
      case (Inl e)
      then have "newDefaultAdmissionService sha parseURL cfg inp = Inl (ServiceController e)"
        using False wait probe by (simp add: newDefaultAdmissionService_def Let_def)
      moreover have "\<not> startable sha parseURL cfg inp"
        using startup_controller [of "sn_address inp" cfg st "sn_probed inp"] Inl identity_nonempty wait
        by (auto simp: startable_def settingsUsable_def backendUsable_def)
      ultimately show ?thesis by simp
    next
      case new: (Inr c)
      obtain c1 sw where window: "StartSampleWindow c (sn_startAt inp) = (c1, sw)" by fastforce
      show ?thesis
      proof (cases sw)
        case None
        then have "IsZero (sn_startAt inp)" using window startWindow_new [OF new, of "sn_startAt inp"] by (auto split: if_splits)
        then show ?thesis using False wait probe new window None by (simp add: newDefaultAdmissionService_def startable_def Let_def)
      next
        case (Some w)
        obtain c2 result where "PublishObservation c1 w (startupObservation cfg st) (sn_publishAt inp) = (c2, result)" by fastforce
        from service_tail [OF wait _ _ _ new window [unfolded Some] this, of parseURL] False
        show ?thesis unfolding wait option.case by blast
      qed
    qed
  qed
qed


subsection \<open>The poller of a started service\<close>

lemma observerLoop_keeps:
  assumes "reachable c" "stop \<longrightarrow> ac_closedReason c \<noteq> ReasonEmpty" "observerLoop sha o' (c, stop) inputs = (c', stop')"
  shows "reachable c' \<and> ac_runtimeIdentity c' = ac_runtimeIdentity c \<and> (stop' \<longrightarrow> ac_closedReason c' \<noteq> ReasonEmpty)"
  using assms
proof (induction inputs arbitrary: c stop)
  case (Cons inp inputs)
  let ?inp = "if stop then inp\<lparr>pi_sample := None\<rparr> else inp"
  let ?c = "foldl perform c (pi_before inp)"
  obtain c1 now where p: "poll sha o' ?c ?inp = (c1, now)" by fastforce
  obtain ops where ops: "c1 = foldl perform ?c ops" using poll_performs [of sha o' ?c ?inp] p by auto
  have r: "reachable c1" "ac_runtimeIdentity c1 = ac_runtimeIdentity c"
    using perform_run [OF perform_run [OF Cons.prems(1)]] ops by (simp_all add: run_identity)
  have "controller_inv ?c" using reachable_inv [OF perform_run [OF Cons.prems(1)]] .
  then have "now \<longrightarrow> ac_closedReason c1 \<noteq> ReasonEmpty" using poll_outcome [OF _ p] by blast
  moreover have "stop \<longrightarrow> ac_closedReason c1 \<noteq> ReasonEmpty" using Cons.prems(2) ops by (auto simp: run_closed)
  ultimately have "stop \<or> now \<longrightarrow> ac_closedReason c1 \<noteq> ReasonEmpty" by blast
  moreover have "observerLoop sha o' (c1, stop \<or> now) inputs = (c', stop')" using Cons.prems(3) p by simp
  ultimately show ?case using Cons.IH [OF r(1)] r(2) by metis
qed simp

text \<open>C38: Whatever the backend answers and whatever requests do to the controller before and during a
  poll, a poll keeps the controller reachable and reserves nothing itself, and the poller has stopped only
  when the controller is closed. As long as the controller is open, a poll either leaves it as the requests
  left it or replaces its observation by the counters of a coherent sample of the backend kind and the
  model that the service was started for.\<close>
theorem observer_follows_backend:
  assumes "newDefaultAdmissionService sha parseURL cfg svc = Inr (rt, ob)"
    and "\<And>m. ToLower (strings_TrimSpace (sha m)) = sha m"
    and "observerLoop sha ob (ru_controller rt, False) inputs = (c, stopped)"
    and "poll sha ob (foldl perform c (pi_before inp)) inp = (c', stop)"
  shows "reachable c' \<and> (stopped \<or> stop \<longrightarrow> ac_closedReason c' \<noteq> ReasonEmpty) \<and>
     openOf c' \<subseteq> openOf (heldAfter (foldl perform c (pi_before inp)) inp) \<and>
     (ac_closedReason c' = ReasonEmpty \<longrightarrow>
        c' = heldAfter (foldl perform c (pi_before inp)) inp \<or>
        (\<exists>s. pi_sample inp = Some s \<and> coherentSample s \<and> ts_BackendKind s = ru_backendKind rt \<and>
           sha (ts_ModelName s) = ac_runtimeIdentity (ru_controller rt) \<and> observedBy c' s (pi_observedAt inp)))"
proof -
  obtain st where st: "startupAttempts sha (sn_attempts svc) = Some st" "startedFor cfg svc st rt ob"
    using service_outcome [of sha parseURL cfg svc] assms(1) by (auto split: option.splits)
  have usable: "backendUsable st (discoverPredictiveBackend cfg st (sn_probed svc))"
    using service_outcome [of sha parseURL cfg svc] assms(1) st(1) by (simp add: startable_def)
  obtain s at' where "predictiveBackendStartupFromSample sha s at' = Some st" using st(1) by (rule wait_startup)
  then have "st_ModelIdentitySHA256 st = sha (ts_ModelName s)" by (rule startup_fields(4))
  then have lower: "ToLower (strings_TrimSpace (st_ModelIdentitySHA256 st)) = st_ModelIdentitySHA256 st" using assms(2) by simp
  have start: "reachable (ru_controller rt)" "ac_runtimeIdentity (ru_controller rt) = st_ModelIdentitySHA256 st"
    "ao_backendKind ob = ru_backendKind rt"
    using st(2) by (simp_all add: startedFor_def)
  have nodrift: "st_ModelIdentitySHA256 st \<noteq> ''runtime-identity-drift''"
    using usable lower by (auto simp: backendUsable_def validPredictiveModelIdentitySHA256_def)
  let ?c = "foldl perform c (pi_before inp)"
  have loop: "reachable c" "ac_runtimeIdentity c = st_ModelIdentitySHA256 st" "stopped \<longrightarrow> ac_closedReason c \<noteq> ReasonEmpty"
    using observerLoop_keeps [OF start(1) _ assms(3)] start(2) by simp_all
  have c: "reachable ?c" "ac_runtimeIdentity ?c = st_ModelIdentitySHA256 st"
    using loop by (simp_all add: perform_run run_identity)
  obtain ops where ops: "c' = foldl perform ?c ops" using poll_performs [of sha ob ?c inp] assms(4) by auto
  have "stopped \<longrightarrow> ac_closedReason c' \<noteq> ReasonEmpty" using loop(3) ops by (auto simp: run_closed)
  moreover have "reachable c'" using ops c(1) by (simp add: perform_run)
  ultimately show ?thesis
    using poll_outcome [OF reachable_inv [OF c(1)] assms(4)] c(2) start(2,3) nodrift by metis
qed

text \<open>A service that starts after one failed attempt, and a poll that finds another model behind the address.\<close>

definition demoSha :: "string \<Rightarrow> string" where
  "demoSha name = replicate 64 (if name = ''m'' then CHR ''a'' else CHR ''b'')"

definition demoBackendSample :: "string \<Rightarrow> telemetrySample" where
  "demoBackendSample name = zeroSample\<lparr>ts_BackendKind := ''vllm'', ts_ModelName := name, ts_ModelNameValid := True,
     ts_Running := 2, ts_RunningValid := True, ts_WaitingValid := True, ts_PreemptionsValid := True, ts_GenerationValid := True\<rparr>"

definition demoURL :: "string \<Rightarrow> parsedURL option" where
  "demoURL address = Some \<lparr>url_Scheme = ''http'', url_Host = ''backend'', url_RawQuery = [], url_Fragment = []\<rparr>"

definition demoServiceConfig :: serviceConfig where
  "demoServiceConfig = \<lparr>sc_PredictiveMetricsURL = ''http://backend/metrics'', sc_PredictiveAdmissionMode = ''enforce'',
     sc_PredictiveTPSReference = Fin 0, sc_PredictiveWindowConcurrency = 4, sc_PredictiveRunningLimit = 8,
     sc_PredictiveRunningLimitConfigured = True, sc_PredictiveObservationPollInterval = Second,
     sc_PredictiveMaximumMetricsAge = 60 * Second, sc_PredictiveMetricsRequestTimeout = Second, sc_PredictiveStartupProbeTimeout = 10 * Second\<rparr>"

definition demoServiceInputs :: serviceInputs where
  "demoServiceInputs = \<lparr>sn_attempts = [(None, 1), (Some (demoBackendSample ''m''), 2)], sn_probed = None, sn_ctxDone = False,
     sn_address = 7, sn_startAt = 3, sn_publishAt = 4, sn_logInterval = 30 * Second\<rparr>"

definition demoPoll :: "string \<Rightarrow> pollInputs" where
  "demoPoll name = \<lparr>pi_before = [], pi_meanwhile = [], pi_startAt = 5, pi_sample = Some (demoBackendSample name), pi_observedAt = 6, pi_publishAt = 7\<rparr>"

lemma demoSha_lower: "ToLower (strings_TrimSpace (demoSha m)) = demoSha m"
proof -
  have "ToLower (strings_TrimSpace (replicate 64 (CHR ''a''))) = replicate 64 (CHR ''a'')"
    "ToLower (strings_TrimSpace (replicate 64 (CHR ''b''))) = replicate 64 (CHR ''b'')" by code_simp+
  then show ?thesis by (simp add: demoSha_def)
qed

lemma demo_startable: "startable demoSha demoURL demoServiceConfig demoServiceInputs"
  by code_simp

lemma observer_follows_backend_witness:
  "\<exists>rt ob. newDefaultAdmissionService demoSha demoURL demoServiceConfig demoServiceInputs = Inr (rt, ob) \<and>
     reachable (fst (poll demoSha ob (ru_controller rt) (demoPoll ''other''))) \<and>
     (ac_closedReason (fst (poll demoSha ob (ru_controller rt) (demoPoll ''other''))) = ReasonEmpty \<longrightarrow>
        fst (poll demoSha ob (ru_controller rt) (demoPoll ''other'')) = heldAfter (ru_controller rt) (demoPoll ''other'') \<or>
        demoSha ''other'' = ac_runtimeIdentity (ru_controller rt))"
proof -
  obtain rt ob where s: "newDefaultAdmissionService demoSha demoURL demoServiceConfig demoServiceInputs = Inr (rt, ob)"
    using service_outcome [of demoSha demoURL demoServiceConfig demoServiceInputs] demo_startable
    by (auto split: sum.splits)
  obtain c' stop where p: "poll demoSha ob (foldl perform (ru_controller rt) (pi_before (demoPoll ''other''))) (demoPoll ''other'') = (c', stop)"
    by fastforce
  have e: "poll demoSha ob (ru_controller rt) (demoPoll ''other'') = (c', stop)" using p by (simp add: demoPoll_def)
  have l: "observerLoop demoSha ob (ru_controller rt, False) [] = (ru_controller rt, False)" by simp
  show ?thesis
    using observer_follows_backend [OF s demoSha_lower l p] s e
    by (auto simp: demoPoll_def demoBackendSample_def)
qed

end
