(* ===== verification/Endpoints.thy ===== *)
theory Endpoints
  imports Scheduling Runtime
begin

text \<open>
  What the server does with a request before it is classified, in \<open>internal/app/server\<close>: the routes of
  \<open>route_policy.go\<close> and their order in \<open>proxy.go\<close>, the check of the token of \<open>metrics.go\<close>, readiness and
  status for the router (\<open>readiness.go\<close>, \<open>upstream_status.go\<close>), the policy that is read and changed over
  HTTP (\<open>predictive_policy_api.go\<close>), and the deadlines and connections of \<open>http_io.go\<close>.

  A request is the fields of \<open>http.Request\<close> that are read. \<open>URL.EscapedPath\<close> without a raw path and
  \<open>path.Clean\<close> of a rooted path are written out from the documentation of the standard library. What JSON
  decoding and \<open>mime.ParseMediaType\<close> give is part of the request.
\<close>

subsection \<open>Routes\<close>

record goURL =
  gu_Scheme :: string
  gu_Opaque :: string
  gu_Host :: string
  gu_Path :: string
  gu_RawPath :: string
  gu_Fragment :: string

record goRequest =
  gr_Method :: string
  gr_URL :: "goURL option"
  gr_RequestURI :: string
  gr_Authorization :: "string list"

datatype routeRejectionClass = routeRejectionNonCanonical | routeRejectionMethod | routeRejectionUnknown

datatype localManagementHandler =
    localManagementHealth | localManagementReady | localManagementPIGMetrics | localManagementCombinedMetrics
  | localManagementUpstreamStatus | localManagementPredictivePolicy | localManagementAttestation

text \<open>The bytes of a path that are not escaped: letters, digits and some marks.\<close>

definition pathByte :: "char \<Rightarrow> bool" where
  "pathByte c \<longleftrightarrow>
     (let n = of_char c :: nat in 48 \<le> n \<and> n \<le> 57 \<or> 65 \<le> n \<and> n \<le> 90 \<or> 97 \<le> n \<and> n \<le> 122) \<or>
     c \<in> set ''-_.~$&+,/:;=@''"

definition upperHex :: "nat \<Rightarrow> char" where
  "upperHex n = ''0123456789ABCDEF'' ! n"

definition EscapedPath :: "string \<Rightarrow> string" where
  "EscapedPath p =
     (if p = ''*'' then ''*''
      else concat (map (\<lambda>c. if pathByte c then [c]
        else [CHR ''%'', upperHex (of_char c div 16), upperHex (of_char c mod 16)]) p))"

fun splitPath :: "string \<Rightarrow> string list" where
  "splitPath [] = [[]]"
| "splitPath (c # s) =
     (if c = CHR ''/'' then [] # splitPath s
      else case splitPath s of [] \<Rightarrow> [[c]] | x # xs \<Rightarrow> (c # x) # xs)"

fun joinPath :: "string list \<Rightarrow> string" where
  "joinPath [] = []"
| "joinPath [x] = x"
| "joinPath (x # y # xs) = x @ CHR ''/'' # joinPath (y # xs)"

definition cleanElements :: "string list \<Rightarrow> string list" where
  "cleanElements elements =
     foldl (\<lambda>kept element.
       if element = [] \<or> element = ''.'' then kept
       else if element = ''..'' then butlast kept
       else kept @ [element]) [] elements"

text \<open>\<open>path.Clean\<close> of a path that begins with a slash.\<close>

definition cleanRooted :: "string \<Rightarrow> string" where
  "cleanRooted p = CHR ''/'' # joinPath (cleanElements (splitPath (tl p)))"

definition canonicalRoutePath :: "goRequest option \<Rightarrow> string option" where
  "canonicalRoutePath r0 =
     (case r0 of
        None \<Rightarrow> None
      | Some r \<Rightarrow>
          (case gr_URL r of
             None \<Rightarrow> None
           | Some u \<Rightarrow>
               if gu_Scheme u \<noteq> [] \<or> gu_Host u \<noteq> [] \<or> gu_Opaque u \<noteq> [] \<or> gu_Fragment u \<noteq> [] \<or> gu_RawPath u \<noteq> [] then None
               else
                 let p = gu_Path u
                 in if p = [] \<or> hd p \<noteq> CHR ''/'' \<or> EscapedPath p \<noteq> p \<or> cleanRooted p \<noteq> p then None
                    else if gr_RequestURI r \<noteq> [] \<and> takeWhile (\<lambda>c. c \<noteq> CHR ''?'') (gr_RequestURI r) \<noteq> p then None
                    else Some p))"

definition generationPath :: "string \<Rightarrow> bool" where
  "generationPath p \<longleftrightarrow> p = ''/v1/chat/completions'' \<or> p = ''/v1/completions'' \<or> p = ''/v1/responses''"

abbreviation modelsPath :: string where "modelsPath \<equiv> ''/v1/models''"

abbreviation verb :: "goRequest option \<Rightarrow> string" where
  "verb r \<equiv> (case r of None \<Rightarrow> [] | Some request \<Rightarrow> gr_Method request)"

definition PublicRoutePolicy_Allows :: "goRequest option \<Rightarrow> bool" where
  "PublicRoutePolicy_Allows r =
     (case canonicalRoutePath r of
        None \<Rightarrow> False
      | Some p \<Rightarrow> if verb r = ''POST'' then generationPath p else if verb r = ''GET'' then p = modelsPath else False)"

definition RejectionClass :: "goRequest option \<Rightarrow> routeRejectionClass" where
  "RejectionClass r =
     (case canonicalRoutePath r of
        None \<Rightarrow> routeRejectionNonCanonical
      | Some p \<Rightarrow> if generationPath p \<or> p = modelsPath then routeRejectionMethod else routeRejectionUnknown)"

definition RequiresAdmission :: "goRequest option \<Rightarrow> bool" where
  "RequiresAdmission r =
     (case canonicalRoutePath r of None \<Rightarrow> False | Some p \<Rightarrow> verb r = ''POST'' \<and> generationPath p)"

definition LocalManagementRoutePolicy_Match :: "goRequest option \<Rightarrow> localManagementHandler option" where
  "LocalManagementRoutePolicy_Match r =
     (case canonicalRoutePath r of
        None \<Rightarrow> None
      | Some p \<Rightarrow>
          if p = ''/healthz'' then Some localManagementHealth
          else if p = ''/readyz'' \<or> p = ''/health'' then (if verb r = ''GET'' then Some localManagementReady else None)
          else if p = ''/pig/metrics'' then Some localManagementPIGMetrics
          else if p = ''/v1/metrics'' then Some localManagementCombinedMetrics
          else if p = ''/v1/upstream-status'' then Some localManagementUpstreamStatus
          else if p = ''/admin/v1/predictive-policy'' then Some localManagementPredictivePolicy
          else if p = ''/v1/attestation/report'' then Some localManagementAttestation
          else None)"

definition routeMethodClass :: "goRequest option \<Rightarrow> string" where
  "routeMethodClass r =
     (case r of
        None \<Rightarrow> ''other''
      | Some request \<Rightarrow> if gr_Method request = ''GET'' then ''get'' else if gr_Method request = ''POST'' then ''post'' else ''other'')"

definition authorized :: "string \<Rightarrow> goRequest \<Rightarrow> bool" where
  "authorized token r =
     (if token = [] then False
      else (case gr_Authorization r of [value] \<Rightarrow> value = ''Bearer '' @ token | _ \<Rightarrow> False))"

text \<open>What a request comes to: the order of the checks of \<open>ServeHTTP\<close>.\<close>

datatype routeDecision = ServeLocal localManagementHandler | Rejected routeRejectionClass | Unauthorized
  | ForwardWithoutAdmission | ForwardWithAdmission

definition ServeHTTP_dispatch :: "string \<Rightarrow> bool \<Rightarrow> goRequest \<Rightarrow> routeDecision" where
  "ServeHTTP_dispatch token authentication r =
     (case LocalManagementRoutePolicy_Match (Some r) of
        Some handler \<Rightarrow> ServeLocal handler
      | None \<Rightarrow>
          if \<not> PublicRoutePolicy_Allows (Some r) then Rejected (RejectionClass (Some r))
          else if authentication \<and> \<not> authorized token r then Unauthorized
          else if \<not> RequiresAdmission (Some r) then ForwardWithoutAdmission
          else ForwardWithAdmission)"

subsection \<open>What the router reads\<close>

definition capacityObservationFresh :: "CapacitySnapshot \<Rightarrow> gotime \<Rightarrow> bool" where
  "capacityObservationFresh capacity now \<longleftrightarrow>
     cs_IntakeOpen capacity \<and> cs_HasObservation capacity \<and> \<not> IsZero now \<and>
     \<not> now < bo_ObservedAt (cs_Observation capacity) \<and>
     Sub now (bo_ObservedAt (cs_Observation capacity)) \<le> bo_MaximumAge (cs_Observation capacity)"

text \<open>\<open>snapshot\<close> is \<open>None\<close> without an admission service.\<close>

definition upstreamStatusCode :: "string \<Rightarrow> admissionTelemetrySnapshot option \<Rightarrow> gotime \<Rightarrow> nat" where
  "upstreamStatusCode mode snapshot0 now =
     (case snapshot0 of
        None \<Rightarrow> if mode = ''enforce'' then 2 else 3
      | Some snapshot \<Rightarrow>
          if mode = ''shadow'' then (if capacityObservationFresh (at_Capacity snapshot) now then 0 else 3)
          else
            let projection = projectAdmissionCapacity mode (at_Capacity snapshot) (fst (at_Report snapshot))
            in if \<not> cp_Active projection then 0
               else if cp_Scope projection = ProtectionLoad then 1
               else 2)"

definition readiness :: "admissionTelemetrySnapshot \<Rightarrow> bool \<Rightarrow> gotime \<Rightarrow> nat" where
  "readiness snapshot backendHealthy now =
     (let capacity = at_Capacity snapshot;
          decision = cs_MinimumDecision capacity;
          validDecision = (Admitted decision \<or> dr_Action decision = ActionProtect \<and> dr_Scope decision = ProtectionLoad)
      in if \<not> capacityObservationFresh capacity now \<or> \<not> validDecision \<or> \<not> backendHealthy then 503 else 200)"

definition readinessPath :: "string \<Rightarrow> string \<Rightarrow> string" where
  "readinessPath configured backendKind =
     (if configured = [] then (if backendKind = ''sglang'' then ''/ready'' else ''/health'') else configured)"

subsection \<open>The policy over HTTP\<close>

record predictivePolicyPatch =
  pt_ExpectedRevision :: "nat option"
  pt_TPSReference :: "f64 option"
  pt_WindowConcurrency :: "int option"
  pt_RunningLimit :: "int option"
  pt_WaitingAllowance :: "int option"

record predictivePolicyDocument =
  pd_Revision :: nat
  pd_Source :: string
  pd_UpdatedAt :: "gotime option"
  pd_TPSReference :: f64
  pd_WindowConcurrency :: int
  pd_RunningLimit :: int
  pd_WaitingAllowance :: int
  pd_AdmissionMode :: string
  pd_ObservationPollIntervalMS :: int
  pd_MaximumMetricsAgeMS :: int
  pd_RunningLimitSource :: RunningLimitSource

datatype policyBody = PolicyDocument predictivePolicyDocument | PolicyErrorBody string

record policyReply =
  py_Status :: nat
  py_Allow :: "string option"
  py_ETag :: "nat option"
  py_Body :: policyBody

record predictivePolicyUpdateCounters =
  pc_applied :: nat
  pc_conflict :: nat
  pc_invalid :: nat
  pc_failed :: nat

text \<open>Decoding the body: it was too long, it was not a policy object, or it was one and something or nothing follows.\<close>

datatype policyDecode = DecodeTooLong | DecodeFailed | Decoded predictivePolicyPatch bool

record policyRequest =
  pq_Method :: string
  pq_Authorized :: bool
  pq_MediaType :: "string option"
  pq_ContentLength :: int
  pq_Decode :: policyDecode

definition milliseconds :: "duration \<Rightarrow> int" where
  "milliseconds d = (if d < 0 then - ((- d) div 1000000) else d div 1000000)"

definition writePredictivePolicyError :: "nat \<Rightarrow> string \<Rightarrow> policyReply" where
  "writePredictivePolicyError status code = \<lparr>py_Status = status, py_Allow = None, py_ETag = None, py_Body = PolicyErrorBody code\<rparr>"

definition writePredictivePolicyDocument :: "predictivePolicyDocument \<Rightarrow> policyReply" where
  "writePredictivePolicyDocument document =
     \<lparr>py_Status = 200, py_Allow = None, py_ETag = Some (pd_Revision document), py_Body = PolicyDocument document\<rparr>"

definition predictivePolicySource :: "PolicySnapshot \<Rightarrow> string" where
  "predictivePolicySource policy =
     (if po_Revision policy \<le> 1 \<or> IsZero (po_UpdatedAt policy) then ''startup'' else ''runtime_api'')"

record policyConfig =
  pf_PredictiveAdmissionMode :: string
  pf_PredictiveObservationPollInterval :: duration
  pf_PredictiveMaximumMetricsAge :: duration

definition predictivePolicyDocumentFrom :: "policyConfig \<Rightarrow> PolicySnapshot \<Rightarrow> predictivePolicyDocument" where
  "predictivePolicyDocumentFrom cfg policy =
     \<lparr>pd_Revision = po_Revision policy, pd_Source = predictivePolicySource policy,
      pd_UpdatedAt = (if IsZero (po_UpdatedAt policy) then None else Some (po_UpdatedAt policy)),
      pd_TPSReference = po_TPSReference policy, pd_WindowConcurrency = po_WindowConcurrency policy,
      pd_RunningLimit = po_RunningLimit policy, pd_WaitingAllowance = po_WaitingAllowance policy,
      pd_AdmissionMode = pf_PredictiveAdmissionMode cfg,
      pd_ObservationPollIntervalMS = milliseconds (pf_PredictiveObservationPollInterval cfg),
      pd_MaximumMetricsAgeMS = milliseconds (pf_PredictiveMaximumMetricsAge cfg),
      pd_RunningLimitSource = po_RunningLimitSource policy\<rparr>"

text \<open>\<open>Inl\<close>: the status of the refusal.\<close>

definition decodePredictivePolicyPatch :: "policyRequest \<Rightarrow> nat + predictivePolicyPatch" where
  "decodePredictivePolicyPatch r =
     (if pq_MediaType r \<noteq> Some ''application/json'' then Inl 415
      else if pq_ContentLength r > 4096 then Inl 413
      else case pq_Decode r of
          DecodeTooLong \<Rightarrow> Inl 413
        | DecodeFailed \<Rightarrow> Inl 400
        | Decoded patch followed \<Rightarrow>
            if followed then Inl 400
            else if pt_ExpectedRevision patch = None \<or> pt_ExpectedRevision patch = Some 0 \<or>
               (pt_TPSReference patch = None \<and> pt_WindowConcurrency patch = None \<and> pt_RunningLimit patch = None \<and>
                pt_WaitingAllowance patch = None) then Inl 400
            else if (case pt_TPSReference patch of None \<Rightarrow> False
                     | Some x \<Rightarrow> IsNaN x \<or> IsInf x \<or> flt x (Fin 0) \<or> flt (Fin 1000000) x) then Inl 400
            else if (case pt_WindowConcurrency patch of None \<Rightarrow> False | Some n \<Rightarrow> n \<le> 0 \<or> n > 1048576) then Inl 400
            else if (case pt_RunningLimit patch of None \<Rightarrow> False | Some n \<Rightarrow> n < 0 \<or> n > 1048576) then Inl 400
            else if (case pt_WaitingAllowance patch of None \<Rightarrow> False | Some n \<Rightarrow> n < 0 \<or> n > 1048576) then Inl 400
            else Inr patch)"

definition updateAdmissionPolicy ::
  "('s \<Rightarrow> PolicyUpdate \<Rightarrow> 's \<times> (PolicyUpdateResult \<times> PolicyError option) option) \<Rightarrow> 's \<Rightarrow> PolicyUpdate \<Rightarrow>
   's \<times> (PolicyError + PolicyUpdateResult)" where
  "updateAdmissionPolicy service s update =
     (case service s update of
        (s', None) \<Rightarrow> (s', Inl ErrPolicyUnavailable)
      | (s', Some (result, None)) \<Rightarrow> (s', Inr result)
      | (s', Some (result, Some err)) \<Rightarrow> (s', Inl err))"

definition writePredictivePolicyUpdateError ::
  "predictivePolicyUpdateCounters \<Rightarrow> PolicyError \<Rightarrow> predictivePolicyUpdateCounters \<times> policyReply" where
  "writePredictivePolicyUpdateError counters err =
     (if err = ErrPolicyRevisionConflict
      then (counters\<lparr>pc_conflict := wrapu64 (pc_conflict counters + 1)\<rparr>, writePredictivePolicyError 409 ''revision_conflict'')
      else if err = ErrPolicyInvalid
      then (counters\<lparr>pc_invalid := wrapu64 (pc_invalid counters + 1)\<rparr>, writePredictivePolicyError 400 ''invalid_request'')
      else (counters\<lparr>pc_failed := wrapu64 (pc_failed counters + 1)\<rparr>, writePredictivePolicyError 503 ''policy_unavailable''))"

text \<open>\<open>service\<close> is \<open>None\<close> when the admission service has no policy that can be changed.\<close>

definition patchPredictivePolicy ::
  "policyConfig \<Rightarrow> ('s \<Rightarrow> PolicyUpdate \<Rightarrow> 's \<times> (PolicyUpdateResult \<times> PolicyError option) option) option \<Rightarrow> policyRequest \<Rightarrow>
   gotime \<Rightarrow> predictivePolicyUpdateCounters \<times> 's \<Rightarrow> (predictivePolicyUpdateCounters \<times> 's) \<times> policyReply" where
  "patchPredictivePolicy cfg service0 r now = (\<lambda>(counters, s).
     (case decodePredictivePolicyPatch r of
        Inl status \<Rightarrow>
          ((counters\<lparr>pc_invalid := wrapu64 (pc_invalid counters + 1)\<rparr>, s), writePredictivePolicyError status ''invalid_request'')
      | Inr patch \<Rightarrow>
          (case service0 of
             None \<Rightarrow>
               ((counters\<lparr>pc_failed := wrapu64 (pc_failed counters + 1)\<rparr>, s), writePredictivePolicyError 503 ''policy_unavailable'')
           | Some service \<Rightarrow>
               (case updateAdmissionPolicy service s
                   \<lparr>up_ExpectedRevision = the (pt_ExpectedRevision patch), up_TPSReference = pt_TPSReference patch,
                    up_WindowConcurrency = pt_WindowConcurrency patch, up_RunningLimit = pt_RunningLimit patch,
                    up_WaitingAllowance = pt_WaitingAllowance patch, up_UpdatedAt = now\<rparr> of
                  (s', Inl err) \<Rightarrow>
                    (case writePredictivePolicyUpdateError counters err of (counters', reply) \<Rightarrow> ((counters', s'), reply))
                | (s', Inr result) \<Rightarrow>
                    ((counters\<lparr>pc_applied := wrapu64 (pc_applied counters + 1)\<rparr>, s'),
                     writePredictivePolicyDocument (predictivePolicyDocumentFrom cfg (ur_Policy result)))))))"

definition getPredictivePolicy :: "policyConfig \<Rightarrow> PolicySnapshot option \<Rightarrow> policyReply" where
  "getPredictivePolicy cfg policy0 =
     (case policy0 of
        None \<Rightarrow> writePredictivePolicyError 503 ''policy_unavailable''
      | Some policy \<Rightarrow>
          if po_Revision policy = 0 then writePredictivePolicyError 503 ''policy_unavailable''
          else writePredictivePolicyDocument (predictivePolicyDocumentFrom cfg policy))"

text \<open>\<open>policy\<close>: the one in the snapshot of the service, \<open>None\<close> when there is no service or it panicked.\<close>

definition predictivePolicyAPI ::
  "policyConfig \<Rightarrow> ('s \<Rightarrow> PolicyUpdate \<Rightarrow> 's \<times> (PolicyUpdateResult \<times> PolicyError option) option) option \<Rightarrow>
   ('s \<Rightarrow> PolicySnapshot option) \<Rightarrow> policyRequest \<Rightarrow> gotime \<Rightarrow>
   predictivePolicyUpdateCounters \<times> 's \<Rightarrow> (predictivePolicyUpdateCounters \<times> 's) \<times> policyReply" where
  "predictivePolicyAPI cfg service policy r now = (\<lambda>(counters, s).
     (if \<not> pq_Authorized r then ((counters, s), writePredictivePolicyError 401 ''unauthorized'')
      else if pq_Method r = ''GET'' then ((counters, s), getPredictivePolicy cfg (policy s))
      else if pq_Method r = ''PATCH'' then patchPredictivePolicy cfg service r now (counters, s)
      else ((counters, s), (writePredictivePolicyError 405 ''method_not_allowed'')\<lparr>py_Allow := Some ''GET, PATCH''\<rparr>)))"

text \<open>The service that the server is built on: the runtime, whose update does not panic.\<close>

definition runtimePolicyService ::
  "admissionRuntime \<Rightarrow> PolicyUpdate \<Rightarrow> admissionRuntime \<times> (PolicyUpdateResult \<times> PolicyError option) option" where
  "runtimePolicyService r update = (case runtime_UpdatePolicy r update of (r', result) \<Rightarrow> (r', Some result))"

subsection \<open>Connections and deadlines\<close>

text \<open>The states of \<open>net/http\<close>: new 0, active 1, idle 2, hijacked 3, closed 4.\<close>

record connectionStates =
  ct_live :: "(nat \<times> nat) list"
  ct_counts :: "nat \<Rightarrow> int"

definition connection_observe :: "connectionStates \<Rightarrow> nat \<times> nat \<Rightarrow> connectionStates" where
  "connection_observe s = (\<lambda>(conn, state).
     let s1 = (case map_of (ct_live s) conn of
           None \<Rightarrow> s
         | Some previous \<Rightarrow> s\<lparr>ct_counts := (ct_counts s)(previous := ct_counts s previous - 1),
                               ct_live := AList.delete conn (ct_live s)\<rparr>)
     in if state = 4 \<or> state = 3 then s1
        else s1\<lparr>ct_live := AList.update conn state (ct_live s1), ct_counts := (ct_counts s1)(state := ct_counts s1 state + 1)\<rparr>)"

text \<open>
  The writer of a response. The last deadline that was set is kept, with \<open>None\<close> for no deadline; \<open>live\<close>
  says whether the context of the request had ended.
\<close>

record responseDeadlineWriter =
  rw_timeout :: duration
  rw_interrupted :: bool
  rw_writing :: bool
  rw_cancelable :: bool
  rw_started :: bool
  rw_deadline :: "gotime option"

definition newResponseDeadlineWriter :: "duration \<Rightarrow> responseDeadlineWriter" where
  "newResponseDeadlineWriter timeout = \<lparr>rw_timeout = timeout, rw_interrupted = False, rw_writing = False, rw_cancelable = False,
     rw_started = False, rw_deadline = None\<rparr>"

definition setDeadlineLocked :: "responseDeadlineWriter \<Rightarrow> gotime \<Rightarrow> bool \<Rightarrow> responseDeadlineWriter" where
  "setDeadlineLocked w now active =
     w\<lparr>rw_deadline := (if rw_interrupted w then Some now else if active then Some (now + rw_timeout w) else None)\<rparr>"

definition beginWrite :: "responseDeadlineWriter \<Rightarrow> gotime \<Rightarrow> bool \<Rightarrow> bool \<Rightarrow> responseDeadlineWriter" where
  "beginWrite w now live final =
     (let w1 = w\<lparr>rw_writing := True, rw_cancelable := live \<or> rw_started w\<rparr>;
          w2 = (if \<not> live \<and> rw_started w1 then w1\<lparr>rw_interrupted := True\<rparr> else w1);
          w3 = (if final \<and> live then w2\<lparr>rw_started := True\<rparr> else w2)
      in setDeadlineLocked w3 now True)"

definition endWrite :: "responseDeadlineWriter \<Rightarrow> gotime \<Rightarrow> bool \<Rightarrow> responseDeadlineWriter" where
  "endWrite w now failed =
     (let w1 = w\<lparr>rw_writing := False, rw_cancelable := False\<rparr>
      in if failed then w1 else setDeadlineLocked w1 now False)"

definition interruptOnCancel :: "responseDeadlineWriter \<Rightarrow> gotime \<Rightarrow> responseDeadlineWriter" where
  "interruptOnCancel w now =
     (if rw_writing w \<and> rw_cancelable w then setDeadlineLocked (w\<lparr>rw_interrupted := True\<rparr>) now True else w)"

text \<open>The calls of a handler, and the end of the context, in the order of the mutex.\<close>

datatype writerStep = BeginStep gotime bool bool | EndStep gotime bool | CancelStep gotime

fun writerStep_run :: "responseDeadlineWriter \<Rightarrow> writerStep \<Rightarrow> responseDeadlineWriter" where
  "writerStep_run w (BeginStep now live final) = beginWrite w now live final"
| "writerStep_run w (EndStep now failed) = endWrite w now failed"
| "writerStep_run w (CancelStep now) = interruptOnCancel w now"

end
