(* ===== verification/Endpoints_Correct.thy ===== *)
theory Endpoints_Correct
  imports Endpoints
begin

text \<open>
  The routes are complete and nothing slips past them in an unusual spelling; the policy changes over HTTP
  only when the reply says so; connections are counted by their state; and the deadlines of a response are
  what its state calls for.
\<close>

subsection \<open>Routes\<close>

lemma splitPath_noslash: "x \<in> set (splitPath s) \<Longrightarrow> CHR ''/'' \<notin> set x"
  by (induction s arbitrary: x) (auto split: list.splits if_splits)

lemma cleanElements_proper:
  "set (cleanElements xs) \<subseteq> {x \<in> set xs. x \<noteq> [] \<and> x \<noteq> ''.'' \<and> x \<noteq> ''..''}"
proof -
  let ?f = "\<lambda>kept element. if element = [] \<or> element = ''.'' then kept
       else if element = ''..'' then butlast kept else kept @ [element :: string]"
  have "set (foldl ?f kept xs) \<subseteq> set kept \<union> {x \<in> set xs. x \<noteq> [] \<and> x \<noteq> ''.'' \<and> x \<noteq> ''..''}" for kept
  proof (induction xs arbitrary: kept)
    case (Cons a xs)
    have "set (?f kept a) \<subseteq> set kept \<union> {x \<in> {a}. x \<noteq> [] \<and> x \<noteq> ''.'' \<and> x \<noteq> ''..''}"
      by (auto dest: in_set_butlastD)
    then show ?case using Cons.IH [of "?f kept a"] by (auto simp del: foldl_Nil)
  qed simp
  from this [of "[]"] show ?thesis by (simp add: cleanElements_def)
qed

lemma escaped_length: "length p \<le> length (concat (map (\<lambda>c. if f c then [c] else [CHR ''%'', h c, l c]) p))"
  by (induction p) auto

lemma EscapedPath_same: "EscapedPath p = p \<Longrightarrow> p \<noteq> ''*'' \<Longrightarrow> \<forall>c \<in> set p. pathByte c"
proof -
  have "concat (map (\<lambda>c. if f c then [c] else [CHR ''%'', h c, l c]) p) = p \<Longrightarrow> \<forall>c \<in> set p. f c" for f :: "char \<Rightarrow> bool" and h l
  proof (induction p)
    case (Cons a p)
    show ?case
    proof (cases "f a")
      case False
      then have "length (concat (map (\<lambda>c. if f c then [c] else [CHR ''%'', h c, l c]) p)) + 3 = length (a # p)"
        using arg_cong [OF Cons.prems, of length] by simp
      then show ?thesis using escaped_length [of p f h l] by simp
    qed (use Cons in simp)
  qed simp
  then show "EscapedPath p = p \<Longrightarrow> p \<noteq> ''*'' \<Longrightarrow> \<forall>c \<in> set p. pathByte c" by (simp add: EscapedPath_def)
qed

text \<open>The paths that are served: a list of proper elements without a byte that has to be escaped.\<close>

definition plainPath :: "string \<Rightarrow> bool" where
  "plainPath p \<longleftrightarrow> (\<exists>elements. p = CHR ''/'' # joinPath elements \<and>
     (\<forall>e \<in> set elements. e \<noteq> [] \<and> e \<noteq> ''.'' \<and> e \<noteq> ''..'' \<and> CHR ''/'' \<notin> set e)) \<and> (\<forall>c \<in> set p. pathByte c)"

lemma canonical_plain:
  assumes "canonicalRoutePath (Some r) = Some p"
  shows "plainPath p \<and> (gr_RequestURI r = [] \<or> takeWhile (\<lambda>c. c \<noteq> CHR ''?'') (gr_RequestURI r) = p)"
proof -
  have h: "p \<noteq> []" "hd p = CHR ''/''" "EscapedPath p = p" "cleanRooted p = p"
    "gr_RequestURI r = [] \<or> takeWhile (\<lambda>c. c \<noteq> CHR ''?'') (gr_RequestURI r) = p"
    using assms by (auto simp: canonicalRoutePath_def Let_def split: option.splits if_splits)
  have star: "p \<noteq> ''*''" using h(2) by (cases p) auto
  let ?es = "cleanElements (splitPath (tl p))"
  have "p = CHR ''/'' # joinPath ?es" using h(4) by (simp add: cleanRooted_def)
  moreover have "e \<noteq> [] \<and> e \<noteq> ''.'' \<and> e \<noteq> ''..'' \<and> CHR ''/'' \<notin> set e" if "e \<in> set ?es" for e
    using that cleanElements_proper [of "splitPath (tl p)"] splitPath_noslash by blast
  moreover have "\<forall>c \<in> set p. pathByte c" using EscapedPath_same [OF h(3)] star by blast
  ultimately show ?thesis using h(5) by (auto simp: plainPath_def)
qed

text \<open>C39: The server answers every request in exactly one way. A request is admitted only as a POST of one of
  the three generation paths and forwarded without admission only as a GET of the models, both only with the
  token when one is required; a path that is not canonical is refused as such. A path that is served or
  forwarded is a list of proper elements: it holds no empty, dot or dot-dot element and no byte that would
  have to be escaped, and the request line names it literally.\<close>
theorem requests_routed:
  "(ServeHTTP_dispatch token authentication r = ForwardWithAdmission \<longleftrightarrow>
     (\<exists>p. canonicalRoutePath (Some r) = Some p \<and> generationPath p) \<and> gr_Method r = ''POST'' \<and>
     (if authentication then authorized token r else True)) \<and>
   (ServeHTTP_dispatch token authentication r = ForwardWithoutAdmission \<longleftrightarrow>
     canonicalRoutePath (Some r) = Some modelsPath \<and> gr_Method r = ''GET'' \<and>
     (if authentication then authorized token r else True)) \<and>
   (ServeHTTP_dispatch token authentication r = Rejected routeRejectionNonCanonical \<longleftrightarrow> canonicalRoutePath (Some r) = None) \<and>
   (case canonicalRoutePath (Some r) of
      None \<Rightarrow> True
    | Some p \<Rightarrow> plainPath p \<and> (gr_RequestURI r = [] \<or> takeWhile (\<lambda>c. c \<noteq> CHR ''?'') (gr_RequestURI r) = p))"
proof (cases "canonicalRoutePath (Some r)")
  case None
  then show ?thesis
    by (simp add: ServeHTTP_dispatch_def LocalManagementRoutePolicy_Match_def PublicRoutePolicy_Allows_def RejectionClass_def)
next
  case p: (Some p)
  have gen: "generationPath p \<Longrightarrow> LocalManagementRoutePolicy_Match (Some r) = None \<and> p \<noteq> modelsPath"
    and models: "p = modelsPath \<Longrightarrow> LocalManagementRoutePolicy_Match (Some r) = None"
    using p by (auto simp: LocalManagementRoutePolicy_Match_def generationPath_def)
  have "ServeHTTP_dispatch token authentication r = ForwardWithAdmission \<longleftrightarrow>
     generationPath p \<and> gr_Method r = ''POST'' \<and> (if authentication then authorized token r else True)"
    using gen p
    by (auto simp: ServeHTTP_dispatch_def PublicRoutePolicy_Allows_def RequiresAdmission_def split: option.splits if_splits)
  moreover have "ServeHTTP_dispatch token authentication r = ForwardWithoutAdmission \<longleftrightarrow>
     p = modelsPath \<and> gr_Method r = ''GET'' \<and> (if authentication then authorized token r else True)"
    using models p
    by (auto simp: ServeHTTP_dispatch_def PublicRoutePolicy_Allows_def RequiresAdmission_def split: option.splits if_splits)
  moreover have "ServeHTTP_dispatch token authentication r \<noteq> Rejected routeRejectionNonCanonical"
    using p by (auto simp: ServeHTTP_dispatch_def RejectionClass_def split: option.splits if_splits)
  ultimately show ?thesis using p canonical_plain [OF p] by simp
qed

subsection \<open>The policy\<close>

lemma not_below: "\<not> IsNaN x \<Longrightarrow> \<not> IsInf x \<Longrightarrow> \<not> flt x (Fin 0) \<Longrightarrow> fle (Fin 0) x"
  by (cases x) (auto simp: IsNaN_def IsInf_def)

lemma guarded_chain:
  "(if a1 then Inl x1 else if a2 then Inl x2 else if a3 then Inl x3 else if a4 then Inl x4 else if a5 then Inl x5
    else if a6 then Inl x6 else if a7 then Inl x7 else if a8 then Inl x8 else Inr z) = Inr w \<Longrightarrow>
   \<not> a3 \<and> \<not> a4 \<and> \<not> a5 \<and> \<not> a6 \<and> \<not> a7 \<and> \<not> a8 \<and> z = w"
  by (simp split: if_split_asm)

lemma decoded_patch:
  assumes "decodePredictivePolicyPatch req = Inr patch"
  shows "\<exists>n. pt_ExpectedRevision patch = Some n \<and> n \<noteq> 0"
    and "\<not> IsZero now \<Longrightarrow> validPolicyUpdate \<lparr>up_ExpectedRevision = the (pt_ExpectedRevision patch), up_TPSReference = pt_TPSReference patch,
       up_WindowConcurrency = pt_WindowConcurrency patch, up_RunningLimit = pt_RunningLimit patch,
       up_WaitingAllowance = pt_WaitingAllowance patch, up_UpdatedAt = now\<rparr>"
proof -
  obtain patch' followed where decode: "pq_Decode req = Decoded patch' followed"
    using assms by (cases "pq_Decode req") (auto simp: decodePredictivePolicyPatch_def split: if_split_asm)
  note d = guarded_chain [OF assms [unfolded decodePredictivePolicyPatch_def decode policyDecode.case]]
  have f: "pt_ExpectedRevision patch \<noteq> None" "pt_ExpectedRevision patch \<noteq> Some 0"
    "\<not> (pt_TPSReference patch = None \<and> pt_WindowConcurrency patch = None \<and> pt_RunningLimit patch = None \<and>
       pt_WaitingAllowance patch = None)"
    "\<not> (case pt_TPSReference patch of None \<Rightarrow> False | Some x \<Rightarrow> IsNaN x \<or> IsInf x \<or> flt x (Fin 0) \<or> flt (Fin 1000000) x)"
    "\<not> (case pt_WindowConcurrency patch of None \<Rightarrow> False | Some n \<Rightarrow> n \<le> 0 \<or> n > 1048576)"
    "\<not> (case pt_RunningLimit patch of None \<Rightarrow> False | Some n \<Rightarrow> n < 0 \<or> n > 1048576)"
    "\<not> (case pt_WaitingAllowance patch of None \<Rightarrow> False | Some n \<Rightarrow> n < 0 \<or> n > 1048576)"
    using d by blast+
  then show "\<exists>n. pt_ExpectedRevision patch = Some n \<and> n \<noteq> 0" by auto
  show "\<not> IsZero now \<Longrightarrow> validPolicyUpdate \<lparr>up_ExpectedRevision = the (pt_ExpectedRevision patch), up_TPSReference = pt_TPSReference patch,
       up_WindowConcurrency = pt_WindowConcurrency patch, up_RunningLimit = pt_RunningLimit patch,
       up_WaitingAllowance = pt_WaitingAllowance patch, up_UpdatedAt = now\<rparr>"
    using f by (auto simp: validPolicyUpdate_def finiteNonnegative_def not_below split: option.splits)
qed

text \<open>The status of the answer, from the request and the controller alone.\<close>

definition policyStatus :: "AdmissionController \<Rightarrow> policyRequest \<Rightarrow> nat" where
  "policyStatus c req =
     (if \<not> pq_Authorized req then 401
      else if pq_Method req = ''GET'' then (if ac_policyRevision c = 0 then 503 else 200)
      else if pq_Method req \<noteq> ''PATCH'' then 405
      else case decodePredictivePolicyPatch req of
          Inl status \<Rightarrow> status
        | Inr patch \<Rightarrow>
            if ac_closedReason c \<noteq> ReasonEmpty \<or> ac_policyRevision c = MaxUint64 then 503
            else if pt_ExpectedRevision patch \<noteq> Some (ac_policyRevision c) then 409
            else 200)"

lemma decode_status: "decodePredictivePolicyPatch req = Inl status \<Longrightarrow> status \<in> {400, 413, 415}"
  by (auto simp: decodePredictivePolicyPatch_def split: policyDecode.splits if_split_asm)

text \<open>What is not the policy.\<close>

definition samePolicyOtherwise :: "AdmissionController \<Rightarrow> AdmissionController \<Rightarrow> bool" where
  "samePolicyOtherwise c c' \<longleftrightarrow> ac_reservations c' = ac_reservations c \<and> ac_overlay c' = ac_overlay c \<and>
     ac_closedReason c' = ac_closedReason c \<and> ac_observation c' = ac_observation c \<and> ac_exposure c' = ac_exposure c"

lemma UpdatePolicy_by_patch:
  assumes "decodePredictivePolicyPatch req = Inr patch" "\<not> IsZero now"
    and "u = \<lparr>up_ExpectedRevision = the (pt_ExpectedRevision patch), up_TPSReference = pt_TPSReference patch,
       up_WindowConcurrency = pt_WindowConcurrency patch, up_RunningLimit = pt_RunningLimit patch,
       up_WaitingAllowance = pt_WaitingAllowance patch, up_UpdatedAt = now\<rparr>"
  obtains (unavailable) result where "ac_closedReason c \<noteq> ReasonEmpty \<or> ac_policyRevision c = MaxUint64"
      "UpdatePolicy c u = (c, result, Some ErrPolicyUnavailable)"
  | (conflict) result where "ac_closedReason c = ReasonEmpty" "ac_policyRevision c \<noteq> MaxUint64"
      "pt_ExpectedRevision patch \<noteq> Some (ac_policyRevision c)" "UpdatePolicy c u = (c, result, Some ErrPolicyRevisionConflict)"
  | (applied) c' result where "ac_closedReason c = ReasonEmpty" "ac_policyRevision c \<noteq> MaxUint64"
      "pt_ExpectedRevision patch = Some (ac_policyRevision c)" "UpdatePolicy c u = (c', result, None)"
      "ac_policyRevision c' = ac_policyRevision c + 1" "ur_Policy result = policySnapshot c'" "samePolicyOtherwise c c'"
proof -
  note v = decoded_patch(2) [OF assms(1,2), folded assms(3)]
  obtain n where n: "pt_ExpectedRevision patch = Some n" using decoded_patch(1) [OF assms(1)] by blast
  then have e: "up_ExpectedRevision u = n" by (simp add: assms(3))
  show thesis
  proof (cases "ac_closedReason c \<noteq> ReasonEmpty \<or> ac_policyRevision c = MaxUint64")
    case True
    then show thesis using unavailable v by (simp add: UpdatePolicy_def Let_def)
  next
    case False
    show thesis
    proof (cases "n = ac_policyRevision c")
      case True
      then show thesis
        using False v e n
        by (intro applied [of "fst (UpdatePolicy c u)" "fst (snd (UpdatePolicy c u))"])
           (simp_all add: UpdatePolicy_def Let_def samePolicyOtherwise_def)
    qed (use False v e n conflict in \<open>simp add: UpdatePolicy_def Let_def\<close>)
  qed
qed

text \<open>C40: A request to the policy endpoint of a running service is answered by the status that the request and
  the controller determine: without the token nothing is read or changed, a request that does not decode to
  a policy in bounds is refused, a stale revision is a conflict, and a closed controller unavailable. Only a
  PATCH that is answered with 200 changes the service: its revision grows by one, what is reserved or
  observed stays, and the answer and its tag describe the policy that is then in force. Exactly one counter
  counts every authorized PATCH.\<close>
theorem policy_patch_outcome:
  assumes "\<not> IsZero now"
    and "predictivePolicyAPI cfg (Some runtimePolicyService) (\<lambda>r. Some (policySnapshot (ru_controller r))) req now (counters, r) =
      ((counters', r'), reply)"
  shows "py_Status reply = policyStatus (ru_controller r) req \<and>
     (if py_Status reply = 200
      then (pq_Method req = ''PATCH'' \<or> r' = r) \<and>
        r' = r\<lparr>ru_controller := ru_controller r'\<rparr> \<and> samePolicyOtherwise (ru_controller r) (ru_controller r') \<and>
        ac_policyRevision (ru_controller r') = ac_policyRevision (ru_controller r) + (if pq_Method req = ''PATCH'' then 1 else 0) \<and>
        py_ETag reply = Some (ac_policyRevision (ru_controller r')) \<and>
        py_Body reply = PolicyDocument (predictivePolicyDocumentFrom cfg (policySnapshot (ru_controller r')))
      else r' = r \<and> py_ETag reply = None) \<and>
     counters' =
       (if \<not> pq_Authorized req \<or> pq_Method req \<noteq> ''PATCH'' then counters
        else if py_Status reply = 200 then counters\<lparr>pc_applied := wrapu64 (pc_applied counters + 1)\<rparr>
        else if py_Status reply = 409 then counters\<lparr>pc_conflict := wrapu64 (pc_conflict counters + 1)\<rparr>
        else if py_Status reply = 503 then counters\<lparr>pc_failed := wrapu64 (pc_failed counters + 1)\<rparr>
        else counters\<lparr>pc_invalid := wrapu64 (pc_invalid counters + 1)\<rparr>)"
proof (cases "pq_Authorized req \<and> pq_Method req = ''PATCH''")
  case False
  then show ?thesis
    using assms(2)
    by (auto simp: predictivePolicyAPI_def policyStatus_def getPredictivePolicy_def writePredictivePolicyError_def policySnapshot_def
        writePredictivePolicyDocument_def predictivePolicyDocumentFrom_def samePolicyOtherwise_def split: if_split_asm)
next
  case True
  then have a: "patchPredictivePolicy cfg (Some runtimePolicyService) req now (counters, r) = ((counters', r'), reply)"
    using assms(2) by (simp add: predictivePolicyAPI_def)
  show ?thesis
  proof (cases "decodePredictivePolicyPatch req")
    case (Inl st)
    then show ?thesis using a True decode_status [OF Inl]
      by (auto simp: policyStatus_def patchPredictivePolicy_def writePredictivePolicyError_def)
  next
    case (Inr patch)
    define u where "u = \<lparr>up_ExpectedRevision = the (pt_ExpectedRevision patch), up_TPSReference = pt_TPSReference patch,
       up_WindowConcurrency = pt_WindowConcurrency patch, up_RunningLimit = pt_RunningLimit patch,
       up_WaitingAllowance = pt_WaitingAllowance patch, up_UpdatedAt = now\<rparr>"
    note a' = a [unfolded patchPredictivePolicy_def Inr prod.case sum.case option.case, folded u_def, unfolded updateAdmissionPolicy_def
        runtimePolicyService_def runtime_UpdatePolicy_def]
    from Inr assms(1) u_def show ?thesis
    proof (cases rule: UpdatePolicy_by_patch [where c = "ru_controller r"])
      case (unavailable result)
      then show ?thesis using a' True Inr
        by (auto simp: policyStatus_def writePredictivePolicyUpdateError_def writePredictivePolicyError_def)
    next
      case (conflict result)
      then show ?thesis using a' True Inr
        by (auto simp: policyStatus_def writePredictivePolicyUpdateError_def writePredictivePolicyError_def)
    next
      case (applied c' result)
      then show ?thesis using a' True Inr
        by (auto simp: policyStatus_def writePredictivePolicyDocument_def predictivePolicyDocumentFrom_def policySnapshot_def)
    qed
  qed
qed

text \<open>A running limit that is set over HTTP on a new controller.\<close>

definition demoPolicyRuntime :: admissionRuntime where
  "demoPolicyRuntime = \<lparr>ru_controller = projr (NewAdmissionController 1
       \<lparr>cf_RuntimeIdentity = ''r'', cf_TPSReference = Fin 0, cf_WindowConcurrency = 4, cf_RunningLimit = 8,
        cf_RunningLimitSource = RunningLimitSourceEnvironment, cf_PendingFirstByteLeaseDuration = 0,
        cf_BackendTierScheduling = True, cf_WarmPromptTokens = 100\<rparr>),
     ru_reporter = newAdmissionReporter 1, ru_observer = None, ru_backendKind = ''vllm'', ru_mode = ''enforce'',
     ru_prediction = emptyHistogram [], ru_kvCapacityTokens = 0, ru_warmPromptTokens = 0, ru_backendTierScheduling = False,
     ru_closed = False, ru_closeErr = None, ru_events = []\<rparr>"

definition demoPolicyRequest :: "nat \<Rightarrow> policyRequest" where
  "demoPolicyRequest revision = \<lparr>pq_Method = ''PATCH'', pq_Authorized = True, pq_MediaType = Some ''application/json'',
     pq_ContentLength = 48, pq_Decode = Decoded \<lparr>pt_ExpectedRevision = Some revision, pt_TPSReference = None,
       pt_WindowConcurrency = None, pt_RunningLimit = Some 3, pt_WaitingAllowance = None\<rparr> False\<rparr>"

definition demoPolicyConfig :: policyConfig where
  "demoPolicyConfig = \<lparr>pf_PredictiveAdmissionMode = ''enforce'', pf_PredictiveObservationPollInterval = 1000000,
     pf_PredictiveMaximumMetricsAge = 2000000\<rparr>"

definition demoCounters :: predictivePolicyUpdateCounters where
  "demoCounters = \<lparr>pc_applied = 0, pc_conflict = 0, pc_invalid = 0, pc_failed = 0\<rparr>"

lemma policy_patch_outcome_witness:
  "\<exists>counters r reply. predictivePolicyAPI demoPolicyConfig (Some runtimePolicyService)
       (\<lambda>r. Some (policySnapshot (ru_controller r))) (demoPolicyRequest 1) 5 (demoCounters, demoPolicyRuntime) = ((counters, r), reply) \<and>
     py_Status reply = 200 \<and> ac_policyRevision (ru_controller r) = 2 \<and> pc_applied counters = 1"
proof -
  obtain counters r reply where p: "predictivePolicyAPI demoPolicyConfig (Some runtimePolicyService)
       (\<lambda>r. Some (policySnapshot (ru_controller r))) (demoPolicyRequest 1) 5 (demoCounters, demoPolicyRuntime) = ((counters, r), reply)"
    by (metis surj_pair)
  have now: "\<not> IsZero 5" by (simp add: IsZero_def zeroTime_def)
  have c: "ac_policyRevision (ru_controller demoPolicyRuntime) = 1" "ac_closedReason (ru_controller demoPolicyRuntime) = ReasonEmpty"
    by (simp_all add: demoPolicyRuntime_def NewAdmissionController_def)
  have s: "policyStatus (ru_controller demoPolicyRuntime) (demoPolicyRequest 1) = 200"
    by (simp add: policyStatus_def c demoPolicyRequest_def decodePredictivePolicyPatch_def)
  have "pq_Authorized (demoPolicyRequest 1)" "pq_Method (demoPolicyRequest 1) = ''PATCH''" "pc_applied demoCounters = 0"
    by (simp_all add: demoPolicyRequest_def demoCounters_def)
  then show ?thesis using policy_patch_outcome [OF now p] p s c by (auto simp: wrapu64_def)
qed

subsection \<open>Connections\<close>

definition noConnections :: connectionStates where
  "noConnections = \<lparr>ct_live = [], ct_counts = \<lambda>_. 0\<rparr>"

text \<open>The state that a connection was last seen in, unless it has ended.\<close>

definition lastSeen :: "(nat \<times> nat) list \<Rightarrow> nat \<Rightarrow> nat option" where
  "lastSeen events conn =
     foldl (\<lambda>seen (c, state). if c \<noteq> conn then seen else if state = 4 \<or> state = 3 then None else Some state) None events"

abbreviation inState :: "nat \<Rightarrow> (nat \<times> nat) list \<Rightarrow> int" where
  "inState state live \<equiv> int (length (filter (\<lambda>(c, st). st = state) live))"

lemma inState_delete:
  "distinct (map fst live) \<Longrightarrow> map_of live conn = Some p \<Longrightarrow>
     inState state (AList.delete conn live) = inState state live - (if state = p then 1 else 0)"
proof (induction live)
  case (Cons x live)
  obtain c st where x: "x = (c, st)" by fastforce
  show ?case
  proof (cases "c = conn")
    case True
    then have "AList.delete conn live = live" using Cons.prems(1) x by (simp add: delete_conv')
    then show ?thesis using True Cons.prems x by simp
  next
    case False
    then show ?thesis using Cons x by auto
  qed
qed simp

lemma update_new: "conn \<notin> fst ` set live \<Longrightarrow> AList.update conn state live = live @ [(conn, state)]"
  by (induction live) auto

text \<open>The counts of the connections are exact: after any events a connection is kept exactly when its last
  event was not its end, in the state of that event, and the count of every state is the number of
  connections in it. No state is counted below zero and no ended connection is kept.\<close>
lemma connections_counted:
  "distinct (map fst (ct_live (foldl connection_observe noConnections events))) \<and>
   map_of (ct_live (foldl connection_observe noConnections events)) = lastSeen events \<and>
   (\<forall>state. ct_counts (foldl connection_observe noConnections events) state =
      int (length (filter (\<lambda>(c, st). st = state) (ct_live (foldl connection_observe noConnections events)))))"
proof (induction events rule: rev_induct)
  case Nil
  show ?case by (simp add: noConnections_def lastSeen_def fun_eq_iff)
next
  case (snoc e events)
  obtain conn state where e: "e = (conn, state)" by fastforce
  define s where "s = foldl connection_observe noConnections events"
  define s1 where "s1 = (case map_of (ct_live s) conn of
           None \<Rightarrow> s
         | Some previous \<Rightarrow> s\<lparr>ct_counts := (ct_counts s)(previous := ct_counts s previous - 1),
                               ct_live := AList.delete conn (ct_live s)\<rparr>)"
  have s: "distinct (map fst (ct_live s))" "map_of (ct_live s) = lastSeen events" "\<And>st. ct_counts s st = inState st (ct_live s)"
    using snoc by (simp_all add: s_def)
  have one: "distinct (map fst (ct_live s1))" "map_of (ct_live s1) = (lastSeen events)(conn := None)"
    "\<And>st. ct_counts s1 st = inState st (ct_live s1)"
  proof -
    show "distinct (map fst (ct_live s1))" using s(1) by (simp add: s1_def distinct_delete split: option.split)
    show "map_of (ct_live s1) = (lastSeen events)(conn := None)"
      using s(2) by (auto simp: s1_def delete_conv split: option.split)
    show "ct_counts s1 st = inState st (ct_live s1)" for st
      using s(3) inState_delete [OF s(1)] by (auto simp: s1_def split: option.split)
  qed
  have fresh: "conn \<notin> fst ` set (ct_live s1)" using one(2) by (metis fun_upd_same map_of_eq_None_iff)
  have step: "foldl connection_observe noConnections (events @ [e]) =
      (if state = 4 \<or> state = 3 then s1
       else s1\<lparr>ct_live := ct_live s1 @ [(conn, state)], ct_counts := (ct_counts s1)(state := ct_counts s1 state + 1)\<rparr>)"
    using fresh by (simp add: e s_def [symmetric] connection_observe_def s1_def [symmetric] Let_def update_new)
  have seen: "lastSeen (events @ [e]) = (lastSeen events)(conn := (if state = 4 \<or> state = 3 then None else Some state))"
    by (auto simp: lastSeen_def e fun_eq_iff)
  have "map_of (ct_live s1 @ [(conn, state)]) = (lastSeen events)(conn := Some state)"
    using one(2) fresh by (auto simp: map_of_append fun_eq_iff map_add_def split: option.split)
  then show ?case unfolding step seen using one fresh by auto
qed

subsection \<open>Deadlines\<close>

fun stepClock :: "writerStep \<Rightarrow> gotime" where
  "stepClock (BeginStep now live final) = now"
| "stepClock (EndStep now failed) = now"
| "stepClock (CancelStep now) = now"

text \<open>
  A response is only interrupted when one of its writes was begun in time, so an error that is written
  after the end of its request still goes out, with the whole timeout; an interrupted response keeps the
  deadline of a moment that is past, and a write that succeeded leaves none.
\<close>

lemma write_deadlines:
  assumes "w = foldl writerStep_run (newResponseDeadlineWriter timeout) steps"
  shows "(rw_interrupted w \<or> rw_started w \<or> rw_cancelable w \<longrightarrow> (\<exists>now final. BeginStep now True final \<in> set steps)) \<and>
     (rw_interrupted w \<longrightarrow> (\<exists>step \<in> set steps. rw_deadline w = Some (stepClock step))) \<and>
     (\<not> rw_interrupted w \<longrightarrow> rw_deadline w = None \<or>
        (\<exists>step \<in> set steps. rw_deadline w = Some (stepClock step + timeout))) \<and>
     (steps \<noteq> [] \<and> (\<exists>now. last steps = EndStep now False) \<and> \<not> rw_interrupted w \<longrightarrow> rw_deadline w = None) \<and>
     rw_timeout w = timeout"
  using assms
proof (induction steps arbitrary: w rule: rev_induct)
  case Nil
  then show ?case by (simp add: newResponseDeadlineWriter_def)
next
  case (snoc step steps)
  define w0 where "w0 = foldl writerStep_run (newResponseDeadlineWriter timeout) steps"
  have w: "w = writerStep_run w0 step" using snoc.prems by (simp add: w0_def)
  note ih = snoc.IH [OF w0_def]
  show ?case
  proof (cases step)
    case (BeginStep now live final)
    then show ?thesis using ih by (cases live) (auto simp: w beginWrite_def setDeadlineLocked_def Let_def)
  next
    case (EndStep now failed)
    then show ?thesis using ih by (auto simp: w endWrite_def setDeadlineLocked_def Let_def)
  next
    case (CancelStep now)
    then show ?thesis using ih by (auto simp: w interruptOnCancel_def setDeadlineLocked_def)
  qed
qed

end
