(* ===== verification/Spec2Isabelle.thy ===== *)
theory Spec2Isabelle
  imports Service_Properties Controller_Contract Shape_Request Shape_Strings UsageCapture_Correct RequestFlow_Safety PromptCost_Correct
    Startup Endpoints_Correct
begin

text \<open>
  Phala inference guard sits in front of one inference backend. It decides for every request
  whether the backend can take it without its throughput falling below a reference, follows
  the requests it lets through, and learns from the backend's metrics what they cost.

  The core of that decision is \<open>src/internal/admission\<close>:
  \<^item> \<open>Prelude\<close> and \<open>Float64\<close> hold the machine integers, the time line and the floating point numbers
    that everything uses, with the lemmas that the components share.
  \<^item> \<open>Demand\<close> holds the vocabulary of \<open>types.go\<close> and \<open>tps_demand.go\<close>.
  \<^item> \<open>Exposure\<close> is \<open>sequence_exposure.go\<close>: a ledger that integrates the number of forwarded and
    responding sequences over time in 128-bit pairs of words.
  \<^item> \<open>TpsWindow\<close> is \<open>tps_window.go\<close>: a ring of 61 one-second buckets that turns samples of the
    backend's token counter into a throughput per active sequence.
  \<^item> \<open>Overlay\<close> is \<open>reservation.go\<close> and \<open>numeric.go\<close>: what a reservation contributes to the state of
    the decision while the backend does not report it yet. Its locale \<open>accounting\<close> states what
    the controller needs of the overlay arithmetic.
  \<^item> \<open>Gate\<close> is \<open>projector.go\<close>, \<open>tps_gate.go\<close>, \<open>admission_bounds.go\<close> and \<open>policy.go\<close>: the
    stateless decision.
  \<^item> \<open>Histogram\<close> is \<open>window_concurrency_histogram.go\<close>.
  \<^item> \<open>Controller\<close> is \<open>controller.go\<close> and \<open>policy_update.go\<close>: the state machine that ties them
    together. \<open>Controller_Inv\<close>, \<open>Controller_Life\<close>, \<open>Controller_Publish\<close>, \<open>Controller_Reach\<close>,
    \<open>Controller_Total\<close> and \<open>Controller_Contract\<close> hold its invariant, the exact effect of every
    operation, the transition system with its reachable states, totality of the life cycle,
    and what clients rely on. \<open>Scenario\<close> is a concrete run used in the witnesses.

  Around it, in \<open>src/internal/app/server\<close> unless another place is named:
  \<^item> \<open>Evidence\<close>, \<open>Reporter\<close> and \<open>Durations\<close> are what is counted of decisions (\<open>admission_evidence.go\<close>,
    \<open>tps_evidence.go\<close>, \<open>admission_reporter.go\<close>) and of durations (\<open>observability/histogram\<close>); \<open>Runtime\<close> is
    the service around the controller and its projection for the router (\<open>admission_runtime.go\<close>,
    \<open>admission_projection.go\<close>). \<open>Service\<close> states what a service promises as a locale.
  \<^item> \<open>PriorityQueue\<close> is \<open>priority_admission.go\<close>, the queue that orders requests in front of the runtime.
    \<open>Queue_Steps\<close>, \<open>Queue_Safety\<close> and \<open>Queue_Live\<close> prove its order, its answers and its progress over any
    service of the locale \<open>queue_delegate\<close>, \<open>Queue_Runtime\<close> interprets that on the runtime, and
    \<open>Service_Properties\<close> states the results for it.
  \<^item> \<open>Shape\<close> is the single-pass scanner \<open>domain/request/tps_shape.go\<close>. \<open>Shape_Total\<close> shows that it returns,
    \<open>Shape_Grammar\<close> and \<open>Shape_Accepts\<close> that it accepts JSON, \<open>Shape_Request\<close> and \<open>Shape_Strings\<close> what it finds.
  \<^item> \<open>Scheduling\<close> and \<open>Scheduling_Rewrite\<close>, \<open>Classify\<close> and \<open>Classify_Correct\<close> are \<open>app/request\<close>: the priority that
    is written into a body, and the classifier with its budget of bodies. \<open>PromptCost\<close> and \<open>PromptCost_Correct\<close>
    are the mirror of the prefix cache in \<open>prompt_cost.go\<close>.
  \<^item> \<open>UsageCapture\<close> and \<open>UsageCapture_Correct\<close> are \<open>infra/openai/completion_usage.go\<close>, \<open>ResponseEvidence\<close> is
    \<open>request_evidence.go\<close> and \<open>response_usage_evidence.go\<close>, \<open>UpstreamError\<close> is \<open>domain/upstreamerror\<close>.
  \<^item> \<open>RequestFlow\<close> is the life of a generation request in \<open>proxy.go\<close> and \<open>server_setup.go\<close>, as steps that
    requests take side by side; \<open>RequestFlow_Safety\<close> shows over the locale \<open>request_service\<close> that they give back
    what they take.
  \<^item> \<open>Prometheus\<close> and \<open>Samples\<close> are \<open>infra/prometheus\<close> and \<open>runtime/telemetry\<close>: from the text of the backend's
    metrics to a sample. \<open>Observer\<close> is the poller that publishes samples and the construction of the
    service (\<open>admission_backend_observer.go\<close>, \<open>predictive_backend_probe.go\<close>, \<open>predictive_running_limit.go\<close>,
    \<open>predictive_factory.go\<close>); \<open>Observer_Correct\<close> and \<open>Startup\<close> show what they guarantee.
  \<^item> \<open>Endpoints\<close> and \<open>Endpoints_Correct\<close> are the routes, the token, readiness and status, the policy over HTTP, and
    the connections and write deadlines (\<open>route_policy.go\<close>, \<open>upstream_status.go\<close>, \<open>readiness.go\<close>,
    \<open>predictive_policy_api.go\<close>, \<open>http_io.go\<close>).

  How they interact. A request passes the routes, is classified, decided by the service (in enforce mode
  through the queue), forwarded, and its response is scanned for its usage; each of these tells the
  controller, by the handle of the reservation, that it was forwarded, has answered and has ended. The
  poller tells it what the backend reports. All of this meets in the operations of the controller, which
  hold its mutex.

  Correspondence. A Go struct is a record with prefixed fields, an enumeration a datatype (the
  empty string or an unknown number keeps a constructor where the code distinguishes it), a
  \<open>(T, bool)\<close> result an option, and an operation that may fail after changing its receiver a
  pair of the new state and the result. A panic is \<open>None\<close>. \<open>int64\<close> values are \<open>int\<close> with the code's own
  range checks (and \<open>wrap64\<close> where nothing is checked), \<open>uint64\<close> counters are \<open>nat\<close> with the code's
  comparison with the maximum, the exposure words are \<open>64 word\<close>. \<open>float64\<close> is the type \<open>f64\<close> of
  \<open>Float64\<close>: exact rationals, rounded to nearest even after each operation, with infinities and
  NaN. A Go map is an association list with distinct keys in some iteration order, or a function. Times
  are nanoseconds on one time line; an operation that reads the clock or asks a context whether it has
  ended takes the reading as an argument. A mutex held from the first to the last statement makes an
  operation one function. A reader is the list of the results of its reads. The bytes of a Go string are
  a list of \<open>char\<close>.

  Bounds and fuel. The scanner takes fuel, and \<open>scan_returns\<close> shows that the fuel it is started with is enough
  for every body. Every other loop is recursion over its data or has a proved measure.

  Arguments. \<open>encoding/json\<close>, \<open>strconv.ParseFloat\<close> and \<open>Unquote\<close>, \<open>strings.EqualFold\<close>, \<open>mime.ParseMediaType\<close>,
  \<open>url.Parse\<close> and the hash of a model's name are arguments of the definitions that use them. The one
  assumption made of them is that the hash, a lower-case hexadecimal string, is not changed by trimming and
  lower case.

  In \<open>RequestFlow\<close> the service decides in one step. With the queue in between, the steps of the
  queue are those of \<open>PriorityQueue\<close>, whose properties are stated of the runtime behind it.

  Not modelled: the text of metrics and logs, attestation (hardware, sockets and cryptographic libraries),
  configuration from the environment, the HTTP transport and the wrappers around it, listening and
  shutdown of the process, and the simulator. They consist of input and output, or format values
  whose computation is modelled.
\<close>

section \<open>The admission controller\<close>

text \<open>C1: In every reachable state the incrementally kept overlay is the one the code's own slow
  recomputation gives, and the exposure ledger counts exactly the forwarded and the responding
  sequences of the reservations.\<close>
theorem reachable_accounting:
  assumes "reachable c"
  shows "slowOverlay c = Some (ac_overlay c) \<and>
     el_activeForwarded (ac_exposure c) = sumOf forwardedOf (ac_reservations c) \<and>
     el_activeResponse (ac_exposure c) = sumOf responseOf (ac_reservations c) \<and>
     ledger_valid (ac_exposure c) \<and> distinct (keys (ac_reservations c))"
  using reachable_inv [OF assms] by (simp add: controller_inv_def inv_res_def slowOverlay_total)

lemma reachable_accounting_witness:
  "slowOverlay demoForwarded = Some (ac_overlay demoForwarded) \<and>
     el_activeForwarded (ac_exposure demoForwarded) = 2"
  using reachable_accounting [OF demoForwarded_reachable]
  by (simp add: demoForwarded_facts(2-) forwarded_item_def forwardedOf_def demoItem zeroReservation_def demoDemand_fields)

text \<open>C2: The steps of a request's life succeed whenever they are due: a reserved reservation can be
  forwarded, a forwarded one can respond, and a live one can be terminated with any valid cause.
  Only an exhausted event counter or a ledger without room can prevent it.\<close>
theorem life_cycle_total:
  assumes "reachable c" "life_ready c h item clk"
  shows "(rv_phase item = reservationReserved \<longrightarrow> snd (MarkForwarded c h clk)) \<and>
     (rv_phase item = reservationForwarded \<longrightarrow> snd (MarkFirstByte c h clk)) \<and>
     (rv_phase item \<noteq> reservationResidualDebt \<and> TerminalCause_valid cause \<longrightarrow>
        snd (Terminate c h cause clk))"
  using MarkForwarded_total MarkFirstByte_total Terminate_total reachable_inv [OF assms(1)] assms(2)
  by (metis snd_conv)

lemma life_cycle_total_witness: "snd (MarkForwarded demoAdmitted demoHandle (demoAt 4))"
  using life_cycle_total [OF demoAdmitted_reachable demoForwarded_ready]
  by (simp add: demoItem zeroReservation_def)

text \<open>C3: A reservation is terminated at most once: after a termination has succeeded, its handle
  changes nothing any more, whatever other operations come in between.\<close>
theorem terminate_once:
  assumes "reachable c" "Terminate c h cause clk = (c', True)"
  shows "let c'' = foldl perform c' ops
     in MarkForwarded c'' h clk' = (c'', False) \<and> MarkFirstByte c'' h clk' = (c'', False) \<and>
        Terminate c'' h cause' clk' = (c'', False)"
proof -
  have inv: "controller_inv c" using reachable_inv [OF assms(1)] .
  have t: "terminate c (rh_runtimeEpoch h) (rh_id h) cause clk = (c', True)"
    using assms(2) by (simp add: Terminate_def split: if_splits)
  have "finished (rh_id h) c'" using Terminate_finished [OF inv t] .
  moreover have "controller_inv c'"
    using perform_inv [OF inv, of "OpTerminate h cause clk"] assms(2) by simp
  ultimately show ?thesis using finished_run finished_handle unfolding Let_def by blast
qed

lemma terminate_once_witness:
  "Terminate (foldl perform demoDebt [OpClose]) demoHandle TerminalError (demoAt 9) =
     (foldl perform demoDebt [OpClose], False)"
  using terminate_once [OF demoForwarded_reachable demoDebt_eq] unfolding Let_def by blast


text \<open>C4: A sheddable request is admitted only when, with it, the running limit (when there is one) and
  the window concurrency still hold, and at most the allowed number of requests waits; the
  reservation is accounted for at once.\<close>
theorem admission_respects_bounds:
  assumes "Sheddable (dm_Tier d)" "Admit c now d = (c', result)" "Admitted (ar_Decision result)"
    and "reachable c"
  shows "ov_unobservedSequences (ac_overlay c') = ov_unobservedSequences (ac_overlay c) + dm_DecodeSequences d \<and>
     ov_unobservedSequences (ac_overlay c') \<le> ac_windowConcurrency c \<and>
     (0 < ac_runningLimit c \<longrightarrow>
        bo_Running (ob_observation (ac_observation c)) + bo_Waiting (ob_observation (ac_observation c)) +
        ov_unobservedSequences (ac_overlay c') \<le> ac_runningLimit c) \<and>
     bo_Waiting (ob_observation (ac_observation c)) \<le> ac_waitingAllowance c"
proof -
  obtain state share ov where a: "admits c now d state share ov" and c': "c' = admitted_state c d ov"
    using assms(2,3) by (cases rule: Admit_result [of c now d]) auto
  note s = admits_state [OF a]
  have "ov_unobservedSequences ov = ov_unobservedSequences (ac_overlay c) + dm_DecodeSequences d"
    using admits_overlay [OF reachable_inv [OF assms(4)] a] by blast
  moreover have "tps_gate_open (ap_tpsGate (ac_policy c)) state (ab_waitingAllowance (controllerBounds c)) d"
    "gd_fits (bounds_evaluate (controllerBounds c) state d)"
    using a assms(1) by (auto simp: admits_def policy_admits_iff)
  ultimately show ?thesis
    using s assms(1) by (auto simp: c' admitted_state_def tps_gate_open_def bounds_fits_iff controllerBounds_def)
qed

lemma admission_respects_bounds_witness:
  "ov_unobservedSequences (ac_overlay demoAdmitted) \<le> 4 \<and>
     2 + 1 + ov_unobservedSequences (ac_overlay demoAdmitted) \<le> 8"
  using admission_respects_bounds [OF _ demoAdmitted_eq demoAdmitted_state(3) demoObserved_reachable]
  by (simp add: demoDemand_fields demoObserved_fields demoObservation_fields)


text \<open>C5: A publication that is accepted without a runtime reset settles exactly the debts it has seen:
  a residual debt is dropped when its termination precedes the sample window and kept untouched
  otherwise; a live reservation is kept with its phase and demand.\<close>
theorem publication_settles_debts:
  assumes "reachable c" "PublishObservation c w ob clk = (c', res)" "pr_Accepted res" "\<not> pr_RuntimeReset res"
    and "map_of (ac_reservations c) k = Some r"
  shows "(rv_phase r = reservationResidualDebt \<longrightarrow>
        map_of (ac_reservations c') k =
          (if rv_terminalSequence r \<le> sw_eventSequence w then None else Some r)) \<and>
     (rv_phase r \<noteq> reservationResidualDebt \<longrightarrow>
        (\<exists>r'. map_of (ac_reservations c') k = Some r' \<and> rv_phase r' = rv_phase r \<and> rv_demand r' = rv_demand r))"
proof -
  have inv: "controller_inv c" using reachable_inv [OF assms(1)] .
  have "res_ok (ac_runtimeEpoch c) (ac_eventSequence c) (ac_nextReservationID c) k r"
    using inv_item assms(5) inv by (simp add: controller_inv_def)
  then have "rv_phase r = reservationResidualDebt \<Longrightarrow> 0 < rv_terminalSequence r" by (simp add: res_ok_def)
  moreover have "distinct (keys (ac_reservations c))" using inv by (simp add: controller_inv_def inv_res_def)
  ultimately show ?thesis
    using PublishObservation_sample [OF inv assms(2-4)] assms(5)
    by (auto simp: map_of_reconciled reconcileReservation_def Let_def)
qed

lemma publication_settles_debts_witness:
  "map_of (ac_reservations demoSampled2) 1 \<noteq> None \<and>
   map_of (ac_reservations (fst (PublishObservation demoSampled2 demoWindow2 demoObservation (demoAt 6)))) 1 = None"
proof -
  obtain r where r: "map_of (ac_reservations demoSampled2) 1 = Some r"
    "rv_phase r = reservationResidualDebt" "rv_terminalSequence r = 3"
    by (simp add: demoSampled2_fields demoDebt_facts(2-) debt_item_def)
  show ?thesis
    using publication_settles_debts [OF demoSampled2_reachable prod.collapse [symmetric] demoSettled_accepted r(1)] r
    by (simp add: demoSampled2_fields)
qed

text \<open>C6: A runtime reset ends the epoch: no reservation, no overlay and no exposure is left, and
  every handle given out before it is dead for good.\<close>
theorem reset_ends_epoch:
  assumes "PublishObservation c w ob clk = (c', res)" "pr_Accepted res" "pr_RuntimeReset res"
    and "rh_runtimeEpoch h \<le> ac_runtimeEpoch c"
  shows "ac_reservations c' = [] \<and> ac_overlay c' = zeroOverlay \<and> ac_exposure c' = zeroLedger \<and>
     (let c'' = foldl perform c' ops
      in MarkForwarded c'' h clk' = (c'', False) \<and> MarkFirstByte c'' h clk' = (c'', False) \<and>
         Terminate c'' h cause clk' = (c'', False))"
proof -
  have s: "ac_reservations c' = [] \<and> ac_overlay c' = zeroOverlay \<and> ac_exposure c' = zeroLedger \<and>
     ac_runtimeEpoch c' = ac_runtimeEpoch c + 1"
    using PublishObservation_reset [OF assms(1-3)] .
  then have "rh_runtimeEpoch h \<noteq> ac_runtimeEpoch (foldl perform c' ops)"
    using run_epoch [of c' ops] assms(4) by linarith
  then show ?thesis using s stale_handle by (simp add: Let_def)
qed

lemma reset_ends_epoch_witness:
  "ac_reservations demoSampled2 \<noteq> [] \<and>
   ac_reservations (fst (PublishObservation demoSampled2 demoWindow2 demoRestart (demoAt 6))) = []"
proof -
  have "rh_runtimeEpoch demoHandle \<le> ac_runtimeEpoch demoSampled2"
    by (simp add: demoAdmitted_state(2) demoSampled2_fields)
  then show ?thesis
    using reset_ends_epoch [OF prod.collapse [symmetric] demoRestart_accepted]
    by (simp add: demoSampled2_fields demoDebt_facts(2-))
qed

text \<open>C7: A sample window is published at most once: after an accepted publication, publishing the same
  window again is rejected and changes nothing, whatever has happened in between.\<close>
theorem sample_published_once:
  assumes "reachable c" "PublishObservation c w ob clk = (c', res)" "pr_Accepted res"
  shows "let c'' = foldl perform c' ops
     in fst (PublishObservation c'' w ob' clk') = c'' \<and> \<not> pr_Accepted (snd (PublishObservation c'' w ob' clk'))"
proof -
  have inv: "controller_inv c" using reachable_inv [OF assms(1)] .
  have "spent w c'" using PublishObservation_progress [OF inv, of w ob clk] assms(2,3) by simp
  moreover have "controller_inv c'" using perform_inv [OF inv, of "OpPublish w ob clk"] assms(2) by simp
  ultimately have "spent w (foldl perform c' ops)" using run_progress spent_progress by blast
  then show ?thesis by (simp add: Let_def spent_rejected rejectedPublication_def)
qed

lemma sample_published_once_witness:
  "\<not> pr_Accepted (snd (PublishObservation
      (fst (PublishObservation demoSampled2 demoWindow2 demoObservation (demoAt 6))) demoWindow2 demoObservation (demoAt 7)))"
  using sample_published_once [OF demoSampled2_reachable prod.collapse [symmetric] demoSettled_accepted(1), of "[]"]
  by (simp add: Let_def)

text \<open>C8: The order in which the code iterates over the map of reservations does not matter for a
  reconciliation: it gives the same overlay, the same liabilities and the same reservations.\<close>
theorem reconciliation_order_irrelevant:
  assumes "reachable c" "mset rs = mset (ac_reservations c)"
  shows "reconciledOverlay (c\<lparr>ac_reservations := rs\<rparr>) m ob now = reconciledOverlay c m ob now \<and>
     reconciledOverlay c m ob now \<noteq> None \<and>
     mset (ac_reservations (applyReconciliation (c\<lparr>ac_reservations := rs\<rparr>) m ob now)) =
       mset (ac_reservations (applyReconciliation c m ob now))"
  using reconciliation_order [OF reachable_inv [OF assms(1)] assms(2)]
    reconciledOverlay_total [OF reachable_inv [OF assms(1)], of m ob now] by auto

lemma reconciliation_order_irrelevant_witness: "reconciledOverlay demoDebt 3 demoObservation (demoAt 6) \<noteq> None"
  using reconciliation_order_irrelevant [OF demoDebt_reachable refl] by blast

text \<open>C9: A closed controller stays as it is: it has no reservations, no operation changes it, and it
  admits nothing.\<close>
theorem closed_is_final:
  assumes "reachable c" "ac_closedReason c \<noteq> ReasonEmpty"
  shows "ac_reservations c = [] \<and> foldl perform c ops = c \<and> \<not> Admitted (ar_Decision (snd (Admit c now d)))"
proof -
  have "\<not> admits c now d state share ov" for state share ov
    using assms(2) by (auto simp: admits_def stateLocked_def)
  then show ?thesis
    using reachable_inv [OF assms(1)] assms(2) Admit_refused run_closed
    by (simp add: controller_inv_def inv_res_def)
qed

lemma closed_is_final_witness: "foldl perform (Close demoForwarded) [OpClose] = Close demoForwarded"
proof -
  have "reachable (Close demoForwarded)" using reachable_perform [OF demoForwarded_reachable, of OpClose] by simp
  moreover have "ac_closedReason (Close demoForwarded) \<noteq> ReasonEmpty"
    by (simp add: Close_def failClosed_closed)
  ultimately show ?thesis using closed_is_final by blast
qed

text \<open>C10: A policy update compares and sets: it succeeds exactly when it is valid, the controller is
  open and it names the current revision; then it raises the revision by one, so that an update
  prepared for the old revision is refused, and leaves reservations, overlay and ledger alone.\<close>
theorem policy_update_compare_and_set:
  assumes "UpdatePolicy c u = (c', result, err)"
  shows "(err = None \<longleftrightarrow> validPolicyUpdate u \<and> ac_closedReason c = ReasonEmpty \<and>
        ac_policyRevision c \<noteq> MaxUint64 \<and> up_ExpectedRevision u = ac_policyRevision c) \<and>
     (err \<noteq> None \<longrightarrow> c' = c) \<and>
     (err = None \<longrightarrow> ac_policyRevision c' = ac_policyRevision c + 1 \<and>
        ac_windowConcurrency c' = override (ac_windowConcurrency c) (up_WindowConcurrency u) \<and>
        ac_runningLimit c' = override (ac_runningLimit c) (up_RunningLimit u) \<and>
        ac_waitingAllowance c' = override (ac_waitingAllowance c) (up_WaitingAllowance u) \<and>
        ac_reservations c' = ac_reservations c \<and> ac_overlay c' = ac_overlay c \<and> ac_exposure c' = ac_exposure c \<and>
        (\<forall>v. up_ExpectedRevision v = up_ExpectedRevision u \<longrightarrow> snd (snd (UpdatePolicy c' v)) \<noteq> None))"
proof -
  have e: "err = snd (snd (UpdatePolicy c u))" and c': "c' = fst (UpdatePolicy c u)" using assms by simp_all
  show ?thesis
    unfolding e c' UpdatePolicy_error_iff
    using UpdatePolicy_refused [of c u] UpdatePolicy_success [of c u]
    by (auto simp: policy_updatable_def)
qed

definition demoUpdate :: PolicyUpdate where
  "demoUpdate = \<lparr>up_ExpectedRevision = 1, up_TPSReference = None, up_WindowConcurrency = Some 6,
     up_RunningLimit = None, up_WaitingAllowance = Some 0, up_UpdatedAt = demoAt 9\<rparr>"

lemma policy_update_compare_and_set_witness:
  "ac_windowConcurrency (fst (UpdatePolicy demoObserved demoUpdate)) = 6 \<and>
   snd (snd (UpdatePolicy (fst (UpdatePolicy demoObserved demoUpdate)) demoUpdate)) \<noteq> None"
  using policy_update_compare_and_set [of demoObserved demoUpdate] 
  by (cases "UpdatePolicy demoObserved demoUpdate")
     (simp add: demoUpdate_def validPolicyUpdate_def demoObserved_fields override_def)


text \<open>C11: The capacity snapshot tells the truth: while ids, event numbers and the overlay have room, it
  calls the controller available exactly when the minimal request would be admitted.\<close>
theorem snapshot_agrees_with_admit:
  assumes "reachable c" "ac_nextReservationID c < MaxUint64" "ac_eventSequence c < MaxUint64"
    "int (length (ac_reservations c)) < 1048576" "ov_sequenceLiabilities (ac_overlay c) < MaxInt64"
  shows "cs_Available (Snapshot c now) \<longleftrightarrow> Admitted (ar_Decision (snd (Admit c now minimumDemand)))"
  using Admit_minimum_iff [OF reachable_inv [OF assms(1)] assms(2-5)] by simp

lemma snapshot_agrees_with_admit_witness:
  "cs_Available (Snapshot demoObserved (demoAt 3)) \<longleftrightarrow>
     Admitted (ar_Decision (snd (Admit demoObserved (demoAt 3) minimumDemand)))"
  by (rule snapshot_agrees_with_admit [OF demoObserved_reachable])
     (simp_all add: demoObserved_fields zeroOverlay_def)

section \<open>The admission policy\<close>

text \<open>Default and flex requests, the two sheddable tiers, are decided alike.\<close>
theorem sheddable_tiers_alike:
  assumes "Sheddable t" "Sheddable u"
  shows "policy_evaluateDemand p s (d\<lparr>dm_Tier := t\<rparr>) b = policy_evaluateDemand p s (d\<lparr>dm_Tier := u\<rparr>) b"
  using assms by (rule policy_tier_cong)

lemma sheddable_tiers_alike_witness:
  "policy_evaluateDemand (newAdmissionPolicy True 100) zeroProjectedState (demoDemand\<lparr>dm_Tier := TierDefault\<rparr>)
       (controllerBounds demoObserved) =
     policy_evaluateDemand (newAdmissionPolicy True 100) zeroProjectedState (demoDemand\<lparr>dm_Tier := TierFlex\<rparr>)
       (controllerBounds demoObserved)"
  by (rule sheddable_tiers_alike) simp_all

text \<open>Priority never loses to the other tiers: a state that admits a request of some tier admits the
  same request with priority.\<close>
theorem priority_admitted_too:
  assumes "pd_action (policy_evaluateDemand p s (d\<lparr>dm_Tier := t\<rparr>) b) = ActionAdmit" "0 \<le> ps_RawWaiting s"
  shows "pd_action (policy_evaluateDemand p s (d\<lparr>dm_Tier := TierPriority\<rparr>) b) = ActionAdmit"
  using assms by (rule policy_priority_weaker)

definition demoBounds :: admissionBounds where
  "demoBounds = \<lparr>ab_windowConcurrency = 4, ab_runningLimit = 8, ab_waitingAllowance = 3\<rparr>"

lemma priority_admitted_too_witness:
  "pd_action (policy_evaluateDemand (newAdmissionPolicy True 100) zeroProjectedState
     (demoDemand\<lparr>dm_Tier := TierPriority\<rparr>) demoBounds) = ActionAdmit"
proof (rule priority_admitted_too)
  show "pd_action (policy_evaluateDemand (newAdmissionPolicy True 100) zeroProjectedState
     (demoDemand\<lparr>dm_Tier := TierDefault\<rparr>) demoBounds) = ActionAdmit"
    unfolding policy_admits_iff tps_gate_open_def bounds_fits_iff
    by (simp add: zeroProjectedState_def zeroTPSSnapshot_def demoBounds_def demoDemand_def demand_valid_def zeroDemand_def)
qed (simp add: zeroProjectedState_def)



text \<open>C13: Cold prompts come one at a time: with ready and current evidence, a prompt-aware gate admits a
  sheddable request that is not known to be warm only when no cold one is pending and the window's
  mean is at the reference; while it is pending, the next cold one is refused.\<close>
theorem cold_prompt_exclusive:
  assumes "pd_action (policy_evaluateDemand p s d b) = ActionAdmit" "coldSheddable (ap_tpsGate p) d"
    "ts_Enabled (ps_TPS s)" "ts_Ready (ps_TPS s)" "iv_Qualified (ts_Latest (ps_TPS s))"
  shows "ps_ColdSheddablePending s \<le> 0 \<and> fle (ts_Reference (ps_TPS s)) (ts_MeanActiveTPS (ps_TPS s)) \<and>
     pd_action (policy_evaluateDemand p (s\<lparr>ps_ColdSheddablePending := 1\<rparr>) d b) = ActionProtect"
proof -
  have "tps_gate_open (ap_tpsGate p) s (ab_waitingAllowance b) d" using assms(1) by (simp add: policy_admits_iff)
  then have "ps_ColdSheddablePending s \<le> 0 \<and> fle (ts_Reference (ps_TPS s)) (ts_MeanActiveTPS (ps_TPS s))"
    using assms(2-5) coldSheddable_Sheddable [OF assms(2)] by (auto simp: tps_gate_open_def)
  moreover have "\<not> tps_gate_open (ap_tpsGate p) (s\<lparr>ps_ColdSheddablePending := 1\<rparr>) (ab_waitingAllowance b) d"
    using assms(2-5) by (simp add: tps_gate_open_def)
  then have "pd_action (policy_evaluateDemand p (s\<lparr>ps_ColdSheddablePending := 1\<rparr>) d b) \<noteq> ActionAdmit"
    by (simp add: policy_admits_iff)
  then have "pd_action (policy_evaluateDemand p (s\<lparr>ps_ColdSheddablePending := 1\<rparr>) d b) = ActionProtect"
    using policy_shape [of p "s\<lparr>ps_ColdSheddablePending := 1\<rparr>" d b] by auto
  ultimately show ?thesis by blast
qed

definition demoHealthy :: ProjectedState where
  "demoHealthy = zeroProjectedState\<lparr>ps_TPS := zeroTPSSnapshot\<lparr>ts_Reference := Fin 20, ts_Enabled := True,
     ts_Ready := True, ts_MeanActiveTPS := Fin 30, ts_Latest := \<lparr>iv_Qualified = True, iv_Tokens = 30,
       iv_DurationSeconds = Fin 1, iv_SequenceSeconds = Fin 1, iv_AggregateTPS = Fin 30, iv_MeanActiveTPS = Fin 30\<rparr>\<rparr>\<rparr>"

lemma cold_prompt_exclusive_witness:
  "pd_action (policy_evaluateDemand (newAdmissionPolicy True 100) (demoHealthy\<lparr>ps_ColdSheddablePending := 1\<rparr>)
     demoDemand demoBounds) = ActionProtect"
proof -
  have c: "coldSheddable (ap_tpsGate (newAdmissionPolicy True 100)) demoDemand"
    by (simp add: newAdmissionPolicy_def coldSheddable_def promptAware_def warm_def demoDemand_def zeroDemand_def)
  have "pd_action (policy_evaluateDemand (newAdmissionPolicy True 100) demoHealthy demoDemand demoBounds) = ActionAdmit"
    unfolding policy_admits_iff tps_gate_open_def bounds_fits_iff
    by (simp add: demoHealthy_def zeroProjectedState_def zeroTPSSnapshot_def demoBounds_def demoDemand_fields
        validTPSSnapshot_def validTPSIntervalSnapshot_def)
  from cold_prompt_exclusive [OF this c] show ?thesis by (simp add: demoHealthy_def)
qed

section \<open>Measurement\<close>

text \<open>C14: The exposure ledger integrates: after any sequence of events it accepts, within the range of a
  Go duration, its two times are the exact number of sequence nanoseconds, each event's change of
  the count times the time since it happened.\<close>
theorem ledger_integrates:
  assumes "ledger_run evs = Some l" "evs \<noteq> []" "fst (last evs) - fst (hd evs) \<le> MaxInt64"
  shows "int (snval (el_forwardedTime l)) = integral_at forwardedDelta evs (fst (last evs)) \<and>
     int (snval (el_responseTime l)) = integral_at responseDelta evs (fst (last evs)) \<and>
     el_activeForwarded l = count_at forwardedDelta evs \<and> el_activeResponse l = count_at responseDelta evs"
  using ledger_run_integral [OF assms] ledger_run_inv [OF assms(1)] by blast

lemma ledger_integrates_witness:
  "\<exists>l. ledger_run [(10, LForward 2), (15, LRemove 2 0)] = Some l \<and> int (snval (el_forwardedTime l)) = 10"
proof -
  have "addDuration zeroNanoseconds 5 2 = Some \<lparr>sn_high = 0, sn_low = 10\<rparr>" "addDuration zeroNanoseconds 5 0 = Some zeroNanoseconds"
    by (simp_all add: addDuration_Some_iff) (simp add: snval_def)
  then have "ledger_run [(10, LForward 2), (15, LRemove 2 0)] \<noteq> None"
    by (simp add: ledger_run_def zeroLedger_def addForwarded_def remove_exposure_def advance_def Let_def
        ledger_valid_iff IsZero_def zeroTime_def wrap64_def Sub_def snval_def)
       (simp add: zeroNanoseconds_def compare_ns_def)
  then obtain l where l: "ledger_run [(10, LForward 2), (15, LRemove 2 0)] = Some l" by blast
  then show ?thesis using ledger_integrates [OF l] by (simp add: integral_at_def)
qed

text \<open>Adding a duration for a number of sequences and subtracting are exact on the 128-bit pairs, or
  report that the result does not fit.\<close>
theorem sequence_nanoseconds_exact:
  assumes "0 \<le> d" "d \<le> MaxInt64" "0 \<le> q" "q \<le> MaxInt64"
  shows "(case addDuration n d q of
       Some r \<Rightarrow> snval r = snval n + nat d * nat q \<and> subtract r n \<noteq> None
     | None \<Rightarrow> 2 ^ 128 \<le> snval n + nat d * nat q) \<and>
     (subtract m n = Some k \<longleftrightarrow> snval k + snval n = snval m)"
proof -
  have "\<exists>r. addDuration n d q = Some r" if lt: "snval n + nat d * nat q < 2 ^ 128"
  proof -
    obtain r where "snval r = snval n + nat d * nat q" using snval_surj [OF lt] by blast
    then have "addDuration n d q = Some r" using addDuration_Some_iff [OF assms(2,4)] assms by blast
    then show ?thesis by blast
  qed
  then show ?thesis
    using addDuration_Some_iff [OF assms(2,4), of n] assms subtract_Some_iff subtract_None_iff
    by (auto split: option.split simp: not_le) fastforce+
qed

lemma sequence_nanoseconds_exact_witness:
  "addDuration zeroNanoseconds 5 7 \<noteq> None"
  using sequence_nanoseconds_exact [of 5 7 zeroNanoseconds] by (cases "addDuration zeroNanoseconds 5 7") simp_all



text \<open>C16: The throughput window accepts a sample: while its buckets have room and the sample is in
  range, observing it succeeds, with no bucket collision and no non-finite sum, and keeps the
  window well formed.\<close>
theorem window_accepts_samples:
  assumes "window_ok e w" "e \<le> sm_end s" "window_room w" "sample_bounded s"
  shows "\<exists>w'. window_observe w s = (w', True) \<and> window_ok (sm_end s) w'"
  using window_observe_total [OF assms] window_observe_ok [OF assms(1,2)] by (metis prod.collapse)

definition demoSample :: tpsSample where
  "demoSample = \<lparr>sm_start = demoAt 10, sm_end = demoAt 12, sm_maximumInterval = demoAt 5, sm_generatedTokens = 90,
     sm_previousRunning = 1, sm_running = 2, sm_forwardedSequenceLiabilities = 0, sm_localExposureMeasured = True,
     sm_localForwardedSequenceSeconds = Fin 0, sm_localResponseSequenceSeconds = Fin 0\<rparr>"

lemma window_accepts_samples_witness: "\<exists>w'. window_observe (newTPSWindow (Fin 20)) demoSample = (w', True)"
proof -
  have "window_ok (demoAt 12) ((newTPSWindow (Fin 20))\<lparr>tw_denominator := zeroDenominator\<rparr>)"
    by (rule finite_reference_window) simp
  then have "window_ok (demoAt 12) (newTPSWindow (Fin 20))" by (simp add: newTPSWindow_def)
  moreover have "window_room (newTPSWindow (Fin 20))" by (simp add: window_room_def newTPSWindow_def)
  moreover have "sample_bounded demoSample" by (simp add: sample_bounded_def demoSample_def)
  ultimately show ?thesis
    using window_accepts_samples [of "demoAt 12" "newTPSWindow (Fin 20)" demoSample] by (auto simp: demoSample_def)
qed

text \<open>The histogram of window concurrency counts exactly, below the saturation of its counters: every
  bucket holds the number of observed values at or under its bound.\<close>
theorem histogram_exact:
  assumes "\<forall>v\<in>set vals. 0 \<le> v" "length vals < MaxUint64" "sum_list vals \<le> int MaxUint64"
  shows "histogram_snapshot (foldl histogram_observe zeroHistogram vals) =
     \<lparr>hs_Count = length vals, hs_Sum = nat (sum_list vals),
      hs_Buckets = map (\<lambda>b. \<lparr>hb_UpperBound = b, hb_CumulativeCount = length (filter (\<lambda>v. v \<le> b) vals)\<rparr>)
        windowConcurrencyHistogramBounds\<rparr>"
  using histogram_of_exact [OF assms] by (simp add: histogram_of_def histogram_snapshot_def map2_map_same)

lemma histogram_exact_witness:
  "hs_Sum (histogram_snapshot (foldl histogram_observe zeroHistogram [3, 40, 3])) = 46"
  using histogram_exact [of "[3, 40, 3]"] by simp

section \<open>Interfaces at the edge\<close>

text \<open>C17: An admission has one of three outcomes: it is granted, and then exactly one reservation with the
  next id is added and its handle returned; it is refused and nothing changes; or the controller
  fails closed.\<close>
theorem admit_outcome:
  assumes "reachable c" "Admit c now d = (c', result)"
  shows "if Admitted (ar_Decision result)
     then ac_nextReservationID c' = ac_nextReservationID c + 1 \<and>
       map_of (ac_reservations c) (ac_nextReservationID c') = None \<and>
       (\<exists>r. ac_reservations c' = AList.update (ac_nextReservationID c') r (ac_reservations c) \<and>
          rv_demand r = d \<and> rv_phase r = reservationReserved) \<and>
       ar_Handle result = \<lparr>rh_controller = Some (ac_self c), rh_runtimeEpoch = ac_runtimeEpoch c,
          rh_id = ac_nextReservationID c'\<rparr>
     else ar_Handle result = zeroHandle \<and> (c' = c \<or> ac_closedReason c' \<noteq> ReasonEmpty)"
proof (cases rule: Admit_result [of c now d])
  case refused
  then show ?thesis using assms(2) failClosed_closed by auto
next
  case (success state share ov)
  have "map_of (ac_reservations c) (ac_nextReservationID c + 1) = None"
    using inv_fresh_id [of c "ac_nextReservationID c + 1"] reachable_inv [OF assms(1)]
    by (simp add: controller_inv_def map_of_eq_None_iff)
  then show ?thesis
    using success assms(2)
    by (auto simp: admitted_state_def admitted_result_def Admitted_def decisionLocked_def admits_def new_item_def
        zeroReservation_def)
qed

lemma admit_outcome_witness: "ac_nextReservationID demoAdmitted = 1"
  using admit_outcome [OF demoObserved_reachable demoAdmitted_eq] demoAdmitted_state(3)
  by (simp add: demoObserved_fields)

text \<open>Parsing what a tier prints gives the tier back, also with surrounding blanks, and parsing never
  gives an invalid tier.\<close>
theorem tier_round_trip:
  "RequestTier_valid (ParseRequestTier text) \<and>
   list_all (\<lambda>t. ParseRequestTier (RequestTier_String t) = t \<and>
      ParseRequestTier ('' '' @ RequestTier_String t @ '' '') = t) RequestTiers"
proof -
  have "list_all (\<lambda>t. ParseRequestTier (RequestTier_String t) = t \<and>
      ParseRequestTier ('' '' @ RequestTier_String t @ '' '') = t) RequestTiers" by code_simp
  then show ?thesis by (simp add: ParseRequestTier_def Let_def)
qed

section \<open>Requests\<close>

definition demoBody :: string where
  \<open>demoBody = '' {"n": 2, "prompt": ["a", "b"], "stream":true}''\<close>

text \<open>C18: The request scanner always returns: whatever the bytes of the body and the endpoint are, its
  fuel is enough and it yields a shape and a verdict.\<close>
theorem scan_returns:
  "\<exists>shape accepted. ParseTPSRequestShape body endpoint = Some (shape, accepted)"
  using ParseTPSRequestShape_total [of body endpoint] by auto

text \<open>C19: The request scanner accepts exactly the JSON objects whose nesting is at most 128 levels, with
  white space around them; which fields they have, and whether the prompts and numbers in them are
  supported, does not matter.\<close>
theorem scan_accepts_json:
  assumes "endpoint \<noteq> EndpointUnknown" "int (length body) \<le> MaxInt64"
  shows "(\<exists>shape. ParseTPSRequestShape body endpoint = Some (shape, True)) \<longleftrightarrow>
     (\<exists>w s w'. ws w \<and> jobject maximumJSONShapeScanDepth s \<and> ws w' \<and> body = w @ s @ w')"
  using shape_accepts_iff [OF assms] unfolding jrequest_def .

lemma demoBody_shape:
  "ParseTPSRequestShape demoBody EndpointCompletions = Some (\<lparr>sh_BasePromptCount = 2, sh_DecodeSequences = 4, sh_Supported = True,
     sh_UnsupportedReason = '''', sh_StreamingPresent = True, sh_StreamingKnown = True, sh_Streaming = True\<rparr>, True)"
  by code_simp

lemma scan_accepts_json_witness:
  "\<exists>w s w'. ws w \<and> jobject maximumJSONShapeScanDepth s \<and> ws w' \<and> demoBody = w @ s @ w'"
proof -
  have l: "int (length demoBody) \<le> MaxInt64" by (simp add: demoBody_def)
  show ?thesis using scan_accepts_json [OF _ l, of EndpointCompletions] demoBody_shape by blast
qed

text \<open>C20: The shape of an accepted request is well formed: a supported one has at least one prompt, its number of
  decoded sequences is a multiple of the prompts that fits a signed 64-bit integer, and no reason is given; an
  unsupported one has no sequences and names the reason. A known streaming flag was present.\<close>
theorem scan_shape_bounds:
  assumes "ParseTPSRequestShape body endpoint = Some (shape, True)"
  shows "(if sh_Supported shape
      then 1 \<le> sh_BasePromptCount shape \<and> sh_BasePromptCount shape \<le> sh_DecodeSequences shape \<and>
           sh_DecodeSequences shape \<le> MaxInt64 \<and> sh_BasePromptCount shape dvd sh_DecodeSequences shape \<and>
           sh_UnsupportedReason shape = ''''
      else sh_DecodeSequences shape = 0 \<and> sh_UnsupportedReason shape = ''unsupported_request_shape'') \<and>
     (sh_Streaming shape \<longrightarrow> sh_StreamingKnown shape) \<and>
     (sh_StreamingKnown shape \<longrightarrow> sh_StreamingPresent shape)"
  using ParseTPSRequestShape_final [OF assms] unfolding shape_final_def .

lemma scan_shape_bounds_witness:
  "(2::int) \<le> 4 \<and> (2::int) dvd 4 \<and> sh_DecodeSequences (fst (the (ParseTPSRequestShape demoBody EndpointCompletions))) = 4"
  using scan_shape_bounds [OF demoBody_shape] by (simp add: demoBody_shape)

text \<open>A non-negative integer of the request is read as its decimal value, exactly when it is made of
  digits and the value fits a signed 64-bit integer.\<close>
theorem request_integer_exact:
  "parseNonnegativeInt64 s =
     (if s \<noteq> [] \<and> list_all isJSONDigit s \<and> foldl (\<lambda>a c. a * 10 + digitOf c) 0 s \<le> MaxInt64
      then Some (foldl (\<lambda>a c. a * 10 + digitOf c) 0 s) else None)"
  using parseNonnegativeInt64_eq [of s] unfolding decimalFrom_def .

text \<open>C21: A key of the request is compared as the string it denotes: with escapes, the comparison holds exactly
  when decoding gives the name, and every ASCII name is recognised when it is written with
  hexadecimal escapes.\<close>
theorem escaped_key_round_trip:
  "jsonStringSpanEquals \<lparr>ss_raw = raw, ss_escaped = True\<rparr> name = (unescape raw = Some name) \<and>
   (list_all (\<lambda>c. byte c < 128) name \<longrightarrow>
      jsonStringSpanEquals \<lparr>ss_raw = concat (map escapeChar name), ss_escaped = True\<rparr> name)"
  by (simp add: jsonStringSpanEquals_def escapedEquals_eq unescape_escape)

lemma escaped_key_round_trip_witness:
  "jsonStringSpanEquals \<lparr>ss_raw = concat (map escapeChar ''n''), ss_escaped = True\<rparr> ''n''"
  using escaped_key_round_trip [of "[]" "''n''"] by (simp add: byte_def)

end
